(* ===== verification/Prelude.thy ===== *)
theory Prelude
  imports Main "HOL-Library.AList" "HOL-Library.Multiset"
begin

text \<open>
  Shared vocabulary of the development.

  \<^item> Go maps. A \<open>map[K]V\<close> is an association list with distinct keys (\<open>gm_wf\<close>), so that
    \<open>len\<close> and \<open>range\<close> compute. \<open>m[k] = v\<close> is \<open>gm_set\<close>, \<open>delete(m, k)\<close> is
    \<open>gm_del\<close>, \<open>v, ok := m[k]\<close> is \<open>map_of m k\<close>.
  \<^item> Iteration. Go does not specify the order in which \<open>range\<close> visits a map and may use a
    different one each time. Every operation whose result depends on it takes the order as
    an argument \<open>ord\<close>; \<open>is_range ord\<close> says that it visits each entry exactly once.
  \<^item> Time. \<open>time.Time\<close> and \<open>time.Duration\<close> are integers (nanoseconds); the instant
    \<open>time.Now()\<close> is an argument of the operations that read the clock.
  \<^item> Contracts shared by several components, as locales: a pool of resources, a
    lifecycle (a state machine with a terminal state).
\<close>

named_theorems gomap_simps \<open>rewriting of map operations to lookups and key sets\<close>
named_theorems inv_intros \<open>preservation of component invariants\<close>

section \<open>Go maps\<close>

type_synonym ('k, 'v) gomap = "('k \<times> 'v) list"
type_synonym ('k, 'v) range_order = "('k \<times> 'v) list \<Rightarrow> ('k \<times> 'v) list"
type_synonym time = int
type_synonym duration = int

definition gm_wf :: "('k, 'v) gomap \<Rightarrow> bool" where
  "gm_wf m \<longleftrightarrow> distinct (map fst m)"

definition gm_set :: "('k, 'v) gomap \<Rightarrow> 'k \<Rightarrow> 'v \<Rightarrow> ('k, 'v) gomap" where
  "gm_set m k v = AList.update k v m"

definition gm_del :: "('k, 'v) gomap \<Rightarrow> 'k \<Rightarrow> ('k, 'v) gomap" where
  "gm_del m k = filter (\<lambda>e. fst e \<noteq> k) m"

definition gm_has :: "('k, 'v) gomap \<Rightarrow> 'k \<Rightarrow> bool" where
  "gm_has m k = (map_of m k \<noteq> None)"

definition gm_keys :: "('k, 'v) gomap \<Rightarrow> 'k set" where
  "gm_keys m = set (map fst m)"

definition is_range :: "('k, 'v) range_order \<Rightarrow> bool" where
  "is_range ord \<longleftrightarrow> (\<forall>m. mset (ord m) = mset m)"

lemma gm_wf_Nil [simp]: "gm_wf []"
  by (simp add: gm_wf_def)

lemma gm_wf_set [simp, inv_intros]: "gm_wf m \<Longrightarrow> gm_wf (gm_set m k v)"
  by (simp add: gm_wf_def gm_set_def distinct_update)

lemma gm_wf_del [simp, inv_intros]: "gm_wf m \<Longrightarrow> gm_wf (gm_del m k)"
  unfolding gm_wf_def gm_del_def by (induction m) auto

lemma map_of_gm_set [simp, gomap_simps]: "map_of (gm_set m k v) = (map_of m)(k \<mapsto> v)"
  by (simp add: gm_set_def update_conv')

lemma map_of_gm_del [simp, gomap_simps]: "map_of (gm_del m k) = (map_of m)(k := None)"
  unfolding gm_del_def by (induction m) (auto simp: fun_eq_iff)

lemma gm_keys_set [simp, gomap_simps]: "gm_keys (gm_set m k v) = insert k (gm_keys m)"
  by (auto simp: gm_keys_def gm_set_def dom_update)

lemma gm_keys_del [simp, gomap_simps]: "gm_keys (gm_del m k) = gm_keys m - {k}"
  by (auto simp: gm_keys_def gm_del_def)

lemma gm_keys_Nil [simp, gomap_simps]: "gm_keys [] = {}"
  by (simp add: gm_keys_def)

lemma gm_keys_finite [simp]: "finite (gm_keys m)"
  by (simp add: gm_keys_def)

lemma gm_keys_dom: "gm_keys m = dom (map_of m)"
  by (simp add: gm_keys_def dom_map_of_conv_image_fst)

lemma gm_has_keys: "gm_has m k \<longleftrightarrow> k \<in> gm_keys m"
  by (auto simp: gm_has_def gm_keys_dom)

lemma map_of_None_keys: "map_of m k = None \<longleftrightarrow> k \<notin> gm_keys m"
  by (auto simp: gm_keys_dom)

lemma map_of_Some_keys [intro]: "map_of m k = Some v \<Longrightarrow> k \<in> gm_keys m"
  by (auto simp: gm_keys_dom)

lemma gm_wf_entry: "gm_wf m \<Longrightarrow> (k, v) \<in> set m \<longleftrightarrow> map_of m k = Some v"
  by (simp add: gm_wf_def)

lemma gm_len_keys: "gm_wf m \<Longrightarrow> length m = card (gm_keys m)"
  unfolding gm_wf_def gm_keys_def by (metis distinct_card length_map)

lemma gm_del_absent [simp]: "k \<notin> gm_keys m \<Longrightarrow> gm_del m k = m"
  unfolding gm_del_def gm_keys_def by (induction m) auto

lemma gm_set_entries: "gm_wf m \<Longrightarrow> e \<in> set (gm_set m k v) \<Longrightarrow> e = (k, v) \<or> (e \<in> set m \<and> fst e \<noteq> k)"
  using gm_wf_entry [OF gm_wf_set, of m k v "fst e" "snd e"]
  by (cases e) (auto simp: gm_wf_entry split: if_splits)

lemma gm_set_new: "k \<notin> gm_keys m \<Longrightarrow> gm_set m k v = m @ [(k, v)]"
  unfolding gm_keys_def gm_set_def by (induction m) auto

lemma is_range_set: "is_range ord \<Longrightarrow> set (ord m) = set m"
  by (metis is_range_def set_mset_mset)

lemma is_range_Nil: "is_range ord \<Longrightarrow> ord m = [] \<longleftrightarrow> m = []"
  by (metis is_range_def mset_zero_iff)

lemma is_range_length: "is_range ord \<Longrightarrow> length (ord m) = length m"
  by (metis is_range_def size_mset)

lemma is_range_wf: "is_range ord \<Longrightarrow> gm_wf m \<Longrightarrow> gm_wf (ord m)"
  unfolding gm_wf_def is_range_def by (metis mset_eq_imp_distinct_iff mset_map)

lemma is_range_map_of:
  assumes "is_range ord" and "gm_wf m"
  shows "map_of (ord m) = map_of m"
proof
  fix k
  have "map_of (ord m) k = Some v \<longleftrightarrow> map_of m k = Some v" for v
    using assms by (metis gm_wf_entry is_range_set is_range_wf)
  then show "map_of (ord m) k = map_of m k"
    by (metis not_None_eq)
qed

lemma is_range_id [simp]: "is_range id" and is_range_rev [simp]: "is_range rev"
  by (simp_all add: is_range_def)

lemmas range_facts = is_range_set is_range_Nil is_range_length is_range_wf is_range_map_of

section \<open>Ranges of maps\<close>

lemma ran_upd_insert: "ran (m(k \<mapsto> v)) = insert v (ran (m(k := None)))"
  by (auto simp: ran_def)

lemma ran_split: "m k = Some v \<Longrightarrow> ran m = insert v (ran (m(k := None)))"
  by (metis fun_upd_triv ran_upd_insert)

lemma image_ran_upd_same: "m k = Some w \<Longrightarrow> f v = f w \<Longrightarrow> f ` ran (m(k \<mapsto> v)) = f ` ran m"
  by (simp add: ran_upd_insert ran_split [of m k w])

lemma image_ran_upd_new: "m k = None \<Longrightarrow> f ` ran (m(k \<mapsto> v)) = insert (f v) (f ` ran m)"
  by simp

lemma image_ran_del:
  assumes "m k = Some v" and "\<And>i w. m i = Some w \<Longrightarrow> f w = f v \<Longrightarrow> i = k"
  shows "f ` ran (m(k := None)) = f ` ran m - {f v}"
proof -
  have "f v \<notin> f ` ran (m(k := None))"
    using assms(2) by (force simp: ran_def split: if_splits)
  then show ?thesis by (simp add: ran_split [of m k v, OF assms(1)])
qed

section \<open>A pool of resources\<close>

text \<open>
  What a client of a pool relies on: an allocation hands out a free resource and marks it
  used, a release of a used resource makes it free again, and releasing anything else is
  harmless.
\<close>

locale resource_pool =
  fixes alloc :: "'s \<Rightarrow> ('r \<times> 's) option"
    and release :: "'r \<Rightarrow> 's \<Rightarrow> 's"
    and free :: "'s \<Rightarrow> 'r set"
    and used :: "'s \<Rightarrow> 'r set"
    and inv :: "'s \<Rightarrow> bool"
  assumes disjoint: "inv s \<Longrightarrow> free s \<inter> used s = {}"
    and alloc_free: "inv s \<Longrightarrow> alloc s = Some (r, s') \<Longrightarrow> r \<in> free s"
    and alloc_state: "inv s \<Longrightarrow> alloc s = Some (r, s') \<Longrightarrow>
      free s' = free s - {r} \<and> used s' = insert r (used s) \<and> inv s'"
    and alloc_None: "inv s \<Longrightarrow> alloc s = None \<longleftrightarrow> free s = {}"
    and release_state: "inv s \<Longrightarrow> r \<in> used s \<Longrightarrow>
      free (release r s) = insert r (free s) \<and> used (release r s) = used s - {r}"
    and release_other: "inv s \<Longrightarrow> r \<notin> used s \<Longrightarrow> release r s = s"
    and release_inv: "inv s \<Longrightarrow> inv (release r s)"
begin

lemma alloc_fresh: "inv s \<Longrightarrow> alloc s = Some (r, s') \<Longrightarrow> r \<notin> used s"
  using disjoint alloc_free by blast

lemma alloc_conserves: "inv s \<Longrightarrow> alloc s = Some (r, s') \<Longrightarrow> free s' \<union> used s' = free s \<union> used s"
  by (frule (1) alloc_free, drule (1) alloc_state) auto

lemma release_conserves: "inv s \<Longrightarrow> free (release r s) \<union> used (release r s) = free s \<union> used s"
  by (cases "r \<in> used s") (use release_state release_other in auto)

lemma release_undoes_alloc:
  assumes "inv s" and "alloc s = Some (r, s')"
  shows "free (release r s') = free s \<and> used (release r s') = used s \<and> inv (release r s')"
proof -
  have s': "inv s'" "free s' = free s - {r}" "used s' = insert r (used s)"
    using alloc_state [OF assms] by auto
  then have "free (release r s') = insert r (free s') \<and> used (release r s') = used s' - {r}"
    by (simp add: release_state)
  with s' assms show ?thesis
    using alloc_free alloc_fresh by (auto simp: release_inv)
qed

lemma release_used_subset: "inv s \<Longrightarrow> used (release r s) = used s - {r}"
  by (cases "r \<in> used s") (use release_state release_other in auto)

lemma release_idem:
  assumes "inv s"
  shows "release r (release r s) = release r s"
proof -
  have "r \<notin> used (release r s)" using assms by (simp add: release_used_subset)
  with assms show ?thesis using release_other release_inv by blast
qed

end

section \<open>Lifecycles\<close>

text \<open>
  A lifecycle: a transition predicate whose steps strictly increase a bounded rank. Every
  run is then finite and the states of highest rank are terminal.
\<close>

locale lifecycle =
  fixes can :: "'s \<Rightarrow> 's \<Rightarrow> bool"
    and rank :: "'s \<Rightarrow> nat"
    and top :: nat
    and terminal :: "'s \<Rightarrow> bool"
  assumes can_rank: "can s t \<Longrightarrow> rank s < rank t"
    and rank_top: "rank s \<le> top"
    and terminal_top: "terminal s \<longleftrightarrow> rank s = top"
    and live_step: "\<not> terminal s \<Longrightarrow> \<exists>t. can s t \<and> terminal t"
begin

fun run :: "'s \<Rightarrow> 's list \<Rightarrow> bool" where
  "run s [] = True"
| "run s (t # ts) = (can s t \<and> run t ts)"

lemma terminal_stuck: "terminal s \<Longrightarrow> \<not> can s t"
  using can_rank rank_top terminal_top by (metis leD)

lemma not_refl: "\<not> can s s"
  using can_rank by blast

lemma run_rank: "run s ts \<Longrightarrow> rank s + length ts \<le> top"
proof (induction ts arbitrary: s)
  case Nil
  then show ?case by (simp add: rank_top)
next
  case (Cons t ts)
  then have "rank s < rank t" and "rank t + length ts \<le> top"
    by (auto intro: can_rank)
  then show ?case by simp
qed

lemma run_later: "run s ts \<Longrightarrow> t \<in> set ts \<Longrightarrow> rank s < rank t"
  by (induction ts arbitrary: s) (auto dest: can_rank intro: less_trans)

lemma run_distinct: "run s ts \<Longrightarrow> distinct (s # ts)"
proof (induction ts arbitrary: s)
  case (Cons t ts)
  then show ?case using run_later [OF Cons.prems] by auto
qed simp

end

end
