(* ===== verification/Port_Pool.thy ===== *)
theory Port_Pool
  imports Prelude
begin

text \<open>
  The RTP port pool of the media server (\<open>internal/rtpmanager/portpool/pool.go\<close>): the
  pool holds the even ports of a range, an allocation hands out an even RTP port with the
  odd port after it for RTCP. Which free port \<open>Allocate\<close> takes is Go's choice (the first
  key of a \<open>range\<close> over the map), so the order is an argument.
\<close>

record port_pool =
  pp_minPort :: int
  pp_maxPort :: int
  pp_available :: "(int, bool) gomap"
  pp_allocated :: "(int, bool) gomap"

datatype pool_error = NoPortsAvailable int int

function PortPool_fill :: "int \<Rightarrow> int \<Rightarrow> (int, bool) gomap \<Rightarrow> (int, bool) gomap" where
  "PortPool_fill port maxPort available =
     (if port < maxPort
      then PortPool_fill (port + 2) maxPort (gm_set available port True)
      else available)"
  by pat_completeness auto
termination
  by (relation "measure (\<lambda>(port, maxPort, available). nat (maxPort - port))") auto

declare PortPool_fill.simps [simp del]

definition NewPortPool :: "int \<Rightarrow> int \<Rightarrow> port_pool" where
  "NewPortPool minPort maxPort =
     (let minPort' = (if minPort mod 2 \<noteq> 0 then minPort + 1 else minPort) in
      \<lparr>pp_minPort = minPort', pp_maxPort = maxPort,
       pp_available = PortPool_fill minPort' maxPort [],
       pp_allocated = []\<rparr>)"

definition PortPool_Allocate ::
  "(int, bool) range_order \<Rightarrow> port_pool \<Rightarrow> port_pool \<times> (pool_error + int \<times> int)" where
  "PortPool_Allocate ord p =
     (case ord (pp_available p) of
        [] \<Rightarrow> (p, Inl (NoPortsAvailable (pp_minPort p) (pp_maxPort p)))
      | (port, _) # _ \<Rightarrow>
          (p\<lparr>pp_available := gm_del (pp_available p) port,
             pp_allocated := gm_set (pp_allocated p) port True\<rparr>,
           Inr (port, port + 1)))"

definition PortPool_Release :: "int \<Rightarrow> port_pool \<Rightarrow> port_pool" where
  "PortPool_Release rtpPort p =
     (if gm_has (pp_allocated p) rtpPort
      then p\<lparr>pp_allocated := gm_del (pp_allocated p) rtpPort,
             pp_available := gm_set (pp_available p) rtpPort True\<rparr>
      else p)"

definition PortPool_Available :: "port_pool \<Rightarrow> nat" where
  "PortPool_Available p = length (pp_available p)"

definition PortPool_Allocated :: "port_pool \<Rightarrow> nat" where
  "PortPool_Allocated p = length (pp_allocated p)"

section \<open>Invariant\<close>

abbreviation pp_free :: "port_pool \<Rightarrow> int set" where
  "pp_free p \<equiv> gm_keys (pp_available p)"

abbreviation pp_used :: "port_pool \<Rightarrow> int set" where
  "pp_used p \<equiv> gm_keys (pp_allocated p)"

text \<open>The ports a pool may ever hand out: the even ports of its range.\<close>

definition pp_ports :: "port_pool \<Rightarrow> int set" where
  "pp_ports p = {x. pp_minPort p \<le> x \<and> x < pp_maxPort p \<and> even x}"

definition pp_inv :: "port_pool \<Rightarrow> bool" where
  "pp_inv p \<longleftrightarrow> gm_wf (pp_available p) \<and> gm_wf (pp_allocated p) \<and>
     pp_free p \<inter> pp_used p = {} \<and> pp_free p \<union> pp_used p = pp_ports p"

lemma PortPool_fill_keys:
  "even port \<Longrightarrow> gm_keys (PortPool_fill port maxPort av) =
     gm_keys av \<union> {x. port \<le> x \<and> x < maxPort \<and> even x}"
proof (induction port maxPort av rule: PortPool_fill.induct)
  case (1 port maxPort av)
  show ?case
  proof (cases "port < maxPort")
    case True
    have "{x. port \<le> x \<and> x < maxPort \<and> even x} =
        insert port {x. port + 2 \<le> x \<and> x < maxPort \<and> even x}"
      using True "1.prems" by (auto, presburger)
    with "1.IH" [OF True] "1.prems" True show ?thesis
      by (auto simp: PortPool_fill.simps [of port maxPort av])
  next
    case False
    then show ?thesis by (auto simp: PortPool_fill.simps [of port maxPort av])
  qed
qed

lemma PortPool_fill_wf: "gm_wf av \<Longrightarrow> gm_wf (PortPool_fill port maxPort av)"
proof (induction port maxPort av rule: PortPool_fill.induct)
  case (1 port maxPort av)
  then show ?case by (auto simp: PortPool_fill.simps [of port maxPort av])
qed

lemma NewPortPool_inv [inv_intros]: "pp_inv (NewPortPool lo hi)"
  by (auto simp: pp_inv_def NewPortPool_def Let_def pp_ports_def PortPool_fill_wf
      PortPool_fill_keys even_iff_mod_2_eq_zero [symmetric])

lemma Allocate_Inr:
  "PortPool_Allocate ord p = (p', Inr (rtp, rtcp)) \<longleftrightarrow>
     (\<exists>b xs. ord (pp_available p) = (rtp, b) # xs) \<and> rtcp = rtp + 1 \<and>
     p' = p\<lparr>pp_available := gm_del (pp_available p) rtp,
            pp_allocated := gm_set (pp_allocated p) rtp True\<rparr>"
  unfolding PortPool_Allocate_def by (auto split: list.splits)

lemma Allocate_Inl:
  "PortPool_Allocate ord p = (p', Inl e) \<longleftrightarrow>
     ord (pp_available p) = [] \<and> p' = p \<and> e = NoPortsAvailable (pp_minPort p) (pp_maxPort p)"
  unfolding PortPool_Allocate_def by (auto split: list.splits)

lemma Allocate_picks:
  assumes "is_range ord" and "PortPool_Allocate ord p = (p', Inr (rtp, rtcp))"
  shows "rtp \<in> pp_free p"
proof -
  from assms(2) obtain b xs where "ord (pp_available p) = (rtp, b) # xs"
    by (auto simp: Allocate_Inr)
  then have "(rtp, b) \<in> set (pp_available p)"
    using is_range_set [OF assms(1)] by (metis list.set_intros(1))
  then show ?thesis by (force simp: gm_keys_def)
qed

lemma Allocate_inv [inv_intros]:
  assumes "is_range ord" and "pp_inv p" and "PortPool_Allocate ord p = (p', Inr (rtp, rtcp))"
  shows "pp_inv p'"
proof -
  have "rtp \<in> pp_free p" using assms(1,3) by (rule Allocate_picks)
  moreover have "p' = p\<lparr>pp_available := gm_del (pp_available p) rtp,
      pp_allocated := gm_set (pp_allocated p) rtp True\<rparr>"
    using assms(3) by (simp add: Allocate_Inr)
  ultimately show ?thesis
    using assms(2) by (auto simp: pp_inv_def pp_ports_def)
qed

lemma Release_inv [inv_intros]: "pp_inv p \<Longrightarrow> pp_inv (PortPool_Release r p)"
  by (auto simp: PortPool_Release_def pp_inv_def pp_ports_def gm_has_keys)

section \<open>The pool meets the resource-pool contract\<close>

definition pp_alloc :: "(int, bool) range_order \<Rightarrow> port_pool \<Rightarrow> (int \<times> port_pool) option" where
  "pp_alloc ord p = (case PortPool_Allocate ord p of
     (p', Inr (rtp, _)) \<Rightarrow> Some (rtp, p') | (_, Inl _) \<Rightarrow> None)"

lemma pp_alloc_Some:
  "pp_alloc ord p = Some (r, p') \<longleftrightarrow> PortPool_Allocate ord p = (p', Inr (r, r + 1))"
  unfolding pp_alloc_def PortPool_Allocate_def by (auto split: list.splits)

lemma pp_alloc_None:
  assumes "is_range ord"
  shows "pp_alloc ord p = None \<longleftrightarrow> pp_free p = {}"
proof -
  have "pp_alloc ord p = None \<longleftrightarrow> ord (pp_available p) = []"
    unfolding pp_alloc_def PortPool_Allocate_def by (auto split: list.splits)
  then show ?thesis by (simp add: is_range_Nil [OF assms] gm_keys_def)
qed

locale port_range =
  fixes ord :: "(int, bool) range_order"
  assumes range: "is_range ord"
begin

lemma Allocate_changes:
  "pp_alloc ord p = Some (r, p') \<Longrightarrow>
     pp_free p' = pp_free p - {r} \<and> pp_used p' = insert r (pp_used p)"
  by (auto simp: pp_alloc_Some Allocate_Inr)

end

sublocale port_range \<subseteq> pool: resource_pool "pp_alloc ord" PortPool_Release pp_free pp_used pp_inv
proof (unfold_locales, goal_cases)
  case (1 s)
  then show ?case by (simp add: pp_inv_def)
next
  case (2 s r s')
  then show ?case using Allocate_picks [OF range] by (auto simp: pp_alloc_Some)
next
  case (3 s r s')
  then show ?case
    using Allocate_inv [OF range] Allocate_changes [OF 3(2)] by (auto simp: pp_alloc_Some)
next
  case (4 s)
  then show ?case by (simp add: pp_alloc_None range)
next
  case (5 s r)
  then show ?case by (simp add: PortPool_Release_def gm_has_keys)
next
  case (6 s r)
  then show ?case by (simp add: PortPool_Release_def gm_has_keys)
next
  case (7 s r)
  then show ?case by (rule Release_inv)
qed

context port_range
begin

lemmas port_fresh = pool.alloc_fresh
lemmas port_state = pool.alloc_state
lemmas port_conserves = pool.alloc_conserves
lemmas port_release_undoes = pool.release_undoes_alloc

end

lemmas port_pool_fresh = port_range.port_fresh [OF port_range.intro]
lemmas port_pool_state = port_range.port_state [OF port_range.intro]
lemmas port_pool_conserves = port_range.port_conserves [OF port_range.intro]
lemmas port_pool_undoes = port_range.port_release_undoes [OF port_range.intro]

interpretation first_port: port_range id
  by unfold_locales simp

end
