(* ===== verification/Go_Std.thy ===== *)
theory Go_Std
  imports Prelude
begin

text \<open>
  The parts of Go's standard library the program calls and whose results matter to it:
  decimal formatting (\<open>fmt.Sprintf("%d", n)\<close>), the string searches of package
  \<open>strings\<close>, and the address syntax \<open>net.ParseIP\<close> accepts (the program only tests its
  result against \<open>nil\<close>, so the model answers that question). Strings are byte strings, as
  in Go.
\<close>

section \<open>Decimal formatting\<close>

definition digit_char :: "nat \<Rightarrow> char" where
  "digit_char d = ''0123456789'' ! (d mod 10)"

fun show_nat :: "nat \<Rightarrow> string" where
  "show_nat n = (if n < 10 then [digit_char n] else show_nat (n div 10) @ [digit_char (n mod 10)])"

declare show_nat.simps [simp del]

definition itoa :: "int \<Rightarrow> string" where
  "itoa n = (if n < 0 then ''-'' @ show_nat (nat (- n)) else show_nat (nat n))"

definition digit_val :: "char \<Rightarrow> nat option" where
  "digit_val c = (let n = of_char c in if 48 \<le> n \<and> n \<le> (57::nat) then Some (n - 48) else None)"

fun read_nat :: "nat \<Rightarrow> string \<Rightarrow> nat option" where
  "read_nat acc [] = Some acc"
| "read_nat acc (c # cs) = (case digit_val c of None \<Rightarrow> None | Some d \<Rightarrow> read_nat (10 * acc + d) cs)"

lemma mod10_cases: "(d::nat) mod 10 \<in> {0, 1, 2, 3, 4, 5, 6, 7, 8, 9}"
  by (simp, presburger)

lemma digit_val_char [simp]: "digit_val (digit_char d) = Some (d mod 10)"
proof -
  from mod10_cases [of d] show ?thesis by (auto simp: digit_val_def digit_char_def)
qed

lemma read_nat_append:
  "read_nat acc (xs @ ys) = (case read_nat acc xs of None \<Rightarrow> None | Some a \<Rightarrow> read_nat a ys)"
  by (induction xs arbitrary: acc) (auto split: option.splits)

lemma read_show_nat: "read_nat 0 (show_nat n) = Some n"
proof (induction n rule: show_nat.induct)
  case (1 n)
  show ?case
  proof (cases "n < 10")
    case True
    then show ?thesis by (simp add: show_nat.simps [of n])
  next
    case False
    with 1 show ?thesis by (simp add: show_nat.simps [of n] read_nat_append)
  qed
qed

lemma show_nat_inject [simp]: "show_nat m = show_nat n \<longleftrightarrow> m = n"
  by (metis option.inject read_show_nat)

lemma digit_char_not_minus: "digit_char d \<noteq> CHR ''-''"
proof -
  from mod10_cases [of d] show ?thesis by (auto simp: digit_char_def)
qed

lemma show_nat_nonempty [simp]: "show_nat n \<noteq> []"
  by (subst show_nat.simps) simp

lemma show_nat_digits: "c \<in> set (show_nat n) \<Longrightarrow> \<exists>d. c = digit_char d"
proof (induction n rule: show_nat.induct)
  case (1 n)
  then show ?case by (cases "n < 10") (auto simp: show_nat.simps [of n])
qed

lemma itoa_inject: "itoa m = itoa n \<longleftrightarrow> m = n"
proof -
  have pos: "hd (show_nat k) \<noteq> CHR ''-''" for k
    using show_nat_digits [of "hd (show_nat k)" k] digit_char_not_minus by (metis hd_in_set show_nat_nonempty)
  have neg: "CHR ''-'' # xs \<noteq> show_nat k" for k xs
    using pos [of k] by (cases "show_nat k") auto
  show ?thesis
    using neg neg [symmetric] by (auto simp: itoa_def)
qed

section \<open>Searching strings\<close>

definition HasPrefix :: "string \<Rightarrow> string \<Rightarrow> bool" where
  "HasPrefix s p = (take (length p) s = p)"

text \<open>\<open>strings.Index\<close> with a one-byte pattern; \<open>None\<close> is the result \<open>-1\<close>.\<close>

fun index_byte :: "char \<Rightarrow> string \<Rightarrow> nat option" where
  "index_byte c [] = None"
| "index_byte c (x # xs) = (if x = c then Some 0 else map_option Suc (index_byte c xs))"

lemma index_byte_None: "index_byte c s = None \<longleftrightarrow> c \<notin> set s"
  by (induction s) auto

lemma index_byte_Some:
  "index_byte c s = Some i \<Longrightarrow> i < length s \<and> s ! i = c \<and> c \<notin> set (take i s)"
  by (induction s arbitrary: i) (auto split: if_splits)

lemma index_byte_append: "c \<notin> set u \<Longrightarrow> index_byte c (u @ c # v) = Some (length u)"
  by (induction u) auto

section \<open>net.ParseIP\<close>

text \<open>
  \<open>parse_ipv4 s i pos val digLen prevDot\<close> is the loop of \<open>parseIPv4Fields\<close> at byte \<open>i\<close>:
  \<open>pos\<close> octets done, \<open>val\<close> and \<open>digLen\<close> of the octet being read, \<open>prevDot\<close> whether the
  byte before was a dot (or there was none).
\<close>

fun parse_ipv4 :: "string \<Rightarrow> nat \<Rightarrow> nat \<Rightarrow> nat \<Rightarrow> bool \<Rightarrow> bool" where
  "parse_ipv4 [] pos val digLen prevDot = (pos = 3)"
| "parse_ipv4 (c # cs) pos val digLen prevDot =
     (case digit_val c of
        Some d \<Rightarrow>
          if digLen = 1 \<and> val = 0 then False
          else if val * 10 + d > 255 then False
          else parse_ipv4 cs pos (val * 10 + d) (Suc digLen) False
      | None \<Rightarrow>
          if c = CHR ''.'' then
            (if prevDot \<or> cs = [] then False
             else if pos = 3 then False
             else parse_ipv4 cs (Suc pos) 0 0 True)
          else False)"

definition ParseIPv4 :: "string \<Rightarrow> bool" where
  "ParseIPv4 s = parse_ipv4 s 0 0 0 True"

definition hex_val :: "char \<Rightarrow> nat option" where
  "hex_val c = (let n = of_char c :: nat in
     if 48 \<le> n \<and> n \<le> 57 then Some (n - 48)
     else if 97 \<le> n \<and> n \<le> 102 then Some (n - 87)
     else if 65 \<le> n \<and> n \<le> 70 then Some (n - 55)
     else None)"

text \<open>The hexadecimal group at the front of \<open>s\<close>: its length and the rest; \<open>None\<close> where Go rejects it.\<close>

fun hex_group :: "nat \<Rightarrow> nat \<Rightarrow> string \<Rightarrow> (nat \<times> string) option" where
  "hex_group off acc [] = Some (off, [])"
| "hex_group off acc (c # cs) =
     (case hex_val c of
        None \<Rightarrow> Some (off, c # cs)
      | Some d \<Rightarrow> if off > 3 \<or> acc * 16 + d > 65535 then None
                 else hex_group (Suc off) (acc * 16 + d) cs)"

lemma hex_group_length: "hex_group off acc s = Some (off', r) \<Longrightarrow> off' + length r = off + length s"
  by (induction off acc s rule: hex_group.induct) (auto split: option.splits if_splits)

text \<open>
  The loop of \<open>parseIPv6\<close>: \<open>i\<close> bytes filled, \<open>ell\<close> whether an ellipsis was seen, \<open>s\<close> the
  rest of the input.
\<close>

function parse_ipv6 :: "nat \<Rightarrow> bool \<Rightarrow> string \<Rightarrow> bool" where
  "parse_ipv6 i ell s =
     (if i \<ge> 16 then (s = [] \<and> \<not> ell)
      else
        (case hex_group 0 0 s of
           None \<Rightarrow> False
         | Some (off, rest) \<Rightarrow>
             if off = 0 then False
             else if rest \<noteq> [] \<and> hd rest = CHR ''.'' then
               (if \<not> ell \<and> i \<noteq> 12 then False
                else if i + 4 > 16 then False
                else if \<not> ParseIPv4 s then False
                else if i + 4 < 16 then ell else \<not> ell)
             else
               (case rest of
                  [] \<Rightarrow> if i + 2 < 16 then ell else \<not> ell
                | c # r1 \<Rightarrow>
                    if c \<noteq> CHR '':'' then False
                    else (case r1 of
                            [] \<Rightarrow> False
                          | d # r2 \<Rightarrow>
                              if d = CHR '':'' then
                                (if ell then False
                                 else if r2 = [] then i + 2 < 16
                                 else parse_ipv6 (i + 2) True r2)
                              else parse_ipv6 (i + 2) ell r1))))"
  by pat_completeness auto
termination
  by (relation "measure (\<lambda>(i, ell, s). 16 - i)") auto

declare parse_ipv6.simps [simp del]

definition ParseIPv6 :: "string \<Rightarrow> bool" where
  "ParseIPv6 s =
     (if HasPrefix s ''::'' then
        (if drop 2 s = [] then True else parse_ipv6 0 True (drop 2 s))
      else parse_ipv6 0 False s)"

definition ParseIP :: "string \<Rightarrow> bool" where
  "ParseIP s =
     (case dropWhile (\<lambda>c. c \<noteq> CHR ''.'' \<and> c \<noteq> CHR '':'' \<and> c \<noteq> CHR ''%'') s of
        [] \<Rightarrow> False
      | c # _ \<Rightarrow>
          if c = CHR ''.'' then ParseIPv4 s
          else if c = CHR '':'' then CHR ''%'' \<notin> set s \<and> ParseIPv6 s
          else False)"

lemma ParseIP_empty [simp]: "\<not> ParseIP []"
  by (simp add: ParseIP_def)

end
