(* ===== verification/Sdp_Builder.thy ===== *)
theory Sdp_Builder
  imports Go_Std
begin

text \<open>
  The SDP answers of the media server (\<open>internal/rtpmanager/sdp/builder.go\<close>). The
  description the code builds is a record with the fields it sets; turning it into text is
  the third-party package \<open>pion/sdp\<close>, a parameter \<open>marshal\<close> (\<open>None\<close> is an error).
\<close>

record sdp_attribute =
  attr_Key :: string
  attr_Value :: string

record session_description =
  sd_Username :: string
  sd_SessionID :: nat
  sd_SessionVersion :: nat
  sd_NetworkType :: string
  sd_AddressType :: string
  sd_UnicastAddress :: string
  sd_SessionName :: string
  sd_ConnNetworkType :: string
  sd_ConnAddressType :: string
  sd_ConnAddress :: string
  sd_StartTime :: nat
  sd_StopTime :: nat
  sd_Media :: string
  sd_Port :: int
  sd_Protos :: "string list"
  sd_Formats :: "string list"
  sd_Attributes :: "sdp_attribute list"

record rtp_endpoint_info =
  ServerAddr :: string
  ServerPort :: int

type_synonym sdp_marshal = "session_description \<Rightarrow> string option"

definition sdp_attr :: "string \<Rightarrow> string \<Rightarrow> sdp_attribute" where
  "sdp_attr k v = \<lparr>attr_Key = k, attr_Value = v\<rparr>"

definition rtpmapMap :: "(string, string) gomap" where
  "rtpmapMap =
     [(''0'', ''PCMU/8000''), (''8'', ''PCMA/8000''), (''18'', ''G729/8000''),
      (''96'', ''opus/48000/2''), (''97'', ''iLBC/8000''), (''98'', ''speex/8000''),
      (''101'', ''telephone-event/8000''), (''99'', ''G723/8000''),
      (''100'', ''G726-32/8000'')]"

definition GetCodecAttributes :: "string list \<Rightarrow> sdp_attribute list" where
  "GetCodecAttributes formats =
     List.concat (map (\<lambda>format. case map_of rtpmapMap format of
               Some rtpmap \<Rightarrow> [sdp_attr ''rtpmap'' (format @ '' '' @ rtpmap)]
             | None \<Rightarrow> []) formats) @
     List.concat (map (\<lambda>format. if format = ''101'' then [sdp_attr ''fmtp'' ''101 0-15''] else []) formats) @
     [sdp_attr ''ptime'' ''20''] @ [sdp_attr ''sendrecv'' '''']"

definition getResponseAttributes :: "string list \<Rightarrow> sdp_attribute list" where
  "getResponseAttributes formats = GetCodecAttributes formats @ [sdp_attr ''rtcp-mux'' '''']"

definition responseDescription :: "rtp_endpoint_info \<Rightarrow> string \<Rightarrow> session_description" where
  "responseDescription rtpInfo selectedCodec =
     (let codec = (if selectedCodec = '''' then ''0'' else selectedCodec);
          formats = [codec] in
      \<lparr>sd_Username = ''switchboard'', sd_SessionID = 1, sd_SessionVersion = 1,
       sd_NetworkType = ''IN'', sd_AddressType = ''IP4'',
       sd_UnicastAddress = ServerAddr rtpInfo,
       sd_SessionName = ''Switchboard Media Session'',
       sd_ConnNetworkType = ''IN'', sd_ConnAddressType = ''IP4'',
       sd_ConnAddress = ServerAddr rtpInfo,
       sd_StartTime = 0, sd_StopTime = 0,
       sd_Media = ''audio'', sd_Port = ServerPort rtpInfo,
       sd_Protos = [''RTP'', ''AVP''], sd_Formats = formats,
       sd_Attributes = getResponseAttributes formats\<rparr>)"

text \<open>A \<open>nil\<close> slice is the empty string.\<close>

definition createResponseSDP :: "sdp_marshal \<Rightarrow> rtp_endpoint_info option \<Rightarrow> string \<Rightarrow> string" where
  "createResponseSDP marshal rtpInfo selectedCodec =
     (case rtpInfo of
        None \<Rightarrow> []
      | Some info \<Rightarrow>
          (case marshal (responseDescription info selectedCodec) of
             None \<Rightarrow> []
           | Some sdpBytes \<Rightarrow> sdpBytes))"

definition BuildResponseSDP :: "sdp_marshal \<Rightarrow> string \<Rightarrow> int \<Rightarrow> string \<Rightarrow> string" where
  "BuildResponseSDP marshal serverAddr serverPort selectedCodec =
     createResponseSDP marshal (Some \<lparr>ServerAddr = serverAddr, ServerPort = serverPort\<rparr>) selectedCodec"

section \<open>What an answer offers\<close>

lemma GetCodecAttributes_rtpmap:
  "sdp_attr ''rtpmap'' v \<in> set (GetCodecAttributes fs) \<longleftrightarrow>
     (\<exists>f\<in>set fs. \<exists>r. map_of rtpmapMap f = Some r \<and> v = f @ '' '' @ r)"
  by (force simp: GetCodecAttributes_def sdp_attr_def split: option.splits if_splits)

lemma responseDescription_fields:
  "sd_Port (responseDescription i c) = ServerPort i"
  "sd_ConnAddress (responseDescription i c) = ServerAddr i"
  "sd_Formats (responseDescription i c) = [if c = '''' then ''0'' else c]"
  "sd_Attributes (responseDescription i c) = getResponseAttributes [if c = '''' then ''0'' else c]"
  by (simp_all add: responseDescription_def Let_def)

end
