(* ===== verification/Media_Service.thy ===== *)
theory Media_Service
  imports Go_Std "HOL-Library.Word"
begin

text \<open>
  Playback in the media server (\<open>internal/rtpmanager/media/service.go\<close>, \<open>codec.go\<close>).
  \<open>Play\<close> starts a goroutine per playback; the model gives each goroutine a number and
  keeps, beside the code's map \<open>activeCalls\<close> from call to cancel function, the goroutines
  that still run (\<open>ls_running\<close>). A cancel function is the number of the playback it
  cancels. The end of a goroutine, with its deferred \<open>delete\<close>, is the step \<open>LocalService_finish\<close>;
  what it streams is \<open>streamAudio\<close>.
\<close>

section \<open>Codecs\<close>

type_synonym byte = "8 word"

record codec_config =
  cc_Name :: string
  cc_PayloadType :: int
  cc_SampleRate :: int

type_synonym codec_manager = "(string, codec_config) gomap"

definition CodecManager_Register :: "codec_manager \<Rightarrow> string \<Rightarrow> codec_config \<Rightarrow> codec_manager" where
  "CodecManager_Register cm codecName cfg = gm_set cm codecName cfg"

definition NewCodecManager :: codec_manager where
  "NewCodecManager =
     CodecManager_Register [] ''PCMU''
       \<lparr>cc_Name = ''PCMU'', cc_PayloadType = 0, cc_SampleRate = 8000\<rparr>"

definition CodecManager_Get :: "codec_manager \<Rightarrow> string \<Rightarrow> codec_config option" where
  "CodecManager_Get cm codecName = map_of cm codecName"

definition GetByPayloadTypeString ::
  "(string, codec_config) range_order \<Rightarrow> codec_manager \<Rightarrow> string \<Rightarrow> codec_config option" where
  "GetByPayloadTypeString ord cm ptStr =
     (case CodecManager_Get cm ptStr of
        Some cfg \<Rightarrow> Some cfg
      | None \<Rightarrow> map_option snd (find (\<lambda>(_, cfg). itoa (cc_PayloadType cfg) = ptStr) (ord cm)))"

definition GetByPayloadType ::
  "(string, codec_config) range_order \<Rightarrow> codec_manager \<Rightarrow> int \<Rightarrow> codec_config option" where
  "GetByPayloadType ord cm pt =
     map_option snd (find (\<lambda>(_, cfg). cc_PayloadType cfg = pt) (ord cm))"

section \<open>Starting and stopping playback\<close>

record play_request =
  pr_CallID :: string
  pr_File :: string
  pr_Codec :: string
  pr_LocalAddr :: string
  pr_LocalPort :: int
  pr_Endpoint :: string
  pr_Port :: int

text \<open>A running goroutine: its request, the context it was derived from, whether it was cancelled.\<close>

record playback =
  pb_req :: play_request
  pb_parent :: string
  pb_cancelled :: bool

record local_service =
  ls_codecs :: codec_manager
  ls_activeCalls :: "(string, nat) gomap"
  ls_running :: "(nat, playback) gomap"
  ls_next :: nat

datatype media_error =
    InvalidPlayRequest
  | UnsupportedCodec string
  | PlaybackAlreadyActive string
  | NoActivePlayback string

definition NewLocalService :: local_service where
  "NewLocalService =
     \<lparr>ls_codecs = NewCodecManager, ls_activeCalls = [], ls_running = [], ls_next = 0\<rparr>"

definition LocalService_Play ::
  "(string, codec_config) range_order \<Rightarrow> local_service \<Rightarrow> string \<Rightarrow> play_request \<Rightarrow>
   local_service \<times> media_error option" where
  "LocalService_Play ord s ctx req =
     (if pr_CallID req = '''' \<or> pr_File req = '''' \<or> pr_Codec req = '''' \<or> pr_Port req = 0
      then (s, Some InvalidPlayRequest)
      else
        (case GetByPayloadTypeString ord (ls_codecs s) (pr_Codec req) of
           None \<Rightarrow> (s, Some (UnsupportedCodec (pr_Codec req)))
         | Some codecCfg \<Rightarrow>
             if gm_has (ls_activeCalls s) (pr_CallID req)
             then (s, Some (PlaybackAlreadyActive (pr_CallID req)))
             else
               (s\<lparr>ls_activeCalls := gm_set (ls_activeCalls s) (pr_CallID req) (ls_next s),
                  ls_running := gm_set (ls_running s) (ls_next s)
                    \<lparr>pb_req = req, pb_parent = ctx, pb_cancelled = False\<rparr>,
                  ls_next := Suc (ls_next s)\<rparr>, None)))"

definition playback_cancel :: "nat \<Rightarrow> (nat, playback) gomap \<Rightarrow> (nat, playback) gomap" where
  "playback_cancel i run =
     (case map_of run i of
        None \<Rightarrow> run
      | Some pb \<Rightarrow> gm_set run i (pb\<lparr>pb_cancelled := True\<rparr>))"

definition LocalService_Stop :: "local_service \<Rightarrow> string \<Rightarrow> local_service \<times> media_error option" where
  "LocalService_Stop s callID =
     (case map_of (ls_activeCalls s) callID of
        None \<Rightarrow> (s, Some (NoActivePlayback callID))
      | Some cancel \<Rightarrow>
          (s\<lparr>ls_running := playback_cancel cancel (ls_running s),
             ls_activeCalls := gm_del (ls_activeCalls s) callID\<rparr>, None))"

text \<open>Cancelling a parent context cancels every playback derived from it.\<close>

definition cancel_parent :: "string \<Rightarrow> local_service \<Rightarrow> local_service" where
  "cancel_parent ctx s =
     s\<lparr>ls_running := map (\<lambda>(i, pb). (i, if pb_parent pb = ctx then pb\<lparr>pb_cancelled := True\<rparr> else pb))
         (ls_running s)\<rparr>"

text \<open>The goroutine returns: its deferred function deletes the entry of its call.\<close>

definition LocalService_finish :: "local_service \<Rightarrow> nat \<Rightarrow> local_service" where
  "LocalService_finish s i =
     (case map_of (ls_running s) i of
        None \<Rightarrow> s
      | Some pb \<Rightarrow>
          s\<lparr>ls_activeCalls := gm_del (ls_activeCalls s) (pr_CallID (pb_req pb)),
            ls_running := gm_del (ls_running s) i\<rparr>)"

section \<open>Streaming\<close>

definition frameSize :: nat where
  "frameSize = 160"

record rtp_packet =
  rp_PayloadType :: "8 word"
  rp_SequenceNumber :: "16 word"
  rp_Timestamp :: "32 word"
  rp_SSRC :: "32 word"
  rp_Payload :: "byte list"

datatype stream_outcome =
    StreamCompleted
  | StreamCanceled
  | ReadFailed
  | EncodeFailed
  | BindFailed
  | MarshalFailed
  | SendFailed

text \<open>
  What the loop meets outside the program: whether the context is done before the \<open>n\<close>-th
  frame, whether the RTP packet marshals (\<open>pion/rtp\<close>), whether the socket write succeeds.
\<close>

record stream_env =
  se_canceled :: "nat \<Rightarrow> bool"
  se_marshal :: "rtp_packet \<Rightarrow> byte list option"
  se_send :: "nat \<Rightarrow> byte list \<Rightarrow> bool"

function stream_frames ::
  "stream_env \<Rightarrow> byte list \<Rightarrow> 8 word \<Rightarrow> nat \<Rightarrow> nat \<Rightarrow> 16 word \<Rightarrow> 32 word \<Rightarrow> 32 word \<Rightarrow>
   rtp_packet list \<Rightarrow> rtp_packet list \<times> stream_outcome" where
  "stream_frames env audio pt i framesSent rtpSeq rtpTs ssrc sent =
     (if i + frameSize \<le> length audio then
        (if se_canceled env framesSent then (sent, StreamCanceled)
         else
           let frame = take frameSize (drop i audio);
               packet = \<lparr>rp_PayloadType = pt, rp_SequenceNumber = rtpSeq, rp_Timestamp = rtpTs,
                         rp_SSRC = ssrc, rp_Payload = frame\<rparr> in
           (case se_marshal env packet of
              None \<Rightarrow> (sent, MarshalFailed)
            | Some data \<Rightarrow>
                if se_send env framesSent data
                then stream_frames env audio pt (i + frameSize) (framesSent + 1) (rtpSeq + 1)
                       (rtpTs + of_nat frameSize) ssrc (sent @ [packet])
                else (sent, SendFailed)))
      else (sent, StreamCompleted))"
  by pat_completeness auto
termination
  by (relation "measure (\<lambda>(env, audio, pt, i, n, q, t, c, sent). length audio - i)")
    (auto simp: frameSize_def)

declare stream_frames.simps [simp del]

text \<open>
  \<open>readWAV\<close> and \<open>resample\<close> stand for reading the file and for the codec's resampler, the
  random start values are arguments.
\<close>

definition streamAudio ::
  "stream_env \<Rightarrow> (string \<Rightarrow> 'a option) \<Rightarrow> ('a \<Rightarrow> byte list option) \<Rightarrow> (int \<Rightarrow> bool) \<Rightarrow>
   16 word \<Rightarrow> 32 word \<Rightarrow> 32 word \<Rightarrow> play_request \<Rightarrow> codec_config \<Rightarrow>
   rtp_packet list \<times> stream_outcome" where
  "streamAudio env readWAV resample listen seqStart tsStart ssrc req codecCfg =
     (case readWAV (pr_File req) of
        None \<Rightarrow> ([], ReadFailed)
      | Some audioFile \<Rightarrow>
          (case resample audioFile of
             None \<Rightarrow> ([], EncodeFailed)
           | Some encodedAudio \<Rightarrow>
               if listen (pr_LocalPort req)
               then stream_frames env encodedAudio (word_of_int (cc_PayloadType codecCfg))
                      0 0 seqStart tsStart ssrc []
               else ([], BindFailed)))"

section \<open>Invariant of the service\<close>

text \<open>
  Every entry of \<open>activeCalls\<close> names an existing goroutine of that call. The converse does
  not hold: see the playback properties.
\<close>

definition ls_inv :: "local_service \<Rightarrow> bool" where
  "ls_inv s \<longleftrightarrow> gm_wf (ls_activeCalls s) \<and> gm_wf (ls_running s) \<and>
     (\<forall>i \<in> gm_keys (ls_running s). i < ls_next s) \<and>
     (\<forall>c i. map_of (ls_activeCalls s) c = Some i \<longrightarrow>
        (\<exists>pb. map_of (ls_running s) i = Some pb \<and> pr_CallID (pb_req pb) = c))"

lemma ls_inv_new [simp, inv_intros]: "ls_inv NewLocalService"
  by (simp add: ls_inv_def NewLocalService_def)

lemma map_of_playback_cancel:
  "map_of (playback_cancel i run) j =
     (if j = i then map_option (\<lambda>pb. pb\<lparr>pb_cancelled := True\<rparr>) (map_of run i) else map_of run j)"
  by (simp add: playback_cancel_def split: option.split)

lemma playback_cancel_keys [simp]: "gm_keys (playback_cancel i run) = gm_keys run"
  by (auto simp: playback_cancel_def split: option.split)

lemma playback_cancel_wf [simp]: "gm_wf run \<Longrightarrow> gm_wf (playback_cancel i run)"
  by (simp add: playback_cancel_def split: option.split)

lemma cancel_parent_running:
  "map_of (ls_running (cancel_parent ctx s)) i =
     map_option (\<lambda>pb. if pb_parent pb = ctx then pb\<lparr>pb_cancelled := True\<rparr> else pb)
       (map_of (ls_running s) i)"
proof -
  have "map_of (map (\<lambda>(i, pb). (i, f pb)) xs) i = map_option f (map_of xs i)" for f and xs :: "(nat \<times> playback) list"
    by (induction xs) auto
  then show ?thesis by (simp add: cancel_parent_def)
qed

lemma cancel_parent_keys [simp]: "gm_keys (ls_running (cancel_parent ctx s)) = gm_keys (ls_running s)"
  by (auto simp: gm_keys_def cancel_parent_def split_beta intro: rev_image_eqI)

lemma cancel_parent_wf: "gm_wf (ls_running s) \<Longrightarrow> gm_wf (ls_running (cancel_parent ctx s))"
  by (simp add: gm_wf_def cancel_parent_def split_beta comp_def)

lemma cancel_parent_active [simp]:
  "ls_activeCalls (cancel_parent ctx s) = ls_activeCalls s" "ls_next (cancel_parent ctx s) = ls_next s"
  by (simp_all add: cancel_parent_def)

text \<open>Whether goroutine \<open>j\<close> exists and plays for call \<open>c\<close>; cancelling does not change it.\<close>

abbreviation plays_for :: "(nat, playback) gomap \<Rightarrow> nat \<Rightarrow> string \<Rightarrow> bool" where
  "plays_for run j c \<equiv> \<exists>pb. map_of run j = Some pb \<and> pr_CallID (pb_req pb) = c"

lemma plays_for_cancel [simp]: "plays_for (playback_cancel i run) j c \<longleftrightarrow> plays_for run j c"
  by (cases "map_of run i") (auto simp: map_of_playback_cancel)

lemma plays_for_cancel_parent [simp]:
  "plays_for (ls_running (cancel_parent ctx s)) j c \<longleftrightarrow> plays_for (ls_running s) j c"
  by (cases "map_of (ls_running s) j") (auto simp: cancel_parent_running)

lemma ls_inv_cancel_parent [simp, inv_intros]: "ls_inv s \<Longrightarrow> ls_inv (cancel_parent ctx s)"
  by (simp add: ls_inv_def cancel_parent_wf)

lemma ls_inv_Stop [simp, inv_intros]: "ls_inv s \<Longrightarrow> ls_inv (fst (LocalService_Stop s c))"
  by (cases "map_of (ls_activeCalls s) c") (auto simp: ls_inv_def LocalService_Stop_def)

lemma ls_inv_finish [inv_intros]:
  assumes "ls_inv s"
  shows "ls_inv (LocalService_finish s i)"
proof (cases "map_of (ls_running s) i")
  case None
  with assms show ?thesis by (simp add: LocalService_finish_def)
next
  case (Some pb)
  have "plays_for (gm_del (ls_running s) i) j c"
    if "map_of (ls_activeCalls s) c = Some j" and "c \<noteq> pr_CallID (pb_req pb)" for c j
    using that assms Some by (fastforce simp: ls_inv_def)
  with assms Some show ?thesis
    by (auto simp: ls_inv_def LocalService_finish_def)
qed

lemma ls_inv_Play [inv_intros]:
  assumes "ls_inv s"
  shows "ls_inv (fst (LocalService_Play ord s ctx req))"
proof -
  have "ls_next s \<notin> gm_keys (ls_running s)" using assms by (auto simp: ls_inv_def)
  then have fresh: "map_of (ls_running s) (ls_next s) = None" by (simp add: map_of_None_keys)
  show ?thesis
    using assms fresh
    by (fastforce simp: ls_inv_def LocalService_Play_def less_Suc_eq split: option.splits)
qed

section \<open>What a stream sends\<close>

definition stream_packet ::
  "byte list \<Rightarrow> 8 word \<Rightarrow> 16 word \<Rightarrow> 32 word \<Rightarrow> 32 word \<Rightarrow> nat \<Rightarrow> rtp_packet" where
  "stream_packet audio pt q t c k =
     \<lparr>rp_PayloadType = pt, rp_SequenceNumber = q + of_nat k, rp_Timestamp = t + of_nat (160 * k),
      rp_SSRC = c, rp_Payload = take 160 (drop (160 * k) audio)\<rparr>"

text \<open>An environment in which marshalling and sending succeed.\<close>

definition stream_works :: "stream_env \<Rightarrow> bool" where
  "stream_works env \<longleftrightarrow> (\<forall>p. se_marshal env p \<noteq> None) \<and> (\<forall>n d. se_send env n d)"

lemma frame_room: "160 * k + 160 \<le> L \<longleftrightarrow> k < L div (160::nat)"
  using less_eq_div_iff_mult_less_eq [of 160 "Suc k" L] by (simp add: Suc_le_eq algebra_simps)

lemma stream_frames_from:
  assumes works: "stream_works env" and n: "n \<le> length audio div 160"
    and run: "\<forall>k<n. \<not> se_canceled env k"
    and stop: "n < length audio div 160 \<longrightarrow> se_canceled env n"
  shows "k \<le> n \<Longrightarrow>
    stream_frames env audio pt (160 * k) k (q + of_nat k) (t + of_nat (160 * k)) c sent =
      (sent @ map (stream_packet audio pt q t c) [k..<n],
       if n < length audio div 160 then StreamCanceled else StreamCompleted)"
proof (induction "n - k" arbitrary: k sent)
  case 0
  then have "k = n" by simp
  then show ?case
    using stop n by (subst stream_frames.simps) (simp add: frameSize_def frame_room)
next
  case (Suc d)
  then have k: "k < n" "d = n - Suc k" by auto
  have room: "160 * k + 160 \<le> length audio" using k(1) n by (simp add: frame_room)
  obtain data where data: "se_marshal env (stream_packet audio pt q t c k) = Some data"
    using works unfolding stream_works_def by blast
  have "stream_frames env audio pt (160 * k) k (q + of_nat k) (t + of_nat (160 * k)) c sent =
      stream_frames env audio pt (160 * Suc k) (Suc k) (q + of_nat (Suc k)) (t + of_nat (160 * Suc k)) c
        (sent @ [stream_packet audio pt q t c k])"
    using works run k(1) room data
    by (subst stream_frames.simps) (simp add: frameSize_def stream_packet_def Let_def stream_works_def algebra_simps)
  also have "\<dots> = ((sent @ [stream_packet audio pt q t c k]) @ map (stream_packet audio pt q t c) [Suc k..<n],
       if n < length audio div 160 then StreamCanceled else StreamCompleted)"
    using Suc.hyps(1) [OF k(2)] k(1) by simp
  finally show ?case using k(1) by (simp add: upt_conv_Cons)
qed

text \<open>
  Property C37. With a working socket, playback of an encoded file sends the first
  \<open>n\<close> frames, \<open>n\<close> being the frame at which the context is first seen done, or all the
  \<open>len/160\<close> full frames when it never is: consecutive sequence numbers (modulo \<open>2^16\<close>) and
  timestamps 160 apart (modulo \<open>2^32\<close>), one SSRC, the payloads the successive 160-byte blocks
  of the audio; a trailing partial block is never sent.
\<close>

theorem streamAudio_packets:
  assumes "stream_works env" and "readWAV (pr_File req) = Some wav" and "resample wav = Some audio"
    and "listen (pr_LocalPort req)"
    and "n \<le> length audio div 160" and "\<forall>k<n. \<not> se_canceled env k"
    and "n < length audio div 160 \<longrightarrow> se_canceled env n"
  shows "streamAudio env readWAV resample listen q t c req cfg =
    (map (stream_packet audio (word_of_int (cc_PayloadType cfg)) q t c) [0..<n],
     if n < length audio div 160 then StreamCanceled else StreamCompleted)"
  using stream_frames_from [OF assms(1,5,6,7), of 0 "word_of_int (cc_PayloadType cfg)" q t c "[]"] assms(2-4)
  by (simp add: streamAudio_def)

definition ex_env :: stream_env where
  "ex_env = \<lparr>se_canceled = (\<lambda>k. 1 \<le> k), se_marshal = (\<lambda>p. Some (rp_Payload p)), se_send = (\<lambda>_ _. True)\<rparr>"

definition ex_req :: play_request where
  "ex_req = \<lparr>pr_CallID = ''c1'', pr_File = ''a.wav'', pr_Codec = ''0'', pr_LocalAddr = ''10.0.0.1'',
     pr_LocalPort = 10000, pr_Endpoint = ''10.0.0.2'', pr_Port = 4000\<rparr>"

theorem streamAudio_packets_witness:
  "streamAudio ex_env (\<lambda>_. Some ()) (\<lambda>_. Some (replicate 400 1)) (\<lambda>_. True) 65535 7 9 ex_req
       \<lparr>cc_Name = ''PCMU'', cc_PayloadType = 0, cc_SampleRate = 8000\<rparr> =
     ([stream_packet (replicate 400 1) 0 65535 7 9 0], StreamCanceled)"
proof -
  have w: "stream_works ex_env" by (simp add: stream_works_def ex_env_def)
  show ?thesis
    using streamAudio_packets [OF w, of "\<lambda>_. Some ()" ex_req "()" "\<lambda>_. Some (replicate 400 1)" "replicate 400 1"
        "\<lambda>_. True" 1 65535 7 9 "\<lparr>cc_Name = ''PCMU'', cc_PayloadType = 0, cc_SampleRate = 8000\<rparr>"]
    by (simp add: ex_env_def)
qed

section \<open>Stopping a playback\<close>

inductive ls_reachable :: "local_service \<Rightarrow> bool" where
  ls_init: "ls_reachable NewLocalService"
| ls_play: "ls_reachable s \<Longrightarrow> ls_reachable (fst (LocalService_Play ord s ctx req))"
| ls_stop: "ls_reachable s \<Longrightarrow> ls_reachable (fst (LocalService_Stop s c))"
| ls_finish: "ls_reachable s \<Longrightarrow> ls_reachable (LocalService_finish s i)"
| ls_cancel: "ls_reachable s \<Longrightarrow> ls_reachable (cancel_parent ctx s)"

lemma ls_reachable_inv: "ls_reachable s \<Longrightarrow> ls_inv s"
  by (induction rule: ls_reachable.induct)
    (simp_all add: ls_inv_Play ls_inv_finish)

text \<open>
  In every reachable state of the playback service a successful \<open>Stop\<close> cancels a
  running playback of exactly that call, frees the call for a new \<open>Play\<close> and leaves the
  playbacks of other calls alone.
\<close>

theorem Stop_cancels_playback:
  assumes "ls_reachable s" and "LocalService_Stop s c = (s', None)"
  shows "\<exists>i pb. map_of (ls_running s) i = Some pb \<and> pr_CallID (pb_req pb) = c \<and>
      map_of (ls_running s') i = Some (pb\<lparr>pb_cancelled := True\<rparr>) \<and>
      (\<forall>j. j \<noteq> i \<longrightarrow> map_of (ls_running s') j = map_of (ls_running s) j) \<and>
      \<not> gm_has (ls_activeCalls s') c \<and>
      (\<forall>c'. c' \<noteq> c \<longrightarrow> map_of (ls_activeCalls s') c' = map_of (ls_activeCalls s) c')"
proof -
  obtain i where i: "map_of (ls_activeCalls s) c = Some i"
    and s': "s' = s\<lparr>ls_running := playback_cancel i (ls_running s), ls_activeCalls := gm_del (ls_activeCalls s) c\<rparr>"
    using assms(2) by (auto simp: LocalService_Stop_def split: option.splits)
  obtain pb where "map_of (ls_running s) i = Some pb" "pr_CallID (pb_req pb) = c"
    using ls_reachable_inv [OF assms(1)] i unfolding ls_inv_def by blast
  then show ?thesis
    by (intro exI [of _ i] exI [of _ pb]) (simp add: s' map_of_playback_cancel gm_has_def)
qed

definition ex_service :: local_service where
  "ex_service = fst (LocalService_Play id NewLocalService ''s1'' ex_req)"

lemmas ls_eval = ex_service_def ex_req_def LocalService_Play_def LocalService_Stop_def LocalService_finish_def
  NewLocalService_def NewCodecManager_def CodecManager_Register_def CodecManager_Get_def
  GetByPayloadTypeString_def playback_cancel_def gm_has_def gm_set_def gm_del_def itoa_def
  show_nat.simps digit_char_def

theorem Stop_cancels_playback_witness:
  "\<exists>i pb. map_of (ls_running ex_service) i = Some pb \<and> pr_CallID (pb_req pb) = ''c1''"
proof -
  have r: "ls_reachable ex_service" unfolding ex_service_def by (intro ls_reachable.intros)
  have "LocalService_Stop ex_service ''c1'' = (fst (LocalService_Stop ex_service ''c1''), None)"
    by (simp add: ls_eval)
  from Stop_cancels_playback [OF r this] show ?thesis by blast
qed

text \<open>
  A stopped playback that is still winding down can take the record of its
  successor with it: after \<open>Play\<close>, \<open>Stop\<close>, \<open>Play\<close> for one call, the first goroutine's deferred
  \<open>delete(s.activeCalls, callID)\<close> removes the second playback's entry. The second playback
  then runs on, not cancelled, and \<open>Stop\<close> answers that nothing is playing.
\<close>

theorem Stop_misses_running_playback:
  "\<exists>s i pb. ls_reachable s \<and> map_of (ls_running s) i = Some pb \<and> \<not> pb_cancelled pb \<and>
     LocalService_Stop s (pr_CallID (pb_req pb)) = (s, Some (NoActivePlayback (pr_CallID (pb_req pb))))"
proof -
  define s where "s = LocalService_finish
    (fst (LocalService_Play id (fst (LocalService_Stop ex_service ''c1'')) ''s1'' ex_req)) 0"
  have "ls_reachable s"
    unfolding s_def ex_service_def by (intro ls_reachable.intros)
  moreover have "map_of (ls_running s) 1 = Some \<lparr>pb_req = ex_req, pb_parent = ''s1'', pb_cancelled = False\<rparr>"
    by (simp add: s_def ls_eval)
  moreover have "LocalService_Stop s ''c1'' = (s, Some (NoActivePlayback ''c1''))"
    by (simp add: s_def ls_eval)
  ultimately show ?thesis
    by (intro exI [of _ s] exI [of _ 1] exI) (auto simp: ex_req_def)
qed

end
