(* ===== verification/Media_Session.thy ===== *)
theory Media_Session
  imports Port_Pool Sdp_Builder Media_Service
begin

text \<open>
  The session manager of the media server (\<open>internal/rtpmanager/session/manager.go\<close>):
  one session per call, each holding a port pair of the pool. Session pointers are the
  records of the table \<open>sm_sessions\<close>; cancelling a session's context is
  \<open>sess_cancelled\<close> and reaches the playbacks derived from it. The identifier
  \<open>uuid.New()\<close> returns and the clock are arguments.
\<close>

datatype session_state =
    SESSION_STATE_UNSPECIFIED
  | SESSION_STATE_CREATED
  | SESSION_STATE_ACTIVE
  | SESSION_STATE_TERMINATED
  | SESSION_STATE_ERROR
  | SESSION_STATE_PENDING_REMOTE
  | SESSION_STATE_BRIDGED

record media_session =
  sess_ID :: string
  sess_CallID :: string
  sess_LocalAddr :: string
  sess_LocalPort :: int
  sess_RTCPPort :: int
  sess_RemoteAddr :: string
  sess_RemotePort :: int
  sess_Codec :: string
  sess_State :: session_state
  sess_CreatedAt :: time
  sess_cancelled :: bool

record session_manager =
  sm_sessions :: "(string, media_session) gomap"
  sm_callToSession :: "(string, string) gomap"
  sm_portPool :: port_pool
  sm_media :: local_service
  sm_advertiseAddr :: string

datatype session_error =
    AllocateFailed pool_error
  | NoSupportedCodec
  | SessionNotFound string
  | PlayFailed media_error

definition NewSessionManager :: "port_pool \<Rightarrow> local_service \<Rightarrow> string \<Rightarrow> session_manager" where
  "NewSessionManager pool mediaService advertiseAddr =
     \<lparr>sm_sessions = [], sm_callToSession = [], sm_portPool = pool,
      sm_media = mediaService, sm_advertiseAddr = advertiseAddr\<rparr>"

text \<open>The codec loop: the first offered \<open>"0"\<close>, or the empty string.\<close>

fun selectCodec :: "string list \<Rightarrow> string" where
  "selectCodec [] = ''''"
| "selectCodec (codec # codecs) = (if codec = ''0'' then ''0'' else selectCodec codecs)"

definition existingSession :: "session_manager \<Rightarrow> string \<Rightarrow> media_session option" where
  "existingSession m callID =
     (case map_of (sm_callToSession m) callID of
        None \<Rightarrow> None
      | Some sessionID \<Rightarrow> map_of (sm_sessions m) sessionID)"

definition SessionMgr_CreateSession ::
  "(int, bool) range_order \<Rightarrow> sdp_marshal \<Rightarrow> string \<Rightarrow> time \<Rightarrow> session_manager \<Rightarrow>
   string \<Rightarrow> string \<Rightarrow> int \<Rightarrow> string list \<Rightarrow>
   session_manager \<times> (session_error + media_session \<times> string)" where
  "SessionMgr_CreateSession ord marshal uuid now m callID remoteAddr remotePort offeredCodecs =
     (case existingSession m callID of
        Some sess \<Rightarrow>
          (m, Inr (sess, BuildResponseSDP marshal (sm_advertiseAddr m) (sess_LocalPort sess) (sess_Codec sess)))
      | None \<Rightarrow>
          (case PortPool_Allocate ord (sm_portPool m) of
             (pool, Inl err) \<Rightarrow> (m\<lparr>sm_portPool := pool\<rparr>, Inl (AllocateFailed err))
           | (pool, Inr (rtpPort, rtcpPort)) \<Rightarrow>
               let selectedCodec = selectCodec offeredCodecs in
               if selectedCodec = ''''
               then (m\<lparr>sm_portPool := PortPool_Release rtpPort pool\<rparr>, Inl NoSupportedCodec)
               else
                 let sess = \<lparr>sess_ID = uuid, sess_CallID = callID,
                             sess_LocalAddr = sm_advertiseAddr m, sess_LocalPort = rtpPort,
                             sess_RTCPPort = rtcpPort, sess_RemoteAddr = remoteAddr,
                             sess_RemotePort = remotePort, sess_Codec = selectedCodec,
                             sess_State = SESSION_STATE_CREATED, sess_CreatedAt = now,
                             sess_cancelled = False\<rparr> in
                 (m\<lparr>sm_portPool := pool,
                    sm_sessions := gm_set (sm_sessions m) uuid sess,
                    sm_callToSession := gm_set (sm_callToSession m) callID uuid\<rparr>,
                  Inr (sess, BuildResponseSDP marshal (sm_advertiseAddr m) rtpPort selectedCodec))))"

definition SessionMgr_CreateSessionPendingRemote ::
  "(int, bool) range_order \<Rightarrow> sdp_marshal \<Rightarrow> string \<Rightarrow> time \<Rightarrow> session_manager \<Rightarrow>
   string \<Rightarrow> string list \<Rightarrow>
   session_manager \<times> (session_error + media_session \<times> string)" where
  "SessionMgr_CreateSessionPendingRemote ord marshal uuid now m callID offeredCodecs =
     (case existingSession m callID of
        Some sess \<Rightarrow>
          (m, Inr (sess, BuildResponseSDP marshal (sm_advertiseAddr m) (sess_LocalPort sess) (sess_Codec sess)))
      | None \<Rightarrow>
          (case PortPool_Allocate ord (sm_portPool m) of
             (pool, Inl err) \<Rightarrow> (m\<lparr>sm_portPool := pool\<rparr>, Inl (AllocateFailed err))
           | (pool, Inr (rtpPort, rtcpPort)) \<Rightarrow>
               let selectedCodec = selectCodec offeredCodecs in
               if selectedCodec = ''''
               then (m\<lparr>sm_portPool := PortPool_Release rtpPort pool\<rparr>, Inl NoSupportedCodec)
               else
                 let sess = \<lparr>sess_ID = uuid, sess_CallID = callID,
                             sess_LocalAddr = sm_advertiseAddr m, sess_LocalPort = rtpPort,
                             sess_RTCPPort = rtcpPort, sess_RemoteAddr = '''',
                             sess_RemotePort = 0, sess_Codec = selectedCodec,
                             sess_State = SESSION_STATE_PENDING_REMOTE, sess_CreatedAt = now,
                             sess_cancelled = False\<rparr> in
                 (m\<lparr>sm_portPool := pool,
                    sm_sessions := gm_set (sm_sessions m) uuid sess,
                    sm_callToSession := gm_set (sm_callToSession m) callID uuid\<rparr>,
                  Inr (sess, BuildResponseSDP marshal (sm_advertiseAddr m) rtpPort selectedCodec))))"

definition SessionMgr_GetSession :: "session_manager \<Rightarrow> string \<Rightarrow> media_session option" where
  "SessionMgr_GetSession m sessionID = map_of (sm_sessions m) sessionID"

definition SessionMgr_UpdateRemoteEndpoint ::
  "session_manager \<Rightarrow> string \<Rightarrow> string \<Rightarrow> int \<Rightarrow> session_manager \<times> session_error option" where
  "SessionMgr_UpdateRemoteEndpoint m sessionID remoteAddr remotePort =
     (case map_of (sm_sessions m) sessionID of
        None \<Rightarrow> (m, Some (SessionNotFound sessionID))
      | Some sess \<Rightarrow>
          let sess1 = sess\<lparr>sess_RemoteAddr := remoteAddr, sess_RemotePort := remotePort\<rparr>;
              sess2 = (if sess_State sess1 = SESSION_STATE_PENDING_REMOTE
                       then sess1\<lparr>sess_State := SESSION_STATE_ACTIVE\<rparr> else sess1)
          in (m\<lparr>sm_sessions := gm_set (sm_sessions m) sessionID sess2\<rparr>, None))"

definition SessionMgr_GetSessionEndpoint ::
  "session_manager \<Rightarrow> string \<Rightarrow> session_error + (string \<times> int \<times> string \<times> int)" where
  "SessionMgr_GetSessionEndpoint m sessionID =
     (case map_of (sm_sessions m) sessionID of
        None \<Rightarrow> Inl (SessionNotFound sessionID)
      | Some sess \<Rightarrow>
          Inr (sess_LocalAddr sess, sess_LocalPort sess, sess_RemoteAddr sess, sess_RemotePort sess))"

definition SessionMgr_SetSessionBridged ::
  "session_manager \<Rightarrow> string \<Rightarrow> session_manager \<times> session_error option" where
  "SessionMgr_SetSessionBridged m sessionID =
     (case map_of (sm_sessions m) sessionID of
        None \<Rightarrow> (m, Some (SessionNotFound sessionID))
      | Some sess \<Rightarrow>
          (m\<lparr>sm_sessions := gm_set (sm_sessions m) sessionID
               (sess\<lparr>sess_State := SESSION_STATE_BRIDGED\<rparr>)\<rparr>, None))"

text \<open>
  Destroying cancels the context, stops the playback of the call (its error is ignored),
  releases the port and removes the session from both tables; the state written to the
  session just before is not visible in them.
\<close>

definition SessionMgr_DestroySession ::
  "session_manager \<Rightarrow> string \<Rightarrow> session_manager \<times> session_error option" where
  "SessionMgr_DestroySession m sessionID =
     (case map_of (sm_sessions m) sessionID of
        None \<Rightarrow> (m, Some (SessionNotFound sessionID))
      | Some sess \<Rightarrow>
          (m\<lparr>sm_media := fst (LocalService_Stop (cancel_parent sessionID (sm_media m)) (sess_CallID sess)),
             sm_portPool := PortPool_Release (sess_LocalPort sess) (sm_portPool m),
             sm_sessions := gm_del (sm_sessions m) sessionID,
             sm_callToSession := gm_del (sm_callToSession m) (sess_CallID sess)\<rparr>, None))"

section \<open>Playback\<close>

datatype playback_event =
    PlaybackStarted
  | PlaybackCompleted nat
  | PlaybackError string

record event_channel =
  ec_events :: "playback_event list"
  ec_closed :: bool

definition PLAYBACK_FAILED :: string where
  "PLAYBACK_FAILED = ''PLAYBACK_FAILED''"

definition SessionMgr_PlayAudio ::
  "(string, codec_config) range_order \<Rightarrow> session_manager \<Rightarrow> string \<Rightarrow> string \<Rightarrow>
   session_manager \<times> event_channel \<times> session_error option" where
  "SessionMgr_PlayAudio ord m sessionID filePath =
     (case map_of (sm_sessions m) sessionID of
        None \<Rightarrow> (m, \<lparr>ec_events = [], ec_closed = False\<rparr>, Some (SessionNotFound sessionID))
      | Some sess \<Rightarrow>
          let m1 = m\<lparr>sm_sessions := gm_set (sm_sessions m) sessionID
                       (sess\<lparr>sess_State := SESSION_STATE_ACTIVE\<rparr>)\<rparr>;
              playReq = \<lparr>pr_CallID = sess_CallID sess, pr_File = filePath, pr_Codec = sess_Codec sess,
                         pr_LocalAddr = sess_LocalAddr sess, pr_LocalPort = sess_LocalPort sess,
                         pr_Endpoint = sess_RemoteAddr sess, pr_Port = sess_RemotePort sess\<rparr>
          in (case LocalService_Play ord (sm_media m1) sessionID playReq of
                (media, Some err) \<Rightarrow>
                  (m1\<lparr>sm_media := media\<rparr>,
                   \<lparr>ec_events = [PlaybackStarted, PlaybackError PLAYBACK_FAILED], ec_closed = True\<rparr>,
                   Some (PlayFailed err))
              | (media, None) \<Rightarrow>
                  (m1\<lparr>sm_media := media\<rparr>,
                   \<lparr>ec_events = [PlaybackStarted], ec_closed = False\<rparr>, None)))"

text \<open>
  What the callbacks write when the playback goroutine ends: \<open>OnComplete\<close> and \<open>OnError\<close>
  send their event and close the channel; a cancelled stream returns before either is
  called.
\<close>

definition playback_end :: "stream_outcome \<Rightarrow> event_channel \<Rightarrow> event_channel" where
  "playback_end outcome ch =
     (case outcome of
        StreamCompleted \<Rightarrow> ch\<lparr>ec_events := ec_events ch @ [PlaybackCompleted 0], ec_closed := True\<rparr>
      | StreamCanceled \<Rightarrow> ch
      | _ \<Rightarrow> ch\<lparr>ec_events := ec_events ch @ [PlaybackError PLAYBACK_FAILED], ec_closed := True\<rparr>)"

definition SessionMgr_StopAudio ::
  "session_manager \<Rightarrow> string \<Rightarrow> session_manager \<times> bool \<times> media_error option" where
  "SessionMgr_StopAudio m sessionID =
     (case map_of (sm_sessions m) sessionID of
        None \<Rightarrow> (m, False, None)
      | Some sess \<Rightarrow>
          (case LocalService_Stop (sm_media m) (sess_CallID sess) of
             (media, err) \<Rightarrow> (m\<lparr>sm_media := media\<rparr>, err = None, err)))"

definition SessionMgr_Count :: "session_manager \<Rightarrow> nat" where
  "SessionMgr_Count m = length (sm_sessions m)"

definition closeOne :: "session_manager \<Rightarrow> string \<times> media_session \<Rightarrow> session_manager" where
  "closeOne m e =
     m\<lparr>sm_media := fst (LocalService_Stop (cancel_parent (fst e) (sm_media m)) (sess_CallID (snd e))),
       sm_portPool := PortPool_Release (sess_LocalPort (snd e)) (sm_portPool m)\<rparr>"

definition SessionMgr_CloseAll ::
  "(string, media_session) range_order \<Rightarrow> session_manager \<Rightarrow> session_manager" where
  "SessionMgr_CloseAll ord m =
     (foldl closeOne m (ord (sm_sessions m)))\<lparr>sm_sessions := [], sm_callToSession := []\<rparr>"

section \<open>The four ways a create request ends\<close>

text \<open>Both create operations share these outcomes; they differ in the session they store.\<close>

inductive creates ::
  "(int, bool) range_order \<Rightarrow> string \<Rightarrow> string \<Rightarrow> string list \<Rightarrow> session_manager \<Rightarrow>
   session_manager \<Rightarrow> session_error + media_session \<times> string \<Rightarrow> bool"
  for ord uuid callID codecs m where
  existing: "existingSession m callID = Some sess \<Longrightarrow> creates ord uuid callID codecs m m (Inr (sess, sdp))"
| exhausted: "existingSession m callID = None \<Longrightarrow>
    PortPool_Allocate ord (sm_portPool m) = (sm_portPool m, Inl e) \<Longrightarrow>
    creates ord uuid callID codecs m m (Inl (AllocateFailed e))"
| unsupported: "existingSession m callID = None \<Longrightarrow>
    PortPool_Allocate ord (sm_portPool m) = (pool, Inr (p, p + 1)) \<Longrightarrow> ''0'' \<notin> set codecs \<Longrightarrow>
    creates ord uuid callID codecs m (m\<lparr>sm_portPool := PortPool_Release p pool\<rparr>) (Inl NoSupportedCodec)"
| fresh: "existingSession m callID = None \<Longrightarrow>
    PortPool_Allocate ord (sm_portPool m) = (pool, Inr (p, p + 1)) \<Longrightarrow> ''0'' \<in> set codecs \<Longrightarrow>
    sess_ID sess = uuid \<Longrightarrow> sess_CallID sess = callID \<Longrightarrow> sess_LocalAddr sess = sm_advertiseAddr m \<Longrightarrow>
    sess_LocalPort sess = p \<Longrightarrow> sess_RTCPPort sess = p + 1 \<Longrightarrow> sess_Codec sess = ''0'' \<Longrightarrow>
    creates ord uuid callID codecs m
      (m\<lparr>sm_portPool := pool, sm_sessions := gm_set (sm_sessions m) uuid sess,
         sm_callToSession := gm_set (sm_callToSession m) callID uuid\<rparr>) (Inr (sess, sdp))"

lemma selectCodec_iff: "selectCodec cs = (if ''0'' \<in> set cs then ''0'' else '''')"
  by (induction cs) auto

lemma Allocate_cases:
  obtains (none) e where "PortPool_Allocate ord p = (p, Inl e)"
  | (port) p' r where "PortPool_Allocate ord p = (p', Inr (r, r + 1))"
  unfolding PortPool_Allocate_def by (cases "ord (pp_available p)") auto

lemma CreateSession_creates:
  assumes "SessionMgr_CreateSession ord marshal uuid now m callID ra rp codecs = (m', res)"
  shows "creates ord uuid callID codecs m m' res"
proof (cases "existingSession m callID")
  case (Some sess)
  with assms show ?thesis by (auto simp: SessionMgr_CreateSession_def intro: creates.existing)
next
  case None
  show ?thesis
    using assms None creates.exhausted [OF None] creates.unsupported [OF None] creates.fresh [OF None]
    by (cases ord "sm_portPool m" rule: Allocate_cases)
      (auto simp: SessionMgr_CreateSession_def selectCodec_iff Let_def split: if_splits)
qed

lemma CreateSessionPendingRemote_creates:
  assumes "SessionMgr_CreateSessionPendingRemote ord marshal uuid now m callID codecs = (m', res)"
  shows "creates ord uuid callID codecs m m' res"
proof (cases "existingSession m callID")
  case (Some sess)
  with assms show ?thesis
    by (auto simp: SessionMgr_CreateSessionPendingRemote_def intro: creates.existing)
next
  case None
  show ?thesis
    using assms None creates.exhausted [OF None] creates.unsupported [OF None] creates.fresh [OF None]
    by (cases ord "sm_portPool m" rule: Allocate_cases)
      (auto simp: SessionMgr_CreateSessionPendingRemote_def selectCodec_iff Let_def split: if_splits)
qed

section \<open>Invariant\<close>

text \<open>
  The tables agree with each other and with the port pool: sessions and calls are in
  bijection, and the allocated ports are exactly the ports of the sessions, one each.
\<close>

definition session_ok :: "session_manager \<Rightarrow> string \<Rightarrow> media_session \<Rightarrow> bool" where
  "session_ok m sid sess \<longleftrightarrow> sess_ID sess = sid \<and>
     map_of (sm_callToSession m) (sess_CallID sess) = Some sid \<and>
     sess_RTCPPort sess = sess_LocalPort sess + 1 \<and> sess_Codec sess = ''0'' \<and>
     sess_LocalAddr sess = sm_advertiseAddr m"

definition sm_ports :: "session_manager \<Rightarrow> int set" where
  "sm_ports m = sess_LocalPort ` ran (map_of (sm_sessions m))"

definition ports_exclusive :: "session_manager \<Rightarrow> bool" where
  "ports_exclusive m \<longleftrightarrow>
     (\<forall>i j s t. map_of (sm_sessions m) i = Some s \<longrightarrow> map_of (sm_sessions m) j = Some t \<longrightarrow>
        sess_LocalPort s = sess_LocalPort t \<longrightarrow> i = j)"

definition sm_inv :: "session_manager \<Rightarrow> bool" where
  "sm_inv m \<longleftrightarrow> gm_wf (sm_sessions m) \<and> gm_wf (sm_callToSession m) \<and>
     pp_inv (sm_portPool m) \<and> ls_inv (sm_media m) \<and>
     (\<forall>sid sess. map_of (sm_sessions m) sid = Some sess \<longrightarrow> session_ok m sid sess) \<and>
     (\<forall>c sid. map_of (sm_callToSession m) c = Some sid \<longrightarrow>
        (\<exists>sess. map_of (sm_sessions m) sid = Some sess \<and> sess_CallID sess = c)) \<and>
     sm_ports m = pp_used (sm_portPool m) \<and> ports_exclusive m"

lemma sm_invD:
  assumes "sm_inv m"
  shows "gm_wf (sm_sessions m)" "gm_wf (sm_callToSession m)" "pp_inv (sm_portPool m)" "ls_inv (sm_media m)"
    "map_of (sm_sessions m) sid = Some sess \<Longrightarrow> session_ok m sid sess"
    "map_of (sm_callToSession m) c = Some sid \<Longrightarrow> \<exists>sess. map_of (sm_sessions m) sid = Some sess \<and> sess_CallID sess = c"
    "sm_ports m = pp_used (sm_portPool m)" "ports_exclusive m"
  using assms by (auto simp: sm_inv_def)

lemma NewSessionManager_inv [inv_intros]:
  "sm_inv (NewSessionManager (NewPortPool lo hi) NewLocalService addr)"
  using NewPortPool_inv [of lo hi]
  by (auto simp: sm_inv_def NewSessionManager_def sm_ports_def ports_exclusive_def NewPortPool_def Let_def)

text \<open>Rewriting a session without touching its identity, its port or its codec.\<close>

lemma sm_inv_touch:
  assumes "sm_inv m" and "map_of (sm_sessions m) sid = Some sess"
    and "sess_ID sess' = sess_ID sess" "sess_CallID sess' = sess_CallID sess"
    "sess_LocalPort sess' = sess_LocalPort sess" "sess_RTCPPort sess' = sess_RTCPPort sess"
    "sess_Codec sess' = sess_Codec sess" "sess_LocalAddr sess' = sess_LocalAddr sess"
  shows "sm_inv (m\<lparr>sm_sessions := gm_set (sm_sessions m) sid sess'\<rparr>)"
proof -
  let ?m = "m\<lparr>sm_sessions := gm_set (sm_sessions m) sid sess'\<rparr>"
  have "session_ok ?m i s" if "map_of (sm_sessions ?m) i = Some s" for i s
    using that sm_invD(5) [OF assms(1)] assms(2-) by (auto simp: session_ok_def split: if_splits)
  moreover have "sm_ports ?m = sm_ports m"
    using assms(2,5) by (simp add: sm_ports_def image_ran_upd_same)
  moreover have "ports_exclusive ?m"
    using sm_invD(8) [OF assms(1)] assms(2,5)
    by (auto simp: ports_exclusive_def)
  moreover have "\<exists>s. map_of (sm_sessions ?m) i = Some s \<and> sess_CallID s = c"
    if "map_of (sm_callToSession ?m) c = Some i" for c i
    using that sm_invD(6) [OF assms(1)] assms(2,4) by fastforce
  ultimately show ?thesis
    using assms(1) unfolding sm_inv_def by auto
qed

lemma UpdateRemoteEndpoint_inv [inv_intros]:
  "sm_inv m \<Longrightarrow> sm_inv (fst (SessionMgr_UpdateRemoteEndpoint m sid a p))"
  by (cases "map_of (sm_sessions m) sid")
    (auto simp: SessionMgr_UpdateRemoteEndpoint_def Let_def intro: sm_inv_touch)

lemma SetSessionBridged_inv [inv_intros]:
  "sm_inv m \<Longrightarrow> sm_inv (fst (SessionMgr_SetSessionBridged m sid))"
  by (cases "map_of (sm_sessions m) sid")
    (auto simp: SessionMgr_SetSessionBridged_def intro: sm_inv_touch)

lemma sm_inv_media: "sm_inv m \<Longrightarrow> ls_inv l \<Longrightarrow> sm_inv (m\<lparr>sm_media := l\<rparr>)"
  by (simp add: sm_inv_def session_ok_def sm_ports_def ports_exclusive_def)

lemma StopAudio_inv [inv_intros]: "sm_inv m \<Longrightarrow> sm_inv (fst (SessionMgr_StopAudio m sid))"
  by (cases "map_of (sm_sessions m) sid")
    (simp_all add: SessionMgr_StopAudio_def split_beta sm_inv_media sm_invD(4))

lemma PlayAudio_inv [inv_intros]: "sm_inv m \<Longrightarrow> sm_inv (fst (SessionMgr_PlayAudio ord m sid f))"
proof (cases "map_of (sm_sessions m) sid")
  case (Some sess)
  assume inv: "sm_inv m"
  let ?m1 = "m\<lparr>sm_sessions := gm_set (sm_sessions m) sid (sess\<lparr>sess_State := SESSION_STATE_ACTIVE\<rparr>)\<rparr>"
  have m1: "sm_inv ?m1" using inv Some by (rule sm_inv_touch) auto
  have "ls_inv (fst (LocalService_Play ord (sm_media m) sid req))" for req
    using inv by (simp add: ls_inv_Play sm_invD(4))
  then have "sm_inv (?m1\<lparr>sm_media := fst (LocalService_Play ord (sm_media m) sid req)\<rparr>)" for req
    using m1 by (rule sm_inv_media [rotated])
  then show ?thesis
    using Some by (auto simp: SessionMgr_PlayAudio_def Let_def split: prod.splits option.splits) (metis fst_conv)+
qed (simp add: SessionMgr_PlayAudio_def)

lemma existingSession_None:
  assumes "sm_inv m" and "existingSession m c = None"
  shows "map_of (sm_callToSession m) c = None"
  using assms sm_invD(6) [OF assms(1)] by (fastforce simp: existingSession_def split: option.splits)

lemma sm_port_used: "sm_inv m \<Longrightarrow> map_of (sm_sessions m) i = Some s \<Longrightarrow> sess_LocalPort s \<in> pp_used (sm_portPool m)"
  using sm_invD(7) [of m] by (auto simp: sm_ports_def intro: ranI)

lemma sm_inv_fresh:
  assumes inv: "sm_inv m" and range: "is_range ord" and uuid: "uuid \<notin> gm_keys (sm_sessions m)"
    and none: "existingSession m callID = None"
    and alloc: "PortPool_Allocate ord (sm_portPool m) = (pool, Inr (p, p + 1))"
    and sess: "sess_ID sess = uuid" "sess_CallID sess = callID" "sess_LocalAddr sess = sm_advertiseAddr m"
      "sess_LocalPort sess = p" "sess_RTCPPort sess = p + 1" "sess_Codec sess = ''0''"
  shows "sm_inv (m\<lparr>sm_portPool := pool, sm_sessions := gm_set (sm_sessions m) uuid sess,
           sm_callToSession := gm_set (sm_callToSession m) callID uuid\<rparr>)"
    (is "sm_inv ?m")
proof -
  have call: "map_of (sm_callToSession m) callID = None"
    using inv none by (rule existingSession_None)
  have new: "map_of (sm_sessions m) uuid = None" using uuid by (simp add: map_of_None_keys)
  have a: "pp_alloc ord (sm_portPool m) = Some (p, pool)" using alloc by (simp add: pp_alloc_Some)
  have unused: "p \<notin> pp_used (sm_portPool m)"
    using port_pool_fresh [OF range sm_invD(3) [OF inv] a] .
  have used: "pp_used pool = insert p (pp_used (sm_portPool m))"
    using port_pool_state [OF range sm_invD(3) [OF inv] a] by simp
  have "sm_ports ?m = pp_used pool"
    using new used sm_invD(7) [OF inv] sess(4) by (simp add: sm_ports_def)
  moreover have "ports_exclusive ?m"
    using sm_invD(8) [OF inv] sm_port_used [OF inv] unused sess(4)
    by (auto simp: ports_exclusive_def) metis+
  moreover have "session_ok ?m i s" if "map_of (sm_sessions ?m) i = Some s" for i s
    using that sm_invD(5) [OF inv, of i s] sess call by (auto simp: session_ok_def split: if_splits)
  moreover have "\<exists>s. map_of (sm_sessions ?m) i = Some s \<and> sess_CallID s = c"
    if "map_of (sm_callToSession ?m) c = Some i" for c i
    using that sm_invD(6) [OF inv] new sess(2) by (fastforce split: if_splits)
  ultimately show ?thesis
    using inv Allocate_inv [OF range _ alloc] unfolding sm_inv_def by auto
qed

lemma creates_inv [inv_intros]:
  assumes "creates ord uuid callID codecs m m' res" and "sm_inv m" and "is_range ord"
    and "uuid \<notin> gm_keys (sm_sessions m)"
  shows "sm_inv m'"
  using assms(1)
proof cases
  case (unsupported pool p)
  have a: "pp_alloc ord (sm_portPool m) = Some (p, pool)" using unsupported(4) by (simp add: pp_alloc_Some)
  show ?thesis
    using assms(2) port_pool_undoes [OF assms(3) sm_invD(3) [OF assms(2)] a]
    by (simp add: unsupported sm_inv_def session_ok_def sm_ports_def ports_exclusive_def)
next
  case (fresh pool p sess)
  then show ?thesis using sm_inv_fresh [OF assms(2,3,4)] by simp
qed (use assms in simp_all)

lemma sm_ports_unique:
  assumes "sm_inv m" "map_of (sm_sessions m) sid = Some sess"
    "map_of (sm_sessions m) i = Some s" "sess_LocalPort s = sess_LocalPort sess"
  shows "i = sid"
  using sm_invD(8) [OF assms(1)] assms(2-) unfolding ports_exclusive_def by blast

lemma DestroySession_inv [inv_intros]:
  assumes inv: "sm_inv m"
  shows "sm_inv (fst (SessionMgr_DestroySession m sid))"
proof (cases "map_of (sm_sessions m) sid")
  case None
  with inv show ?thesis by (simp add: SessionMgr_DestroySession_def)
next
  case (Some sess)
  let ?m = "fst (SessionMgr_DestroySession m sid)"
  have m: "sm_sessions ?m = gm_del (sm_sessions m) sid"
    "sm_callToSession ?m = gm_del (sm_callToSession m) (sess_CallID sess)"
    "sm_portPool ?m = PortPool_Release (sess_LocalPort sess) (sm_portPool m)"
    "sm_media ?m = fst (LocalService_Stop (cancel_parent sid (sm_media m)) (sess_CallID sess))"
    "sm_advertiseAddr ?m = sm_advertiseAddr m"
    using Some by (simp_all add: SessionMgr_DestroySession_def)
  have ok: "session_ok m i s" if "map_of (sm_sessions m) i = Some s" for i s
    using sm_invD(5) [OF inv] that .
  have "session_ok ?m i s" if "map_of (sm_sessions ?m) i = Some s" for i s
    using that ok [OF Some] ok [of i s] by (auto simp: m session_ok_def split: if_splits)
  moreover have "\<exists>s. map_of (sm_sessions ?m) i = Some s \<and> sess_CallID s = c"
    if "map_of (sm_callToSession ?m) c = Some i" for c i
    using that sm_invD(6) [OF inv] Some by (fastforce simp: m split: if_splits)
  moreover have "sm_ports ?m = pp_used (sm_portPool ?m)"
    using image_ran_del [of "map_of (sm_sessions m)", OF Some, of sess_LocalPort] sm_ports_unique [OF inv Some]
      first_port.pool.release_used_subset [OF sm_invD(3) [OF inv]] sm_invD(7) [OF inv]
    by (simp add: m sm_ports_def)
  moreover have "ports_exclusive ?m"
    using sm_invD(8) [OF inv] by (auto simp: ports_exclusive_def m split: if_splits)
  ultimately show ?thesis
    using sm_invD(1-4) [OF inv] by (simp add: sm_inv_def m Release_inv)
qed

lemma closeOne_frame [simp]:
  "sm_sessions (closeOne m e) = sm_sessions m" "sm_callToSession (closeOne m e) = sm_callToSession m"
  "sm_advertiseAddr (closeOne m e) = sm_advertiseAddr m"
  by (simp_all add: closeOne_def)

lemma closeOne_pool:
  "pp_inv (sm_portPool m) \<Longrightarrow> pp_inv (sm_portPool (closeOne m e)) \<and>
     pp_used (sm_portPool (closeOne m e)) = pp_used (sm_portPool m) - {sess_LocalPort (snd e)}"
  using first_port.pool.release_used_subset by (simp add: closeOne_def Release_inv)

lemma closeOne_media: "ls_inv (sm_media m) \<Longrightarrow> ls_inv (sm_media (closeOne m e))"
  by (simp add: closeOne_def)

lemma foldl_closeOne:
  assumes "pp_inv (sm_portPool m)" and "ls_inv (sm_media m)"
  shows "pp_inv (sm_portPool (foldl closeOne m es)) \<and> ls_inv (sm_media (foldl closeOne m es)) \<and>
     pp_used (sm_portPool (foldl closeOne m es)) =
       pp_used (sm_portPool m) - (sess_LocalPort \<circ> snd) ` set es"
  using assms
proof (induction es arbitrary: m)
  case (Cons e es)
  have "pp_inv (sm_portPool (closeOne m e))" "ls_inv (sm_media (closeOne m e))"
    using Cons.prems closeOne_pool closeOne_media by blast+
  with Cons.IH [of "closeOne m e"] closeOne_pool [OF Cons.prems(1), of e] show ?case by auto
qed simp

lemma CloseAll_pool:
  assumes inv: "sm_inv m" and range: "is_range ord"
  shows "pp_used (sm_portPool (SessionMgr_CloseAll ord m)) = {}"
    and "pp_inv (sm_portPool (SessionMgr_CloseAll ord m))"
    and "ls_inv (sm_media (SessionMgr_CloseAll ord m))"
proof -
  have "ran (map_of (sm_sessions m)) = snd ` set (sm_sessions m)"
    using sm_invD(1) [OF inv] ran_distinct unfolding gm_wf_def by blast
  then have "(sess_LocalPort \<circ> snd) ` set (ord (sm_sessions m)) = pp_used (sm_portPool m)"
    using sm_invD(7) [OF inv] is_range_set [OF range] by (simp add: sm_ports_def image_image)
  then show "pp_used (sm_portPool (SessionMgr_CloseAll ord m)) = {}"
    and "pp_inv (sm_portPool (SessionMgr_CloseAll ord m))"
    and "ls_inv (sm_media (SessionMgr_CloseAll ord m))"
    using foldl_closeOne [OF sm_invD(3,4) [OF inv], of "ord (sm_sessions m)"]
    by (simp_all add: SessionMgr_CloseAll_def)
qed

lemma CloseAll_inv [inv_intros]:
  assumes "sm_inv m" and "is_range ord"
  shows "sm_inv (SessionMgr_CloseAll ord m)"
  using CloseAll_pool [OF assms]
  by (simp add: sm_inv_def SessionMgr_CloseAll_def sm_ports_def ports_exclusive_def)

section \<open>Counting: no port leaks\<close>

lemma sm_ports_card:
  assumes "sm_inv m"
  shows "card (sm_ports m) = SessionMgr_Count m"
proof -
  let ?s = "map_of (sm_sessions m)"
  have "sm_ports m = (\<lambda>i. sess_LocalPort (the (?s i))) ` dom ?s"
    by (force simp: sm_ports_def ran_def dom_def)
  moreover have "inj_on (\<lambda>i. sess_LocalPort (the (?s i))) (dom ?s)"
    using sm_ports_unique [OF assms] by (force simp: inj_on_def)
  ultimately have "card (sm_ports m) = card (gm_keys (sm_sessions m))"
    by (simp add: card_image gm_keys_dom)
  then show ?thesis
    using gm_len_keys [OF sm_invD(1) [OF assms]] by (simp add: SessionMgr_Count_def)
qed

lemma pool_counts:
  assumes "sm_inv m"
  shows "PortPool_Allocated (sm_portPool m) = SessionMgr_Count m"
    and "PortPool_Available (sm_portPool m) = card (pp_ports (sm_portPool m)) - SessionMgr_Count m"
proof -
  have pool: "gm_wf (pp_available (sm_portPool m))" "gm_wf (pp_allocated (sm_portPool m))"
    "pp_free (sm_portPool m) \<inter> pp_used (sm_portPool m) = {}"
    "pp_ports (sm_portPool m) = pp_free (sm_portPool m) \<union> pp_used (sm_portPool m)"
    using sm_invD(3) [OF assms] by (auto simp: pp_inv_def)
  have used: "card (pp_used (sm_portPool m)) = SessionMgr_Count m"
    using sm_ports_card [OF assms] sm_invD(7) [OF assms] by simp
  with pool(2) show "PortPool_Allocated (sm_portPool m) = SessionMgr_Count m"
    by (simp add: PortPool_Allocated_def gm_len_keys)
  have "card (pp_ports (sm_portPool m)) = card (pp_free (sm_portPool m)) + SessionMgr_Count m"
    using pool(3,4) used by (simp add: card_Un_disjoint)
  with pool(1) show "PortPool_Available (sm_portPool m) = card (pp_ports (sm_portPool m)) - SessionMgr_Count m"
    by (simp add: PortPool_Available_def gm_len_keys)
qed

end
