(* ===== verification/Media_Bridge.thy ===== *)
theory Media_Bridge
  imports Go_Std "HOL-Library.Word"
begin

text \<open>
  The bridge manager of the media server (\<open>internal/rtpmanager/bridge/bridge.go\<close>): a
  bridge relays packets between the endpoints of two sessions, and \<open>sessionMap\<close> records
  which bridge a session is in. A socket is \<open>ep_conn\<close>: \<open>None\<close> for \<open>nil\<close>, otherwise
  whether it is open. Whether \<open>net.ListenUDP\<close> succeeds is the operating system's answer:
  a parameter \<open>listen\<close> that sees the ports the bridges of this process have open.
  The relay loops are functions of what each iteration observes.
\<close>

record endpoint =
  ep_SessionID :: string
  ep_LocalAddr :: string
  ep_LocalPort :: int
  ep_RemoteAddr :: string
  ep_RemotePort :: int
  ep_conn :: "bool option"

record bridge =
  br_ID :: string
  br_SessionA :: endpoint
  br_SessionB :: endpoint
  br_cancelled :: bool
  br_active :: bool
  br_packetsA2B :: "64 word"
  br_packetsB2A :: "64 word"
  br_bytesA2B :: "64 word"
  br_bytesB2A :: "64 word"

record bridge_stats =
  st_PacketsA2B :: "64 word"
  st_PacketsB2A :: "64 word"
  st_BytesA2B :: "64 word"
  st_BytesB2A :: "64 word"

record bridge_manager =
  bm_bridges :: "(string, bridge) gomap"
  bm_sessionMap :: "(string, string) gomap"

datatype bridge_error =
    AlreadyInBridge string string
  | NoRemoteA string
  | NoRemoteB string
  | InvalidRemoteA string
  | InvalidRemoteB string
  | BindA int
  | BindB int
  | BridgeNotFound string

type_synonym udp_listen = "int set \<Rightarrow> int \<Rightarrow> bool"

definition NewBridgeManager :: bridge_manager where
  "NewBridgeManager = \<lparr>bm_bridges = [], bm_sessionMap = []\<rparr>"

text \<open>The local ports on which bridges of this process have an open socket.\<close>

definition ep_open :: "endpoint \<Rightarrow> int set" where
  "ep_open e = (if ep_conn e = Some True then {ep_LocalPort e} else {})"

definition bm_open :: "bridge_manager \<Rightarrow> int set" where
  "bm_open m = (\<Union>b \<in> snd ` set (bm_bridges m). ep_open (br_SessionA b) \<union> ep_open (br_SessionB b))"

definition bindSockets ::
  "udp_listen \<Rightarrow> int set \<Rightarrow> bridge \<Rightarrow> bridge_error + bridge" where
  "bindSockets listen opened b =
     (if \<not> ParseIP (ep_RemoteAddr (br_SessionA b))
      then Inl (InvalidRemoteA (ep_RemoteAddr (br_SessionA b)))
      else if \<not> ParseIP (ep_RemoteAddr (br_SessionB b))
      then Inl (InvalidRemoteB (ep_RemoteAddr (br_SessionB b)))
      else if \<not> listen opened (ep_LocalPort (br_SessionA b))
      then Inl (BindA (ep_LocalPort (br_SessionA b)))
      else if \<not> listen (insert (ep_LocalPort (br_SessionA b)) opened) (ep_LocalPort (br_SessionB b))
      then Inl (BindB (ep_LocalPort (br_SessionB b)))
      else Inr (b\<lparr>br_SessionA := (br_SessionA b)\<lparr>ep_conn := Some True\<rparr>,
                  br_SessionB := (br_SessionB b)\<lparr>ep_conn := Some True\<rparr>\<rparr>))"

definition newBridge :: "string \<Rightarrow> endpoint \<Rightarrow> endpoint \<Rightarrow> bridge" where
  "newBridge bridgeID endpointA endpointB =
     \<lparr>br_ID = bridgeID, br_SessionA = endpointA, br_SessionB = endpointB,
      br_cancelled = False, br_active = False,
      br_packetsA2B = 0, br_packetsB2A = 0, br_bytesA2B = 0, br_bytesB2A = 0\<rparr>"

definition BridgeMgr_CreateBridge ::
  "udp_listen \<Rightarrow> string \<Rightarrow> bridge_manager \<Rightarrow> endpoint \<Rightarrow> endpoint \<Rightarrow>
   bridge_manager \<times> (bridge_error + string)" where
  "BridgeMgr_CreateBridge listen uuid m endpointA endpointB =
     (case map_of (bm_sessionMap m) (ep_SessionID endpointA) of
        Some bridgeID \<Rightarrow> (m, Inl (AlreadyInBridge (ep_SessionID endpointA) bridgeID))
      | None \<Rightarrow>
        (case map_of (bm_sessionMap m) (ep_SessionID endpointB) of
           Some bridgeID \<Rightarrow> (m, Inl (AlreadyInBridge (ep_SessionID endpointB) bridgeID))
         | None \<Rightarrow>
             if ep_RemoteAddr endpointA = '''' \<or> ep_RemotePort endpointA = 0
             then (m, Inl (NoRemoteA (ep_SessionID endpointA)))
             else if ep_RemoteAddr endpointB = '''' \<or> ep_RemotePort endpointB = 0
             then (m, Inl (NoRemoteB (ep_SessionID endpointB)))
             else
               let bridgeID = ''bridge-'' @ uuid;
                   b = newBridge bridgeID endpointA endpointB in
               (case bindSockets listen (bm_open m) b of
                  Inl err \<Rightarrow> (m, Inl err)
                | Inr b1 \<Rightarrow>
                    (m\<lparr>bm_bridges := gm_set (bm_bridges m) bridgeID (b1\<lparr>br_active := True\<rparr>),
                       bm_sessionMap := gm_set (gm_set (bm_sessionMap m) (ep_SessionID endpointA) bridgeID)
                                          (ep_SessionID endpointB) bridgeID\<rparr>,
                     Inr bridgeID))))"

definition closeConn :: "endpoint \<Rightarrow> endpoint" where
  "closeConn e = e\<lparr>ep_conn := map_option (\<lambda>_. False) (ep_conn e)\<rparr>"

text \<open>The bridge as its relay goroutines see it after the teardown.\<close>

definition tornDown :: "bridge \<Rightarrow> bridge" where
  "tornDown b = b\<lparr>br_active := False, br_cancelled := True,
     br_SessionA := closeConn (br_SessionA b), br_SessionB := closeConn (br_SessionB b)\<rparr>"

definition destroyBridgeLocked :: "bridge_manager \<Rightarrow> bridge \<Rightarrow> bridge_manager" where
  "destroyBridgeLocked m b =
     m\<lparr>bm_sessionMap := gm_del (gm_del (bm_sessionMap m) (ep_SessionID (br_SessionA b)))
                          (ep_SessionID (br_SessionB b)),
       bm_bridges := gm_del (bm_bridges m) (br_ID b)\<rparr>"

definition BridgeMgr_DestroyBridge ::
  "bridge_manager \<Rightarrow> string \<Rightarrow> bridge_manager \<times> bridge_error option" where
  "BridgeMgr_DestroyBridge m bridgeID =
     (case map_of (bm_bridges m) bridgeID of
        None \<Rightarrow> (m, Some (BridgeNotFound bridgeID))
      | Some b \<Rightarrow> (destroyBridgeLocked m b, None))"

definition BridgeMgr_DestroyBySession ::
  "bridge_manager \<Rightarrow> string \<Rightarrow> bridge_manager \<times> string" where
  "BridgeMgr_DestroyBySession m sessionID =
     (case map_of (bm_sessionMap m) sessionID of
        None \<Rightarrow> (m, '''')
      | Some bridgeID \<Rightarrow>
          (case map_of (bm_bridges m) bridgeID of
             None \<Rightarrow> (m, bridgeID)
           | Some b \<Rightarrow> (destroyBridgeLocked m b, bridgeID)))"

definition BridgeMgr_GetBridge :: "bridge_manager \<Rightarrow> string \<Rightarrow> bridge option" where
  "BridgeMgr_GetBridge m bridgeID = map_of (bm_bridges m) bridgeID"

definition BridgeMgr_GetBridgeBySession :: "bridge_manager \<Rightarrow> string \<Rightarrow> bridge option" where
  "BridgeMgr_GetBridgeBySession m sessionID =
     (case map_of (bm_sessionMap m) sessionID of
        None \<Rightarrow> None
      | Some bridgeID \<Rightarrow> map_of (bm_bridges m) bridgeID)"

definition BridgeMgr_IsSessionBridged :: "bridge_manager \<Rightarrow> string \<Rightarrow> bool" where
  "BridgeMgr_IsSessionBridged m sessionID = gm_has (bm_sessionMap m) sessionID"

definition BridgeMgr_Count :: "bridge_manager \<Rightarrow> nat" where
  "BridgeMgr_Count m = length (bm_bridges m)"

text \<open>\<open>range\<close> does not produce an entry that was deleted before it was reached.\<close>

definition closeBridge :: "bridge_manager \<Rightarrow> string \<times> bridge \<Rightarrow> bridge_manager" where
  "closeBridge m e = (if gm_has (bm_bridges m) (fst e) then destroyBridgeLocked m (snd e) else m)"

definition BridgeMgr_CloseAll :: "(string, bridge) range_order \<Rightarrow> bridge_manager \<Rightarrow> bridge_manager" where
  "BridgeMgr_CloseAll ord m = foldl closeBridge m (ord (bm_bridges m))"

definition Bridge_GetStats :: "bridge \<Rightarrow> bridge_stats" where
  "Bridge_GetStats b = \<lparr>st_PacketsA2B = br_packetsA2B b, st_PacketsB2A = br_packetsB2A b,
     st_BytesA2B = br_bytesA2B b, st_BytesB2A = br_bytesB2A b\<rparr>"

section \<open>The relay loops\<close>

text \<open>
  One iteration observes whether the bridge is still active, whether the context is done,
  what the socket read returned (a datagram, cut to the 1500-byte buffer, or an error, with
  the context's state at that moment) and whether the write succeeded.
\<close>

datatype relay_obs =
    Inactive
  | ContextDone
  | ReadError bool
  | Datagram "8 word list" bool

definition relay_buffer :: nat where
  "relay_buffer = 1500"

fun relayAtoB :: "relay_obs list \<Rightarrow> bridge \<Rightarrow> bridge \<times> ((string \<times> int) \<times> 8 word list) list" where
  "relayAtoB [] b = (b, [])"
| "relayAtoB (Inactive # _) b = (b, [])"
| "relayAtoB (ContextDone # _) b = (b, [])"
| "relayAtoB (ReadError done # os) b = (if done then (b, []) else relayAtoB os b)"
| "relayAtoB (Datagram d writeOk # os) b =
     (let buf = take relay_buffer d in
      if writeOk then
        (let (b', out) = relayAtoB os (b\<lparr>br_packetsA2B := br_packetsA2B b + 1,
                                         br_bytesA2B := br_bytesA2B b + of_nat (length buf)\<rparr>)
         in (b', ((ep_RemoteAddr (br_SessionB b), ep_RemotePort (br_SessionB b)), buf) # out))
      else relayAtoB os b)"

fun relayBtoA :: "relay_obs list \<Rightarrow> bridge \<Rightarrow> bridge \<times> ((string \<times> int) \<times> 8 word list) list" where
  "relayBtoA [] b = (b, [])"
| "relayBtoA (Inactive # _) b = (b, [])"
| "relayBtoA (ContextDone # _) b = (b, [])"
| "relayBtoA (ReadError done # os) b = (if done then (b, []) else relayBtoA os b)"
| "relayBtoA (Datagram d writeOk # os) b =
     (let buf = take relay_buffer d in
      if writeOk then
        (let (b', out) = relayBtoA os (b\<lparr>br_packetsB2A := br_packetsB2A b + 1,
                                         br_bytesB2A := br_bytesB2A b + of_nat (length buf)\<rparr>)
         in (b', ((ep_RemoteAddr (br_SessionA b), ep_RemotePort (br_SessionA b)), buf) # out))
      else relayBtoA os b)"

section \<open>Invariant\<close>

definition bridge_ok :: "bridge_manager \<Rightarrow> string \<Rightarrow> bridge \<Rightarrow> bool" where
  "bridge_ok m i b \<longleftrightarrow> br_ID b = i \<and> br_active b \<and> \<not> br_cancelled b \<and>
     ep_conn (br_SessionA b) = Some True \<and> ep_conn (br_SessionB b) = Some True \<and>
     ParseIP (ep_RemoteAddr (br_SessionA b)) \<and> ParseIP (ep_RemoteAddr (br_SessionB b)) \<and>
     ep_RemotePort (br_SessionA b) \<noteq> 0 \<and> ep_RemotePort (br_SessionB b) \<noteq> 0 \<and>
     map_of (bm_sessionMap m) (ep_SessionID (br_SessionA b)) = Some i \<and>
     map_of (bm_sessionMap m) (ep_SessionID (br_SessionB b)) = Some i"

definition in_bridge :: "bridge \<Rightarrow> string \<Rightarrow> bool" where
  "in_bridge b s \<longleftrightarrow> s = ep_SessionID (br_SessionA b) \<or> s = ep_SessionID (br_SessionB b)"

definition bm_inv :: "bridge_manager \<Rightarrow> bool" where
  "bm_inv m \<longleftrightarrow> gm_wf (bm_bridges m) \<and> gm_wf (bm_sessionMap m) \<and>
     (\<forall>i b. map_of (bm_bridges m) i = Some b \<longrightarrow> bridge_ok m i b) \<and>
     (\<forall>s i. map_of (bm_sessionMap m) s = Some i \<longrightarrow>
        (\<exists>b. map_of (bm_bridges m) i = Some b \<and> in_bridge b s))"

lemma bm_invD:
  assumes "bm_inv m"
  shows "gm_wf (bm_bridges m)" "gm_wf (bm_sessionMap m)"
    "map_of (bm_bridges m) i = Some b \<Longrightarrow> bridge_ok m i b"
    "map_of (bm_sessionMap m) s = Some i \<Longrightarrow> \<exists>b. map_of (bm_bridges m) i = Some b \<and> in_bridge b s"
  using assms by (auto simp: bm_inv_def)

lemma NewBridgeManager_inv [simp, inv_intros]: "bm_inv NewBridgeManager"
  by (simp add: bm_inv_def NewBridgeManager_def)

lemma bindSockets_Inr:
  "bindSockets listen op b = Inr b' \<longleftrightarrow>
     ParseIP (ep_RemoteAddr (br_SessionA b)) \<and> ParseIP (ep_RemoteAddr (br_SessionB b)) \<and>
     listen op (ep_LocalPort (br_SessionA b)) \<and>
     listen (insert (ep_LocalPort (br_SessionA b)) op) (ep_LocalPort (br_SessionB b)) \<and>
     b' = b\<lparr>br_SessionA := (br_SessionA b)\<lparr>ep_conn := Some True\<rparr>,
            br_SessionB := (br_SessionB b)\<lparr>ep_conn := Some True\<rparr>\<rparr>"
  unfolding bindSockets_def by auto

text \<open>Inversion of a successful creation, and the error path.\<close>

definition liveBridge :: "string \<Rightarrow> endpoint \<Rightarrow> endpoint \<Rightarrow> bridge" where
  "liveBridge i A B = (newBridge i A B)\<lparr>br_SessionA := A\<lparr>ep_conn := Some True\<rparr>,
     br_SessionB := B\<lparr>ep_conn := Some True\<rparr>, br_active := True\<rparr>"

lemma newBridge_fields [simp]:
  "br_SessionA (newBridge i A B) = A" "br_SessionB (newBridge i A B) = B"
  by (simp_all add: newBridge_def)

lemma liveBridge_fields [simp]:
  "br_ID (liveBridge i A B) = i" "br_active (liveBridge i A B)" "\<not> br_cancelled (liveBridge i A B)"
  "br_SessionA (liveBridge i A B) = A\<lparr>ep_conn := Some True\<rparr>"
  "br_SessionB (liveBridge i A B) = B\<lparr>ep_conn := Some True\<rparr>"
  by (simp_all add: liveBridge_def newBridge_def)

lemma CreateBridge_Inr:
  assumes "BridgeMgr_CreateBridge listen uuid m A B = (m', Inr i)"
  shows "i = ''bridge-'' @ uuid"
    "map_of (bm_sessionMap m) (ep_SessionID A) = None" "map_of (bm_sessionMap m) (ep_SessionID B) = None"
    "ep_RemotePort A \<noteq> 0" "ep_RemotePort B \<noteq> 0" "ParseIP (ep_RemoteAddr A)" "ParseIP (ep_RemoteAddr B)"
    "listen (bm_open m) (ep_LocalPort A)" "listen (insert (ep_LocalPort A) (bm_open m)) (ep_LocalPort B)"
    "m' = m\<lparr>bm_bridges := gm_set (bm_bridges m) i (liveBridge i A B),
            bm_sessionMap := gm_set (gm_set (bm_sessionMap m) (ep_SessionID A) i) (ep_SessionID B) i\<rparr>"
  using assms unfolding BridgeMgr_CreateBridge_def Let_def liveBridge_def
  by (auto simp: bindSockets_Inr split: option.splits if_splits sum.splits)

lemma CreateBridge_Inl: "BridgeMgr_CreateBridge listen uuid m A B = (m', Inl e) \<Longrightarrow> m' = m"
  unfolding BridgeMgr_CreateBridge_def Let_def by (auto split: option.splits if_splits sum.splits)

lemma CreateBridge_inv [inv_intros]:
  assumes inv: "bm_inv m" and create: "BridgeMgr_CreateBridge listen uuid m A B = (m', Inr i)"
    and fresh: "i \<notin> gm_keys (bm_bridges m)"
  shows "bm_inv m'"
proof -
  note b = CreateBridge_Inr [OF create]
  have new: "map_of (bm_bridges m) i = None" using fresh by (simp add: map_of_None_keys)
  have "bridge_ok m' j c" if c: "map_of (bm_bridges m') j = Some c" for j c
  proof (cases "j = i")
    case True
    with c have "c = liveBridge i A B" by (simp add: b(10))
    with True show ?thesis by (simp add: bridge_ok_def b(4-7,10))
  next
    case False
    with c have "bridge_ok m j c" using bm_invD(3) [OF inv, of j c] by (simp add: b(10))
    then show ?thesis using b(2,3) by (auto simp: bridge_ok_def b(10))
  qed
  moreover have "\<exists>c. map_of (bm_bridges m') j = Some c \<and> in_bridge c s"
    if "map_of (bm_sessionMap m') s = Some j" for s j
    using that bm_invD(4) [OF inv, of s j] new b by (auto simp: in_bridge_def split: if_splits)
  ultimately show ?thesis
    using bm_invD(1,2) [OF inv] by (simp add: bm_inv_def b(10))
qed

lemma bridge_ok_session:
  "bm_inv m \<Longrightarrow> map_of (bm_bridges m) i = Some b \<Longrightarrow> in_bridge b s \<Longrightarrow> map_of (bm_sessionMap m) s = Some i"
  using bm_invD(3) [of m i b] by (auto simp: bridge_ok_def in_bridge_def)

lemma destroyBridgeLocked_lookup:
  "map_of (bm_bridges (destroyBridgeLocked m b)) = (map_of (bm_bridges m))(br_ID b := None)"
  "map_of (bm_sessionMap (destroyBridgeLocked m b)) s =
     (if in_bridge b s then None else map_of (bm_sessionMap m) s)"
  by (auto simp: destroyBridgeLocked_def in_bridge_def)

lemma destroyBridgeLocked_inv [inv_intros]:
  assumes inv: "bm_inv m" and b: "map_of (bm_bridges m) i = Some b"
  shows "bm_inv (destroyBridgeLocked m b)"
proof -
  let ?m = "destroyBridgeLocked m b"
  have id: "br_ID b = i" using bm_invD(3) [OF inv b] by (simp add: bridge_ok_def)
  have "bridge_ok ?m j c" if "map_of (bm_bridges ?m) j = Some c" for j c
  proof -
    from that id have c: "map_of (bm_bridges m) j = Some c" and "j \<noteq> i"
      by (auto simp: destroyBridgeLocked_lookup split: if_splits)
    then have "\<not> in_bridge b s" if "in_bridge c s" for s
      using bridge_ok_session [OF inv b, of s] bridge_ok_session [OF inv c that] by auto
    then show ?thesis
      using bm_invD(3) [OF inv c] by (simp add: bridge_ok_def destroyBridgeLocked_lookup in_bridge_def)
  qed
  moreover have "\<exists>c. map_of (bm_bridges ?m) j = Some c \<and> in_bridge c s"
    if "map_of (bm_sessionMap ?m) s = Some j" for s j
  proof -
    from that have s: "map_of (bm_sessionMap m) s = Some j" and "\<not> in_bridge b s"
      by (auto simp: destroyBridgeLocked_lookup split: if_splits)
    with bm_invD(4) [OF inv s] b id show ?thesis by (auto simp: destroyBridgeLocked_lookup)
  qed
  ultimately show ?thesis
    using bm_invD(1,2) [OF inv] by (simp add: bm_inv_def destroyBridgeLocked_def)
qed

lemma DestroyBridge_inv [inv_intros]: "bm_inv m \<Longrightarrow> bm_inv (fst (BridgeMgr_DestroyBridge m i))"
  by (auto simp: BridgeMgr_DestroyBridge_def destroyBridgeLocked_inv split: option.split)

lemma DestroyBySession_inv [inv_intros]: "bm_inv m \<Longrightarrow> bm_inv (fst (BridgeMgr_DestroyBySession m s))"
  by (auto simp: BridgeMgr_DestroyBySession_def destroyBridgeLocked_inv split: option.split)

section \<open>Closing all bridges\<close>

lemma closeBridge_step:
  assumes inv: "bm_inv m" and e: "map_of (bm_bridges m) (fst e) = None \<or> map_of (bm_bridges m) (fst e) = Some (snd e)"
  shows "bm_inv (closeBridge m e)"
    and "map_of (bm_bridges (closeBridge m e)) = (map_of (bm_bridges m))(fst e := None)"
proof -
  have id: "br_ID (snd e) = fst e" if "map_of (bm_bridges m) (fst e) = Some (snd e)"
    using bm_invD(3) [OF inv that] by (simp add: bridge_ok_def)
  show "bm_inv (closeBridge m e)"
    using e inv destroyBridgeLocked_inv [OF inv] by (auto simp: closeBridge_def gm_has_def)
  show "map_of (bm_bridges (closeBridge m e)) = (map_of (bm_bridges m))(fst e := None)"
    using e id by (auto simp: closeBridge_def gm_has_def destroyBridgeLocked_lookup fun_upd_idem)
qed

lemma foldl_closeBridge:
  assumes "bm_inv m"
    and "\<And>k b. (k, b) \<in> set es \<Longrightarrow> map_of (bm_bridges m) k = None \<or> map_of (bm_bridges m) k = Some b"
  shows "bm_inv (foldl closeBridge m es) \<and>
     gm_keys (bm_bridges (foldl closeBridge m es)) = gm_keys (bm_bridges m) - fst ` set es"
  using assms
proof (induction es arbitrary: m)
  case (Cons e es)
  have e: "map_of (bm_bridges m) (fst e) = None \<or> map_of (bm_bridges m) (fst e) = Some (snd e)"
    using Cons.prems(2) [of "fst e" "snd e"] by simp
  note step = closeBridge_step [OF Cons.prems(1) e]
  have "map_of (bm_bridges (closeBridge m e)) k = None \<or> map_of (bm_bridges (closeBridge m e)) k = Some b"
    if "(k, b) \<in> set es" for k b
    using Cons.prems(2) [of k b] that by (simp add: step(2))
  with Cons.IH [OF step(1)] have "bm_inv (foldl closeBridge (closeBridge m e) es) \<and>
      gm_keys (bm_bridges (foldl closeBridge (closeBridge m e) es)) =
        gm_keys (bm_bridges (closeBridge m e)) - fst ` set es" by blast
  moreover have "gm_keys (bm_bridges (closeBridge m e)) = gm_keys (bm_bridges m) - {fst e}"
    by (simp add: gm_keys_dom step(2))
  ultimately show ?case by auto
qed simp

lemma bm_inv_empty:
  assumes "bm_inv m" and "gm_keys (bm_bridges m) = {}"
  shows "bm_bridges m = [] \<and> bm_sessionMap m = []"
proof -
  have "map_of (bm_bridges m) i = None" for i using assms(2) by (simp add: map_of_None_keys)
  then have "map_of (bm_sessionMap m) s = None" for s
    using bm_invD(4) [OF assms(1), of s] by (cases "map_of (bm_sessionMap m) s") auto
  then have "gm_keys (bm_sessionMap m) = {}" by (auto simp: map_of_None_keys)
  with assms(2) show ?thesis by (simp add: gm_keys_def)
qed

lemma CloseAll_empties:
  assumes "bm_inv m" and "is_range ord"
  shows "bm_inv (BridgeMgr_CloseAll ord m)"
    and "bm_bridges (BridgeMgr_CloseAll ord m) = []" and "bm_sessionMap (BridgeMgr_CloseAll ord m) = []"
proof -
  have "map_of (bm_bridges m) k = Some b" if "(k, b) \<in> set (ord (bm_bridges m))" for k b
    using that gm_wf_entry [OF bm_invD(1) [OF assms(1)]] is_range_set [OF assms(2)] by simp
  then have *: "bm_inv (BridgeMgr_CloseAll ord m) \<and>
      gm_keys (bm_bridges (BridgeMgr_CloseAll ord m)) = gm_keys (bm_bridges m) - fst ` set (bm_bridges m)"
    using foldl_closeBridge [OF assms(1), of "ord (bm_bridges m)"] is_range_set [OF assms(2)]
    by (simp add: BridgeMgr_CloseAll_def)
  then have "gm_keys (bm_bridges (BridgeMgr_CloseAll ord m)) = {}" by (simp add: gm_keys_def)
  with * show "bm_inv (BridgeMgr_CloseAll ord m)"
    and "bm_bridges (BridgeMgr_CloseAll ord m) = []" and "bm_sessionMap (BridgeMgr_CloseAll ord m) = []"
    using bm_inv_empty by blast+
qed

section \<open>Sockets\<close>

text \<open>
  The operating system refuses a second socket on a port that is already bound; then no two
  endpoints of live bridges share a local port.
\<close>

definition udp_exclusive :: "udp_listen \<Rightarrow> bool" where
  "udp_exclusive listen \<longleftrightarrow> (\<forall>S p. p \<in> S \<longrightarrow> \<not> listen S p)"

definition bm_sockets :: "bridge_manager \<Rightarrow> int list" where
  "bm_sockets m = List.concat (map (\<lambda>(_, b). [ep_LocalPort (br_SessionA b), ep_LocalPort (br_SessionB b)]) (bm_bridges m))"

lemma bm_open_sockets:
  assumes "bm_inv m"
  shows "bm_open m = set (bm_sockets m)"
proof -
  have "ep_open (br_SessionA (snd e)) \<union> ep_open (br_SessionB (snd e)) =
      {ep_LocalPort (br_SessionA (snd e)), ep_LocalPort (br_SessionB (snd e))}" if "e \<in> set (bm_bridges m)" for e
    using bm_invD(3) [OF assms, of "fst e" "snd e"] gm_wf_entry [OF bm_invD(1) [OF assms], of "fst e" "snd e"] that
    by (auto simp: bridge_ok_def ep_open_def)
  then have "bm_open m = (\<Union>e \<in> set (bm_bridges m). {ep_LocalPort (br_SessionA (snd e)), ep_LocalPort (br_SessionB (snd e))})"
    unfolding bm_open_def image_image by (simp cong: SUP_cong)
  also have "\<dots> = set (bm_sockets m)" by (auto simp: bm_sockets_def)
  finally show ?thesis .
qed

lemma CreateBridge_sockets:
  assumes "bm_inv m" and "udp_exclusive listen" and "distinct (bm_sockets m)"
    and "BridgeMgr_CreateBridge listen uuid m A B = (m', Inr i)" and "i \<notin> gm_keys (bm_bridges m)"
  shows "distinct (bm_sockets m')"
proof -
  note b = CreateBridge_Inr [OF assms(4)]
  have "bm_sockets m' = bm_sockets m @ [ep_LocalPort A, ep_LocalPort B]"
    using assms(5) by (simp add: b(10) bm_sockets_def gm_set_new)
  moreover have "ep_LocalPort A \<notin> set (bm_sockets m)" "ep_LocalPort B \<notin> insert (ep_LocalPort A) (set (bm_sockets m))"
    using b(8,9) assms(2) bm_open_sockets [OF assms(1)] by (auto simp: udp_exclusive_def)
  ultimately show ?thesis using assms(3) by auto
qed

lemma distinct_concat_filter: "distinct (List.concat (map f xs)) \<Longrightarrow> distinct (List.concat (map f (filter P xs)))"
  by (induction xs) auto

lemma destroyBridgeLocked_sockets: "distinct (bm_sockets m) \<Longrightarrow> distinct (bm_sockets (destroyBridgeLocked m b))"
  by (simp add: bm_sockets_def destroyBridgeLocked_def gm_del_def distinct_concat_filter)

section \<open>Relaying\<close>

text \<open>The datagrams an observation list relays before the loop ends.\<close>

fun relayed :: "relay_obs list \<Rightarrow> 8 word list list" where
  "relayed [] = []"
| "relayed (Inactive # _) = []"
| "relayed (ContextDone # _) = []"
| "relayed (ReadError done # os) = (if done then [] else relayed os)"
| "relayed (Datagram d ok # os) = (if ok then [take relay_buffer d] else []) @ relayed os"

lemma relayAtoB_spec:
  "relayAtoB os b =
     (b\<lparr>br_packetsA2B := br_packetsA2B b + of_nat (length (relayed os)),
        br_bytesA2B := br_bytesA2B b + of_nat (sum_list (map length (relayed os)))\<rparr>,
      map (Pair (ep_RemoteAddr (br_SessionB b), ep_RemotePort (br_SessionB b))) (relayed os))"
  by (induction os b rule: relayAtoB.induct) (simp_all add: Let_def split_beta algebra_simps)

lemma relayBtoA_spec:
  "relayBtoA os b =
     (b\<lparr>br_packetsB2A := br_packetsB2A b + of_nat (length (relayed os)),
        br_bytesB2A := br_bytesB2A b + of_nat (sum_list (map length (relayed os)))\<rparr>,
      map (Pair (ep_RemoteAddr (br_SessionA b), ep_RemotePort (br_SessionA b))) (relayed os))"
  by (induction os b rule: relayBtoA.induct) (simp_all add: Let_def split_beta algebra_simps)

end
