(* ===== verification/Rtp_Server.thy ===== *)
theory Rtp_Server
  imports Media_Session Media_Bridge
begin

text \<open>
  The gRPC service of the media server (\<open>internal/rtpmanager/server/server.go\<close>): each
  handler composes the session manager and the bridge manager. Error texts are kept as the
  error values they format. \<open>srv_step\<close> is one handler call or the end of a playback
  goroutine; the identifiers \<open>uuid.New()\<close> returns are assumed not to be in use.
\<close>

record rtp_config =
  cfg_AdvertiseAddr :: string
  cfg_RTPPortMin :: int
  cfg_RTPPortMax :: int

record rtp_server =
  srv_sessionMgr :: session_manager
  srv_bridgeMgr :: bridge_manager

definition int32 :: "int \<Rightarrow> int" where
  "int32 n = (n + 2 ^ 31) mod 2 ^ 32 - 2 ^ 31"

datatype server_error =
    SessionErr session_error
  | SessionAErr session_error
  | SessionBErr session_error
  | BridgeErr bridge_error
  | BridgeOrSessionRequired

record session_status =
  ss_State :: session_state
  ss_Error :: "server_error option"

record create_session_response =
  csr_SessionId :: string
  csr_LocalAddr :: string
  csr_LocalPort :: int
  csr_SelectedCodec :: string
  csr_SdpBody :: string
  csr_Status :: session_status

record bridge_response =
  brr_BridgeId :: string
  brr_Status :: session_status

record health_response =
  hr_Healthy :: bool
  hr_ActiveSessions :: int
  hr_AvailablePorts :: int

definition status_ok :: "session_state \<Rightarrow> session_status" where
  "status_ok st = \<lparr>ss_State = st, ss_Error = None\<rparr>"

definition status_error :: "server_error \<Rightarrow> session_status" where
  "status_error e = \<lparr>ss_State = SESSION_STATE_ERROR, ss_Error = Some e\<rparr>"

definition NewServer :: "rtp_config \<Rightarrow> rtp_server" where
  "NewServer cfg =
     \<lparr>srv_sessionMgr = NewSessionManager (NewPortPool (cfg_RTPPortMin cfg) (cfg_RTPPortMax cfg))
                         NewLocalService (cfg_AdvertiseAddr cfg),
      srv_bridgeMgr = NewBridgeManager\<rparr>"

definition Server_CreateSession ::
  "(int, bool) range_order \<Rightarrow> sdp_marshal \<Rightarrow> string \<Rightarrow> time \<Rightarrow> rtp_server \<Rightarrow>
   string \<Rightarrow> string \<Rightarrow> int \<Rightarrow> string list \<Rightarrow> rtp_server \<times> create_session_response" where
  "Server_CreateSession ord marshal uuid now s callId remoteAddr remotePort offeredCodecs =
     (case SessionMgr_CreateSession ord marshal uuid now (srv_sessionMgr s)
             callId remoteAddr remotePort offeredCodecs of
        (m, Inl err) \<Rightarrow>
          (s\<lparr>srv_sessionMgr := m\<rparr>,
           \<lparr>csr_SessionId = '''', csr_LocalAddr = '''', csr_LocalPort = 0, csr_SelectedCodec = '''',
            csr_SdpBody = '''', csr_Status = status_error (SessionErr err)\<rparr>)
      | (m, Inr (sess, sdpBody)) \<Rightarrow>
          (s\<lparr>srv_sessionMgr := m\<rparr>,
           \<lparr>csr_SessionId = sess_ID sess, csr_LocalAddr = sess_LocalAddr sess,
            csr_LocalPort = int32 (sess_LocalPort sess), csr_SelectedCodec = sess_Codec sess,
            csr_SdpBody = sdpBody, csr_Status = status_ok SESSION_STATE_CREATED\<rparr>))"

definition Server_DestroySession :: "rtp_server \<Rightarrow> string \<Rightarrow> rtp_server \<times> session_status" where
  "Server_DestroySession s sessionId =
     (case SessionMgr_DestroySession (srv_sessionMgr s) sessionId of
        (m, Some err) \<Rightarrow> (s\<lparr>srv_sessionMgr := m\<rparr>, status_error (SessionErr err))
      | (m, None) \<Rightarrow> (s\<lparr>srv_sessionMgr := m\<rparr>, status_ok SESSION_STATE_TERMINATED))"

text \<open>
  \<open>PlayAudio\<close> streams the events of the channel until it is closed. With an open channel the
  \<open>range\<close> over it does not end: \<open>Blocked\<close>.
\<close>

datatype play_result = Returned "session_error option" | SendError | Blocked

fun forwardEvents :: "(playback_event \<Rightarrow> bool) \<Rightarrow> playback_event list \<Rightarrow> playback_event list \<times> bool" where
  "forwardEvents send [] = ([], True)"
| "forwardEvents send (e # es) =
     (if send e then (let (out, ok) = forwardEvents send es in (e # out, ok)) else ([], False))"

definition Server_PlayAudio_start ::
  "(string, codec_config) range_order \<Rightarrow> rtp_server \<Rightarrow> string \<Rightarrow> string \<Rightarrow>
   rtp_server \<times> event_channel \<times> session_error option" where
  "Server_PlayAudio_start ord s sessionId filePath =
     (case SessionMgr_PlayAudio ord (srv_sessionMgr s) sessionId filePath of
        (m, ch, err) \<Rightarrow> (s\<lparr>srv_sessionMgr := m\<rparr>, ch, err))"

definition Server_PlayAudio_stream ::
  "(playback_event \<Rightarrow> bool) \<Rightarrow> event_channel \<Rightarrow> session_error option \<Rightarrow> stream_outcome \<Rightarrow>
   playback_event list \<times> play_result" where
  "Server_PlayAudio_stream send ch err outcome =
     (case err of
        Some e \<Rightarrow> ([], Returned (Some e))
      | None \<Rightarrow>
          let ch' = playback_end outcome ch;
              (out, ok) = forwardEvents send (ec_events ch') in
          (out, if \<not> ok then SendError else if ec_closed ch' then Returned None else Blocked))"

definition Server_StopAudio :: "rtp_server \<Rightarrow> string \<Rightarrow> rtp_server \<times> bool" where
  "Server_StopAudio s sessionId =
     (case SessionMgr_StopAudio (srv_sessionMgr s) sessionId of
        (m, wasPlaying, _) \<Rightarrow> (s\<lparr>srv_sessionMgr := m\<rparr>, wasPlaying))"

definition Server_Health :: "rtp_server \<Rightarrow> health_response" where
  "Server_Health s =
     \<lparr>hr_Healthy = True,
      hr_ActiveSessions = int32 (int (SessionMgr_Count (srv_sessionMgr s))),
      hr_AvailablePorts = int32 (int (PortPool_Available (sm_portPool (srv_sessionMgr s))))\<rparr>"

definition Server_UpdateSessionRemote ::
  "rtp_server \<Rightarrow> string \<Rightarrow> string \<Rightarrow> int \<Rightarrow> rtp_server \<times> session_status" where
  "Server_UpdateSessionRemote s sessionId remoteAddr remotePort =
     (case SessionMgr_UpdateRemoteEndpoint (srv_sessionMgr s) sessionId remoteAddr remotePort of
        (m, Some err) \<Rightarrow> (s\<lparr>srv_sessionMgr := m\<rparr>, status_error (SessionErr err))
      | (m, None) \<Rightarrow> (s\<lparr>srv_sessionMgr := m\<rparr>, status_ok SESSION_STATE_ACTIVE))"

definition mkEndpoint :: "string \<Rightarrow> string \<times> int \<times> string \<times> int \<Rightarrow> endpoint" where
  "mkEndpoint sid e = (case e of (la, lp, ra, rp) \<Rightarrow>
     \<lparr>ep_SessionID = sid, ep_LocalAddr = la, ep_LocalPort = lp,
      ep_RemoteAddr = ra, ep_RemotePort = rp, ep_conn = None\<rparr>)"

definition Server_BridgeMedia ::
  "udp_listen \<Rightarrow> string \<Rightarrow> rtp_server \<Rightarrow> string \<Rightarrow> string \<Rightarrow> rtp_server \<times> bridge_response" where
  "Server_BridgeMedia listen uuid s sessionAId sessionBId =
     (case SessionMgr_GetSessionEndpoint (srv_sessionMgr s) sessionAId of
        Inl err \<Rightarrow> (s, \<lparr>brr_BridgeId = '''', brr_Status = status_error (SessionAErr err)\<rparr>)
      | Inr epA \<Rightarrow>
        (case SessionMgr_GetSessionEndpoint (srv_sessionMgr s) sessionBId of
           Inl err \<Rightarrow> (s, \<lparr>brr_BridgeId = '''', brr_Status = status_error (SessionBErr err)\<rparr>)
         | Inr epB \<Rightarrow>
           (case BridgeMgr_CreateBridge listen uuid (srv_bridgeMgr s)
                   (mkEndpoint sessionAId epA) (mkEndpoint sessionBId epB) of
              (bm, Inl err) \<Rightarrow>
                (s\<lparr>srv_bridgeMgr := bm\<rparr>, \<lparr>brr_BridgeId = '''', brr_Status = status_error (BridgeErr err)\<rparr>)
            | (bm, Inr bridgeID) \<Rightarrow>
                let m1 = fst (SessionMgr_SetSessionBridged (srv_sessionMgr s) sessionAId);
                    m2 = fst (SessionMgr_SetSessionBridged m1 sessionBId) in
                (s\<lparr>srv_bridgeMgr := bm, srv_sessionMgr := m2\<rparr>,
                 \<lparr>brr_BridgeId = bridgeID, brr_Status = status_ok SESSION_STATE_BRIDGED\<rparr>))))"

definition Server_UnbridgeMedia ::
  "rtp_server \<Rightarrow> string \<Rightarrow> string \<Rightarrow> rtp_server \<times> bridge_response" where
  "Server_UnbridgeMedia s bridgeId sessionId =
     (if bridgeId \<noteq> '''' then
        (case BridgeMgr_DestroyBridge (srv_bridgeMgr s) bridgeId of
           (bm, Some err) \<Rightarrow>
             (s\<lparr>srv_bridgeMgr := bm\<rparr>, \<lparr>brr_BridgeId = bridgeId, brr_Status = status_error (BridgeErr err)\<rparr>)
         | (bm, None) \<Rightarrow>
             (s\<lparr>srv_bridgeMgr := bm\<rparr>, \<lparr>brr_BridgeId = bridgeId, brr_Status = status_ok SESSION_STATE_TERMINATED\<rparr>))
      else if sessionId \<noteq> '''' then
        (case BridgeMgr_DestroyBySession (srv_bridgeMgr s) sessionId of
           (bm, bid) \<Rightarrow>
             (s\<lparr>srv_bridgeMgr := bm\<rparr>, \<lparr>brr_BridgeId = bid, brr_Status = status_ok SESSION_STATE_TERMINATED\<rparr>))
      else (s, \<lparr>brr_BridgeId = '''', brr_Status = status_error BridgeOrSessionRequired\<rparr>))"

definition Server_Close ::
  "(string, bridge) range_order \<Rightarrow> (string, media_session) range_order \<Rightarrow> rtp_server \<Rightarrow> rtp_server" where
  "Server_Close ordB ordS s =
     s\<lparr>srv_bridgeMgr := BridgeMgr_CloseAll ordB (srv_bridgeMgr s),
       srv_sessionMgr := SessionMgr_CloseAll ordS (srv_sessionMgr s)\<rparr>"

section \<open>Steps of the server\<close>

text \<open>
  \<open>ok sid s\<close> is a condition under which the caller destroys a session: \<open>\<lambda>_ _. True\<close> for
  the server as it is, \<open>unbridged\<close> for callers that unbridge first.
\<close>

inductive srv_step :: "udp_listen \<Rightarrow> (string \<Rightarrow> rtp_server \<Rightarrow> bool) \<Rightarrow> rtp_server \<Rightarrow> rtp_server \<Rightarrow> bool"
  for listen ok where
  create: "is_range ord \<Longrightarrow> uuid \<notin> gm_keys (sm_sessions (srv_sessionMgr s)) \<Longrightarrow>
    srv_step listen ok s (fst (Server_CreateSession ord marshal uuid now s c ra rp codecs))"
| destroy: "ok sid s \<Longrightarrow> srv_step listen ok s (fst (Server_DestroySession s sid))"
| play: "srv_step listen ok s (fst (Server_PlayAudio_start ordc s sid f))"
| stop: "srv_step listen ok s (fst (Server_StopAudio s sid))"
| update: "srv_step listen ok s (fst (Server_UpdateSessionRemote s sid ra rp))"
| bridge: "''bridge-'' @ uuid \<notin> gm_keys (bm_bridges (srv_bridgeMgr s)) \<Longrightarrow>
    srv_step listen ok s (fst (Server_BridgeMedia listen uuid s a b))"
| unbridge: "srv_step listen ok s (fst (Server_UnbridgeMedia s bid sid))"
| playback_done: "srv_step listen ok s
    (s\<lparr>srv_sessionMgr := (srv_sessionMgr s)\<lparr>sm_media := LocalService_finish (sm_media (srv_sessionMgr s)) i\<rparr>\<rparr>)"

inductive srv_reachable :: "rtp_config \<Rightarrow> udp_listen \<Rightarrow> (string \<Rightarrow> rtp_server \<Rightarrow> bool) \<Rightarrow> rtp_server \<Rightarrow> bool"
  for cfg listen ok where
  init: "srv_reachable cfg listen ok (NewServer cfg)"
| step: "srv_reachable cfg listen ok s \<Longrightarrow> srv_step listen ok s s' \<Longrightarrow> srv_reachable cfg listen ok s'"

definition unbridged :: "string \<Rightarrow> rtp_server \<Rightarrow> bool" where
  "unbridged sid s \<longleftrightarrow> \<not> BridgeMgr_IsSessionBridged (srv_bridgeMgr s) sid"

definition any_time :: "string \<Rightarrow> rtp_server \<Rightarrow> bool" where
  "any_time sid s = True"

section \<open>How each handler acts on the two managers\<close>

lemma server_frames [simp]:
  "srv_sessionMgr (fst (Server_CreateSession ord marshal uuid now s c ra rp codecs)) =
     fst (SessionMgr_CreateSession ord marshal uuid now (srv_sessionMgr s) c ra rp codecs)"
  "srv_bridgeMgr (fst (Server_CreateSession ord marshal uuid now s c ra rp codecs)) = srv_bridgeMgr s"
  "srv_sessionMgr (fst (Server_DestroySession s sid)) = fst (SessionMgr_DestroySession (srv_sessionMgr s) sid)"
  "srv_bridgeMgr (fst (Server_DestroySession s sid)) = srv_bridgeMgr s"
  "srv_sessionMgr (fst (Server_PlayAudio_start ordc s sid f)) = fst (SessionMgr_PlayAudio ordc (srv_sessionMgr s) sid f)"
  "srv_bridgeMgr (fst (Server_PlayAudio_start ordc s sid f)) = srv_bridgeMgr s"
  "srv_sessionMgr (fst (Server_StopAudio s sid)) = fst (SessionMgr_StopAudio (srv_sessionMgr s) sid)"
  "srv_bridgeMgr (fst (Server_StopAudio s sid)) = srv_bridgeMgr s"
  "srv_sessionMgr (fst (Server_UpdateSessionRemote s sid ra rp)) =
     fst (SessionMgr_UpdateRemoteEndpoint (srv_sessionMgr s) sid ra rp)"
  "srv_bridgeMgr (fst (Server_UpdateSessionRemote s sid ra rp)) = srv_bridgeMgr s"
  "srv_sessionMgr (fst (Server_UnbridgeMedia s bid sid)) = srv_sessionMgr s"
  by (simp_all add: Server_CreateSession_def Server_DestroySession_def Server_PlayAudio_start_def
      Server_StopAudio_def Server_UpdateSessionRemote_def Server_UnbridgeMedia_def
      split: prod.splits sum.splits option.splits)

lemma UnbridgeMedia_bridges:
  "srv_bridgeMgr (fst (Server_UnbridgeMedia s bid sid)) =
     (if bid \<noteq> '''' then fst (BridgeMgr_DestroyBridge (srv_bridgeMgr s) bid)
      else if sid \<noteq> '''' then fst (BridgeMgr_DestroyBySession (srv_bridgeMgr s) sid)
      else srv_bridgeMgr s)"
  by (simp add: Server_UnbridgeMedia_def split: prod.splits option.splits)

lemma BridgeMedia_cases:
  obtains (unchanged) "srv_sessionMgr (fst (Server_BridgeMedia listen uuid s a b)) = srv_sessionMgr s"
      "srv_bridgeMgr (fst (Server_BridgeMedia listen uuid s a b)) = srv_bridgeMgr s"
  | (bridged) epA epB bm i where
      "SessionMgr_GetSessionEndpoint (srv_sessionMgr s) a = Inr epA"
      "SessionMgr_GetSessionEndpoint (srv_sessionMgr s) b = Inr epB"
      "BridgeMgr_CreateBridge listen uuid (srv_bridgeMgr s) (mkEndpoint a epA) (mkEndpoint b epB) = (bm, Inr i)"
      "srv_bridgeMgr (fst (Server_BridgeMedia listen uuid s a b)) = bm"
      "srv_sessionMgr (fst (Server_BridgeMedia listen uuid s a b)) =
         fst (SessionMgr_SetSessionBridged (fst (SessionMgr_SetSessionBridged (srv_sessionMgr s) a)) b)"
proof (cases "SessionMgr_GetSessionEndpoint (srv_sessionMgr s) a")
  case (Inl e)
  then show ?thesis by (intro unchanged) (simp_all add: Server_BridgeMedia_def)
next
  case A: (Inr epA)
  show ?thesis
  proof (cases "SessionMgr_GetSessionEndpoint (srv_sessionMgr s) b")
    case (Inl e)
    with A show ?thesis by (intro unchanged) (simp_all add: Server_BridgeMedia_def)
  next
    case B: (Inr epB)
    obtain bm r where c: "BridgeMgr_CreateBridge listen uuid (srv_bridgeMgr s) (mkEndpoint a epA) (mkEndpoint b epB) = (bm, r)"
      by (cases "BridgeMgr_CreateBridge listen uuid (srv_bridgeMgr s) (mkEndpoint a epA) (mkEndpoint b epB)")
    show ?thesis
    proof (cases r)
      case (Inl e)
      with c CreateBridge_Inl have "bm = srv_bridgeMgr s" by blast
      with A B c Inl show ?thesis by (intro unchanged) (simp_all add: Server_BridgeMedia_def)
    next
      case (Inr i)
      with A B c show ?thesis
        by (intro bridged [of epA epB bm i]) (simp_all add: Server_BridgeMedia_def Let_def)
    qed
  qed
qed

section \<open>Invariants of the server\<close>

lemma CreateSession_sm_inv:
  assumes "sm_inv m" "is_range ord" "uuid \<notin> gm_keys (sm_sessions m)"
  shows "sm_inv (fst (SessionMgr_CreateSession ord marshal uuid now m c ra rp codecs))"
  using creates_inv [OF CreateSession_creates assms] by (metis prod.collapse)

lemma finish_sm_inv: "sm_inv m \<Longrightarrow> sm_inv (m\<lparr>sm_media := LocalService_finish (sm_media m) i\<rparr>)"
  by (simp add: sm_inv_media ls_inv_finish sm_invD(4))

lemma srv_step_sm_inv:
  assumes "srv_step listen ok s s'" and "sm_inv (srv_sessionMgr s)"
  shows "sm_inv (srv_sessionMgr s')"
  using assms
proof cases
  case (bridge uuid a b)
  with assms(2) show ?thesis
    by (cases rule: BridgeMedia_cases [where listen = listen and uuid = uuid and s = s and a = a and b = b]) (simp_all add: SetSessionBridged_inv)
qed (simp_all add: CreateSession_sm_inv DestroySession_inv PlayAudio_inv StopAudio_inv
      UpdateRemoteEndpoint_inv finish_sm_inv)

lemma srv_step_bm_inv:
  assumes "srv_step listen ok s s'" and "bm_inv (srv_bridgeMgr s)"
  shows "bm_inv (srv_bridgeMgr s')"
  using assms(1)
proof cases
  case (bridge uuid a b)
  show ?thesis
  proof (cases rule: BridgeMedia_cases [where listen = listen and uuid = uuid and s = s and a = a and b = b])
    case unchanged
    then show ?thesis using assms(2) bridge by simp
  next
    case (bridged epA epB bm i)
    then show ?thesis
      using CreateBridge_inv [OF assms(2) bridged(3)] CreateBridge_Inr(1) [OF bridged(3)] bridge by simp
  qed
next
  case (unbridge bid sid)
  then show ?thesis
    using assms(2) by (simp add: UnbridgeMedia_bridges DestroyBridge_inv DestroyBySession_inv)
qed (use assms(2) in simp_all)

lemma srv_reachable_inv:
  "srv_reachable cfg listen ok s \<Longrightarrow> sm_inv (srv_sessionMgr s) \<and> bm_inv (srv_bridgeMgr s)"
proof (induction rule: srv_reachable.induct)
  case init
  show ?case by (simp add: NewServer_def NewSessionManager_inv)
next
  case (step s s')
  then show ?case using srv_step_sm_inv srv_step_bm_inv by blast
qed

section \<open>Bridges and the sessions behind them\<close>

definition sess_port :: "session_manager \<Rightarrow> string \<Rightarrow> int option" where
  "sess_port m sid = map_option sess_LocalPort (map_of (sm_sessions m) sid)"

text \<open>Every endpoint of a bridge is a live session that owns the endpoint's port.\<close>

definition backed :: "rtp_server \<Rightarrow> bool" where
  "backed s \<longleftrightarrow> (\<forall>i b. map_of (bm_bridges (srv_bridgeMgr s)) i = Some b \<longrightarrow>
     sess_port (srv_sessionMgr s) (ep_SessionID (br_SessionA b)) = Some (ep_LocalPort (br_SessionA b)) \<and>
     sess_port (srv_sessionMgr s) (ep_SessionID (br_SessionB b)) = Some (ep_LocalPort (br_SessionB b)))"

lemma sess_port_kept [simp]:
  "sess_port (fst (SessionMgr_UpdateRemoteEndpoint m sid ra rp)) = sess_port m"
  "sess_port (fst (SessionMgr_SetSessionBridged m sid)) = sess_port m"
  "sess_port (fst (SessionMgr_PlayAudio ordc m sid f)) = sess_port m"
  "sess_port (fst (SessionMgr_StopAudio m sid)) = sess_port m"
  "sess_port (m\<lparr>sm_media := l\<rparr>) = sess_port m"
  by (auto simp: sess_port_def SessionMgr_UpdateRemoteEndpoint_def SessionMgr_SetSessionBridged_def
      SessionMgr_PlayAudio_def SessionMgr_StopAudio_def Let_def fun_eq_iff split: option.splits prod.splits)

lemma sess_port_create:
  assumes "uuid \<notin> gm_keys (sm_sessions m)" and "sess_port m sid = Some p"
  shows "sess_port (fst (SessionMgr_CreateSession ord marshal uuid now m c ra rp codecs)) sid = Some p"
proof -
  have "creates ord uuid c codecs m (fst (SessionMgr_CreateSession ord marshal uuid now m c ra rp codecs))
      (snd (SessionMgr_CreateSession ord marshal uuid now m c ra rp codecs))"
    by (rule CreateSession_creates) simp
  then show ?thesis
    using assms by cases (auto simp: sess_port_def map_of_None_keys [symmetric])
qed

lemma sess_port_destroy:
  "sid \<noteq> sid' \<Longrightarrow> sess_port (fst (SessionMgr_DestroySession m sid')) sid = sess_port m sid"
  by (simp add: sess_port_def SessionMgr_DestroySession_def split: option.split)

lemma GetSessionEndpoint_port:
  "SessionMgr_GetSessionEndpoint m a = Inr ep \<Longrightarrow>
     sess_port m a = Some (ep_LocalPort (mkEndpoint a ep)) \<and> ep_SessionID (mkEndpoint a ep) = a"
  by (auto simp: SessionMgr_GetSessionEndpoint_def mkEndpoint_def sess_port_def split: option.splits)

lemma destroyBridgeLocked_mono:
  "map_of (bm_bridges (destroyBridgeLocked m b)) i = Some c \<Longrightarrow> map_of (bm_bridges m) i = Some c"
  by (auto simp: destroyBridgeLocked_lookup split: if_splits)

lemma UnbridgeMedia_mono:
  "map_of (bm_bridges (srv_bridgeMgr (fst (Server_UnbridgeMedia s bid sid)))) i = Some c \<Longrightarrow>
     map_of (bm_bridges (srv_bridgeMgr s)) i = Some c"
  by (auto simp: UnbridgeMedia_bridges BridgeMgr_DestroyBridge_def BridgeMgr_DestroyBySession_def
      dest: destroyBridgeLocked_mono split: option.splits if_splits)

lemma srv_step_backed:
  assumes "srv_step listen unbridged s s'" and inv: "bm_inv (srv_bridgeMgr s)" and bk: "backed s"
  shows "backed s'"
  using assms(1)
proof cases
  case (create ord uuid marshal now c ra rp codecs)
  then show ?thesis using bk by (auto simp: backed_def sess_port_create)
next
  case (destroy sid)
  have "ep_SessionID (br_SessionA b) \<noteq> sid \<and> ep_SessionID (br_SessionB b) \<noteq> sid"
    if "map_of (bm_bridges (srv_bridgeMgr s)) i = Some b" for i b
    using bm_invD(3) [OF inv that] destroy(2)
    by (auto simp: bridge_ok_def unbridged_def BridgeMgr_IsSessionBridged_def gm_has_def)
  then show ?thesis using bk destroy(1) by (simp add: backed_def sess_port_destroy)
next
  case (bridge uuid a b)
  show ?thesis
  proof (cases rule: BridgeMedia_cases [where listen = listen and uuid = uuid and s = s and a = a and b = b])
    case unchanged
    then show ?thesis using bk bridge by (simp add: backed_def)
  next
    case (bridged epA epB bm i)
    note bm = CreateBridge_Inr(10) [OF bridged(3)]
    have "sess_port (srv_sessionMgr s') = sess_port (srv_sessionMgr s)" using bridge bridged by simp
    then show ?thesis
      using bk bridge bridged(4) GetSessionEndpoint_port [OF bridged(1)] GetSessionEndpoint_port [OF bridged(2)]
      by (simp add: backed_def bm)
  qed
next
  case (unbridge bid sid)
  then show ?thesis using bk by (auto simp: backed_def dest!: UnbridgeMedia_mono)
qed (use bk in \<open>simp_all add: backed_def\<close>)

lemma srv_reachable_backed: "srv_reachable cfg listen unbridged s \<Longrightarrow> backed s"
proof (induction rule: srv_reachable.induct)
  case init
  show ?case by (simp add: backed_def NewServer_def NewBridgeManager_def)
next
  case (step s s')
  then show ?case using srv_step_backed srv_reachable_inv by blast
qed

section \<open>Port range of the server\<close>

lemma sm_pool_range_kept:
  assumes "srv_step listen ok s s'"
  shows "pp_ports (sm_portPool (srv_sessionMgr s')) = pp_ports (sm_portPool (srv_sessionMgr s))"
proof -
  have rel: "pp_ports (PortPool_Release r p) = pp_ports p" for r p
    by (simp add: pp_ports_def PortPool_Release_def)
  have alloc: "pp_ports p' = pp_ports p" if "PortPool_Allocate ord p = (p', Inr (r, r'))" for ord p p' r r'
    using that by (auto simp: Allocate_Inr pp_ports_def)
  have bridged: "sm_portPool (fst (SessionMgr_SetSessionBridged m sid)) = sm_portPool m" for m sid
    by (simp add: SessionMgr_SetSessionBridged_def split: option.split)
  from assms show ?thesis
  proof cases
    case (create ord uuid marshal now c ra rp codecs)
    have "creates ord uuid c codecs (srv_sessionMgr s) (srv_sessionMgr s')
        (snd (SessionMgr_CreateSession ord marshal uuid now (srv_sessionMgr s) c ra rp codecs))"
      using create(1) by (simp add: CreateSession_creates)
    then show ?thesis by cases (auto simp: rel dest: alloc)
  next
    case (bridge uuid a b)
    then show ?thesis
      by (cases rule: BridgeMedia_cases [where listen = listen and uuid = uuid and s = s and a = a and b = b])
        (simp_all add: bridged)
  qed (auto simp: rel SessionMgr_DestroySession_def SessionMgr_PlayAudio_def SessionMgr_StopAudio_def
      SessionMgr_UpdateRemoteEndpoint_def Let_def split: option.split prod.split)
qed

lemma srv_reachable_range:
  "srv_reachable cfg listen ok s \<Longrightarrow> pp_ports (sm_portPool (srv_sessionMgr s)) =
     {x. cfg_RTPPortMin cfg \<le> x \<and> x < cfg_RTPPortMax cfg \<and> even x}"
proof (induction rule: srv_reachable.induct)
  case init
  show ?case
    by (auto simp: NewServer_def NewSessionManager_def NewPortPool_def Let_def pp_ports_def) presburger
next
  case (step s s')
  then show ?case using sm_pool_range_kept by metis
qed

section \<open>Properties\<close>


text \<open>A small server used by the examples: two sessions, bridged.\<close>

definition ex_cfg :: rtp_config where
  "ex_cfg = \<lparr>cfg_AdvertiseAddr = ''10.0.0.1'', cfg_RTPPortMin = 10000, cfg_RTPPortMax = 10007\<rparr>"

definition ex_listen :: udp_listen where
  "ex_listen S p \<longleftrightarrow> p \<notin> S"

definition ex_s1 :: rtp_server where
  "ex_s1 = fst (Server_CreateSession id (\<lambda>_. Some ''sdp'') ''a'' 0 (NewServer ex_cfg) ''c1'' ''10.0.0.2'' 4000 [''8'', ''0''])"

definition ex_s2 :: rtp_server where
  "ex_s2 = fst (Server_CreateSession id (\<lambda>_. Some ''sdp'') ''b'' 0 ex_s1 ''c2'' ''10.0.0.3'' 4002 [''0''])"

definition ex_s3 :: rtp_server where
  "ex_s3 = fst (Server_BridgeMedia ex_listen ''x'' ex_s2 ''a'' ''b'')"

lemmas srv_eval = ex_cfg_def NewServer_def NewSessionManager_def NewPortPool_def PortPool_fill.simps
  Server_CreateSession_def SessionMgr_CreateSession_def existingSession_def PortPool_Allocate_def
  gm_set_def gm_del_def gm_has_def gm_keys_def Let_def status_ok_def

lemma ex_s1_eval:
  "ex_s1 = \<lparr>srv_sessionMgr =
     \<lparr>sm_sessions = [(''a'', \<lparr>sess_ID = ''a'', sess_CallID = ''c1'', sess_LocalAddr = ''10.0.0.1'',
        sess_LocalPort = 10000, sess_RTCPPort = 10001, sess_RemoteAddr = ''10.0.0.2'', sess_RemotePort = 4000,
        sess_Codec = ''0'', sess_State = SESSION_STATE_CREATED, sess_CreatedAt = 0, sess_cancelled = False\<rparr>)],
      sm_callToSession = [(''c1'', ''a'')],
      sm_portPool = \<lparr>pp_minPort = 10000, pp_maxPort = 10007,
        pp_available = [(10002, True), (10004, True), (10006, True)], pp_allocated = [(10000, True)]\<rparr>,
      sm_media = NewLocalService, sm_advertiseAddr = ''10.0.0.1''\<rparr>,
    srv_bridgeMgr = NewBridgeManager\<rparr>"
  by (simp add: ex_s1_def srv_eval)

lemma ex_s2_eval:
  "ex_s2 = \<lparr>srv_sessionMgr =
     \<lparr>sm_sessions = [(''a'', \<lparr>sess_ID = ''a'', sess_CallID = ''c1'', sess_LocalAddr = ''10.0.0.1'',
        sess_LocalPort = 10000, sess_RTCPPort = 10001, sess_RemoteAddr = ''10.0.0.2'', sess_RemotePort = 4000,
        sess_Codec = ''0'', sess_State = SESSION_STATE_CREATED, sess_CreatedAt = 0, sess_cancelled = False\<rparr>),
        (''b'', \<lparr>sess_ID = ''b'', sess_CallID = ''c2'', sess_LocalAddr = ''10.0.0.1'',
        sess_LocalPort = 10002, sess_RTCPPort = 10003, sess_RemoteAddr = ''10.0.0.3'', sess_RemotePort = 4002,
        sess_Codec = ''0'', sess_State = SESSION_STATE_CREATED, sess_CreatedAt = 0, sess_cancelled = False\<rparr>)],
      sm_callToSession = [(''c1'', ''a''), (''c2'', ''b'')],
      sm_portPool = \<lparr>pp_minPort = 10000, pp_maxPort = 10007,
        pp_available = [(10004, True), (10006, True)], pp_allocated = [(10000, True), (10002, True)]\<rparr>,
      sm_media = NewLocalService, sm_advertiseAddr = ''10.0.0.1''\<rparr>,
    srv_bridgeMgr = NewBridgeManager\<rparr>"
  by (simp add: ex_s2_def ex_s1_eval srv_eval)

lemma ex_s2_reachable: "srv_reachable ex_cfg listen ok ex_s2"
proof -
  have "srv_reachable ex_cfg listen ok ex_s1"
    unfolding ex_s1_def
    by (intro srv_reachable.step [OF srv_reachable.init] srv_step.create) (simp_all add: srv_eval)
  then show ?thesis
    unfolding ex_s2_def
    by (rule srv_reachable.step) (intro srv_step.create, simp_all add: ex_s1_eval gm_keys_def)
qed




text \<open>
  What \<open>CreateSession\<close> does, on every branch: a call that has a session gets it back and
  nothing changes; without a free port, or without an offer of PCMU (\<open>"0"\<close>), the answer is
  an error and sessions, calls and the sets of free and used ports are as before; otherwise
  a new session on a port that was free is stored under the new identifier and the call.
\<close>

theorem CreateSession_outcomes:
  assumes inv: "sm_inv m" and range: "is_range ord" and uuid: "uuid \<notin> gm_keys (sm_sessions m)"
    and run: "SessionMgr_CreateSession ord marshal uuid now m callID ra rp codecs = (m', res)"
  shows "if existingSession m callID \<noteq> None
    then m' = m \<and> (\<exists>sdp. res = Inr (the (existingSession m callID), sdp))
    else if pp_free (sm_portPool m) = {} then m' = m \<and> (\<exists>e. res = Inl (AllocateFailed e))
    else if ''0'' \<notin> set codecs
    then res = Inl NoSupportedCodec \<and> sm_sessions m' = sm_sessions m \<and>
      sm_callToSession m' = sm_callToSession m \<and>
      pp_free (sm_portPool m') = pp_free (sm_portPool m) \<and> pp_used (sm_portPool m') = pp_used (sm_portPool m)
    else \<exists>sess sdp. res = Inr (sess, sdp) \<and> sess_LocalPort sess \<in> pp_free (sm_portPool m) \<and>
      sess_ID sess = uuid \<and> sess_CallID sess = callID \<and> sess_Codec sess = ''0'' \<and>
      map_of (sm_sessions m') = (map_of (sm_sessions m))(uuid \<mapsto> sess) \<and>
      map_of (sm_callToSession m') = (map_of (sm_callToSession m))(callID \<mapsto> uuid) \<and>
      pp_used (sm_portPool m') = insert (sess_LocalPort sess) (pp_used (sm_portPool m))"
proof -
  have pp: "pp_inv (sm_portPool m)" using inv by (rule sm_invD(3))
  from CreateSession_creates [OF run] show ?thesis
  proof cases
    case (exhausted e)
    then have "pp_free (sm_portPool m) = {}"
      using is_range_Nil [OF range] by (simp add: Allocate_Inl gm_keys_def)
    with exhausted show ?thesis by simp
  next
    case (unsupported pool p)
    then have a: "pp_alloc ord (sm_portPool m) = Some (p, pool)" by (simp add: pp_alloc_Some)
    then have "pp_free (sm_portPool m) \<noteq> {}" using pp_alloc_None [OF range, of "sm_portPool m"] by simp
    then show ?thesis using unsupported port_pool_undoes [OF range pp a] by simp
  next
    case (fresh pool p sess)
    then have a: "pp_alloc ord (sm_portPool m) = Some (p, pool)" by (simp add: pp_alloc_Some)
    then have "pp_free (sm_portPool m) \<noteq> {}" using pp_alloc_None [OF range, of "sm_portPool m"] by simp
    then show ?thesis
      using fresh port_pool_state [OF range pp a] Allocate_picks [OF range fresh(4)] by auto
  qed simp
qed

theorem CreateSession_outcomes_witness:
  "\<exists>sess sdp m'. SessionMgr_CreateSession id (\<lambda>_. Some ''sdp'') ''z'' 5 (srv_sessionMgr ex_s2) ''c3'' ''10.0.0.4'' 4004 [''0''] =
     (m', Inr (sess, sdp)) \<and> sess_LocalPort sess \<in> {10004, 10006} \<and> sess_Codec sess = ''0''"
proof -
  let ?r = "SessionMgr_CreateSession id (\<lambda>_. Some ''sdp'') ''z'' 5 (srv_sessionMgr ex_s2) ''c3'' ''10.0.0.4'' 4004 [''0'']"
  have inv: "sm_inv (srv_sessionMgr ex_s2)" using srv_reachable_inv [OF ex_s2_reachable] by blast
  have u: "''z'' \<notin> gm_keys (sm_sessions (srv_sessionMgr ex_s2))" by (simp add: ex_s2_eval gm_keys_def)
  have none: "existingSession (srv_sessionMgr ex_s2) ''c3'' = None" by (simp add: ex_s2_eval existingSession_def)
  have free: "pp_free (sm_portPool (srv_sessionMgr ex_s2)) = {10004, 10006}" by (simp add: ex_s2_eval gm_keys_def)
  have "?r = (fst ?r, snd ?r)" by simp
  from CreateSession_outcomes [OF inv is_range_id u this] none free
  obtain sess sdp where "snd ?r = Inr (sess, sdp)" "sess_LocalPort sess \<in> {10004, 10006}" "sess_Codec sess = ''0''"
    by auto
  then show ?thesis by (metis prod.collapse)
qed

text \<open>
  Destroying a session undoes its creation: after \<open>CreateSession\<close> for a new call and
  \<open>DestroySession\<close> of the session it returned, the sessions, the calls and the sets of free
  and allocated ports are what they were.
\<close>

theorem create_destroy_roundtrip:
  assumes inv: "sm_inv m" and range: "is_range ord" and uuid: "uuid \<notin> gm_keys (sm_sessions m)"
    and none: "existingSession m callID = None"
    and run: "SessionMgr_CreateSession ord marshal uuid now m callID ra rp codecs = (m', Inr (sess, sdp))"
    and destroy: "SessionMgr_DestroySession m' (sess_ID sess) = (m'', err)"
  shows "err = None \<and> map_of (sm_sessions m'') = map_of (sm_sessions m) \<and>
    map_of (sm_callToSession m'') = map_of (sm_callToSession m) \<and>
    pp_free (sm_portPool m'') = pp_free (sm_portPool m) \<and> pp_used (sm_portPool m'') = pp_used (sm_portPool m)"
proof -
  have pp: "pp_inv (sm_portPool m)" using inv by (rule sm_invD(3))
  have call: "map_of (sm_callToSession m) callID = None" using inv none by (rule existingSession_None)
  have new: "map_of (sm_sessions m) uuid = None" using uuid by (simp add: map_of_None_keys)
  from CreateSession_creates [OF run] show ?thesis
  proof cases
    case (existing)
    then show ?thesis using none by simp
  next
    case (fresh pool p)
    then have a: "pp_alloc ord (sm_portPool m) = Some (p, pool)" by (simp add: pp_alloc_Some)
    show ?thesis
      using fresh destroy port_pool_undoes [OF range pp a] call new
      by (auto simp: SessionMgr_DestroySession_def fun_upd_idem)
  qed
qed

theorem create_destroy_roundtrip_witness:
  "\<exists>m' sess sdp m'' err.
     SessionMgr_CreateSession id (\<lambda>_. Some ''sdp'') ''z'' 5 (srv_sessionMgr ex_s2) ''c3'' ''10.0.0.4'' 4004 [''0''] =
       (m', Inr (sess, sdp)) \<and>
     SessionMgr_DestroySession m' (sess_ID sess) = (m'', err) \<and> err = None \<and>
     pp_free (sm_portPool m'') = {10004, 10006}"
proof -
  have inv: "sm_inv (srv_sessionMgr ex_s2)" using srv_reachable_inv [OF ex_s2_reachable] by blast
  have u: "''z'' \<notin> gm_keys (sm_sessions (srv_sessionMgr ex_s2))" by (simp add: ex_s2_eval gm_keys_def)
  have none: "existingSession (srv_sessionMgr ex_s2) ''c3'' = None" by (simp add: ex_s2_eval existingSession_def)
  have free: "pp_free (sm_portPool (srv_sessionMgr ex_s2)) = {10004, 10006}" by (simp add: ex_s2_eval gm_keys_def)
  obtain m' sess sdp where c:
    "SessionMgr_CreateSession id (\<lambda>_. Some ''sdp'') ''z'' 5 (srv_sessionMgr ex_s2) ''c3'' ''10.0.0.4'' 4004 [''0''] =
       (m', Inr (sess, sdp))"
    by (simp add: ex_s2_eval srv_eval)
  obtain m'' err where d: "SessionMgr_DestroySession m' (sess_ID sess) = (m'', err)"
    by (cases "SessionMgr_DestroySession m' (sess_ID sess)")
  show ?thesis
    using create_destroy_roundtrip [OF inv is_range_id u none c d] c d free
    by (intro exI [of _ m'] exI [of _ sess] exI [of _ sdp] exI [of _ m''] exI [of _ err]) simp
qed

text \<open>
  Property C31. In every reachable state a session is in at most one bridge, \<open>sessionMap\<close> says which,
  and that bridge is running: active, with both sockets open and both remote addresses valid.
\<close>

theorem bridged_in_one_bridge:
  assumes "srv_reachable cfg listen ok s"
  shows "(map_of (bm_sessionMap (srv_bridgeMgr s)) x = Some i) \<longleftrightarrow>
      (\<exists>b. map_of (bm_bridges (srv_bridgeMgr s)) i = Some b \<and> in_bridge b x \<and> br_active b \<and>
         ep_conn (br_SessionA b) = Some True \<and> ep_conn (br_SessionB b) = Some True \<and>
         ParseIP (ep_RemoteAddr (br_SessionA b)) \<and> ParseIP (ep_RemoteAddr (br_SessionB b)))"
proof -
  have inv: "bm_inv (srv_bridgeMgr s)" using srv_reachable_inv [OF assms] by simp
  show ?thesis
  proof
    assume "map_of (bm_sessionMap (srv_bridgeMgr s)) x = Some i"
    then obtain b where "map_of (bm_bridges (srv_bridgeMgr s)) i = Some b" "in_bridge b x"
      using bm_invD(4) [OF inv] by blast
    then show "\<exists>b. map_of (bm_bridges (srv_bridgeMgr s)) i = Some b \<and> in_bridge b x \<and> br_active b \<and>
         ep_conn (br_SessionA b) = Some True \<and> ep_conn (br_SessionB b) = Some True \<and>
         ParseIP (ep_RemoteAddr (br_SessionA b)) \<and> ParseIP (ep_RemoteAddr (br_SessionB b))"
      using bm_invD(3) [OF inv] by (auto simp: bridge_ok_def)
  next
    assume "\<exists>b. map_of (bm_bridges (srv_bridgeMgr s)) i = Some b \<and> in_bridge b x \<and> br_active b \<and>
         ep_conn (br_SessionA b) = Some True \<and> ep_conn (br_SessionB b) = Some True \<and>
         ParseIP (ep_RemoteAddr (br_SessionA b)) \<and> ParseIP (ep_RemoteAddr (br_SessionB b))"
    then show "map_of (bm_sessionMap (srv_bridgeMgr s)) x = Some i"
      using bridge_ok_session [OF inv] by blast
  qed
qed

lemmas ip_eval = ParseIP_def ParseIPv4_def digit_val_def

lemma ex_s3_bridges:
  "bm_sessionMap (srv_bridgeMgr ex_s3) = [(''a'', ''bridge-x''), (''b'', ''bridge-x'')]"
  "bm_bridges (srv_bridgeMgr ex_s3) =
     [(''bridge-x'', liveBridge ''bridge-x''
        (mkEndpoint ''a'' (''10.0.0.1'', 10000, ''10.0.0.2'', 4000))
        (mkEndpoint ''b'' (''10.0.0.1'', 10002, ''10.0.0.3'', 4002)))]"
  "sm_portPool (srv_sessionMgr ex_s3) = sm_portPool (srv_sessionMgr ex_s2)"
  "map_of (sm_sessions (srv_sessionMgr ex_s3)) ''a'' \<noteq> None"
  by (simp_all add: ex_s3_def ex_s2_eval Server_BridgeMedia_def SessionMgr_GetSessionEndpoint_def
      BridgeMgr_CreateBridge_def NewBridgeManager_def mkEndpoint_def bindSockets_def ip_eval ex_listen_def
      bm_open_def liveBridge_def gm_set_def SessionMgr_SetSessionBridged_def Let_def)

lemma ex_s3_reachable: "srv_reachable ex_cfg ex_listen ok ex_s3"
  unfolding ex_s3_def
  by (rule srv_reachable.step [OF ex_s2_reachable]) (rule srv_step.bridge, simp add: ex_s2_eval NewBridgeManager_def)

theorem bridged_in_one_bridge_witness:
  "\<exists>b. map_of (bm_bridges (srv_bridgeMgr ex_s3)) ''bridge-x'' = Some b \<and> in_bridge b ''a'' \<and> br_active b"
  using bridged_in_one_bridge [OF ex_s3_reachable [of any_time], where x = "''a''" and i = "''bridge-x''"] by (auto simp: ex_s3_bridges(1))

lemma srv_step_sockets:
  assumes "srv_step listen ok s s'" and "udp_exclusive listen" and inv: "bm_inv (srv_bridgeMgr s)"
    and dist: "distinct (bm_sockets (srv_bridgeMgr s))"
  shows "distinct (bm_sockets (srv_bridgeMgr s'))"
  using assms(1)
proof cases
  case (bridge uuid a b)
  show ?thesis
  proof (cases rule: BridgeMedia_cases [where listen = listen and uuid = uuid and s = s and a = a and b = b])
    case unchanged
    then show ?thesis using dist bridge by simp
  next
    case (bridged epA epB bm i)
    then show ?thesis
      using CreateBridge_sockets [OF inv assms(2) dist bridged(3)] CreateBridge_Inr(1) [OF bridged(3)] bridge by simp
  qed
next
  case (unbridge bid sid)
  then show ?thesis
    using dist destroyBridgeLocked_sockets
    by (auto simp: UnbridgeMedia_bridges BridgeMgr_DestroyBridge_def BridgeMgr_DestroyBySession_def split: option.split)
qed (use dist in simp_all)

lemma srv_reachable_sockets:
  assumes "udp_exclusive listen"
  shows "srv_reachable cfg listen ok s \<Longrightarrow> distinct (bm_sockets (srv_bridgeMgr s))"
proof (induction rule: srv_reachable.induct)
  case init
  show ?case by (simp add: NewServer_def NewBridgeManager_def bm_sockets_def)
next
  case (step s s')
  then show ?case using srv_step_sockets [OF _ assms] srv_reachable_inv by blast
qed

text \<open>
  If callers unbridge a session before they destroy it, then in every reachable state each
  endpoint of a bridge is a live session whose allocated port is the endpoint's port, and
  all open relay sockets are on different ports (the operating system refusing a second
  socket on a bound port).
\<close>

theorem bridges_backed_by_sessions:
  assumes "srv_reachable cfg listen unbridged s" and "udp_exclusive listen"
    and "map_of (bm_bridges (srv_bridgeMgr s)) i = Some b" and "e \<in> {br_SessionA b, br_SessionB b}"
  shows "\<exists>sess. map_of (sm_sessions (srv_sessionMgr s)) (ep_SessionID e) = Some sess \<and>
      sess_LocalPort sess = ep_LocalPort e \<and> ep_LocalPort e \<in> pp_used (sm_portPool (srv_sessionMgr s)) \<and>
      distinct (bm_sockets (srv_bridgeMgr s))"
proof -
  have inv: "sm_inv (srv_sessionMgr s)" using srv_reachable_inv [OF assms(1)] by simp
  have "sess_port (srv_sessionMgr s) (ep_SessionID e) = Some (ep_LocalPort e)"
    using srv_reachable_backed [OF assms(1)] assms(3,4) by (auto simp: backed_def)
  then obtain sess where "map_of (sm_sessions (srv_sessionMgr s)) (ep_SessionID e) = Some sess"
    "sess_LocalPort sess = ep_LocalPort e" by (auto simp: sess_port_def)
  then show ?thesis
    using sm_port_used [OF inv] srv_reachable_sockets [OF assms(2,1)] by metis
qed

lemma ex_listen_exclusive: "udp_exclusive ex_listen"
  by (simp add: udp_exclusive_def ex_listen_def)

theorem bridges_backed_by_sessions_witness:
  "\<exists>sess. map_of (sm_sessions (srv_sessionMgr ex_s3)) ''a'' = Some sess \<and> sess_LocalPort sess = 10000"
  using bridges_backed_by_sessions [OF ex_s3_reachable ex_listen_exclusive, of "''bridge-x''" _
      "mkEndpoint ''a'' (''10.0.0.1'', 10000, ''10.0.0.2'', 4000)\<lparr>ep_conn := Some True\<rparr>"]
  by (auto simp: ex_s3_bridges mkEndpoint_def)

text \<open>
  \<open>DestroySession\<close> itself does not take a session out of its bridge: there is a
  reachable state in which a destroyed session's bridge still relays on a socket whose port
  is already back in the pool, free to be given to the next call.
\<close>

theorem destroy_leaves_bridge_behind:
  "\<exists>s i b. srv_reachable ex_cfg ex_listen any_time s \<and>
     map_of (bm_bridges (srv_bridgeMgr s)) i = Some b \<and> br_active b \<and>
     map_of (sm_sessions (srv_sessionMgr s)) (ep_SessionID (br_SessionA b)) = None \<and>
     ep_LocalPort (br_SessionA b) \<in> bm_open (srv_bridgeMgr s) \<and>
     ep_LocalPort (br_SessionA b) \<in> pp_free (sm_portPool (srv_sessionMgr s))"
proof -
  let ?s = "fst (Server_DestroySession ex_s3 ''a'')"
  have "srv_reachable ex_cfg ex_listen any_time ?s"
    by (rule srv_reachable.step [OF ex_s3_reachable]) (rule srv_step.destroy, simp add: any_time_def)
  moreover have "10000 \<in> pp_free (sm_portPool (srv_sessionMgr ?s))"
    by (simp add: ex_s3_def ex_s2_eval Server_BridgeMedia_def SessionMgr_GetSessionEndpoint_def
      BridgeMgr_CreateBridge_def NewBridgeManager_def mkEndpoint_def bindSockets_def ip_eval ex_listen_def
      bm_open_def gm_set_def gm_has_def gm_keys_def SessionMgr_SetSessionBridged_def Let_def
      SessionMgr_DestroySession_def PortPool_Release_def)
  moreover have "map_of (sm_sessions (srv_sessionMgr ?s)) ''a'' = None"
    using ex_s3_bridges(4) by (auto simp: SessionMgr_DestroySession_def)
  ultimately show ?thesis
    by (intro exI [of _ ?s] exI [of _ "''bridge-x''"] exI)
      (auto simp: ex_s3_bridges bm_open_def ep_open_def mkEndpoint_def)
qed


text \<open>
  Shutdown releases everything: closing the server in any reachable state, in whatever
  order the two managers iterate, leaves no session and no bridge, no relay socket open and
  every port of the configured range free.
\<close>

theorem Server_Close_releases_all:
  assumes "srv_reachable cfg listen ok s" and "is_range ordB" and "is_range ordS"
  shows "sm_sessions (srv_sessionMgr (Server_Close ordB ordS s)) = [] \<and>
    bm_bridges (srv_bridgeMgr (Server_Close ordB ordS s)) = [] \<and>
    bm_open (srv_bridgeMgr (Server_Close ordB ordS s)) = {} \<and>
    pp_used (sm_portPool (srv_sessionMgr (Server_Close ordB ordS s))) = {}"
proof -
  have inv: "sm_inv (srv_sessionMgr s)" "bm_inv (srv_bridgeMgr s)" using srv_reachable_inv [OF assms(1)] by auto
  show ?thesis
    using CloseAll_empties [OF inv(2) assms(2)] CloseAll_pool(1) [OF inv(1) assms(3)]
    by (simp add: Server_Close_def SessionMgr_CloseAll_def bm_open_def)
qed

theorem Server_Close_releases_all_witness:
  "pp_used (sm_portPool (srv_sessionMgr ex_s3)) \<noteq> {} \<and> bm_bridges (srv_bridgeMgr ex_s3) \<noteq> [] \<and>
   pp_used (sm_portPool (srv_sessionMgr (Server_Close rev id ex_s3))) = {} \<and>
   bm_bridges (srv_bridgeMgr (Server_Close rev id ex_s3)) = []"
  using Server_Close_releases_all [OF ex_s3_reachable [of any_time], of rev id] by (simp add: ex_s3_bridges ex_s2_eval gm_keys_def)

text \<open>
  Property C36. Media is relayed without loss or reordering inside a bridge: what goes to the remote
  address of B is, in order, every datagram read from A whose write succeeded (cut at the
  read buffer), the A-to-B counters grow by exactly the packets and bytes written (modulo
  2 to the 64), and nothing else of the bridge changes. The other direction mirrors it.
\<close>

theorem relay_faithful:
  "relayAtoB os b =
     (b\<lparr>br_packetsA2B := br_packetsA2B b + of_nat (length (relayed os)),
        br_bytesA2B := br_bytesA2B b + of_nat (sum_list (map length (relayed os)))\<rparr>,
      map (Pair (ep_RemoteAddr (br_SessionB b), ep_RemotePort (br_SessionB b))) (relayed os)) \<and>
   relayBtoA os b =
     (b\<lparr>br_packetsB2A := br_packetsB2A b + of_nat (length (relayed os)),
        br_bytesB2A := br_bytesB2A b + of_nat (sum_list (map length (relayed os)))\<rparr>,
      map (Pair (ep_RemoteAddr (br_SessionA b), ep_RemotePort (br_SessionA b))) (relayed os))"
  by (simp add: relayAtoB_spec relayBtoA_spec)

lemma forwardEvents_all [simp]: "forwardEvents (\<lambda>_. True) es = (es, True)"
  by (induction es) simp_all

text \<open>
  The streaming handler returns after a playback that ends by itself, and never returns
  after one that was cancelled (by \<open>StopAudio\<close>, a newer playback or the session's destruction)
  while the client still accepts events: a cancelled stream does not close the channel that
  the handler ranges over.
\<close>

theorem PlayAudio_blocks_iff_cancelled:
  "snd (Server_PlayAudio_stream (\<lambda>_. True) ch None outcome) = Blocked \<longleftrightarrow>
     outcome = StreamCanceled \<and> \<not> ec_closed ch"
  by (cases outcome) (auto simp: Server_PlayAudio_stream_def playback_end_def Let_def)

end
