(* ===== verification/Go_Float.thy ===== *)
theory Go_Float
  imports Complex_Main "HOL-Library.Log_Nat" "HOL-Library.Signed_Division"
begin

text \<open>
  Go's \<open>float64\<close> as far as the resampler uses it: finite numbers of 53 significant bits, as rationals, with
  every operation rounded to the nearest one, ties to even. The exponents that occur are far from the limits
  of the format, and the operations are not fused, as on amd64.
\<close>

section \<open>Rounding\<close>

definition round_even :: "rat \<Rightarrow> int" where
  "round_even y =
     (let f = \<lfloor>y\<rfloor>; d = y - of_int f in
      if d < 1 / 2 then f else if 1 / 2 < d then f + 1 else if even f then f else f + 1)"

text \<open>The exponent of the highest binary digit.\<close>

definition binexp :: "rat \<Rightarrow> int" where
  "binexp x =
     (case quotient_of \<bar>x\<bar> of
        (p, q) \<Rightarrow>
          let g = int (floorlog 2 (nat p)) - int (floorlog 2 (nat q)) in
          if 2 powi g \<le> \<bar>x\<bar> then g else g - 1)"

definition ulp53 :: "rat \<Rightarrow> rat" where
  "ulp53 x = 2 powi (binexp x - 52)"

definition rnd53 :: "rat \<Rightarrow> rat" where
  "rnd53 x = (if x = 0 then 0 else of_int (round_even (x / ulp53 x)) * ulp53 x)"

definition f64_of_int :: "int \<Rightarrow> rat" where
  "f64_of_int n = rnd53 (of_int n)"

definition f64_add :: "rat \<Rightarrow> rat \<Rightarrow> rat" where
  "f64_add x y = rnd53 (x + y)"

definition f64_sub :: "rat \<Rightarrow> rat \<Rightarrow> rat" where
  "f64_sub x y = rnd53 (x - y)"

definition f64_mul :: "rat \<Rightarrow> rat \<Rightarrow> rat" where
  "f64_mul x y = rnd53 (x * y)"

definition f64_div :: "rat \<Rightarrow> rat \<Rightarrow> rat" where
  "f64_div x y = rnd53 (x / y)"

text \<open>The conversion to an integer drops the fraction.\<close>

definition f64_to_int :: "rat \<Rightarrow> int" where
  "f64_to_int x = (if x < 0 then \<lceil>x\<rceil> else \<lfloor>x\<rfloor>)"

text \<open>\<open>Hours\<close>, \<open>Minutes\<close> and \<open>Seconds\<close> of a \<open>time.Duration\<close>, \<open>unit\<close> being the nanoseconds of one.\<close>

definition Duration_in :: "int \<Rightarrow> int \<Rightarrow> rat" where
  "Duration_in unit d = f64_add (f64_of_int (d sdiv unit)) (f64_div (f64_of_int (d smod unit)) (f64_of_int unit))"

definition Duration_Hours :: "int \<Rightarrow> rat" where
  "Duration_Hours = Duration_in 3600000000000"

definition Duration_Minutes :: "int \<Rightarrow> rat" where
  "Duration_Minutes = Duration_in 60000000000"

definition Duration_Seconds :: "int \<Rightarrow> rat" where
  "Duration_Seconds = Duration_in 1000000000"

section \<open>What rounding keeps\<close>

lemma round_even_cases: "round_even y = \<lfloor>y\<rfloor> \<or> round_even y = \<lfloor>y\<rfloor> + 1 \<and> of_int \<lfloor>y\<rfloor> + 1 / 2 \<le> y"
  by (auto simp: round_even_def Let_def)

lemma round_even_ge: "of_int n \<le> y \<Longrightarrow> n \<le> round_even y"
  using round_even_cases [of y] le_floor_iff [of n y] by auto

lemma round_even_int [simp]: "round_even (of_int n) = n"
  by (simp add: round_even_def)

lemma round_even_error: "\<bar>of_int (round_even y) - y\<bar> \<le> 1 / 2"
proof -
  have "of_int \<lfloor>y\<rfloor> \<le> y" "y < of_int \<lfloor>y\<rfloor> + 1" using floor_correct [of y] by simp_all
  thus ?thesis by (auto simp: round_even_def Let_def abs_le_iff)
qed

lemma binexp_bounds:
  assumes "x \<noteq> 0"
  shows "2 powi binexp x \<le> \<bar>x\<bar>" and "\<bar>x\<bar> < 2 powi (binexp x + 1)"
proof -
  obtain p q where pq: "quotient_of \<bar>x\<bar> = (p, q)" by fastforce
  have q: "0 < q" using quotient_of_denom_pos [OF pq] .
  have x: "\<bar>x\<bar> = of_int p / of_int q" using quotient_of_div [OF pq] .
  hence p: "0 < p" using assms q by (metis abs_le_zero_iff divide_nonpos_pos linorder_not_less of_int_0_less_iff of_int_le_0_iff)
  let ?a = "floorlog 2 (nat p)" and ?b = "floorlog 2 (nat q)"
  let ?g = "int ?a - int ?b"
  have "?a \<ge> 1" "?b \<ge> 1" using p q by (simp_all add: floorlog_def)
  have fl: "(2::rat) ^ (?a - 1) \<le> of_int p" "of_int p < (2::rat) ^ ?a"
    "(2::rat) ^ (?b - 1) \<le> of_int q" "of_int q < (2::rat) ^ ?b"
  proof -
    have "2 ^ (?a - 1) \<le> nat p" "nat p < 2 ^ ?a" "2 ^ (?b - 1) \<le> nat q" "nat q < 2 ^ ?b"
      using floorlog_bounds [of "nat p" 2] floorlog_bounds [of "nat q" 2] p q by auto
    thus "(2::rat) ^ (?a - 1) \<le> of_int p" "of_int p < (2::rat) ^ ?a" "(2::rat) ^ (?b - 1) \<le> of_int q" "of_int q < (2::rat) ^ ?b"
      using p q by (metis (mono_tags) nat_le_iff of_int_le_iff of_int_numeral of_int_power of_nat_le_iff of_nat_nat less_imp_le of_int_less_iff of_nat_less_iff of_nat_numeral of_nat_power)+
  qed
  have "2 powi (?g - 1) \<le> \<bar>x\<bar>" "\<bar>x\<bar> < 2 powi (?g + 1)"
  proof -
    have "2 powi (?g - 1) = 2 ^ (?a - 1) / (2::rat) ^ ?b"
      using \<open>?a \<ge> 1\<close> by (simp add: power_int_diff power_diff)
    also have "\<dots> \<le> of_int p / of_int q" using fl p q by (intro frac_le) (simp_all add: less_imp_le)
    finally show "2 powi (?g - 1) \<le> \<bar>x\<bar>" by (simp add: x)
    have "of_int p / of_int q < 2 ^ ?a / (2::rat) ^ (?b - 1)" using fl p q by (intro frac_less) simp_all
    also have "\<dots> = 2 powi (?g + 1)"
      using \<open>?b \<ge> 1\<close> by (simp add: power_int_diff power_int_add power_diff)
    finally show "\<bar>x\<bar> < 2 powi (?g + 1)" by (simp add: x)
  qed
  thus "2 powi binexp x \<le> \<bar>x\<bar>" "\<bar>x\<bar> < 2 powi (binexp x + 1)"
    by (auto simp: binexp_def pq Let_def)
qed

lemma ulp53_pos [simp]: "0 < ulp53 x" "ulp53 x \<noteq> 0"
  by (simp_all add: ulp53_def)

lemma rnd53_error: "\<bar>rnd53 x - x\<bar> \<le> \<bar>x\<bar> / 2 ^ 53"
proof (cases "x = 0")
  case False
  have "rnd53 x - x = (of_int (round_even (x / ulp53 x)) - x / ulp53 x) * ulp53 x"
    using False by (simp add: rnd53_def left_diff_distrib)
  hence "\<bar>rnd53 x - x\<bar> \<le> 1 / 2 * ulp53 x"
    using mult_right_mono [OF round_even_error [of "x / ulp53 x"], of "ulp53 x"] by (simp add: abs_mult less_imp_le)
  also have "ulp53 x = 2 powi binexp x / 2 ^ 52"
    by (simp add: ulp53_def power_int_diff)
  finally show ?thesis using binexp_bounds(1) [OF False] by simp
qed (simp add: rnd53_def)

lemma binexp_less:
  assumes "x \<noteq> 0" and "\<bar>x\<bar> < 2 ^ 53"
  shows "binexp x \<le> 52"
proof (rule ccontr)
  assume "\<not> binexp x \<le> 52"
  hence "(2::rat) powi 53 \<le> 2 powi binexp x" by (intro power_int_increasing) simp_all
  thus False using binexp_bounds(1) [OF assms(1)] assms(2) by simp
qed

text \<open>An integer is a whole number of units in the last place of any number below \<open>2^53\<close>.\<close>

lemma int_ulps:
  assumes "x \<noteq> 0" and "\<bar>x\<bar> < 2 ^ 53"
  obtains m where "of_int n / ulp53 x = of_int (n * 2 ^ m)"
proof -
  have "ulp53 x = inverse (2 ^ nat (52 - binexp x))"
    using binexp_less [OF assms] power_int_minus [of "2::rat" "52 - binexp x"] by (simp add: ulp53_def power_int_nonneg_exp)
  hence "of_int n / ulp53 x = of_int (n * 2 ^ nat (52 - binexp x))" by (simp add: divide_inverse)
  thus thesis by (rule that)
qed

lemma rnd53_int [simp]: "\<bar>n\<bar> < 2 ^ 53 \<Longrightarrow> rnd53 (of_int n) = of_int n"
proof (cases "n = 0")
  case False
  assume n: "\<bar>n\<bar> < 2 ^ 53"
  let ?x = "of_int n :: rat"
  have "\<bar>?x\<bar> < 2 ^ 53" using n by (metis of_int_abs of_int_less_iff of_int_numeral of_int_power)
  then obtain m where m: "?x / ulp53 ?x = of_int (n * 2 ^ m)"
    using int_ulps [of ?x n] False by auto
  hence "?x = of_int (n * 2 ^ m) * ulp53 ?x" by (metis nonzero_eq_divide_eq ulp53_pos(2))
  thus ?thesis using False m by (simp add: rnd53_def del: of_int_mult)
qed (simp add: rnd53_def)

lemma rnd53_floor:
  assumes "0 \<le> n" and "n < 2 ^ 53" and "0 < k"
  shows "\<lfloor>rnd53 (of_int n / of_int k)\<rfloor> = n div k"
proof (cases "n = 0")
  case False
  let ?x = "of_int n / of_int k :: rat" and ?q = "n div k"
  have x: "0 < ?x" using assms False by simp
  have "?x \<le> of_int n" using assms by (simp add: divide_le_eq mult_le_cancel_left1)
  also have "\<dots> < 2 ^ 53" using assms(2) by (metis of_int_less_iff of_int_numeral of_int_power)
  finally obtain m where m: "of_int ?q / ulp53 ?x = of_int (?q * 2 ^ m)"
    using int_ulps [of ?x ?q] x by (metis abs_of_pos less_numeral_extra(3))
  have "of_int ?q \<le> ?x" by (metis floor_divide_of_int_eq of_int_floor_le)
  hence "of_int ?q / ulp53 ?x \<le> ?x / ulp53 ?x" by (rule divide_right_mono) (simp only: less_imp_le ulp53_pos)
  hence "?q * 2 ^ m \<le> round_even (?x / ulp53 ?x)" by (intro round_even_ge) (simp only: m)
  hence "of_int (?q * 2 ^ m) * ulp53 ?x \<le> of_int (round_even (?x / ulp53 ?x)) * ulp53 ?x"
    by (intro mult_right_mono) (simp_all only: of_int_le_iff less_imp_le ulp53_pos)
  hence "of_int ?q \<le> rnd53 ?x"
    using x by (simp add: m [symmetric] rnd53_def del: of_int_mult)
  moreover have "rnd53 ?x < of_int ?q + 1"
  proof -
    have "?x / 2 ^ 53 < 1 / of_int k"
      using assms by (simp add: field_simps)
    moreover have "?x + 1 / of_int k \<le> of_int ?q + 1"
    proof -
      have "n + 1 \<le> (?q + 1) * k"
        using div_mult_mod_eq [of n k] pos_mod_bound [OF assms(3), of n] unfolding distrib_right by linarith
      hence "of_int (n + 1) \<le> (of_int ((?q + 1) * k) :: rat)" by (simp only: of_int_le_iff)
      thus ?thesis using assms(3) by (simp add: field_simps)
    qed
    moreover have "rnd53 ?x \<le> ?x + ?x / 2 ^ 53"
      using rnd53_error [of ?x] unfolding abs_of_pos [OF x] abs_le_iff by linarith
    ultimately show ?thesis by linarith
  qed
  ultimately show ?thesis by (simp add: floor_unique)
qed (simp add: rnd53_def)

end
