(* ===== verification/Audio.thy ===== *)
theory Audio
  imports Media_Service Go_Float
begin

unbundle bit_operations_syntax

text \<open>
  \<open>internal/rtpmanager/media/audio.go\<close> and the resampler of \<open>codec.go\<close>: reading a WAV file and converting it to
  8000 Hz mono. An open file is the list of its bytes from the current position on: the code only seeks
  forward. Indexing outside a slice is the value \<open>None\<close> of the loops and the error \<open>IndexPanic\<close>.
\<close>

section \<open>Files\<close>

definition str_bytes :: "string \<Rightarrow> byte list" where
  "str_bytes s = map (\<lambda>c. of_nat (of_char c)) s"

text \<open>The most that one \<open>Read\<close> of a file transfers.\<close>

definition maxRW :: nat where
  "maxRW = 2 ^ 30"

text \<open>\<open>File.Read\<close> into a new slice of \<open>n\<close> bytes; \<open>None\<close> is \<open>io.EOF\<close>.\<close>

definition file_Read :: "nat \<Rightarrow> byte list \<Rightarrow> (byte list \<times> byte list) option" where
  "file_Read n rest =
     (if n = 0 then Some ([], rest)
      else if rest = [] then None
      else let m = min (min n maxRW) (length rest) in Some (take m rest @ replicate (n - m) 0, drop m rest))"

text \<open>\<open>binary.Read\<close> of \<open>n\<close> bytes; \<open>None\<close> is \<open>io.EOF\<close> or \<open>io.ErrUnexpectedEOF\<close>.\<close>

definition binary_Read :: "nat \<Rightarrow> byte list \<Rightarrow> (byte list \<times> byte list) option" where
  "binary_Read n rest = (if length rest < n then None else Some (take n rest, drop n rest))"

fun le_nat :: "byte list \<Rightarrow> nat" where
  "le_nat [] = 0"
| "le_nat (b # bs) = unat b + 256 * le_nat bs"

section \<open>WAV files\<close>

record audio_file =
  au_AudioFormat :: "16 word"
  au_SampleRate :: "32 word"
  au_NumChannels :: "16 word"
  au_BitsPerSample :: "16 word"
  au_PCMData :: "byte list"

datatype audio_error =
    OpenFailed | RiffHeaderUnread | NotRiff | RiffSizeUnread | WaveHeaderUnread | NotWave | ChunkSizeUnread
  | FormatUnread | NotPCM "16 word" | ChannelsUnread | RateUnread | BitsUnread | DataUnread | DataNotFound
  | UnsupportedChannels "16 word" | IndexPanic

definition readFormat :: "audio_file \<Rightarrow> byte list \<Rightarrow> audio_error + audio_file \<times> byte list" where
  "readFormat af r0 =
     (case binary_Read 2 r0 of
        None \<Rightarrow> Inl FormatUnread
      | Some (fmt, r1) \<Rightarrow>
          let audioFormat = of_nat (le_nat fmt) in
          if audioFormat \<noteq> 1 then Inl (NotPCM audioFormat)
          else
            (case binary_Read 2 r1 of
               None \<Rightarrow> Inl ChannelsUnread
             | Some (chans, r2) \<Rightarrow>
                 (case binary_Read 4 r2 of
                    None \<Rightarrow> Inl RateUnread
                  | Some (rate, r3) \<Rightarrow>
                      (case binary_Read 2 (drop 6 r3) of
                         None \<Rightarrow> Inl BitsUnread
                       | Some (bits, r4) \<Rightarrow>
                           Inr (af\<lparr>au_AudioFormat := audioFormat, au_NumChannels := of_nat (le_nat chans),
                                   au_SampleRate := of_nat (le_nat rate), au_BitsPerSample := of_nat (le_nat bits)\<rparr>, r4)))))"

lemma readFormat_rest: "readFormat af r0 = Inr (af', r4) \<Longrightarrow> length r4 \<le> length r0"
  by (auto simp: readFormat_def binary_Read_def Let_def split: option.splits if_splits)

lemma file_Read_rest: "file_Read n r = Some (bs, r') \<Longrightarrow> 0 < n \<Longrightarrow> length r' < length r"
  by (auto simp: file_Read_def Let_def maxRW_def split: if_splits)

lemma binary_Read_rest: "binary_Read n r = Some (bs, r') \<Longrightarrow> length r' \<le> length r"
  by (auto simp: binary_Read_def split: if_splits)

text \<open>The loop over the chunks.\<close>

function readChunks :: "audio_file \<Rightarrow> byte list \<Rightarrow> audio_error + audio_file" where
  "readChunks af r0 =
     (case file_Read 4 r0 of
        None \<Rightarrow> Inl DataNotFound
      | Some (chunkID, r1) \<Rightarrow>
          (case binary_Read 4 r1 of
             None \<Rightarrow> Inl ChunkSizeUnread
           | Some (sz, r2) \<Rightarrow>
               let chunkSize = le_nat sz in
               if chunkID = str_bytes ''fmt '' then
                 (case readFormat af r2 of Inl err \<Rightarrow> Inl err | Inr (af', r3) \<Rightarrow> readChunks af' r3)
               else if chunkID = str_bytes ''data'' then
                 (case file_Read chunkSize r2 of None \<Rightarrow> Inl DataUnread | Some (audioData, _) \<Rightarrow> Inr (af\<lparr>au_PCMData := audioData\<rparr>))
               else readChunks af (drop chunkSize r2)))"
  by pat_completeness auto
termination
  by (relation "measure (\<lambda>(af, r). length r)")
    (auto dest!: readFormat_rest file_Read_rest binary_Read_rest simp: less_le_trans)

declare readChunks.simps [simp del]

definition zeroAudio :: audio_file where
  "zeroAudio = \<lparr>au_AudioFormat = 0, au_SampleRate = 0, au_NumChannels = 0, au_BitsPerSample = 0, au_PCMData = []\<rparr>"

definition parseWAV :: "byte list \<Rightarrow> audio_error + audio_file" where
  "parseWAV f =
     (case file_Read 4 f of
        None \<Rightarrow> Inl RiffHeaderUnread
      | Some (riffID, r1) \<Rightarrow>
          if riffID \<noteq> str_bytes ''RIFF'' then Inl NotRiff
          else
            (case binary_Read 4 r1 of
               None \<Rightarrow> Inl RiffSizeUnread
             | Some (riffSize, r2) \<Rightarrow>
                 (case file_Read 4 r2 of
                    None \<Rightarrow> Inl WaveHeaderUnread
                  | Some (waveID, r3) \<Rightarrow>
                      if waveID \<noteq> str_bytes ''WAVE'' then Inl NotWave else readChunks zeroAudio r3)))"

definition ReadWAVFile :: "(string \<Rightarrow> byte list option) \<Rightarrow> string \<Rightarrow> audio_error + audio_file" where
  "ReadWAVFile fs filePath = (case fs filePath of None \<Rightarrow> Inl OpenFailed | Some content \<Rightarrow> parseWAV content)"

section \<open>Conversion to 8000 Hz mono\<close>

definition byte_at :: "byte list \<Rightarrow> int \<Rightarrow> byte option" where
  "byte_at xs i = (if 0 \<le> i \<and> i < int (length xs) then Some (xs ! nat i) else None)"

definition byte_set :: "byte list \<Rightarrow> int \<Rightarrow> byte \<Rightarrow> byte list option" where
  "byte_set xs i b = (if 0 \<le> i \<and> i < int (length xs) then Some (xs[nat i := b]) else None)"

definition int16_le :: "byte \<Rightarrow> byte \<Rightarrow> 16 word" where
  "int16_le lo hi = (ucast lo OR push_bit 8 (ucast hi))"

definition sample_at :: "byte list \<Rightarrow> int \<Rightarrow> 16 word option" where
  "sample_at pcm i =
     Option.bind (byte_at pcm i) (\<lambda>lo. Option.bind (byte_at pcm (i + 1)) (\<lambda>hi. Some (int16_le lo hi)))"

text \<open>The average of two samples as an \<open>int32\<close>; division truncates.\<close>

definition mix :: "16 word \<Rightarrow> 16 word \<Rightarrow> 32 word" where
  "mix left right = word_of_int ((sint left + sint right) sdiv 2)"

function stereoLoop :: "byte list \<Rightarrow> int \<Rightarrow> byte list \<Rightarrow> byte list option" where
  "stereoLoop pcm i monoPCM =
     (if i < int (length pcm) then
        Option.bind (sample_at pcm i) (\<lambda>left.
        Option.bind (sample_at pcm (i + 2)) (\<lambda>right.
        let mono = mix left right in
        Option.bind (byte_set monoPCM (i div 2) (ucast (mono AND 0xFF))) (\<lambda>m1.
        Option.bind (byte_set m1 (i div 2 + 1) (ucast (signed_drop_bit 8 mono AND 0xFF))) (\<lambda>m2.
        stereoLoop pcm (i + 4) m2))))
      else Some monoPCM)"
  by pat_completeness auto
termination by (relation "measure (\<lambda>(pcm, i, m). nat (int (length pcm) - i))") auto

declare stereoLoop.simps [simp del]

definition toMono :: "audio_file \<Rightarrow> audio_error + byte list" where
  "toMono af =
     (if au_NumChannels af = 1 then Inr (au_PCMData af)
      else if au_NumChannels af = 2 then
        (case stereoLoop (au_PCMData af) 0 (replicate (length (au_PCMData af) div 2) 0) of
           None \<Rightarrow> Inl IndexPanic
         | Some monoPCM \<Rightarrow> Inr monoPCM)
      else Inl (UnsupportedChannels (au_NumChannels af)))"

definition targetSampleRate :: int where
  "targetSampleRate = 8000"

definition interpolate :: "16 word \<Rightarrow> 16 word \<Rightarrow> rat \<Rightarrow> 16 word" where
  "interpolate sample1 sample2 fr =
     word_of_int (f64_to_int (f64_add (f64_mul (f64_of_int (sint sample1)) (f64_sub 1 fr))
                                      (f64_mul (f64_of_int (sint sample2)) fr)))"

function resampleLoop :: "byte list \<Rightarrow> rat \<Rightarrow> int \<Rightarrow> int \<Rightarrow> byte list option" where
  "resampleLoop monoPCM ratio outputSamples i =
     (if i < outputSamples then
        let srcPos = f64_mul (f64_of_int i) ratio;
            srcIdx = f64_to_int srcPos;
            fr = f64_sub srcPos (f64_of_int srcIdx) in
        if int (length monoPCM div 2) \<le> srcIdx + 2 then Some []
        else
          Option.bind (sample_at monoPCM (srcIdx * 2)) (\<lambda>sample1.
          Option.bind (sample_at monoPCM ((srcIdx + 1) * 2)) (\<lambda>sample2.
          let interpolated = interpolate sample1 sample2 fr in
          Option.bind (resampleLoop monoPCM ratio outputSamples (i + 1)) (\<lambda>rest.
          Some (ucast (interpolated AND 0xFF) # ucast (signed_drop_bit 8 interpolated AND 0xFF) # rest))))
      else Some [])"
  by pat_completeness auto
termination by (relation "measure (\<lambda>(m, r, n, i). nat (n - i))") auto

declare resampleLoop.simps [simp del]

text \<open>
  A rate of zero makes the number of samples an infinity or not a number; its conversion to \<open>int\<close> is, on
  amd64, the least \<open>int\<close>, whose double wraps around to zero: no samples.
\<close>

definition ResampleAudio :: "audio_file \<Rightarrow> audio_error + byte list" where
  "ResampleAudio af =
     (case toMono af of
        Inl err \<Rightarrow> Inl err
      | Inr monoPCM \<Rightarrow>
          if uint (au_SampleRate af) = targetSampleRate then Inr monoPCM
          else if uint (au_SampleRate af) = 0 then Inr []
          else
            let ratio = f64_div (f64_of_int (uint (au_SampleRate af))) (f64_of_int targetSampleRate);
                outputSamples = f64_to_int (f64_div (f64_of_int (int (length monoPCM div 2))) ratio) in
            (case resampleLoop monoPCM ratio outputSamples 0 of None \<Rightarrow> Inl IndexPanic | Some outputPCM \<Rightarrow> Inr outputPCM))"

text \<open>\<open>EncodeUlaw\<close> is the encoder of \<open>github.com/zaf/g711\<close>.\<close>

definition PCMToPCMU :: "(byte list \<Rightarrow> byte list) \<Rightarrow> byte list \<Rightarrow> byte list" where
  "PCMToPCMU encodeUlaw pcm = encodeUlaw pcm"

definition resamplePCMU :: "(byte list \<Rightarrow> byte list) \<Rightarrow> audio_file \<Rightarrow> audio_error + byte list" where
  "resamplePCMU encodeUlaw audioFile =
     (case ResampleAudio audioFile of Inl err \<Rightarrow> Inl err | Inr pcmData \<Rightarrow> Inr (PCMToPCMU encodeUlaw pcmData))"

section \<open>Random start values\<close>

fun be_nat :: "byte list \<Rightarrow> nat \<Rightarrow> nat" where
  "be_nat [] acc = acc"
| "be_nat (b # bs) acc = be_nat bs (256 * acc + unat b)"

text \<open>The bytes of \<open>crypto/rand\<close>, or \<open>None\<close> when it fails.\<close>

definition GenerateSSRC :: "byte list option \<Rightarrow> 32 word" where
  "GenerateSSRC rnd = (case rnd of None \<Rightarrow> 0x12345678 | Some b \<Rightarrow> of_nat (be_nat b 0))"

definition GenerateSequenceStart :: "byte list option \<Rightarrow> 16 word" where
  "GenerateSequenceStart rnd = (case rnd of None \<Rightarrow> 0 | Some b \<Rightarrow> of_nat (be_nat b 0))"

definition GenerateTimestampStart :: "byte list option \<Rightarrow> 32 word" where
  "GenerateTimestampStart rnd = (case rnd of None \<Rightarrow> 0 | Some b \<Rightarrow> of_nat (be_nat b 0))"

end
