(* ===== verification/Audio_Props.thy ===== *)
theory Audio_Props
  imports Audio
begin

unbundle bit_operations_syntax

text \<open>
  Reading WAV files and converting them: the file layout that is read back, when the conversion fails, and
  its result against reference definitions on lists of samples.
\<close>

section \<open>Reading back a file\<close>

fun le_bytes :: "nat \<Rightarrow> nat \<Rightarrow> byte list" where
  "le_bytes 0 v = []"
| "le_bytes (Suc n) v = of_nat v # le_bytes n (v div 256)"

lemma length_le_bytes [simp]: "length (le_bytes n v) = n"
  by (induction n arbitrary: v) simp_all

lemma le_nat_le_bytes: "le_nat (le_bytes n v) = v mod 256 ^ n"
proof (induction n arbitrary: v)
  case (Suc n)
  show ?case using Suc mod_mult2_eq [of v 256 "256 ^ n"] by (simp add: unat_of_nat)
qed simp

lemma le_bytes_read [simp]:
  "v < 256 ^ n \<Longrightarrow> le_nat (le_bytes n v) = v"
  "of_nat (le_nat (le_bytes 2 (unat (w :: 16 word)))) = w" "of_nat (le_nat (le_bytes 4 (unat (u :: 32 word)))) = u"
proof -
  have "unat w < 2 ^ LENGTH(16)" "unat u < 2 ^ LENGTH(32)" by (rule unsigned_less)+
  thus "v < 256 ^ n \<Longrightarrow> le_nat (le_bytes n v) = v"
    "of_nat (le_nat (le_bytes 2 (unat w))) = w" "of_nat (le_nat (le_bytes 4 (unat u))) = u"
    by (simp_all add: le_nat_le_bytes)
qed

lemma file_Read_exact: "length x = n \<Longrightarrow> n \<le> maxRW \<Longrightarrow> file_Read n (x @ r) = Some (x, r)"
  by (auto simp: file_Read_def Let_def min_def)

lemma file_Read_4: "length x = 4 \<Longrightarrow> file_Read 4 (x @ r) = Some (x, r)"
  by (rule file_Read_exact) (simp_all add: maxRW_def)

lemma binary_Read_exact: "length x = n \<Longrightarrow> binary_Read n (x @ r) = Some (x, r)"
  by (auto simp: binary_Read_def)

lemma length_str_bytes [simp]: "length (str_bytes s) = length s"
  by (simp add: str_bytes_def)

type_synonym wav_chunk = "byte list \<times> byte list"

definition chunk_bytes :: "wav_chunk \<Rightarrow> byte list" where
  "chunk_bytes c = fst c @ le_bytes 4 (length (snd c)) @ snd c"

text \<open>A chunk that the reader skips.\<close>

definition other_chunk :: "wav_chunk \<Rightarrow> bool" where
  "other_chunk c \<longleftrightarrow> length (fst c) = 4 \<and> fst c \<noteq> str_bytes ''fmt '' \<and> fst c \<noteq> str_bytes ''data'' \<and> length (snd c) < 2 ^ 32"

definition fmt_bytes :: "16 word \<Rightarrow> 32 word \<Rightarrow> byte list \<Rightarrow> 16 word \<Rightarrow> byte list" where
  "fmt_bytes channels rate skipped bits =
     le_bytes 2 1 @ le_bytes 2 (unat channels) @ le_bytes 4 (unat rate) @ skipped @ le_bytes 2 (unat bits)"

lemma readFormat_fmt:
  assumes "length skipped = 6"
  shows "readFormat af (fmt_bytes channels rate skipped bits @ r) =
    Inr (af\<lparr>au_AudioFormat := 1, au_NumChannels := channels, au_SampleRate := rate, au_BitsPerSample := bits\<rparr>, r)"
  unfolding readFormat_def fmt_bytes_def append_assoc
  by (simp add: binary_Read_exact assms Let_def)

lemma readChunks_skip:
  assumes "other_chunk c"
  shows "readChunks af (chunk_bytes c @ r) = readChunks af r"
  using assms unfolding other_chunk_def chunk_bytes_def append_assoc
  by (subst readChunks.simps) (simp add: file_Read_4 binary_Read_exact Let_def)

lemma readChunks_skips: "list_all other_chunk cs \<Longrightarrow> readChunks af (concat (map chunk_bytes cs) @ r) = readChunks af r"
  by (induction cs) (simp_all add: readChunks_skip)

lemma str_bytes_ids: "str_bytes ''data'' \<noteq> str_bytes ''fmt ''" "str_bytes ''fmt '' \<noteq> str_bytes ''data''"
  by (simp_all add: str_bytes_def)

lemma readChunks_fmt:
  assumes "length skipped = 6"
  shows "readChunks af (chunk_bytes (str_bytes ''fmt '', fmt_bytes channels rate skipped bits) @ r) =
    readChunks (af\<lparr>au_AudioFormat := 1, au_NumChannels := channels, au_SampleRate := rate, au_BitsPerSample := bits\<rparr>) r"
  unfolding chunk_bytes_def append_assoc fst_conv snd_conv
  by (subst readChunks.simps) (simp add: file_Read_4 binary_Read_exact readFormat_fmt assms)

lemma readChunks_data:
  assumes "length pcm \<le> maxRW"
  shows "readChunks af (chunk_bytes (str_bytes ''data'', pcm) @ r) = Inr (af\<lparr>au_PCMData := pcm\<rparr>)"
proof -
  have "length pcm < 256 ^ 4" using assms by (simp add: maxRW_def)
  hence "le_nat (le_bytes 4 (length pcm)) = length pcm" by (rule le_bytes_read)
  thus ?thesis
    unfolding chunk_bytes_def append_assoc fst_conv snd_conv
    by (subst readChunks.simps) (simp add: file_Read_4 binary_Read_exact file_Read_exact assms str_bytes_ids Let_def)
qed


section \<open>When the conversion fails\<close>

lemma rnd53_nonneg: "0 \<le> x \<Longrightarrow> 0 \<le> rnd53 x"
proof -
  assume "0 \<le> x"
  hence "of_int 0 \<le> x / ulp53 x" by (simp add: less_imp_le)
  thus ?thesis using round_even_ge [of 0 "x / ulp53 x"] by (simp add: rnd53_def less_imp_le)
qed

lemma f64_to_int_nonneg: "0 \<le> x \<Longrightarrow> 0 \<le> f64_to_int x"
  by (simp add: f64_to_int_def)

lemma sample_at_in: "0 \<le> i \<Longrightarrow> i + 1 < int (length pcm) \<Longrightarrow> sample_at pcm i = Some (int16_le (pcm ! nat i) (pcm ! nat (i + 1)))"
  by (simp add: sample_at_def byte_at_def)

lemma resampleLoop_runs:
  assumes "0 \<le> ratio"
  shows "0 \<le> i \<Longrightarrow> \<exists>out. resampleLoop monoPCM ratio n i = Some out"
proof (induction "nat (n - i)" arbitrary: i)
  case 0
  thus ?case by (subst resampleLoop.simps) simp
next
  case (Suc d)
  let ?idx = "f64_to_int (f64_mul (f64_of_int i) ratio)"
  have idx: "0 \<le> ?idx"
    using assms Suc.prems by (simp add: f64_to_int_nonneg f64_mul_def f64_of_int_def rnd53_nonneg)
  have step: "d = nat (n - (i + 1))" "0 \<le> i + 1" using Suc.hyps(2) Suc.prems by linarith+
  obtain out where out: "resampleLoop monoPCM ratio n (i + 1) = Some out"
    using Suc.hyps(1) [of "i + 1"] step by auto
  have "sample_at monoPCM (?idx * 2) \<noteq> None" "sample_at monoPCM ((?idx + 1) * 2) \<noteq> None"
    if "?idx + 2 < int (length monoPCM div 2)"
    using that idx by (simp_all add: sample_at_in)
  thus ?case
    using out by (subst resampleLoop.simps) (auto simp: Let_def simp del: not_None_eq)
qed

definition sample_bytes :: "'a::len word \<Rightarrow> byte list" where
  "sample_bytes w = [ucast (w AND 0xFF), ucast (signed_drop_bit 8 w AND 0xFF)]"

definition mixed :: "byte list \<Rightarrow> nat \<Rightarrow> 32 word" where
  "mixed pcm j = mix (int16_le (pcm ! (4 * j)) (pcm ! (4 * j + 1))) (int16_le (pcm ! (4 * j + 2)) (pcm ! (4 * j + 3)))"

lemma stereoLoop_from:
  assumes "a \<le> length pcm div 4" and "length m = length pcm div 2"
  shows "stereoLoop pcm (4 * int a) m =
    (if 4 dvd length pcm then Some (take (2 * a) m @ concat (map (sample_bytes \<circ> mixed pcm) [a..<length pcm div 4])) else None)"
  using assms
proof (induction "length pcm div 4 - a" arbitrary: a m)
  case 0
  hence a: "a = length pcm div 4" by simp
  have "length pcm = 4 * a + length pcm mod 4" by (simp add: a)
  moreover have "length pcm mod 4 < 4" by simp
  ultimately consider "length pcm = 4 * a" | "length pcm = 4 * a + 1" | "length pcm = 4 * a + 2" | "length pcm = 4 * a + 3"
    by linarith
  thus ?case
  proof cases
    case 1
    thus ?thesis using 0(3) by (subst stereoLoop.simps) (simp add: a [symmetric])
  qed (subst stereoLoop.simps, auto simp: sample_at_def byte_at_def, presburger?)+
next
  case (Suc d)
  have room: "4 * a + 3 < length pcm" using Suc.hyps(2) by linarith
  hence len: "2 * a + 1 < length m" using Suc.prems(2) by linarith
  let ?w = "mixed pcm a"
  let ?m = "m[2 * a := ucast (?w AND 0xFF), 2 * a + 1 := ucast (signed_drop_bit 8 ?w AND 0xFF)]"
  have ix: "nat (4 * int a) = 4 * a" "nat (4 * int a + 1) = 4 * a + 1" "nat (4 * int a + 2) = 4 * a + 2"
    "nat (4 * int a + 2 + 1) = 4 * a + 3" "nat (2 * int a) = 2 * a" "nat (2 * int a + 1) = 2 * a + 1" by simp_all
  have reads: "sample_at pcm (4 * int a) = Some (int16_le (pcm ! (4 * a)) (pcm ! (4 * a + 1)))"
    "sample_at pcm (4 * int a + 2) = Some (int16_le (pcm ! (4 * a + 2)) (pcm ! (4 * a + 3)))"
    using room by (subst sample_at_in; simp only: ix; linarith)+
  have writes: "byte_set m (2 * int a) x = Some (m[2 * a := x])"
    "byte_set (m[2 * a := y]) (2 * int a + 1) x = Some (m[2 * a := y, 2 * a + 1 := x])" for x y
    using len by (simp_all add: byte_set_def ix)
  have "4 * int a div 2 = 2 * int a" "4 * int (Suc a) = 4 * int a + 4" "4 * int a < int (length pcm)" using room by simp_all
  hence "stereoLoop pcm (4 * int a) m = stereoLoop pcm (4 * int (Suc a)) ?m"
    by (subst stereoLoop.simps) (simp only: reads writes mixed_def Let_def if_True bind.bind_lunit)
  also have "\<dots> = (if 4 dvd length pcm then Some (take (2 * Suc a) ?m @
      concat (map (sample_bytes \<circ> mixed pcm) [Suc a..<length pcm div 4])) else None)"
    using Suc.hyps(2) Suc.prems by (intro Suc.hyps(1)) simp_all
  also have "take (2 * Suc a) ?m = take (2 * a) m @ sample_bytes ?w"
    using len by (simp add: sample_bytes_def take_Suc_conv_app_nth take_update_cancel)
  finally show ?case
    using Suc.hyps(2) by (simp add: upt_conv_Cons)
qed

lemma toMono_stereo:
  "stereoLoop pcm 0 (replicate (length pcm div 2) 0) =
    (if 4 dvd length pcm then Some (concat (map (sample_bytes \<circ> mixed pcm) [0..<length pcm div 4])) else None)"
  using stereoLoop_from [of 0 pcm "replicate (length pcm div 2) 0"] by simp

lemma ResampleAudio_total:
  assumes "toMono af = Inr m"
  shows "\<exists>out. ResampleAudio af = Inr out"
proof -
  have "0 \<le> f64_div (f64_of_int (uint (au_SampleRate af))) (f64_of_int targetSampleRate)"
    unfolding f64_div_def f64_of_int_def targetSampleRate_def by (intro rnd53_nonneg divide_nonneg_nonneg of_int_nonneg) simp_all
  from resampleLoop_runs [OF this order_refl] show ?thesis
    unfolding ResampleAudio_def assms sum.case Let_def by (metis option.case(2))
qed

text \<open>
  Property C23. Converting a file never fails for mono, fails for stereo exactly when the data is not a whole number of
  four-byte frames, by an index out of range, and is refused for any other number of channels.
\<close>

theorem resample_outcomes:
  "(case ResampleAudio af of
      Inl err \<Rightarrow> au_NumChannels af = 2 \<and> \<not> 4 dvd length (au_PCMData af) \<and> err = IndexPanic
        \<or> au_NumChannels af \<notin> {1, 2} \<and> err = UnsupportedChannels (au_NumChannels af)
    | Inr pcm \<Rightarrow> au_NumChannels af = 1 \<or> au_NumChannels af = 2 \<and> 4 dvd length (au_PCMData af))"
proof (cases "toMono af")
  case (Inl err)
  hence "ResampleAudio af = Inl err" by (simp add: ResampleAudio_def)
  thus ?thesis using Inl by (auto simp: toMono_def toMono_stereo split: if_splits)
next
  case (Inr m)
  then obtain out where "ResampleAudio af = Inr out" using ResampleAudio_total by blast
  thus ?thesis using Inr by (auto simp: toMono_def toMono_stereo split: if_splits)
qed

section \<open>Decimation\<close>

text \<open>The samples of mono data.\<close>

definition samples :: "byte list \<Rightarrow> 16 word list" where
  "samples pcm = map (\<lambda>i. int16_le (pcm ! (2 * i)) (pcm ! (2 * i + 1))) [0..<length pcm div 2]"

lemma int16_le_bytes [simp]: "int16_le (ucast (w AND 0xFF)) (ucast (signed_drop_bit 8 w AND 0xFF)) = (w :: 16 word)"
proof (rule bit_word_eqI)
  fix n assume n: "n < LENGTH(16)"
  have ff: "(0xFF :: 16 word) = mask 8" by (simp add: mask_eq_exp_minus_1)
  show "bit (int16_le (ucast (w AND 0xFF)) (ucast (signed_drop_bit 8 w AND 0xFF))) n = bit w n"
    using n unfolding int16_le_def ff by (cases "n < 8") (auto simp: bit_simps)
qed

lemma samples_pair: "samples (lo # hi # pcm) = int16_le lo hi # samples pcm"
proof -
  have "[0..<length (lo # hi # pcm) div 2] = 0 # map Suc [0..<length pcm div 2]"
    by (simp add: upt_conv_Cons map_Suc_upt)
  thus ?thesis by (simp add: samples_def comp_def)
qed

lemma samples_bytes: "samples (concat (map sample_bytes ws)) = (ws :: 16 word list)"
  by (induction ws) (simp_all add: samples_pair sample_bytes_def, simp add: samples_def)

lemma length_samples [simp]: "length (samples pcm) = length pcm div 2"
  by (simp add: samples_def)

lemma sample_at_samples:
  assumes "i < length pcm div 2"
  shows "sample_at pcm (int i * 2) = Some (samples pcm ! i)"
proof -
  have "int i * 2 + 1 < int (length pcm)" using assms by linarith
  moreover have "nat (int i * 2) = 2 * i" "nat (int i * 2 + 1) = 2 * i + 1" by simp_all
  ultimately show ?thesis using assms sample_at_in [of "int i * 2" pcm] by (simp add: samples_def)
qed

lemma f64_of_int_exact: "\<bar>n\<bar> < 2 ^ 53 \<Longrightarrow> f64_of_int n = of_int n"
  by (simp add: f64_of_int_def)

lemma f64_to_int_of_int: "f64_to_int (of_int n) = n"
  by (simp add: f64_to_int_def)

lemma sint16_bound: "\<bar>sint (s :: 16 word)\<bar> < 2 ^ 53"
  using sint_greater_eq [of s] sint_less [of s] by (simp add: abs_less_iff)

lemma interpolate_exact: "interpolate s1 s2 0 = s1"
proof -
  have "f64_sub 1 0 = of_int 1" using rnd53_int [of 1] by (simp add: f64_sub_def del: rnd53_int)
  moreover have "f64_mul (of_int (sint s1)) (of_int 1) = of_int (sint s1)"
    unfolding f64_mul_def of_int_mult [symmetric] mult_1_right using sint16_bound by (rule rnd53_int)
  moreover have "f64_mul (of_int (sint s2)) 0 = of_int 0" by (simp add: f64_mul_def rnd53_def)
  moreover have "f64_add (of_int (sint s1)) (of_int 0) = of_int (sint s1)"
    unfolding f64_add_def of_int_add [symmetric] add_0_right using sint16_bound by (rule rnd53_int)
  ultimately show ?thesis
    by (simp only: interpolate_def f64_of_int_exact [OF sint16_bound] f64_to_int_of_int) simp
qed

lemma resampleLoop_step:
  assumes "0 < k" and "k * i < 2 ^ 53"
  shows "resampleLoop pcm (of_int (int k)) N (int i) =
    (if int i < N \<and> k * i + 2 < length pcm div 2 then
       Option.bind (resampleLoop pcm (of_int (int k)) N (int (Suc i))) (\<lambda>rest. Some (sample_bytes (samples pcm ! (k * i)) @ rest))
     else Some [])"
proof -
  have "i \<le> k * i" using assms(1) by simp
  hence bound: "\<bar>int i\<bar> < 2 ^ 53" "\<bar>int (k * i)\<bar> < 2 ^ 53"
    using assms(2) by (metis abs_of_nat le_less_trans of_nat_less_iff of_nat_numeral of_nat_power)+
  have pos: "f64_mul (f64_of_int (int i)) (of_int (int k)) = of_int (int (k * i))"
    unfolding f64_of_int_exact [OF bound(1)] f64_mul_def of_int_mult [symmetric]
    using rnd53_int [OF bound(2)] by (simp only: of_nat_mult mult.commute)
  have fr: "f64_sub (of_int (int (k * i))) (f64_of_int (int (k * i))) = 0"
    unfolding f64_of_int_exact [OF bound(2)] by (simp add: f64_sub_def rnd53_def)
  have reads: "sample_at pcm (int (k * i) * 2) = Some (samples pcm ! (k * i))"
    "sample_at pcm ((int (k * i) + 1) * 2) = Some (samples pcm ! (k * i + 1))" if "k * i + 2 < length pcm div 2"
    using that sample_at_samples [of "k * i" pcm] sample_at_samples [of "k * i + 1" pcm] by (simp_all only: of_nat_add of_nat_1)
  show ?thesis
  proof (cases "int i < N \<and> k * i + 2 < length pcm div 2")
    case True
    hence "\<not> int (length pcm div 2) \<le> int (k * i) + 2" by linarith
    moreover have "int i + 1 = int (Suc i)" by simp
    ultimately show ?thesis
      using True reads
      by (subst resampleLoop.simps)
        (simp only: Let_def pos f64_to_int_of_int fr interpolate_exact sample_bytes_def bind.bind_lunit append_Cons append_Nil if_True if_False simp_thms)
  next
    case False
    hence "\<not> int i < N \<or> int (length pcm div 2) \<le> int (k * i) + 2" by linarith
    thus ?thesis
      using False by (subst resampleLoop.simps) (auto simp only: Let_def pos f64_to_int_of_int if_True if_False if_cancel)
  qed
qed

lemma resampleLoop_decimates:
  assumes "0 < k" and "length pcm div 2 < 2 ^ 53" and "i \<le> m" and "int m \<le> N"
    and inside: "\<And>j. j < m \<Longrightarrow> k * j + 2 < length pcm div 2" and last: "N = int m \<or> length pcm div 2 \<le> k * m + 2"
    and "k * m < 2 ^ 53"
  shows "resampleLoop pcm (of_int (int k)) N (int i) = Some (concat (map sample_bytes (map (\<lambda>j. samples pcm ! (k * j)) [i..<m])))"
  using assms(3)
proof (induction "m - i" arbitrary: i)
  case 0
  hence "i = m" by simp
  thus ?case using last resampleLoop_step [OF assms(1,7), of pcm N] by auto
next
  case (Suc d)
  hence "i < m" "k * i < 2 ^ 53"
    using assms(1,7) by (auto intro: le_less_trans [OF mult_le_mono2])
  thus ?case
    using Suc.hyps(1) [of "Suc i"] Suc.hyps(2) resampleLoop_step [OF assms(1), of i pcm N] inside [of i] assms(4)
    by (simp add: upt_conv_Cons)
qed

lemma decimated_inside:
  assumes "1 < k" and "j < (if k = 2 then (n - 1) div 2 else n div k)"
  shows "k * j + 2 < (n :: nat)"
proof (cases "k = 2")
  case False
  hence "k * Suc j \<le> k * (n div k)" using assms by (intro mult_le_mono2) simp
  also have "\<dots> \<le> n" by simp
  finally show ?thesis using False assms(1) by simp
qed (use assms in auto)

text \<open>
  Property C21. For mono audio at \<open>k\<close> times 8000 Hz the interpolation in floating point is exact decimation: the output
  consists of every \<open>k\<close>-th sample, \<open>n / k\<close> of them, except that at 16000 Hz the last one is dropped when the
  number \<open>n\<close> of samples is even.
\<close>

theorem resample_decimates:
  assumes "au_NumChannels af = 1" and "uint (au_SampleRate af) = 8000 * int k" and "1 < k" and "length (au_PCMData af) < 2 ^ 53"
    and "n = length (au_PCMData af) div 2"
  shows "\<exists>out. ResampleAudio af = Inr out \<and>
    samples out = map (\<lambda>i. samples (au_PCMData af) ! (k * i)) [0..<(if k = 2 then (n - 1) div 2 else n div k)]"
proof -
  let ?pcm = "au_PCMData af" and ?m = "if k = 2 then (n - 1) div 2 else n div k"
  have uint_rate: "uint (au_SampleRate af) < 2 ^ LENGTH(32)" by (rule unsigned_less)
  have k: "\<bar>int k\<bar> < 2 ^ 53"
    using assms(2) uint_rate by simp
  have n: "\<bar>int n\<bar> < 2 ^ 53" using assms(4,5) by simp
  have ratio: "f64_div (f64_of_int (uint (au_SampleRate af))) (f64_of_int targetSampleRate) = of_int (int k)"
  proof -
    have "\<bar>8000 * int k\<bar> < 2 ^ 53" using assms(2) uint_rate by simp
    hence "f64_of_int (8000 * int k) = of_int (8000 * int k)" "f64_of_int 8000 = of_int 8000"
      by (simp_all only: f64_of_int_exact) (rule f64_of_int_exact, simp)
    moreover have "of_int (8000 * int k) / of_int 8000 = (of_int (int k) :: rat)" by simp
    ultimately show ?thesis
      using rnd53_int [OF k] by (simp only: assms(2) targetSampleRate_def f64_div_def)
  qed
  have count: "f64_to_int (f64_div (f64_of_int (int n)) (of_int (int k))) = int (n div k)"
  proof -
    have "\<lfloor>rnd53 (of_int (int n) / of_int (int k))\<rfloor> = int (n div k)"
      using n assms(3) rnd53_floor [of "int n" "int k"] by (simp add: zdiv_int)
    moreover have "0 \<le> rnd53 (of_int (int n) / of_int (int k))" by (rule rnd53_nonneg) simp
    ultimately show ?thesis by (simp only: f64_of_int_exact [OF n] f64_div_def f64_to_int_def) simp
  qed
  have "resampleLoop ?pcm (of_int (int k)) (int (n div k)) (int 0) =
    Some (concat (map sample_bytes (map (\<lambda>j. samples ?pcm ! (k * j)) [0..<?m])))"
  proof (rule resampleLoop_decimates)
    show "k * j + 2 < length ?pcm div 2" if "j < ?m" for j
      using that decimated_inside [OF assms(3), of j n] by (simp add: assms(5))
    show "int (n div k) = int ?m \<or> length ?pcm div 2 \<le> k * ?m + 2"
      by (auto simp: assms(5))
    have "k * ?m \<le> n" using div_times_less_eq_dividend [of n k] by (auto simp: mult.commute)
    thus "k * ?m < 2 ^ 53" using assms(4,5) by (simp split del: if_split)
    show "int ?m \<le> int (n div k)" by auto
  qed (use assms in \<open>auto\<close>)
  hence "resampleLoop ?pcm (of_int (int k)) (int (n div k)) 0 =
    Some (concat (map sample_bytes (map (\<lambda>j. samples ?pcm ! (k * j)) [0..<?m])))"
    by (simp split del: if_split)
  moreover have "uint (au_SampleRate af) \<noteq> targetSampleRate" "uint (au_SampleRate af) \<noteq> 0"
    using assms(2,3) by (auto simp: targetSampleRate_def)
  ultimately have "ResampleAudio af = Inr (concat (map sample_bytes (map (\<lambda>j. samples ?pcm ! (k * j)) [0..<?m])))"
    using assms(1) by (simp only: ResampleAudio_def toMono_def ratio count assms(5) [symmetric] Let_def
        sum.case option.case if_True if_False of_nat_0 simp_thms)
  thus ?thesis by (simp only: samples_bytes sum.inject ex_simps simp_thms)
qed

definition ex_wav :: audio_file where
  "ex_wav = \<lparr>au_AudioFormat = 1, au_SampleRate = 24000, au_NumChannels = 1, au_BitsPerSample = 16,
     au_PCMData = [1, 0, 2, 0, 3, 0, 4, 0, 5, 0, 6, 0, 7, 255]\<rparr>"

theorem resample_decimates_witness: "\<exists>out. ResampleAudio ex_wav = Inr out \<and> samples out = [1, 4]"
proof -
  have "map (\<lambda>i. samples (au_PCMData ex_wav) ! (3 * i)) [0..<2] = [1, 4]"
    by (simp add: ex_wav_def samples_def int16_le_def upt_rec)
  thus ?thesis using resample_decimates [of ex_wav 3 7] by (simp add: ex_wav_def)
qed


section \<open>Mixing\<close>

lemma int16_le_bytes32: "int16_le (ucast (w AND 0xFF)) (ucast (signed_drop_bit 8 w AND 0xFF)) = ucast (w :: 32 word)"
proof (rule bit_word_eqI)
  fix n assume n: "n < LENGTH(16)"
  have ff: "(0xFF :: 32 word) = mask 8" by (simp add: mask_eq_exp_minus_1)
  show "bit (int16_le (ucast (w AND 0xFF)) (ucast (signed_drop_bit 8 w AND 0xFF))) n = bit (ucast w :: 16 word) n"
    using n unfolding int16_le_def ff by (cases "n < 8") (auto simp: bit_simps)
qed

lemma samples_bytes32: "samples (concat (map (sample_bytes \<circ> f) js)) = map (\<lambda>j. ucast (f j :: 32 word)) js"
  by (induction js) (simp_all add: samples_pair sample_bytes_def int16_le_bytes32, simp add: samples_def)

lemma sint_mix: "sint (ucast (mix l r) :: 16 word) = (sint l + sint r) sdiv 2"
proof -
  have "- 65536 \<le> sint l + sint r" "sint l + sint r \<le> 65534"
    using sint_greater_eq [of l] sint_less [of l] sint_greater_eq [of r] sint_less [of r] by simp_all
  hence "- 32768 \<le> (sint l + sint r) sdiv 2" "(sint l + sint r) sdiv 2 < 32768"
    by (auto simp: signed_divide_int_def sgn_if)
  moreover have "ucast (mix l r) = (word_of_int ((sint l + sint r) sdiv 2) :: 16 word)"
    by (simp add: mix_def unsigned_ucast_eq ucast_down_wi is_down)
  ultimately show ?thesis by (simp only: sint_sbintrunc') (simp add: signed_take_bit_int_eq_self)
qed

text \<open>
  An 8000 Hz stereo file is mixed to mono without overflow: sample \<open>j\<close> of the output is the mean of the two
  samples of frame \<open>j\<close>, rounded towards zero.
\<close>

theorem stereo_mixed:
  assumes "au_NumChannels af = 2" and "au_SampleRate af = 8000" and "length (au_PCMData af) = 4 * n"
  shows "\<exists>out. ResampleAudio af = Inr out \<and> map sint (samples out) =
    map (\<lambda>j. (sint (samples (au_PCMData af) ! (2 * j)) + sint (samples (au_PCMData af) ! (2 * j + 1))) sdiv 2) [0..<n]"
proof -
  let ?pcm = "au_PCMData af"
  have "toMono af = Inr (concat (map (sample_bytes \<circ> mixed ?pcm) [0..<n]))"
    using assms(1,3) toMono_stereo [of ?pcm] by (simp add: toMono_def)
  hence "ResampleAudio af = Inr (concat (map (sample_bytes \<circ> mixed ?pcm) [0..<n]))"
    using assms(2) by (simp add: ResampleAudio_def targetSampleRate_def)
  moreover have "sint (ucast (mixed ?pcm j) :: 16 word) = (sint (samples ?pcm ! (2 * j)) + sint (samples ?pcm ! (2 * j + 1))) sdiv 2"
    if "j < n" for j
  proof -
    have "samples ?pcm ! (2 * j) = int16_le (?pcm ! (4 * j)) (?pcm ! (4 * j + 1))"
      "samples ?pcm ! (2 * j + 1) = int16_le (?pcm ! (4 * j + 2)) (?pcm ! (4 * j + 3))"
      using that assms(3) by (simp_all add: samples_def numeral_3_eq_3)
    thus ?thesis by (simp only: mixed_def sint_mix)
  qed
  ultimately show ?thesis by (simp add: samples_bytes32)
qed

theorem stereo_mixed_witness:
  "\<exists>out. ResampleAudio (ex_wav\<lparr>au_SampleRate := 8000, au_NumChannels := 2, au_PCMData := [255, 127, 253, 127]\<rparr>) = Inr out \<and>
     map sint (samples out) = [32766]"
  using stereo_mixed [of "ex_wav\<lparr>au_SampleRate := 8000, au_NumChannels := 2, au_PCMData := [255, 127, 253, 127]\<rparr>" 1]
  by (simp add: ex_wav_def samples_def int16_le_def upt_rec)

end
