(* ===== verification/Go_Strings.thy ===== *)
theory Go_Strings
  imports Go_Std
begin

text \<open>
  More of Go's package \<open>strings\<close>: searching for a substring, suffixes, trimming, letter
  case and replacement. The case functions are those of ASCII text (SIP URIs, header
  values and dialplan patterns are ASCII); the others are exact on byte strings.
\<close>

definition HasSuffix :: "string \<Rightarrow> string \<Rightarrow> bool" where
  "HasSuffix s p = HasPrefix (rev s) (rev p)"

definition TrimPrefix :: "string \<Rightarrow> string \<Rightarrow> string" where
  "TrimPrefix s p = (if HasPrefix s p then drop (length p) s else s)"

definition TrimSuffix :: "string \<Rightarrow> string \<Rightarrow> string" where
  "TrimSuffix s p = (if HasSuffix s p then take (length s - length p) s else s)"

text \<open>\<open>strings.Index\<close>; \<open>None\<close> is \<open>-1\<close>.\<close>

fun Index :: "string \<Rightarrow> string \<Rightarrow> nat option" where
  "Index s p =
     (if HasPrefix s p then Some 0
      else (case s of [] \<Rightarrow> None | _ # xs \<Rightarrow> map_option Suc (Index xs p)))"

declare Index.simps [simp del]

definition Contains :: "string \<Rightarrow> string \<Rightarrow> bool" where
  "Contains s p \<longleftrightarrow> Index s p \<noteq> None"

definition ascii_lower :: "char \<Rightarrow> char" where
  "ascii_lower c = (let n = of_char c :: nat in if 65 \<le> n \<and> n \<le> 90 then char_of (n + 32) else c)"

definition ascii_upper :: "char \<Rightarrow> char" where
  "ascii_upper c = (let n = of_char c :: nat in if 97 \<le> n \<and> n \<le> 122 then char_of (n - 32) else c)"

definition ToLower :: "string \<Rightarrow> string" where
  "ToLower s = map ascii_lower s"

definition ToUpper :: "string \<Rightarrow> string" where
  "ToUpper s = map ascii_upper s"

text \<open>\<open>strings.Trim\<close> with a one-byte cutset.\<close>

definition Trim_byte :: "string \<Rightarrow> char \<Rightarrow> string" where
  "Trim_byte s c = rev (dropWhile (\<lambda>x. x = c) (rev (dropWhile (\<lambda>x. x = c) s)))"

text \<open>\<open>strings.ReplaceAll\<close> for a non-empty pattern.\<close>

function ReplaceAll :: "string \<Rightarrow> string \<Rightarrow> string \<Rightarrow> string" where
  "ReplaceAll s old new =
     (if s = [] \<or> old = [] then s
      else if HasPrefix s old then new @ ReplaceAll (drop (length old) s) old new
      else hd s # ReplaceAll (tl s) old new)"
  by pat_completeness auto
termination
  by (relation "measure (\<lambda>(s, old, new). length s)") (auto simp: neq_Nil_conv)

declare ReplaceAll.simps [simp del]

lemma HasPrefix_append [simp]: "HasPrefix (p @ s) p"
  by (simp add: HasPrefix_def)

lemma HasPrefix_split: "HasPrefix s p \<Longrightarrow> s = p @ drop (length p) s"
  unfolding HasPrefix_def by (metis append_take_drop_id)

lemma HasPrefix_iff: "HasPrefix s p \<longleftrightarrow> (\<exists>r. s = p @ r)"
  using HasPrefix_split HasPrefix_append by blast

lemma HasSuffix_iff: "HasSuffix s p \<longleftrightarrow> (\<exists>r. s = r @ p)"
  unfolding HasSuffix_def HasPrefix_iff by (metis rev_append rev_rev_ident)

lemma TrimPrefix_append [simp]: "TrimPrefix (p @ s) p = s"
  by (simp add: TrimPrefix_def)

lemma TrimSuffix_append [simp]: "TrimSuffix (s @ p) p = s"
  by (auto simp: TrimSuffix_def HasSuffix_iff)

lemma Index_None: "Index s p = None \<longleftrightarrow> (\<forall>u v. s \<noteq> u @ p @ v)"
proof (induction s)
  case Nil
  then show ?case by (subst Index.simps) (auto simp: HasPrefix_iff)
next
  case (Cons x xs)
  show ?case
  proof (cases "HasPrefix (x # xs) p")
    case True
    then obtain r where "x # xs = p @ r" by (auto simp: HasPrefix_iff)
    then have "\<exists>u v. x # xs = u @ p @ v" by (metis append_Nil)
    moreover have "Index (x # xs) p = Some 0" using True by (subst Index.simps) simp
    ultimately show ?thesis by simp
  next
    case False
    have "(\<exists>u v. x # xs = u @ p @ v) \<longleftrightarrow> (\<exists>u v. xs = u @ p @ v)"
    proof
      assume "\<exists>u v. x # xs = u @ p @ v"
      then obtain u v where uv: "x # xs = u @ p @ v" by blast
      have "u \<noteq> []" using False uv by (auto simp: HasPrefix_iff)
      then show "\<exists>u v. xs = u @ p @ v" using uv by (cases u) auto
    next
      assume "\<exists>u v. xs = u @ p @ v"
      then show "\<exists>u v. x # xs = u @ p @ v" by (metis append_Cons)
    qed
    then show ?thesis using Cons.IH False by (subst Index.simps) auto
  qed
qed

lemma Contains_iff: "Contains s p \<longleftrightarrow> (\<exists>u v. s = u @ p @ v)"
  by (simp add: Contains_def Index_None)

lemma Contains_byte: "Contains s [c] \<longleftrightarrow> c \<in> set s"
  unfolding Contains_iff by (metis append_Cons append_Nil in_set_conv_decomp)

text \<open>Text without the first byte of the pattern is left alone by \<open>ReplaceAll\<close>.\<close>

lemma ReplaceAll_absent: "c \<notin> set s \<Longrightarrow> ReplaceAll s (c # old) new = s"
proof (induction s)
  case (Cons x xs)
  then have "\<not> HasPrefix (x # xs) (c # old)" by (auto simp: HasPrefix_def)
  with Cons show ?case by (subst ReplaceAll.simps) simp
qed (simp add: ReplaceAll.simps)

section \<open>Scanning an integer\<close>

text \<open>\<open>fmt.Sscanf(s, "%d", &n)\<close>: leading blanks, a sign, then digits; \<open>None\<close> is the error.\<close>

definition sscan_int :: "string \<Rightarrow> int option" where
  "sscan_int s =
     (let t = dropWhile (\<lambda>c. c = CHR '' '') s;
          neg = HasPrefix t ''-'';
          u = (if neg \<or> HasPrefix t ''+'' then tl t else t);
          ds = takeWhile (\<lambda>c. digit_val c \<noteq> None) u in
      if ds = '''' then None
      else (case read_nat 0 ds of
              None \<Rightarrow> None
            | Some n \<Rightarrow> let v = (if neg then - int n else int n) in
                if - (2 ^ 63) \<le> v \<and> v < 2 ^ 63 then Some v else None))"

end
