(* ===== verification/Events.thy ===== *)
theory Events
  imports Go_Strings "HOL-Library.Sublist" "HOL-Library.Word"
begin

text \<open>
  \<open>internal/signaling/events\<close>: the events of a call, their builders and their publishers. An event that embeds
  \<open>BaseEvent\<close> is an extension of its record. A builder is the event it has built so far; \<open>Build\<close> returns it. The
  channel publishers are shared objects, so a publisher names one by its index in the list of all of them.
\<close>

section \<open>Events\<close>

type_synonym EventType = string

definition CallReceivedT :: EventType where "CallReceivedT = ''call.received''"
definition CallDialingT :: EventType where "CallDialingT = ''call.dialing''"
definition CallRingingT :: EventType where "CallRingingT = ''call.ringing''"
definition CallAnsweredT :: EventType where "CallAnsweredT = ''call.answered''"
definition CallBridgedT :: EventType where "CallBridgedT = ''call.bridged''"
definition CallEndedT :: EventType where "CallEndedT = ''call.ended''"

definition DirectionInbound :: string where "DirectionInbound = ''inbound''"

record BaseEvent =
  ev_EventID :: string
  ev_EventType :: EventType
  ev_EventTime :: time
  ev_CallUUID :: string
  ev_SIPCallID :: string
  ev_BridgeID :: string
  ev_Leg :: string
  ev_TenantID :: string
  ev_NodeID :: string

text \<open>\<open>None\<close>: the slice expression panics.\<close>

definition Subject :: "'a BaseEvent_scheme \<Rightarrow> string option" where
  "Subject e =
     (if length (ev_EventType e) < 5 then None
      else let suffix = drop 5 (ev_EventType e) in Some (''switchboard.calls.'' @ ev_CallUUID e @ ''.'' @ suffix))"

definition SubjectPrefix :: string where "SubjectPrefix = ''switchboard''"
definition SubjectCalls :: string where "SubjectCalls = SubjectPrefix @ ''.calls''"

definition BuildCallSubject :: "string \<Rightarrow> string \<Rightarrow> string" where
  "BuildCallSubject callUUID eventSuffix = SubjectCalls @ ''.'' @ callUUID @ ''.'' @ eventSuffix"

record Endpoint =
  en_URI :: string
  en_DisplayName :: string
  en_User :: string
  en_Host :: string
  en_Port :: int
  en_Transport :: string

definition zeroEndpoint :: Endpoint where
  "zeroEndpoint = \<lparr>en_URI = '''', en_DisplayName = '''', en_User = '''', en_Host = '''', en_Port = 0, en_Transport = ''''\<rparr>"

record MediaInfo =
  mi_LocalAddr :: string
  mi_LocalPort :: int
  mi_RemoteAddr :: string
  mi_RemotePort :: int
  mi_Codecs :: "string list"
  mi_SelectedCodec :: string
  mi_SSRC :: "32 word"
  mi_RTPSessionID :: string

record CallReceivedEvent = BaseEvent +
  rv_Direction :: string
  rv_From :: Endpoint
  rv_To :: Endpoint
  rv_RequestURI :: string
  rv_SourceIP :: string
  rv_SourcePort :: int
  rv_DialplanName :: string
  rv_DialplanID :: string
  rv_UserAgent :: string
  rv_OfferedCodecs :: "string list"

record CallDialingEvent = BaseEvent +
  dv_Destination :: Endpoint
  dv_DialString :: string
  dv_DialTimeout :: int
  dv_CallerID :: Endpoint
  dv_LinkedCallUUID :: string

record CallRingingEvent = BaseEvent +
  gv_ResponseCode :: int
  gv_EarlyMedia :: bool
  gv_MediaInfo :: "MediaInfo option"

record CallAnsweredEvent = BaseEvent +
  av_ResponseCode :: int
  av_MediaInfo :: "MediaInfo option"
  av_SetupDurationMs :: int
  av_RingDurationMs :: int

record CallBridgedEvent = BaseEvent +
  bv_LegAMedia :: "MediaInfo option"
  bv_LegBMedia :: "MediaInfo option"
  bv_BridgeCodec :: string
  bv_Transcoding :: bool

record CallEndedEvent = BaseEvent +
  nv_EndReason :: string
  nv_EndReasonDetail :: string
  nv_SIPResponseCode :: int
  nv_SIPResponseReason :: string
  nv_HangupSource :: string
  nv_SetupDurationMs :: int
  nv_RingDurationMs :: int
  nv_TalkDurationMs :: int
  nv_TotalDurationMs :: int
  nv_BillableDurationMs :: int
  nv_DispositionCode :: string
  nv_PacketsSent :: "64 word"
  nv_PacketsReceived :: "64 word"
  nv_PacketsLost :: "64 word"
  nv_JitterMs :: int

datatype event =
    Received CallReceivedEvent | Dialing CallDialingEvent | Ringing CallRingingEvent | Answered CallAnsweredEvent
  | Bridged CallBridgedEvent | Ended CallEndedEvent

fun event_Subject :: "event \<Rightarrow> string option" where
  "event_Subject (Received e) = Subject e"
| "event_Subject (Dialing e) = Subject e"
| "event_Subject (Ringing e) = Subject e"
| "event_Subject (Answered e) = Subject e"
| "event_Subject (Bridged e) = Subject e"
| "event_Subject (Ended e) = Subject e"

section \<open>Builders\<close>

record event_builder =
  eb_nodeID :: string
  eb_tenantID :: string

definition NewBuilder :: "string \<Rightarrow> event_builder" where
  "NewBuilder nodeID = \<lparr>eb_nodeID = nodeID, eb_tenantID = ''''\<rparr>"

definition WithTenant :: "string \<Rightarrow> event_builder \<Rightarrow> event_builder" where
  "WithTenant tenantID b = b\<lparr>eb_tenantID := tenantID\<rparr>"

text \<open>A new UUID and the time are arguments.\<close>

definition newBase :: "string \<Rightarrow> time \<Rightarrow> event_builder \<Rightarrow> EventType \<Rightarrow> string \<Rightarrow> string \<Rightarrow> BaseEvent" where
  "newBase uuid now b eventType callUUID sipCallID =
     \<lparr>ev_EventID = uuid, ev_EventType = eventType, ev_EventTime = now, ev_CallUUID = callUUID, ev_SIPCallID = sipCallID,
      ev_BridgeID = '''', ev_Leg = '''', ev_TenantID = eb_tenantID b, ev_NodeID = eb_nodeID b\<rparr>"

definition Milliseconds :: "duration \<Rightarrow> int" where
  "Milliseconds d = sgn d * (\<bar>d\<bar> div 1000000)"

definition with_Leg :: "string \<Rightarrow> 'a BaseEvent_scheme \<Rightarrow> 'a BaseEvent_scheme" where
  "with_Leg leg e = e\<lparr>ev_Leg := leg\<rparr>"

subsection \<open>Received\<close>

definition CallReceived :: "string \<Rightarrow> time \<Rightarrow> event_builder \<Rightarrow> string \<Rightarrow> string \<Rightarrow> CallReceivedEvent" where
  "CallReceived uuid now b callUUID sipCallID =
     BaseEvent.extend (newBase uuid now b CallReceivedT callUUID sipCallID)
       (CallReceivedEvent.fields DirectionInbound zeroEndpoint zeroEndpoint '''' '''' 0 '''' '''' '''' [])"

definition rv_set_Direction :: "string \<Rightarrow> CallReceivedEvent \<Rightarrow> CallReceivedEvent" where
  "rv_set_Direction d e = e\<lparr>rv_Direction := d\<rparr>"

definition rv_set_From :: "Endpoint \<Rightarrow> CallReceivedEvent \<Rightarrow> CallReceivedEvent" where
  "rv_set_From x e = e\<lparr>rv_From := x\<rparr>"

definition rv_set_To :: "Endpoint \<Rightarrow> CallReceivedEvent \<Rightarrow> CallReceivedEvent" where
  "rv_set_To x e = e\<lparr>rv_To := x\<rparr>"

definition rv_set_RequestURI :: "string \<Rightarrow> CallReceivedEvent \<Rightarrow> CallReceivedEvent" where
  "rv_set_RequestURI uri e = e\<lparr>rv_RequestURI := uri\<rparr>"

definition rv_set_Source :: "string \<Rightarrow> int \<Rightarrow> CallReceivedEvent \<Rightarrow> CallReceivedEvent" where
  "rv_set_Source ip port e = e\<lparr>rv_SourceIP := ip, rv_SourcePort := port\<rparr>"

definition rv_set_Dialplan :: "string \<Rightarrow> string \<Rightarrow> CallReceivedEvent \<Rightarrow> CallReceivedEvent" where
  "rv_set_Dialplan nm i e = e\<lparr>rv_DialplanName := nm, rv_DialplanID := i\<rparr>"

definition rv_set_UserAgent :: "string \<Rightarrow> CallReceivedEvent \<Rightarrow> CallReceivedEvent" where
  "rv_set_UserAgent ua e = e\<lparr>rv_UserAgent := ua\<rparr>"

definition rv_set_OfferedCodecs :: "string list \<Rightarrow> CallReceivedEvent \<Rightarrow> CallReceivedEvent" where
  "rv_set_OfferedCodecs codecs e = e\<lparr>rv_OfferedCodecs := codecs\<rparr>"

definition rv_set_Leg :: "string \<Rightarrow> CallReceivedEvent \<Rightarrow> CallReceivedEvent" where
  "rv_set_Leg leg e = with_Leg leg e"

subsection \<open>Dialing\<close>

definition CallDialing :: "string \<Rightarrow> time \<Rightarrow> event_builder \<Rightarrow> string \<Rightarrow> string \<Rightarrow> CallDialingEvent" where
  "CallDialing uuid now b callUUID sipCallID =
     BaseEvent.extend (newBase uuid now b CallDialingT callUUID sipCallID)
       (CallDialingEvent.fields zeroEndpoint '''' 0 zeroEndpoint '''')"

definition dv_set_Destination :: "Endpoint \<Rightarrow> CallDialingEvent \<Rightarrow> CallDialingEvent" where
  "dv_set_Destination x e = e\<lparr>dv_Destination := x\<rparr>"

definition dv_set_DialString :: "string \<Rightarrow> CallDialingEvent \<Rightarrow> CallDialingEvent" where
  "dv_set_DialString s e = e\<lparr>dv_DialString := s\<rparr>"

definition dv_set_DialTimeout :: "int \<Rightarrow> CallDialingEvent \<Rightarrow> CallDialingEvent" where
  "dv_set_DialTimeout seconds e = e\<lparr>dv_DialTimeout := seconds\<rparr>"

definition dv_set_CallerID :: "Endpoint \<Rightarrow> CallDialingEvent \<Rightarrow> CallDialingEvent" where
  "dv_set_CallerID x e = e\<lparr>dv_CallerID := x\<rparr>"

definition dv_set_Bridge :: "string \<Rightarrow> string \<Rightarrow> CallDialingEvent \<Rightarrow> CallDialingEvent" where
  "dv_set_Bridge bridgeID linkedCallUUID e = e\<lparr>ev_BridgeID := bridgeID, dv_LinkedCallUUID := linkedCallUUID\<rparr>"

definition dv_set_Leg :: "string \<Rightarrow> CallDialingEvent \<Rightarrow> CallDialingEvent" where
  "dv_set_Leg leg e = with_Leg leg e"

subsection \<open>Ringing\<close>

definition CallRinging :: "string \<Rightarrow> time \<Rightarrow> event_builder \<Rightarrow> string \<Rightarrow> string \<Rightarrow> CallRingingEvent" where
  "CallRinging uuid now b callUUID sipCallID =
     BaseEvent.extend (newBase uuid now b CallRingingT callUUID sipCallID) (CallRingingEvent.fields 0 False None)"

definition gv_set_ResponseCode :: "int \<Rightarrow> CallRingingEvent \<Rightarrow> CallRingingEvent" where
  "gv_set_ResponseCode code e = e\<lparr>gv_ResponseCode := code\<rparr>"

definition gv_set_EarlyMedia :: "bool \<Rightarrow> CallRingingEvent \<Rightarrow> CallRingingEvent" where
  "gv_set_EarlyMedia hasMedia e = e\<lparr>gv_EarlyMedia := hasMedia\<rparr>"

definition gv_set_Media :: "MediaInfo option \<Rightarrow> CallRingingEvent \<Rightarrow> CallRingingEvent" where
  "gv_set_Media m e = e\<lparr>gv_MediaInfo := m\<rparr>"

definition gv_set_Leg :: "string \<Rightarrow> CallRingingEvent \<Rightarrow> CallRingingEvent" where
  "gv_set_Leg leg e = with_Leg leg e"

subsection \<open>Answered\<close>

definition CallAnswered :: "string \<Rightarrow> time \<Rightarrow> event_builder \<Rightarrow> string \<Rightarrow> string \<Rightarrow> CallAnsweredEvent" where
  "CallAnswered uuid now b callUUID sipCallID =
     BaseEvent.extend (newBase uuid now b CallAnsweredT callUUID sipCallID) (CallAnsweredEvent.fields 200 None 0 0)"

definition av_set_ResponseCode :: "int \<Rightarrow> CallAnsweredEvent \<Rightarrow> CallAnsweredEvent" where
  "av_set_ResponseCode code e = e\<lparr>av_ResponseCode := code\<rparr>"

definition av_set_Media :: "MediaInfo option \<Rightarrow> CallAnsweredEvent \<Rightarrow> CallAnsweredEvent" where
  "av_set_Media m e = e\<lparr>av_MediaInfo := m\<rparr>"

definition av_set_SetupDuration :: "duration \<Rightarrow> CallAnsweredEvent \<Rightarrow> CallAnsweredEvent" where
  "av_set_SetupDuration d e = e\<lparr>av_SetupDurationMs := Milliseconds d\<rparr>"

definition av_set_RingDuration :: "duration \<Rightarrow> CallAnsweredEvent \<Rightarrow> CallAnsweredEvent" where
  "av_set_RingDuration d e = e\<lparr>av_RingDurationMs := Milliseconds d\<rparr>"

definition av_set_Leg :: "string \<Rightarrow> CallAnsweredEvent \<Rightarrow> CallAnsweredEvent" where
  "av_set_Leg leg e = with_Leg leg e"

subsection \<open>Bridged\<close>

definition CallBridged :: "string \<Rightarrow> time \<Rightarrow> event_builder \<Rightarrow> string \<Rightarrow> string \<Rightarrow> string \<Rightarrow> CallBridgedEvent" where
  "CallBridged uuid now b callUUID sipCallID bridgeID =
     BaseEvent.extend ((newBase uuid now b CallBridgedT callUUID sipCallID)\<lparr>ev_BridgeID := bridgeID\<rparr>)
       (CallBridgedEvent.fields None None '''' False)"

definition bv_set_LegAMedia :: "MediaInfo option \<Rightarrow> CallBridgedEvent \<Rightarrow> CallBridgedEvent" where
  "bv_set_LegAMedia m e = e\<lparr>bv_LegAMedia := m\<rparr>"

definition bv_set_LegBMedia :: "MediaInfo option \<Rightarrow> CallBridgedEvent \<Rightarrow> CallBridgedEvent" where
  "bv_set_LegBMedia m e = e\<lparr>bv_LegBMedia := m\<rparr>"

definition bv_set_BridgeCodec :: "string \<Rightarrow> CallBridgedEvent \<Rightarrow> CallBridgedEvent" where
  "bv_set_BridgeCodec codec e = e\<lparr>bv_BridgeCodec := codec\<rparr>"

definition bv_set_Transcoding :: "bool \<Rightarrow> CallBridgedEvent \<Rightarrow> CallBridgedEvent" where
  "bv_set_Transcoding on e = e\<lparr>bv_Transcoding := on\<rparr>"

subsection \<open>Ended\<close>

definition CallEnded :: "string \<Rightarrow> time \<Rightarrow> event_builder \<Rightarrow> string \<Rightarrow> string \<Rightarrow> CallEndedEvent" where
  "CallEnded uuid now b callUUID sipCallID =
     BaseEvent.extend (newBase uuid now b CallEndedT callUUID sipCallID)
       (CallEndedEvent.fields '''' '''' 0 '''' '''' 0 0 0 0 0 '''' 0 0 0 0)"

definition nv_set_Reason :: "string \<Rightarrow> string \<Rightarrow> CallEndedEvent \<Rightarrow> CallEndedEvent" where
  "nv_set_Reason r detail e = e\<lparr>nv_EndReason := r, nv_EndReasonDetail := detail\<rparr>"

definition nv_set_SIPResponse :: "int \<Rightarrow> string \<Rightarrow> CallEndedEvent \<Rightarrow> CallEndedEvent" where
  "nv_set_SIPResponse code reason e = e\<lparr>nv_SIPResponseCode := code, nv_SIPResponseReason := reason\<rparr>"

definition nv_set_HangupSource :: "string \<Rightarrow> CallEndedEvent \<Rightarrow> CallEndedEvent" where
  "nv_set_HangupSource source e = e\<lparr>nv_HangupSource := source\<rparr>"

definition nv_set_Durations :: "duration \<Rightarrow> duration \<Rightarrow> duration \<Rightarrow> duration \<Rightarrow> CallEndedEvent \<Rightarrow> CallEndedEvent" where
  "nv_set_Durations setup ring talk totalD e =
     e\<lparr>nv_SetupDurationMs := Milliseconds setup, nv_RingDurationMs := Milliseconds ring, nv_TalkDurationMs := Milliseconds talk,
       nv_TotalDurationMs := Milliseconds totalD\<rparr>"

definition nv_set_BillableDuration :: "duration \<Rightarrow> CallEndedEvent \<Rightarrow> CallEndedEvent" where
  "nv_set_BillableDuration d e = e\<lparr>nv_BillableDurationMs := Milliseconds d\<rparr>"

definition nv_set_Disposition :: "string \<Rightarrow> CallEndedEvent \<Rightarrow> CallEndedEvent" where
  "nv_set_Disposition code e = e\<lparr>nv_DispositionCode := code\<rparr>"

definition nv_set_MediaStats :: "64 word \<Rightarrow> 64 word \<Rightarrow> 64 word \<Rightarrow> int \<Rightarrow> CallEndedEvent \<Rightarrow> CallEndedEvent" where
  "nv_set_MediaStats sent received lost jitterMs e =
     e\<lparr>nv_PacketsSent := sent, nv_PacketsReceived := received, nv_PacketsLost := lost, nv_JitterMs := jitterMs\<rparr>"

definition nv_set_Leg :: "string \<Rightarrow> CallEndedEvent \<Rightarrow> CallEndedEvent" where
  "nv_set_Leg leg e = with_Leg leg e"

definition nv_set_Bridge :: "string \<Rightarrow> CallEndedEvent \<Rightarrow> CallEndedEvent" where
  "nv_set_Bridge bridgeID e = e\<lparr>ev_BridgeID := bridgeID\<rparr>"

section \<open>Publishers\<close>

text \<open>\<open>cp_chanClosed\<close> is the state of the channel itself, \<open>cp_closed\<close> the flag beside it.\<close>

record channel_publisher =
  cp_ch :: "event list"
  cp_chanClosed :: bool
  cp_bufSize :: int
  cp_closed :: bool
  cp_dropCount :: int

definition NewChannelPublisher :: "int \<Rightarrow> channel_publisher" where
  "NewChannelPublisher bufferSize =
     (let bufferSize = (if bufferSize \<le> 0 then 1000 else bufferSize) in
      \<lparr>cp_ch = [], cp_chanClosed = False, cp_bufSize = bufferSize, cp_closed = False, cp_dropCount = 0\<rparr>)"

datatype pub_error = CtxErr

text \<open>
  A context is done or not; when the buffer has room and the context is done, \<open>select\<close> picks either case:
  \<open>pick\<close> says whether it sends.
\<close>

record pub_ctx =
  pc_done :: bool
  pc_pick :: "nat \<Rightarrow> bool"

text \<open>
  The two halves of \<open>Publish\<close>, between which the lock is released. \<open>None\<close>: the send on a closed channel
  panics.
\<close>

definition publish_enters :: "channel_publisher \<Rightarrow> bool" where
  "publish_enters p \<longleftrightarrow> \<not> cp_closed p"

definition ch_room :: "channel_publisher \<Rightarrow> bool" where
  "ch_room p \<longleftrightarrow> int (length (cp_ch p)) < cp_bufSize p"

definition publish_send :: "bool \<Rightarrow> bool \<Rightarrow> event \<Rightarrow> channel_publisher \<Rightarrow> (channel_publisher \<times> pub_error option) option" where
  "publish_send isDone pick e p =
     (if isDone \<and> (\<not> pick \<or> \<not> (cp_chanClosed p \<or> ch_room p)) then Some (p, Some CtxErr)
      else if cp_chanClosed p then None
      else if ch_room p then Some (p\<lparr>cp_ch := cp_ch p @ [e]\<rparr>, None)
      else Some (p\<lparr>cp_dropCount := cp_dropCount p + 1\<rparr>, None))"

definition Channel_Publish :: "bool \<Rightarrow> bool \<Rightarrow> event \<Rightarrow> channel_publisher \<Rightarrow> (channel_publisher \<times> pub_error option) option" where
  "Channel_Publish isDone pick e p = (if publish_enters p then publish_send isDone pick e p else Some (p, None))"

definition Channel_PublishAsync :: "event \<Rightarrow> channel_publisher \<Rightarrow> channel_publisher option" where
  "Channel_PublishAsync e p =
     (if cp_closed p then Some p
      else if cp_chanClosed p then None
      else if ch_room p then Some (p\<lparr>cp_ch := cp_ch p @ [e]\<rparr>)
      else Some (p\<lparr>cp_dropCount := cp_dropCount p + 1\<rparr>))"

definition Channel_Close :: "channel_publisher \<Rightarrow> channel_publisher" where
  "Channel_Close p = (if \<not> cp_closed p then p\<lparr>cp_closed := True, cp_chanClosed := True\<rparr> else p)"

definition DroppedCount :: "channel_publisher \<Rightarrow> int" where
  "DroppedCount p = cp_dropCount p"

text \<open>A consumer receives from \<open>Events()\<close>.\<close>

definition ch_receive :: "channel_publisher \<Rightarrow> (event \<times> channel_publisher) option" where
  "ch_receive p = (case cp_ch p of [] \<Rightarrow> None | e # es \<Rightarrow> Some (e, p\<lparr>cp_ch := es\<rparr>))"

datatype publisher = NoopPublisher | LoggingPublisher | ChannelPublisher nat | MultiPublisher "publisher list"

type_synonym channels = "channel_publisher list"

primrec Publish :: "pub_ctx \<Rightarrow> event \<Rightarrow> publisher \<Rightarrow> channels \<Rightarrow> (channels \<times> pub_error option) option" where
  "Publish ctx e NoopPublisher cs = Some (cs, None)"
| "Publish ctx e LoggingPublisher cs = (case event_Subject e of None \<Rightarrow> None | Some _ \<Rightarrow> Some (cs, None))"
| "Publish ctx e (ChannelPublisher k) cs =
     map_option (\<lambda>(p, err). (cs[k := p], err)) (Channel_Publish (pc_done ctx) (pc_pick ctx k) e (cs ! k))"
| "Publish ctx e (MultiPublisher ps) cs =
     foldl (\<lambda>acc f. Option.bind acc (\<lambda>(cs, lastErr).
              map_option (\<lambda>(cs', err). (cs', if err \<noteq> None then err else lastErr)) (f cs)))
       (Some (cs, None)) (map (Publish ctx e) ps)"

primrec PublishAsync :: "event \<Rightarrow> publisher \<Rightarrow> channels \<Rightarrow> channels option" where
  "PublishAsync e NoopPublisher cs = Some cs"
| "PublishAsync e LoggingPublisher cs = (case event_Subject e of None \<Rightarrow> None | Some _ \<Rightarrow> Some cs)"
| "PublishAsync e (ChannelPublisher k) cs = map_option (\<lambda>p. cs[k := p]) (Channel_PublishAsync e (cs ! k))"
| "PublishAsync e (MultiPublisher ps) cs = foldl Option.bind (Some cs) (map (PublishAsync e) ps)"

text \<open>\<open>Flush\<close> of every publisher of the package does nothing; \<open>Close\<close> of a channel closes it once.\<close>

primrec Publisher_Flush :: "publisher \<Rightarrow> pub_error option" where
  "Publisher_Flush NoopPublisher = None"
| "Publisher_Flush LoggingPublisher = None"
| "Publisher_Flush (ChannelPublisher k) = None"
| "Publisher_Flush (MultiPublisher ps) = foldl (\<lambda>lastErr err. if err \<noteq> None then err else lastErr) None (map Publisher_Flush ps)"

primrec Publisher_Close :: "publisher \<Rightarrow> channels \<Rightarrow> channels" where
  "Publisher_Close NoopPublisher cs = cs"
| "Publisher_Close LoggingPublisher cs = cs"
| "Publisher_Close (ChannelPublisher k) cs = cs[k := Channel_Close (cs ! k)]"
| "Publisher_Close (MultiPublisher ps) cs = foldl (\<lambda>cs f. f cs) cs (map Publisher_Close ps)"

end
