(* ===== verification/Go_Text.thy ===== *)
theory Go_Text
  imports Go_Strings
begin

text \<open>
  The rest of Go's text functions that the SIP handlers and the dialplan use: \<open>strconv.Atoi\<close>,
  splitting at a byte, the last occurrence of a substring, trimming with a cutset.
\<close>

section \<open>Numbers\<close>

definition Atoi :: "string \<Rightarrow> int option" where
  "Atoi s =
     (let neg = HasPrefix s ''-''; u = (if neg \<or> HasPrefix s ''+'' then tl s else s) in
      if u = '''' then None
      else (case read_nat 0 u of
              None \<Rightarrow> None
            | Some n \<Rightarrow> let v = (if neg then - int n else int n) in
                if - (2 ^ 63) \<le> v \<and> v < 2 ^ 63 then Some v else None))"

lemma show_nat_no_sign: "\<not> HasPrefix (show_nat n) ''-''" "\<not> HasPrefix (show_nat n) ''+''"
proof -
  obtain c cs where s: "show_nat n = c # cs" using show_nat_nonempty [of n] by (cases "show_nat n") auto
  then obtain d where "c = digit_char d" using show_nat_digits [of c n] by auto
  moreover have "digit_char d \<noteq> CHR ''+''" using mod10_cases [of d] by (auto simp: digit_char_def)
  ultimately show "\<not> HasPrefix (show_nat n) ''-''" "\<not> HasPrefix (show_nat n) ''+''"
    using digit_char_not_minus by (auto simp: s HasPrefix_def)
qed

lemma Atoi_itoa: "- (2 ^ 63) \<le> n \<Longrightarrow> n < 2 ^ 63 \<Longrightarrow> Atoi (itoa n) = Some n"
  using show_nat_no_sign [of "nat n"]
  by (auto simp: Atoi_def itoa_def read_show_nat Let_def HasPrefix_def)

lemma itoa_chars: "0 \<le> n \<Longrightarrow> c \<in> set (itoa n) \<Longrightarrow> \<exists>d. c = digit_char d"
  using show_nat_digits by (auto simp: itoa_def)

lemma digit_char_range: "c = digit_char d \<Longrightarrow> c \<in> set ''0123456789''"
  using mod10_cases [of d] by (auto simp: digit_char_def)

section \<open>Splitting and searching\<close>

text \<open>\<open>strings.Split\<close> with a one-byte separator.\<close>

fun Split_byte :: "char \<Rightarrow> string \<Rightarrow> string list" where
  "Split_byte c [] = [[]]"
| "Split_byte c (x # xs) =
     (if x = c then [] # Split_byte c xs
      else (case Split_byte c xs of [] \<Rightarrow> [[x]] | p # ps \<Rightarrow> (x # p) # ps))"

lemma Split_byte_absent: "c \<notin> set s \<Longrightarrow> Split_byte c s = [s]"
  by (induction s) auto

lemma Split_byte_append: "c \<notin> set u \<Longrightarrow> Split_byte c (u @ c # v) = u # Split_byte c v"
  by (induction u) auto

text \<open>\<open>strings.LastIndex\<close>; \<open>None\<close> is \<open>-1\<close>.\<close>

definition LastIndex :: "string \<Rightarrow> string \<Rightarrow> nat option" where
  "LastIndex s p = map_option (\<lambda>i. length s - length p - i) (Index (rev s) (rev p))"

lemma Index_first:
  assumes "\<And>i. i < length u \<Longrightarrow> \<not> HasPrefix (drop i (u @ p @ v)) p"
  shows "Index (u @ p @ v) p = Some (length u)"
  using assms
proof (induction u)
  case Nil
  thus ?case by (subst Index.simps) simp
next
  case (Cons x u)
  have "\<not> HasPrefix (x # u @ p @ v) p" using Cons.prems [of 0] by simp
  moreover have "Index (u @ p @ v) p = Some (length u)"
    by (rule Cons.IH) (use Cons.prems [of "Suc i" for i] in simp)
  ultimately show ?case by (subst Index.simps) simp
qed

lemma LastIndex_append:
  assumes "p \<noteq> []" and "last p \<notin> set v"
  shows "LastIndex (u @ p @ v) p = Some (length u)"
proof -
  obtain q c where p: "p = q @ [c]" using assms(1) by (metis append_butlast_last_id)
  have "Index (rev v @ rev p @ rev u) (rev p) = Some (length v)"
  proof -
    have "\<not> HasPrefix (drop i (rev v @ rev p @ rev u)) (rev p)" if i: "i < length (rev v)" for i
    proof
      assume "HasPrefix (drop i (rev v @ rev p @ rev u)) (rev p)"
      then obtain r where "drop i (rev v @ rev p @ rev u) = c # r" by (auto simp: HasPrefix_iff p)
      moreover have "drop i (rev v @ rev p @ rev u) = rev v ! i # drop (Suc i) (rev v @ rev p @ rev u)"
        using Cons_nth_drop_Suc [of i "rev v @ rev p @ rev u"] i by (simp add: nth_append)
      ultimately have "rev v ! i = c" by simp
      hence "c \<in> set v" using nth_mem [OF i] by simp
      thus False using assms(2) by (simp add: p)
    qed
    from Index_first [of "rev v" "rev p" "rev u", OF this] show ?thesis by simp
  qed
  thus ?thesis by (simp add: LastIndex_def)
qed

text \<open>\<open>strings.Trim\<close>.\<close>

definition Trim :: "string \<Rightarrow> string \<Rightarrow> string" where
  "Trim s cutset = rev (dropWhile (\<lambda>c. c \<in> set cutset) (rev (dropWhile (\<lambda>c. c \<in> set cutset) s)))"

end
