(* ===== verification/Events_Props.thy ===== *)
theory Events_Props
  imports Events Go_Text
begin

text \<open>
  The events a builder can produce and the subjects they are published under; a channel publisher as a bounded
  queue that drops what does not fit.
\<close>

section \<open>Subjects of built events\<close>

definition received_setters :: "(CallReceivedEvent \<Rightarrow> CallReceivedEvent) set" where
  "received_setters = range rv_set_Direction \<union> range rv_set_From \<union> range rv_set_To \<union> range rv_set_RequestURI \<union>
     (\<Union>ip. range (rv_set_Source ip)) \<union> (\<Union>nm. range (rv_set_Dialplan nm)) \<union> range rv_set_UserAgent \<union>
     range rv_set_OfferedCodecs \<union> range rv_set_Leg"

definition dialing_setters :: "(CallDialingEvent \<Rightarrow> CallDialingEvent) set" where
  "dialing_setters = range dv_set_Destination \<union> range dv_set_DialString \<union> range dv_set_DialTimeout \<union> range dv_set_CallerID \<union>
     (\<Union>i. range (dv_set_Bridge i)) \<union> range dv_set_Leg"

definition ringing_setters :: "(CallRingingEvent \<Rightarrow> CallRingingEvent) set" where
  "ringing_setters = range gv_set_ResponseCode \<union> range gv_set_EarlyMedia \<union> range gv_set_Media \<union> range gv_set_Leg"

definition answered_setters :: "(CallAnsweredEvent \<Rightarrow> CallAnsweredEvent) set" where
  "answered_setters = range av_set_ResponseCode \<union> range av_set_Media \<union> range av_set_SetupDuration \<union> range av_set_RingDuration \<union>
     range av_set_Leg"

definition bridged_setters :: "(CallBridgedEvent \<Rightarrow> CallBridgedEvent) set" where
  "bridged_setters = range bv_set_LegAMedia \<union> range bv_set_LegBMedia \<union> range bv_set_BridgeCodec \<union> range bv_set_Transcoding"

definition ended_setters :: "(CallEndedEvent \<Rightarrow> CallEndedEvent) set" where
  "ended_setters = (\<Union>r. range (nv_set_Reason r)) \<union> (\<Union>c. range (nv_set_SIPResponse c)) \<union> range nv_set_HangupSource \<union>
     (\<Union>a b c. range (nv_set_Durations a b c)) \<union> range nv_set_BillableDuration \<union> range nv_set_Disposition \<union>
     (\<Union>a b c. range (nv_set_MediaStats a b c)) \<union> range nv_set_Leg \<union> range nv_set_Bridge"

lemmas setters = received_setters_def rv_set_Direction_def rv_set_From_def rv_set_To_def rv_set_RequestURI_def rv_set_Source_def
  rv_set_Dialplan_def rv_set_UserAgent_def rv_set_OfferedCodecs_def rv_set_Leg_def
  dialing_setters_def dv_set_Destination_def dv_set_DialString_def dv_set_DialTimeout_def dv_set_CallerID_def dv_set_Bridge_def
  dv_set_Leg_def ringing_setters_def gv_set_ResponseCode_def gv_set_EarlyMedia_def gv_set_Media_def gv_set_Leg_def
  answered_setters_def av_set_ResponseCode_def av_set_Media_def av_set_SetupDuration_def av_set_RingDuration_def av_set_Leg_def
  bridged_setters_def bv_set_LegAMedia_def bv_set_LegBMedia_def bv_set_BridgeCodec_def bv_set_Transcoding_def
  ended_setters_def nv_set_Reason_def nv_set_SIPResponse_def nv_set_HangupSource_def nv_set_Durations_def
  nv_set_BillableDuration_def nv_set_Disposition_def nv_set_MediaStats_def nv_set_Leg_def nv_set_Bridge_def with_Leg_def

inductive built :: "event_builder \<Rightarrow> string \<Rightarrow> event \<Rightarrow> bool" for b callUUID where
  received: "built b callUUID (Received (CallReceived uuid now b callUUID sip))"
| received_set: "built b callUUID (Received e) \<Longrightarrow> f \<in> received_setters \<Longrightarrow> built b callUUID (Received (f e))"
| dialing: "built b callUUID (Dialing (CallDialing uuid now b callUUID sip))"
| dialing_set: "built b callUUID (Dialing d) \<Longrightarrow> f \<in> dialing_setters \<Longrightarrow> built b callUUID (Dialing (f d))"
| ringing: "built b callUUID (Ringing (CallRinging uuid now b callUUID sip))"
| ringing_set: "built b callUUID (Ringing g) \<Longrightarrow> f \<in> ringing_setters \<Longrightarrow> built b callUUID (Ringing (f g))"
| answered: "built b callUUID (Answered (CallAnswered uuid now b callUUID sip))"
| answered_set: "built b callUUID (Answered a) \<Longrightarrow> f \<in> answered_setters \<Longrightarrow> built b callUUID (Answered (f a))"
| bridged: "built b callUUID (Bridged (CallBridged uuid now b callUUID sip bridgeID))"
| bridged_set: "built b callUUID (Bridged r) \<Longrightarrow> f \<in> bridged_setters \<Longrightarrow> built b callUUID (Bridged (f r))"
| ended: "built b callUUID (Ended (CallEnded uuid now b callUUID sip))"
| ended_set: "built b callUUID (Ended n) \<Longrightarrow> f \<in> ended_setters \<Longrightarrow> built b callUUID (Ended (f n))"

fun event_base :: "event \<Rightarrow> BaseEvent" where
  "event_base (Received e) = BaseEvent.truncate e"
| "event_base (Dialing e) = BaseEvent.truncate e"
| "event_base (Ringing e) = BaseEvent.truncate e"
| "event_base (Answered e) = BaseEvent.truncate e"
| "event_base (Bridged e) = BaseEvent.truncate e"
| "event_base (Ended e) = BaseEvent.truncate e"

fun event_suffix :: "event \<Rightarrow> string" where
  "event_suffix (Received e) = ''received''"
| "event_suffix (Dialing e) = ''dialing''"
| "event_suffix (Ringing e) = ''ringing''"
| "event_suffix (Answered e) = ''answered''"
| "event_suffix (Bridged e) = ''bridged''"
| "event_suffix (Ended e) = ''ended''"

text \<open>What building keeps of the base event.\<close>

definition base_ok :: "event_builder \<Rightarrow> string \<Rightarrow> string \<Rightarrow> 'a BaseEvent_scheme \<Rightarrow> bool" where
  "base_ok b callUUID sfx e \<longleftrightarrow> ev_EventType e = ''call.'' @ sfx \<and> ev_CallUUID e = callUUID \<and>
     ev_TenantID e = eb_tenantID b \<and> ev_NodeID e = eb_nodeID b"

lemma setters_keep_base:
  "f1 \<in> received_setters \<Longrightarrow> base_ok b c s (f1 e1) = base_ok b c s e1"
  "f2 \<in> dialing_setters \<Longrightarrow> base_ok b c s (f2 e2) = base_ok b c s e2"
  "f3 \<in> ringing_setters \<Longrightarrow> base_ok b c s (f3 e3) = base_ok b c s e3"
  "f4 \<in> answered_setters \<Longrightarrow> base_ok b c s (f4 e4) = base_ok b c s e4"
  "f5 \<in> bridged_setters \<Longrightarrow> base_ok b c s (f5 e5) = base_ok b c s e5"
  "f6 \<in> ended_setters \<Longrightarrow> base_ok b c s (f6 e6) = base_ok b c s e6"
  by (auto simp: setters base_ok_def)

lemma new_events_base:
  "base_ok b c ''received'' (CallReceived u t b c sip)" "base_ok b c ''dialing'' (CallDialing u t b c sip)"
  "base_ok b c ''ringing'' (CallRinging u t b c sip)" "base_ok b c ''answered'' (CallAnswered u t b c sip)"
  "base_ok b c ''bridged'' (CallBridged u t b c sip i)" "base_ok b c ''ended'' (CallEnded u t b c sip)"
  by (simp_all add: base_ok_def newBase_def BaseEvent.defs CallReceived_def CallReceivedT_def CallDialing_def CallDialingT_def
      CallRinging_def CallRingingT_def CallAnswered_def CallAnsweredT_def CallBridged_def CallBridgedT_def CallEnded_def CallEndedT_def)

lemma base_ok_truncate [simp]: "base_ok b c s (BaseEvent.truncate e) = base_ok b c s e"
  by (simp add: base_ok_def BaseEvent.truncate_def)

lemma Subject_truncate: "Subject (BaseEvent.truncate e) = Subject e"
  by (simp add: Subject_def BaseEvent.truncate_def)

lemma event_Subject_base: "event_Subject e = Subject (event_base e)"
  by (cases e) (simp_all add: Subject_truncate)

lemma built_base: "built b c e \<Longrightarrow> base_ok b c (event_suffix e) (event_base e)"
  by (induction rule: built.induct) (simp_all add: setters_keep_base new_events_base)

text \<open>
  Property C25. Every event that a builder can produce has a subject, the one \<open>BuildCallSubject\<close> gives for its call and kind,
  and carries the node and tenant of the builder; for a call identifier without dots the four parts of the
  subject can be read back.
\<close>

theorem built_events_routed:
  assumes "built b callUUID e"
  shows "event_Subject e = Some (BuildCallSubject callUUID (event_suffix e)) \<and>
    ev_NodeID (event_base e) = eb_nodeID b \<and> ev_TenantID (event_base e) = eb_tenantID b \<and>
    (CHR ''.'' \<in> set callUUID \<or>
     Split_byte CHR ''.'' (BuildCallSubject callUUID (event_suffix e)) = [''switchboard'', ''calls'', callUUID, event_suffix e])"
proof -
  have base: "base_ok b callUUID (event_suffix e) (event_base e)" using built_base [OF assms] .
  hence "event_Subject e = Some (BuildCallSubject callUUID (event_suffix e))"
    by (simp add: event_Subject_base Subject_def base_ok_def BuildCallSubject_def SubjectCalls_def SubjectPrefix_def Let_def)
  moreover have "Split_byte CHR ''.'' (BuildCallSubject callUUID (event_suffix e)) = [''switchboard'', ''calls'', callUUID, event_suffix e]"
    if "CHR ''.'' \<notin> set callUUID"
  proof -
    have "CHR ''.'' \<notin> set (event_suffix e)" by (cases e) simp_all
    thus ?thesis
      using Split_byte_append [OF that, of "event_suffix e"]
      by (simp add: BuildCallSubject_def SubjectCalls_def SubjectPrefix_def Split_byte_absent)
  qed
  ultimately show ?thesis using base by (auto simp: base_ok_def)
qed

theorem built_events_routed_witness:
  "event_Subject (Dialing (dv_set_Bridge ''b'' ''a'' (CallDialing ''i'' 0 (NewBuilder ''n'') ''u'' ''s''))) = Some ''switchboard.calls.u.dialing''"
proof -
  have "dv_set_Bridge ''b'' ''a'' \<in> dialing_setters" by (auto simp: dialing_setters_def)
  from built_events_routed [OF built.dialing_set [OF built.dialing this]] show ?thesis
    by (simp add: BuildCallSubject_def SubjectCalls_def SubjectPrefix_def)
qed

section \<open>The channel publisher as a queue\<close>

text \<open>
  \<open>chan_run n p offered taken refused\<close>: after some history of the publisher made with buffer size \<open>n\<close>, the events
  offered to it while it was open, those received from it, and the number of those refused because the
  context was done.
\<close>

inductive chan_run :: "int \<Rightarrow> channel_publisher \<Rightarrow> event list \<Rightarrow> event list \<Rightarrow> nat \<Rightarrow> bool" for n where
  new: "chan_run n (NewChannelPublisher n) [] [] 0"
| publish: "chan_run n p os ts r \<Longrightarrow> Channel_Publish d pick e p = Some (p', err) \<Longrightarrow>
    chan_run n p' (if cp_closed p then os else os @ [e]) ts (if err = None then r else Suc r)"
| publish_async: "chan_run n p os ts r \<Longrightarrow> Channel_PublishAsync e p = Some p' \<Longrightarrow>
    chan_run n p' (if cp_closed p then os else os @ [e]) ts r"
| receive: "chan_run n p os ts r \<Longrightarrow> ch_receive p = Some (e, p') \<Longrightarrow> chan_run n p' os (ts @ [e]) r"
| close: "chan_run n p os ts r \<Longrightarrow> chan_run n (Channel_Close p) os ts r"

definition chan_ok :: "channel_publisher \<Rightarrow> event list \<Rightarrow> event list \<Rightarrow> nat \<Rightarrow> bool" where
  "chan_ok p os ts r \<longleftrightarrow> cp_chanClosed p = cp_closed p \<and> 0 < cp_bufSize p \<and> int (length (cp_ch p)) \<le> cp_bufSize p \<and>
     subseq (ts @ cp_ch p) os \<and> int (length os) = int (length ts + length (cp_ch p) + r) + cp_dropCount p"

lemma subseq_snoc: "subseq xs ys \<Longrightarrow> subseq (xs @ [x]) (ys @ [x])" "subseq xs ys \<Longrightarrow> subseq xs (ys @ [x])"
  by (simp_all add: list_emb_append_mono subseq_order.order_trans [OF _ subseq_rev_drop_many] list_emb_append2)

lemma chan_run_ok: "chan_run n p os ts r \<Longrightarrow> chan_ok p os ts r"
proof (induction rule: chan_run.induct)
  case new
  show ?case by (simp add: chan_ok_def NewChannelPublisher_def Let_def)
next
  case (publish p os ts r d pick e p' err)
  thus ?case
    using subseq_snoc(1) [of "ts @ cp_ch p" os e] subseq_snoc(2) [of "ts @ cp_ch p" os e]
    by (auto simp: chan_ok_def Channel_Publish_def publish_enters_def publish_send_def ch_room_def split: if_splits)
next
  case (publish_async p os ts r e p')
  thus ?case
    using subseq_snoc(1) [of "ts @ cp_ch p" os e] subseq_snoc(2) [of "ts @ cp_ch p" os e]
    by (auto simp: chan_ok_def Channel_PublishAsync_def ch_room_def split: if_splits)
next
  case (receive p os ts r e p')
  thus ?case by (auto simp: chan_ok_def ch_receive_def split: list.splits)
next
  case (close p os ts r)
  thus ?case by (simp add: chan_ok_def Channel_Close_def)
qed

text \<open>
  Property C24. A channel publisher is a bounded queue that loses what does not fit: what has been received, followed by what is
  buffered, is a subsequence of what was offered while it was open, in order; the buffer never exceeds its size;
  every offered event is received, buffered, counted as dropped or refused to its caller; and publishing one
  call at a time never panics.
\<close>

theorem channel_lossy_fifo:
  assumes "chan_run n p offered taken refused"
  shows "subseq (taken @ cp_ch p) offered \<and> int (length (cp_ch p)) \<le> cp_bufSize p \<and>
    int (length offered) = int (length taken) + int (length (cp_ch p)) + DroppedCount p + int refused \<and>
    Channel_Publish d pick e p \<noteq> None \<and> Channel_PublishAsync e p \<noteq> None"
  using chan_run_ok [OF assms]
  by (auto simp: chan_ok_def DroppedCount_def Channel_Publish_def Channel_PublishAsync_def publish_enters_def publish_send_def)

definition ex_event :: event where
  "ex_event = Ended (CallEnded ''i'' 0 (NewBuilder ''n'') ''u'' ''s'')"

definition ex_chan :: channel_publisher where
  "ex_chan = \<lparr>cp_ch = [ex_event], cp_chanClosed = False, cp_bufSize = 1, cp_closed = False, cp_dropCount = 1\<rparr>"

theorem channel_lossy_fifo_witness:
  "chan_run 1 ex_chan [ex_event, ex_event] [] 0 \<and> DroppedCount ex_chan = 1 \<and> Channel_PublishAsync ex_event ex_chan \<noteq> None"
proof -
  let ?p = "ex_chan\<lparr>cp_dropCount := 0\<rparr>"
  have "chan_run 1 ?p [ex_event] [] 0"
    using chan_run.publish [OF chan_run.new [of 1], of False True ex_event ?p None]
    by (simp add: Channel_Publish_def publish_enters_def publish_send_def ch_room_def NewChannelPublisher_def ex_chan_def)
  hence run: "chan_run 1 ex_chan [ex_event, ex_event] [] 0"
    using chan_run.publish_async [of 1 ?p "[ex_event]" "[]" 0 ex_event ex_chan]
    by (simp add: Channel_PublishAsync_def ch_room_def ex_chan_def)
  from channel_lossy_fifo [OF run] run show ?thesis by (simp add: ex_chan_def DroppedCount_def)
qed

text \<open>
  The flag is read under the lock, but the send follows after it is released: when \<open>Close\<close> comes between them,
  the send panics.
\<close>

theorem publish_close_race:
  "\<exists>p e. chan_run 1 p [] [] 0 \<and> publish_enters p \<and> publish_send False True e (Channel_Close p) = None"
proof -
  have "publish_enters (NewChannelPublisher 1)" "publish_send False True e (Channel_Close (NewChannelPublisher 1)) = None" for e
    by (simp_all add: publish_enters_def publish_send_def Channel_Close_def NewChannelPublisher_def)
  thus ?thesis using chan_run.new by blast
qed

end
