(* ===== verification/Go_Json.thy ===== *)
theory Go_Json
  imports Go_Text
begin

text \<open>
  \<open>encoding/json.Unmarshal\<close> into a struct of strings and integers, as the dialplan actions use it: the
  syntax check and the value are those of a lexer and a parser with an explicit stack; the
  fields of the struct are then looked up in the object. Text is UTF-8; field names are
  compared without regard to the case of ASCII letters.
\<close>

section \<open>Lexical syntax\<close>

datatype json_token = TokPunct char | TokStr string | TokNum string | TokTrue | TokFalse | TokNull

definition json_space :: "char \<Rightarrow> bool" where
  "json_space c \<longleftrightarrow> c \<in> {CHR '' '', CHR 0x09, CHR 0x0A, CHR 0x0D}"

definition json_punct :: "char \<Rightarrow> bool" where
  "json_punct c \<longleftrightarrow> c \<in> set ''{}[]:,''"

definition hex_digit :: "char \<Rightarrow> nat option" where
  "hex_digit c = (let n = of_char c :: nat in
     if 48 \<le> n \<and> n \<le> 57 then Some (n - 48)
     else if 97 \<le> n \<and> n \<le> 102 then Some (n - 87)
     else if 65 \<le> n \<and> n \<le> 70 then Some (n - 55) else None)"

fun hex4 :: "string \<Rightarrow> (nat \<times> string) option" where
  "hex4 (a # b # c # d # cs) =
     (case (hex_digit a, hex_digit b, hex_digit c, hex_digit d) of
        (Some x, Some y, Some z, Some u) \<Rightarrow> Some (4096 * x + 256 * y + 16 * z + u, cs)
      | _ \<Rightarrow> None)"
| "hex4 _ = None"

definition utf8 :: "nat \<Rightarrow> string" where
  "utf8 r = map char_of
     (if r < 128 then [r]
      else if r < 2048 then [192 + r div 64, 128 + r mod 64]
      else if r < 65536 then [224 + r div 4096, 128 + r div 64 mod 64, 128 + r mod 64]
      else [240 + r div 262144, 128 + r div 4096 mod 64, 128 + r div 64 mod 64, 128 + r mod 64])"

text \<open>The two halves of a surrogate pair give one character; a half alone is replaced.\<close>

definition low_surrogate :: "string \<Rightarrow> (nat \<times> string) option" where
  "low_surrogate cs =
     (if HasPrefix cs [CHR 0x5C, CHR ''u''] then
        (case hex4 (drop 2 cs) of
           Some (r, rest) \<Rightarrow> if 56320 \<le> r \<and> r < 57344 then Some (r, rest) else None
         | None \<Rightarrow> None)
      else None)"

definition unicode_escape :: "nat \<Rightarrow> string \<Rightarrow> string \<times> string" where
  "unicode_escape r cs =
     (if 55296 \<le> r \<and> r < 56320 then
        (case low_surrogate cs of
           Some (r2, rest) \<Rightarrow> (utf8 (65536 + 1024 * (r - 55296) + (r2 - 56320)), rest)
         | None \<Rightarrow> (utf8 65533, cs))
      else if 56320 \<le> r \<and> r < 57344 then (utf8 65533, cs)
      else (utf8 r, cs))"

definition simple_escape :: "char \<Rightarrow> char option" where
  "simple_escape e =
     (if e \<in> {CHR 0x22, CHR 0x5C, CHR ''/''} then Some e
      else map_of [(CHR ''b'', CHR 0x08), (CHR ''f'', CHR 0x0C), (CHR ''n'', CHR 0x0A), (CHR ''r'', CHR 0x0D), (CHR ''t'', CHR 0x09)] e)"

lemma hex4_length: "hex4 cs = Some (r, rest) \<Longrightarrow> length rest < length cs"
  by (cases cs rule: hex4.cases) (auto split: option.splits)

lemma low_surrogate_length: "low_surrogate cs = Some (r, rest) \<Longrightarrow> length rest \<le> length cs"
  by (auto simp: low_surrogate_def split: if_splits option.splits dest!: hex4_length)

lemma unicode_escape_length: "length (snd (unicode_escape r cs)) \<le> length cs"
  by (auto simp: unicode_escape_def dest: low_surrogate_length split: option.split)

text \<open>The rest of a string literal after its opening quote: its value and what follows.\<close>

function lex_string :: "string \<Rightarrow> (string \<times> string) option" where
  "lex_string s =
     (case s of
        [] \<Rightarrow> None
      | c # cs \<Rightarrow>
          if c = CHR 0x22 then Some ([], cs)
          else if of_char c < (32 :: nat) then None
          else if c = CHR 0x5C then
            (case cs of
               [] \<Rightarrow> None
             | e # es \<Rightarrow>
                 if e = CHR ''u'' then
                   (case hex4 es of
                      None \<Rightarrow> None
                    | Some (r, rest) \<Rightarrow>
                        map_option (\<lambda>(v, out). (fst (unicode_escape r rest) @ v, out)) (lex_string (snd (unicode_escape r rest))))
                 else
                   (case simple_escape e of
                      None \<Rightarrow> None
                    | Some x \<Rightarrow> map_option (\<lambda>(v, out). (x # v, out)) (lex_string es)))
          else map_option (\<lambda>(v, out). (c # v, out)) (lex_string cs))"
  by pat_completeness auto
termination
proof (relation "measure length")
  fix s c cs e es r rest and p :: "nat \<times> string"
  assume "s = c # cs" "cs = e # es" "hex4 es = Some p" "(r, rest) = p"
  thus "(snd (unicode_escape r rest), s) \<in> measure length"
    using hex4_length [of es r rest] unicode_escape_length [of r rest] by auto
qed auto

declare lex_string.simps [simp del]

lemma lex_string_length: "lex_string s = Some (v, out) \<Longrightarrow> length out < length s"
proof (induction s arbitrary: v out rule: lex_string.induct)
  case (1 s)
  show ?case
  proof (cases s)
    case (Cons c cs)
    note step = "1.prems" [unfolded Cons, unfolded lex_string.simps [of "c # cs"], simplified]
    show ?thesis
    proof (cases "c = CHR 0x5C")
      case True
      obtain e es where cs: "cs = e # es" using step True by (cases cs) (auto split: if_splits)
      show ?thesis
      proof (cases "e = CHR ''u''")
        case e: True
        obtain r rest v' where r: "hex4 es = Some (r, rest)" and l: "lex_string (snd (unicode_escape r rest)) = Some (v', out)"
          using step True cs e by (auto split: if_splits option.splits)
        have "length out < length (snd (unicode_escape r rest))"
          using "1.IH"(1) [OF Cons _ _ True cs e r refl l] True step by auto
        thus ?thesis using unicode_escape_length [of r rest] hex4_length [OF r] Cons cs by simp
      next
        case e: False
        obtain x v' where x: "simple_escape e = Some x" and l: "lex_string es = Some (v', out)"
          using step True cs e by (auto split: if_splits option.splits)
        show ?thesis using "1.IH"(2) [OF Cons _ _ True cs e x l] True step Cons cs by auto
      qed
    next
      case False
      thus ?thesis using step "1.IH"(3) [OF Cons] Cons by (fastforce split: if_splits)
    qed
  qed (use "1.prems" in \<open>simp add: lex_string.simps [of "[]"]\<close>)
qed

section \<open>Tokens\<close>

definition num_char :: "char \<Rightarrow> bool" where
  "num_char c \<longleftrightarrow> c \<in> set ''+-.eE0123456789''"

definition is_digit :: "char \<Rightarrow> bool" where
  "is_digit c \<longleftrightarrow> c \<in> set ''0123456789''"

definition valid_exp :: "string \<Rightarrow> bool" where
  "valid_exp s \<longleftrightarrow> s = [] \<or> (hd s \<in> set ''eE'' \<and>
     (let t = tl s; u = (if t \<noteq> [] \<and> hd t \<in> set ''+-'' then tl t else t) in u \<noteq> [] \<and> list_all is_digit u))"

definition valid_frac :: "string \<Rightarrow> bool" where
  "valid_frac s \<longleftrightarrow>
     (if HasPrefix s ''.'' then takeWhile is_digit (tl s) \<noteq> [] \<and> valid_exp (dropWhile is_digit (tl s)) else valid_exp s)"

definition valid_num :: "string \<Rightarrow> bool" where
  "valid_num s \<longleftrightarrow>
     (let u = (if HasPrefix s ''-'' then tl s else s); ds = takeWhile is_digit u in
      ds \<noteq> [] \<and> (hd ds = CHR ''0'' \<longrightarrow> length ds = 1) \<and> valid_frac (drop (length ds) u))"

text \<open>One token, and what follows it.\<close>

definition lex_token :: "string \<Rightarrow> (json_token \<times> string) option" where
  "lex_token s =
     (case s of
        [] \<Rightarrow> None
      | c # cs \<Rightarrow>
          if json_punct c then Some (TokPunct c, cs)
          else if c = CHR 0x22 then map_option (\<lambda>(v, out). (TokStr v, out)) (lex_string cs)
          else if num_char c \<and> c \<noteq> CHR ''e'' then
            (if valid_num (takeWhile num_char s) then Some (TokNum (takeWhile num_char s), dropWhile num_char s) else None)
          else if HasPrefix s ''true'' then Some (TokTrue, drop 4 s)
          else if HasPrefix s ''false'' then Some (TokFalse, drop 5 s)
          else if HasPrefix s ''null'' then Some (TokNull, drop 4 s)
          else None)"

lemma lex_token_length: "lex_token s = Some (t, out) \<Longrightarrow> length out < length s"
proof (cases s)
  case (Cons c cs)
  assume "lex_token s = Some (t, out)"
  thus ?thesis
    using length_dropWhile_le [of num_char cs]
    by (auto simp: lex_token_def Cons HasPrefix_def dest: lex_string_length split: if_splits)
qed (simp add: lex_token_def)

function lex :: "string \<Rightarrow> json_token list option" where
  "lex s =
     (case s of
        [] \<Rightarrow> Some []
      | c # cs \<Rightarrow>
          if json_space c then lex cs
          else (case lex_token s of None \<Rightarrow> None | Some (t, out) \<Rightarrow> map_option (Cons t) (lex out)))"
  by pat_completeness auto
termination
  by (relation "measure length") (auto dest: lex_token_length)

declare lex.simps [simp del]

section \<open>Values\<close>

datatype json = JNull | JBool bool | JNum string | JStr string | JArr "json list" | JObj "(string \<times> json) list"

text \<open>
  The parser: the open arrays and objects (their elements in reverse order, and the key whose value
  is being read), and what is expected next.
\<close>

datatype json_frame = FrArr "json list" | FrObj "(string \<times> json) list" | FrKey "(string \<times> json) list" string

datatype json_want = WantValue | WantValueOrEnd | WantKey | WantKeyOrEnd | WantColon | WantCommaOrEnd | WantNothing json

definition max_depth :: nat where
  "max_depth = 10000"

fun got_value :: "json \<Rightarrow> json_frame list \<Rightarrow> (json_want \<times> json_frame list) option" where
  "got_value v [] = Some (WantNothing v, [])"
| "got_value v (FrArr vs # st) = Some (WantCommaOrEnd, FrArr (v # vs) # st)"
| "got_value v (FrKey kvs k # st) = Some (WantCommaOrEnd, FrObj ((k, v) # kvs) # st)"
| "got_value v (FrObj kvs # st) = None"

definition open_frame :: "json_frame \<Rightarrow> json_want \<Rightarrow> json_frame list \<Rightarrow> (json_want \<times> json_frame list) option" where
  "open_frame fr want st = (if length st < max_depth then Some (want, fr # st) else None)"

fun close_frame :: "char \<Rightarrow> json_frame list \<Rightarrow> (json_want \<times> json_frame list) option" where
  "close_frame c (FrArr vs # st) = (if c = CHR '']'' then got_value (JArr (rev vs)) st else None)"
| "close_frame c (FrObj kvs # st) = (if c = CHR ''}'' then got_value (JObj (rev kvs)) st else None)"
| "close_frame c _ = None"

fun json_value :: "json_token \<Rightarrow> json_frame list \<Rightarrow> (json_want \<times> json_frame list) option" where
  "json_value (TokStr s) st = got_value (JStr s) st"
| "json_value (TokNum s) st = got_value (JNum s) st"
| "json_value TokTrue st = got_value (JBool True) st"
| "json_value TokFalse st = got_value (JBool False) st"
| "json_value TokNull st = got_value JNull st"
| "json_value (TokPunct c) st =
     (if c = CHR ''['' then open_frame (FrArr []) WantValueOrEnd st
      else if c = CHR ''{'' then open_frame (FrObj []) WantKeyOrEnd st else None)"

fun json_key :: "json_token \<Rightarrow> json_frame list \<Rightarrow> (json_want \<times> json_frame list) option" where
  "json_key (TokStr k) (FrObj kvs # st) = Some (WantColon, FrKey kvs k # st)"
| "json_key _ _ = None"

fun json_comma :: "json_frame list \<Rightarrow> (json_want \<times> json_frame list) option" where
  "json_comma (FrArr vs # st) = Some (WantValue, FrArr vs # st)"
| "json_comma (FrObj kvs # st) = Some (WantKey, FrObj kvs # st)"
| "json_comma _ = None"

fun json_step :: "json_want \<Rightarrow> json_token \<Rightarrow> json_frame list \<Rightarrow> (json_want \<times> json_frame list) option" where
  "json_step WantValue t st = json_value t st"
| "json_step WantValueOrEnd t st = (if t = TokPunct CHR '']'' then close_frame CHR '']'' st else json_value t st)"
| "json_step WantKey t st = json_key t st"
| "json_step WantKeyOrEnd t st = (if t = TokPunct CHR ''}'' then close_frame CHR ''}'' st else json_key t st)"
| "json_step WantColon t st = (if t = TokPunct CHR '':'' then Some (WantValue, st) else None)"
| "json_step WantCommaOrEnd t st =
     (case t of TokPunct c \<Rightarrow> if c = CHR '','' then json_comma st else close_frame c st | _ \<Rightarrow> None)"
| "json_step (WantNothing v) t st = None"

fun json_parse :: "json_want \<Rightarrow> json_frame list \<Rightarrow> json_token list \<Rightarrow> json option" where
  "json_parse (WantNothing v) st [] = Some v"
| "json_parse want st [] = None"
| "json_parse want st (t # ts) =
     (case json_step want t st of None \<Rightarrow> None | Some (want', st') \<Rightarrow> json_parse want' st' ts)"

definition parse_json :: "string \<Rightarrow> json option" where
  "parse_json s = Option.bind (lex s) (json_parse WantValue [])"

section \<open>Structs\<close>

text \<open>
  \<open>Unmarshal\<close> into a struct: \<open>null\<close> leaves it zero, any other value but an object is an error. A field is
  set by every key that names it, in order; \<open>null\<close> leaves it alone; a value of another kind is an
  error (reported at the end).
\<close>

definition unmarshal_fields :: "string \<Rightarrow> (string \<times> json) list option" where
  "unmarshal_fields raw =
     (case parse_json raw of Some (JObj kvs) \<Rightarrow> Some kvs | Some JNull \<Rightarrow> Some [] | _ \<Rightarrow> None)"

definition field_values :: "string \<Rightarrow> (string \<times> json) list \<Rightarrow> json list" where
  "field_values name kvs = map snd (filter (\<lambda>kv. ToLower (fst kv) = ToLower name) kvs)"

fun set_string :: "json list \<Rightarrow> string \<Rightarrow> string option" where
  "set_string [] x = Some x"
| "set_string (JStr s # vs) x = set_string vs s"
| "set_string (JNull # vs) x = set_string vs x"
| "set_string _ x = None"

fun set_int :: "json list \<Rightarrow> int \<Rightarrow> int option" where
  "set_int [] x = Some x"
| "set_int (JNum s # vs) x = (case Atoi s of None \<Rightarrow> None | Some n \<Rightarrow> set_int vs n)"
| "set_int (JNull # vs) x = set_int vs x"
| "set_int _ x = None"

definition string_field :: "string \<Rightarrow> (string \<times> json) list \<Rightarrow> string option" where
  "string_field name kvs = set_string (field_values name kvs) ''''"

definition int_field :: "string \<Rightarrow> (string \<times> json) list \<Rightarrow> int option" where
  "int_field name kvs = set_int (field_values name kvs) 0"

section \<open>Plain strings\<close>

text \<open>Text without quotes, backslashes and control characters is its own string literal.\<close>

definition json_plain :: "string \<Rightarrow> bool" where
  "json_plain s \<longleftrightarrow> (\<forall>c \<in> set s. c \<noteq> CHR 0x22 \<and> c \<noteq> CHR 0x5C \<and> \<not> of_char c < (32 :: nat))"

lemma lex_string_plain: "json_plain s \<Longrightarrow> lex_string (s @ CHR 0x22 # rest) = Some (s, rest)"
proof (induction s)
  case Nil
  show ?case by (subst lex_string.simps) simp
next
  case (Cons c s)
  thus ?case by (subst lex_string.simps) (simp add: json_plain_def)
qed

end
