(* ===== verification/Dialplan.thy ===== *)
theory Dialplan
  imports Go_Json
begin

text \<open>
  The routing table of \<open>internal/signaling/dialplan\<close>: \<open>route.go\<close>, \<open>dialplan.go\<close> and the construction of
  actions (\<open>action.go\<close>, \<open>action_dial.go\<close>, \<open>action_hangup.go\<close>, \<open>action_play_audio.go\<close>).

  The decoded configuration file is an argument of \<open>Reload\<close>; the parameters of an action stay raw JSON
  until the action is built. \<open>sort.Sort\<close>, which is not stable, is a parameter with the specification
  \<open>sorts_routes\<close>.
\<close>

section \<open>Routes\<close>

record action_config =
  ac_Type :: string
  ac_Params :: string

record route =
  rt_ID :: string
  rt_Name :: string
  rt_Pattern :: string
  rt_Priority :: int
  rt_Enabled :: bool
  rt_Actions :: "action_config list"
  rt_isDefault :: bool
  rt_isPrefix :: bool
  rt_prefix :: string
  rt_exact :: string

datatype route_error = RouteIDRequired | PatternRequired | ActionRequired

definition Route_Validate :: "route \<Rightarrow> route_error + route" where
  "Route_Validate r =
     (if rt_ID r = '''' then Inl RouteIDRequired
      else if rt_Pattern r = '''' then Inl PatternRequired
      else if length (rt_Actions r) = 0 then Inl ActionRequired
      else if rt_Pattern r = ''*'' then Inr (r\<lparr>rt_isDefault := True\<rparr>)
      else if HasSuffix (rt_Pattern r) ''*'' then Inr (r\<lparr>rt_isPrefix := True, rt_prefix := TrimSuffix (rt_Pattern r) ''*''\<rparr>)
      else Inr (r\<lparr>rt_exact := rt_Pattern r\<rparr>))"

definition Route_Match :: "route \<Rightarrow> string \<Rightarrow> bool" where
  "Route_Match r destination =
     (if \<not> rt_Enabled r then False
      else if rt_isDefault r then True
      else if rt_isPrefix r then HasPrefix destination (rt_prefix r)
      else destination = rt_exact r)"

type_synonym route_sort = "route list \<Rightarrow> route list"

definition RouteList_Less :: "route \<Rightarrow> route \<Rightarrow> bool" where
  "RouteList_Less r r' \<longleftrightarrow> rt_Priority r < rt_Priority r'"

definition sorts_routes :: "route_sort \<Rightarrow> bool" where
  "sorts_routes sortFn \<longleftrightarrow> (\<forall>rs. mset (sortFn rs) = mset rs \<and> sorted_wrt (\<lambda>r r'. \<not> RouteList_Less r' r) (sortFn rs))"

fun RouteList_Match :: "route list \<Rightarrow> string \<Rightarrow> route option" where
  "RouteList_Match [] destination = None"
| "RouteList_Match (r # rs) destination = (if Route_Match r destination then Some r else RouteList_Match rs destination)"

section \<open>The dialplan\<close>

record dialplan =
  dp_routes :: "route list option"
  dp_path :: string

text \<open>What reading and decoding the configuration file gives.\<close>

datatype config_file = ReadFailed | ParseFailed | Config string "route list"

datatype reload_error = ErrRead | ErrParse | RouteInvalid nat string route_error

fun validateRoutes :: "nat \<Rightarrow> route list \<Rightarrow> reload_error + route list" where
  "validateRoutes i [] = Inr []"
| "validateRoutes i (r # rs) =
     (case Route_Validate r of
        Inl err \<Rightarrow> Inl (RouteInvalid i (rt_ID r) err)
      | Inr r' \<Rightarrow> (case validateRoutes (Suc i) rs of Inl err \<Rightarrow> Inl err | Inr rs' \<Rightarrow> Inr (r' # rs')))"

definition Dialplan_Reload :: "route_sort \<Rightarrow> config_file \<Rightarrow> dialplan \<Rightarrow> dialplan \<times> reload_error option" where
  "Dialplan_Reload sortFn file d =
     (case file of
        ReadFailed \<Rightarrow> (d, Some ErrRead)
      | ParseFailed \<Rightarrow> (d, Some ErrParse)
      | Config version rs \<Rightarrow>
          (case validateRoutes 0 rs of
             Inl err \<Rightarrow> (d, Some err)
           | Inr rs' \<Rightarrow> (d\<lparr>dp_routes := Some (sortFn rs')\<rparr>, None)))"

definition NewDialplan :: "route_sort \<Rightarrow> string \<Rightarrow> config_file \<Rightarrow> reload_error + dialplan" where
  "NewDialplan sortFn path file =
     (case Dialplan_Reload sortFn file \<lparr>dp_routes = None, dp_path = path\<rparr> of
        (d, Some err) \<Rightarrow> Inl err
      | (d, None) \<Rightarrow> Inr d)"

definition Dialplan_Match :: "dialplan \<Rightarrow> string \<Rightarrow> route option" where
  "Dialplan_Match d destination =
     (case dp_routes d of None \<Rightarrow> None | Some rs \<Rightarrow> RouteList_Match rs destination)"

definition RouteCount :: "dialplan \<Rightarrow> nat" where
  "RouteCount d = (case dp_routes d of None \<Rightarrow> 0 | Some rs \<Rightarrow> length rs)"

section \<open>Actions\<close>

datatype action = PlayAudioAction string | DialAction string int | HangupAction string

datatype action_error = ParamsInvalid | TargetRequired | FileRequired | ErrActionNotFound string

fun Action_Type :: "action \<Rightarrow> string" where
  "Action_Type (PlayAudioAction f) = ''play_audio''"
| "Action_Type (DialAction t s) = ''dial''"
| "Action_Type (HangupAction r) = ''hangup''"

definition DefaultDialTimeout :: int where
  "DefaultDialTimeout = 30"

definition NewPlayAudioAction :: "string \<Rightarrow> action_error + action" where
  "NewPlayAudioAction raw =
     (case Option.bind (unmarshal_fields raw) (string_field ''file'') of
        None \<Rightarrow> Inl ParamsInvalid
      | Some file \<Rightarrow> if file = '''' then Inl FileRequired else Inr (PlayAudioAction file))"

definition NewDialAction :: "string \<Rightarrow> action_error + action" where
  "NewDialAction raw =
     (case Option.bind (unmarshal_fields raw) (\<lambda>kvs. Option.bind (string_field ''target'' kvs) (\<lambda>t. map_option (Pair t) (int_field ''timeout'' kvs))) of
        None \<Rightarrow> Inl ParamsInvalid
      | Some (target, timeout) \<Rightarrow>
          if target = '''' then Inl TargetRequired
          else Inr (DialAction target (if timeout \<le> 0 then DefaultDialTimeout else timeout)))"

definition NewHangupAction :: "string \<Rightarrow> action_error + action" where
  "NewHangupAction raw =
     (case (if length raw > 0 then Option.bind (unmarshal_fields raw) (string_field ''reason'') else Some '''') of
        None \<Rightarrow> Inl ParamsInvalid
      | Some reason \<Rightarrow> Inr (HangupAction (if reason = '''' then ''dialplan_hangup'' else reason)))"

type_synonym action_registry = "(string, string \<Rightarrow> action_error + action) gomap"

definition NewActionRegistry :: action_registry where
  "NewActionRegistry = []"

text \<open>\<open>Register\<close>; \<open>None\<close> is the panic on a type that is already registered.\<close>

definition Registry_Register :: "string \<Rightarrow> (string \<Rightarrow> action_error + action) \<Rightarrow> action_registry \<Rightarrow> action_registry option" where
  "Registry_Register actionType factory r = (if gm_has r actionType then None else Some (gm_set r actionType factory))"

definition Registry_Create :: "action_registry \<Rightarrow> string \<Rightarrow> string \<Rightarrow> action_error + action" where
  "Registry_Create r actionType rawConfig =
     (case map_of r actionType of None \<Rightarrow> Inl (ErrActionNotFound actionType) | Some factory \<Rightarrow> factory rawConfig)"

definition DefaultRegistry :: "action_registry option" where
  "DefaultRegistry =
     Option.bind (Registry_Register ''play_audio'' NewPlayAudioAction NewActionRegistry) (\<lambda>r.
     Option.bind (Registry_Register ''dial'' NewDialAction r)
       (Registry_Register ''hangup'' NewHangupAction))"

section \<open>Substitution\<close>

text \<open>
  \<open>substituteVars\<close>: the three variables are replaced one after the other, in the order \<open>ord\<close> in which
  Go visits the map.
\<close>

definition substituteVars :: "(string, string) range_order \<Rightarrow> string \<Rightarrow> string \<Rightarrow> string \<Rightarrow> string \<Rightarrow> string" where
  "substituteVars ord destination callerID callID params =
     (if length params = 0 then params
      else fold (\<lambda>(placeholder, value) s. ReplaceAll s placeholder value)
             (ord [(''${destination}'', destination), (''${caller_id}'', callerID), (''${call_id}'', callID)]) params)"

section \<open>Choosing a route\<close>

text \<open>What a pattern means: a final star stands for any rest.\<close>

definition pattern_matches :: "string \<Rightarrow> string \<Rightarrow> bool" where
  "pattern_matches pat destination \<longleftrightarrow>
     (if HasSuffix pat ''*'' then HasPrefix destination (butlast pat) else destination = pat)"

text \<open>A route as the decoder leaves it: the fields of the compiled pattern are not exported.\<close>

definition fresh_route :: "route \<Rightarrow> bool" where
  "fresh_route r \<longleftrightarrow> \<not> rt_isDefault r \<and> \<not> rt_isPrefix r \<and> rt_prefix r = '''' \<and> rt_exact r = ''''"

definition route_takes :: "route \<Rightarrow> string \<Rightarrow> bool" where
  "route_takes r destination \<longleftrightarrow> rt_Enabled r \<and> pattern_matches (rt_Pattern r) destination"

lemma star_suffix: "HasSuffix p ''*'' \<Longrightarrow> TrimSuffix p ''*'' = butlast p"
  by (auto simp: HasSuffix_iff)

lemma Validate_match:
  assumes "fresh_route r" and "Route_Validate r = Inr r'"
  shows "Route_Match r' d \<longleftrightarrow> route_takes r d" and "rt_Priority r' = rt_Priority r"
  using assms
  by (auto simp: Route_Validate_def Route_Match_def route_takes_def pattern_matches_def fresh_route_def star_suffix HasPrefix_def HasSuffix_def
      split: if_splits)

lemma validateRoutes_ok: "validateRoutes i rs = Inr rs' \<Longrightarrow> list_all2 (\<lambda>r r'. Route_Validate r = Inr r') rs rs'"
  by (induction i rs arbitrary: rs' rule: validateRoutes.induct) (auto split: sum.splits)

lemma RouteList_Match_Some:
  "RouteList_Match rs d = Some r \<Longrightarrow> sorted_wrt (\<lambda>r r'. \<not> RouteList_Less r' r) rs \<Longrightarrow>
   r \<in> set rs \<and> Route_Match r d \<and> (\<forall>x \<in> set rs. Route_Match x d \<longrightarrow> rt_Priority r \<le> rt_Priority x)"
  by (induction rs) (auto simp: RouteList_Less_def split: if_splits)

lemma RouteList_Match_None: "RouteList_Match rs d = None \<longleftrightarrow> (\<forall>r \<in> set rs. \<not> Route_Match r d)"
  by (induction rs) auto

text \<open>
  Property C39. After a successful \<open>Reload\<close>, \<open>Match\<close> chooses an enabled route whose pattern matches the destination,
  with the smallest priority number among all of those in the file, and finds none only if there
  is none. A failed \<open>Reload\<close> keeps the table in use.
\<close>

theorem reload_match:
  assumes sort: "sorts_routes sortFn" and fresh: "\<forall>v rs. file = Config v rs \<longrightarrow> list_all fresh_route rs"
    and reload: "Dialplan_Reload sortFn file d = (d', err)"
  shows "case err of
      Some e \<Rightarrow> d' = d
    | None \<Rightarrow> \<exists>v rs. file = Config v rs \<and>
        (case Dialplan_Match d' dest of
           None \<Rightarrow> \<forall>r \<in> set rs. \<not> route_takes r dest
         | Some r' \<Rightarrow> \<exists>r \<in> set rs. Route_Validate r = Inr r' \<and> route_takes r dest \<and>
             (\<forall>x \<in> set rs. route_takes x dest \<longrightarrow> rt_Priority r \<le> rt_Priority x))"
proof (cases err)
  case None
  obtain v rs rs' where cfg: "file = Config v rs" and val: "validateRoutes 0 rs = Inr rs'" and d': "dp_routes d' = Some (sortFn rs')"
    using reload None by (auto simp: Dialplan_Reload_def split: config_file.splits sum.splits)
  note all2 = validateRoutes_ok [OF val]
  have set_eq: "set (sortFn rs') = set rs'" and sorted: "sorted_wrt (\<lambda>r r'. \<not> RouteList_Less r' r) (sortFn rs')"
    using sort mset_eq_setD [of "sortFn rs'" rs'] by (auto simp: sorts_routes_def)
  have pre: "\<exists>r \<in> set rs. Route_Validate r = Inr r' \<and> fresh_route r" if "r' \<in> set rs'" for r'
    using that all2 fresh cfg by (auto simp: list_all2_conv_all_nth in_set_conv_nth list_all_length) (metis nth_mem)
  have post: "\<exists>r' \<in> set rs'. Route_Validate r = Inr r' \<and> fresh_route r" if "r \<in> set rs" for r
    using that all2 fresh cfg by (auto simp: list_all2_conv_all_nth in_set_conv_nth list_all_length)
  have "case Dialplan_Match d' dest of
           None \<Rightarrow> \<forall>r \<in> set rs. \<not> route_takes r dest
         | Some r' \<Rightarrow> \<exists>r \<in> set rs. Route_Validate r = Inr r' \<and> route_takes r dest \<and>
             (\<forall>x \<in> set rs. route_takes x dest \<longrightarrow> rt_Priority r \<le> rt_Priority x)"
  proof (cases "Dialplan_Match d' dest")
    case None
    thus ?thesis using RouteList_Match_None [of "sortFn rs'" dest] set_eq d' post Validate_match(1)
      by (fastforce simp: Dialplan_Match_def)
  next
    case (Some r')
    hence m: "r' \<in> set rs'" "Route_Match r' dest" "\<forall>x \<in> set rs'. Route_Match x dest \<longrightarrow> rt_Priority r' \<le> rt_Priority x"
      using RouteList_Match_Some [OF _ sorted, of dest r'] set_eq d' by (simp_all add: Dialplan_Match_def)
    obtain r where r: "r \<in> set rs" "Route_Validate r = Inr r'" "fresh_route r" using pre [OF m(1)] by blast
    have "rt_Priority r \<le> rt_Priority x" if x: "x \<in> set rs" "route_takes x dest" for x
      using post [OF x(1)] m(3) Validate_match [of x] Validate_match [OF r(3,2)] x(2) by fastforce
    thus ?thesis using Some r Validate_match(1) [OF r(3,2)] m(2) by auto
  qed
  thus ?thesis using None cfg by auto
qed (use reload in \<open>auto simp: Dialplan_Reload_def split: config_file.splits sum.splits\<close>)

definition ex_route :: "string \<Rightarrow> string \<Rightarrow> int \<Rightarrow> route" where
  "ex_route i pat prio = \<lparr>rt_ID = i, rt_Name = '''', rt_Pattern = pat, rt_Priority = prio, rt_Enabled = True,
     rt_Actions = [\<lparr>ac_Type = ''hangup'', ac_Params = ''''\<rparr>], rt_isDefault = False, rt_isPrefix = False, rt_prefix = '''', rt_exact = ''''\<rparr>"

definition ex_plan :: config_file where
  "ex_plan = Config ''1'' [ex_route ''any'' ''*'' 100, ex_route ''sales'' ''1*'' 10, ex_route ''echo'' ''100'' 20]"

lemma sort_key_sorts: "sorts_routes (sort_key rt_Priority)"
proof -
  have "sorted_wrt (\<lambda>r r'. rt_Priority r \<le> rt_Priority r') (sort_key rt_Priority rs)" for rs :: "route list"
    using sorted_sort_key [of rt_Priority rs] by (simp add: sorted_map)
  thus ?thesis by (simp add: sorts_routes_def RouteList_Less_def not_less)
qed

theorem reload_match_witness:
  "Dialplan_Match (fst (Dialplan_Reload (sort_key rt_Priority) ex_plan \<lparr>dp_routes = None, dp_path = ''''\<rparr>)) ''100''
     = Some ((ex_route ''sales'' ''1*'' 10)\<lparr>rt_isPrefix := True, rt_prefix := ''1''\<rparr>) \<and>
   list_all (\<lambda>r. route_takes r ''100'' \<and> 10 \<le> rt_Priority r) [ex_route ''any'' ''*'' 100, ex_route ''echo'' ''100'' 20]"
proof -
  have fresh: "\<forall>v rs. ex_plan = Config v rs \<longrightarrow> list_all fresh_route rs"
    by (simp add: ex_plan_def ex_route_def fresh_route_def)
  have err: "snd (Dialplan_Reload (sort_key rt_Priority) ex_plan \<lparr>dp_routes = None, dp_path = ''''\<rparr>) = None"
    by (simp add: Dialplan_Reload_def ex_plan_def ex_route_def Route_Validate_def HasSuffix_def HasPrefix_def)
  have takes: "route_takes (ex_route i p n) ''100'' \<longleftrightarrow> pattern_matches p ''100''" for i p n by (simp add: route_takes_def ex_route_def)
  have pats: "pattern_matches ''*'' ''100''" "pattern_matches ''1*'' ''100''" "pattern_matches ''100'' ''100''"
    by (simp_all add: pattern_matches_def HasSuffix_def HasPrefix_def)
  show ?thesis
    using reload_match [OF sort_key_sorts fresh prod.collapse [symmetric], where d = "\<lparr>dp_routes = None, dp_path = ''''\<rparr>" and dest = "''100''"]
    unfolding err option.case
    by (auto simp: takes pats ex_plan_def split: option.splits)
      (auto simp: ex_route_def Route_Validate_def HasSuffix_def HasPrefix_def TrimSuffix_def)
qed

section \<open>Substitution in the parameters of an action\<close>

lemma HasPrefix_stop: "c \<notin> set p \<Longrightarrow> HasPrefix (u @ c # v) p \<longleftrightarrow> HasPrefix u p"
proof (induction p arbitrary: u)
  case (Cons x p)
  thus ?case by (cases u) (auto simp: HasPrefix_def)
qed (simp add: HasPrefix_def)

text \<open>A byte that is not in the pattern separates the text into parts replaced on their own.\<close>

lemma ReplaceAll_stop:
  assumes "old \<noteq> []" and "c \<notin> set old"
  shows "ReplaceAll (u @ c # v) old new = ReplaceAll u old new @ c # ReplaceAll v old new"
proof (induction "length u" arbitrary: u rule: less_induct)
  case less
  show ?case
  proof (cases "HasPrefix u old")
    case True
    hence u: "u = old @ drop (length old) u" "u \<noteq> []" using assms(1) HasPrefix_split [of u old] by (auto simp: HasPrefix_def)
    have "ReplaceAll (u @ c # v) old new = new @ ReplaceAll (drop (length old) u @ c # v) old new"
      using True u HasPrefix_stop [OF assms(2), of u v] assms(1) by (subst ReplaceAll.simps) (simp add: HasPrefix_def)
    also have "\<dots> = new @ ReplaceAll (drop (length old) u) old new @ c # ReplaceAll v old new"
      using less [of "drop (length old) u"] u assms(1) by simp
    finally show ?thesis using True u(2) assms(1) by (simp add: ReplaceAll.simps [of u])
  next
    case False
    hence no: "\<not> HasPrefix (u @ c # v) old" by (simp add: HasPrefix_stop [OF assms(2)])
    show ?thesis
    proof (cases u)
      case Nil
      thus ?thesis using no assms(1) by (subst ReplaceAll.simps) (simp add: ReplaceAll.simps [of "[]"])
    next
      case (Cons x xs)
      thus ?thesis using no False less [of xs] assms(1) by (subst (1 2) ReplaceAll.simps) simp
    qed
  qed
qed

lemma ReplaceAll_plain: "json_plain s \<Longrightarrow> json_plain new \<Longrightarrow> json_plain (ReplaceAll s old new)"
proof (induction s old new rule: ReplaceAll.induct)
  case (1 s old new)
  have app: "json_plain (x @ y) \<longleftrightarrow> json_plain x \<and> json_plain y" "json_plain (c # y) \<longleftrightarrow> json_plain [c] \<and> json_plain y" for x y c
    by (auto simp: json_plain_def)
  show ?case
  proof (cases "s = [] \<or> old = []")
    case True
    thus ?thesis using "1.prems"(1) by (subst ReplaceAll.simps) simp
  next
    case False
    have sub: "json_plain t" if "set t \<subseteq> set s" for t using "1.prems"(1) that unfolding json_plain_def by blast
    have parts: "json_plain [hd s]" "json_plain (tl s)" "json_plain (drop n s)" for n
      using False by (auto intro!: sub simp: list.set_sel dest: in_set_dropD)
    show ?thesis
    proof (cases "HasPrefix s old")
      case True
      thus ?thesis
        using False "1.IH"(1) [OF False True parts(3) "1.prems"(2)] "1.prems"(2) by (simp add: ReplaceAll.simps [of s] app(1))
    next
      case no: False
      have "json_plain (hd s # ReplaceAll (tl s) old new)"
        using app(2) [THEN iffD2] parts(1) "1.IH"(2) [OF False no parts(2) "1.prems"(2)] by blast
      thus ?thesis using False no by (simp add: ReplaceAll.simps [of s])
    qed
  qed
qed

text \<open>The placeholders: they start with a dollar sign and hold no quote.\<close>

definition is_placeholder :: "string \<Rightarrow> bool" where
  "is_placeholder p \<longleftrightarrow> (\<exists>q. p = CHR ''$'' # q) \<and> CHR 0x22 \<notin> set p"

definition subst_vars :: "(string \<times> string) list \<Rightarrow> string \<Rightarrow> string" where
  "subst_vars = fold (\<lambda>(placeholder, value) s. ReplaceAll s placeholder value)"

lemma subst_vars_literal:
  assumes "\<forall>(p, v) \<in> set vars. is_placeholder p" and "CHR ''$'' \<notin> set pre" and "CHR ''$'' \<notin> set post"
  shows "subst_vars vars (pre @ CHR 0x22 # tpl @ CHR 0x22 # post) = pre @ CHR 0x22 # subst_vars vars tpl @ CHR 0x22 # post"
  using assms(1)
proof (induction vars arbitrary: tpl)
  case (Cons pv vars)
  obtain q v where pv: "pv = (CHR ''$'' # q, v)" and quote: "CHR 0x22 \<notin> set (CHR ''$'' # q)"
    using Cons.prems by (cases pv) (auto simp: is_placeholder_def)
  have "ReplaceAll (pre @ CHR 0x22 # tpl @ CHR 0x22 # post) (CHR ''$'' # q) v = pre @ CHR 0x22 # ReplaceAll tpl (CHR ''$'' # q) v @ CHR 0x22 # post"
    using quote assms(2,3) by (simp add: ReplaceAll_stop ReplaceAll_absent)
  thus ?case using Cons by (simp add: subst_vars_def pv)
qed (simp add: subst_vars_def)

lemma subst_vars_plain: "\<forall>(p, v) \<in> set vars. json_plain v \<Longrightarrow> json_plain tpl \<Longrightarrow> json_plain (subst_vars vars tpl)"
  by (induction vars arbitrary: tpl) (auto simp: subst_vars_def ReplaceAll_plain)

lemma NewDialAction_literal:
  assumes "json_plain t"
  shows "NewDialAction (''{'' @ CHR 0x22 # ''target'' @ CHR 0x22 # '':'' @ CHR 0x22 # t @ CHR 0x22 # ''}'') =
    (if t = '''' then Inl TargetRequired else Inr (DialAction t DefaultDialTimeout))"
proof -
  note str = lex_string_plain [of "''target''" "'':'' @ CHR 0x22 # t @ CHR 0x22 # ''}''"] lex_string_plain [OF assms, of "''}''"]
  have "lex (''{'' @ CHR 0x22 # ''target'' @ CHR 0x22 # '':'' @ CHR 0x22 # t @ CHR 0x22 # ''}'') =
    Some [TokPunct CHR ''{'', TokStr ''target'', TokPunct CHR '':'', TokStr t, TokPunct CHR ''}'']"
    using str by (simp add: lex.simps lex_token_def json_space_def json_punct_def json_plain_def)
  thus ?thesis
    by (simp add: NewDialAction_def unmarshal_fields_def parse_json_def open_frame_def max_depth_def string_field_def int_field_def field_values_def
        ToLower_def ascii_lower_def)
qed

text \<open>
  Substitution in the target of a dial action, whatever order the variables are replaced in: as
  long as the destination, the caller id and the Call-ID hold no quote, backslash or control
  character, the action dials exactly the template with the variables replaced in it.
\<close>

theorem dial_target_substituted:
  assumes ord: "is_range ord" and plain: "json_plain destination" "json_plain callerID" "json_plain callID" "json_plain tpl"
  shows "NewDialAction (substituteVars ord destination callerID callID
           (''{'' @ CHR 0x22 # ''target'' @ CHR 0x22 # '':'' @ CHR 0x22 # tpl @ CHR 0x22 # ''}'')) =
    (let t = substituteVars ord destination callerID callID tpl in
     if t = '''' then Inl TargetRequired else Inr (DialAction t 30))"
proof -
  let ?vars = "ord [(''${destination}'', destination), (''${caller_id}'', callerID), (''${call_id}'', callID)]"
  have set: "set ?vars = {(''${destination}'', destination), (''${caller_id}'', callerID), (''${call_id}'', callID)}"
    using is_range_set [OF ord] by simp
  have ph: "\<forall>(p, v) \<in> set ?vars. is_placeholder p" "\<forall>(p, v) \<in> set ?vars. json_plain v"
    using plain by (auto simp: set is_placeholder_def)
  have empty: "subst_vars ?vars [] = []" using ph(1)
    by (simp add: subst_vars_def fold_invariant [where Q = "\<lambda>_. True" and P = "\<lambda>s. s = []"] ReplaceAll.simps split_beta)
  have tpl: "substituteVars ord destination callerID callID tpl = subst_vars ?vars tpl"
    using empty by (simp add: substituteVars_def subst_vars_def)
  have "substituteVars ord destination callerID callID (''{'' @ CHR 0x22 # ''target'' @ CHR 0x22 # '':'' @ CHR 0x22 # tpl @ CHR 0x22 # ''}'') =
    ''{'' @ CHR 0x22 # ''target'' @ CHR 0x22 # '':'' @ CHR 0x22 # subst_vars ?vars tpl @ CHR 0x22 # ''}''"
    using subst_vars_literal [OF ph(1), of "''{'' @ CHR 0x22 # ''target'' @ CHR 0x22 # '':''" "''}''" tpl]
    by (simp add: substituteVars_def subst_vars_def)
  thus ?thesis
    using NewDialAction_literal [OF subst_vars_plain [OF ph(2) plain(4)]] by (simp add: tpl Let_def DefaultDialTimeout_def)
qed

theorem dial_target_substituted_witness:
  "NewDialAction (substituteVars id ''1001'' ''7'' ''c''
     (''{'' @ CHR 0x22 # ''target'' @ CHR 0x22 # '':'' @ CHR 0x22 # ''user/${destination}'' @ CHR 0x22 # ''}'')) = Inr (DialAction ''user/1001'' 30)"
proof -
  have "substituteVars id ''1001'' ''7'' ''c'' ''user/${destination}'' = ''user/1001''"
    by (simp add: substituteVars_def ReplaceAll.simps HasPrefix_def)
  thus ?thesis
    using dial_target_substituted [of id "''1001''" "''7''" "''c''" "''user/${destination}''"] by (simp add: is_range_def json_plain_def)
qed

text \<open>
  A destination with quotes is not escaped and rewrites the parameters: the call goes to a target the
  caller chose, past the prefix of the dialplan.
\<close>

lemma substitution_injects:
  "NewDialAction (substituteVars id ([CHR ''x'', CHR 0x22, CHR '','', CHR 0x22] @ ''target'' @ [CHR 0x22, CHR '':'', CHR 0x22] @ ''sip:evil'') ''7'' ''c''
     (''{'' @ CHR 0x22 # ''target'' @ CHR 0x22 # '':'' @ CHR 0x22 # ''user/${destination}'' @ CHR 0x22 # ''}'')) = Inr (DialAction ''sip:evil'' 30)"
  by (simp add: substituteVars_def ReplaceAll.simps HasPrefix_def NewDialAction_def unmarshal_fields_def parse_json_def lex.simps lex_token_def
      lex_string.simps json_space_def json_punct_def open_frame_def max_depth_def string_field_def int_field_def field_values_def
      ToLower_def ascii_lower_def DefaultDialTimeout_def)

lemma default_registry: "\<exists>r. DefaultRegistry = Some r \<and>
    Registry_Create r ''play_audio'' raw = NewPlayAudioAction raw \<and> Registry_Create r ''dial'' raw = NewDialAction raw \<and>
    Registry_Create r ''hangup'' raw = NewHangupAction raw \<and>
    (typ \<notin> {''play_audio'', ''dial'', ''hangup''} \<longrightarrow> Registry_Create r typ raw = Inl (ErrActionNotFound typ))"
  by (auto simp: DefaultRegistry_def Registry_Register_def NewActionRegistry_def Registry_Create_def gm_has_def gm_set_def)

end
