(* ===== verification/Sip_Message.thy ===== *)
theory Sip_Message
  imports Go_Std "HOL-Library.Word"
begin

text \<open>
  SIP messages as the program sees them through the \<open>sipgo\<close> library: a request or response
  is its start line, its headers in order, and its body. \<open>req.From()\<close> and the other
  accessors return the first header of their kind, or \<open>nil\<close>; \<open>Params.Get\<close> is a lookup,
  \<open>Params.Clone\<close> a copy. The printing and parsing of URIs (\<open>Uri.String\<close>, \<open>sip.ParseUri\<close>)
  are the library's and stay parameters where the program uses them.
\<close>

type_synonym params = "(string, string) gomap"

record sip_uri =
  uri_Scheme :: string
  uri_User :: string
  uri_Host :: string
  uri_Port :: int
  uri_UriParams :: params

record name_addr =
  na_DisplayName :: string
  na_Address :: sip_uri
  na_Params :: params

record via_header =
  via_Transport :: string
  via_Host :: string
  via_Port :: int
  via_Params :: params

datatype sip_header =
    FromHeader name_addr
  | ToHeader name_addr
  | ContactHeader name_addr
  | CallIDHeader string
  | CSeqHeader "32 word" string
  | MaxForwardsHeader nat
  | ViaHeader via_header
  | GenericHeader string string

record sip_request =
  rq_Method :: string
  rq_Recipient :: sip_uri
  rq_Headers :: "sip_header list"
  rq_Body :: "string option"
  rq_Source :: string

record sip_response =
  rs_StatusCode :: int
  rs_Reason :: string
  rs_Headers :: "sip_header list"
  rs_Body :: "string option"
  rs_Source :: string

type_synonym uri_string = "sip_uri \<Rightarrow> string"
type_synonym parse_uri = "string \<Rightarrow> sip_uri option"

fun hdr_From :: "sip_header list \<Rightarrow> name_addr option" where
  "hdr_From (FromHeader na # hs) = Some na"
| "hdr_From (_ # hs) = hdr_From hs"
| "hdr_From [] = None"

fun hdr_To :: "sip_header list \<Rightarrow> name_addr option" where
  "hdr_To (ToHeader na # hs) = Some na"
| "hdr_To (_ # hs) = hdr_To hs"
| "hdr_To [] = None"

fun hdr_Contact :: "sip_header list \<Rightarrow> name_addr option" where
  "hdr_Contact (ContactHeader na # hs) = Some na"
| "hdr_Contact (_ # hs) = hdr_Contact hs"
| "hdr_Contact [] = None"

fun hdr_CallID :: "sip_header list \<Rightarrow> string option" where
  "hdr_CallID (CallIDHeader c # hs) = Some c"
| "hdr_CallID (_ # hs) = hdr_CallID hs"
| "hdr_CallID [] = None"

fun hdr_CSeq :: "sip_header list \<Rightarrow> (32 word \<times> string) option" where
  "hdr_CSeq (CSeqHeader n m # hs) = Some (n, m)"
| "hdr_CSeq (_ # hs) = hdr_CSeq hs"
| "hdr_CSeq [] = None"

fun hdr_Via :: "sip_header list \<Rightarrow> via_header option" where
  "hdr_Via (ViaHeader v # hs) = Some v"
| "hdr_Via (_ # hs) = hdr_Via hs"
| "hdr_Via [] = None"

text \<open>\<open>GetHeaders(name)\<close> for a header that is not one of the typed ones, and \<open>GetHeader\<close>.\<close>

fun generic_named :: "string \<Rightarrow> sip_header \<Rightarrow> bool" where
  "generic_named n (GenericHeader m v) = (m = n)"
| "generic_named n _ = False"

fun generic_value :: "sip_header \<Rightarrow> string" where
  "generic_value (GenericHeader m v) = v"
| "generic_value _ = ''''"

definition hdrs_named :: "string \<Rightarrow> sip_header list \<Rightarrow> sip_header list" where
  "hdrs_named n hs = filter (generic_named n) hs"

definition hdr_value :: "string \<Rightarrow> sip_header list \<Rightarrow> string option" where
  "hdr_value n hs = (case hdrs_named n hs of [] \<Rightarrow> None | h # _ \<Rightarrow> Some (generic_value h))"

definition param_or_empty :: "string \<Rightarrow> name_addr option \<Rightarrow> string" where
  "param_or_empty p na =
     (case na of None \<Rightarrow> '''' | Some a \<Rightarrow> (case map_of (na_Params a) p of None \<Rightarrow> '''' | Some v \<Rightarrow> v))"

definition callid_or_empty :: "sip_header list \<Rightarrow> string" where
  "callid_or_empty hs = (case hdr_CallID hs of None \<Rightarrow> '''' | Some c \<Rightarrow> c)"

lemma hdrs_named_skip [simp]:
  "hdr_From (hdrs_named n hs @ rest) = hdr_From rest"
  "hdr_To (hdrs_named n hs @ rest) = hdr_To rest"
  "hdr_CallID (hdrs_named n hs @ rest) = hdr_CallID rest"
  "hdr_CSeq (hdrs_named n hs @ rest) = hdr_CSeq rest"
  "hdr_Contact (hdrs_named n hs @ rest) = hdr_Contact rest"
proof -
  have "\<exists>v. h = GenericHeader n v" if "h \<in> set (hdrs_named n hs)" for h
    using that unfolding hdrs_named_def set_filter by (auto elim: generic_named.elims)
  then have skip: "\<forall>h \<in> set (hdrs_named n hs). \<exists>v. h = GenericHeader n v" by blast
  have "hdr_From (gs @ rest) = hdr_From rest \<and> hdr_To (gs @ rest) = hdr_To rest \<and>
      hdr_CallID (gs @ rest) = hdr_CallID rest \<and> hdr_CSeq (gs @ rest) = hdr_CSeq rest \<and>
      hdr_Contact (gs @ rest) = hdr_Contact rest"
    if "\<forall>h \<in> set gs. \<exists>v. h = GenericHeader n v" for gs
    using that by (induction gs) auto
  from this [OF skip] show
    "hdr_From (hdrs_named n hs @ rest) = hdr_From rest" "hdr_To (hdrs_named n hs @ rest) = hdr_To rest"
    "hdr_CallID (hdrs_named n hs @ rest) = hdr_CallID rest" "hdr_CSeq (hdrs_named n hs @ rest) = hdr_CSeq rest"
    "hdr_Contact (hdrs_named n hs @ rest) = hdr_Contact rest"
    by auto
qed

end
