(* ===== verification/Dialog.thy ===== *)
theory Dialog
  imports Sip_Message Go_Float
begin

text \<open>
  \<open>internal/signaling/dialog/state.go\<close>, \<open>dialog.go\<close> and \<open>info.go\<close>: one SIP dialog, its state
  machine and the in-dialog requests built from it.

  The Go struct is the record \<open>dialog\<close>; \<open>dlg_Session\<close> and \<open>dlg_Transaction\<close> say whether the
  pointer to the sipgo session and the server transaction are set, \<open>dlg_cancelled\<close> whether
  the context has been cancelled. \<open>localCSeq\<close> is an atomic \<open>uint32\<close>, a 32-bit word. A nil
  dereference is the error \<open>NilPointer\<close>.
\<close>

section \<open>The state machine\<close>

datatype CallState = StateInitial | StateEarly | StateWaitingACK | StateConfirmed | StateTerminating | StateTerminated

fun CallState_String :: "CallState \<Rightarrow> string" where
  "CallState_String StateInitial = ''Initial''"
| "CallState_String StateEarly = ''Early''"
| "CallState_String StateWaitingACK = ''WaitingACK''"
| "CallState_String StateConfirmed = ''Confirmed''"
| "CallState_String StateTerminating = ''Terminating''"
| "CallState_String StateTerminated = ''Terminated''"

fun validTransitions :: "CallState \<Rightarrow> CallState list" where
  "validTransitions StateInitial = [StateEarly, StateTerminated]"
| "validTransitions StateEarly = [StateWaitingACK, StateTerminated]"
| "validTransitions StateWaitingACK = [StateConfirmed, StateTerminated]"
| "validTransitions StateConfirmed = [StateTerminating, StateTerminated]"
| "validTransitions StateTerminating = [StateTerminated]"
| "validTransitions StateTerminated = []"

definition CanTransitionTo :: "CallState \<Rightarrow> CallState \<Rightarrow> bool" where
  "CanTransitionTo s next = list_ex (\<lambda>state. state = next) (validTransitions s)"

definition CallState_IsTerminal :: "CallState \<Rightarrow> bool" where
  "CallState_IsTerminal s \<longleftrightarrow> s = StateTerminated"

datatype TerminateReason = ReasonLocalBYE | ReasonRemoteBYE | ReasonCancel | ReasonTimeout | ReasonError

fun TerminateReason_String :: "TerminateReason \<Rightarrow> string" where
  "TerminateReason_String ReasonLocalBYE = ''LocalBYE''"
| "TerminateReason_String ReasonRemoteBYE = ''RemoteBYE''"
| "TerminateReason_String ReasonCancel = ''Cancel''"
| "TerminateReason_String ReasonTimeout = ''Timeout''"
| "TerminateReason_String ReasonError = ''Error''"

text \<open>The constants are an \<open>iota\<close> block: their order is the order of the lifecycle.\<close>

fun CallState_iota :: "CallState \<Rightarrow> nat" where
  "CallState_iota StateInitial = 0"
| "CallState_iota StateEarly = 1"
| "CallState_iota StateWaitingACK = 2"
| "CallState_iota StateConfirmed = 3"
| "CallState_iota StateTerminating = 4"
| "CallState_iota StateTerminated = 5"

lemma CallState_iota_inject: "CallState_iota s = CallState_iota t \<longleftrightarrow> s = t"
  by (cases s; cases t) auto

instantiation CallState :: linorder
begin

definition less_eq_CallState :: "CallState \<Rightarrow> CallState \<Rightarrow> bool" where
  "less_eq_CallState s t \<longleftrightarrow> CallState_iota s \<le> CallState_iota t"

definition less_CallState :: "CallState \<Rightarrow> CallState \<Rightarrow> bool" where
  "less_CallState s t \<longleftrightarrow> CallState_iota s < CallState_iota t"

instance
  by standard (auto simp: less_eq_CallState_def less_CallState_def CallState_iota_inject)

end

lemma CanTransitionTo_cases:
  "CanTransitionTo s t \<longleftrightarrow> (t = StateTerminated \<and> s \<noteq> StateTerminated) \<or>
     (s, t) \<in> {(StateInitial, StateEarly), (StateEarly, StateWaitingACK), (StateWaitingACK, StateConfirmed),
       (StateConfirmed, StateTerminating)}"
  by (cases s) (auto simp: CanTransitionTo_def)

lemma CanTransitionTo_less: "CanTransitionTo s t \<Longrightarrow> s < t"
  by (cases s) (auto simp: CanTransitionTo_def less_CallState_def)

interpretation call: lifecycle CanTransitionTo CallState_iota 5 CallState_IsTerminal
proof unfold_locales
  fix s t :: CallState
  show "CanTransitionTo s t \<Longrightarrow> CallState_iota s < CallState_iota t"
    by (simp add: CanTransitionTo_less [unfolded less_CallState_def])
  show "CallState_iota s \<le> 5" "CallState_IsTerminal s \<longleftrightarrow> CallState_iota s = 5"
    by (cases s; simp add: CallState_IsTerminal_def)+
  show "\<not> CallState_IsTerminal s \<Longrightarrow> \<exists>t. CanTransitionTo s t \<and> CallState_IsTerminal t"
    by (auto simp: CallState_IsTerminal_def CanTransitionTo_cases)
qed

section \<open>Dialogs\<close>

datatype DialogDirection = DirectionInbound | DirectionOutbound

fun DialogDirection_String :: "DialogDirection \<Rightarrow> string" where
  "DialogDirection_String DirectionInbound = ''inbound''"
| "DialogDirection_String DirectionOutbound = ''outbound''"

datatype HoldType = HoldTypeNone | HoldTypeSendOnly | HoldTypeRecvOnly | HoldTypeInactive

record reinvite_options =
  ro_SDP :: string
  ro_Headers :: params
  ro_HoldType :: HoldType

record dialog =
  dlg_CallID :: string
  dlg_LocalTag :: string
  dlg_RemoteTag :: string
  dlg_Direction :: DialogDirection
  dlg_State :: CallState
  dlg_CreatedAt :: time
  dlg_StateChangedAt :: time
  dlg_Session :: bool
  dlg_Transaction :: bool
  dlg_InviteRequest :: "sip_request option"
  dlg_InviteResponse :: "sip_response option"
  dlg_SessionID :: string
  dlg_RemoteAddr :: string
  dlg_RemotePort :: int
  dlg_Codec :: string
  dlg_RemoteContactURI :: string
  dlg_localCSeq :: "32 word"
  dlg_reInviteInProgress :: bool
  dlg_cancelled :: bool
  dlg_TerminateReason :: TerminateReason

datatype dlg_error =
    MissingInvite
  | BadContactURI string
  | ReINVITEInProgress string
  | InvalidTransition CallState CallState
  | NilPointer

definition NewDialog :: "time \<Rightarrow> sip_request \<Rightarrow> dialog" where
  "NewDialog now req =
     \<lparr>dlg_CallID = callid_or_empty (rq_Headers req),
      dlg_LocalTag = '''',
      dlg_RemoteTag = param_or_empty ''tag'' (hdr_From (rq_Headers req)),
      dlg_Direction = DirectionInbound, dlg_State = StateInitial,
      dlg_CreatedAt = now, dlg_StateChangedAt = now,
      dlg_Session = False, dlg_Transaction = True,
      dlg_InviteRequest = Some req, dlg_InviteResponse = None,
      dlg_SessionID = '''', dlg_RemoteAddr = '''', dlg_RemotePort = 0, dlg_Codec = '''', dlg_RemoteContactURI = '''',
      dlg_localCSeq = (case hdr_CSeq (rq_Headers req) of None \<Rightarrow> 0 | Some (n, _) \<Rightarrow> n),
      dlg_reInviteInProgress = False, dlg_cancelled = False, dlg_TerminateReason = ReasonLocalBYE\<rparr>"

definition NewOutboundDialog :: "uri_string \<Rightarrow> time \<Rightarrow> sip_request \<Rightarrow> sip_response \<Rightarrow> dialog" where
  "NewOutboundDialog uriString now invite resp =
     \<lparr>dlg_CallID = callid_or_empty (rq_Headers invite),
      dlg_LocalTag = param_or_empty ''tag'' (hdr_From (rq_Headers invite)),
      dlg_RemoteTag = param_or_empty ''tag'' (hdr_To (rs_Headers resp)),
      dlg_Direction = DirectionOutbound, dlg_State = StateConfirmed,
      dlg_CreatedAt = now, dlg_StateChangedAt = now,
      dlg_Session = False, dlg_Transaction = False,
      dlg_InviteRequest = Some invite, dlg_InviteResponse = Some resp,
      dlg_SessionID = '''', dlg_RemoteAddr = '''', dlg_RemotePort = 0, dlg_Codec = '''',
      dlg_RemoteContactURI = (case hdr_Contact (rs_Headers resp) of None \<Rightarrow> '''' | Some c \<Rightarrow> uriString (na_Address c)),
      dlg_localCSeq = (case hdr_CSeq (rq_Headers invite) of None \<Rightarrow> 1 | Some (n, _) \<Rightarrow> n),
      dlg_reInviteInProgress = False, dlg_cancelled = False, dlg_TerminateReason = ReasonLocalBYE\<rparr>"

definition SetSession :: "dialog \<Rightarrow> dialog" where
  "SetSession d = d\<lparr>dlg_Session := True\<rparr>"

definition SetInviteResponse :: "sip_response \<Rightarrow> dialog \<Rightarrow> dialog" where
  "SetInviteResponse resp d =
     (let d1 = d\<lparr>dlg_InviteResponse := Some resp\<rparr> in
      case hdr_To (rs_Headers resp) of
        None \<Rightarrow> d1
      | Some to \<Rightarrow> (case map_of (na_Params to) ''tag'' of None \<Rightarrow> d1 | Some tag \<Rightarrow> d1\<lparr>dlg_LocalTag := tag\<rparr>))"

definition SetRemoteEndpoint :: "string \<Rightarrow> int \<Rightarrow> dialog \<Rightarrow> dialog" where
  "SetRemoteEndpoint addr port d = d\<lparr>dlg_RemoteAddr := addr, dlg_RemotePort := port\<rparr>"

definition SetMediaEndpoint :: "string \<Rightarrow> int \<Rightarrow> string \<Rightarrow> dialog \<Rightarrow> dialog" where
  "SetMediaEndpoint addr port codec d =
     d\<lparr>dlg_RemoteAddr := addr, dlg_RemotePort := port, dlg_Codec := codec\<rparr>"

definition SetSessionID :: "string \<Rightarrow> dialog \<Rightarrow> dialog" where
  "SetSessionID sessionID d = d\<lparr>dlg_SessionID := sessionID\<rparr>"

definition TransitionTo :: "time \<Rightarrow> CallState \<Rightarrow> dialog \<Rightarrow> dialog \<times> dlg_error option" where
  "TransitionTo now newState d =
     (if \<not> CanTransitionTo (dlg_State d) newState then (d, Some (InvalidTransition (dlg_State d) newState))
      else (d\<lparr>dlg_State := newState, dlg_StateChangedAt := now\<rparr>, None))"

definition Dialog_Cancel :: "dialog \<Rightarrow> dialog" where
  "Dialog_Cancel d = d\<lparr>dlg_cancelled := True\<rparr>"

definition IsTerminated :: "dialog \<Rightarrow> bool" where
  "IsTerminated d \<longleftrightarrow> dlg_State d = StateTerminated"

definition GetMediaEndpoint :: "dialog \<Rightarrow> string \<times> int \<times> string" where
  "GetMediaEndpoint d = (dlg_RemoteAddr d, dlg_RemotePort d, dlg_Codec d)"

section \<open>Requests inside the dialog\<close>

definition zero_uri :: sip_uri where
  "zero_uri = \<lparr>uri_Scheme = '''', uri_User = '''', uri_Host = '''', uri_Port = 0, uri_UriParams = []\<rparr>"

text \<open>
  The Request-URI and the From and To headers of an in-dialog request; \<open>BuildBYE\<close> and
  \<open>BuildReINVITE\<close> contain the same code.
\<close>

definition requestTarget :: "parse_uri \<Rightarrow> dialog \<Rightarrow> sip_request \<Rightarrow> dlg_error + sip_uri" where
  "requestTarget parseUri d invite =
     (case dlg_Direction d of
        DirectionOutbound \<Rightarrow>
          if dlg_RemoteContactURI d \<noteq> '''' then
            (case parseUri (dlg_RemoteContactURI d) of
               None \<Rightarrow> Inl (BadContactURI (dlg_RemoteContactURI d))
             | Some u \<Rightarrow> Inr u)
          else
            (case Option.bind (dlg_InviteResponse d) (\<lambda>r. hdr_Contact (rs_Headers r)) of
               Some c \<Rightarrow> Inr (na_Address c)
             | None \<Rightarrow> (case hdr_To (rq_Headers invite) of Some to \<Rightarrow> Inr (na_Address to) | None \<Rightarrow> Inr zero_uri))
      | DirectionInbound \<Rightarrow>
          (case hdr_Contact (rq_Headers invite) of
             Some c \<Rightarrow> Inr ((na_Address c)\<lparr>uri_UriParams := []\<rparr>)
           | None \<Rightarrow> (case hdr_From (rq_Headers invite) of Some f \<Rightarrow> Inr (na_Address f) | None \<Rightarrow> Inl NilPointer)))"

definition identityHeaders :: "dialog \<Rightarrow> sip_request \<Rightarrow> sip_header list" where
  "identityHeaders d invite =
     (case dlg_Direction d of
        DirectionOutbound \<Rightarrow>
          (case hdr_From (rq_Headers invite) of None \<Rightarrow> [] | Some f \<Rightarrow> [FromHeader f]) @
          (case hdr_To (rq_Headers invite) of
             None \<Rightarrow> []
           | Some t \<Rightarrow> [ToHeader \<lparr>na_DisplayName = na_DisplayName t, na_Address = na_Address t,
                 na_Params = (if dlg_RemoteTag d \<noteq> '''' then gm_set [] ''tag'' (dlg_RemoteTag d) else [])\<rparr>])
      | DirectionInbound \<Rightarrow>
          (case Option.bind (dlg_InviteResponse d) (\<lambda>r. hdr_To (rs_Headers r)) of None \<Rightarrow> [] | Some t \<Rightarrow> [FromHeader t]) @
          (case hdr_From (rq_Headers invite) of None \<Rightarrow> [] | Some f \<Rightarrow> [ToHeader f])) @
     (case hdr_CallID (rq_Headers invite) of None \<Rightarrow> [] | Some c \<Rightarrow> [CallIDHeader c])"

abbreviation bare_addr :: "sip_uri \<Rightarrow> name_addr" where
  "bare_addr u \<equiv> \<lparr>na_DisplayName = '''', na_Address = u, na_Params = []\<rparr>"

definition BuildBYE :: "parse_uri \<Rightarrow> sip_uri \<Rightarrow> dialog \<Rightarrow> dialog \<times> (dlg_error + sip_request)" where
  "BuildBYE parseUri localContact d =
     (case dlg_InviteRequest d of
        None \<Rightarrow> (d, Inl MissingInvite)
      | Some invite \<Rightarrow>
          (case requestTarget parseUri d invite of
             Inl err \<Rightarrow> (d, Inl err)
           | Inr recipient \<Rightarrow>
               let newSeqNo = dlg_localCSeq d + 1 in
               (d\<lparr>dlg_localCSeq := newSeqNo\<rparr>,
                Inr \<lparr>rq_Method = ''BYE'', rq_Recipient = recipient,
                     rq_Headers = hdrs_named ''Route'' (rq_Headers invite) @ identityHeaders d invite @
                       [CSeqHeader newSeqNo ''BYE'', MaxForwardsHeader 70, ContactHeader (bare_addr localContact)],
                     rq_Body = None, rq_Source = ''''\<rparr>)))"

definition BuildReINVITE ::
  "(string, string) range_order \<Rightarrow> parse_uri \<Rightarrow> sip_uri \<Rightarrow> reinvite_options \<Rightarrow> dialog \<Rightarrow>
   dialog \<times> (dlg_error + sip_request)" where
  "BuildReINVITE ord parseUri localContact opts d =
     (case dlg_InviteRequest d of
        None \<Rightarrow> (d, Inl MissingInvite)
      | Some invite \<Rightarrow>
          if dlg_reInviteInProgress d then (d, Inl (ReINVITEInProgress (dlg_CallID d)))
          else
            (case requestTarget parseUri d invite of
               Inl NilPointer \<Rightarrow> (d\<lparr>dlg_reInviteInProgress := True\<rparr>, Inl NilPointer)
             | Inl err \<Rightarrow> (d, Inl err)
             | Inr recipient \<Rightarrow>
                 let newSeqNo = dlg_localCSeq d + 1 in
                 (d\<lparr>dlg_reInviteInProgress := True, dlg_localCSeq := newSeqNo\<rparr>,
                  Inr \<lparr>rq_Method = ''INVITE'', rq_Recipient = recipient,
                       rq_Headers = hdrs_named ''Route'' (rq_Headers invite) @ identityHeaders d invite @
                         [CSeqHeader newSeqNo ''INVITE'', MaxForwardsHeader 70, ContactHeader (bare_addr localContact)] @
                         map (\<lambda>(n, v). GenericHeader n v) (ord (ro_Headers opts)) @
                         (if length (ro_SDP opts) > 0 then [GenericHeader ''Content-Type'' ''application/sdp''] else []),
                       rq_Body = (if length (ro_SDP opts) > 0 then Some (ro_SDP opts) else None), rq_Source = ''''\<rparr>)))"

definition CompleteReINVITE :: "dialog \<Rightarrow> dialog" where
  "CompleteReINVITE d = d\<lparr>dlg_reInviteInProgress := False\<rparr>"

definition IsReINVITEInProgress :: "dialog \<Rightarrow> bool" where
  "IsReINVITEInProgress d = dlg_reInviteInProgress d"

section \<open>The API view\<close>

record dialog_info =
  di_CallID :: string
  di_LocalTag :: string
  di_RemoteTag :: string
  di_DialogID :: string
  di_Direction :: string
  di_LocalURI :: string
  di_RemoteURI :: string
  di_LocalContact :: string
  di_RemoteContact :: string
  di_State :: string
  di_StateChangedAt :: string
  di_LocalCSeq :: "32 word"
  di_RemoteCSeq :: "32 word"
  di_RouteSet :: "string list"
  di_SessionID :: string
  di_RemoteAddr :: string
  di_RemotePort :: int
  di_Codec :: string
  di_CreatedAt :: string
  di_Duration :: int
  di_TerminateReason :: string

text \<open>\<open>format\<close> is \<open>Time.Format\<close>, \<open>uriString\<close> is \<open>Uri.String\<close>.\<close>

definition ToInfo :: "(time \<Rightarrow> string) \<Rightarrow> uri_string \<Rightarrow> time \<Rightarrow> dialog \<Rightarrow> dialog_info" where
  "ToInfo format uriString now d =
     (let reqHs = (case dlg_InviteRequest d of None \<Rightarrow> [] | Some r \<Rightarrow> rq_Headers r);
          respHs = (case dlg_InviteResponse d of None \<Rightarrow> [] | Some r \<Rightarrow> rs_Headers r);
          addr = (\<lambda>na. case na of None \<Rightarrow> '''' | Some a \<Rightarrow> uriString (na_Address a));
          seq = (\<lambda>c. case c of None \<Rightarrow> 0 | Some (n, _) \<Rightarrow> n) in
      \<lparr>di_CallID = dlg_CallID d, di_LocalTag = dlg_LocalTag d, di_RemoteTag = dlg_RemoteTag d,
       di_DialogID = dlg_CallID d @ (if dlg_LocalTag d \<noteq> '''' then '';'' @ dlg_LocalTag d else '''') @
         (if dlg_RemoteTag d \<noteq> '''' then '';'' @ dlg_RemoteTag d else ''''),
       di_Direction = DialogDirection_String (dlg_Direction d),
       di_LocalURI = addr (hdr_To respHs), di_RemoteURI = addr (hdr_From reqHs),
       di_LocalContact = addr (hdr_Contact respHs), di_RemoteContact = addr (hdr_Contact reqHs),
       di_State = CallState_String (dlg_State d), di_StateChangedAt = format (dlg_StateChangedAt d),
       di_LocalCSeq = seq (hdr_CSeq respHs), di_RemoteCSeq = seq (hdr_CSeq reqHs),
       di_RouteSet = map generic_value (hdrs_named ''Record-Route'' reqHs),
       di_SessionID = dlg_SessionID d, di_RemoteAddr = dlg_RemoteAddr d, di_RemotePort = dlg_RemotePort d,
       di_Codec = dlg_Codec d, di_CreatedAt = format (dlg_CreatedAt d),
       di_Duration = f64_to_int (Duration_Seconds (now - dlg_CreatedAt d)),
       di_TerminateReason =
         (if dlg_State d \<noteq> StateTerminated then '''' else TerminateReason_String (dlg_TerminateReason d))\<rparr>)"

section \<open>Properties of one dialog\<close>

text \<open>
  The dialog lifecycle never loops: a sequence of transitions the table allows visits
  each state at most once and has at most five steps, nothing follows \<open>Terminated\<close>, and from
  any other state \<open>Terminated\<close> is one transition away.
\<close>

theorem dialog_lifecycle:
  "(call.run s ts \<longrightarrow> distinct (s # ts) \<and> length ts \<le> 5) \<and>
   \<not> CanTransitionTo StateTerminated t \<and>
   (s \<noteq> StateTerminated \<longrightarrow> CanTransitionTo s StateTerminated)"
  using call.run_distinct [of s ts] call.run_rank [of s ts] call.terminal_stuck [of StateTerminated t]
  by (auto simp: CanTransitionTo_cases CallState_IsTerminal_def)

theorem dialog_lifecycle_witness:
  "distinct [StateInitial, StateEarly, StateWaitingACK, StateConfirmed, StateTerminated] \<and>
   call.run StateInitial [StateEarly, StateWaitingACK, StateConfirmed, StateTerminated]"
proof -
  have "call.run StateInitial [StateEarly, StateWaitingACK, StateConfirmed, StateTerminated]"
    by (simp add: CanTransitionTo_def)
  then show ?thesis using dialog_lifecycle by blast
qed

text \<open>Where a dialog's identifiers come from.\<close>

definition dlg_ids :: "dialog \<Rightarrow> bool" where
  "dlg_ids d \<longleftrightarrow>
     (case dlg_InviteRequest d of
        None \<Rightarrow> False
      | Some invite \<Rightarrow>
          dlg_CallID d = callid_or_empty (rq_Headers invite) \<and>
          (case dlg_Direction d of
             DirectionOutbound \<Rightarrow>
               dlg_LocalTag d = param_or_empty ''tag'' (hdr_From (rq_Headers invite)) \<and>
               (\<forall>r. dlg_InviteResponse d = Some r \<longrightarrow> dlg_RemoteTag d = param_or_empty ''tag'' (hdr_To (rs_Headers r)))
           | DirectionInbound \<Rightarrow>
               dlg_RemoteTag d = param_or_empty ''tag'' (hdr_From (rq_Headers invite)) \<and>
               (\<forall>r. dlg_InviteResponse d = Some r \<and> param_or_empty ''tag'' (hdr_To (rs_Headers r)) \<noteq> '''' \<longrightarrow>
                  dlg_LocalTag d = param_or_empty ''tag'' (hdr_To (rs_Headers r)))))"

lemma dlg_ids_new [simp, inv_intros]:
  "dlg_ids (NewDialog now req)" "dlg_ids (NewOutboundDialog uriString now req resp)"
  by (simp_all add: dlg_ids_def NewDialog_def NewOutboundDialog_def)

lemma dlg_ids_SetInviteResponse [simp, inv_intros]:
  "dlg_ids d \<Longrightarrow> dlg_Direction d = DirectionInbound \<Longrightarrow> dlg_ids (SetInviteResponse resp d)"
  by (auto simp: dlg_ids_def SetInviteResponse_def param_or_empty_def Let_def split: option.splits)

lemma dlg_ids_frame [simp]:
  "dlg_ids (d\<lparr>dlg_State := x1\<rparr>) = dlg_ids d" "dlg_ids (d\<lparr>dlg_StateChangedAt := x2\<rparr>) = dlg_ids d"
  "dlg_ids (d\<lparr>dlg_Session := x3\<rparr>) = dlg_ids d" "dlg_ids (d\<lparr>dlg_SessionID := x4\<rparr>) = dlg_ids d"
  "dlg_ids (d\<lparr>dlg_RemoteAddr := x5\<rparr>) = dlg_ids d" "dlg_ids (d\<lparr>dlg_RemotePort := x6\<rparr>) = dlg_ids d"
  "dlg_ids (d\<lparr>dlg_Codec := x7\<rparr>) = dlg_ids d" "dlg_ids (d\<lparr>dlg_localCSeq := x8\<rparr>) = dlg_ids d"
  "dlg_ids (d\<lparr>dlg_reInviteInProgress := x9\<rparr>) = dlg_ids d" "dlg_ids (d\<lparr>dlg_cancelled := x10\<rparr>) = dlg_ids d"
  "dlg_ids (d\<lparr>dlg_TerminateReason := x11\<rparr>) = dlg_ids d"
  by (simp_all add: dlg_ids_def cong: option.case_cong DialogDirection.case_cong)

text \<open>What an in-dialog request must carry (RFC 3261, 12.2.1.1), where the INVITE exchange supplied it.\<close>

definition in_dialog :: "dialog \<Rightarrow> string \<Rightarrow> sip_request \<Rightarrow> bool" where
  "in_dialog d method req \<longleftrightarrow>
     rq_Method req = method \<and>
     callid_or_empty (rq_Headers req) = dlg_CallID d \<and>
     hdr_CSeq (rq_Headers req) = Some (dlg_localCSeq d + 1, method) \<and>
     (case (dlg_Direction d, dlg_InviteRequest d) of
        (DirectionOutbound, Some invite) \<Rightarrow>
          hdr_From (rq_Headers req) = hdr_From (rq_Headers invite) \<and>
          param_or_empty ''tag'' (hdr_From (rq_Headers req)) = dlg_LocalTag d \<and>
          (hdr_To (rq_Headers invite) \<noteq> None \<longrightarrow> param_or_empty ''tag'' (hdr_To (rq_Headers req)) = dlg_RemoteTag d)
      | (DirectionInbound, Some invite) \<Rightarrow>
          param_or_empty ''tag'' (hdr_To (rq_Headers req)) = dlg_RemoteTag d \<and>
          (\<forall>r. dlg_InviteResponse d = Some r \<and> param_or_empty ''tag'' (hdr_To (rs_Headers r)) \<noteq> '''' \<longrightarrow>
             param_or_empty ''tag'' (hdr_From (rq_Headers req)) = dlg_LocalTag d)
      | _ \<Rightarrow> False)"

lemma built_request_in_dialog:
  assumes "dlg_ids d" and "dlg_InviteRequest d = Some invite"
    and "rq_Method req = method"
    and "rq_Headers req = hdrs_named ''Route'' (rq_Headers invite) @ identityHeaders d invite @
        CSeqHeader (dlg_localCSeq d + 1) method # MaxForwardsHeader 70 # ContactHeader c # map (\<lambda>(n, v). GenericHeader n v) g"
  shows "in_dialog d method req"
proof -
  have tail: "hdr_From (map (\<lambda>(n, v). GenericHeader n v) g) = None"
    "hdr_To (map (\<lambda>(n, v). GenericHeader n v) g) = None" "hdr_CallID (map (\<lambda>(n, v). GenericHeader n v) g) = None"
    by (induction g) auto
  show ?thesis
    using assms
    by (cases "dlg_Direction d"; cases "hdr_From (rq_Headers invite)"; cases "hdr_To (rq_Headers invite)";
        cases "hdr_CallID (rq_Headers invite)"; cases "dlg_InviteResponse d")
      (auto simp: in_dialog_def identityHeaders_def dlg_ids_def callid_or_empty_def param_or_empty_def tail gm_set_def
        split: option.splits)
qed

lemma BuildBYE_Inr:
  assumes "BuildBYE parseUri contact d = (d', Inr req)"
  shows "d' = d\<lparr>dlg_localCSeq := dlg_localCSeq d + 1\<rparr>" and "dlg_ids d \<Longrightarrow> in_dialog d ''BYE'' req"
proof -
  from assms obtain invite u where i: "dlg_InviteRequest d = Some invite" "requestTarget parseUri d invite = Inr u"
    by (auto simp: BuildBYE_def split: option.splits sum.splits)
  show "d' = d\<lparr>dlg_localCSeq := dlg_localCSeq d + 1\<rparr>" using assms i by (simp add: BuildBYE_def Let_def)
  show "in_dialog d ''BYE'' req" if "dlg_ids d"
    using assms i by (intro built_request_in_dialog [OF that i(1), of _ _ "bare_addr contact" "[]"]) (auto simp: BuildBYE_def Let_def)
qed

lemma BuildReINVITE_Inr:
  assumes "BuildReINVITE ord parseUri contact opts d = (d', Inr req)"
  shows "d' = d\<lparr>dlg_reInviteInProgress := True, dlg_localCSeq := dlg_localCSeq d + 1\<rparr>"
    and "\<not> dlg_reInviteInProgress d" and "dlg_ids d \<Longrightarrow> in_dialog d ''INVITE'' req"
proof -
  from assms obtain invite u where i: "dlg_InviteRequest d = Some invite" "requestTarget parseUri d invite = Inr u"
    and p: "\<not> dlg_reInviteInProgress d"
    by (auto simp: BuildReINVITE_def split: option.splits sum.splits if_splits dlg_error.splits)
  show "d' = d\<lparr>dlg_reInviteInProgress := True, dlg_localCSeq := dlg_localCSeq d + 1\<rparr>" "\<not> dlg_reInviteInProgress d"
    using assms i p by (auto simp: BuildReINVITE_def Let_def)
  show "in_dialog d ''INVITE'' req" if "dlg_ids d"
    using assms i p
    by (intro built_request_in_dialog [OF that i(1), of _ _ "bare_addr contact" "ord (ro_Headers opts) @
        (if length (ro_SDP opts) > 0 then [(''Content-Type'', ''application/sdp'')] else [])"])
      (auto simp: BuildReINVITE_def Let_def)
qed

text \<open>
  A BYE or re-INVITE built for a dialog is inside that dialog: it carries its Call-ID,
  the next CSeq number, and the From and To tags of the right parties, which for a call we
  received are those of the INVITE exchange swapped.
\<close>

theorem built_requests_in_dialog:
  assumes "dlg_ids d"
  shows "(BuildBYE parseUri contact d = (d1, Inr bye) \<longrightarrow>
      in_dialog d ''BYE'' bye \<and> dlg_localCSeq d1 = dlg_localCSeq d + 1) \<and>
    (BuildReINVITE ord parseUri contact opts d = (d2, Inr reinvite) \<longrightarrow>
      in_dialog d ''INVITE'' reinvite \<and> dlg_localCSeq d2 = dlg_localCSeq d + 1)"
  using BuildBYE_Inr BuildReINVITE_Inr(1,3) assms by fastforce

definition ex_uri :: "string \<Rightarrow> sip_uri" where
  "ex_uri user = \<lparr>uri_Scheme = ''sip'', uri_User = user, uri_Host = ''pbx'', uri_Port = 5060, uri_UriParams = []\<rparr>"

definition ex_addr :: "string \<Rightarrow> string \<Rightarrow> name_addr" where
  "ex_addr user tag = \<lparr>na_DisplayName = '''', na_Address = ex_uri user, na_Params = [(''tag'', tag)]\<rparr>"

definition ex_invite :: sip_request where
  "ex_invite = \<lparr>rq_Method = ''INVITE'', rq_Recipient = ex_uri ''200'',
     rq_Headers = [FromHeader (ex_addr ''100'' ''ta''), ToHeader (bare_addr (ex_uri ''200'')),
       CallIDHeader ''call1'', CSeqHeader 7 ''INVITE''], rq_Body = None, rq_Source = ''10.0.0.9:5060''\<rparr>"

definition ex_ok :: sip_response where
  "ex_ok = \<lparr>rs_StatusCode = 200, rs_Reason = ''OK'', rs_Headers = [ToHeader (ex_addr ''200'' ''tb'')], rs_Body = None, rs_Source = ''''\<rparr>"

theorem built_requests_in_dialog_witness:
  "\<exists>d bye. BuildBYE (\<lambda>_. None) (ex_uri ''sb'') (SetInviteResponse ex_ok (NewDialog 0 ex_invite)) = (d, Inr bye) \<and>
     in_dialog (SetInviteResponse ex_ok (NewDialog 0 ex_invite)) ''BYE'' bye"
proof -
  have "dlg_ids (SetInviteResponse ex_ok (NewDialog 0 ex_invite))" by (simp add: NewDialog_def dlg_ids_def SetInviteResponse_def
      ex_ok_def ex_invite_def ex_addr_def param_or_empty_def callid_or_empty_def Let_def)
  note ids = built_requests_in_dialog [OF this]
  obtain d bye where "BuildBYE (\<lambda>_. None) (ex_uri ''sb'') (SetInviteResponse ex_ok (NewDialog 0 ex_invite)) = (d, Inr bye)"
    by (auto simp: BuildBYE_def requestTarget_def SetInviteResponse_def NewDialog_def ex_ok_def ex_invite_def ex_addr_def Let_def)
  with ids show ?thesis by blast
qed

text \<open>
  A sequence of in-dialog requests, each a BYE or a re-INVITE that completes before the next
  one; \<open>issued\<close> collects the CSeq numbers that go out.
\<close>

datatype in_dialog_op = OpBYE | OpReINVITE reinvite_options

definition cseq_list :: "sip_request \<Rightarrow> (32 word) list" where
  "cseq_list req = (case hdr_CSeq (rq_Headers req) of None \<Rightarrow> [] | Some (n, _) \<Rightarrow> [n])"

fun issued :: "(string, string) range_order \<Rightarrow> parse_uri \<Rightarrow> sip_uri \<Rightarrow> dialog \<Rightarrow> in_dialog_op list \<Rightarrow> (32 word) list" where
  "issued ord parseUri contact d [] = []"
| "issued ord parseUri contact d (OpBYE # ops) =
     (case BuildBYE parseUri contact d of
        (d', Inl _) \<Rightarrow> issued ord parseUri contact d' ops
      | (d', Inr req) \<Rightarrow> cseq_list req @ issued ord parseUri contact d' ops)"
| "issued ord parseUri contact d (OpReINVITE opts # ops) =
     (case BuildReINVITE ord parseUri contact opts d of
        (d', Inl _) \<Rightarrow> issued ord parseUri contact d' ops
      | (d', Inr req) \<Rightarrow> cseq_list req @ issued ord parseUri contact (CompleteReINVITE d') ops)"

lemma BuildBYE_Inl: "BuildBYE parseUri contact d = (d', Inl e) \<Longrightarrow> d' = d"
  by (auto simp: BuildBYE_def Let_def split: option.splits sum.splits)

lemma BuildReINVITE_Inl:
  "BuildReINVITE ord parseUri contact opts d = (d', Inl e) \<Longrightarrow>
     dlg_localCSeq d' = dlg_localCSeq d \<and> dlg_ids d' = dlg_ids d \<and> (e \<noteq> NilPointer \<longrightarrow> d' = d)"
  by (auto simp: BuildReINVITE_def Let_def split: option.splits sum.splits if_splits dlg_error.splits)

lemma in_dialog_cseq: "in_dialog d m req \<Longrightarrow> cseq_list req = [dlg_localCSeq d + 1]"
  by (simp add: in_dialog_def cseq_list_def)

definition consecutive :: "32 word \<Rightarrow> nat \<Rightarrow> (32 word) list \<Rightarrow> bool" where
  "consecutive c n xs \<longleftrightarrow> (\<exists>k \<le> n. xs = map (\<lambda>j. c + of_nat j) [1..<Suc k])"

lemma consecutive_skip: "consecutive c n xs \<Longrightarrow> consecutive c (Suc n) xs"
  unfolding consecutive_def using le_SucI by blast

lemma consecutive_Cons:
  assumes "consecutive (c + 1) n xs"
  shows "consecutive c (Suc n) ((c + 1) # xs)"
proof -
  obtain k where k: "k \<le> n" "xs = map (\<lambda>j. c + 1 + of_nat j) [1..<Suc k]"
    using assms by (auto simp: consecutive_def)
  have "map (\<lambda>j. c + 1 + of_nat j) [1..<Suc k] = map (\<lambda>j. c + of_nat j) (map Suc [1..<Suc k])"
    by (simp add: comp_def algebra_simps del: upt_Suc)
  also have "\<dots> = map (\<lambda>j. c + of_nat j) [Suc 1..<Suc (Suc k)]" by (simp only: map_Suc_upt)
  finally have "(c + 1) # xs = map (\<lambda>j. c + of_nat j) [1..<Suc (Suc k)]"
    using k(2) by (simp add: upt_conv_Cons del: upt_Suc)
  moreover have "Suc k \<le> Suc n" using k(1) by simp
  ultimately show ?thesis unfolding consecutive_def by (intro exI conjI)
qed

lemma issued_consecutive:
  "dlg_ids d \<Longrightarrow> consecutive (dlg_localCSeq d) (length ops) (issued ord parseUri contact d ops)"
proof (induction ops arbitrary: d)
  case Nil
  then show ?case by (simp add: consecutive_def)
next
  case (Cons op ops)
  show ?case
  proof (cases op)
    case OpBYE
    obtain d' r where eq: "BuildBYE parseUri contact d = (d', r)" by fastforce
    show ?thesis
    proof (cases r)
      case (Inl e)
      then have "d' = d" using eq BuildBYE_Inl by simp
      then show ?thesis using OpBYE eq Inl Cons by (simp add: consecutive_skip)
    next
      case (Inr req)
      note b = BuildBYE_Inr [OF eq [unfolded Inr]]
      show ?thesis
        using OpBYE eq Inr in_dialog_cseq [OF b(2) [OF Cons.prems]] Cons.IH [of d'] Cons.prems b(1)
        by (simp add: consecutive_Cons)
    qed
  next
    case (OpReINVITE opts)
    obtain d' r where eq: "BuildReINVITE ord parseUri contact opts d = (d', r)" by fastforce
    show ?thesis
    proof (cases r)
      case (Inl e)
      then show ?thesis
        using OpReINVITE eq BuildReINVITE_Inl [of ord parseUri contact opts d d' e] Cons.IH [of d'] Cons.prems
        by (simp add: consecutive_skip)
    next
      case (Inr req)
      note b = BuildReINVITE_Inr [OF eq [unfolded Inr]]
      show ?thesis
        using OpReINVITE eq Inr in_dialog_cseq [OF b(3) [OF Cons.prems]] Cons.IH [of "CompleteReINVITE d'"] Cons.prems b(1)
        by (simp add: consecutive_Cons CompleteReINVITE_def)
    qed
  qed
qed

text \<open>
  No CSeq number is used twice in a dialog: however BYEs and re-INVITEs are mixed, and
  whichever of them fail, fewer than 2 to the 32 of them send consecutive, distinct numbers.
\<close>

theorem cseq_never_reused:
  assumes "dlg_ids d" and "length ops < 2 ^ 32"
  shows "distinct (issued ord parseUri contact d ops)"
proof -
  obtain k where k: "k \<le> length ops"
    "issued ord parseUri contact d ops = map (\<lambda>j. dlg_localCSeq d + of_nat j) [1..<Suc k]"
    using issued_consecutive [OF assms(1)] unfolding consecutive_def by blast
  have "inj_on (\<lambda>j. dlg_localCSeq d + of_nat j) (set [1..<Suc k])"
  proof (rule inj_onI)
    fix i j assume "i \<in> set [1..<Suc k]" "j \<in> set [1..<Suc k]"
      and eq: "dlg_localCSeq d + of_nat i = dlg_localCSeq d + of_nat j"
    then have "i < 2 ^ 32" "j < 2 ^ 32" using k(1) assms(2) by auto
    moreover have "(of_nat i :: 32 word) = of_nat j" using eq by simp
    ultimately show "i = j" by (simp add: word_of_nat_eq_iff take_bit_nat_eq_self)
  qed
  then show ?thesis unfolding k(2) by (simp add: distinct_map)
qed

theorem cseq_never_reused_witness:
  "distinct (issued id (\<lambda>_. None) (ex_uri ''sb'') (NewDialog 0 ex_invite) [OpBYE, OpBYE]) \<and>
   issued id (\<lambda>_. None) (ex_uri ''sb'') (NewDialog 0 ex_invite) [OpBYE, OpBYE] = [8, 9]"
  using cseq_never_reused [of "NewDialog 0 ex_invite" "[OpBYE, OpBYE]" id "\<lambda>_. None" "ex_uri ''sb''"]
  by (simp add: BuildBYE_def requestTarget_def NewDialog_def ex_invite_def Let_def cseq_list_def identityHeaders_def
      hdrs_named_def callid_or_empty_def param_or_empty_def ex_addr_def)

end
