(* ===== verification/B2b_Leg.thy ===== *)
theory B2b_Leg
  imports Dialog
begin

text \<open>
  \<open>internal/signaling/b2bua/state.go\<close> and \<open>leg.go\<close>: one side of a call.

  A leg is the record \<open>leg\<close>. A zero \<open>time.Time\<close> is \<open>None\<close>. \<open>leg_done\<close> says whether the
  \<open>done\<close> channel is closed. The pointer to the SIP dialog is an index into the heap of the
  dialog manager. Callbacks are closures in Go; those the program registers are the
  constructors of \<open>term_callback\<close> and \<open>teardown_handler\<close>, and what they do is modelled where
  they are defined (\<open>B2b_Call\<close>). No code of the program registers a state-change callback;
  calls of registered ones are logged in \<open>leg_stateLog\<close>.

  The operations that only touch the leg are here; \<open>Hangup\<close> runs the callbacks and is in
  \<open>B2b_Call\<close>.
\<close>

section \<open>States and causes\<close>

datatype LegState =
    LegStateCreated
  | LegStateRinging
  | LegStateEarlyMedia
  | LegStateAnswered
  | LegStateFailed
  | LegStateDestroyed

fun LegState_String :: "LegState \<Rightarrow> string" where
  "LegState_String LegStateCreated = ''Created''"
| "LegState_String LegStateRinging = ''Ringing''"
| "LegState_String LegStateEarlyMedia = ''EarlyMedia''"
| "LegState_String LegStateAnswered = ''Answered''"
| "LegState_String LegStateFailed = ''Failed''"
| "LegState_String LegStateDestroyed = ''Destroyed''"

fun LegState_IsTerminal :: "LegState \<Rightarrow> bool" where
  "LegState_IsTerminal s = (s = LegStateFailed \<or> s = LegStateDestroyed)"

text \<open>The values of \<open>iota\<close>; Go compares states as integers.\<close>

fun LegState_iota :: "LegState \<Rightarrow> nat" where
  "LegState_iota LegStateCreated = 0"
| "LegState_iota LegStateRinging = 1"
| "LegState_iota LegStateEarlyMedia = 2"
| "LegState_iota LegStateAnswered = 3"
| "LegState_iota LegStateFailed = 4"
| "LegState_iota LegStateDestroyed = 5"

lemma LegState_iota_inject: "LegState_iota a = LegState_iota b \<Longrightarrow> a = b"
  by (cases a; cases b) auto

instantiation LegState :: linorder
begin

definition less_eq_LegState :: "LegState \<Rightarrow> LegState \<Rightarrow> bool" where
  "less_eq_LegState a b \<longleftrightarrow> LegState_iota a \<le> LegState_iota b"

definition less_LegState :: "LegState \<Rightarrow> LegState \<Rightarrow> bool" where
  "less_LegState a b \<longleftrightarrow> LegState_iota a < LegState_iota b"

instance
  by standard (auto simp: less_eq_LegState_def less_LegState_def intro: LegState_iota_inject)

end

datatype LegDirection = LegDirectionInbound | LegDirectionOutbound

fun LegDirection_String :: "LegDirection \<Rightarrow> string" where
  "LegDirection_String LegDirectionInbound = ''Inbound''"
| "LegDirection_String LegDirectionOutbound = ''Outbound''"

datatype BridgeState =
    BridgeStateCreated
  | BridgeStatePartial
  | BridgeStateActive
  | BridgeStateHeld
  | BridgeStateTerminating
  | BridgeStateTerminated

fun BridgeState_String :: "BridgeState \<Rightarrow> string" where
  "BridgeState_String BridgeStateCreated = ''Created''"
| "BridgeState_String BridgeStatePartial = ''Partial''"
| "BridgeState_String BridgeStateActive = ''Active''"
| "BridgeState_String BridgeStateHeld = ''Held''"
| "BridgeState_String BridgeStateTerminating = ''Terminating''"
| "BridgeState_String BridgeStateTerminated = ''Terminated''"

fun BridgeState_IsTerminal :: "BridgeState \<Rightarrow> bool" where
  "BridgeState_IsTerminal s = (s = BridgeStateTerminated)"

datatype TerminationCause =
    TerminationCauseNone
  | TerminationCauseNormal
  | TerminationCauseCancel
  | TerminationCauseRejected
  | TerminationCauseTimeout
  | TerminationCauseError
  | TerminationCauseBridgePeer
  | TerminationCauseTransfer
  | TerminationCauseRemoteBYE

fun TerminationCause_String :: "TerminationCause \<Rightarrow> string" where
  "TerminationCause_String TerminationCauseNone = ''None''"
| "TerminationCause_String TerminationCauseNormal = ''Normal''"
| "TerminationCause_String TerminationCauseCancel = ''Cancel''"
| "TerminationCause_String TerminationCauseRejected = ''Rejected''"
| "TerminationCause_String TerminationCauseTimeout = ''Timeout''"
| "TerminationCause_String TerminationCauseError = ''Error''"
| "TerminationCause_String TerminationCauseBridgePeer = ''BridgePeer''"
| "TerminationCause_String TerminationCauseTransfer = ''Transfer''"
| "TerminationCause_String TerminationCauseRemoteBYE = ''RemoteBYE''"

section \<open>The leg\<close>

text \<open>
  \<open>BridgeCallback b name\<close> is the closure \<open>NewBridge\<close> registers, \<open>OriginatorCleanup b a\<close> the one
  of \<open>Originate\<close> (with the Call-IDs it captures); \<open>OriginatorTeardown\<close> is the teardown handler
  \<open>Originate\<close> sets, \<open>SessionTeardown\<close> the one of the dialplan's \<open>Dial\<close>.
\<close>

datatype term_callback = BridgeCallback nat string | OriginatorCleanup string string

datatype teardown_handler = OriginatorTeardown | SessionTeardown string nat

record leg =
  leg_id :: string
  leg_callID :: string
  leg_direction :: LegDirection
  leg_localURI :: string
  leg_remoteURI :: string
  leg_fromURI :: string
  leg_toURI :: string
  leg_state :: LegState
  leg_terminationCause :: TerminationCause
  leg_dialog :: "nat option"
  leg_sessionID :: string
  leg_localRTPAddr :: string
  leg_localRTPPort :: int
  leg_remoteRTPAddr :: string
  leg_remoteRTPPort :: int
  leg_negotiatedCodec :: string
  leg_createdAt :: time
  leg_ringingAt :: "time option"
  leg_answeredAt :: "time option"
  leg_terminatedAt :: "time option"
  leg_sipCode :: int
  leg_sipReason :: string
  leg_remoteContactURI :: string
  leg_remoteToURI :: string
  leg_localFromURI :: string
  leg_remoteTag :: string
  leg_localTag :: string
  leg_done :: bool
  leg_stateCallbacks :: "(64 word, unit) gomap"
  leg_stateLog :: "(64 word \<times> LegState \<times> LegState) list"
  leg_terminatedCallbacks :: "(64 word, term_callback) gomap"
  leg_callbackIDCounter :: "64 word"
  leg_onTeardown :: "teardown_handler option"

datatype leg_error =
    ErrInvalidState
  | ErrLegTerminated
  | StateTransitionError string LegState LegState string
  | CtxErr

section \<open>Creation\<close>

text \<open>The addresses of the INVITE, as \<open>NewInboundLeg\<close> and \<open>SetDialog\<close> copy them.\<close>

definition copyAddresses :: "uri_string \<Rightarrow> dialog \<Rightarrow> leg \<Rightarrow> leg" where
  "copyAddresses uriString dlg l =
     (case dlg_InviteRequest dlg of
        None \<Rightarrow> l
      | Some req \<Rightarrow>
          let l1 = (case hdr_From (rq_Headers req) of None \<Rightarrow> l | Some from \<Rightarrow> l\<lparr>leg_fromURI := uriString (na_Address from)\<rparr>);
              l2 = (case hdr_To (rq_Headers req) of None \<Rightarrow> l1 | Some to \<Rightarrow> l1\<lparr>leg_toURI := uriString (na_Address to)\<rparr>) in
          (case hdr_Contact (rq_Headers req) of None \<Rightarrow> l2 | Some c \<Rightarrow> l2\<lparr>leg_remoteURI := uriString (na_Address c)\<rparr>))"

definition zero_leg :: leg where
  "zero_leg =
     \<lparr>leg_id = '''', leg_callID = '''', leg_direction = LegDirectionInbound, leg_localURI = '''', leg_remoteURI = '''',
      leg_fromURI = '''', leg_toURI = '''', leg_state = LegStateCreated, leg_terminationCause = TerminationCauseNone,
      leg_dialog = None, leg_sessionID = '''', leg_localRTPAddr = '''', leg_localRTPPort = 0, leg_remoteRTPAddr = '''',
      leg_remoteRTPPort = 0, leg_negotiatedCodec = '''', leg_createdAt = 0, leg_ringingAt = None, leg_answeredAt = None,
      leg_terminatedAt = None, leg_sipCode = 0, leg_sipReason = '''', leg_remoteContactURI = '''', leg_remoteToURI = '''',
      leg_localFromURI = '''', leg_remoteTag = '''', leg_localTag = '''', leg_done = False, leg_stateCallbacks = [],
      leg_stateLog = [], leg_terminatedCallbacks = [], leg_callbackIDCounter = 0, leg_onTeardown = None\<rparr>"

definition NewInboundLeg ::
  "uri_string \<Rightarrow> string \<Rightarrow> time \<Rightarrow> (nat \<times> dialog) option \<Rightarrow> string \<Rightarrow> teardown_handler option \<Rightarrow> leg_error + leg" where
  "NewInboundLeg uriString uuid now dlgp sessionID onTeardown =
     (case dlgp of
        None \<Rightarrow> Inl ErrInvalidState
      | Some (r, dlg) \<Rightarrow>
          let answered = (dlg_State dlg = StateWaitingACK \<or> dlg_State dlg = StateConfirmed);
              l = zero_leg\<lparr>leg_id := ''leg-'' @ uuid, leg_callID := dlg_CallID dlg, leg_direction := LegDirectionInbound,
                    leg_state := (if answered then LegStateAnswered else LegStateRinging), leg_dialog := Some r,
                    leg_sessionID := sessionID, leg_createdAt := now, leg_ringingAt := Some now,
                    leg_answeredAt := (if answered then Some now else None), leg_onTeardown := onTeardown\<rparr>;
              l1 = copyAddresses uriString dlg l in
          (case GetMediaEndpoint dlg of (addr, port, codec) \<Rightarrow>
             Inr (if addr \<noteq> '''' then l1\<lparr>leg_remoteRTPAddr := addr, leg_remoteRTPPort := port, leg_negotiatedCodec := codec\<rparr>
                  else l1)))"

definition NewOutboundLeg :: "string \<Rightarrow> time \<Rightarrow> string \<Rightarrow> string \<Rightarrow> teardown_handler option \<Rightarrow> leg" where
  "NewOutboundLeg uuid now callID targetURI onTeardown =
     zero_leg\<lparr>leg_id := ''leg-'' @ uuid, leg_callID := callID, leg_direction := LegDirectionOutbound,
       leg_state := LegStateCreated, leg_toURI := targetURI, leg_createdAt := now, leg_onTeardown := onTeardown\<rparr>"

section \<open>Operations on the leg alone\<close>

definition notifyStateChange :: "LegState \<Rightarrow> LegState \<Rightarrow> leg \<Rightarrow> leg" where
  "notifyStateChange old new l =
     l\<lparr>leg_stateLog := leg_stateLog l @ map (\<lambda>e. (fst e, old, new)) (leg_stateCallbacks l)\<rparr>"

definition Leg_TransitionTo :: "time \<Rightarrow> LegState \<Rightarrow> leg \<Rightarrow> leg" where
  "Leg_TransitionTo now newState l =
     (let oldState = leg_state l;
          l1 = l\<lparr>leg_state := newState\<rparr>;
          l2 = (if newState = LegStateRinging \<or> newState = LegStateEarlyMedia
                then (if leg_ringingAt l1 = None then l1\<lparr>leg_ringingAt := Some now\<rparr> else l1)
                else if newState = LegStateAnswered then l1\<lparr>leg_answeredAt := Some now\<rparr>
                else if newState = LegStateFailed \<or> newState = LegStateDestroyed then l1\<lparr>leg_terminatedAt := Some now\<rparr>
                else l1) in
      notifyStateChange oldState newState l2)"

definition Answer :: "time \<Rightarrow> leg \<Rightarrow> leg \<times> leg_error option" where
  "Answer now l =
     (if leg_direction l \<noteq> LegDirectionInbound
      then (l, Some (StateTransitionError (leg_id l) (leg_state l) LegStateAnswered ''only inbound legs can be answered''))
      else if leg_state l \<noteq> LegStateRinging \<and> leg_state l \<noteq> LegStateEarlyMedia
      then (l, Some (StateTransitionError (leg_id l) (leg_state l) LegStateAnswered ''''))
      else
        let oldState = leg_state l;
            l1 = l\<lparr>leg_state := LegStateAnswered, leg_answeredAt := Some now\<rparr> in
        (notifyStateChange oldState LegStateAnswered l1, None))"

text \<open>The unregister function \<open>OnStateChange\<close> returns deletes the identifier.\<close>

definition OnStateChange :: "leg \<Rightarrow> leg \<times> 64 word" where
  "OnStateChange l =
     (let i = leg_callbackIDCounter l + 1 in
      (l\<lparr>leg_callbackIDCounter := i, leg_stateCallbacks := gm_set (leg_stateCallbacks l) i ()\<rparr>, i))"

definition unregisterStateChange :: "64 word \<Rightarrow> leg \<Rightarrow> leg" where
  "unregisterStateChange i l = l\<lparr>leg_stateCallbacks := gm_del (leg_stateCallbacks l) i\<rparr>"

definition Leg_OnTerminated :: "term_callback \<Rightarrow> leg \<Rightarrow> leg" where
  "Leg_OnTerminated fn l =
     (let i = leg_callbackIDCounter l + 1 in
      l\<lparr>leg_callbackIDCounter := i, leg_terminatedCallbacks := gm_set (leg_terminatedCallbacks l) i fn\<rparr>)"

definition SetDialog :: "uri_string \<Rightarrow> (nat \<times> dialog) option \<Rightarrow> leg \<Rightarrow> leg" where
  "SetDialog uriString dlgp l =
     (case dlgp of
        None \<Rightarrow> l\<lparr>leg_dialog := None\<rparr>
      | Some (r, dlg) \<Rightarrow> copyAddresses uriString dlg (l\<lparr>leg_dialog := Some r, leg_callID := dlg_CallID dlg\<rparr>))"

definition Leg_SetSessionID :: "string \<Rightarrow> leg \<Rightarrow> leg" where
  "Leg_SetSessionID sessionID l = l\<lparr>leg_sessionID := sessionID\<rparr>"

definition Leg_SetMediaEndpoint :: "string \<Rightarrow> int \<Rightarrow> string \<Rightarrow> leg \<Rightarrow> leg" where
  "Leg_SetMediaEndpoint addr port codec l =
     l\<lparr>leg_localRTPAddr := addr, leg_localRTPPort := port, leg_negotiatedCodec := codec\<rparr>"

definition SetRemoteMediaEndpoint :: "string \<Rightarrow> int \<Rightarrow> leg \<Rightarrow> leg" where
  "SetRemoteMediaEndpoint addr port l = l\<lparr>leg_remoteRTPAddr := addr, leg_remoteRTPPort := port\<rparr>"

definition SetSIPResponse :: "int \<Rightarrow> string \<Rightarrow> leg \<Rightarrow> leg" where
  "SetSIPResponse code reason l = l\<lparr>leg_sipCode := code, leg_sipReason := reason\<rparr>"

definition SetTerminationCause :: "TerminationCause \<Rightarrow> leg \<Rightarrow> leg" where
  "SetTerminationCause cause l = l\<lparr>leg_terminationCause := cause\<rparr>"

definition SetOutboundDialogState :: "string \<Rightarrow> string \<Rightarrow> string \<Rightarrow> string \<Rightarrow> string \<Rightarrow> leg \<Rightarrow> leg" where
  "SetOutboundDialogState remoteContactURI remoteToURI localFromURI remoteTag localTag l =
     l\<lparr>leg_remoteContactURI := remoteContactURI, leg_remoteToURI := remoteToURI, leg_localFromURI := localFromURI,
       leg_remoteTag := remoteTag, leg_localTag := localTag\<rparr>"

definition SetTeardownHandler :: "teardown_handler option \<Rightarrow> leg \<Rightarrow> leg" where
  "SetTeardownHandler fn l = l\<lparr>leg_onTeardown := fn\<rparr>"

text \<open>
  \<open>WaitForState\<close>: each element is one pass of the loop, the state it reads and which case of its
  \<open>select\<close> then fires. \<open>None\<close> is \<open>still waiting\<close>.
\<close>

datatype wait_event = WaitCtxDone | WaitLegDone | WaitStateChanged

fun WaitForState :: "LegState \<Rightarrow> (LegState \<times> wait_event) list \<Rightarrow> leg_error option option" where
  "WaitForState target [] = None"
| "WaitForState target ((current, ev) # evs) =
     (if current \<ge> target then
        (if LegState_IsTerminal current \<and> target \<noteq> LegStateDestroyed \<and> target \<noteq> LegStateFailed
         then Some (Some ErrLegTerminated) else Some None)
      else if LegState_IsTerminal current then Some (Some ErrLegTerminated)
      else (case ev of
              WaitCtxDone \<Rightarrow> Some (Some CtxErr)
            | WaitLegDone \<Rightarrow> Some (Some ErrLegTerminated)
            | WaitStateChanged \<Rightarrow> WaitForState target evs))"

text \<open>The durations of \<open>LegInfo\<close>; \<open>Info\<close> copies the fields of the leg.\<close>

definition Leg_Duration :: "leg \<Rightarrow> duration" where
  "Leg_Duration i = (case leg_terminatedAt i of None \<Rightarrow> 0 | Some t \<Rightarrow> t - leg_createdAt i)"

definition RingDuration :: "leg \<Rightarrow> duration" where
  "RingDuration i =
     (case leg_ringingAt i of
        None \<Rightarrow> 0
      | Some r \<Rightarrow>
          (case leg_answeredAt i of
             Some a \<Rightarrow> a - r
           | None \<Rightarrow> (case leg_terminatedAt i of None \<Rightarrow> 0 | Some t \<Rightarrow> t - r)))"

definition TalkDuration :: "leg \<Rightarrow> duration" where
  "TalkDuration i =
     (case leg_answeredAt i of
        None \<Rightarrow> 0
      | Some a \<Rightarrow> (case leg_terminatedAt i of None \<Rightarrow> 0 | Some t \<Rightarrow> t - a))"

end
