(* ===== verification/TTL_Store.thy ===== *)
theory TTL_Store
  imports Prelude
begin

text \<open>
  \<open>internal/signaling/store/ttlstore.go\<close>: the generic in-memory store with expiring
  entries on which the dialog manager and the location service are built.

  The fields are the Go ones; \<open>tts_stopped\<close> says that \<open>stopCh\<close> is closed (the cleanup
  goroutine has been told to end), \<open>tts_onEvict\<close> that a callback is set. Operations that
  read the clock take the instant as \<open>now\<close>. \<open>cleanup\<close> returns the calls made to the
  callback, in order; closing a store twice closes a closed channel, a panic (\<open>None\<close>).

  The locale \<open>expiring_map\<close> is the contract the two clients rely on.
\<close>

section \<open>Data\<close>

record 'v entry =
  ent_Value :: 'v
  ent_ExpiresAt :: time

record ('k, 'v) ttl_store =
  tts_items :: "('k, 'v entry) gomap"
  tts_stopped :: bool
  tts_interval :: duration
  tts_onEvict :: bool

section \<open>Operations\<close>

definition Entry_IsExpired :: "time \<Rightarrow> 'v entry \<Rightarrow> bool" where
  "Entry_IsExpired now e \<longleftrightarrow> now > ent_ExpiresAt e"

definition Entry_TTL :: "time \<Rightarrow> 'v entry \<Rightarrow> duration" where
  "Entry_TTL now e = (let remaining = ent_ExpiresAt e - now in if remaining < 0 then 0 else remaining)"

definition NewTTLStore :: "duration \<Rightarrow> ('k, 'v) ttl_store" where
  "NewTTLStore cleanupInterval =
     \<lparr>tts_items = [], tts_stopped = False, tts_interval = cleanupInterval, tts_onEvict = False\<rparr>"

definition NewTTLStoreWithEvict :: "duration \<Rightarrow> bool \<Rightarrow> ('k, 'v) ttl_store" where
  "NewTTLStoreWithEvict cleanupInterval onEvict =
     \<lparr>tts_items = [], tts_stopped = False, tts_interval = cleanupInterval, tts_onEvict = onEvict\<rparr>"

definition TTL_SetOnEvict :: "bool \<Rightarrow> ('k, 'v) ttl_store \<Rightarrow> ('k, 'v) ttl_store" where
  "TTL_SetOnEvict fn s = s\<lparr>tts_onEvict := fn\<rparr>"

definition TTL_SetWithExpiry :: "('k, 'v) ttl_store \<Rightarrow> 'k \<Rightarrow> 'v \<Rightarrow> time \<Rightarrow> ('k, 'v) ttl_store" where
  "TTL_SetWithExpiry s key value expiresAt =
     s\<lparr>tts_items := gm_set (tts_items s) key \<lparr>ent_Value = value, ent_ExpiresAt = expiresAt\<rparr>\<rparr>"

definition TTL_Set :: "time \<Rightarrow> ('k, 'v) ttl_store \<Rightarrow> 'k \<Rightarrow> 'v \<Rightarrow> duration \<Rightarrow> ('k, 'v) ttl_store" where
  "TTL_Set now s key value ttl =
     s\<lparr>tts_items := gm_set (tts_items s) key \<lparr>ent_Value = value, ent_ExpiresAt = now + ttl\<rparr>\<rparr>"

definition TTL_GetEntry :: "time \<Rightarrow> ('k, 'v) ttl_store \<Rightarrow> 'k \<Rightarrow> 'v entry option" where
  "TTL_GetEntry now s key =
     (case map_of (tts_items s) key of
        None \<Rightarrow> None
      | Some e \<Rightarrow> if Entry_IsExpired now e then None else Some e)"

definition TTL_Get :: "time \<Rightarrow> ('k, 'v) ttl_store \<Rightarrow> 'k \<Rightarrow> 'v option" where
  "TTL_Get now s key =
     (case map_of (tts_items s) key of
        None \<Rightarrow> None
      | Some e \<Rightarrow> if Entry_IsExpired now e then None else Some (ent_Value e))"

definition TTL_Delete :: "('k, 'v) ttl_store \<Rightarrow> 'k \<Rightarrow> ('k, 'v) ttl_store \<times> bool" where
  "TTL_Delete s key =
     (if gm_has (tts_items s) key then (s\<lparr>tts_items := gm_del (tts_items s) key\<rparr>, True) else (s, False))"

definition TTL_Has :: "time \<Rightarrow> ('k, 'v) ttl_store \<Rightarrow> 'k \<Rightarrow> bool" where
  "TTL_Has now s key =
     (case map_of (tts_items s) key of None \<Rightarrow> False | Some e \<Rightarrow> \<not> Entry_IsExpired now e)"

definition TTL_Len :: "time \<Rightarrow> ('k, 'v) ttl_store \<Rightarrow> nat" where
  "TTL_Len now s = foldl (\<lambda>count e. if Entry_IsExpired now (snd e) then count else count + 1) 0 (tts_items s)"

definition TTL_AllEntries :: "time \<Rightarrow> ('k, 'v) ttl_store \<Rightarrow> ('k, 'v entry) gomap" where
  "TTL_AllEntries now s = filter (\<lambda>e. \<not> Entry_IsExpired now (snd e)) (tts_items s)"

definition TTL_All :: "time \<Rightarrow> ('k, 'v) ttl_store \<Rightarrow> ('k, 'v) gomap" where
  "TTL_All now s =
     map (\<lambda>e. (fst e, ent_Value (snd e))) (filter (\<lambda>e. \<not> Entry_IsExpired now (snd e)) (tts_items s))"

text \<open>
  \<open>ForEach\<close>: the callback has a state of its own (what its closure captures) and answers
  whether to go on.
\<close>

fun forEach_from :: "time \<Rightarrow> ('k \<Rightarrow> 'v \<Rightarrow> 'a \<Rightarrow> bool \<times> 'a) \<Rightarrow> ('k \<times> 'v entry) list \<Rightarrow> 'a \<Rightarrow> 'a" where
  "forEach_from now fn [] a = a"
| "forEach_from now fn ((key, e) # es) a =
     (if Entry_IsExpired now e then forEach_from now fn es a
      else (case fn key (ent_Value e) a of (go, a') \<Rightarrow> if go then forEach_from now fn es a' else a'))"

definition TTL_ForEach ::
  "('k, 'v entry) range_order \<Rightarrow> time \<Rightarrow> ('k, 'v) ttl_store \<Rightarrow> ('k \<Rightarrow> 'v \<Rightarrow> 'a \<Rightarrow> bool \<times> 'a) \<Rightarrow> 'a \<Rightarrow> 'a" where
  "TTL_ForEach ord now s fn = forEach_from now fn (ord (tts_items s))"

definition TTL_Refresh :: "time \<Rightarrow> ('k, 'v) ttl_store \<Rightarrow> 'k \<Rightarrow> duration \<Rightarrow> ('k, 'v) ttl_store \<times> bool" where
  "TTL_Refresh now s key ttl =
     (case map_of (tts_items s) key of
        None \<Rightarrow> (s, False)
      | Some e \<Rightarrow> (s\<lparr>tts_items := gm_set (tts_items s) key (e\<lparr>ent_ExpiresAt := now + ttl\<rparr>)\<rparr>, True))"

definition TTL_Update ::
  "time \<Rightarrow> ('k, 'v) ttl_store \<Rightarrow> 'k \<Rightarrow> ('v \<Rightarrow> 'v) \<Rightarrow> duration option \<Rightarrow> ('k, 'v) ttl_store \<times> bool" where
  "TTL_Update now s key fn newTTL =
     (case map_of (tts_items s) key of
        None \<Rightarrow> (s, False)
      | Some e \<Rightarrow>
          if Entry_IsExpired now e then (s, False)
          else
            let e1 = e\<lparr>ent_Value := fn (ent_Value e)\<rparr>;
                e2 = (case newTTL of None \<Rightarrow> e1 | Some d \<Rightarrow> e1\<lparr>ent_ExpiresAt := now + d\<rparr>) in
            (s\<lparr>tts_items := gm_set (tts_items s) key e2\<rparr>, True))"

definition TTL_Clear :: "('k, 'v) ttl_store \<Rightarrow> ('k, 'v) ttl_store" where
  "TTL_Clear s = s\<lparr>tts_items := []\<rparr>"

definition TTL_Close :: "('k, 'v) ttl_store \<Rightarrow> ('k, 'v) ttl_store option" where
  "TTL_Close s = (if tts_stopped s then None else Some (TTL_Clear (s\<lparr>tts_stopped := True\<rparr>)))"

definition TTL_cleanup ::
  "('k, 'v entry) range_order \<Rightarrow> time \<Rightarrow> ('k, 'v) ttl_store \<Rightarrow> ('k, 'v) ttl_store \<times> ('k \<times> 'v) list" where
  "TTL_cleanup ord now s =
     (let expired = filter (\<lambda>e. Entry_IsExpired now (snd e)) (ord (tts_items s)) in
      (s\<lparr>tts_items := foldl gm_del (tts_items s) (map fst expired)\<rparr>,
       if tts_onEvict s then map (\<lambda>e. (fst e, ent_Value (snd e))) expired else []))"

text \<open>
  \<open>cleanupLoop\<close>: each wake-up of the \<open>select\<close> is a tick at some instant or the closed
  \<open>stopCh\<close>, after which the loop is over.
\<close>

datatype loop_event = Tick time | StopSignal

fun cleanupLoop ::
  "('k, 'v entry) range_order \<Rightarrow> loop_event list \<Rightarrow> ('k, 'v) ttl_store \<Rightarrow> ('k, 'v) ttl_store \<times> ('k \<times> 'v) list" where
  "cleanupLoop ord [] s = (s, [])"
| "cleanupLoop ord (StopSignal # _) s = (s, [])"
| "cleanupLoop ord (Tick now # evs) s =
     (case TTL_cleanup ord now s of (s', ev) \<Rightarrow>
        case cleanupLoop ord evs s' of (s'', ev') \<Rightarrow> (s'', ev @ ev'))"

section \<open>Invariant\<close>

definition tts_inv :: "('k, 'v) ttl_store \<Rightarrow> bool" where
  "tts_inv s \<longleftrightarrow> gm_wf (tts_items s)"

lemma foldl_gm_del: "map_of (foldl gm_del m ks) = (map_of m) |` (- set ks)"
  by (induction ks arbitrary: m) (auto simp: fun_eq_iff restrict_map_def)

lemma foldl_gm_del_wf: "gm_wf m \<Longrightarrow> gm_wf (foldl gm_del m ks)"
  by (induction ks arbitrary: m) simp_all

lemma cleanup_items:
  assumes "tts_inv s" and "is_range ord"
  shows "map_of (tts_items (fst (TTL_cleanup ord now s))) k =
    (case map_of (tts_items s) k of
       None \<Rightarrow> None
     | Some e \<Rightarrow> if Entry_IsExpired now e then None else Some e)"
proof -
  have "k \<in> fst ` set (filter (\<lambda>e. Entry_IsExpired now (snd e)) (ord (tts_items s))) \<longleftrightarrow>
      (\<exists>e. map_of (tts_items s) k = Some e \<and> Entry_IsExpired now e)"
    using assms by (force simp: tts_inv_def is_range_set simp flip: gm_wf_entry)
  then show ?thesis
    by (auto simp: TTL_cleanup_def Let_def foldl_gm_del restrict_map_def split: option.split)
qed

lemma tts_inv_ops [simp, inv_intros]:
  "tts_inv (NewTTLStore d)"
  "tts_inv (NewTTLStoreWithEvict d b)"
  "tts_inv s \<Longrightarrow> tts_inv (TTL_SetOnEvict b s)"
  "tts_inv s \<Longrightarrow> tts_inv (TTL_Set now s k v ttl)"
  "tts_inv s \<Longrightarrow> tts_inv (TTL_SetWithExpiry s k v t)"
  "tts_inv s \<Longrightarrow> tts_inv (fst (TTL_Delete s k))"
  "tts_inv s \<Longrightarrow> tts_inv (fst (TTL_Refresh now s k ttl))"
  "tts_inv s \<Longrightarrow> tts_inv (fst (TTL_Update now s k fn nt))"
  "tts_inv s \<Longrightarrow> tts_inv (fst (TTL_cleanup ord now s))"
  "tts_inv (TTL_Clear s)"
  by (simp_all add: tts_inv_def NewTTLStore_def NewTTLStoreWithEvict_def TTL_SetOnEvict_def TTL_Set_def
      TTL_SetWithExpiry_def TTL_Delete_def TTL_Refresh_def TTL_Update_def TTL_cleanup_def TTL_Clear_def
      foldl_gm_del_wf Let_def split: option.split)

section \<open>What a read returns after each operation\<close>

lemma Get_new [simp]: "TTL_Get t (NewTTLStore d) k = None" "TTL_Get t (NewTTLStoreWithEvict d b) k = None"
  by (simp_all add: TTL_Get_def NewTTLStore_def NewTTLStoreWithEvict_def)

lemma Get_SetOnEvict [simp]: "TTL_Get t (TTL_SetOnEvict b s) k = TTL_Get t s k"
  by (simp add: TTL_Get_def TTL_SetOnEvict_def)

lemma Get_Set:
  "TTL_Get t (TTL_Set now s k v ttl) k' =
     (if k' = k then (if t \<le> now + ttl then Some v else None) else TTL_Get t s k')"
  by (simp add: TTL_Get_def TTL_Set_def Entry_IsExpired_def not_less)

lemma Get_Delete: "TTL_Get t (fst (TTL_Delete s k)) k' = (if k' = k then None else TTL_Get t s k')"
  by (auto simp: TTL_Get_def TTL_Delete_def gm_has_def split: option.split)

lemma Get_Clear [simp]: "TTL_Get t (TTL_Clear s) k = None"
  by (simp add: TTL_Get_def TTL_Clear_def)

lemma Get_later:
  assumes "TTL_Get t' s k = Some v" and "t \<le> t'"
  shows "TTL_Get t s k = Some v"
  using assms by (auto simp: TTL_Get_def Entry_IsExpired_def split: option.splits if_splits)

lemma Get_cleanup:
  assumes "tts_inv s" and "is_range ord" and "now \<le> t"
  shows "TTL_Get t (fst (TTL_cleanup ord now s)) k = TTL_Get t s k"
  unfolding TTL_Get_def cleanup_items [OF assms(1,2)]
  using assms(3) by (auto simp: Entry_IsExpired_def split: option.split)

lemma Get_Update:
  "TTL_Get now (fst (TTL_Update now s k fn None)) k' =
     (if k' = k then map_option fn (TTL_Get now s k) else TTL_Get now s k')"
  by (auto simp: TTL_Get_def TTL_Update_def Entry_IsExpired_def Let_def split: option.split)

lemma Has_Get: "TTL_Has t s k \<longleftrightarrow> TTL_Get t s k \<noteq> None"
  by (auto simp: TTL_Has_def TTL_Get_def split: option.split)

lemma GetEntry_Get: "map_option ent_Value (TTL_GetEntry t s k) = TTL_Get t s k"
  by (auto simp: TTL_GetEntry_def TTL_Get_def split: option.split)

lemma All_wf: "tts_inv s \<Longrightarrow> gm_wf (TTL_All t s)"
  unfolding tts_inv_def gm_wf_def TTL_All_def
  by (simp add: comp_def distinct_map_filter)

lemma All_Get:
  assumes "tts_inv s"
  shows "map_of (TTL_All t s) k = TTL_Get t s k"
proof -
  have "map_of (map (\<lambda>e. (fst e, ent_Value (snd e))) (filter (\<lambda>e. \<not> Entry_IsExpired t (snd e)) m)) k =
      (case map_of m k of None \<Rightarrow> None | Some e \<Rightarrow> if Entry_IsExpired t e then None else Some (ent_Value e))"
    if "distinct (map fst m)" for m :: "('a, 'b entry) gomap"
    using that by (induction m) (force simp: map_of_eq_None_iff split: option.split)+
  then show ?thesis using assms by (simp add: TTL_All_def TTL_Get_def tts_inv_def gm_wf_def)
qed

lemma Len_All: "TTL_Len t s = length (TTL_All t s)"
proof -
  have "foldl (\<lambda>count e. if Entry_IsExpired t (snd e) then count else count + 1) n m =
      n + length (filter (\<lambda>e. \<not> Entry_IsExpired t (snd e)) m)" for n and m :: "('a, 'b entry) gomap"
    by (induction m arbitrary: n) auto
  then show ?thesis by (simp add: TTL_Len_def TTL_All_def)
qed

section \<open>The contract of an expiring map\<close>

text \<open>
  A client writes with a time to live, deletes, and reads at later instants; between its
  calls the store may sweep expired entries away at any instant of its choosing. The contract
  says what a read returns, and the lemma \<open>get_history\<close> what it returns after any sequence
  of such operations: what the last write to that key says, for as long as it lives, no
  matter when sweeps ran.
\<close>

datatype ('k, 'v) ttl_op = Write time 'k 'v duration | Remove 'k | Sweep time

primrec ttl_op_time :: "time \<Rightarrow> ('k, 'v) ttl_op \<Rightarrow> bool" where
  "ttl_op_time t (Write now k v d) \<longleftrightarrow> True"
| "ttl_op_time t (Remove k) \<longleftrightarrow> True"
| "ttl_op_time t (Sweep now) \<longleftrightarrow> now \<le> t"

fun last_write :: "'k \<Rightarrow> ('k, 'v) ttl_op list \<Rightarrow> ('v \<times> time) option \<Rightarrow> ('v \<times> time) option" where
  "last_write k [] w = w"
| "last_write k (Write now k' v d # ops) w = last_write k ops (if k' = k then Some (v, now + d) else w)"
| "last_write k (Remove k' # ops) w = last_write k ops (if k' = k then None else w)"
| "last_write k (Sweep now # ops) w = last_write k ops w"

definition alive_at :: "time \<Rightarrow> ('v \<times> time) option \<Rightarrow> 'v option" where
  "alive_at t w = (case w of None \<Rightarrow> None | Some (v, e) \<Rightarrow> if t \<le> e then Some v else None)"

locale expiring_map =
  fixes get :: "time \<Rightarrow> 's \<Rightarrow> 'k \<Rightarrow> 'v option"
    and put :: "time \<Rightarrow> 's \<Rightarrow> 'k \<Rightarrow> 'v \<Rightarrow> duration \<Rightarrow> 's"
    and del :: "'s \<Rightarrow> 'k \<Rightarrow> 's"
    and sweep :: "time \<Rightarrow> 's \<Rightarrow> 's"
    and inv :: "'s \<Rightarrow> bool"
  assumes get_put: "inv s \<Longrightarrow> get t (put now s k v ttl) k' =
      (if k' = k then (if t \<le> now + ttl then Some v else None) else get t s k')"
    and get_del: "inv s \<Longrightarrow> get t (del s k) k' = (if k' = k then None else get t s k')"
    and get_sweep: "inv s \<Longrightarrow> now \<le> t \<Longrightarrow> get t (sweep now s) k = get t s k"
    and get_later: "get t' s k = Some v \<Longrightarrow> t \<le> t' \<Longrightarrow> get t s k = Some v"
    and inv_put: "inv s \<Longrightarrow> inv (put now s k v ttl)"
    and inv_del: "inv s \<Longrightarrow> inv (del s k)"
    and inv_sweep: "inv s \<Longrightarrow> inv (sweep now s)"
begin

primrec apply_op :: "'s \<Rightarrow> ('k, 'v) ttl_op \<Rightarrow> 's" where
  "apply_op s (Write now k v d) = put now s k v d"
| "apply_op s (Remove k) = del s k"
| "apply_op s (Sweep now) = sweep now s"

lemma inv_history: "inv s \<Longrightarrow> inv (foldl apply_op s ops)"
proof (induction ops arbitrary: s)
  case (Cons op ops)
  then have "inv (apply_op s op)" by (cases op) (simp_all add: inv_put inv_del inv_sweep)
  then show ?case using Cons.IH by simp
qed simp

lemma get_history:
  assumes "inv s" and "list_all (ttl_op_time t) ops" and "get t s k = alive_at t w"
  shows "get t (foldl apply_op s ops) k = alive_at t (last_write k ops w)"
  using assms
proof (induction ops arbitrary: s w)
  case (Cons op ops)
  have inv: "inv (apply_op s op)" using Cons.prems(1) by (cases op) (simp_all add: inv_put inv_del inv_sweep)
  have "get t (apply_op s op) k = alive_at t (last_write k [op] w)"
    using Cons.prems by (cases op) (simp_all add: get_put get_del get_sweep alive_at_def)
  moreover have "last_write k (op # ops) w = last_write k ops (last_write k [op] w)" by (cases op) simp_all
  ultimately show ?case using Cons.IH [OF inv] Cons.prems(2) by simp
qed simp

lemma put_again: "inv s \<Longrightarrow> get t (put now' (put now s k v ttl) k v' ttl') k' = get t (put now' s k v' ttl') k'"
  by (simp add: get_put inv_put)

lemma get_gone:
  assumes "inv s" and "now + ttl < t"
  shows "get t (put now s k v ttl) k = None"
  using assms by (simp add: get_put)

end

definition cleaned :: "('k, 'v entry) range_order \<Rightarrow> time \<Rightarrow> ('k, 'v) ttl_store \<Rightarrow> ('k, 'v) ttl_store" where
  "cleaned ord now s = fst (TTL_cleanup ord now s)"

lemma ttl_contract:
  assumes "is_range ord"
  shows "expiring_map TTL_Get TTL_Set (\<lambda>s k. fst (TTL_Delete s k)) (cleaned ord) tts_inv"
  by unfold_locales (auto simp: Get_Set Get_Delete Get_cleanup [OF _ assms] cleaned_def intro: Get_later)

interpretation ttl: expiring_map TTL_Get TTL_Set "\<lambda>s k. fst (TTL_Delete s k)" "cleaned id" tts_inv
  by (rule ttl_contract) simp

text \<open>
  Property C32. Whatever sequence of \<open>Set\<close>, \<open>Delete\<close> and cleanup runs a new store goes through, a
  \<open>Get\<close> at an instant no earlier than those cleanups returns what the last \<open>Set\<close> or
  \<open>Delete\<close> of that key says: the value while its time to live lasts, nothing afterwards.
  Cleanup is invisible to readers.
\<close>

theorem ttl_reads_last_write:
  assumes "list_all (ttl_op_time t) ops"
  shows "TTL_Get t (foldl ttl.apply_op (NewTTLStore d) ops) k = alive_at t (last_write k ops None)"
  using ttl.get_history [OF _ assms, of "NewTTLStore d" k None] by (simp add: alive_at_def)

definition ex_ops :: "(string, nat) ttl_op list" where
  "ex_ops = [Write 0 ''a'' 1 10, Write 0 ''b'' 2 30, Sweep 20, Write 21 ''a'' 3 5, Remove ''b'']"

theorem ttl_reads_last_write_witness:
  "TTL_Get 26 (foldl ttl.apply_op (NewTTLStore 10) ex_ops) ''a'' = Some 3 \<and>
   TTL_Get 27 (foldl ttl.apply_op (NewTTLStore 10) ex_ops) ''a'' = None"
  using ttl_reads_last_write [of 26 ex_ops 10 "''a''"] ttl_reads_last_write [of 27 ex_ops 10 "''a''"]
  by (simp add: ex_ops_def alive_at_def)

section \<open>Eviction\<close>

text \<open>
  One cleanup run evicts exactly the expired entries: afterwards every remaining entry is
  one that was there and has not expired, the callback (when set) has been called exactly
  once for each evicted key with its value, and never for a key that stays.
\<close>

theorem cleanup_evicts_expired:
  assumes "tts_inv s" and "is_range ord" and "tts_onEvict s"
    and "TTL_cleanup ord now s = (s', evicted)"
  shows "map_of (tts_items s') k = TTL_GetEntry now s k \<and>
    distinct (map fst evicted) \<and>
    ((k, v) \<in> set evicted \<longleftrightarrow>
       (\<exists>e. map_of (tts_items s) k = Some e \<and> Entry_IsExpired now e \<and> ent_Value e = v))"
proof -
  have s': "s' = fst (TTL_cleanup ord now s)" and
    ev: "evicted = map (\<lambda>e. (fst e, ent_Value (snd e))) (filter (\<lambda>e. Entry_IsExpired now (snd e)) (ord (tts_items s)))"
    using assms(3,4) by (auto simp: TTL_cleanup_def Let_def)
  have "distinct (map fst evicted)"
    using is_range_wf [OF assms(2)] assms(1)
    unfolding ev tts_inv_def gm_wf_def by (simp add: comp_def distinct_map_filter)
  moreover have "(k, v) \<in> set evicted \<longleftrightarrow>
       (\<exists>e. map_of (tts_items s) k = Some e \<and> Entry_IsExpired now e \<and> ent_Value e = v)"
    using assms(1,2) unfolding ev by (force simp: tts_inv_def is_range_set simp flip: gm_wf_entry)
  ultimately show ?thesis
    using cleanup_items [OF assms(1,2)] unfolding s' by (simp add: TTL_GetEntry_def)
qed

definition ex_store :: "(string, nat) ttl_store" where
  "ex_store = TTL_Set 0 (TTL_Set 0 (NewTTLStoreWithEvict 10 True) ''a'' 1 10) ''b'' 2 30"

theorem cleanup_evicts_expired_witness:
  "distinct (map fst (snd (TTL_cleanup rev 20 ex_store))) \<and>
   (''a'', 1) \<in> set (snd (TTL_cleanup rev 20 ex_store)) \<and>
   map_of (tts_items (fst (TTL_cleanup rev 20 ex_store))) ''a'' = None"
proof -
  have "tts_inv ex_store" "tts_onEvict ex_store"
    by (simp_all add: ex_store_def) (simp add: TTL_Set_def NewTTLStoreWithEvict_def)
  note evicts = cleanup_evicts_expired [OF this(1) is_range_rev this(2) surjective_pairing]
  show ?thesis
    using evicts [of 20 "''a''" 1]
    by (simp add: ex_store_def TTL_Set_def NewTTLStoreWithEvict_def TTL_GetEntry_def Entry_IsExpired_def gm_set_def)
qed

text \<open>
  \<open>Refresh\<close> ignores expiry: an expired entry that no cleanup has removed yet comes back
  to life, while the same call after a cleanup reports that the key does not exist. Its
  sibling \<open>Update\<close> refuses expired entries, so a refused update leaves the key unreadable.
\<close>

theorem Refresh_revives_expired:
  assumes "tts_inv s" and "is_range ord" and "map_of (tts_items s) k = Some e"
    and "Entry_IsExpired now e" and "0 \<le> ttl"
  shows "TTL_Get now s k = None \<and>
    TTL_Get now (fst (TTL_Refresh now s k ttl)) k = Some (ent_Value e) \<and>
    TTL_Refresh now (cleaned ord now s) k ttl = (cleaned ord now s, False) \<and>
    TTL_Update now s k fn (Some ttl) = (s, False)"
  using assms cleanup_items [OF assms(1,2), of now k]
  by (simp add: TTL_Get_def TTL_Refresh_def TTL_Update_def cleaned_def Entry_IsExpired_def)

theorem Refresh_revives_expired_witness:
  "TTL_Get 20 ex_store ''a'' = None \<and>
   TTL_Get 20 (fst (TTL_Refresh 20 ex_store ''a'' 5)) ''a'' = Some 1"
proof -
  have "tts_inv ex_store" by (simp add: ex_store_def)
  moreover have "map_of (tts_items ex_store) ''a'' = Some \<lparr>ent_Value = 1, ent_ExpiresAt = 10\<rparr>"
    by (simp add: ex_store_def TTL_Set_def NewTTLStoreWithEvict_def gm_set_def)
  ultimately show ?thesis
    using Refresh_revives_expired [of ex_store id "''a''" _ 20 5] by (simp add: Entry_IsExpired_def)
qed

section \<open>Searching with \<open>ForEach\<close>\<close>

lemma forEach_find:
  "forEach_from now (\<lambda>_ v a. if P v then (False, Some v) else (True, a)) es a =
     (case find P (map (ent_Value \<circ> snd) (filter (\<lambda>e. \<not> Entry_IsExpired now (snd e)) es)) of
        None \<Rightarrow> a | Some v \<Rightarrow> Some v)"
  by (induction es) (auto split: option.split)

lemma find_SomeD: "find P l = Some v \<Longrightarrow> P v \<and> v \<in> set l"
  by (induction l) (auto split: if_splits)

lemma ForEach_find_Some:
  assumes "tts_inv s" and "is_range ord"
    and "TTL_ForEach ord now s (\<lambda>_ v a. if P v then (False, Some v) else (True, a)) None = Some v"
  shows "P v \<and> (\<exists>k. TTL_Get now s k = Some v)"
proof -
  let ?l = "map (ent_Value \<circ> snd) (filter (\<lambda>e. \<not> Entry_IsExpired now (snd e)) (ord (tts_items s)))"
  have "find P ?l = Some v"
    using assms(3) by (auto simp: TTL_ForEach_def forEach_find split: option.splits)
  then have "P v" "v \<in> set ?l" using find_SomeD by fast+
  then obtain k e where "(k, e) \<in> set (tts_items s)" "\<not> Entry_IsExpired now e" "v = ent_Value e"
    using is_range_set [OF assms(2)] by force
  with assms(1) have "TTL_Get now s k = Some v" by (simp add: tts_inv_def gm_wf_entry TTL_Get_def)
  with \<open>P v\<close> show ?thesis by blast
qed

lemma ForEach_find_None:
  assumes "tts_inv s" and "is_range ord"
    and "TTL_ForEach ord now s (\<lambda>_ v a. if P v then (False, Some v) else (True, a)) None = None"
    and "TTL_Get now s k = Some v"
  shows "\<not> P v"
proof -
  let ?l = "map (ent_Value \<circ> snd) (filter (\<lambda>e. \<not> Entry_IsExpired now (snd e)) (ord (tts_items s)))"
  have "find P ?l = None"
    using assms(3) by (auto simp: TTL_ForEach_def forEach_find split: option.splits)
  moreover obtain e where "map_of (tts_items s) k = Some e" "\<not> Entry_IsExpired now e" "v = ent_Value e"
    using assms(4) by (auto simp: TTL_Get_def split: option.splits if_splits)
  then have "v \<in> set ?l"
    using assms(1) is_range_set [OF assms(2)] by (force simp: tts_inv_def simp flip: gm_wf_entry)
  ultimately show ?thesis by (metis find_None_iff)
qed

end
