(* ===== verification/Dialog_Manager.thy ===== *)
theory Dialog_Manager
  imports Dialog TTL_Store
begin

text \<open>
  \<open>internal/signaling/dialog/manager.go\<close>: the registry of dialogs.

  Go keeps \<open>*Dialog\<close> pointers in an expiring store and hands them out; handlers, timers and
  the store share the objects. The model keeps the objects in \<open>dm_heap\<close>, a pointer is an
  index into it, and \<open>dm_dialogs\<close> maps Call-IDs to pointers. A goroutine started by
  \<open>SendOK\<close> to watch for the ACK is an element of \<open>dm_watchers\<close> (dialog, starting time);
  \<open>dm_reported\<close> lists the calls of the \<open>onTerminated\<close> callback with the dialog's reason,
  \<open>dm_sent\<close> the messages handed to the SIP stack, both in order.

  Outcomes of the SIP library (whether a response could be sent, what a transaction
  returned) are arguments; \<open>now\<close> is the clock.
\<close>

datatype sip_out =
    OnInviteTx nat int
  | OnRequestTx string int
  | ReadByeBySession nat
  | ByeBySession nat
  | SentRequest nat sip_request
  | SentAck nat int

record dialog_manager =
  dm_heap :: "dialog list"
  dm_dialogs :: "(string, nat) ttl_store"
  dm_ackTimeout :: duration
  dm_onTerminated :: bool
  dm_watchers :: "(nat \<times> time) list"
  dm_reported :: "(nat \<times> TerminateReason) list"
  dm_sent :: "sip_out list"

datatype dm_error =
    MissingCallID
  | DialogNotFound string
  | UnexpectedState CallState
  | RespondFailed
  | SessionFailed
  | BuildFailed dlg_error
  | TransactionFailed
  | NilTransaction

abbreviation secs :: "int \<Rightarrow> duration" where
  "secs n \<equiv> n * 1000000000"

definition ActiveDialogTTL :: duration where
  "ActiveDialogTTL = secs (4 * 60 * 60)"

definition TerminatedDialogTTL :: duration where
  "TerminatedDialogTTL = secs 32"

definition DialogCleanupInterval :: duration where
  "DialogCleanupInterval = secs 10"

definition NewManager :: dialog_manager where
  "NewManager = \<lparr>dm_heap = [], dm_dialogs = TTL_SetOnEvict True (NewTTLStore DialogCleanupInterval),
     dm_ackTimeout = secs 32, dm_onTerminated = False, dm_watchers = [], dm_reported = [], dm_sent = []\<rparr>"

definition Manager_SetOnTerminated :: "dialog_manager \<Rightarrow> dialog_manager" where
  "Manager_SetOnTerminated m = m\<lparr>dm_onTerminated := True\<rparr>"

definition dlg_at :: "dialog_manager \<Rightarrow> nat \<Rightarrow> dialog" where
  "dlg_at m r = dm_heap m ! r"

definition upd_dlg :: "nat \<Rightarrow> (dialog \<Rightarrow> dialog) \<Rightarrow> dialog_manager \<Rightarrow> dialog_manager" where
  "upd_dlg r f m = m\<lparr>dm_heap := (dm_heap m)[r := f (dm_heap m ! r)]\<rparr>"

definition send_out :: "sip_out \<Rightarrow> dialog_manager \<Rightarrow> dialog_manager" where
  "send_out o' m = m\<lparr>dm_sent := dm_sent m @ [o']\<rparr>"

definition Manager_Get :: "time \<Rightarrow> dialog_manager \<Rightarrow> string \<Rightarrow> nat option" where
  "Manager_Get now m callID = TTL_Get now (dm_dialogs m) callID"

text \<open>Put a new object into the heap and the store; \<open>None\<close> in the result is the error return.\<close>

definition addDialog :: "time \<Rightarrow> dialog_manager \<Rightarrow> string \<Rightarrow> dialog \<Rightarrow> dialog_manager \<times> (dm_error + nat)" where
  "addDialog now m callID dlg =
     (m\<lparr>dm_heap := dm_heap m @ [dlg],
        dm_dialogs := TTL_Set now (dm_dialogs m) callID (length (dm_heap m)) ActiveDialogTTL\<rparr>,
      Inr (length (dm_heap m)))"

definition CreateFromInvite :: "time \<Rightarrow> dialog_manager \<Rightarrow> sip_request \<Rightarrow> dialog_manager \<times> (dm_error + nat)" where
  "CreateFromInvite now m req =
     (let callID = callid_or_empty (rq_Headers req) in
      if callID = '''' then (m, Inl MissingCallID)
      else
        (case Manager_Get now m callID of
           Some r \<Rightarrow> if dlg_State (dlg_at m r) \<noteq> StateTerminated then (m, Inr r)
                     else addDialog now m callID (NewDialog now req)
         | None \<Rightarrow> addDialog now m callID (NewDialog now req)))"

definition RegisterOutbound ::
  "uri_string \<Rightarrow> time \<Rightarrow> dialog_manager \<Rightarrow> sip_request \<Rightarrow> sip_response \<Rightarrow> dialog_manager \<times> (dm_error + nat)" where
  "RegisterOutbound uriString now m invite resp =
     (let callID = callid_or_empty (rq_Headers invite) in
      if callID = '''' then (m, Inl MissingCallID)
      else
        (case Manager_Get now m callID of
           Some r \<Rightarrow> if dlg_State (dlg_at m r) \<noteq> StateTerminated then (m, Inr r)
                     else addDialog now m callID (NewOutboundDialog uriString now invite resp)
         | None \<Rightarrow> addDialog now m callID (NewOutboundDialog uriString now invite resp)))"

text \<open>
  A state transition whose error is only logged. \<open>d.Transaction.Respond\<close> on a dialog without
  a transaction dereferences nil.
\<close>

definition tryTransition :: "time \<Rightarrow> CallState \<Rightarrow> dialog \<Rightarrow> dialog" where
  "tryTransition now newState d = fst (TransitionTo now newState d)"

definition SendTrying :: "bool \<Rightarrow> time \<Rightarrow> dialog_manager \<Rightarrow> nat \<Rightarrow> dialog_manager \<times> dm_error option" where
  "SendTrying respondOk now m r =
     (if \<not> dlg_Transaction (dlg_at m r) then (m, Some NilTransaction)
      else if \<not> respondOk then (m, Some RespondFailed)
      else (upd_dlg r (tryTransition now StateEarly) (send_out (OnInviteTx r 100) m), None))"

definition SendProgress :: "bool \<Rightarrow> dialog_manager \<Rightarrow> nat \<Rightarrow> string \<Rightarrow> dialog_manager \<times> dm_error option" where
  "SendProgress respondOk m r sdpBody =
     (if \<not> dlg_Transaction (dlg_at m r) then (m, Some NilTransaction)
      else if \<not> respondOk then (m, Some RespondFailed)
      else (send_out (OnInviteTx r 183) m, None))"

text \<open>
  \<open>SendOK\<close>: \<open>readInvite\<close> says whether sipgo could create the session, \<open>respond\<close> is the 200
  response it sent, or \<open>None\<close> when sending failed.
\<close>

definition SendOK ::
  "bool \<Rightarrow> sip_response option \<Rightarrow> time \<Rightarrow> dialog_manager \<Rightarrow> nat \<Rightarrow> string \<Rightarrow> dialog_manager \<times> dm_error option" where
  "SendOK readInvite respond now m r sdpBody =
     (if \<not> readInvite then (m, Some SessionFailed)
      else
        let m1 = upd_dlg r SetSession m in
        (case respond of
           None \<Rightarrow> (m1, Some RespondFailed)
         | Some resp \<Rightarrow>
             let m2 = upd_dlg r (SetInviteResponse resp) (send_out (OnInviteTx r 200) m1);
                 m3 = upd_dlg r (tryTransition now StateWaitingACK) m2 in
             (m3\<lparr>dm_watchers := dm_watchers m3 @ [(r, now)]\<rparr>, None)))"

definition ConfirmWithACK :: "time \<Rightarrow> dialog_manager \<Rightarrow> sip_request \<Rightarrow> dialog_manager \<times> dm_error option" where
  "ConfirmWithACK now m req =
     (let callID = callid_or_empty (rq_Headers req) in
      case Manager_Get now m callID of
        None \<Rightarrow> (m, Some (DialogNotFound callID))
      | Some r \<Rightarrow>
          let state = dlg_State (dlg_at m r) in
          if state \<noteq> StateWaitingACK then
            (if state = StateConfirmed then (m, None) else (m, Some (UnexpectedState state)))
          else
            (case TransitionTo now StateConfirmed (dlg_at m r) of
               (d, None) \<Rightarrow> (upd_dlg r (\<lambda>_. d) m, None)
             | (d, Some err) \<Rightarrow> (m, Some (BuildFailed err))))"

definition Manager_terminate :: "time \<Rightarrow> dialog_manager \<Rightarrow> nat \<Rightarrow> TerminateReason \<Rightarrow> dialog_manager" where
  "Manager_terminate now m r reason =
     (let m1 = upd_dlg r (\<lambda>d. tryTransition now StateTerminated (d\<lparr>dlg_TerminateReason := reason\<rparr>)) m;
          m2 = (if dm_onTerminated m1 then m1\<lparr>dm_reported := dm_reported m1 @ [(r, reason)]\<rparr> else m1) in
      m2\<lparr>dm_dialogs := TTL_Set now (dm_dialogs m2) (dlg_CallID (dlg_at m2 r)) r TerminatedDialogTTL\<rparr>)"

definition HandleIncomingBYE ::
  "bool \<Rightarrow> time \<Rightarrow> dialog_manager \<Rightarrow> sip_request \<Rightarrow> dialog_manager \<times> dm_error option" where
  "HandleIncomingBYE respondOk now m req =
     (let callID = callid_or_empty (rq_Headers req) in
      case Manager_Get now m callID of
        None \<Rightarrow> (if respondOk then send_out (OnRequestTx ''BYE'' 481) m else m, Some (DialogNotFound callID))
      | Some r \<Rightarrow>
          let m1 = (if dlg_Session (dlg_at m r) then send_out (ReadByeBySession r) m
                    else if respondOk then send_out (OnRequestTx ''BYE'' 200) m else m);
              m2 = upd_dlg r Dialog_Cancel m1 in
          (Manager_terminate now m2 r ReasonRemoteBYE, None))"

definition HandleIncomingCANCEL ::
  "bool \<Rightarrow> bool \<Rightarrow> time \<Rightarrow> dialog_manager \<Rightarrow> sip_request \<Rightarrow> dialog_manager \<times> dm_error option" where
  "HandleIncomingCANCEL respondOk inviteOk now m req =
     (let callID = callid_or_empty (rq_Headers req) in
      case Manager_Get now m callID of
        None \<Rightarrow> (if respondOk then send_out (OnRequestTx ''CANCEL'' 481) m else m, Some (DialogNotFound callID))
      | Some r \<Rightarrow>
          let state = dlg_State (dlg_at m r) in
          if state \<noteq> StateEarly \<and> state \<noteq> StateWaitingACK then
            (if respondOk then send_out (OnRequestTx ''CANCEL'' 481) m else m, None)
          else
            let m1 = (if respondOk then send_out (OnRequestTx ''CANCEL'' 200) m else m);
                m2 = (if dlg_Transaction (dlg_at m1 r) \<and> inviteOk then send_out (OnInviteTx r 487) m1 else m1);
                m3 = upd_dlg r Dialog_Cancel m2 in
            (Manager_terminate now m3 r ReasonCancel, None))"

text \<open>\<open>sendBYE\<close>; waiting for the answer changes nothing.\<close>

definition byeContact :: "dialog \<Rightarrow> sip_uri" where
  "byeContact d =
     (case dlg_InviteRequest d of
        None \<Rightarrow> \<lparr>uri_Scheme = ''sip'', uri_User = ''switchboard'', uri_Host = ''localhost'', uri_Port = 0, uri_UriParams = []\<rparr>
      | Some invite \<Rightarrow>
          (case hdr_Contact (rq_Headers invite) of
             Some c \<Rightarrow> na_Address c
           | None \<Rightarrow>
               (case hdr_From (rq_Headers invite) of
                  Some f \<Rightarrow> na_Address f
                | None \<Rightarrow> \<lparr>uri_Scheme = ''sip'', uri_User = ''switchboard'', uri_Host = ''localhost'', uri_Port = 0,
                            uri_UriParams = []\<rparr>)))"

definition sendBYE :: "parse_uri \<Rightarrow> bool \<Rightarrow> bool \<Rightarrow> dialog_manager \<Rightarrow> nat \<Rightarrow> dialog_manager \<times> dm_error option" where
  "sendBYE parseUri sessionOk txOk m r =
     (let d = dlg_at m r in
      if dlg_Session d \<and> dlg_Direction d = DirectionInbound then
        (if sessionOk then (send_out (ByeBySession r) m, None) else (m, Some SessionFailed))
      else
        (case BuildBYE parseUri (byeContact d) d of
           (d', Inl err) \<Rightarrow> (m, Some (BuildFailed err))
         | (d', Inr byeReq) \<Rightarrow>
             let m1 = upd_dlg r (\<lambda>_. d') m in
             if txOk then (send_out (SentRequest r byeReq) m1, None) else (m1, Some TransactionFailed)))"

definition Manager_Terminate ::
  "parse_uri \<Rightarrow> bool \<Rightarrow> bool \<Rightarrow> time \<Rightarrow> time \<Rightarrow> dialog_manager \<Rightarrow> string \<Rightarrow> TerminateReason \<Rightarrow>
   dialog_manager \<times> dm_error option" where
  "Manager_Terminate parseUri sessionOk txOk now now' m callID reason =
     (case Manager_Get now m callID of
        None \<Rightarrow> (m, Some (DialogNotFound callID))
      | Some r \<Rightarrow>
          let state = dlg_State (dlg_at m r) in
          if state = StateTerminated then (m, None)
          else
            let m1 = (if state = StateConfirmed \<and> reason = ReasonLocalBYE
                      then fst (sendBYE parseUri sessionOk txOk m r) else m);
                m2 = upd_dlg r Dialog_Cancel m1 in
            (Manager_terminate now' m2 r reason, None))"

text \<open>
  \<open>watchACKTimeout\<close>: the goroutine waits for the dialog's context or for \<open>ackTimeout\<close>. It
  wakes up once; \<open>now\<close> is that moment.
\<close>

definition watchACKTimeout :: "time \<Rightarrow> dialog_manager \<Rightarrow> nat \<times> time \<Rightarrow> dialog_manager" where
  "watchACKTimeout now m w =
     (let r = fst w;
          m0 = m\<lparr>dm_watchers := remove1 w (dm_watchers m)\<rparr> in
      if dlg_cancelled (dlg_at m r) then m0
      else if now < snd w + dm_ackTimeout m then m
      else if dlg_State (dlg_at m r) = StateWaitingACK
      then Manager_terminate now (upd_dlg r Dialog_Cancel m0) r ReasonTimeout
      else m0)"

definition Manager_List :: "(string, nat) range_order \<Rightarrow> time \<Rightarrow> dialog_manager \<Rightarrow> nat list" where
  "Manager_List ord now m = map snd (ord (TTL_All now (dm_dialogs m)))"

definition Manager_Count :: "time \<Rightarrow> dialog_manager \<Rightarrow> nat" where
  "Manager_Count now m = TTL_Len now (dm_dialogs m)"

definition Manager_ForEach ::
  "(string, nat entry) range_order \<Rightarrow> time \<Rightarrow> dialog_manager \<Rightarrow> (nat \<Rightarrow> 'a \<Rightarrow> bool \<times> 'a) \<Rightarrow> 'a \<Rightarrow> 'a" where
  "Manager_ForEach ord now m fn = TTL_ForEach ord now (dm_dialogs m) (\<lambda>_ r a. fn r a)"

definition Manager_Close :: "dialog_manager \<Rightarrow> dialog_manager option" where
  "Manager_Close m = map_option (\<lambda>t. m\<lparr>dm_dialogs := t\<rparr>) (TTL_Close (dm_dialogs m))"

definition FindBySessionID :: "(string, nat entry) range_order \<Rightarrow> time \<Rightarrow> dialog_manager \<Rightarrow> string \<Rightarrow> nat option" where
  "FindBySessionID ord now m sessionID =
     TTL_ForEach ord now (dm_dialogs m)
       (\<lambda>_ r found. if dlg_SessionID (dlg_at m r) = sessionID then (False, Some r) else (True, found)) None"

text \<open>
  \<open>SendReINVITE\<close>: what the loop sees is a list of wake-ups of its \<open>select\<close>. The result is
  \<open>None\<close> while it is still waiting.
\<close>

datatype tx_event = CtxDone | NoResponse | Response sip_response

record reinvite_result =
  rr_Success :: bool
  rr_StatusCode :: int
  rr_Reason :: string
  rr_SDP :: "string option"

datatype reinvite_outcome =
    ReinviteRefused dm_error
  | ReinviteCanceled
  | ReinviteNoResponse
  | ReinviteDone reinvite_result

fun reinviteLoop ::
  "nat \<Rightarrow> tx_event list \<Rightarrow> dialog_manager \<Rightarrow> dialog_manager \<times> reinvite_outcome option" where
  "reinviteLoop r [] m = (m, None)"
| "reinviteLoop r (CtxDone # evs) m = (upd_dlg r CompleteReINVITE m, Some ReinviteCanceled)"
| "reinviteLoop r (NoResponse # evs) m = (upd_dlg r CompleteReINVITE m, Some ReinviteNoResponse)"
| "reinviteLoop r (Response resp # evs) m =
     (let statusCode = rs_StatusCode resp in
      if 100 \<le> statusCode \<and> statusCode < 200 then reinviteLoop r evs m
      else
        (upd_dlg r CompleteReINVITE (send_out (SentAck r statusCode) m),
         Some (ReinviteDone \<lparr>rr_Success = (200 \<le> statusCode \<and> statusCode < 300), rr_StatusCode = statusCode,
            rr_Reason = rs_Reason resp,
            rr_SDP = (if 200 \<le> statusCode \<and> statusCode < 300 then rs_Body resp else None)\<rparr>)))"

definition SendReINVITE ::
  "(string, string) range_order \<Rightarrow> parse_uri \<Rightarrow> bool \<Rightarrow> tx_event list \<Rightarrow> dialog_manager \<Rightarrow> nat \<Rightarrow> sip_uri \<Rightarrow>
   reinvite_options \<Rightarrow> dialog_manager \<times> reinvite_outcome option" where
  "SendReINVITE ord parseUri txOk evs m r localContact opts =
     (let d = dlg_at m r in
      if dlg_State d \<noteq> StateConfirmed then (m, Some (ReinviteRefused (UnexpectedState (dlg_State d))))
      else
        (case BuildReINVITE ord parseUri localContact opts d of
           (d', Inl err) \<Rightarrow> (upd_dlg r (\<lambda>_. d') m, Some (ReinviteRefused (BuildFailed err)))
         | (d', Inr req) \<Rightarrow>
             let m1 = upd_dlg r (\<lambda>_. d') m in
             if \<not> txOk then (upd_dlg r CompleteReINVITE m1, Some (ReinviteRefused TransactionFailed))
             else reinviteLoop r evs (send_out (SentRequest r req) m1)))"

section \<open>Steps\<close>

text \<open>
  One step is one call into the manager or one wake-up of its goroutines, at instant \<open>now\<close>.
  \<open>SendOK\<close> is only called on dialogs created from an incoming INVITE.
\<close>

inductive dm_step :: "time \<Rightarrow> dialog_manager \<Rightarrow> dialog_manager \<Rightarrow> bool" for now where
  invite: "dm_step now m (fst (CreateFromInvite now m req))"
| outbound: "dm_step now m (fst (RegisterOutbound us now m req resp))"
| trying: "r < length (dm_heap m) \<Longrightarrow> dm_step now m (fst (SendTrying ok now m r))"
| progress: "r < length (dm_heap m) \<Longrightarrow> dm_step now m (fst (SendProgress ok m r sdp))"
| send_ok: "r < length (dm_heap m) \<Longrightarrow> dlg_Direction (dlg_at m r) = DirectionInbound \<Longrightarrow>
    dm_step now m (fst (SendOK ri rsp now m r sdp))"
| ack: "dm_step now m (fst (ConfirmWithACK now m req))"
| bye: "dm_step now m (fst (HandleIncomingBYE ok now m req))"
| cancel: "dm_step now m (fst (HandleIncomingCANCEL ok ok' now m req))"
| terminate: "start \<le> now \<Longrightarrow> dm_step now m (fst (Manager_Terminate pu sok txok start now m callID reason))"
| ack_timeout: "w \<in> set (dm_watchers m) \<Longrightarrow> dm_step now m (watchACKTimeout now m w)"
| reinvite: "r < length (dm_heap m) \<Longrightarrow> dm_step now m (fst (SendReINVITE ord pu txok evs m r contact opts))"
| session_id: "r < length (dm_heap m) \<Longrightarrow> dm_step now m (upd_dlg r (SetSessionID sid) m)"
| media: "r < length (dm_heap m) \<Longrightarrow> dm_step now m (upd_dlg r (SetMediaEndpoint a p c) m)"
| remote: "r < length (dm_heap m) \<Longrightarrow> dm_step now m (upd_dlg r (SetRemoteEndpoint a p) m)"
| cleanup: "is_range ord \<Longrightarrow> dm_step now m (m\<lparr>dm_dialogs := cleaned ord now (dm_dialogs m)\<rparr>)"

inductive dm_reachable :: "time \<Rightarrow> dialog_manager \<Rightarrow> bool" where
  init: "dm_reachable t (Manager_SetOnTerminated NewManager)"
| step: "dm_reachable t m \<Longrightarrow> t \<le> now \<Longrightarrow> dm_step now m m' \<Longrightarrow> dm_reachable now m'"

section \<open>Invariant\<close>

definition dlg_ok :: "dialog \<Rightarrow> bool" where
  "dlg_ok d \<longleftrightarrow> dlg_ids d \<and> (dlg_cancelled d \<longleftrightarrow> dlg_State d = StateTerminated) \<and> dlg_State d \<noteq> StateTerminating \<and>
     (dlg_Direction d = DirectionOutbound \<longrightarrow> dlg_State d \<in> {StateConfirmed, StateTerminated} \<and> \<not> dlg_Transaction d) \<and>
     (dlg_Direction d = DirectionInbound \<longrightarrow> dlg_Transaction d \<and>
        (dlg_State d \<in> {StateWaitingACK, StateConfirmed} \<longrightarrow> dlg_Session d \<and> dlg_InviteResponse d \<noteq> None))"

definition reported_ok :: "dialog_manager \<Rightarrow> bool" where
  "reported_ok m \<longleftrightarrow>
     fst ` set (dm_reported m) = {r. r < length (dm_heap m) \<and> dlg_State (dm_heap m ! r) = StateTerminated}"

definition store_ok :: "dialog_manager \<Rightarrow> bool" where
  "store_ok m \<longleftrightarrow> (\<forall>k e. map_of (tts_items (dm_dialogs m)) k = Some e \<longrightarrow>
     ent_Value e < length (dm_heap m) \<and> dlg_CallID (dm_heap m ! ent_Value e) = k)"

definition dm_inv :: "dialog_manager \<Rightarrow> bool" where
  "dm_inv m \<longleftrightarrow> dm_onTerminated m \<and> tts_inv (dm_dialogs m) \<and> store_ok m \<and> reported_ok m \<and>
     (\<forall>d \<in> set (dm_heap m). dlg_ok d) \<and> (\<forall>w \<in> set (dm_watchers m). fst w < length (dm_heap m))"

text \<open>What may happen to an object over time.\<close>

definition moves :: "CallState \<Rightarrow> CallState \<Rightarrow> bool" where
  "moves s t \<longleftrightarrow> (\<exists>ts. call.run s ts \<and> last (s # ts) = t)"

definition evolves :: "dialog_manager \<Rightarrow> dialog_manager \<Rightarrow> bool" where
  "evolves m m' \<longleftrightarrow> length (dm_heap m) \<le> length (dm_heap m') \<and>
     (\<forall>r < length (dm_heap m). dlg_CallID (dlg_at m' r) = dlg_CallID (dlg_at m r) \<and>
        dlg_Direction (dlg_at m' r) = dlg_Direction (dlg_at m r) \<and>
        moves (dlg_State (dlg_at m r)) (dlg_State (dlg_at m' r)))"

definition good :: "dialog_manager \<Rightarrow> dialog_manager \<Rightarrow> bool" where
  "good m m' \<longleftrightarrow> (dm_inv m \<longrightarrow> dm_inv m' \<and> evolves m m')"

lemma moves_refl [simp]: "moves s s"
  unfolding moves_def by (rule exI [of _ "[]"]) simp

lemma moves_one: "CanTransitionTo s t \<Longrightarrow> moves s t"
  unfolding moves_def by (rule exI [of _ "[t]"]) simp

lemma run_append: "call.run s ts \<Longrightarrow> call.run (last (s # ts)) us \<Longrightarrow> call.run s (ts @ us)"
  by (induction ts arbitrary: s) auto

lemma moves_trans: "moves s t \<Longrightarrow> moves t u \<Longrightarrow> moves s u"
  unfolding moves_def using run_append by (metis append_Cons last_append last_ConsL last_ConsR)

lemma evolves_refl [simp]: "evolves m m"
  by (simp add: evolves_def)

lemma evolves_trans: "evolves m m' \<Longrightarrow> evolves m' m'' \<Longrightarrow> evolves m m''"
  unfolding evolves_def by (auto intro: moves_trans)

lemma good_refl [simp]: "good m m"
  by (simp add: good_def)

lemma good_trans [trans]: "good m m' \<Longrightarrow> good m' m'' \<Longrightarrow> good m m''"
  unfolding good_def using evolves_trans by blast

lemma dm_invD:
  assumes "dm_inv m"
  shows "dm_onTerminated m" "tts_inv (dm_dialogs m)" "store_ok m" "reported_ok m"
    "r < length (dm_heap m) \<Longrightarrow> dlg_ok (dlg_at m r)" "w \<in> set (dm_watchers m) \<Longrightarrow> fst w < length (dm_heap m)"
  using assms by (auto simp: dm_inv_def dlg_at_def)

lemma Get_ref:
  assumes "dm_inv m" and "Manager_Get now m callID = Some r"
  shows "r < length (dm_heap m)" and "dlg_CallID (dlg_at m r) = callID"
  using assms dm_invD(3) [OF assms(1)]
  by (auto simp: store_ok_def Manager_Get_def TTL_Get_def dlg_at_def split: option.splits if_splits)

subsection \<open>Building blocks of the operations\<close>

lemma upd_dlg_heap [simp]:
  "dm_heap (upd_dlg r f m) = (dm_heap m)[r := f (dm_heap m ! r)]"
  "dm_dialogs (upd_dlg r f m) = dm_dialogs m" "dm_onTerminated (upd_dlg r f m) = dm_onTerminated m"
  "dm_reported (upd_dlg r f m) = dm_reported m" "dm_watchers (upd_dlg r f m) = dm_watchers m"
  "dm_ackTimeout (upd_dlg r f m) = dm_ackTimeout m" "dm_sent (upd_dlg r f m) = dm_sent m"
  by (simp_all add: upd_dlg_def)

lemma send_out_frame [simp]:
  "dm_heap (send_out x m) = dm_heap m" "dm_dialogs (send_out x m) = dm_dialogs m"
  "dm_onTerminated (send_out x m) = dm_onTerminated m" "dm_reported (send_out x m) = dm_reported m"
  "dm_watchers (send_out x m) = dm_watchers m" "dm_ackTimeout (send_out x m) = dm_ackTimeout m"
  "dlg_at (send_out x m) = dlg_at m"
  by (simp_all add: send_out_def dlg_at_def fun_eq_iff)

lemma good_send [simp]: "good m (send_out x m)"
  by (simp add: good_def dm_inv_def store_ok_def reported_ok_def evolves_def dlg_at_def)

lemma good_watch:
  assumes "dm_inv m \<Longrightarrow> \<forall>w \<in> set ws. fst w < length (dm_heap m)"
  shows "good m (m\<lparr>dm_watchers := ws\<rparr>)"
  using assms by (auto simp: good_def dm_inv_def store_ok_def reported_ok_def evolves_def dlg_at_def)

definition neutral :: "dialog \<Rightarrow> dialog \<Rightarrow> bool" where
  "neutral d d' \<longleftrightarrow> dlg_ok d' \<and> dlg_CallID d' = dlg_CallID d \<and> dlg_Direction d' = dlg_Direction d \<and>
     moves (dlg_State d) (dlg_State d') \<and> (dlg_State d' = StateTerminated \<longleftrightarrow> dlg_State d = StateTerminated)"

lemma good_upd:
  assumes "r < length (dm_heap m)"
    and "dlg_ok (dlg_at m r) \<Longrightarrow> neutral (dlg_at m r) (f (dlg_at m r))"
  shows "good m (upd_dlg r f m)"
  unfolding good_def
proof
  assume inv: "dm_inv m"
  let ?d = "dm_heap m ! r"
  have f: "dlg_ok (f ?d)" "dlg_CallID (f ?d) = dlg_CallID ?d" "dlg_Direction (f ?d) = dlg_Direction ?d"
    "moves (dlg_State ?d) (dlg_State (f ?d))" "dlg_State (f ?d) = StateTerminated \<longleftrightarrow> dlg_State ?d = StateTerminated"
    using assms(2) dm_invD(5) [OF inv assms(1)] by (simp_all add: dlg_at_def neutral_def)
  have nth: "(dm_heap m)[r := y] ! x = (if x = r then y else dm_heap m ! x)" for x y
    using assms(1) by (simp add: nth_list_update)
  have "reported_ok (upd_dlg r f m)"
    using dm_invD(4) [OF inv] f(5) unfolding reported_ok_def by (auto simp: nth)
  moreover have "store_ok (upd_dlg r f m)"
    using dm_invD(3) [OF inv] f(2) unfolding store_ok_def by (auto simp: nth)
  moreover have "\<forall>d \<in> set ((dm_heap m)[r := f ?d]). dlg_ok d"
    using inv f(1) set_update_subset_insert [of "dm_heap m" r "f ?d"] by (auto simp: dm_inv_def)
  ultimately have "dm_inv (upd_dlg r f m)" using inv by (simp add: dm_inv_def)
  moreover have "evolves m (upd_dlg r f m)"
    using f(2-4) by (auto simp: evolves_def dlg_at_def nth)
  ultimately show "dm_inv (upd_dlg r f m) \<and> evolves m (upd_dlg r f m)" by simp
qed

lemma good_add:
  assumes "dlg_ok d" and "dlg_CallID d = callID" and "dlg_State d \<noteq> StateTerminated"
  shows "good m (fst (addDialog now m callID d))"
  unfolding good_def
proof
  assume inv: "dm_inv m"
  let ?m = "fst (addDialog now m callID d)"
  have heap: "dm_heap ?m = dm_heap m @ [d]" by (simp add: addDialog_def)
  have "reported_ok ?m"
    using dm_invD(4) [OF inv] assms(3) unfolding reported_ok_def heap by (auto simp: addDialog_def nth_append)
  moreover have "store_ok ?m"
    using dm_invD(3) [OF inv] assms(2) unfolding store_ok_def heap
    by (auto simp: addDialog_def nth_append TTL_Set_def less_Suc_eq)
  ultimately have "dm_inv ?m" using inv assms(1) by (auto simp: dm_inv_def addDialog_def)
  moreover have "evolves m ?m" by (auto simp: evolves_def dlg_at_def heap nth_append)
  ultimately show "dm_inv ?m \<and> evolves m ?m" by simp
qed

definition killed :: "time \<Rightarrow> TerminateReason \<Rightarrow> dialog \<Rightarrow> dialog" where
  "killed now reason d = tryTransition now StateTerminated (d\<lparr>dlg_cancelled := True, dlg_TerminateReason := reason\<rparr>)"

abbreviation shutdown :: "time \<Rightarrow> dialog_manager \<Rightarrow> nat \<Rightarrow> TerminateReason \<Rightarrow> dialog_manager" where
  "shutdown now m r reason \<equiv> Manager_terminate now (upd_dlg r Dialog_Cancel m) r reason"

lemma killed_facts [simp]:
  "dlg_State (killed now reason d) = StateTerminated" "dlg_cancelled (killed now reason d)"
  "dlg_CallID (killed now reason d) = dlg_CallID d" "dlg_Direction (killed now reason d) = dlg_Direction d"
  "dlg_TerminateReason (killed now reason d) = reason" "dlg_ids (killed now reason d) = dlg_ids d"
  "dlg_Transaction (killed now reason d) = dlg_Transaction d" "dlg_SessionID (killed now reason d) = dlg_SessionID d"
  by (auto simp: killed_def tryTransition_def TransitionTo_def CanTransitionTo_cases)

lemma killed_ok: "dlg_ok d \<Longrightarrow> dlg_ok (killed now reason d)"
  by (auto simp: dlg_ok_def)

lemma killed_moves: "moves (dlg_State d) (dlg_State (killed now reason d))"
  by (cases "dlg_State d = StateTerminated") (auto intro!: moves_one simp: CanTransitionTo_cases)

lemma shutdown_fields:
  assumes "r < length (dm_heap m)"
  shows "dm_heap (shutdown now m r reason) = (dm_heap m)[r := killed now reason (dm_heap m ! r)]"
    and "dm_dialogs (shutdown now m r reason) =
      TTL_Set now (dm_dialogs m) (dlg_CallID (dm_heap m ! r)) r TerminatedDialogTTL"
    and "dm_reported (shutdown now m r reason) =
      (if dm_onTerminated m then dm_reported m @ [(r, reason)] else dm_reported m)"
    and "dm_onTerminated (shutdown now m r reason) = dm_onTerminated m"
    and "dm_watchers (shutdown now m r reason) = dm_watchers m"
proof -
  have "tryTransition now StateTerminated (Dialog_Cancel (dm_heap m ! r)\<lparr>dlg_TerminateReason := reason\<rparr>) =
      killed now reason (dm_heap m ! r)"
    by (simp add: killed_def Dialog_Cancel_def)
  then have "(dm_heap m)[r := tryTransition now StateTerminated (Dialog_Cancel (dm_heap m ! r)\<lparr>dlg_TerminateReason := reason\<rparr>)] =
      (dm_heap m)[r := killed now reason (dm_heap m ! r)]" by simp
  then show "dm_heap (shutdown now m r reason) = (dm_heap m)[r := killed now reason (dm_heap m ! r)]"
    and "dm_dialogs (shutdown now m r reason) =
      TTL_Set now (dm_dialogs m) (dlg_CallID (dm_heap m ! r)) r TerminatedDialogTTL"
    and "dm_reported (shutdown now m r reason) =
      (if dm_onTerminated m then dm_reported m @ [(r, reason)] else dm_reported m)"
    and "dm_onTerminated (shutdown now m r reason) = dm_onTerminated m"
    and "dm_watchers (shutdown now m r reason) = dm_watchers m"
    using assms by (simp_all add: Manager_terminate_def dlg_at_def Let_def)
qed

lemma good_shutdown:
  assumes "r < length (dm_heap m)"
  shows "good m (shutdown now m r reason)"
  unfolding good_def
proof
  assume inv: "dm_inv m"
  let ?m = "shutdown now m r reason"
  note fields = shutdown_fields [OF assms, of now reason]
  have nth: "(dm_heap m)[r := y] ! x = (if x = r then y else dm_heap m ! x)" for x y
    using assms by (simp add: nth_list_update)
  have "reported_ok ?m"
    using dm_invD(1,4) [OF inv] assms unfolding reported_ok_def fields by (auto simp: nth)
  moreover have "store_ok ?m"
    using dm_invD(3) [OF inv] assms unfolding store_ok_def fields by (auto simp: nth TTL_Set_def)
  moreover have "\<forall>d \<in> set (dm_heap ?m). dlg_ok d"
    using inv assms killed_ok set_update_subset_insert [of "dm_heap m" r "killed now reason (dm_heap m ! r)"]
    unfolding fields by (auto simp: dm_inv_def)
  ultimately have "dm_inv ?m" using inv by (simp add: dm_inv_def fields)
  moreover have "evolves m ?m"
    using killed_moves by (auto simp: evolves_def dlg_at_def fields nth simp del: killed_facts(1))
  ultimately show "dm_inv ?m \<and> evolves m ?m" by simp
qed

subsection \<open>Every operation is made of them\<close>

lemma good_under_inv: "(dm_inv m \<Longrightarrow> good m m') \<Longrightarrow> good m m'"
  by (simp add: good_def)

lemma transition_ok:
  assumes "dlg_ok d" and "t \<noteq> StateTerminated" and "t \<noteq> StateTerminating" and "t \<noteq> StateInitial"
    and "t \<in> {StateWaitingACK, StateConfirmed} \<Longrightarrow> CanTransitionTo (dlg_State d) t \<Longrightarrow>
      dlg_Direction d = DirectionInbound \<Longrightarrow> dlg_Session d \<and> dlg_InviteResponse d \<noteq> None"
  shows "neutral d (tryTransition now t d)"
proof (cases "CanTransitionTo (dlg_State d) t")
  case True
  then have "dlg_State d \<noteq> StateTerminated" by (auto simp: CanTransitionTo_cases)
  moreover have "dlg_Direction d \<noteq> DirectionOutbound"
    using True assms(1-3) by (auto simp: dlg_ok_def CanTransitionTo_cases)
  ultimately show ?thesis
    using True assms moves_one [OF True]
    by (cases "dlg_Direction d") (auto simp: neutral_def tryTransition_def TransitionTo_def dlg_ok_def)
qed (use assms in \<open>simp add: neutral_def tryTransition_def TransitionTo_def\<close>)

lemma good_CreateFromInvite: "good m (fst (CreateFromInvite now m req))"
proof -
  have "good m (fst (addDialog now m (callid_or_empty (rq_Headers req)) (NewDialog now req)))"
  proof (rule good_add)
    have "dlg_ids (NewDialog now req)" by (rule dlg_ids_new)
    then show "dlg_ok (NewDialog now req)" by (auto simp: dlg_ok_def) (simp_all add: NewDialog_def)
  qed (simp_all add: NewDialog_def)
  then show ?thesis by (simp add: CreateFromInvite_def Let_def split: option.split)
qed

lemma good_RegisterOutbound: "good m (fst (RegisterOutbound us now m req resp))"
proof -
  have "good m (fst (addDialog now m (callid_or_empty (rq_Headers req)) (NewOutboundDialog us now req resp)))"
  proof (rule good_add)
    have "dlg_ids (NewOutboundDialog us now req resp)" by (rule dlg_ids_new)
    then show "dlg_ok (NewOutboundDialog us now req resp)" by (auto simp: dlg_ok_def) (simp_all add: NewOutboundDialog_def)
  qed (simp_all add: NewOutboundDialog_def)
  then show ?thesis by (simp add: RegisterOutbound_def Let_def split: option.split)
qed

lemma good_SendTrying:
  assumes "r < length (dm_heap m)"
  shows "good m (fst (SendTrying ok now m r))"
proof -
  have "good (send_out (OnInviteTx r 100) m) (upd_dlg r (tryTransition now StateEarly) (send_out (OnInviteTx r 100) m))"
    using assms by (intro good_upd transition_ok) simp_all
  from good_trans [OF good_send this] show ?thesis by (simp add: SendTrying_def)
qed

lemma good_SendProgress: "good m (fst (SendProgress ok m r sdp))"
  by (simp add: SendProgress_def)

lemma SetInviteResponse_fields [simp]:
  "dlg_State (SetInviteResponse resp d) = dlg_State d" "dlg_CallID (SetInviteResponse resp d) = dlg_CallID d"
  "dlg_Direction (SetInviteResponse resp d) = dlg_Direction d" "dlg_Session (SetInviteResponse resp d) = dlg_Session d"
  "dlg_cancelled (SetInviteResponse resp d) = dlg_cancelled d"
  "dlg_Transaction (SetInviteResponse resp d) = dlg_Transaction d"
  "dlg_InviteResponse (SetInviteResponse resp d) = Some resp"
  by (auto simp: SetInviteResponse_def Let_def split: option.split)

lemma good_SendOK:
  assumes "r < length (dm_heap m)" and "dlg_Direction (dlg_at m r) = DirectionInbound"
  shows "good m (fst (SendOK ri rsp now m r sdp))"
proof (cases "ri")
  case True
  let ?m1 = "upd_dlg r SetSession m"
  have m1: "good m ?m1" using assms(1) by (intro good_upd) (auto simp: neutral_def SetSession_def dlg_ok_def)
  show ?thesis
  proof (cases rsp)
    case None
    with True m1 show ?thesis by (simp add: SendOK_def Let_def)
  next
    case (Some resp)
    let ?m2 = "upd_dlg r (SetInviteResponse resp) (send_out (OnInviteTx r 200) ?m1)"
    let ?m3 = "upd_dlg r (tryTransition now StateWaitingACK) ?m2"
    have d1: "dlg_at ?m1 r = SetSession (dlg_at m r)" and d2: "dlg_at ?m2 r = SetInviteResponse resp (SetSession (dlg_at m r))"
      using assms(1) by (simp_all add: dlg_at_def)
    have "good (send_out (OnInviteTx r 200) ?m1) ?m2"
    proof (rule good_upd)
      show "r < length (dm_heap (send_out (OnInviteTx r 200) ?m1))" using assms(1) by simp
      assume "dlg_ok (dlg_at (send_out (OnInviteTx r 200) ?m1) r)"
      then have ok: "dlg_ok (SetSession (dlg_at m r))" by (simp add: d1)
      have dir: "dlg_Direction (SetSession (dlg_at m r)) = DirectionInbound" using assms(2) by (simp add: SetSession_def)
      have "dlg_ids (SetInviteResponse resp (SetSession (dlg_at m r)))"
        using ok dir by (simp add: dlg_ok_def)
      then show "neutral (dlg_at (send_out (OnInviteTx r 200) ?m1) r) (SetInviteResponse resp (dlg_at (send_out (OnInviteTx r 200) ?m1) r))"
        using ok by (simp add: d1 neutral_def dlg_ok_def)
    qed
    then have "good ?m1 ?m2" using good_trans [OF good_send] by blast
    moreover have "good ?m2 ?m3"
    proof (intro good_upd transition_ok)
      show "dlg_Session (dlg_at ?m2 r) \<and> dlg_InviteResponse (dlg_at ?m2 r) \<noteq> None"
        unfolding d2 by (simp add: SetSession_def)
    qed (use assms(1) in simp_all)
    moreover have "good ?m3 (?m3\<lparr>dm_watchers := dm_watchers ?m3 @ [(r, now)]\<rparr>)"
      using assms(1) by (intro good_watch) (auto dest: dm_invD(6))
    ultimately have "good m (?m3\<lparr>dm_watchers := dm_watchers ?m3 @ [(r, now)]\<rparr>)"
      using m1 good_trans by blast
    then show ?thesis using True Some by (simp add: SendOK_def Let_def)
  qed
qed (simp add: SendOK_def)

lemma good_ConfirmWithACK: "good m (fst (ConfirmWithACK now m req))"
proof (rule good_under_inv)
  assume inv: "dm_inv m"
  show ?thesis
  proof (cases "Manager_Get now m (callid_or_empty (rq_Headers req))")
    case (Some r)
    note ref = Get_ref [OF inv Some]
    show ?thesis
    proof (cases "dlg_State (dlg_at m r) = StateWaitingACK")
      case True
      have "good m (upd_dlg r (\<lambda>_. tryTransition now StateConfirmed (dlg_at m r)) m)"
        using dm_invD(5) [OF inv ref(1)] True by (intro good_upd [OF ref(1)] transition_ok) (auto simp: dlg_ok_def)
      with Some True show ?thesis
        by (simp add: ConfirmWithACK_def Let_def TransitionTo_def tryTransition_def CanTransitionTo_def)
    qed (simp add: ConfirmWithACK_def Some Let_def)
  qed (simp add: ConfirmWithACK_def Let_def)
qed

lemma good_BYE: "good m (fst (HandleIncomingBYE ok now m req))"
proof (rule good_under_inv)
  assume inv: "dm_inv m"
  show ?thesis
  proof (cases "Manager_Get now m (callid_or_empty (rq_Headers req))")
    case (Some r)
    let ?m = "if dlg_Session (dlg_at m r) then send_out (ReadByeBySession r) m
      else if ok then send_out (OnRequestTx ''BYE'' 200) m else m"
    have "good m ?m" by simp
    moreover have "good ?m (shutdown now ?m r ReasonRemoteBYE)"
      using Get_ref(1) [OF inv Some] by (intro good_shutdown) simp
    ultimately have "good m (shutdown now ?m r ReasonRemoteBYE)" using good_trans by blast
    then show ?thesis by (simp add: HandleIncomingBYE_def Some Let_def)
  qed (simp add: HandleIncomingBYE_def Let_def)
qed

lemma good_CANCEL: "good m (fst (HandleIncomingCANCEL ok ok' now m req))"
proof (rule good_under_inv)
  assume inv: "dm_inv m"
  show ?thesis
  proof (cases "Manager_Get now m (callid_or_empty (rq_Headers req))")
    case (Some r)
    let ?m1 = "if ok then send_out (OnRequestTx ''CANCEL'' 200) m else m"
    let ?m = "if dlg_Transaction (dlg_at ?m1 r) \<and> ok' then send_out (OnInviteTx r 487) ?m1 else ?m1"
    have "good m ?m1" "good ?m1 ?m" by simp_all
    moreover have "good ?m (shutdown now ?m r ReasonCancel)"
      using Get_ref(1) [OF inv Some] by (intro good_shutdown) simp
    ultimately have "good m (shutdown now ?m r ReasonCancel)" using good_trans by blast
    then show ?thesis by (auto simp: HandleIncomingCANCEL_def Some Let_def)
  qed (simp add: HandleIncomingCANCEL_def Let_def)
qed

lemma good_BuildBYE:
  assumes "r < length (dm_heap m)" and "BuildBYE pu c (dlg_at m r) = (d', Inr req)"
  shows "good m (upd_dlg r (\<lambda>_. d') m)"
  using BuildBYE_Inr(1) [OF assms(2)] by (intro good_upd [OF assms(1)]) (simp add: neutral_def dlg_ok_def)

lemma good_sendBYE:
  assumes "r < length (dm_heap m)"
  shows "good m (fst (sendBYE pu sok txok m r))"
  using good_BuildBYE [OF assms] good_trans [OF _ good_send]
  by (auto simp: sendBYE_def Let_def split: prod.split sum.split)

lemma sendBYE_length: "length (dm_heap (fst (sendBYE pu sok txok m r))) = length (dm_heap m)"
  by (simp add: sendBYE_def Let_def split: prod.split sum.split)

lemma good_Terminate: "good m (fst (Manager_Terminate pu sok txok start now m callID reason))"
proof (rule good_under_inv)
  assume inv: "dm_inv m"
  show ?thesis
  proof (cases "Manager_Get start m callID")
    case (Some r)
    note ref = Get_ref(1) [OF inv Some]
    let ?m = "if dlg_State (dlg_at m r) = StateConfirmed \<and> reason = ReasonLocalBYE
      then fst (sendBYE pu sok txok m r) else m"
    have "good m ?m" using good_sendBYE [OF ref] by simp
    moreover have "good ?m (shutdown now ?m r reason)"
      using ref by (intro good_shutdown) (simp add: sendBYE_length)
    ultimately have "good m (shutdown now ?m r reason)" using good_trans by blast
    then show ?thesis by (simp add: Manager_Terminate_def Some Let_def)
  qed (simp add: Manager_Terminate_def)
qed

lemma good_watchACKTimeout:
  assumes "w \<in> set (dm_watchers m)"
  shows "good m (watchACKTimeout now m w)"
proof (rule good_under_inv)
  assume inv: "dm_inv m"
  let ?m0 = "m\<lparr>dm_watchers := remove1 w (dm_watchers m)\<rparr>"
  have "good m ?m0"
    using set_remove1_subset [of w "dm_watchers m"] dm_invD(6) [OF inv] by (intro good_watch) blast
  moreover have "good ?m0 (shutdown now ?m0 (fst w) ReasonTimeout)"
    using dm_invD(6) [OF inv assms] by (intro good_shutdown) simp
  ultimately have "good m ?m0" "good m (shutdown now ?m0 (fst w) ReasonTimeout)" using good_trans by blast+
  then show ?thesis by (simp add: watchACKTimeout_def Let_def)
qed

lemma good_Complete:
  "r < length (dm_heap m) \<Longrightarrow> good m (upd_dlg r CompleteReINVITE m)"
  by (intro good_upd) (auto simp: neutral_def CompleteReINVITE_def dlg_ok_def)

lemma good_send_Complete: "r < length (dm_heap m) \<Longrightarrow> good m (upd_dlg r CompleteReINVITE (send_out x m))"
  using good_trans [OF good_send good_Complete] by simp

lemma good_reinviteLoop: "r < length (dm_heap m) \<Longrightarrow> good m (fst (reinviteLoop r evs m))"
  by (induction r evs m rule: reinviteLoop.induct) (auto simp: Let_def good_Complete good_send_Complete)

lemma BuildReINVITE_frame:
  assumes "BuildReINVITE ord pu c opts d = (d', x)"
  shows "\<exists>p n. d' = d\<lparr>dlg_reInviteInProgress := p, dlg_localCSeq := n\<rparr>"
proof (cases x)
  case (Inl e)
  have "d' = d \<or> d' = d\<lparr>dlg_reInviteInProgress := True\<rparr>"
    using assms unfolding Inl
    by (auto simp: BuildReINVITE_def Let_def split: option.splits if_splits sum.splits dlg_error.splits)
  then have "d' = d\<lparr>dlg_reInviteInProgress := dlg_reInviteInProgress d', dlg_localCSeq := dlg_localCSeq d\<rparr>" by auto
  then show ?thesis by blast
next
  case (Inr req)
  then show ?thesis using BuildReINVITE_Inr(1) assms by blast
qed

lemma BuildReINVITE_neutral:
  assumes "BuildReINVITE ord pu c opts d = (d', x)" and "dlg_ok d"
  shows "neutral d d'"
  using BuildReINVITE_frame [OF assms(1)] assms(2) by (auto simp: neutral_def dlg_ok_def)

lemma good_SendReINVITE:
  assumes "r < length (dm_heap m)"
  shows "good m (fst (SendReINVITE ord pu txok evs m r contact opts))"
proof -
  obtain d' x where b: "BuildReINVITE ord pu contact opts (dlg_at m r) = (d', x)" by fastforce
  let ?m1 = "upd_dlg r (\<lambda>_. d') m"
  have m1: "good m ?m1" using BuildReINVITE_neutral [OF b] by (intro good_upd [OF assms])
  have len: "r < length (dm_heap ?m1)" using assms by simp
  have "good ?m1 (upd_dlg r CompleteReINVITE ?m1)" using good_Complete [OF len] .
  moreover have "good ?m1 (fst (reinviteLoop r evs (send_out s ?m1)))" for s
    using good_trans [OF good_send good_reinviteLoop] len by simp
  ultimately have "good m (upd_dlg r CompleteReINVITE ?m1)" "\<And>s. good m (fst (reinviteLoop r evs (send_out s ?m1)))"
    using m1 good_trans by blast+
  then show ?thesis using m1 b by (cases x) (simp_all add: SendReINVITE_def Let_def)
qed

lemma good_edit:
  assumes "r < length (dm_heap m)"
  shows "good m (upd_dlg r (SetSessionID sid) m)" "good m (upd_dlg r (SetMediaEndpoint a p c) m)"
    "good m (upd_dlg r (SetRemoteEndpoint a p) m)"
  by (intro good_upd [OF assms]; simp add: neutral_def dlg_ok_def SetSessionID_def SetMediaEndpoint_def SetRemoteEndpoint_def)+

lemma good_cleanup:
  assumes "is_range ord"
  shows "good m (m\<lparr>dm_dialogs := cleaned ord now (dm_dialogs m)\<rparr>)"
proof (rule good_under_inv)
  assume inv: "dm_inv m"
  have "store_ok (m\<lparr>dm_dialogs := cleaned ord now (dm_dialogs m)\<rparr>)"
    using dm_invD(3) [OF inv] unfolding store_ok_def
    by (auto simp: cleaned_def cleanup_items [OF dm_invD(2) [OF inv] assms] split: option.splits if_splits)
  then show ?thesis using inv by (auto simp: good_def dm_inv_def reported_ok_def evolves_def dlg_at_def cleaned_def)
qed

lemmas good_ops = good_CreateFromInvite good_RegisterOutbound good_SendTrying good_SendProgress good_SendOK
  good_ConfirmWithACK good_BYE good_CANCEL good_Terminate good_watchACKTimeout good_SendReINVITE good_edit good_cleanup

lemma dm_step_good: "dm_step now m m' \<Longrightarrow> good m m'"
  by (induction rule: dm_step.induct) (simp_all add: good_ops)

lemma dm_inv_init [simp]: "dm_inv (Manager_SetOnTerminated NewManager)"
  by (simp add: dm_inv_def Manager_SetOnTerminated_def NewManager_def store_ok_def reported_ok_def)
    (simp add: TTL_SetOnEvict_def NewTTLStore_def)

lemma dm_reachable_inv: "dm_reachable now m \<Longrightarrow> dm_inv m"
  by (induction rule: dm_reachable.induct) (auto dest: dm_step_good simp: good_def)

section \<open>Properties\<close>

text \<open>
  Property C3. In every reachable state, for every dialog object ever created: it is terminated exactly
  when its context is cancelled, and exactly when the termination callback (which releases
  its media) has been started for it; the state \<open>Terminating\<close> is never entered; and a lookup by
  Call-ID returns a dialog with that Call-ID.
\<close>

theorem dialog_states_consistent:
  assumes "dm_reachable now m" and "r < length (dm_heap m)"
  shows "(dlg_State (dlg_at m r) = StateTerminated \<longleftrightarrow> dlg_cancelled (dlg_at m r)) \<and>
    (dlg_State (dlg_at m r) = StateTerminated \<longleftrightarrow> r \<in> fst ` set (dm_reported m)) \<and>
    dlg_State (dlg_at m r) \<noteq> StateTerminating \<and>
    (Manager_Get t m callID = Some r \<longrightarrow> dlg_CallID (dlg_at m r) = callID)"
proof -
  note inv = dm_reachable_inv [OF assms(1)]
  have "dlg_State (dlg_at m r) = StateTerminated \<longleftrightarrow> r \<in> fst ` set (dm_reported m)"
    using dm_invD(4) [OF inv] assms(2) by (simp add: reported_ok_def dlg_at_def)
  then show ?thesis using dm_invD(5) [OF inv assms(2)] Get_ref(2) [OF inv] by (auto simp: dlg_ok_def)
qed

definition ex_dm1 :: dialog_manager where
  "ex_dm1 = fst (CreateFromInvite 0 (Manager_SetOnTerminated NewManager) ex_invite)"

definition ex_dm2 :: dialog_manager where
  "ex_dm2 = fst (SendTrying True 1 ex_dm1 0)"

definition ex_dm3 :: dialog_manager where
  "ex_dm3 = fst (SendOK True (Some ex_ok) 2 ex_dm2 0 [])"

definition ex_dm4 :: dialog_manager where
  "ex_dm4 = fst (ConfirmWithACK 3 ex_dm3 ex_invite)"

definition ex_dm5 :: dialog_manager where
  "ex_dm5 = fst (HandleIncomingBYE True 4 ex_dm4 ex_invite)"

lemmas dm_eval = CreateFromInvite_def addDialog_def Manager_SetOnTerminated_def NewManager_def Manager_Get_def
  TTL_Get_def TTL_SetOnEvict_def NewTTLStore_def TTL_Set_def callid_or_empty_def ex_invite_def ex_ok_def Let_def
  upd_dlg_def send_out_def dlg_at_def gm_set_def Entry_IsExpired_def ActiveDialogTTL_def

lemma ex_dm_1: "dm_heap ex_dm1 = [NewDialog 0 ex_invite]" "Manager_Get t ex_dm1 ''call1'' = (if t \<le> secs 14400 then Some 0 else None)"
  by (simp_all add: ex_dm1_def dm_eval not_less)

lemma ex_dm_3:
  "dm_heap ex_dm3 = [(SetInviteResponse ex_ok (SetSession (NewDialog 0 ex_invite)))
     \<lparr>dlg_State := StateWaitingACK, dlg_StateChangedAt := 2\<rparr>]"
  "dm_dialogs ex_dm3 = dm_dialogs ex_dm1"
proof -
  have 2: "dm_heap ex_dm2 = [(NewDialog 0 ex_invite)\<lparr>dlg_State := StateEarly, dlg_StateChangedAt := 1\<rparr>]"
    "dm_dialogs ex_dm2 = dm_dialogs ex_dm1"
    unfolding ex_dm2_def SendTrying_def dlg_at_def ex_dm_1
    by (simp_all add: NewDialog_def ex_dm_1 tryTransition_def TransitionTo_def CanTransitionTo_def)
  show "dm_heap ex_dm3 = [(SetInviteResponse ex_ok (SetSession (NewDialog 0 ex_invite)))
     \<lparr>dlg_State := StateWaitingACK, dlg_StateChangedAt := 2\<rparr>]" "dm_dialogs ex_dm3 = dm_dialogs ex_dm1"
    unfolding ex_dm3_def SendOK_def
    by (simp_all add: Let_def 2 SetSession_def SetInviteResponse_def ex_ok_def ex_addr_def tryTransition_def TransitionTo_def CanTransitionTo_def)
qed

lemma ex_dm_4:
  "dm_heap ex_dm4 = [(SetInviteResponse ex_ok (SetSession (NewDialog 0 ex_invite)))
     \<lparr>dlg_State := StateConfirmed, dlg_StateChangedAt := 3\<rparr>]"
  "dm_dialogs ex_dm4 = dm_dialogs ex_dm1"
proof -
  have "Manager_Get 3 ex_dm3 ''call1'' = Some 0" using ex_dm_1(2) [of 3] by (simp add: Manager_Get_def ex_dm_3)
  moreover have "callid_or_empty (rq_Headers ex_invite) = ''call1''" by (simp add: ex_invite_def callid_or_empty_def)
  ultimately show "dm_heap ex_dm4 = [(SetInviteResponse ex_ok (SetSession (NewDialog 0 ex_invite)))
     \<lparr>dlg_State := StateConfirmed, dlg_StateChangedAt := 3\<rparr>]" "dm_dialogs ex_dm4 = dm_dialogs ex_dm1"
    unfolding ex_dm4_def ConfirmWithACK_def
    by (simp_all add: Let_def dlg_at_def ex_dm_3 TransitionTo_def CanTransitionTo_def)
qed

lemma ex_dm_reachable: "dm_reachable 2 ex_dm3" "dm_reachable 3 ex_dm4" "dm_reachable 4 ex_dm5"
proof -
  have 1: "dm_reachable 0 ex_dm1" unfolding ex_dm1_def by (rule dm_reachable.step [OF dm_reachable.init]) (auto intro: dm_step.invite)
  have 2: "dm_reachable 1 ex_dm2" unfolding ex_dm2_def
    by (rule dm_reachable.step [OF 1]) (auto intro!: dm_step.trying simp: ex_dm_1)
  have len: "dm_heap ex_dm2 \<noteq> []" "dlg_Direction (dlg_at ex_dm2 0) = DirectionInbound"
    unfolding ex_dm2_def SendTrying_def by (simp_all add: ex_dm_1 dlg_at_def NewDialog_def tryTransition_def TransitionTo_def)
  show 3: "dm_reachable 2 ex_dm3" unfolding ex_dm3_def
    by (rule dm_reachable.step [OF 2]) (auto intro!: dm_step.send_ok simp: len)
  show 4: "dm_reachable 3 ex_dm4" unfolding ex_dm4_def
    by (rule dm_reachable.step [OF 3]) (auto intro: dm_step.ack)
  show "dm_reachable 4 ex_dm5" unfolding ex_dm5_def
    by (rule dm_reachable.step [OF 4]) (auto intro: dm_step.bye)
qed

theorem dialog_states_consistent_witness:
  "dlg_State (dlg_at ex_dm4 0) = StateConfirmed \<and> 0 \<notin> fst ` set (dm_reported ex_dm4) \<and>
   \<not> dlg_cancelled (dlg_at ex_dm4 0)"
  using dialog_states_consistent [OF ex_dm_reachable(2), of 0] by (simp add: ex_dm_4 dlg_at_def)

text \<open>
  Property C35. Dialogs only move forward: whatever the manager does, each existing dialog keeps its
  Call-ID and direction, and its state changes, if at all, along transitions the table allows;
  a terminated dialog stays terminated.
\<close>

theorem dialogs_only_advance:
  assumes "dm_reachable t m" and "dm_step now m m'" and "r < length (dm_heap m)"
  shows "r < length (dm_heap m') \<and> dlg_CallID (dlg_at m' r) = dlg_CallID (dlg_at m r) \<and>
    dlg_Direction (dlg_at m' r) = dlg_Direction (dlg_at m r) \<and>
    (\<exists>ts. call.run (dlg_State (dlg_at m r)) ts \<and> last (dlg_State (dlg_at m r) # ts) = dlg_State (dlg_at m' r)) \<and>
    dlg_State (dlg_at m r) \<le> dlg_State (dlg_at m' r)"
proof -
  have "evolves m m'" using dm_step_good [OF assms(2)] dm_reachable_inv [OF assms(1)] by (simp add: good_def)
  moreover have "s \<le> t" if "moves s t" for s t
  proof -
    obtain ts where "call.run s ts" "last (s # ts) = t" using \<open>moves s t\<close> by (auto simp: moves_def)
    then show ?thesis
      using call.run_later [of s ts t] by (cases "ts = []") (auto simp: less_eq_CallState_def)
  qed
  ultimately show ?thesis using assms(3) by (auto simp: evolves_def moves_def)
qed

theorem dialogs_only_advance_witness:
  "dlg_State (dlg_at ex_dm4 0) \<le> dlg_State (dlg_at ex_dm5 0) \<and> dlg_CallID (dlg_at ex_dm5 0) = ''call1''"
proof -
  have "dm_step 4 ex_dm4 ex_dm5" unfolding ex_dm5_def by (rule dm_step.bye)
  from dialogs_only_advance [OF ex_dm_reachable(2) this, of 0] show ?thesis
    by (simp add: ex_dm_4) (simp add: dlg_at_def ex_dm_4 SetSession_def NewDialog_def ex_invite_def callid_or_empty_def)
qed

lemma shutdown_spec:
  assumes "dm_inv m" and "r < length (dm_heap m)"
  shows "dlg_at (shutdown now m r reason) r = killed now reason (dlg_at m r)"
    and "dm_reported (shutdown now m r reason) = dm_reported m @ [(r, reason)]"
    and "Manager_Get t (shutdown now m r reason) callID =
      (if callID = dlg_CallID (dlg_at m r) then (if t \<le> now + TerminatedDialogTTL then Some r else None)
       else Manager_Get t m callID)"
  using assms(2) dm_invD(1) [OF assms(1)] ttl.get_put [OF dm_invD(2) [OF assms(1)]]
  by (simp_all add: dlg_at_def Manager_Get_def shutdown_fields [OF assms(2)])

text \<open>
  A BYE ends the dialog it names: the answer is success, the dialog is terminated with its
  context cancelled (so its media stops), the termination callback has been started, and the
  dialog stays findable for retransmissions for 32 seconds and no longer. A BYE for an unknown
  Call-ID is answered 481 and changes no dialog.
\<close>

theorem bye_outcomes:
  assumes "dm_reachable t0 m" and "HandleIncomingBYE True now m req = (m', err)"
  shows "case Manager_Get now m (callid_or_empty (rq_Headers req)) of
      None \<Rightarrow> err \<noteq> None \<and> m' = send_out (OnRequestTx ''BYE'' 481) m
    | Some r \<Rightarrow> err = None \<and> dlg_State (dlg_at m' r) = StateTerminated \<and> dlg_cancelled (dlg_at m' r) \<and>
        dm_reported m' = dm_reported m @ [(r, ReasonRemoteBYE)] \<and>
        (\<forall>t. Manager_Get t m' (callid_or_empty (rq_Headers req)) = (if t \<le> now + secs 32 then Some r else None))"
proof (cases "Manager_Get now m (callid_or_empty (rq_Headers req))")
  case None
  with assms(2) show ?thesis by (auto simp: HandleIncomingBYE_def Let_def)
next
  case (Some r)
  note inv = dm_reachable_inv [OF assms(1)]
  note ref = Get_ref [OF inv Some]
  define m1 where "m1 = (if dlg_Session (dlg_at m r) then send_out (ReadByeBySession r) m else send_out (OnRequestTx ''BYE'' 200) m)"
  have m1: "dm_inv m1" "r < length (dm_heap m1)" "dlg_at m1 r = dlg_at m r" "dm_reported m1 = dm_reported m"
    using inv ref(1) good_send by (auto simp: m1_def good_def)
  have "m' = shutdown now m1 r ReasonRemoteBYE" "err = None"
    using assms(2) by (auto simp: HandleIncomingBYE_def Some Let_def m1_def)
  with m1 Some ref(2) show ?thesis by (simp add: shutdown_spec TerminatedDialogTTL_def)
qed

lemma ex_invite_callid: "callid_or_empty (rq_Headers ex_invite) = ''call1''"
  by (simp add: ex_invite_def callid_or_empty_def)

lemma ex_dm4_get: "Manager_Get 4 ex_dm4 ''call1'' = Some 0"
  using ex_dm_1(2) [of 4] by (simp add: Manager_Get_def ex_dm_4)

theorem bye_outcomes_witness:
  "dlg_State (dlg_at ex_dm5 0) = StateTerminated \<and> Manager_Get (4 + secs 32) ex_dm5 ''call1'' = Some 0 \<and>
   Manager_Get (5 + secs 32) ex_dm5 ''call1'' = None"
  using bye_outcomes [OF ex_dm_reachable(2) surjective_pairing, of 4 ex_invite]
  by (simp add: ex_dm5_def ex_invite_callid ex_dm4_get)

text \<open>
  An INVITE never creates a second dialog while one with its Call-ID is up: it is given the
  existing one and nothing changes. Otherwise a new inbound dialog in its initial state is
  registered under the Call-ID, and every dialog that existed is untouched.
\<close>

theorem invite_outcomes:
  assumes "dm_reachable t0 m" and "callid_or_empty (rq_Headers req) \<noteq> ''''"
    and "CreateFromInvite now m req = (m', res)"
  shows "case Manager_Get now m (callid_or_empty (rq_Headers req)) of
      Some r \<Rightarrow> if dlg_State (dlg_at m r) \<noteq> StateTerminated then m' = m \<and> res = Inr r
        else res = Inr (length (dm_heap m)) \<and> dm_heap m' = dm_heap m @ [NewDialog now req] \<and>
          Manager_Get now m' (callid_or_empty (rq_Headers req)) = Some (length (dm_heap m))
    | None \<Rightarrow> res = Inr (length (dm_heap m)) \<and> dm_heap m' = dm_heap m @ [NewDialog now req] \<and>
        Manager_Get now m' (callid_or_empty (rq_Headers req)) = Some (length (dm_heap m))"
proof -
  have get: "Manager_Get now (fst (addDialog now m c d)) c = Some (length (dm_heap m))" for c d
    using ttl.get_put [OF dm_invD(2) [OF dm_reachable_inv [OF assms(1)]], of now now c "length (dm_heap m)" ActiveDialogTTL c]
    by (simp add: addDialog_def Manager_Get_def ActiveDialogTTL_def)
  show ?thesis
    using assms(2,3) get [of "callid_or_empty (rq_Headers req)" "NewDialog now req"]
    by (auto simp: CreateFromInvite_def Let_def addDialog_def split: option.splits if_splits)
qed

theorem invite_outcomes_witness:
  "CreateFromInvite 4 ex_dm4 ex_invite = (ex_dm4, Inr 0)"
  using invite_outcomes [OF ex_dm_reachable(2) _ surjective_pairing, of ex_invite 4]
  by (simp add: ex_invite_callid ex_dm4_get prod_eq_iff) (simp add: dlg_at_def ex_dm_4)

text \<open>
  Property C40. A call that is never acknowledged does not linger: when the watcher of a 200 OK wakes up
  after the timeout and the dialog still waits for its ACK, the dialog is terminated with
  reason timeout and reported; a dialog that was confirmed in the meantime is left alone.
\<close>

theorem ack_timeout_outcomes:
  assumes "dm_reachable t0 m" and "(r, since) \<in> set (dm_watchers m)" and "since + dm_ackTimeout m \<le> now"
  shows "if dlg_State (dlg_at m r) = StateWaitingACK
    then dlg_State (dlg_at (watchACKTimeout now m (r, since)) r) = StateTerminated \<and>
      dlg_TerminateReason (dlg_at (watchACKTimeout now m (r, since)) r) = ReasonTimeout \<and>
      dm_reported (watchACKTimeout now m (r, since)) = dm_reported m @ [(r, ReasonTimeout)]
    else dm_heap (watchACKTimeout now m (r, since)) = dm_heap m \<and>
      dm_reported (watchACKTimeout now m (r, since)) = dm_reported m"
proof -
  note inv = dm_reachable_inv [OF assms(1)]
  have ref: "r < length (dm_heap m)" using dm_invD(6) [OF inv assms(2)] by simp
  let ?m0 = "m\<lparr>dm_watchers := remove1 (r, since) (dm_watchers m)\<rparr>"
  have m0: "dm_inv ?m0"
    using inv set_remove1_subset [of "(r, since)" "dm_watchers m"]
    by (auto simp: dm_inv_def store_ok_def reported_ok_def)
  have "\<not> dlg_cancelled (dlg_at m r)" if "dlg_State (dlg_at m r) = StateWaitingACK"
    using dm_invD(5) [OF inv ref] that by (auto simp: dlg_ok_def)
  then show ?thesis
    using assms(3) shutdown_spec(1,2) [OF m0, of r now ReasonTimeout] ref
    by (auto simp: watchACKTimeout_def Let_def dlg_at_def)
qed

lemma ex_dm3_watch: "dm_watchers ex_dm3 = [(0, 2)]" "dm_ackTimeout ex_dm3 = secs 32"
proof -
  have 1: "dm_watchers ex_dm1 = []" "dm_ackTimeout ex_dm1 = secs 32" by (simp_all add: ex_dm1_def dm_eval)
  then have "dm_watchers ex_dm2 = []" "dm_ackTimeout ex_dm2 = secs 32" by (simp_all add: ex_dm2_def SendTrying_def)
  then show "dm_watchers ex_dm3 = [(0, 2)]" "dm_ackTimeout ex_dm3 = secs 32" by (simp_all add: ex_dm3_def SendOK_def Let_def)
qed

theorem ack_timeout_outcomes_witness:
  "dlg_State (dlg_at (watchACKTimeout (secs 33) ex_dm3 (0, 2)) 0) = StateTerminated"
  using ack_timeout_outcomes [OF ex_dm_reachable(1), of 0 2 "secs 33"]
  by (simp add: ex_dm3_watch) (simp add: dlg_at_def ex_dm_3)

lemma reinviteLoop_flag:
  assumes "r < length (dm_heap m)" and "dlg_reInviteInProgress (dlg_at m r)"
  shows "dlg_reInviteInProgress (dlg_at (fst (reinviteLoop r evs m)) r) \<longleftrightarrow> snd (reinviteLoop r evs m) = None"
  using assms
  by (induction r evs m rule: reinviteLoop.induct) (auto simp: Let_def dlg_at_def CompleteReINVITE_def)

text \<open>
  Re-INVITEs on a dialog exclude each other: while one waits for its final response, another
  is refused and nothing is sent; once one returns, on whichever path, the dialog can be
  re-invited again (a panic aside).
\<close>

theorem reinvite_exclusive:
  assumes "r < length (dm_heap m)" and "SendReINVITE ord pu txok evs m r contact opts = (m', res)"
  shows "(dlg_reInviteInProgress (dlg_at m r) \<longrightarrow>
      (\<exists>e. res = Some (ReinviteRefused e)) \<and> dm_sent m' = dm_sent m \<and> dlg_reInviteInProgress (dlg_at m' r)) \<and>
    (\<not> dlg_reInviteInProgress (dlg_at m r) \<and> res \<noteq> Some (ReinviteRefused (BuildFailed NilPointer)) \<longrightarrow>
      (dlg_reInviteInProgress (dlg_at m' r) \<longleftrightarrow> res = None))"
proof (cases "dlg_State (dlg_at m r) = StateConfirmed")
  case False
  with assms(2) show ?thesis by (auto simp: SendReINVITE_def Let_def)
next
  case True
  obtain d' x where b: "BuildReINVITE ord pu contact opts (dlg_at m r) = (d', x)" by fastforce
  show ?thesis
  proof (cases x)
    case (Inl e)
    have "m' = upd_dlg r (\<lambda>_. d') m" "res = Some (ReinviteRefused (BuildFailed e))"
      using assms(2) True b Inl by (auto simp: SendReINVITE_def Let_def)
    moreover have "d' = dlg_at m r" if "dlg_reInviteInProgress (dlg_at m r) \<or> e \<noteq> NilPointer"
      using that b Inl BuildReINVITE_Inl by (auto simp: BuildReINVITE_def split: option.splits)
    ultimately show ?thesis using assms(1) by (auto simp: dlg_at_def)
  next
    case (Inr req)
    note d' = BuildReINVITE_Inr [OF b [unfolded Inr]]
    let ?m2 = "send_out (SentRequest r req) (upd_dlg r (\<lambda>_. d') m)"
    have loop: "r < length (dm_heap ?m2)" "dlg_reInviteInProgress (dlg_at ?m2 r)"
      using assms(1) d'(1) by (simp_all add: dlg_at_def)
    show ?thesis
    proof (cases txok)
      case True
      then have "(m', res) = reinviteLoop r evs ?m2"
        using assms(2) \<open>dlg_State (dlg_at m r) = StateConfirmed\<close> b Inr by (simp add: SendReINVITE_def Let_def)
      then show ?thesis using d'(2) reinviteLoop_flag [OF loop, of evs]
        by (metis fst_conv snd_conv)
    next
      case False
      then show ?thesis
        using assms \<open>dlg_State (dlg_at m r) = StateConfirmed\<close> b Inr d'(2)
        by (auto simp: SendReINVITE_def Let_def dlg_at_def CompleteReINVITE_def)
    qed
  qed
qed

theorem reinvite_exclusive_witness:
  "dlg_reInviteInProgress (dlg_at (fst (SendReINVITE id (\<lambda>_. None) True [] ex_dm4 0 (ex_uri ''sb'')
     \<lparr>ro_SDP = '''', ro_Headers = [], ro_HoldType = HoldTypeNone\<rparr>)) 0)"
proof -
  define opts where "opts = \<lparr>ro_SDP = [], ro_Headers = [], ro_HoldType = HoldTypeNone\<rparr>"
  have "snd (SendReINVITE id (\<lambda>_. None) True [] ex_dm4 0 (ex_uri ''sb'') opts) = None"
    by (simp add: SendReINVITE_def dlg_at_def ex_dm_4 Let_def BuildReINVITE_def requestTarget_def SetSession_def SetInviteResponse_def
        NewDialog_def ex_ok_def ex_invite_def ex_addr_def opts_def)
  moreover have "0 < length (dm_heap ex_dm4)" "\<not> dlg_reInviteInProgress (dlg_at ex_dm4 0)"
    by (simp_all add: dlg_at_def ex_dm_4 SetSession_def SetInviteResponse_def NewDialog_def ex_ok_def ex_addr_def)
  ultimately show ?thesis
    using reinvite_exclusive [OF _ surjective_pairing, of 0 ex_dm4 id "\<lambda>_. None" True "[]" "ex_uri ''sb''" opts]
    unfolding opts_def by auto
qed

text \<open>
  A retransmitted BYE is not recognised as such: the termination callback runs a second
  time for a dialog that is already terminated, the recorded reason is overwritten (here a
  dialog we ended ourselves becomes \<open>RemoteBYE\<close>) and its removal is postponed.
\<close>

theorem bye_retransmission_reported_again:
  assumes "dm_reachable t0 m" and "Manager_Get now m (callid_or_empty (rq_Headers req)) = Some r"
    and "dlg_State (dlg_at m r) = StateTerminated"
  shows "r \<in> fst ` set (dm_reported m) \<and>
    dm_reported (fst (HandleIncomingBYE ok now m req)) = dm_reported m @ [(r, ReasonRemoteBYE)] \<and>
    dlg_TerminateReason (dlg_at (fst (HandleIncomingBYE ok now m req)) r) = ReasonRemoteBYE"
proof -
  note inv = dm_reachable_inv [OF assms(1)]
  note ref = Get_ref [OF inv assms(2)]
  define m1 where "m1 = (if dlg_Session (dlg_at m r) then send_out (ReadByeBySession r) m
    else if ok then send_out (OnRequestTx ''BYE'' 200) m else m)"
  have m1: "dm_inv m1" "r < length (dm_heap m1)" "dm_reported m1 = dm_reported m"
    using inv ref(1) good_send by (auto simp: m1_def good_def)
  have "fst (HandleIncomingBYE ok now m req) = shutdown now m1 r ReasonRemoteBYE"
    by (simp add: HandleIncomingBYE_def assms(2) Let_def m1_def)
  moreover have "r \<in> fst ` set (dm_reported m)"
    using dm_invD(4) [OF inv] ref(1) assms(3) by (simp add: reported_ok_def dlg_at_def)
  ultimately show ?thesis using shutdown_spec(1,2) [OF m1(1,2)] m1(3) by simp
qed

lemma ex_dm5_facts:
  "dlg_State (dlg_at ex_dm5 0) = StateTerminated" "dm_reported ex_dm5 = [(0, ReasonRemoteBYE)]"
  "Manager_Get 5 ex_dm5 ''call1'' = Some 0"
proof -
  let ?m = "send_out (ReadByeBySession 0) ex_dm4"
  have inv: "dm_inv ex_dm4" using dm_reachable_inv ex_dm_reachable(2) by blast
  then have inv': "dm_inv ?m" using good_send by (auto simp: good_def)
  have "{r. r < length (dm_heap ex_dm4) \<and> dlg_State (dm_heap ex_dm4 ! r) = StateTerminated} = {}"
    by (auto simp: ex_dm_4 less_Suc_eq)
  then have none: "dm_reported ex_dm4 = []" using dm_invD(4) [OF inv] unfolding reported_ok_def by (metis image_is_empty set_empty)
  have d: "dlg_Session (dlg_at ex_dm4 0)" "dlg_CallID (dlg_at ex_dm4 0) = ''call1''" "0 < length (dm_heap ?m)"
    by (simp_all add: dlg_at_def ex_dm_4 SetSession_def) (simp add: NewDialog_def ex_invite_callid)
  have five: "ex_dm5 = shutdown 4 ?m 0 ReasonRemoteBYE"
    by (simp add: ex_dm5_def HandleIncomingBYE_def ex_invite_callid ex_dm4_get Let_def d(1))
  show "dlg_State (dlg_at ex_dm5 0) = StateTerminated" "dm_reported ex_dm5 = [(0, ReasonRemoteBYE)]"
    "Manager_Get 5 ex_dm5 ''call1'' = Some 0"
    unfolding five shutdown_spec [OF inv' d(3)] by (simp_all add: none d(2) TerminatedDialogTTL_def)
qed

theorem bye_retransmission_reported_again_witness:
  "length (dm_reported (fst (HandleIncomingBYE True 5 ex_dm5 ex_invite))) = 2"
  using bye_retransmission_reported_again [OF ex_dm_reachable(3), of 5 ex_invite 0 True]
  by (simp add: ex_invite_callid ex_dm5_facts)

text \<open>
  The store forgets calls that are still up: nothing refreshes a dialog's entry, so once
  four hours have passed since it was created, a confirmed dialog cannot be found any more. Its
  own BYE is then answered 481 and it is never reported as terminated, although cleanup
  removes it.
\<close>

theorem active_dialog_forgotten:
  assumes "dm_reachable t0 m" and "callid_or_empty (rq_Headers req) \<noteq> ''''"
    and "Manager_Get now m (callid_or_empty (rq_Headers req)) = None"
    and "now + secs (4 * 60 * 60) < later"
  shows "\<exists>m'. CreateFromInvite now m req = (m', Inr (length (dm_heap m))) \<and>
    HandleIncomingBYE True later m' req =
      (send_out (OnRequestTx ''BYE'' 481) m', Some (DialogNotFound (callid_or_empty (rq_Headers req)))) \<and>
    length (dm_heap m) \<notin> fst ` set (dm_reported m')"
proof -
  let ?c = "callid_or_empty (rq_Headers req)"
  let ?m' = "fst (addDialog now m ?c (NewDialog now req))"
  note inv = dm_reachable_inv [OF assms(1)]
  have "Manager_Get later ?m' ?c = None"
    using ttl.get_gone [OF dm_invD(2) [OF inv], of now ActiveDialogTTL later ?c "length (dm_heap m)"] assms(4)
    by (simp add: addDialog_def Manager_Get_def ActiveDialogTTL_def)
  moreover have "length (dm_heap m) \<notin> fst ` set (dm_reported ?m')"
    using dm_invD(4) [OF inv] by (auto simp: addDialog_def reported_ok_def)
  ultimately show ?thesis using assms(2,3)
    by (intro exI [of _ ?m']) (auto simp: CreateFromInvite_def HandleIncomingBYE_def Let_def addDialog_def)
qed

theorem active_dialog_forgotten_witness:
  "\<exists>m'. CreateFromInvite 0 (Manager_SetOnTerminated NewManager) ex_invite = (m', Inr 0) \<and>
     snd (HandleIncomingBYE True (secs 14401) m' ex_invite) = Some (DialogNotFound ''call1'')"
  using active_dialog_forgotten [OF dm_reachable.init, of ex_invite 0 "secs 14401"]
  by (auto simp: ex_invite_callid) (auto simp: Manager_SetOnTerminated_def NewManager_def Manager_Get_def)

text \<open>
  An INVITE inside a call we placed (a re-INVITE from the called party, say to put the call on
  hold) crashes the handler: the dialog it is matched with has no server transaction, and
  answering 100 Trying dereferences nil.
\<close>

theorem reinvite_on_outbound_panics:
  assumes "dm_reachable t0 m" and "Manager_Get now m (callid_or_empty (rq_Headers req)) = Some r"
    and "dlg_Direction (dlg_at m r) = DirectionOutbound" and "dlg_State (dlg_at m r) = StateConfirmed"
    and "callid_or_empty (rq_Headers req) \<noteq> ''''"
  shows "CreateFromInvite now m req = (m, Inr r) \<and> SendTrying ok now m r = (m, Some NilTransaction)"
proof -
  note inv = dm_reachable_inv [OF assms(1)]
  have "\<not> dlg_Transaction (dlg_at m r)"
    using dm_invD(5) [OF inv Get_ref(1) [OF inv assms(2)]] assms(3) by (simp add: dlg_ok_def)
  then show ?thesis using assms(2,4,5) by (simp add: CreateFromInvite_def SendTrying_def Let_def)
qed

theorem reinvite_on_outbound_panics_witness:
  "SendTrying True 1 (fst (RegisterOutbound (\<lambda>_. []) 0 (Manager_SetOnTerminated NewManager) ex_invite ex_ok)) 0 =
     (fst (RegisterOutbound (\<lambda>_. []) 0 (Manager_SetOnTerminated NewManager) ex_invite ex_ok), Some NilTransaction)"
proof -
  let ?m = "fst (RegisterOutbound (\<lambda>_. []) 0 (Manager_SetOnTerminated NewManager) ex_invite ex_ok)"
  have "dm_reachable 0 ?m" by (rule dm_reachable.step [OF dm_reachable.init]) (auto intro: dm_step.outbound)
  moreover have "dm_heap ?m = [NewOutboundDialog (\<lambda>_. []) 0 ex_invite ex_ok]"
    by (simp add: RegisterOutbound_def dm_eval)
  moreover have "Manager_Get 1 ?m ''call1'' = Some 0" by (simp add: RegisterOutbound_def dm_eval)
  ultimately show ?thesis
    using reinvite_on_outbound_panics [of 0 ?m 1 ex_invite 0 True]
    by (simp add: ex_invite_callid dlg_at_def) (simp add: NewOutboundDialog_def)
qed

end
