(* ===== verification/Grpc_Transport.thy ===== *)
theory Grpc_Transport
  imports Rtp_Server
begin

text \<open>
  \<open>internal/signaling/mediaclient/transport.go\<close> and \<open>grpc.go\<close>: the signaling side's client of
  one RTP manager, together with the server it talks to.

  A remote procedure call (\<open>rpc\<close>) either never reaches the server, or reaches it and its
  answer is lost, or succeeds; the client sees the first two as the same error. The server
  behind the connection is the model of \<open>Rtp_Server\<close>, so each client operation runs the
  handler it calls. \<open>create_env\<close> holds what a session creation on the server depends on:
  iteration order of its port pool, SDP marshalling, the fresh identifier and the clock.

  The locale \<open>media_transport\<close> is the part of the \<open>Transport\<close> interface the pool relies on.
\<close>

datatype rpc = Delivered | NotDelivered | ReplyLost

record session_info =
  si_CallID :: string
  si_RemoteAddr :: string
  si_RemotePort :: int
  si_OfferedCodecs :: "string list"

record session_result =
  sr_SessionID :: string
  sr_LocalAddr :: string
  sr_LocalPort :: int
  sr_SDPBody :: string
  sr_SelectedCodec :: string

datatype MediaTerminateReason =
    TerminateReasonNormal
  | TerminateReasonBYE
  | TerminateReasonCancel
  | TerminateReasonError
  | TerminateReasonTimeout

datatype transport_error =
    RPCFailed
  | SessionCreationFailed "server_error option"
  | UpdateRemoteFailed "server_error option"
  | BridgeMediaFailed "server_error option"
  | UnbridgeMediaFailed "server_error option"

record grpc_transport =
  gt_conn :: bool
  gt_ready :: bool
  gt_callToSession :: "(string, string) gomap"
  gt_server :: rtp_server

record create_env =
  ce_ord :: "(int, bool) range_order"
  ce_marshal :: sdp_marshal
  ce_uuid :: string
  ce_now :: time

definition NewGRPCTransport :: "bool \<Rightarrow> rtp_server \<Rightarrow> grpc_transport option" where
  "NewGRPCTransport dialOk server =
     (if dialOk then Some \<lparr>gt_conn = True, gt_ready = True, gt_callToSession = [], gt_server = server\<rparr> else None)"

definition call_rpc :: "rpc \<Rightarrow> (rtp_server \<Rightarrow> rtp_server \<times> 'r) \<Rightarrow> grpc_transport \<Rightarrow> grpc_transport \<times> 'r option" where
  "call_rpc rpc handler t =
     (case rpc of
        NotDelivered \<Rightarrow> (t, None)
      | ReplyLost \<Rightarrow> (t\<lparr>gt_server := fst (handler (gt_server t))\<rparr>, None)
      | Delivered \<Rightarrow> (case handler (gt_server t) of (s, r) \<Rightarrow> (t\<lparr>gt_server := s\<rparr>, Some r)))"

definition createResult ::
  "string \<Rightarrow> grpc_transport \<times> create_session_response option \<Rightarrow> grpc_transport \<times> (transport_error + session_result)" where
  "createResult callID outcome =
     (case outcome of
        (t, None) \<Rightarrow> (t, Inl RPCFailed)
      | (t, Some resp) \<Rightarrow>
          if ss_State (csr_Status resp) = SESSION_STATE_ERROR then (t, Inl (SessionCreationFailed (ss_Error (csr_Status resp))))
          else
            (t\<lparr>gt_callToSession := gm_set (gt_callToSession t) callID (csr_SessionId resp)\<rparr>,
             Inr \<lparr>sr_SessionID = csr_SessionId resp, sr_LocalAddr = csr_LocalAddr resp, sr_LocalPort = csr_LocalPort resp,
                  sr_SDPBody = csr_SdpBody resp, sr_SelectedCodec = csr_SelectedCodec resp\<rparr>))"

definition GRPC_CreateSession ::
  "rpc \<Rightarrow> create_env \<Rightarrow> session_info \<Rightarrow> grpc_transport \<Rightarrow> grpc_transport \<times> (transport_error + session_result)" where
  "GRPC_CreateSession rpc env info t =
     createResult (si_CallID info)
       (call_rpc rpc
         (\<lambda>s. Server_CreateSession (ce_ord env) (ce_marshal env) (ce_uuid env) (ce_now env) s
            (si_CallID info) (si_RemoteAddr info) (int32 (si_RemotePort info)) (si_OfferedCodecs info)) t)"

definition GRPC_CreateSessionPendingRemote ::
  "rpc \<Rightarrow> create_env \<Rightarrow> string \<Rightarrow> string list \<Rightarrow> grpc_transport \<Rightarrow> grpc_transport \<times> (transport_error + session_result)" where
  "GRPC_CreateSessionPendingRemote rpc env callID codecs t =
     createResult callID
       (call_rpc rpc
         (\<lambda>s. Server_CreateSession (ce_ord env) (ce_marshal env) (ce_uuid env) (ce_now env) s callID '''' 0 codecs) t)"

definition GRPC_CreateSessionPendingRemoteOnNode ::
  "rpc \<Rightarrow> create_env \<Rightarrow> string \<Rightarrow> string \<Rightarrow> string list \<Rightarrow> grpc_transport \<Rightarrow>
   grpc_transport \<times> (transport_error + session_result)" where
  "GRPC_CreateSessionPendingRemoteOnNode rpc env peerSessionID callID codecs t =
     GRPC_CreateSessionPendingRemote rpc env callID codecs t"

text \<open>The protobuf enum the reason is converted to; a Go conversion keeps the number.\<close>

fun MediaTerminateReason_iota :: "MediaTerminateReason \<Rightarrow> nat" where
  "MediaTerminateReason_iota TerminateReasonNormal = 0"
| "MediaTerminateReason_iota TerminateReasonBYE = 1"
| "MediaTerminateReason_iota TerminateReasonCancel = 2"
| "MediaTerminateReason_iota TerminateReasonError = 3"
| "MediaTerminateReason_iota TerminateReasonTimeout = 4"

datatype pb_TerminateReason =
    TERMINATE_REASON_UNSPECIFIED
  | TERMINATE_REASON_NORMAL
  | TERMINATE_REASON_BYE
  | TERMINATE_REASON_CANCEL
  | TERMINATE_REASON_ERROR
  | TERMINATE_REASON_TIMEOUT

definition pb_reason_of_number :: "nat \<Rightarrow> pb_TerminateReason" where
  "pb_reason_of_number n =
     [TERMINATE_REASON_UNSPECIFIED, TERMINATE_REASON_NORMAL, TERMINATE_REASON_BYE, TERMINATE_REASON_CANCEL,
      TERMINATE_REASON_ERROR, TERMINATE_REASON_TIMEOUT] ! n"

definition destroyRequestReason :: "MediaTerminateReason \<Rightarrow> pb_TerminateReason" where
  "destroyRequestReason reason = pb_reason_of_number (MediaTerminateReason_iota reason)"

text \<open>\<open>for callID, sid := range t.callToSession\<close>: delete the first entry of that session, and stop.\<close>

fun dropFirst :: "string \<Rightarrow> (string \<times> string) list \<Rightarrow> (string, string) gomap \<Rightarrow> (string, string) gomap" where
  "dropFirst sessionID [] m = m"
| "dropFirst sessionID ((callID, sid) # es) m = (if sid = sessionID then gm_del m callID else dropFirst sessionID es m)"

definition GRPC_DestroySession ::
  "(string, string) range_order \<Rightarrow> rpc \<Rightarrow> string \<Rightarrow> MediaTerminateReason \<Rightarrow> grpc_transport \<Rightarrow>
   grpc_transport \<times> transport_error option" where
  "GRPC_DestroySession ord rpc sessionID reason t =
     (case call_rpc rpc (\<lambda>s. Server_DestroySession s sessionID) t of
        (t', None) \<Rightarrow> (t', Some RPCFailed)
      | (t', Some _) \<Rightarrow>
          (t'\<lparr>gt_callToSession := dropFirst sessionID (ord (gt_callToSession t')) (gt_callToSession t')\<rparr>, None))"

definition GRPC_StopAudio :: "rpc \<Rightarrow> string \<Rightarrow> grpc_transport \<Rightarrow> grpc_transport \<times> transport_error option" where
  "GRPC_StopAudio rpc sessionID t =
     (case call_rpc rpc (\<lambda>s. Server_StopAudio s sessionID) t of
        (t', None) \<Rightarrow> (t', Some RPCFailed)
      | (t', Some _) \<Rightarrow> (t', None))"

definition GRPC_UpdateSessionRemote ::
  "rpc \<Rightarrow> string \<Rightarrow> string \<Rightarrow> int \<Rightarrow> grpc_transport \<Rightarrow> grpc_transport \<times> transport_error option" where
  "GRPC_UpdateSessionRemote rpc sessionID remoteAddr remotePort t =
     (case call_rpc rpc (\<lambda>s. Server_UpdateSessionRemote s sessionID remoteAddr (int32 remotePort)) t of
        (t', None) \<Rightarrow> (t', Some RPCFailed)
      | (t', Some st) \<Rightarrow>
          (t', if ss_State st = SESSION_STATE_ERROR then Some (UpdateRemoteFailed (ss_Error st)) else None))"

definition GRPC_BridgeMedia ::
  "udp_listen \<Rightarrow> string \<Rightarrow> rpc \<Rightarrow> string \<Rightarrow> string \<Rightarrow> grpc_transport \<Rightarrow> grpc_transport \<times> (transport_error + string)" where
  "GRPC_BridgeMedia listen uuid rpc sessionAID sessionBID t =
     (case call_rpc rpc (\<lambda>s. Server_BridgeMedia listen uuid s sessionAID sessionBID) t of
        (t', None) \<Rightarrow> (t', Inl RPCFailed)
      | (t', Some resp) \<Rightarrow>
          (t', if ss_State (brr_Status resp) = SESSION_STATE_ERROR then Inl (BridgeMediaFailed (ss_Error (brr_Status resp)))
               else Inr (brr_BridgeId resp)))"

definition GRPC_UnbridgeMedia :: "rpc \<Rightarrow> string \<Rightarrow> grpc_transport \<Rightarrow> grpc_transport \<times> transport_error option" where
  "GRPC_UnbridgeMedia rpc bridgeID t =
     (case call_rpc rpc (\<lambda>s. Server_UnbridgeMedia s bridgeID '''') t of
        (t', None) \<Rightarrow> (t', Some RPCFailed)
      | (t', Some resp) \<Rightarrow>
          (t', if ss_State (brr_Status resp) = SESSION_STATE_ERROR then Some (UnbridgeMediaFailed (ss_Error (brr_Status resp)))
               else None))"

definition GRPC_Ready :: "rpc \<Rightarrow> grpc_transport \<Rightarrow> bool" where
  "GRPC_Ready rpc t =
     (if \<not> gt_ready t \<or> \<not> gt_conn t then False
      else (case call_rpc rpc (\<lambda>s. (s, Server_Health s)) t of (_, None) \<Rightarrow> False | (_, Some resp) \<Rightarrow> hr_Healthy resp))"

definition GRPC_Close :: "grpc_transport \<Rightarrow> grpc_transport" where
  "GRPC_Close t = t\<lparr>gt_ready := False\<rparr>"

definition GRPC_GetSessionID :: "grpc_transport \<Rightarrow> string \<Rightarrow> string option" where
  "GRPC_GetSessionID t callID = map_of (gt_callToSession t) callID"

text \<open>
  The goroutine of \<open>PlayAudio\<close>: it turns the received events into statuses until the stream
  ends (end of file, an error, or a final event). The result also says whether the
  \<open>OnComplete\<close> callback was called.
\<close>

datatype stream_msg = StreamEOF | StreamErr | PbStarted | PbProgress | PbCompleted | PbStopped | PbError string

datatype PlayState = PlayStateStarted | PlayStateProgress | PlayStateCompleted | PlayStateStopped | PlayStateError

fun playStatuses :: "stream_msg list \<Rightarrow> PlayState list \<times> bool" where
  "playStatuses [] = ([], False)"
| "playStatuses (StreamEOF # ms) = ([], False)"
| "playStatuses (StreamErr # ms) = ([PlayStateError], False)"
| "playStatuses (PbStarted # ms) = (case playStatuses ms of (sts, c) \<Rightarrow> (PlayStateStarted # sts, c))"
| "playStatuses (PbProgress # ms) = (case playStatuses ms of (sts, c) \<Rightarrow> (PlayStateProgress # sts, c))"
| "playStatuses (PbCompleted # ms) = ([PlayStateCompleted], True)"
| "playStatuses (PbStopped # ms) = ([PlayStateStopped], False)"
| "playStatuses (PbError e # ms) = (case playStatuses ms of (sts, c) \<Rightarrow> (PlayStateError # sts, c))"

text \<open>
  \<open>Transport.PlayAudio\<close> opens the stream at the RTP manager that holds the session; a stream whose answer
  is lost fails when it is read.
\<close>

definition GRPC_PlayAudio ::
  "(string, codec_config) range_order \<Rightarrow> rpc \<Rightarrow> string \<Rightarrow> string \<Rightarrow> grpc_transport \<Rightarrow> grpc_transport \<times> transport_error option" where
  "GRPC_PlayAudio ord rpc sessionID file t =
     (case call_rpc rpc (\<lambda>s. (fst (Server_PlayAudio_start ord s sessionID file), ())) t of
        (t', _) \<Rightarrow> (t', if rpc = NotDelivered then Some RPCFailed else None))"

section \<open>The sessions behind a transport\<close>

definition gt_holds :: "grpc_transport \<Rightarrow> string set" where
  "gt_holds t = gm_keys (sm_sessions (srv_sessionMgr (gt_server t)))"

definition gt_inv :: "grpc_transport \<Rightarrow> bool" where
  "gt_inv t \<longleftrightarrow> sm_inv (srv_sessionMgr (gt_server t))"

definition env_fresh :: "create_env \<Rightarrow> string set \<Rightarrow> bool" where
  "env_fresh env used \<longleftrightarrow> is_range (ce_ord env) \<and> ce_uuid env \<notin> used"

text \<open>
  What the pool needs of a transport: a successful creation names a session the other side
  holds; a creation adds at most its own new session, even when the answer is lost; a
  successful destruction leaves the session gone and touches no other.
\<close>

locale media_transport =
  fixes holds :: "'t \<Rightarrow> 'i set"
    and inv :: "'t \<Rightarrow> bool"
    and create :: "'c \<Rightarrow> 'env \<Rightarrow> 'x \<Rightarrow> 't \<Rightarrow> 't \<times> ('e + 'r)"
    and destroy :: "'c \<Rightarrow> 'i \<Rightarrow> 't \<Rightarrow> 't \<times> 'e option"
    and id_of :: "'r \<Rightarrow> 'i" and new_id :: "'env \<Rightarrow> 'i" and fresh :: "'env \<Rightarrow> 'i set \<Rightarrow> bool"
  assumes create_inv: "inv t \<Longrightarrow> fresh env (holds t) \<Longrightarrow> inv (fst (create c env x t))"
    and create_keeps: "inv t \<Longrightarrow> fresh env (holds t) \<Longrightarrow> holds t \<subseteq> holds (fst (create c env x t))"
    and create_adds: "inv t \<Longrightarrow> fresh env (holds t) \<Longrightarrow> holds (fst (create c env x t)) \<subseteq> insert (new_id env) (holds t)"
    and create_id: "inv t \<Longrightarrow> fresh env (holds t) \<Longrightarrow> create c env x t = (t', Inr r) \<Longrightarrow> id_of r \<in> holds t'"
    and destroy_inv: "inv t \<Longrightarrow> inv (fst (destroy c i t))"
    and destroy_keeps: "inv t \<Longrightarrow> holds t - {i} \<subseteq> holds (fst (destroy c i t)) \<and> holds (fst (destroy c i t)) \<subseteq> holds t"
    and destroy_ok: "inv t \<Longrightarrow> destroy c i t = (t', None) \<Longrightarrow> i \<notin> holds t'"
begin

lemma create_destroy:
  assumes "inv t" and "fresh env (holds t)" and "create c env x t = (t1, Inr r)" and "id_of r \<notin> holds t"
    and "destroy c' (id_of r) t1 = (t2, None)"
  shows "holds t2 = holds t"
proof -
  have t1: "inv t1" "holds t \<subseteq> holds t1" "holds t1 \<subseteq> insert (new_id env) (holds t)" "id_of r \<in> holds t1"
    using create_inv [OF assms(1,2), of c x] create_keeps [OF assms(1,2), of c x] create_adds [OF assms(1,2), of c x]
      create_id [OF assms(1,2,3)] assms(3) by auto
  have "id_of r = new_id env" using t1(3,4) assms(4) by blast
  then have "holds t1 \<subseteq> insert (id_of r) (holds t)" using t1(3) by simp
  then have t1': "holds t1 = insert (id_of r) (holds t)" using t1(2,4) by (intro equalityI insert_subsetI)
  have keeps: "holds t1 - {id_of r} \<subseteq> holds t2 \<and> holds t2 \<subseteq> holds t1"
    using destroy_keeps [OF t1(1), of "id_of r" c'] unfolding assms(5) fst_conv .
  have gone: "id_of r \<notin> holds t2" using destroy_ok [OF t1(1) assms(5)] .
  show ?thesis
  proof (rule equalityI)
    show "holds t2 \<subseteq> holds t" using keeps unfolding t1' by (simp add: subset_insert [OF gone])
    show "holds t \<subseteq> holds t2" using keeps assms(4) unfolding t1' by simp
  qed
qed

end

lemma call_rpc_server:
  "gt_server (fst (call_rpc rpc handler t)) = (if rpc = NotDelivered then gt_server t else fst (handler (gt_server t)))"
  "gt_callToSession (fst (call_rpc rpc handler t)) = gt_callToSession t"
  by (cases rpc; simp add: call_rpc_def split: prod.split)+

lemma createResult_server: "gt_server (fst (createResult callID outcome)) = gt_server (fst outcome)"
  by (cases outcome) (simp add: createResult_def split: option.split)

lemma Server_CreateSession_holds:
  assumes inv: "sm_inv (srv_sessionMgr s)" and "is_range ord" and "uuid \<notin> gm_keys (sm_sessions (srv_sessionMgr s))"
    and "Server_CreateSession ord marshal uuid now s c ra rp codecs = (s', resp)"
  shows "sm_inv (srv_sessionMgr s')"
    and "gm_keys (sm_sessions (srv_sessionMgr s)) \<subseteq> gm_keys (sm_sessions (srv_sessionMgr s'))"
    and "gm_keys (sm_sessions (srv_sessionMgr s')) \<subseteq> insert uuid (gm_keys (sm_sessions (srv_sessionMgr s)))"
    and "ss_State (csr_Status resp) \<noteq> SESSION_STATE_ERROR \<Longrightarrow> csr_SessionId resp \<in> gm_keys (sm_sessions (srv_sessionMgr s'))"
proof -
  obtain m res where c: "SessionMgr_CreateSession ord marshal uuid now (srv_sessionMgr s) c ra rp codecs = (m, res)" by fastforce
  have s': "srv_sessionMgr s' = m" using assms(4) c by (auto simp: Server_CreateSession_def split: sum.splits)
  show "sm_inv (srv_sessionMgr s')"
    using creates_inv [OF CreateSession_creates [OF c] inv assms(2,3)] s' by simp
  have *: "gm_keys (sm_sessions (srv_sessionMgr s)) \<subseteq> gm_keys (sm_sessions m) \<and>
      gm_keys (sm_sessions m) \<subseteq> insert uuid (gm_keys (sm_sessions (srv_sessionMgr s))) \<and>
      (\<forall>sess sdp. res = Inr (sess, sdp) \<longrightarrow> sess_ID sess \<in> gm_keys (sm_sessions m))"
    using CreateSession_creates [OF c]
  proof cases
    case (existing sess sdp)
    then obtain sid where "map_of (sm_sessions (srv_sessionMgr s)) sid = Some sess"
      by (auto simp: existingSession_def split: option.splits)
    moreover from sm_invD(5) [OF inv this] have "sess_ID sess = sid" by (simp add: session_ok_def)
    ultimately show ?thesis using existing by auto
  qed auto
  then show "gm_keys (sm_sessions (srv_sessionMgr s)) \<subseteq> gm_keys (sm_sessions (srv_sessionMgr s'))"
    and "gm_keys (sm_sessions (srv_sessionMgr s')) \<subseteq> insert uuid (gm_keys (sm_sessions (srv_sessionMgr s)))"
    using s' by simp_all
  show "csr_SessionId resp \<in> gm_keys (sm_sessions (srv_sessionMgr s'))" if "ss_State (csr_Status resp) \<noteq> SESSION_STATE_ERROR"
    using * that assms(4) c unfolding s'
    by (auto simp: Server_CreateSession_def status_error_def split: sum.splits)
qed

text \<open>Both creation calls are of this form.\<close>

lemma createResult_transport:
  assumes "gt_inv t" and "env_fresh env (gt_holds t)"
    and "handler = (\<lambda>s. Server_CreateSession (ce_ord env) (ce_marshal env) (ce_uuid env) (ce_now env) s c ra rp codecs)"
  shows "gt_inv (fst (createResult callID (call_rpc rpc handler t)))"
    and "gt_holds t \<subseteq> gt_holds (fst (createResult callID (call_rpc rpc handler t)))"
    and "gt_holds (fst (createResult callID (call_rpc rpc handler t))) \<subseteq> insert (ce_uuid env) (gt_holds t)"
    and "createResult callID (call_rpc rpc handler t) = (t', Inr r) \<Longrightarrow> sr_SessionID r \<in> gt_holds t'"
proof -
  obtain s' resp where h: "handler (gt_server t) = (s', resp)" by fastforce
  have pre: "sm_inv (srv_sessionMgr (gt_server t))" "is_range (ce_ord env)"
    "ce_uuid env \<notin> gm_keys (sm_sessions (srv_sessionMgr (gt_server t)))"
    using assms(1,2) by (simp_all add: gt_inv_def env_fresh_def gt_holds_def)
  note srv = Server_CreateSession_holds [OF pre h [unfolded assms(3)]]
  show "gt_inv (fst (createResult callID (call_rpc rpc handler t)))"
    and "gt_holds t \<subseteq> gt_holds (fst (createResult callID (call_rpc rpc handler t)))"
    and "gt_holds (fst (createResult callID (call_rpc rpc handler t))) \<subseteq> insert (ce_uuid env) (gt_holds t)"
    using pre(1) srv(1-3) by (auto simp: gt_inv_def gt_holds_def createResult_server call_rpc_server h)
  show "sr_SessionID r \<in> gt_holds t'" if "createResult callID (call_rpc rpc handler t) = (t', Inr r)"
    using that srv(4) h
    by (cases rpc) (auto simp: createResult_def call_rpc_def gt_holds_def split: if_splits)
qed

lemma DestroySession_holds:
  "gm_keys (sm_sessions (fst (SessionMgr_DestroySession m sid))) = gm_keys (sm_sessions m) - {sid}"
  by (auto simp: SessionMgr_DestroySession_def map_of_None_keys split: option.split)

lemma GRPC_DestroySession_server:
  "gt_server (fst (GRPC_DestroySession ord rpc sid reason t)) =
     (if rpc = NotDelivered then gt_server t else fst (Server_DestroySession (gt_server t) sid))"
  using call_rpc_server(1) [of rpc "\<lambda>s. Server_DestroySession s sid" t]
  by (auto simp: GRPC_DestroySession_def split: prod.split option.split)

lemma GRPC_DestroySession_None: "snd (GRPC_DestroySession ord rpc sid reason t) = None \<longleftrightarrow> rpc = Delivered"
  by (cases rpc) (auto simp: GRPC_DestroySession_def call_rpc_def split: prod.split)

lemma GRPC_DestroySession_transport:
  assumes "gt_inv t"
  shows "gt_inv (fst (GRPC_DestroySession ord rpc sid reason t))"
    and "gt_holds t - {sid} \<subseteq> gt_holds (fst (GRPC_DestroySession ord rpc sid reason t))"
    and "gt_holds (fst (GRPC_DestroySession ord rpc sid reason t)) \<subseteq> gt_holds t"
    and "GRPC_DestroySession ord rpc sid reason t = (t', None) \<Longrightarrow> sid \<notin> gt_holds t'"
  using assms GRPC_DestroySession_server [of ord rpc sid reason t] GRPC_DestroySession_None [of ord rpc sid reason t]
  by (auto simp: gt_inv_def gt_holds_def DestroySession_holds DestroySession_inv)

lemma grpc_transport_contract:
  assumes "\<And>rpc env x t. \<exists>callID c ra rp codecs. create rpc env x t = createResult callID (call_rpc rpc
      (\<lambda>s. Server_CreateSession (ce_ord env) (ce_marshal env) (ce_uuid env) (ce_now env) s c ra rp codecs) t)"
  shows "media_transport gt_holds gt_inv create (\<lambda>rpc sid. GRPC_DestroySession ord rpc sid reason)
    sr_SessionID ce_uuid env_fresh"
proof (unfold_locales, goal_cases)
  case (1 t env c x)
  then show ?case using assms [of c env x t] createResult_transport(1) by metis
next
  case (2 t env c x)
  then show ?case using assms [of c env x t] createResult_transport(2) by metis
next
  case (3 t env c x)
  then show ?case using assms [of c env x t] createResult_transport(3) by metis
next
  case (4 t env c x t' r)
  then show ?case using assms [of c env x t] createResult_transport(4) by metis
next
  case (5 t c i)
  then show ?case by (rule GRPC_DestroySession_transport(1))
next
  case (6 t c i)
  then show ?case using GRPC_DestroySession_transport(2,3) by blast
next
  case (7 t c i t')
  then show ?case by (rule GRPC_DestroySession_transport(4))
qed

interpretation grpc: media_transport gt_holds gt_inv GRPC_CreateSession
    "\<lambda>rpc sid. GRPC_DestroySession ord rpc sid reason" sr_SessionID ce_uuid env_fresh
  for ord reason
  by (rule grpc_transport_contract) (unfold GRPC_CreateSession_def, blast)

interpretation grpc_pending: media_transport gt_holds gt_inv
    "\<lambda>rpc env x. GRPC_CreateSessionPendingRemote rpc env (fst x) (snd x)"
    "\<lambda>rpc sid. GRPC_DestroySession ord rpc sid reason" sr_SessionID ce_uuid env_fresh
  for ord reason
  by (rule grpc_transport_contract) (unfold GRPC_CreateSessionPendingRemote_def, blast)

section \<open>Termination reasons on the wire\<close>

text \<open>The reason of the protobuf enum that has the same name.\<close>

fun pb_reason_named :: "MediaTerminateReason \<Rightarrow> pb_TerminateReason" where
  "pb_reason_named TerminateReasonNormal = TERMINATE_REASON_NORMAL"
| "pb_reason_named TerminateReasonBYE = TERMINATE_REASON_BYE"
| "pb_reason_named TerminateReasonCancel = TERMINATE_REASON_CANCEL"
| "pb_reason_named TerminateReasonError = TERMINATE_REASON_ERROR"
| "pb_reason_named TerminateReasonTimeout = TERMINATE_REASON_TIMEOUT"

text \<open>No reason is sent under its own name; each is sent as the one before it.\<close>

theorem destroy_reason_shifted:
  "destroyRequestReason r \<noteq> pb_reason_named r"
  "destroyRequestReason TerminateReasonBYE = TERMINATE_REASON_NORMAL"
  "destroyRequestReason TerminateReasonTimeout = TERMINATE_REASON_ERROR"
  by (cases r; simp add: destroyRequestReason_def pb_reason_of_number_def)
    (simp_all add: destroyRequestReason_def pb_reason_of_number_def)

end
