(* ===== verification/Media_Pool.thy ===== *)
theory Media_Pool
  imports Grpc_Transport
begin

text \<open>
  \<open>internal/signaling/mediaclient/pool.go\<close>: the pool of RTP managers. It balances new
  sessions over the healthy, active members, remembers on which member each session lives,
  and takes members in and out of rotation (drain).

  Go shares \<open>*poolMember\<close> pointers between \<open>members\<close> and \<open>membersByID\<close>; here a pointer is an
  index into \<open>pl_members\<close>. The atomic counters keep their width. Each member's transport
  contains the server it is connected to (\<open>Grpc_Transport\<close>); dialing an address is the
  parameter \<open>dial\<close>.
\<close>

section \<open>Data\<close>

datatype DrainState = StateActive | StateDraining | StateDisabled

fun DrainState_String :: "DrainState \<Rightarrow> string" where
  "DrainState_String StateActive = ''active''"
| "DrainState_String StateDraining = ''draining''"
| "DrainState_String StateDisabled = ''disabled''"

record pool_config =
  pc_NodeAddresses :: "(string, string) gomap"
  pc_Addresses :: "string list"
  pc_UnhealthyThreshold :: int
  pc_HealthyThreshold :: int

record pool_member =
  pm_id :: string
  pm_address :: string
  pm_transport :: "grpc_transport option"
  pm_healthy :: bool
  pm_drainState :: DrainState
  pm_failCount :: "32 word"
  pm_successCount :: "32 word"

record media_pool =
  pl_members :: "pool_member list"
  pl_membersByID :: "(string, nat) gomap"
  pl_sessionToNode :: "(string, string) gomap"
  pl_nodeToSessions :: "(string, (string, unit) gomap) gomap"
  pl_nextIndex :: "64 word"
  pl_config :: pool_config
  pl_stopped :: bool

datatype mpool_error =
    NoAddresses
  | NoHealthyMembers
  | ErrNoAvailableMembers
  | NodeNotFound string
  | NotInState string DrainState
  | NodeNotHealthy string
  | NodeDisabled string
  | NoMemberForSession string
  | CreateFailedOn string transport_error
  | TransportErr transport_error
  | DifferentManagers string string
  | BridgeNotFoundAnywhere string
  | NilTransportPanic

type_synonym dial = "string \<Rightarrow> grpc_transport option"
type_synonym create_call = "grpc_transport \<Rightarrow> grpc_transport \<times> (transport_error + session_result)"

definition upd_member :: "nat \<Rightarrow> (pool_member \<Rightarrow> pool_member) \<Rightarrow> media_pool \<Rightarrow> media_pool" where
  "upd_member i f p = p\<lparr>pl_members := (pl_members p)[i := f (pl_members p ! i)]\<rparr>"

definition set_transport :: "grpc_transport \<Rightarrow> pool_member \<Rightarrow> pool_member" where
  "set_transport t m = m\<lparr>pm_transport := Some t\<rparr>"

section \<open>Construction\<close>

definition nodeAddressesOf :: "pool_config \<Rightarrow> (string, string) gomap option" where
  "nodeAddressesOf cfg =
     (if length (pc_NodeAddresses cfg) = 0 then
        (if length (pc_Addresses cfg) = 0 then None
         else Some (foldl (\<lambda>m (i, addr). gm_set m (''node-'' @ itoa (int i)) addr) []
                (zip [0..<length (pc_Addresses cfg)] (pc_Addresses cfg))))
      else Some (pc_NodeAddresses cfg))"

definition newMember :: "dial \<Rightarrow> string \<times> string \<Rightarrow> pool_member" where
  "newMember dial na =
     \<lparr>pm_id = fst na, pm_address = snd na, pm_transport = dial (snd na), pm_healthy = (dial (snd na) \<noteq> None),
      pm_drainState = StateActive, pm_failCount = 0, pm_successCount = 0\<rparr>"

fun addMembers :: "dial \<Rightarrow> (string \<times> string) list \<Rightarrow> media_pool \<Rightarrow> media_pool" where
  "addMembers dial [] p = p"
| "addMembers dial (na # nas) p =
     addMembers dial nas
       (p\<lparr>pl_members := pl_members p @ [newMember dial na],
          pl_membersByID := gm_set (pl_membersByID p) (fst na) (length (pl_members p))\<rparr>)"

definition NewPool :: "(string, string) range_order \<Rightarrow> dial \<Rightarrow> pool_config \<Rightarrow> mpool_error + media_pool" where
  "NewPool ord dial cfg =
     (case nodeAddressesOf cfg of
        None \<Rightarrow> Inl NoAddresses
      | Some nodeAddresses \<Rightarrow>
          let p = addMembers dial (ord nodeAddresses)
                    \<lparr>pl_members = [], pl_membersByID = [], pl_sessionToNode = [], pl_nodeToSessions = [],
                     pl_nextIndex = 0, pl_config = cfg, pl_stopped = False\<rparr> in
          if length (filter pm_healthy (pl_members p)) = 0 then Inl NoHealthyMembers else Inr p)"

section \<open>Health checking\<close>

text \<open>
  \<open>checkMemberHealth\<close> reconnects a member without transport and asks it whether it is ready;
  \<open>checkMember\<close> is one iteration of \<open>checkAllHealth\<close>, \<open>recordCheck\<close> its bookkeeping.
\<close>

definition checkMemberHealth :: "dial \<Rightarrow> rpc \<Rightarrow> pool_member \<Rightarrow> pool_member \<times> bool" where
  "checkMemberHealth dial rpc m =
     (case pm_transport m of
        Some t \<Rightarrow> (m, GRPC_Ready rpc t)
      | None \<Rightarrow>
          (case dial (pm_address m) of
             None \<Rightarrow> (m, False)
           | Some t \<Rightarrow> (set_transport t m, GRPC_Ready rpc t)))"

definition recordCheck :: "pool_config \<Rightarrow> bool \<Rightarrow> pool_member \<Rightarrow> pool_member" where
  "recordCheck cfg healthy m =
     (if healthy then
        let newSuccess = pm_successCount m + 1;
            m2 = m\<lparr>pm_failCount := 0, pm_successCount := newSuccess\<rparr> in
        if \<not> pm_healthy m2 \<and> sint newSuccess \<ge> pc_HealthyThreshold cfg then m2\<lparr>pm_healthy := True\<rparr> else m2
      else
        let newFail = pm_failCount m + 1;
            m2 = m\<lparr>pm_successCount := 0, pm_failCount := newFail\<rparr> in
        if pm_healthy m2 \<and> sint newFail \<ge> pc_UnhealthyThreshold cfg then m2\<lparr>pm_healthy := False\<rparr> else m2)"

definition checkMember :: "dial \<Rightarrow> pool_config \<Rightarrow> rpc \<Rightarrow> pool_member \<Rightarrow> pool_member" where
  "checkMember dial cfg rpc m =
     (case checkMemberHealth dial rpc m of (m1, healthy) \<Rightarrow> recordCheck cfg healthy m1)"

definition checkAllHealth :: "dial \<Rightarrow> (nat \<Rightarrow> rpc) \<Rightarrow> media_pool \<Rightarrow> media_pool" where
  "checkAllHealth dial rpcs p =
     p\<lparr>pl_members := map (\<lambda>(i, m). checkMember dial (pl_config p) (rpcs i) m) (enumerate 0 (pl_members p))\<rparr>"

section \<open>Selection and affinity\<close>

definition available :: "media_pool \<Rightarrow> nat list" where
  "available p = filter (\<lambda>i. let m = pl_members p ! i in
     pm_healthy m \<and> pm_transport m \<noteq> None \<and> pm_drainState m = StateActive) [0..<length (pl_members p)]"

definition selectMember :: "media_pool \<Rightarrow> media_pool \<times> (mpool_error + nat)" where
  "selectMember p =
     (let availableMembers = available p in
      if length availableMembers = 0 then (p, Inl ErrNoAvailableMembers)
      else
        let next = pl_nextIndex p + 1;
            idx = unat next mod length availableMembers in
        (p\<lparr>pl_nextIndex := next\<rparr>, Inr (availableMembers ! idx)))"

definition GetMemberByID :: "media_pool \<Rightarrow> string \<Rightarrow> nat option" where
  "GetMemberByID p nodeID = map_of (pl_membersByID p) nodeID"

definition getMemberForSession :: "media_pool \<Rightarrow> string \<Rightarrow> nat option" where
  "getMemberForSession p sessionID =
     (case map_of (pl_sessionToNode p) sessionID of None \<Rightarrow> None | Some nodeID \<Rightarrow> GetMemberByID p nodeID)"

definition trackSession :: "string \<Rightarrow> string \<Rightarrow> media_pool \<Rightarrow> media_pool" where
  "trackSession sessionID nodeID p =
     (let sessions = (case map_of (pl_nodeToSessions p) nodeID of None \<Rightarrow> [] | Some ss \<Rightarrow> ss) in
      p\<lparr>pl_sessionToNode := gm_set (pl_sessionToNode p) sessionID nodeID,
        pl_nodeToSessions := gm_set (pl_nodeToSessions p) nodeID (gm_set sessions sessionID ())\<rparr>)"

definition untrackSession :: "string \<Rightarrow> media_pool \<Rightarrow> media_pool" where
  "untrackSession sessionID p =
     (case map_of (pl_sessionToNode p) sessionID of
        None \<Rightarrow> p
      | Some nodeID \<Rightarrow>
          let p1 = p\<lparr>pl_sessionToNode := gm_del (pl_sessionToNode p) sessionID\<rparr> in
          (case map_of (pl_nodeToSessions p1) nodeID of
             None \<Rightarrow> p1
           | Some sessions \<Rightarrow>
               let sessions' = gm_del sessions sessionID in
               if length sessions' = 0 then p1\<lparr>pl_nodeToSessions := gm_del (pl_nodeToSessions p1) nodeID\<rparr>
               else p1\<lparr>pl_nodeToSessions := gm_set (pl_nodeToSessions p1) nodeID sessions'\<rparr>))"

definition SessionsOnNode :: "(string, unit) range_order \<Rightarrow> media_pool \<Rightarrow> string \<Rightarrow> string list" where
  "SessionsOnNode ord p nodeID =
     (case map_of (pl_nodeToSessions p) nodeID of None \<Rightarrow> [] | Some sessions \<Rightarrow> map fst (ord sessions))"

definition ListNodes :: "media_pool \<Rightarrow> string list" where
  "ListNodes p = map pm_id (pl_members p)"

section \<open>Drain\<close>

definition set_drain :: "DrainState \<Rightarrow> pool_member \<Rightarrow> pool_member" where
  "set_drain st m = m\<lparr>pm_drainState := st\<rparr>"

definition StartDrain :: "string \<Rightarrow> media_pool \<Rightarrow> media_pool \<times> mpool_error option" where
  "StartDrain nodeID p =
     (case GetMemberByID p nodeID of
        None \<Rightarrow> (p, Some (NodeNotFound nodeID))
      | Some i \<Rightarrow>
          if pm_drainState (pl_members p ! i) \<noteq> StateActive
          then (p, Some (NotInState nodeID (pm_drainState (pl_members p ! i))))
          else (upd_member i (set_drain StateDraining) p, None))"

definition CompleteDrain :: "string \<Rightarrow> media_pool \<Rightarrow> media_pool \<times> mpool_error option" where
  "CompleteDrain nodeID p =
     (case GetMemberByID p nodeID of
        None \<Rightarrow> (p, Some (NodeNotFound nodeID))
      | Some i \<Rightarrow>
          if pm_drainState (pl_members p ! i) \<noteq> StateDraining
          then (p, Some (NotInState nodeID (pm_drainState (pl_members p ! i))))
          else (upd_member i (set_drain StateDisabled) p, None))"

definition CancelDrain :: "string \<Rightarrow> media_pool \<Rightarrow> media_pool \<times> mpool_error option" where
  "CancelDrain nodeID p =
     (case GetMemberByID p nodeID of
        None \<Rightarrow> (p, Some (NodeNotFound nodeID))
      | Some i \<Rightarrow>
          if pm_drainState (pl_members p ! i) = StateActive
          then (p, Some (NotInState nodeID StateActive))
          else (upd_member i (set_drain StateActive) p, None))"

section \<open>Sessions\<close>

text \<open>The common part of the four creation operations: call member \<open>i\<close>, count the failure or track the session.\<close>

definition createOn :: "create_call \<Rightarrow> nat \<Rightarrow> media_pool \<Rightarrow> media_pool \<times> (mpool_error + session_result)" where
  "createOn call i p =
     (let member = pl_members p ! i in
      case pm_transport member of
        None \<Rightarrow> (p, Inl NilTransportPanic)
      | Some t \<Rightarrow>
          (case call t of
             (t', Inl err) \<Rightarrow>
               (upd_member i (\<lambda>m. (set_transport t' m)\<lparr>pm_failCount := pm_failCount m + 1\<rparr>) p,
                Inl (CreateFailedOn (pm_address member) err))
           | (t', Inr result) \<Rightarrow>
               (trackSession (sr_SessionID result) (pm_id member) (upd_member i (set_transport t') p), Inr result)))"

definition Pool_CreateSessionOnNode ::
  "rpc \<Rightarrow> create_env \<Rightarrow> string \<Rightarrow> session_info \<Rightarrow> media_pool \<Rightarrow> media_pool \<times> (mpool_error + session_result)" where
  "Pool_CreateSessionOnNode rpc env nodeID info p =
     (case GetMemberByID p nodeID of
        None \<Rightarrow> (p, Inl (NodeNotFound nodeID))
      | Some i \<Rightarrow>
          let member = pl_members p ! i in
          if \<not> pm_healthy member \<or> pm_transport member = None then (p, Inl (NodeNotHealthy nodeID))
          else if pm_drainState member = StateDisabled then (p, Inl (NodeDisabled nodeID))
          else createOn (GRPC_CreateSession rpc env info) i p)"

definition Pool_CreateSession ::
  "rpc \<Rightarrow> create_env \<Rightarrow> session_info \<Rightarrow> media_pool \<Rightarrow> media_pool \<times> (mpool_error + session_result)" where
  "Pool_CreateSession rpc env info p =
     (case selectMember p of
        (p', Inl err) \<Rightarrow> (p', Inl err)
      | (p', Inr i) \<Rightarrow> createOn (GRPC_CreateSession rpc env info) i p')"

definition Pool_CreateSessionPendingRemote ::
  "rpc \<Rightarrow> create_env \<Rightarrow> string \<Rightarrow> string list \<Rightarrow> media_pool \<Rightarrow> media_pool \<times> (mpool_error + session_result)" where
  "Pool_CreateSessionPendingRemote rpc env callID codecs p =
     (case selectMember p of
        (p', Inl err) \<Rightarrow> (p', Inl err)
      | (p', Inr i) \<Rightarrow> createOn (GRPC_CreateSessionPendingRemote rpc env callID codecs) i p')"

definition Pool_CreateSessionPendingRemoteOnNode ::
  "rpc \<Rightarrow> create_env \<Rightarrow> string \<Rightarrow> string \<Rightarrow> string list \<Rightarrow> media_pool \<Rightarrow> media_pool \<times> (mpool_error + session_result)" where
  "Pool_CreateSessionPendingRemoteOnNode rpc env peerSessionID callID codecs p =
     (case getMemberForSession p peerSessionID of
        None \<Rightarrow> Pool_CreateSessionPendingRemote rpc env callID codecs p
      | Some i \<Rightarrow> createOn (GRPC_CreateSessionPendingRemote rpc env callID codecs) i p)"

text \<open>An operation on the member that owns a session; its error is passed on.\<close>

definition onOwner ::
  "string \<Rightarrow> (grpc_transport \<Rightarrow> grpc_transport \<times> transport_error option) \<Rightarrow> media_pool \<Rightarrow> media_pool \<times> mpool_error option" where
  "onOwner sessionID call p =
     (case getMemberForSession p sessionID of
        None \<Rightarrow> (p, Some (NoMemberForSession sessionID))
      | Some i \<Rightarrow>
          (case pm_transport (pl_members p ! i) of
             None \<Rightarrow> (p, Some NilTransportPanic)
           | Some t \<Rightarrow> (case call t of (t', err) \<Rightarrow> (upd_member i (set_transport t') p, map_option TransportErr err))))"

definition Pool_DestroySession ::
  "(string, string) range_order \<Rightarrow> rpc \<Rightarrow> string \<Rightarrow> MediaTerminateReason \<Rightarrow> media_pool \<Rightarrow> media_pool \<times> mpool_error option" where
  "Pool_DestroySession ord rpc sessionID reason p =
     (case getMemberForSession p sessionID of
        None \<Rightarrow> (p, Some (NoMemberForSession sessionID))
      | Some i \<Rightarrow>
          (case onOwner sessionID (GRPC_DestroySession ord rpc sessionID reason) p of
             (p', Some NilTransportPanic) \<Rightarrow> (p', Some NilTransportPanic)
           | (p', err) \<Rightarrow> (untrackSession sessionID p', err)))"

definition Pool_PlayAudio ::
  "(string, codec_config) range_order \<Rightarrow> rpc \<Rightarrow> string \<Rightarrow> string \<Rightarrow> media_pool \<Rightarrow> media_pool \<times> mpool_error option" where
  "Pool_PlayAudio ord rpc sessionID file p = onOwner sessionID (GRPC_PlayAudio ord rpc sessionID file) p"

definition Pool_StopAudio :: "rpc \<Rightarrow> string \<Rightarrow> media_pool \<Rightarrow> media_pool \<times> mpool_error option" where
  "Pool_StopAudio rpc sessionID p = onOwner sessionID (GRPC_StopAudio rpc sessionID) p"

definition Pool_UpdateSessionRemote ::
  "rpc \<Rightarrow> string \<Rightarrow> string \<Rightarrow> int \<Rightarrow> media_pool \<Rightarrow> media_pool \<times> mpool_error option" where
  "Pool_UpdateSessionRemote rpc sessionID remoteAddr remotePort p =
     onOwner sessionID (GRPC_UpdateSessionRemote rpc sessionID remoteAddr remotePort) p"

definition Pool_BridgeMedia ::
  "udp_listen \<Rightarrow> string \<Rightarrow> rpc \<Rightarrow> string \<Rightarrow> string \<Rightarrow> media_pool \<Rightarrow> media_pool \<times> (mpool_error + string)" where
  "Pool_BridgeMedia listen uuid rpc sessionAID sessionBID p =
     (case getMemberForSession p sessionAID of
        None \<Rightarrow> (p, Inl (NoMemberForSession sessionAID))
      | Some i \<Rightarrow>
          (case getMemberForSession p sessionBID of
             None \<Rightarrow> (p, Inl (NoMemberForSession sessionBID))
           | Some j \<Rightarrow>
               let memberA = pl_members p ! i; memberB = pl_members p ! j in
               if pm_address memberA \<noteq> pm_address memberB
               then (p, Inl (DifferentManagers (pm_address memberA) (pm_address memberB)))
               else
                 (case pm_transport memberA of
                    None \<Rightarrow> (p, Inl NilTransportPanic)
                  | Some t \<Rightarrow>
                      (case GRPC_BridgeMedia listen uuid rpc sessionAID sessionBID t of
                         (t', Inl err) \<Rightarrow> (upd_member i (set_transport t') p, Inl (TransportErr err))
                       | (t', Inr bridgeID) \<Rightarrow> (upd_member i (set_transport t') p, Inr bridgeID)))))"

text \<open>\<open>UnbridgeMedia\<close> tries one member after another; \<open>rpcs i\<close> is the outcome of the call to member \<open>i\<close>.\<close>

fun unbridgeFrom :: "(nat \<Rightarrow> rpc) \<Rightarrow> string \<Rightarrow> nat list \<Rightarrow> media_pool \<Rightarrow> media_pool \<times> mpool_error option" where
  "unbridgeFrom rpcs bridgeID [] p = (p, Some (BridgeNotFoundAnywhere bridgeID))"
| "unbridgeFrom rpcs bridgeID (i # is) p =
     (case pm_transport (pl_members p ! i) of
        None \<Rightarrow> unbridgeFrom rpcs bridgeID is p
      | Some t \<Rightarrow>
          if \<not> pm_healthy (pl_members p ! i) then unbridgeFrom rpcs bridgeID is p
          else
            (case GRPC_UnbridgeMedia (rpcs i) bridgeID t of
               (t', None) \<Rightarrow> (upd_member i (set_transport t') p, None)
             | (t', Some err) \<Rightarrow> unbridgeFrom rpcs bridgeID is (upd_member i (set_transport t') p)))"

definition Pool_UnbridgeMedia :: "(nat \<Rightarrow> rpc) \<Rightarrow> string \<Rightarrow> media_pool \<Rightarrow> media_pool \<times> mpool_error option" where
  "Pool_UnbridgeMedia rpcs bridgeID p = unbridgeFrom rpcs bridgeID [0..<length (pl_members p)] p"

definition Pool_Ready :: "media_pool \<Rightarrow> bool" where
  "Pool_Ready p = list_ex pm_healthy (pl_members p)"

definition Pool_Close :: "media_pool \<Rightarrow> media_pool option" where
  "Pool_Close p =
     (if pl_stopped p then None
      else Some (p\<lparr>pl_stopped := True,
        pl_members := map (\<lambda>m. m\<lparr>pm_transport := map_option GRPC_Close (pm_transport m)\<rparr>) (pl_members p)\<rparr>))"

record member_stats =
  ms_NodeID :: string
  ms_Address :: string
  ms_Healthy :: bool
  ms_DrainState :: DrainState
  ms_SessionCount :: nat

record pool_stats =
  ps_TotalMembers :: nat
  ps_HealthyMembers :: nat
  ps_ActiveSessions :: nat
  ps_Members :: "member_stats list"

definition memberStats :: "media_pool \<Rightarrow> pool_member \<Rightarrow> member_stats" where
  "memberStats p m =
     \<lparr>ms_NodeID = pm_id m, ms_Address = pm_address m, ms_Healthy = pm_healthy m, ms_DrainState = pm_drainState m,
      ms_SessionCount = (case map_of (pl_nodeToSessions p) (pm_id m) of None \<Rightarrow> 0 | Some sessions \<Rightarrow> length sessions)\<rparr>"

definition Pool_Stats :: "media_pool \<Rightarrow> pool_stats" where
  "Pool_Stats p =
     \<lparr>ps_TotalMembers = length (pl_members p),
      ps_HealthyMembers = length (filter (\<lambda>m. pm_healthy m \<and> pm_drainState m = StateActive) (pl_members p)),
      ps_ActiveSessions = length (pl_sessionToNode p),
      ps_Members = map (memberStats p) (pl_members p)\<rparr>"

section \<open>Invariant\<close>

definition node_sessions :: "media_pool \<Rightarrow> string \<Rightarrow> string set" where
  "node_sessions p n = (case map_of (pl_nodeToSessions p) n of None \<Rightarrow> {} | Some ss \<Rightarrow> gm_keys ss)"

definition index_ok :: "media_pool \<Rightarrow> bool" where
  "index_ok p \<longleftrightarrow> gm_wf (pl_sessionToNode p) \<and> gm_wf (pl_nodeToSessions p) \<and>
     (\<forall>n ss. map_of (pl_nodeToSessions p) n = Some ss \<longrightarrow> gm_wf ss \<and> ss \<noteq> []) \<and>
     (\<forall>s n. map_of (pl_sessionToNode p) s = Some n \<longleftrightarrow> s \<in> node_sessions p n)"

definition members_ok :: "media_pool \<Rightarrow> bool" where
  "members_ok p \<longleftrightarrow>
     (\<forall>n i. map_of (pl_membersByID p) n = Some i \<longleftrightarrow> i < length (pl_members p) \<and> pm_id (pl_members p ! i) = n)"

definition m_holds :: "pool_member \<Rightarrow> string set" where
  "m_holds m = (case pm_transport m of None \<Rightarrow> {} | Some t \<Rightarrow> gt_holds t)"

definition pool_holds :: "media_pool \<Rightarrow> string set" where
  "pool_holds p = \<Union> (m_holds ` set (pl_members p))"

definition servers_ok :: "media_pool \<Rightarrow> bool" where
  "servers_ok p \<longleftrightarrow>
     (\<forall>m \<in> set (pl_members p). \<forall>t. pm_transport m = Some t \<longrightarrow> gt_inv t) \<and>
     (\<forall>i < length (pl_members p). \<forall>j < length (pl_members p). i \<noteq> j \<longrightarrow>
        m_holds (pl_members p ! i) \<inter> m_holds (pl_members p ! j) = {})"

definition affinity_ok :: "media_pool \<Rightarrow> bool" where
  "affinity_ok p \<longleftrightarrow>
     (\<forall>s n. map_of (pl_sessionToNode p) s = Some n \<longrightarrow>
        (\<exists>i < length (pl_members p). pm_id (pl_members p ! i) = n \<and> s \<in> m_holds (pl_members p ! i)))"

definition pl_inv :: "media_pool \<Rightarrow> bool" where
  "pl_inv p \<longleftrightarrow> index_ok p \<and> members_ok p \<and> servers_ok p \<and> affinity_ok p"

lemma members_unique:
  "members_ok p \<Longrightarrow> i < length (pl_members p) \<Longrightarrow> j < length (pl_members p) \<Longrightarrow>
     pm_id (pl_members p ! i) = pm_id (pl_members p ! j) \<Longrightarrow> i = j"
  unfolding members_ok_def by (metis option.inject)

lemma owner_found:
  assumes "pl_inv p" and "getMemberForSession p s = Some i"
  shows "i < length (pl_members p)" "map_of (pl_sessionToNode p) s = Some (pm_id (pl_members p ! i))"
    "s \<in> m_holds (pl_members p ! i)"
proof -
  obtain n where n: "map_of (pl_sessionToNode p) s = Some n" "map_of (pl_membersByID p) n = Some i"
    using assms(2) by (auto simp: getMemberForSession_def GetMemberByID_def split: option.splits)
  have mem: "members_ok p" "affinity_ok p" using assms(1) by (simp_all add: pl_inv_def)
  then have i: "i < length (pl_members p)" "pm_id (pl_members p ! i) = n" using n(2) by (auto simp: members_ok_def)
  obtain j where "j < length (pl_members p)" "pm_id (pl_members p ! j) = n" "s \<in> m_holds (pl_members p ! j)"
    using mem(2) n(1) unfolding affinity_ok_def by blast
  moreover from this have "j = i" using members_unique [OF mem(1)] i by simp
  ultimately show "i < length (pl_members p)" "map_of (pl_sessionToNode p) s = Some (pm_id (pl_members p ! i))"
    "s \<in> m_holds (pl_members p ! i)" using n i by simp_all
qed

lemma owner_exists:
  assumes "pl_inv p" and "map_of (pl_sessionToNode p) s = Some n"
  shows "\<exists>i. getMemberForSession p s = Some i"
proof -
  obtain i where "i < length (pl_members p)" "pm_id (pl_members p ! i) = n"
    using assms unfolding pl_inv_def affinity_ok_def by blast
  then have "map_of (pl_membersByID p) n = Some i" using assms(1) by (simp add: pl_inv_def members_ok_def)
  then show ?thesis using assms(2) by (simp add: getMemberForSession_def GetMemberByID_def)
qed

subsection \<open>Replacing one member\<close>

lemma upd_member_fields [simp]:
  "pl_members (upd_member i f p) = (pl_members p)[i := f (pl_members p ! i)]"
  "pl_membersByID (upd_member i f p) = pl_membersByID p" "pl_sessionToNode (upd_member i f p) = pl_sessionToNode p"
  "pl_nodeToSessions (upd_member i f p) = pl_nodeToSessions p" "pl_config (upd_member i f p) = pl_config p"
  "pl_nextIndex (upd_member i f p) = pl_nextIndex p"
  by (simp_all add: upd_member_def)

lemma index_ok_members: "index_ok (upd_member i f p) = index_ok p"
  by (simp add: index_ok_def node_sessions_def)

lemma upd_member_inv:
  assumes inv: "pl_inv p" and i: "i < length (pl_members p)" and m': "m' = f (pl_members p ! i)"
    and same_id: "pm_id m' = pm_id (pl_members p ! i)" and srv: "\<And>t. pm_transport m' = Some t \<Longrightarrow> gt_inv t"
    and new: "m_holds m' \<subseteq> m_holds (pl_members p ! i) \<union> new" "new \<inter> pool_holds p = {}"
    and kept: "\<And>s. map_of (pl_sessionToNode p) s = Some (pm_id m') \<Longrightarrow> s \<in> m_holds (pl_members p ! i) \<Longrightarrow> s \<in> m_holds m'"
  shows "pl_inv (upd_member i f p)"
proof -
  have nth: "(pl_members p)[i := y] ! j = (if j = i then y else pl_members p ! j)" for j y using i by (simp add: nth_list_update)
  have ok: "members_ok p" "servers_ok p" "affinity_ok p" using inv by (simp_all add: pl_inv_def)
  have "members_ok (upd_member i f p)" using ok(1) same_id unfolding members_ok_def by (auto simp: nth m')
  moreover have "servers_ok (upd_member i f p)"
  proof -
    have disj: "m_holds m' \<inter> m_holds (pl_members p ! j) = {}" if "j < length (pl_members p)" "j \<noteq> i" for j
    proof -
      have "m_holds (pl_members p ! i) \<inter> m_holds (pl_members p ! j) = {}" using ok(2) i that by (simp add: servers_ok_def)
      moreover have "m_holds (pl_members p ! j) \<subseteq> pool_holds p" using nth_mem [OF that(1)] unfolding pool_holds_def by blast
      ultimately show ?thesis using new by blast
    qed
    have "\<forall>m \<in> set (pl_members (upd_member i f p)). \<forall>t. pm_transport m = Some t \<longrightarrow> gt_inv t"
      using ok(2) srv set_update_subset_insert [of "pl_members p" i m'] unfolding servers_ok_def by (auto simp: m')
    moreover have "m_holds (pl_members p ! j) \<inter> m_holds m' = {}" if "j < length (pl_members p)" "j \<noteq> i" for j
      using disj [OF that] by blast
    ultimately show ?thesis using ok(2) disj unfolding servers_ok_def by (auto simp: nth m' [symmetric])
  qed
  moreover have "affinity_ok (upd_member i f p)"
    unfolding affinity_ok_def
  proof (intro allI impI)
    fix s n assume "map_of (pl_sessionToNode (upd_member i f p)) s = Some n"
    then have tracked: "map_of (pl_sessionToNode p) s = Some n" by simp
    then obtain j where j: "j < length (pl_members p)" "pm_id (pl_members p ! j) = n" "s \<in> m_holds (pl_members p ! j)"
      using ok(3) unfolding affinity_ok_def by blast
    have "pm_id (pl_members (upd_member i f p) ! j) = n \<and> s \<in> m_holds (pl_members (upd_member i f p) ! j)"
      using j kept [of s] tracked same_id by (auto simp: nth m' [symmetric])
    then show "\<exists>j < length (pl_members (upd_member i f p)). pm_id (pl_members (upd_member i f p) ! j) = n \<and>
        s \<in> m_holds (pl_members (upd_member i f p) ! j)"
      using j(1) by auto
  qed
  ultimately show ?thesis using inv by (simp add: pl_inv_def index_ok_members)
qed

lemma member_transport:
  assumes "pl_inv p" and "i < length (pl_members p)" and "pm_transport (pl_members p ! i) = Some t"
  shows "gt_inv t" and "gt_holds t = m_holds (pl_members p ! i)" and "gt_holds t \<subseteq> pool_holds p"
proof -
  show "gt_inv t" using assms nth_mem [OF assms(2)] unfolding pl_inv_def servers_ok_def by blast
  show eq: "gt_holds t = m_holds (pl_members p ! i)" using assms(3) by (simp add: m_holds_def)
  show "gt_holds t \<subseteq> pool_holds p" using nth_mem [OF assms(2)] unfolding eq pool_holds_def by blast
qed

lemma upd_same_inv:
  assumes "pl_inv p" and "i < length (pl_members p)" and "pm_id (f (pl_members p ! i)) = pm_id (pl_members p ! i)"
    and "pm_transport (f (pl_members p ! i)) = pm_transport (pl_members p ! i)"
  shows "pl_inv (upd_member i f p)"
proof -
  have "gt_inv t" if "pm_transport (f (pl_members p ! i)) = Some t" for t
    using member_transport(1) [OF assms(1,2)] assms(4) that by simp
  then show ?thesis
    using assms(3,4) by (intro upd_member_inv [OF assms(1,2) refl, where new = "{}"]) (simp_all add: m_holds_def)
qed

subsection \<open>Tracking\<close>

lemma track_inv:
  assumes inv: "pl_inv p" and i: "i < length (pl_members p)" and s: "s \<in> m_holds (pl_members p ! i)"
  shows "pl_inv (trackSession s (pm_id (pl_members p ! i)) p)"
proof -
  let ?n = "pm_id (pl_members p ! i)" and ?p = "trackSession s (pm_id (pl_members p ! i)) p"
  have ok: "index_ok p" "members_ok p" "servers_ok p" "affinity_ok p" using inv by (simp_all add: pl_inv_def)
  have only: "n = ?n" if "map_of (pl_sessionToNode p) s = Some n" for n
  proof -
    obtain j where j: "j < length (pl_members p)" "pm_id (pl_members p ! j) = n" "s \<in> m_holds (pl_members p ! j)"
      using ok(4) \<open>map_of (pl_sessionToNode p) s = Some n\<close> unfolding affinity_ok_def by blast
    then have "j = i" using ok(3) i s unfolding servers_ok_def by blast
    with j show ?thesis by simp
  qed
  have ns: "node_sessions ?p n = (if n = ?n then insert s (node_sessions p n) else node_sessions p n)" for n
    by (auto simp: node_sessions_def trackSession_def Let_def split: option.split)
  have idx: "map_of (pl_sessionToNode p) x = Some n \<longleftrightarrow> x \<in> node_sessions p n" for x n
    using ok(1) by (simp add: index_ok_def)
  have stn: "map_of (pl_sessionToNode ?p) x = (if x = s then Some ?n else map_of (pl_sessionToNode p) x)" for x
    by (simp add: trackSession_def Let_def)
  have "map_of (pl_sessionToNode ?p) x = Some n \<longleftrightarrow> x \<in> node_sessions ?p n" for x n
    using only [of n] idx [of s n] idx [of x n] unfolding ns stn by auto
  moreover have "gm_wf ss \<and> ss \<noteq> []" if "map_of (pl_nodeToSessions ?p) n = Some ss" for n ss
  proof -
    have "gm_set xs s () \<noteq> []" for xs :: "(string, unit) gomap"
      using gm_keys_set [of xs s "()"] by (metis gm_keys_Nil insert_not_empty)
    then show ?thesis
      using that ok(1) by (auto simp: trackSession_def Let_def index_ok_def split: if_splits option.splits)
  qed
  ultimately have "index_ok ?p"
    using ok(1) by (auto simp: index_ok_def trackSession_def Let_def)
  moreover have "affinity_ok ?p"
    using ok(4) i s unfolding affinity_ok_def by (auto simp: trackSession_def Let_def)
  ultimately show ?thesis
    using ok(2,3) by (simp add: pl_inv_def members_ok_def servers_ok_def trackSession_def Let_def)
qed

lemma untrack_fields [simp]:
  "pl_members (untrackSession s p) = pl_members p" "pl_membersByID (untrackSession s p) = pl_membersByID p"
  "map_of (pl_sessionToNode (untrackSession s p)) = (map_of (pl_sessionToNode p))(s := None)"
  by (auto simp: untrackSession_def Let_def fun_eq_iff split: option.split)

lemma untrack_inv:
  assumes inv: "pl_inv p"
  shows "pl_inv (untrackSession s p)"
proof (cases "map_of (pl_sessionToNode p) s")
  case None
  with inv show ?thesis by (simp add: untrackSession_def)
next
  case (Some n)
  have ok: "index_ok p" "affinity_ok p" using inv by (simp_all add: pl_inv_def)
  have "s \<in> node_sessions p n" using ok(1) Some by (simp add: index_ok_def)
  then obtain ss where ss: "map_of (pl_nodeToSessions p) n = Some ss" by (auto simp: node_sessions_def split: option.splits)
  have wf: "gm_wf ss" using ok(1) ss by (simp add: index_ok_def)
  let ?p = "untrackSession s p"
  have ns: "node_sessions ?p k = node_sessions p k - (if k = n then {s} else {})" for k
  proof -
    have "gm_keys ss - {s} = {}" if "gm_del ss s = []" using that gm_keys_del [of ss s] by simp
    then show ?thesis using ss by (auto simp: node_sessions_def untrackSession_def Some Let_def split: option.splits)
  qed
  have idx: "map_of (pl_sessionToNode p) x = Some k \<longleftrightarrow> x \<in> node_sessions p k" for x k
    using ok(1) by (simp add: index_ok_def)
  have "map_of (pl_sessionToNode ?p) x = Some k \<longleftrightarrow> x \<in> node_sessions ?p k" for x k
    using Some idx [of s k] idx [of x k] by (auto simp: ns)
  moreover have "gm_wf (pl_sessionToNode ?p) \<and> gm_wf (pl_nodeToSessions ?p)"
    using ok(1) by (auto simp: index_ok_def untrackSession_def Some ss Let_def)
  moreover have "gm_wf xs \<and> xs \<noteq> []" if "map_of (pl_nodeToSessions ?p) k = Some xs" for k xs
    using that ok(1) wf by (auto simp: index_ok_def untrackSession_def Some ss Let_def split: if_splits)
  ultimately have "index_ok ?p" by (simp add: index_ok_def)
  moreover have "affinity_ok ?p" using ok(2) unfolding affinity_ok_def by auto
  ultimately show ?thesis using inv by (simp add: pl_inv_def members_ok_def servers_ok_def)
qed

subsection \<open>Construction and health checks\<close>

definition dial_ok :: "dial \<Rightarrow> bool" where
  "dial_ok dial \<longleftrightarrow> (\<forall>addr t. dial addr = Some t \<longrightarrow> gt_inv t \<and> gt_holds t = {})"

lemma append_member_inv:
  assumes inv: "pl_inv p" and new: "pm_id m \<notin> pm_id ` set (pl_members p)"
    and srv: "\<And>t. pm_transport m = Some t \<Longrightarrow> gt_inv t" and none: "m_holds m = {}"
  shows "pl_inv (p\<lparr>pl_members := pl_members p @ [m],
    pl_membersByID := gm_set (pl_membersByID p) (pm_id m) (length (pl_members p))\<rparr>)" (is "pl_inv ?p")
proof -
  have ok: "index_ok p" "members_ok p" "servers_ok p" "affinity_ok p" using inv by (simp_all add: pl_inv_def)
  have "pm_id (pl_members p ! i) \<noteq> pm_id m" if "i < length (pl_members p)" for i
    using new nth_mem [OF that] by (metis image_eqI)
  then have "members_ok ?p"
    using ok(2) unfolding members_ok_def by (auto simp: nth_append less_Suc_eq)
  moreover have "servers_ok ?p"
    using ok(3) srv none unfolding servers_ok_def by (auto simp: nth_append less_Suc_eq)
  moreover have "affinity_ok ?p"
    unfolding affinity_ok_def
  proof (intro allI impI)
    fix s n assume "map_of (pl_sessionToNode ?p) s = Some n"
    then obtain i where "i < length (pl_members p)" "pm_id (pl_members p ! i) = n" "s \<in> m_holds (pl_members p ! i)"
      using ok(4) unfolding affinity_ok_def by auto
    then show "\<exists>i < length (pl_members ?p). pm_id (pl_members ?p ! i) = n \<and> s \<in> m_holds (pl_members ?p ! i)"
      by (intro exI [of _ i]) (simp add: nth_append)
  qed
  ultimately show ?thesis using ok(1) by (simp add: pl_inv_def index_ok_def node_sessions_def)
qed

lemma newMember_fields:
  assumes "dial_ok dial"
  shows "pm_id (newMember dial na) = fst na" "pm_transport (newMember dial na) = Some t \<Longrightarrow> gt_inv t"
    "m_holds (newMember dial na) = {}"
  using assms by (auto simp: newMember_def dial_ok_def m_holds_def split: option.split)

lemma addMembers_inv:
  assumes dial: "dial_ok dial"
  shows "pl_inv p \<Longrightarrow> distinct (map fst nas) \<Longrightarrow> fst ` set nas \<inter> pm_id ` set (pl_members p) = {} \<Longrightarrow>
    pl_inv (addMembers dial nas p)"
proof (induction nas arbitrary: p)
  case (Cons na nas)
  note fields = newMember_fields [OF dial, of na]
  let ?p = "p\<lparr>pl_members := pl_members p @ [newMember dial na],
    pl_membersByID := gm_set (pl_membersByID p) (fst na) (length (pl_members p))\<rparr>"
  have "pl_inv ?p"
    using append_member_inv [OF Cons.prems(1) _ fields(2,3)] Cons.prems(3) unfolding fields(1) by simp
  moreover have "fst ` set nas \<inter> pm_id ` set (pl_members ?p) = {}"
    using Cons.prems(2,3) fields(1) by auto
  ultimately show ?case using Cons.IH [of ?p] Cons.prems(2) by simp
qed simp

lemma nodeAddresses_wf:
  assumes "gm_wf (pc_NodeAddresses cfg)" and "nodeAddressesOf cfg = Some nas"
  shows "gm_wf nas"
proof -
  have "gm_wf (foldl (\<lambda>m (i, addr). gm_set m (f i) addr) m xs)" if "gm_wf m"
    for f :: "nat \<Rightarrow> string" and m :: "(string, string) gomap" and xs
    using that by (induction xs arbitrary: m) (auto simp: split_beta)
  then show ?thesis using assms by (auto simp: nodeAddressesOf_def split: if_splits)
qed

lemma NewPool_inv:
  assumes "NewPool ord dial cfg = Inr p" and "is_range ord" and "dial_ok dial" and "gm_wf (pc_NodeAddresses cfg)"
  shows "pl_inv p"
proof -
  obtain nas where nas: "nodeAddressesOf cfg = Some nas" using assms(1) by (auto simp: NewPool_def split: option.splits)
  have "distinct (map fst (ord nas))"
    using is_range_wf [OF assms(2) nodeAddresses_wf [OF assms(4) nas]] by (simp add: gm_wf_def)
  moreover have "pl_inv \<lparr>pl_members = [], pl_membersByID = [], pl_sessionToNode = [], pl_nodeToSessions = [],
      pl_nextIndex = 0, pl_config = cfg, pl_stopped = False\<rparr>"
    by (simp add: pl_inv_def index_ok_def members_ok_def servers_ok_def affinity_ok_def node_sessions_def)
  ultimately show ?thesis
    using addMembers_inv [OF assms(3)] assms(1) nas by (auto simp: NewPool_def Let_def split: if_splits)
qed

lemma recordCheck_fields [simp]:
  "pm_id (recordCheck cfg h m) = pm_id m" "pm_address (recordCheck cfg h m) = pm_address m"
  "pm_drainState (recordCheck cfg h m) = pm_drainState m" "pm_transport (recordCheck cfg h m) = pm_transport m"
  by (simp_all add: recordCheck_def Let_def)

lemma checkMember_fields:
  "pm_id (checkMember dial cfg rpc m) = pm_id m" "pm_address (checkMember dial cfg rpc m) = pm_address m"
  "pm_drainState (checkMember dial cfg rpc m) = pm_drainState m"
  "pm_transport (checkMember dial cfg rpc m) = (case pm_transport m of None \<Rightarrow> dial (pm_address m) | Some t \<Rightarrow> Some t)"
  by (simp_all add: checkMember_def checkMemberHealth_def set_transport_def split: option.split)

lemma checkMember_holds: "dial_ok dial \<Longrightarrow> m_holds (checkMember dial cfg rpc m) = m_holds m"
  by (auto simp: m_holds_def checkMember_fields dial_ok_def split: option.split)

lemma checkAllHealth_nth:
  "length (pl_members (checkAllHealth dial rpcs p)) = length (pl_members p)"
  "i < length (pl_members p) \<Longrightarrow>
     pl_members (checkAllHealth dial rpcs p) ! i = checkMember dial (pl_config p) (rpcs i) (pl_members p ! i)"
  by (simp_all add: checkAllHealth_def nth_enumerate_eq split_beta)

lemma checkAllHealth_inv:
  assumes inv: "pl_inv p" and dial: "dial_ok dial"
  shows "pl_inv (checkAllHealth dial rpcs p)" (is "pl_inv ?p")
proof -
  have ok: "index_ok p" "members_ok p" "servers_ok p" "affinity_ok p" using inv by (simp_all add: pl_inv_def)
  have frame: "pl_membersByID ?p = pl_membersByID p" "pl_sessionToNode ?p = pl_sessionToNode p"
    "pl_nodeToSessions ?p = pl_nodeToSessions p" by (simp_all add: checkAllHealth_def)
  note nth = checkAllHealth_nth [where p = p and dial = dial and rpcs = rpcs]
  have same: "pm_id (pl_members ?p ! i) = pm_id (pl_members p ! i)" "m_holds (pl_members ?p ! i) = m_holds (pl_members p ! i)"
    if "i < length (pl_members p)" for i
    using that by (simp_all add: nth checkMember_fields checkMember_holds [OF dial])
  have "members_ok ?p" using ok(2) same(1) unfolding members_ok_def frame nth(1) by auto
  moreover have "servers_ok ?p"
  proof -
    have "gt_inv t" if m: "m \<in> set (pl_members ?p)" and t: "pm_transport m = Some t" for m t
    proof -
      obtain i where i: "i < length (pl_members p)" "m = checkMember dial (pl_config p) (rpcs i) (pl_members p ! i)"
        using m nth by (metis in_set_conv_nth)
      then show ?thesis
        using t dial member_transport(1) [OF inv i(1)]
        by (auto simp: checkMember_fields dial_ok_def split: option.splits)
    qed
    then show ?thesis using ok(3) same(2) unfolding servers_ok_def nth(1) by auto
  qed
  moreover have "affinity_ok ?p" using ok(4) same unfolding affinity_ok_def frame nth(1) by metis
  ultimately show ?thesis using ok(1) by (simp add: pl_inv_def index_ok_def node_sessions_def frame)
qed

subsection \<open>Calls\<close>

definition creating :: "create_env \<Rightarrow> create_call \<Rightarrow> bool" where
  "creating env call \<longleftrightarrow> (\<forall>t t' r. gt_inv t \<longrightarrow> env_fresh env (gt_holds t) \<longrightarrow> call t = (t', r) \<longrightarrow>
     gt_inv t' \<and> gt_holds t \<subseteq> gt_holds t' \<and> gt_holds t' \<subseteq> insert (ce_uuid env) (gt_holds t) \<and>
     (\<forall>res. r = Inr res \<longrightarrow> sr_SessionID res \<in> gt_holds t'))"

lemma creating_calls:
  "creating env (GRPC_CreateSession rpc env info)"
  "creating env (GRPC_CreateSessionPendingRemote rpc env callID codecs)"
proof -
  show "creating env (GRPC_CreateSession rpc env info)"
    unfolding creating_def
    using grpc.create_inv grpc.create_keeps grpc.create_adds grpc.create_id by (metis fst_conv)
  show "creating env (GRPC_CreateSessionPendingRemote rpc env callID codecs)"
    unfolding creating_def
    using grpc_pending.create_inv [where x = "(callID, codecs)"] grpc_pending.create_keeps [where x = "(callID, codecs)"]
      grpc_pending.create_adds [where x = "(callID, codecs)"] grpc_pending.create_id [where x = "(callID, codecs)"]
    by (metis fst_conv snd_conv)
qed

lemma fresh_member:
  assumes "pl_inv p" and "i < length (pl_members p)" and "pm_transport (pl_members p ! i) = Some t"
    and "env_fresh env (pool_holds p)"
  shows "env_fresh env (gt_holds t)"
  using member_transport(3) [OF assms(1-3)] assms(4) by (auto simp: env_fresh_def)

lemma createOn_inv:
  assumes inv: "pl_inv p" and i: "i < length (pl_members p)" and call: "creating env call"
    and fresh: "env_fresh env (pool_holds p)"
  shows "pl_inv (fst (createOn call i p))"
proof (cases "pm_transport (pl_members p ! i)")
  case None
  with inv show ?thesis by (simp add: createOn_def)
next
  case (Some t)
  obtain t' r where c: "call t = (t', r)" by fastforce
  note t = member_transport [OF inv i Some]
  have t': "gt_inv t'" "gt_holds t \<subseteq> gt_holds t'" "gt_holds t' \<subseteq> insert (ce_uuid env) (gt_holds t)"
    "\<And>res. r = Inr res \<Longrightarrow> sr_SessionID res \<in> gt_holds t'"
    using call t(1) fresh_member [OF inv i Some fresh] c unfolding creating_def by blast+
  have upd: "pl_inv (upd_member i f p)"
    if f: "\<And>m. pm_id (f m) = pm_id m \<and> pm_transport (f m) = Some t'" for f
  proof (rule upd_member_inv [OF inv i refl, where new = "{ce_uuid env}"])
    let ?m = "f (pl_members p ! i)"
    have mh: "m_holds ?m = gt_holds t'" using f by (simp add: m_holds_def)
    show "pm_id ?m = pm_id (pl_members p ! i)" using f by simp
    show "gt_inv x" if "pm_transport ?m = Some x" for x using that f t'(1) by simp
    show "m_holds ?m \<subseteq> m_holds (pl_members p ! i) \<union> {ce_uuid env}" unfolding mh using t'(3) t(2) by blast
    show "{ce_uuid env} \<inter> pool_holds p = {}" using fresh by (simp add: env_fresh_def)
    show "s \<in> m_holds ?m" if "s \<in> m_holds (pl_members p ! i)" for s unfolding mh using that t'(2) t(2) by blast
  qed
  show ?thesis
  proof (cases r)
    case (Inl err)
    then show ?thesis using c Some by (simp add: createOn_def upd set_transport_def)
  next
    case (Inr res)
    let ?p = "upd_member i (set_transport t') p"
    have "pl_inv (trackSession (sr_SessionID res) (pm_id (pl_members ?p ! i)) ?p)"
      using t'(4) [OF Inr] i by (intro track_inv upd) (simp_all add: m_holds_def set_transport_def)
    then show ?thesis using c Some Inr i by (simp add: createOn_def set_transport_def)
  qed
qed

lemma selectMember_Inr:
  assumes "selectMember p = (p', Inr i)"
  shows "i < length (pl_members p)" "pm_healthy (pl_members p ! i)" "pm_transport (pl_members p ! i) \<noteq> None"
    "pm_drainState (pl_members p ! i) = StateActive" "p' = p\<lparr>pl_nextIndex := pl_nextIndex p + 1\<rparr>"
proof -
  have ne: "available p \<noteq> []" and i: "i = available p ! (unat (pl_nextIndex p + 1) mod length (available p))"
    and p': "p' = p\<lparr>pl_nextIndex := pl_nextIndex p + 1\<rparr>"
    using assms by (auto simp: selectMember_def Let_def split: if_splits)
  have "i \<in> set (available p)" unfolding i using ne by simp
  then show "i < length (pl_members p)" "pm_healthy (pl_members p ! i)" "pm_transport (pl_members p ! i) \<noteq> None"
    "pm_drainState (pl_members p ! i) = StateActive" by (auto simp: available_def Let_def)
  show "p' = p\<lparr>pl_nextIndex := pl_nextIndex p + 1\<rparr>" using p' .
qed

lemma selectMember_Inl: "selectMember p = (p', Inl e) \<Longrightarrow> p' = p"
  by (auto simp: selectMember_def Let_def split: if_splits)

lemma nextIndex_inv: "pl_inv (p\<lparr>pl_nextIndex := x\<rparr>) = pl_inv p" "pool_holds (p\<lparr>pl_nextIndex := x\<rparr>) = pool_holds p"
  by (simp_all add: pl_inv_def index_ok_def members_ok_def servers_ok_def affinity_ok_def node_sessions_def pool_holds_def)

lemma selected_create_inv:
  assumes "pl_inv p" and "creating env call" and "env_fresh env (pool_holds p)"
  shows "pl_inv (fst (case selectMember p of (p', Inl err) \<Rightarrow> (p', Inl err) | (p', Inr i) \<Rightarrow> createOn call i p'))"
proof (cases "selectMember p")
  case (Pair p' r)
  then show ?thesis
    using assms selectMember_Inl selectMember_Inr(1,5) [of p p'] createOn_inv [of p' _ env call] nextIndex_inv
    by (cases r) auto
qed

definition quiet_handler :: "(rtp_server \<Rightarrow> rtp_server \<times> 'r) \<Rightarrow> bool" where
  "quiet_handler h \<longleftrightarrow> (\<forall>s. sm_inv (srv_sessionMgr s) \<longrightarrow> sm_inv (srv_sessionMgr (fst (h s))) \<and>
     gm_keys (sm_sessions (srv_sessionMgr (fst (h s)))) = gm_keys (sm_sessions (srv_sessionMgr s)))"

lemma keys_upd_same: "map_of m k = Some v \<Longrightarrow> insert k (gm_keys m) = gm_keys m"
  using map_of_Some_keys by (metis insert_absorb)

lemma quiet_handlers:
  "quiet_handler (\<lambda>s. Server_StopAudio s sid)"
  "quiet_handler (\<lambda>s. Server_UpdateSessionRemote s sid ra rp)"
  "quiet_handler (\<lambda>s. Server_BridgeMedia listen uuid s a b)"
  "quiet_handler (\<lambda>s. Server_UnbridgeMedia s bid sid)"
  "quiet_handler (\<lambda>s. (fst (Server_PlayAudio_start ord s sid file), ()))"
proof -
  have upd: "gm_keys (sm_sessions (fst (SessionMgr_UpdateRemoteEndpoint m sid ra rp))) = gm_keys (sm_sessions m)" for m
    by (auto simp: SessionMgr_UpdateRemoteEndpoint_def Let_def keys_upd_same split: option.split)
  have bridged: "gm_keys (sm_sessions (fst (SessionMgr_SetSessionBridged m x))) = gm_keys (sm_sessions m)" for m x
    by (auto simp: SessionMgr_SetSessionBridged_def keys_upd_same split: option.split)
  have play: "gm_keys (sm_sessions (fst (SessionMgr_PlayAudio ord m sid file))) = gm_keys (sm_sessions m)" for m
    by (auto simp: SessionMgr_PlayAudio_def Let_def keys_upd_same split: option.split prod.split)
  show "quiet_handler (\<lambda>s. Server_StopAudio s sid)"
    using StopAudio_inv by (auto simp: quiet_handler_def SessionMgr_StopAudio_def split: option.splits prod.splits)
  show "quiet_handler (\<lambda>s. Server_UpdateSessionRemote s sid ra rp)"
    using UpdateRemoteEndpoint_inv by (simp add: quiet_handler_def upd)
  show "quiet_handler (\<lambda>s. Server_BridgeMedia listen uuid s a b)"
    unfolding quiet_handler_def
  proof (intro allI impI)
    fix s :: rtp_server assume inv: "sm_inv (srv_sessionMgr s)"
    show "sm_inv (srv_sessionMgr (fst (Server_BridgeMedia listen uuid s a b))) \<and>
      gm_keys (sm_sessions (srv_sessionMgr (fst (Server_BridgeMedia listen uuid s a b)))) = gm_keys (sm_sessions (srv_sessionMgr s))"
      by (cases rule: BridgeMedia_cases [where listen = listen and uuid = uuid and s = s and a = a and b = b])
        (simp_all add: inv bridged SetSessionBridged_inv)
  qed
  show "quiet_handler (\<lambda>s. Server_UnbridgeMedia s bid sid)" by (simp add: quiet_handler_def)
  show "quiet_handler (\<lambda>s. (fst (Server_PlayAudio_start ord s sid file), ()))"
    using PlayAudio_inv by (simp add: quiet_handler_def Server_PlayAudio_start_def play split_beta)
qed

lemma quiet_rpc:
  assumes "quiet_handler h" and "gt_inv t"
  shows "gt_inv (fst (call_rpc rpc h t))" "gt_holds (fst (call_rpc rpc h t)) = gt_holds t"
  using assms by (simp_all add: gt_inv_def gt_holds_def call_rpc_server quiet_handler_def)

definition quiet_call :: "(grpc_transport \<Rightarrow> grpc_transport \<times> 'r) \<Rightarrow> bool" where
  "quiet_call call \<longleftrightarrow> (\<forall>t. gt_inv t \<longrightarrow> gt_inv (fst (call t)) \<and> gt_holds (fst (call t)) = gt_holds t)"

lemma quiet_calls:
  "quiet_call (GRPC_StopAudio rpc sid)" "quiet_call (GRPC_UpdateSessionRemote rpc sid ra rp)"
  "quiet_call (GRPC_BridgeMedia listen uuid rpc a b)" "quiet_call (GRPC_UnbridgeMedia rpc bid)" "quiet_call (GRPC_PlayAudio ord rpc sid file)"
  using quiet_rpc [OF quiet_handlers(1)] quiet_rpc [OF quiet_handlers(2)] quiet_rpc [OF quiet_handlers(3)]
    quiet_rpc [OF quiet_handlers(4)] quiet_rpc [OF quiet_handlers(5)]
  by (simp_all add: quiet_call_def GRPC_PlayAudio_def GRPC_StopAudio_def GRPC_UpdateSessionRemote_def GRPC_BridgeMedia_def
      GRPC_UnbridgeMedia_def split_beta split: option.split)

lemma quiet_upd_inv:
  assumes inv: "pl_inv p" and i: "i < length (pl_members p)" and t: "pm_transport (pl_members p ! i) = Some t"
    and call: "quiet_call call"
  shows "pl_inv (upd_member i (set_transport (fst (call t))) p)"
proof (rule upd_member_inv [OF inv i refl, where new = "{}"])
  let ?m = "set_transport (fst (call t)) (pl_members p ! i)"
  note tr = member_transport [OF inv i t]
  have q: "gt_inv (fst (call t))" "gt_holds (fst (call t)) = gt_holds t" using call tr(1) by (auto simp: quiet_call_def)
  have mh: "m_holds ?m = m_holds (pl_members p ! i)" using q(2) tr(2) by (simp add: m_holds_def set_transport_def)
  show "pm_id ?m = pm_id (pl_members p ! i)" by (simp add: set_transport_def)
  show "gt_inv x" if "pm_transport ?m = Some x" for x using that q(1) by (simp add: set_transport_def)
  show "m_holds ?m \<subseteq> m_holds (pl_members p ! i) \<union> {}" using mh by simp
  show "s \<in> m_holds ?m" if "s \<in> m_holds (pl_members p ! i)" for s using that mh by simp
qed simp

lemma onOwner_inv:
  assumes inv: "pl_inv p" and "quiet_call call"
  shows "pl_inv (fst (onOwner s call p))"
proof (cases "getMemberForSession p s")
  case None
  with inv show ?thesis by (simp add: onOwner_def)
next
  case (Some i)
  note own = owner_found [OF inv Some]
  then obtain t where "pm_transport (pl_members p ! i) = Some t" by (auto simp: m_holds_def split: option.splits)
  with quiet_upd_inv [OF inv own(1) this assms(2)] Some show ?thesis by (simp add: onOwner_def split_beta)
qed

lemma unbridgeFrom_inv: "pl_inv p \<Longrightarrow> set is \<subseteq> {..<length (pl_members p)} \<Longrightarrow> pl_inv (fst (unbridgeFrom rpcs bid is p))"
proof (induction rpcs bid "is" p rule: unbridgeFrom.induct)
  case (2 rpcs bid i "is" p)
  show ?case
  proof (cases "pm_transport (pl_members p ! i)")
    case None
    then show ?thesis using 2 by simp
  next
    case (Some t)
    let ?p = "upd_member i (set_transport (fst (GRPC_UnbridgeMedia (rpcs i) bid t))) p"
    have upd: "pl_inv ?p" using quiet_upd_inv [OF "2.prems"(1) _ Some quiet_calls(4)] "2.prems"(2) by simp
    obtain t' e where c: "GRPC_UnbridgeMedia (rpcs i) bid t = (t', e)" by fastforce
    show ?thesis
    proof (cases "pm_healthy (pl_members p ! i)")
      case False
      then show ?thesis using 2 Some by simp
    next
      case True
      show ?thesis
      proof (cases e)
        case None
        then show ?thesis using upd c Some True by simp
      next
        case err: (Some x)
        have "pl_inv (fst (unbridgeFrom rpcs bid is (upd_member i (set_transport t') p)))"
          using "2.IH"(3) [OF Some _ c [symmetric] err] True upd c "2.prems"(2) by simp
        then show ?thesis using c Some True err by simp
      qed
    qed
  qed
qed simp

lemma owner_transport:
  assumes "pl_inv p" and "getMemberForSession p s = Some i"
  obtains t where "pm_transport (pl_members p ! i) = Some t"
  using owner_found(3) [OF assms] by (auto simp: m_holds_def split: option.splits)

lemma untrack_upd_member: "untrackSession s (upd_member i f p) = upd_member i f (untrackSession s p)"
  by (simp add: untrackSession_def upd_member_def Let_def split: option.split)

lemma Pool_DestroySession_owned:
  assumes "getMemberForSession p s = Some i" and "pm_transport (pl_members p ! i) = Some t"
  shows "Pool_DestroySession ord rpc s reason p =
    (upd_member i (set_transport (fst (GRPC_DestroySession ord rpc s reason t))) (untrackSession s p),
     map_option TransportErr (snd (GRPC_DestroySession ord rpc s reason t)))"
  using assms
  by (cases "GRPC_DestroySession ord rpc s reason t"; cases "snd (GRPC_DestroySession ord rpc s reason t)")
    (simp_all add: Pool_DestroySession_def onOwner_def untrack_upd_member)

lemma Pool_DestroySession_inv:
  assumes inv: "pl_inv p"
  shows "pl_inv (fst (Pool_DestroySession ord rpc s reason p))"
proof (cases "getMemberForSession p s")
  case None
  with inv show ?thesis by (simp add: Pool_DestroySession_def)
next
  case (Some i)
  note own = owner_found [OF inv Some]
  obtain t where t: "pm_transport (pl_members p ! i) = Some t" using owner_transport [OF inv Some] .
  let ?t = "fst (GRPC_DestroySession ord rpc s reason t)" and ?p = "untrackSession s p"
  note tr = member_transport [OF inv own(1) t]
  note des = GRPC_DestroySession_transport [OF tr(1), where sid = s and ord = ord and rpc = rpc and reason = reason]
  have "pl_inv (upd_member i (set_transport ?t) ?p)"
  proof (rule upd_member_inv [OF untrack_inv [OF inv] _ refl, where new = "{}"])
    let ?m = "set_transport ?t (pl_members ?p ! i)"
    have mh: "m_holds ?m = gt_holds ?t" by (simp add: m_holds_def set_transport_def)
    show "i < length (pl_members ?p)" using own(1) by simp
    show "pm_id ?m = pm_id (pl_members ?p ! i)" by (simp add: set_transport_def)
    show "gt_inv x" if "pm_transport ?m = Some x" for x using that des(1) by (simp add: set_transport_def)
    show "m_holds ?m \<subseteq> m_holds (pl_members ?p ! i) \<union> {}" using mh des(3) tr(2) by simp
    show "x \<in> m_holds ?m" if "map_of (pl_sessionToNode ?p) x = Some (pm_id ?m)" "x \<in> m_holds (pl_members ?p ! i)" for x
    proof -
      have "x \<noteq> s" using that(1) by auto
      then show ?thesis using that(2) des(2) tr(2) mh by auto
    qed
  qed simp
  then show ?thesis by (simp add: Pool_DestroySession_owned [OF Some t])
qed

lemma Pool_BridgeMedia_inv:
  assumes inv: "pl_inv p"
  shows "pl_inv (fst (Pool_BridgeMedia listen uuid rpc a b p))"
proof -
  have "pl_inv (upd_member i (set_transport t') p)"
    if "getMemberForSession p a = Some i" "pm_transport (pl_members p ! i) = Some t"
      "GRPC_BridgeMedia listen uuid rpc a b t = (t', r)" for i t t' r
    using quiet_upd_inv [OF inv owner_found(1) [OF inv that(1)] that(2) quiet_calls(3)] that(3) by (metis fst_conv)
  then show ?thesis
    using inv unfolding Pool_BridgeMedia_def Let_def by (auto split: option.split prod.split sum.split)
qed

lemma member_index: "pl_inv p \<Longrightarrow> GetMemberByID p n = Some i \<longleftrightarrow> i < length (pl_members p) \<and> pm_id (pl_members p ! i) = n"
  by (simp add: pl_inv_def members_ok_def GetMemberByID_def)

lemma drain_ops_inv:
  assumes "pl_inv p"
  shows "pl_inv (fst (StartDrain n p))" "pl_inv (fst (CompleteDrain n p))" "pl_inv (fst (CancelDrain n p))"
proof -
  have "pl_inv (upd_member i (set_drain st) p)" if "GetMemberByID p n = Some i" for i st
    using assms that member_index [OF assms] by (intro upd_same_inv) (simp_all add: set_drain_def)
  then show "pl_inv (fst (StartDrain n p))" "pl_inv (fst (CompleteDrain n p))" "pl_inv (fst (CancelDrain n p))"
    using assms by (auto simp: StartDrain_def CompleteDrain_def CancelDrain_def split: option.split)
qed

section \<open>Reachable pools\<close>

text \<open>
  One step is one operation of the pool. A creation uses an identifier no server holds (the
  servers draw UUIDs); a health check may reconnect a member to a server that has no session
  yet. \<open>Close\<close> is not a step: nothing runs after it.
\<close>

inductive pool_step :: "media_pool \<Rightarrow> media_pool \<Rightarrow> bool" where
  create: "env_fresh env (pool_holds p) \<Longrightarrow> pool_step p (fst (Pool_CreateSession rpc env info p))"
| create_pending: "env_fresh env (pool_holds p) \<Longrightarrow> pool_step p (fst (Pool_CreateSessionPendingRemote rpc env c cs p))"
| create_peer: "env_fresh env (pool_holds p) \<Longrightarrow> pool_step p (fst (Pool_CreateSessionPendingRemoteOnNode rpc env peer c cs p))"
| create_node: "env_fresh env (pool_holds p) \<Longrightarrow> pool_step p (fst (Pool_CreateSessionOnNode rpc env n info p))"
| destroy: "pool_step p (fst (Pool_DestroySession ord rpc s reason p))"
| play: "pool_step p (fst (Pool_PlayAudio ord rpc s file p))"
| stop: "pool_step p (fst (Pool_StopAudio rpc s p))"
| update: "pool_step p (fst (Pool_UpdateSessionRemote rpc s ra rp p))"
| bridge: "pool_step p (fst (Pool_BridgeMedia listen uuid rpc a b p))"
| unbridge: "pool_step p (fst (Pool_UnbridgeMedia rpcs b p))"
| start_drain: "pool_step p (fst (StartDrain n p))"
| complete_drain: "pool_step p (fst (CompleteDrain n p))"
| cancel_drain: "pool_step p (fst (CancelDrain n p))"
| health: "dial_ok dial \<Longrightarrow> pool_step p (checkAllHealth dial rpcs p)"

inductive pool_reachable :: "media_pool \<Rightarrow> bool" where
  init: "NewPool ord dial cfg = Inr p \<Longrightarrow> is_range ord \<Longrightarrow> dial_ok dial \<Longrightarrow> gm_wf (pc_NodeAddresses cfg) \<Longrightarrow>
    pool_reachable p"
| step: "pool_reachable p \<Longrightarrow> pool_step p p' \<Longrightarrow> pool_reachable p'"

lemma Pool_creations_inv:
  assumes "pl_inv p" and fresh: "env_fresh env (pool_holds p)"
  shows "pl_inv (fst (Pool_CreateSession rpc env info p))"
    and "pl_inv (fst (Pool_CreateSessionPendingRemote rpc env c cs p))"
    and "pl_inv (fst (Pool_CreateSessionPendingRemoteOnNode rpc env peer c cs p))"
    and "pl_inv (fst (Pool_CreateSessionOnNode rpc env n info p))"
proof -
  show "pl_inv (fst (Pool_CreateSession rpc env info p))"
    using selected_create_inv [OF assms(1) creating_calls(1) fresh] by (simp add: Pool_CreateSession_def)
  show pending: "pl_inv (fst (Pool_CreateSessionPendingRemote rpc env c cs p))"
    using selected_create_inv [OF assms(1) creating_calls(2) fresh] by (simp add: Pool_CreateSessionPendingRemote_def)
  have "pl_inv (fst (createOn (GRPC_CreateSessionPendingRemote rpc env c cs) i p))"
    if "getMemberForSession p peer = Some i" for i
    using createOn_inv [OF assms(1) owner_found(1) [OF assms(1) that] creating_calls(2) fresh] .
  then show "pl_inv (fst (Pool_CreateSessionPendingRemoteOnNode rpc env peer c cs p))"
    using pending by (simp add: Pool_CreateSessionPendingRemoteOnNode_def split: option.split)
  have "pl_inv (fst (createOn (GRPC_CreateSession rpc env info) i p))" if "GetMemberByID p n = Some i" for i
    using createOn_inv [OF assms(1) _ creating_calls(1) fresh] that member_index [OF assms(1)] by simp
  then show "pl_inv (fst (Pool_CreateSessionOnNode rpc env n info p))"
    using assms(1) by (simp add: Pool_CreateSessionOnNode_def Let_def split: option.split)
qed

lemma pool_step_inv: "pool_step p p' \<Longrightarrow> pl_inv p \<Longrightarrow> pl_inv p'"
proof (induction rule: pool_step.induct)
  case (play p ord rpc s f)
  then show ?case unfolding Pool_PlayAudio_def by (rule onOwner_inv [OF _ quiet_calls(5)])
next
  case (stop p rpc s)
  then show ?case unfolding Pool_StopAudio_def by (rule onOwner_inv [OF _ quiet_calls(1)])
next
  case (update p rpc s ra rp)
  then show ?case unfolding Pool_UpdateSessionRemote_def by (rule onOwner_inv [OF _ quiet_calls(2)])
next
  case (unbridge p rpcs b)
  then show ?case unfolding Pool_UnbridgeMedia_def by (rule unbridgeFrom_inv) auto
qed (simp_all add: Pool_creations_inv Pool_DestroySession_inv Pool_BridgeMedia_inv drain_ops_inv checkAllHealth_inv)

lemma pool_reachable_inv: "pool_reachable p \<Longrightarrow> pl_inv p"
  by (induction rule: pool_reachable.induct) (simp_all add: NewPool_inv pool_step_inv)


section \<open>Placement\<close>

lemma track_fields [simp]:
  "pl_members (trackSession s n p) = pl_members p" "pl_membersByID (trackSession s n p) = pl_membersByID p"
  "map_of (pl_sessionToNode (trackSession s n p)) = (map_of (pl_sessionToNode p))(s \<mapsto> n)"
  by (simp_all add: trackSession_def Let_def)

lemma createOn_frame:
  assumes "createOn call i p = (p', r)" and "i < length (pl_members p)"
  shows "length (pl_members p') = length (pl_members p)" and "pl_membersByID p' = pl_membersByID p"
    and "j \<noteq> i \<Longrightarrow> pl_members p' ! j = pl_members p ! j"
    and "pm_id (pl_members p' ! j) = pm_id (pl_members p ! j)"
    and "pm_address (pl_members p' ! j) = pm_address (pl_members p ! j)"
    and "pm_drainState (pl_members p' ! j) = pm_drainState (pl_members p ! j)"
    and "map_of (pl_sessionToNode p') = (case r of Inl _ \<Rightarrow> map_of (pl_sessionToNode p)
      | Inr res \<Rightarrow> (map_of (pl_sessionToNode p))(sr_SessionID res \<mapsto> pm_id (pl_members p ! i)))"
  using assms
  by (auto simp: createOn_def Let_def set_transport_def nth_list_update split: option.splits prod.splits sum.splits)

lemma createOn_owner:
  assumes inv: "pl_inv p" and i: "i < length (pl_members p)" and call: "creating env call"
    and fresh: "env_fresh env (pool_holds p)" and c: "createOn call i p = (p', Inr res)"
  shows "getMemberForSession p' (sr_SessionID res) = Some i" and "sr_SessionID res \<in> m_holds (pl_members p' ! i)"
proof -
  note frame = createOn_frame [OF c i]
  have inv': "pl_inv p'" using createOn_inv [OF inv i call fresh] c by simp
  have "map_of (pl_sessionToNode p') (sr_SessionID res) = Some (pm_id (pl_members p' ! i))" using frame(4,7) by simp
  moreover have "GetMemberByID p' (pm_id (pl_members p' ! i)) = Some i"
    using member_index [OF inv'] i frame(1) by simp
  ultimately show own: "getMemberForSession p' (sr_SessionID res) = Some i" by (simp add: getMemberForSession_def)
  show "sr_SessionID res \<in> m_holds (pl_members p' ! i)" using owner_found(3) [OF inv' own] .
qed

lemma createOn_Inl:
  assumes "createOn call i p = (p', Inl e)" and "pm_transport (pl_members p ! i) \<noteq> None"
  shows "\<exists>err. e = CreateFailedOn (pm_address (pl_members p ! i)) err"
  using assms by (auto simp: createOn_def Let_def split: prod.splits sum.splits)

subsection \<open>Session affinity\<close>

text \<open>
  Property C2. In every reachable pool, every session the pool tracks has exactly one owner:
  the member with the recorded node id exists, is connected, its RTP manager really holds the
  session, and no other member's does. So the operations by session id go to the right manager.
\<close>

theorem pool_affinity:
  assumes "pool_reachable p" and "map_of (pl_sessionToNode p) s = Some n"
  shows "\<exists>i t. getMemberForSession p s = Some i \<and> i < length (pl_members p) \<and> pm_id (pl_members p ! i) = n \<and>
    pm_transport (pl_members p ! i) = Some t \<and> gm_has (sm_sessions (srv_sessionMgr (gt_server t))) s \<and>
    (\<forall>j < length (pl_members p). j \<noteq> i \<longrightarrow> s \<notin> m_holds (pl_members p ! j))"
proof -
  note inv = pool_reachable_inv [OF assms(1)]
  obtain i where i: "getMemberForSession p s = Some i" using owner_exists [OF inv assms(2)] by blast
  note own = owner_found [OF inv i]
  obtain t where t: "pm_transport (pl_members p ! i) = Some t" using owner_transport [OF inv i] .
  have "s \<notin> m_holds (pl_members p ! j)" if "j < length (pl_members p)" "j \<noteq> i" for j
    using inv own(1,3) that unfolding pl_inv_def servers_ok_def by blast
  moreover have "gm_has (sm_sessions (srv_sessionMgr (gt_server t))) s"
    using own(3) t by (simp add: m_holds_def gt_holds_def gm_has_keys)
  ultimately show ?thesis using i own t assms(2) by auto
qed

subsection \<open>The two indexes and the statistics\<close>

lemma member_session_count:
  "index_ok p \<Longrightarrow> ms_SessionCount (memberStats p m) = card (node_sessions p (pm_id m))"
  by (auto simp: memberStats_def node_sessions_def index_ok_def gm_len_keys split: option.split)

lemma tracked_partition:
  assumes "pl_inv p"
  shows "gm_keys (pl_sessionToNode p) = (\<Union>i < length (pl_members p). node_sessions p (pm_id (pl_members p ! i)))"
proof -
  have idx: "map_of (pl_sessionToNode p) x = Some n \<longleftrightarrow> x \<in> node_sessions p n" for x n
    using assms by (simp add: pl_inv_def index_ok_def)
  have "\<exists>i < length (pl_members p). pm_id (pl_members p ! i) = n" if "x \<in> node_sessions p n" for x n
    using assms that idx unfolding pl_inv_def affinity_ok_def by blast
  then show ?thesis by (auto simp: gm_keys_dom dom_def idx)
qed

lemma session_counts_add_up:
  assumes "pl_inv p"
  shows "sum_list (map ms_SessionCount (ps_Members (Pool_Stats p))) = ps_ActiveSessions (Pool_Stats p)"
proof -
  have idx: "index_ok p" "members_ok p" using assms by (simp_all add: pl_inv_def)
  let ?N = "\<lambda>i. node_sessions p (pm_id (pl_members p ! i))"
  have fin: "finite (?N i)" for i by (simp add: node_sessions_def split: option.split)
  have one: "n = n'" if "x \<in> node_sessions p n" "x \<in> node_sessions p n'" for x n n'
    using idx(1) that unfolding index_ok_def by (metis option.inject)
  have disj: "?N i \<inter> ?N j = {}" if "i < length (pl_members p)" "j < length (pl_members p)" "i \<noteq> j" for i j
    using one members_unique [OF idx(2) that(1,2)] that(3) by blast
  have "sum_list (map ms_SessionCount (ps_Members (Pool_Stats p))) = (\<Sum>i < length (pl_members p). card (?N i))"
    by (simp add: Pool_Stats_def sum_list_sum_nth member_session_count [OF idx(1)] atLeast0LessThan)
  also have "\<dots> = card (\<Union>i < length (pl_members p). ?N i)" by (rule card_UN_disjoint [symmetric]) (use fin disj in auto)
  also have "\<dots> = ps_ActiveSessions (Pool_Stats p)"
    using idx(1) by (simp add: tracked_partition [OF assms, symmetric] Pool_Stats_def gm_len_keys index_ok_def)
  finally show ?thesis .
qed

text \<open>
  Property C34. The two session indexes agree in every reachable pool: \<open>SessionsOnNode\<close> lists,
  without repetition, exactly the sessions whose recorded node is that one, and the per-member
  session counts of \<open>Stats\<close> add up to its total of active sessions.
\<close>

theorem pool_indexes_agree:
  assumes "pool_reachable p" and "is_range ord"
  shows "distinct (SessionsOnNode ord p n) \<and>
    set (SessionsOnNode ord p n) = {s. map_of (pl_sessionToNode p) s = Some n} \<and>
    sum_list (map ms_SessionCount (ps_Members (Pool_Stats p))) = ps_ActiveSessions (Pool_Stats p)"
proof -
  note inv = pool_reachable_inv [OF assms(1)]
  have idx: "index_ok p" using inv by (simp add: pl_inv_def)
  have "distinct (SessionsOnNode ord p n)"
    using idx is_range_wf [OF assms(2)] by (auto simp: SessionsOnNode_def index_ok_def gm_wf_def split: option.split)
  moreover have "set (SessionsOnNode ord p n) = node_sessions p n"
    using is_range_set [OF assms(2)] by (simp add: SessionsOnNode_def node_sessions_def gm_keys_def split: option.split)
  ultimately show ?thesis using session_counts_add_up [OF inv] idx by (auto simp: index_ok_def)
qed


subsection \<open>Load balancing\<close>


text \<open>\<open>k\<close> selections in a row.\<close>

fun selections :: "nat \<Rightarrow> media_pool \<Rightarrow> nat list" where
  "selections 0 p = []"
| "selections (Suc k) p = (case selectMember p of (p', Inl _) \<Rightarrow> selections k p' | (p', Inr i) \<Rightarrow> i # selections k p')"

lemma available_nextIndex [simp]: "available (p\<lparr>pl_nextIndex := x\<rparr>) = available p"
  by (simp add: available_def)

lemma selections_nth:
  "available p \<noteq> [] \<Longrightarrow> unat (pl_nextIndex p) + k < 2 ^ 64 \<Longrightarrow>
     selections k p = map (\<lambda>j. available p ! ((unat (pl_nextIndex p) + 1 + j) mod length (available p))) [0..<k]"
proof (induction k arbitrary: p)
  case (Suc k)
  let ?q = "p\<lparr>pl_nextIndex := pl_nextIndex p + 1\<rparr>"
  have next_idx: "unat (pl_nextIndex p + 1) = unat (pl_nextIndex p) + 1"
    using Suc.prems(2) by (simp add: unat_word_ariths)
  have "selections (Suc k) p = available p ! ((unat (pl_nextIndex p) + 1) mod length (available p)) # selections k ?q"
    using Suc.prems(1) by (simp add: selectMember_def Let_def next_idx)
  moreover have "selections k ?q =
      map (\<lambda>j. available p ! ((unat (pl_nextIndex p) + 1 + Suc j) mod length (available p))) [0..<k]"
    using Suc.IH [of ?q] Suc.prems next_idx by simp
  ultimately show ?case by (simp add: upt_conv_Cons map_Suc_upt [symmetric] comp_def del: upt_Suc)
qed simp

lemma cyclic_reads:
  assumes "xs \<noteq> []"
  shows "mset (map (\<lambda>j. xs ! ((c + j) mod length xs)) [0..<q * length xs]) = repeat_mset q (mset xs)"
proof (induction q)
  case (Suc q)
  let ?f = "\<lambda>j. xs ! ((c + j) mod length xs)"
  have "map ?f [q * length xs..<q * length xs + length xs] = rotate c xs"
  proof (rule nth_equalityI)
    fix j assume "j < length (map ?f [q * length xs..<q * length xs + length xs])"
    then have j: "j < length xs" by simp
    have "(c + (q * length xs + j)) mod length xs = (c + j) mod length xs"
      using mod_mult_self1 [of "c + j" q "length xs"] by (simp add: algebra_simps)
    then show "map ?f [q * length xs..<q * length xs + length xs] ! j = rotate c xs ! j"
      using j by (simp add: nth_rotate)
  qed simp
  moreover have "mset (rotate c xs) = mset xs"
    by (metis rotate_drop_take append_take_drop_id mset_append union_commute)
  ultimately have "mset (map ?f [q * length xs..<q * length xs + length xs]) = mset xs" by simp
  moreover have "[0..<Suc q * length xs] = [0..<q * length xs] @ [q * length xs..<q * length xs + length xs]"
    using upt_add_eq_append [of 0 "q * length xs" "length xs"] by (simp add: add.commute)
  ultimately show ?case using Suc.IH by simp
qed simp

text \<open>
  The selection is fair: as long as the set of available members and the 64-bit
  counter do not run over, \<open>q * n\<close> consecutive selections over \<open>n\<close> available members choose every
  one of them exactly \<open>q\<close> times.
\<close>

theorem round_robin_fair:
  assumes "available p \<noteq> []" and "unat (pl_nextIndex p) + q * length (available p) < 2 ^ 64"
  shows "mset (selections (q * length (available p)) p) = repeat_mset q (mset (available p)) \<and> distinct (available p)"
  using selections_nth [OF assms] cyclic_reads [OF assms(1), of "unat (pl_nextIndex p) + 1" q]
  by (simp add: available_def)


subsection \<open>Destroying a session\<close>

lemma pool_holds_upd:
  assumes "i < length (pl_members p)"
  shows "pool_holds (upd_member i f p) = m_holds (f (pl_members p ! i)) \<union>
    (\<Union>j \<in> {..<length (pl_members p)} - {i}. m_holds (pl_members p ! j))"
proof -
  have "pool_holds q = (\<Union>j < length (pl_members q). m_holds (pl_members q ! j))" for q
    by (auto simp: pool_holds_def set_conv_nth)
  then show ?thesis using assms by (auto simp: nth_list_update split: if_splits)
qed

text \<open>
  Destroying a tracked session always ends the tracking, of that session only. The
  error says whether the call was answered; the session survives on its RTP manager exactly when
  the request was not delivered, and then no later call through the pool can destroy it: its
  media session and ports are lost to that manager.
\<close>

theorem pool_destroy_outcomes:
  assumes "pool_reachable p" and "getMemberForSession p s = Some i" and "Pool_DestroySession ord rpc s reason p = (p', e)"
  shows "map_of (pl_sessionToNode p') = (map_of (pl_sessionToNode p))(s := None) \<and>
    e = (if rpc = Delivered then None else Some (TransportErr RPCFailed)) \<and>
    (s \<in> pool_holds p' \<longleftrightarrow> rpc = NotDelivered) \<and>
    Pool_DestroySession ord' rpc' s reason' p' = (p', Some (NoMemberForSession s))"
proof -
  note inv = pool_reachable_inv [OF assms(1)]
  note own = owner_found [OF inv assms(2)]
  obtain t where t: "pm_transport (pl_members p ! i) = Some t" using owner_transport [OF inv assms(2)] .
  let ?d = "GRPC_DestroySession ord rpc s reason t"
  have p': "p' = upd_member i (set_transport (fst ?d)) (untrackSession s p)" and e: "e = map_option TransportErr (snd ?d)"
    using Pool_DestroySession_owned [OF assms(2) t, of ord rpc reason] assms(3) by simp_all
  have err: "snd ?d = (if rpc = Delivered then None else Some RPCFailed)"
    by (cases rpc) (simp_all add: GRPC_DestroySession_def call_rpc_def split: prod.split)
  have mine: "m_holds (set_transport (fst ?d) m) = gt_holds (fst ?d)" for m by (simp add: m_holds_def set_transport_def)
  have "s \<in> gt_holds (fst ?d) \<longleftrightarrow> rpc = NotDelivered"
    using own(3) t by (simp add: gt_holds_def GRPC_DestroySession_server DestroySession_holds m_holds_def)
  moreover have "s \<notin> m_holds (pl_members p ! j)" if "j < length (pl_members p)" "j \<noteq> i" for j
    using inv own(1,3) that unfolding pl_inv_def servers_ok_def by blast
  ultimately have "s \<in> pool_holds p' \<longleftrightarrow> rpc = NotDelivered"
    using own(1) by (auto simp: p' pool_holds_upd mine)
  moreover have "getMemberForSession p' s = None" by (simp add: p' getMemberForSession_def)
  ultimately show ?thesis using err by (simp add: p' e Pool_DestroySession_def)
qed

subsection \<open>The B leg of a call\<close>

text \<open>
  A B leg created for a peer session goes to the peer's RTP manager, and afterwards
  the two sessions can be bridged: \<open>BridgeMedia\<close> passes its own checks and answers whatever
  that manager answers.
\<close>

theorem peer_leg_bridgeable:
  assumes "pool_reachable p" and "env_fresh env (pool_holds p)" and "getMemberForSession p peer = Some i"
    and "Pool_CreateSessionPendingRemoteOnNode rpc env peer c codecs p = (p', Inr res)" and "sr_SessionID res \<noteq> peer"
  shows "getMemberForSession p' peer = Some i \<and> getMemberForSession p' (sr_SessionID res) = Some i \<and>
    (\<exists>t. pm_transport (pl_members p' ! i) = Some t \<and>
       snd (Pool_BridgeMedia listen uuid rpc' peer (sr_SessionID res) p') =
         (case snd (GRPC_BridgeMedia listen uuid rpc' peer (sr_SessionID res) t) of
            Inl err \<Rightarrow> Inl (TransportErr err) | Inr bridgeID \<Rightarrow> Inr bridgeID))"
proof -
  note inv = pool_reachable_inv [OF assms(1)]
  note i = owner_found(1) [OF inv assms(3)]
  have c: "createOn (GRPC_CreateSessionPendingRemote rpc env c codecs) i p = (p', Inr res)"
    using assms(3,4) by (simp add: Pool_CreateSessionPendingRemoteOnNode_def)
  note frame = createOn_frame [OF c i]
  note new = createOn_owner [OF inv i creating_calls(2) assms(2) c]
  have old: "getMemberForSession p' peer = Some i"
    using assms(3,5) frame(2,7) by (simp add: getMemberForSession_def GetMemberByID_def [abs_def] cong: option.case_cong)
  have "pl_inv p'" using createOn_inv [OF inv i creating_calls(2) assms(2)] c by (metis fst_conv)
  then obtain t where t: "pm_transport (pl_members p' ! i) = Some t" using owner_transport old by metis
  then show ?thesis
    using old new(1) by (auto simp: Pool_BridgeMedia_def Let_def split: prod.split sum.split)
qed

subsection \<open>Drain states\<close>

definition same_nodes :: "media_pool \<Rightarrow> media_pool \<Rightarrow> bool" where
  "same_nodes p p' \<longleftrightarrow> length (pl_members p') = length (pl_members p) \<and>
     (\<forall>i < length (pl_members p). pm_id (pl_members p' ! i) = pm_id (pl_members p ! i) \<and>
        pm_drainState (pl_members p' ! i) = pm_drainState (pl_members p ! i))"

lemma same_nodes_refl [simp]: "same_nodes p p"
  by (simp add: same_nodes_def)

lemma same_nodes_trans: "same_nodes p q \<Longrightarrow> same_nodes q r \<Longrightarrow> same_nodes p r"
  by (simp add: same_nodes_def)

lemma same_nodes_upd [simp]: "same_nodes p (upd_member i (set_transport t) p)"
proof (cases "i < length (pl_members p)")
  case True
  then show ?thesis by (simp add: same_nodes_def set_transport_def nth_list_update)
qed (simp add: same_nodes_def)

lemma createOn_same_nodes: "i < length (pl_members p) \<Longrightarrow> same_nodes p (fst (createOn call i p))"
  using createOn_frame [of call i p] by (cases "createOn call i p") (simp add: same_nodes_def)

lemma selected_same_nodes:
  "same_nodes p (fst (case selectMember p of (p', Inl err) \<Rightarrow> (p', Inl err) | (p', Inr i) \<Rightarrow> createOn call i p'))"
proof (cases "selectMember p")
  case (Pair p' r)
  show ?thesis
  proof (cases r)
    case (Inl e)
    then show ?thesis using Pair selectMember_Inl [of p p' e] by simp
  next
    case (Inr i)
    then have "i < length (pl_members p')" "same_nodes p p'"
      using selectMember_Inr(1,5) [of p p' i] Pair by (simp_all add: same_nodes_def)
    then show ?thesis using Pair Inr same_nodes_trans createOn_same_nodes by simp
  qed
qed

lemma unbridgeFrom_same_nodes: "same_nodes p (fst (unbridgeFrom rpcs b is p))"
proof (induction "is" arbitrary: p)
  case (Cons i "is")
  then show ?case
    by (auto split: option.split prod.split intro: same_nodes_trans [OF same_nodes_upd])
qed simp

lemma onOwner_same_nodes: "same_nodes p (fst (onOwner s call p))"
  by (auto simp: onOwner_def split: option.split prod.split)

text \<open>The moves of a node's drain state.\<close>

definition drain_move :: "DrainState \<Rightarrow> DrainState \<Rightarrow> bool" where
  "drain_move a b \<longleftrightarrow> (a, b) \<in> {(StateActive, StateDraining), (StateDraining, StateDisabled),
     (StateDraining, StateActive), (StateDisabled, StateActive)}"


lemma set_drain_nth:
  "i < length (pl_members p) \<Longrightarrow> j < length (pl_members p) \<Longrightarrow>
     pm_id (pl_members (upd_member i (set_drain st) p) ! j) = pm_id (pl_members p ! j) \<and>
     pm_drainState (pl_members (upd_member i (set_drain st) p) ! j) =
       (if j = i then st else pm_drainState (pl_members p ! j))"
  by (simp add: set_drain_def nth_list_update)

lemma drain_ops_moves:
  assumes inv: "pl_inv p" and j: "j < length (pl_members p)"
    and p': "p' \<in> {fst (StartDrain n p), fst (CompleteDrain n p), fst (CancelDrain n p)}"
  shows "pm_id (pl_members p' ! j) = pm_id (pl_members p ! j) \<and>
     (pm_drainState (pl_members p' ! j) = pm_drainState (pl_members p ! j) \<or>
      drain_move (pm_drainState (pl_members p ! j)) (pm_drainState (pl_members p' ! j)))"
proof (cases "GetMemberByID p n")
  case None
  then show ?thesis using p' by (auto simp: StartDrain_def CompleteDrain_def CancelDrain_def)
next
  case (Some i)
  then have i: "i < length (pl_members p)" using member_index [OF inv] by simp
  have "p' = p \<or> (\<exists>st. p' = upd_member i (set_drain st) p \<and> drain_move (pm_drainState (pl_members p ! i)) st)"
    using p' by (cases "pm_drainState (pl_members p ! i)")
      (auto simp: StartDrain_def CompleteDrain_def CancelDrain_def Some drain_move_def)
  then show ?thesis using set_drain_nth [OF i j] by (cases "j = i") auto
qed

lemma other_steps_same_nodes:
  assumes "pool_step p p'" and "pl_inv p" and "\<And>n. p' \<notin> {fst (StartDrain n p), fst (CompleteDrain n p), fst (CancelDrain n p)}"
  shows "same_nodes p p'"
  using assms
proof (induction rule: pool_step.induct)
  case (create_peer env p rpc peer c cs)
  then show ?case
    using createOn_same_nodes owner_found(1) [of p peer]
    by (auto simp: Pool_CreateSessionPendingRemoteOnNode_def Pool_CreateSessionPendingRemote_def selected_same_nodes
        split: option.split)
next
  case (create_node env p rpc n info)
  then show ?case
    using createOn_same_nodes member_index [of p n] by (auto simp: Pool_CreateSessionOnNode_def Let_def split: option.split)
next
  case (destroy p ord rpc s reason)
  show ?case
  proof (cases "getMemberForSession p s")
    case (Some i)
    obtain t where "pm_transport (pl_members p ! i) = Some t" using owner_transport [OF destroy(1) Some] .
    then show ?thesis
      using same_nodes_upd [of p i] by (simp add: Pool_DestroySession_owned [OF Some] same_nodes_def)
  qed (simp add: Pool_DestroySession_def)
next
  case (bridge p listen uuid rpc a b)
  then show ?case by (auto simp: Pool_BridgeMedia_def Let_def split: option.split prod.split sum.split)
next
  case (health dial p rpcs)
  then show ?case by (simp add: same_nodes_def checkAllHealth_nth checkMember_fields)
qed (auto simp: Pool_CreateSession_def Pool_CreateSessionPendingRemote_def selected_same_nodes Pool_StopAudio_def Pool_PlayAudio_def
    Pool_UpdateSessionRemote_def onOwner_same_nodes Pool_UnbridgeMedia_def unbridgeFrom_same_nodes)

text \<open>
  The drain life cycle of a node. No operation of the pool changes which nodes it
  has, and a node's drain state only ever moves from active to draining, from draining to
  disabled or back to active, and from disabled to active; only the three drain operations move it.
\<close>

theorem drain_lifecycle:
  assumes "pool_reachable p" and "pool_step p p'" and "j < length (pl_members p)"
  shows "pm_id (pl_members p' ! j) = pm_id (pl_members p ! j) \<and>
     (pm_drainState (pl_members p' ! j) = pm_drainState (pl_members p ! j) \<or>
      drain_move (pm_drainState (pl_members p ! j)) (pm_drainState (pl_members p' ! j)) \<and>
      (\<exists>n. p' \<in> {fst (StartDrain n p), fst (CompleteDrain n p), fst (CancelDrain n p)}))"
proof (cases "\<exists>n. p' \<in> {fst (StartDrain n p), fst (CompleteDrain n p), fst (CancelDrain n p)}")
  case True
  then show ?thesis using drain_ops_moves [OF pool_reachable_inv [OF assms(1)] assms(3)] by metis
next
  case False
  then have "same_nodes p p'"
    using other_steps_same_nodes [OF assms(2) pool_reachable_inv [OF assms(1)]] by blast
  then show ?thesis using assms(3) by (simp add: same_nodes_def)
qed


subsection \<open>Health\<close>

definition checks :: "pool_config \<Rightarrow> bool list \<Rightarrow> pool_member \<Rightarrow> pool_member" where
  "checks cfg hs m = foldl (\<lambda>m h. recordCheck cfg h m) m hs"

definition last_run :: "bool \<Rightarrow> bool list \<Rightarrow> nat" where
  "last_run h hs = length (takeWhile (\<lambda>x. x = h) (rev hs))"

lemma checks_snoc [simp]: "checks cfg [] m = m" "checks cfg (hs @ [h]) m = recordCheck cfg h (checks cfg hs m)"
  by (simp_all add: checks_def)

lemma last_run_snoc [simp]: "last_run h [] = 0" "last_run h (hs @ [x]) = (if x = h then Suc (last_run h hs) else 0)"
  by (simp_all add: last_run_def)

lemma last_run_le: "last_run h hs \<le> length hs"
  unfolding last_run_def by (metis length_rev length_takeWhile_le)

lemma counters_run:
  "pm_failCount m = 0 \<Longrightarrow> pm_failCount (checks cfg hs m) = word_of_nat (last_run False hs)"
  "pm_successCount m = 0 \<Longrightarrow> pm_successCount (checks cfg hs m) = word_of_nat (last_run True hs)"
  by (induction hs rule: rev_induct) (auto simp: recordCheck_def Let_def)

lemma sint_run: "length hs < 2 ^ 31 \<Longrightarrow> sint (word_of_nat (last_run h hs) :: 32 word) = int (last_run h hs)"
proof -
  assume "length hs < 2 ^ 31"
  then have "last_run h hs < 2 ^ 31" using last_run_le [of h hs] by linarith
  then show ?thesis by (simp add: sint_word_ariths signed_take_bit_int_eq_self_iff signed_of_nat)
qed

text \<open>
  Health is damped by the two thresholds. Starting with zeroed counters, over any
  sequence of fewer than 2^31 checks: a healthy member stays healthy while every run of failed
  checks is shorter than the unhealthy threshold, an unhealthy one stays so while every run of
  successful checks is shorter than the healthy threshold, and a final run that reaches its
  threshold decides the state.
\<close>

theorem health_hysteresis:
  assumes "pm_failCount m = 0" and "pm_successCount m = 0" and "length hs < 2 ^ 31"
  shows "(pm_healthy m \<longrightarrow> (\<forall>k \<le> length hs. int (last_run False (take k hs)) < pc_UnhealthyThreshold cfg) \<longrightarrow>
      pm_healthy (checks cfg hs m)) \<and>
    (\<not> pm_healthy m \<longrightarrow> (\<forall>k \<le> length hs. int (last_run True (take k hs)) < pc_HealthyThreshold cfg) \<longrightarrow>
      \<not> pm_healthy (checks cfg hs m)) \<and>
    (last_run False hs > 0 \<longrightarrow> int (last_run False hs) \<ge> pc_UnhealthyThreshold cfg \<longrightarrow> \<not> pm_healthy (checks cfg hs m)) \<and>
    (last_run True hs > 0 \<longrightarrow> int (last_run True hs) \<ge> pc_HealthyThreshold cfg \<longrightarrow> pm_healthy (checks cfg hs m))"
  using assms(3)
proof (induction hs rule: rev_induct)
  case (snoc h hs)
  have len: "length hs < 2 ^ 31" "length (hs @ [h]) < 2 ^ 31" using snoc.prems by simp_all
  have fail: "sint (pm_failCount (checks cfg hs m) + 1) = int (last_run False hs) + 1" if "\<not> h"
    using that sint_run [OF len(2), of False] counters_run(1) [OF assms(1), of cfg hs] by (simp add: add.commute)
  have pass: "sint (pm_successCount (checks cfg hs m) + 1) = int (last_run True hs) + 1" if h
    using that sint_run [OF len(2), of True] counters_run(2) [OF assms(2), of cfg hs] by (simp add: add.commute)
  have upto: "(\<forall>k \<le> length (hs @ [h]). int (last_run x (take k (hs @ [h]))) < thr) \<longleftrightarrow>
      (\<forall>k \<le> length hs. int (last_run x (take k hs)) < thr) \<and> int (last_run x (hs @ [h])) < thr" for x thr
    by (auto simp: le_Suc_eq)
  show ?case
    using snoc.IH [OF len(1)] fail pass unfolding upto
    by (cases h) (auto simp: recordCheck_def Let_def)
qed simp


section \<open>A pool of two managers\<close>

definition ex_dial :: dial where
  "ex_dial addr = NewGRPCTransport (addr \<noteq> ''down:9090'') (NewServer ex_cfg)"

definition ex_pool_cfg :: pool_config where
  "ex_pool_cfg = \<lparr>pc_NodeAddresses = [(''n1'', ''10.0.0.1:9090''), (''n2'', ''10.0.0.2:9090'')], pc_Addresses = [],
     pc_UnhealthyThreshold = 3, pc_HealthyThreshold = 2\<rparr>"

definition ex_info :: session_info where
  "ex_info = \<lparr>si_CallID = ''c1'', si_RemoteAddr = ''10.0.0.9'', si_RemotePort = 4000, si_OfferedCodecs = [''0'']\<rparr>"

definition ex_cenv :: "string \<Rightarrow> create_env" where
  "ex_cenv u = \<lparr>ce_ord = id, ce_marshal = (\<lambda>_. Some ''sdp''), ce_uuid = u, ce_now = 0\<rparr>"

definition ex_p0 :: media_pool where
  "ex_p0 = projr (NewPool id ex_dial ex_pool_cfg)"

definition ex_p1 :: media_pool where
  "ex_p1 = fst (Pool_CreateSession Delivered (ex_cenv ''a'') ex_info ex_p0)"

definition ex_p2 :: media_pool where
  "ex_p2 = fst (Pool_CreateSessionPendingRemoteOnNode Delivered (ex_cenv ''b'') ''a'' ''c2'' [''0''] ex_p1)"

lemmas pool_eval = NewPool_def nodeAddressesOf_def newMember_def addMembers.simps ex_dial_def NewGRPCTransport_def
  selectMember_def available_def createOn_def GRPC_CreateSession_def GRPC_CreateSessionPendingRemote_def
  createResult_def call_rpc_def trackSession_def upd_member_def set_transport_def getMemberForSession_def
  GetMemberByID_def Let_def gm_set_def

lemma ex_p0_eval:
  "NewPool id ex_dial ex_pool_cfg = Inr ex_p0"
  "pl_members ex_p0 = [newMember ex_dial (''n1'', ''10.0.0.1:9090''), newMember ex_dial (''n2'', ''10.0.0.2:9090'')]"
  "pl_sessionToNode ex_p0 = []" "pl_nodeToSessions ex_p0 = []" "pl_nextIndex ex_p0 = 0"
  "pl_membersByID ex_p0 = [(''n1'', 0), (''n2'', 1)]"
  by (simp_all add: ex_p0_def pool_eval ex_pool_cfg_def)


lemma ex_dial_ok: "dial_ok ex_dial"
proof -
  have "sm_inv (srv_sessionMgr (NewServer ex_cfg))"
    by (simp add: NewServer_def NewSessionManager_inv)
  then show ?thesis
    by (simp add: dial_ok_def ex_dial_def NewGRPCTransport_def gt_inv_def gt_holds_def NewServer_def NewSessionManager_def)
qed

lemma ex_p0_reachable: "pool_reachable ex_p0"
  by (rule pool_reachable.init [OF ex_p0_eval(1) _ ex_dial_ok]) (simp_all add: ex_pool_cfg_def gm_wf_def is_range_def)

lemma ex_p0_holds: "pool_holds ex_p0 = {}"
  using ex_dial_ok by (simp add: pool_holds_def ex_p0_eval newMember_fields)

definition ex_r1 :: session_result where
  "ex_r1 = projr (snd (Pool_CreateSession Delivered (ex_cenv ''a'') ex_info ex_p0))"

definition ex_r2 :: session_result where
  "ex_r2 = projr (snd (Pool_CreateSessionPendingRemoteOnNode Delivered (ex_cenv ''b'') ''a'' ''c2'' [''0''] ex_p1))"

lemma ex_p1_eval:
  "Pool_CreateSession Delivered (ex_cenv ''a'') ex_info ex_p0 = (ex_p1, Inr ex_r1)" "sr_SessionID ex_r1 = ''a''"
  "pl_sessionToNode ex_p1 = [(''a'', ''n2'')]" "getMemberForSession ex_p1 ''a'' = Some 1" "pool_holds ex_p1 = {''a''}"
  "pl_nextIndex ex_p1 = 1" "available ex_p1 = [0, 1]"
  by (simp_all add: ex_p1_def ex_r1_def pool_holds_def m_holds_def gt_holds_def Pool_CreateSession_def pool_eval ex_p0_eval
      ex_cenv_def ex_info_def srv_eval int32_def)

lemma ex_p1_reachable: "pool_reachable ex_p1"
  unfolding ex_p1_def
  by (rule pool_reachable.step [OF ex_p0_reachable], rule pool_step.create)
    (simp add: env_fresh_def ex_cenv_def ex_p0_holds is_range_def)

lemma ex_p2_eval:
  "Pool_CreateSessionPendingRemoteOnNode Delivered (ex_cenv ''b'') ''a'' ''c2'' [''0''] ex_p1 = (ex_p2, Inr ex_r2)"
  "sr_SessionID ex_r2 = ''b''" "pl_sessionToNode ex_p2 = [(''a'', ''n2''), (''b'', ''n2'')]"
  by (simp_all add: ex_p2_def ex_r2_def Pool_CreateSessionPendingRemoteOnNode_def ex_p1_def Pool_CreateSession_def pool_eval
      ex_p0_eval ex_cenv_def ex_info_def srv_eval int32_def)

lemma ex_cenv_fresh: "env_fresh (ex_cenv ''b'') (pool_holds ex_p1)"
  by (simp add: env_fresh_def ex_cenv_def ex_p1_eval is_range_def)

lemma ex_p2_reachable: "pool_reachable ex_p2"
  unfolding ex_p2_def
  by (rule pool_reachable.step [OF ex_p1_reachable], rule pool_step.create_peer) (rule ex_cenv_fresh)

theorem pool_affinity_witness:
  "\<exists>i t. getMemberForSession ex_p1 ''a'' = Some i \<and> pm_transport (pl_members ex_p1 ! i) = Some t \<and>
     gm_has (sm_sessions (srv_sessionMgr (gt_server t))) ''a''"
  using pool_affinity [OF ex_p1_reachable, of "''a''" "''n2''"] by (auto simp: ex_p1_eval)

theorem pool_indexes_agree_witness:
  "set (SessionsOnNode rev ex_p2 ''n2'') = {''a'', ''b''} \<and>
   sum_list (map ms_SessionCount (ps_Members (Pool_Stats ex_p2))) = 2"
  using pool_indexes_agree [OF ex_p2_reachable, of rev "''n2''"]
  by (auto simp: ex_p2_eval is_range_def Pool_Stats_def split: if_splits)


theorem round_robin_fair_witness:
  "mset (selections 6 ex_p1) = {#0, 1, 0, 1, 0, 1#}"
proof -
  have "repeat_mset 3 (mset (available ex_p1)) = {#0, 1, 0, 1, 0, 1#}" by (simp add: ex_p1_eval numeral_3_eq_3)
  then show ?thesis using round_robin_fair [of ex_p1 3] by (simp add: ex_p1_eval)
qed

theorem pool_destroy_outcomes_witness:
  "''a'' \<in> pool_holds (fst (Pool_DestroySession id NotDelivered ''a'' TerminateReasonBYE ex_p1)) \<and>
   ''a'' \<notin> pool_holds (fst (Pool_DestroySession id Delivered ''a'' TerminateReasonBYE ex_p1))"
  using pool_destroy_outcomes [OF ex_p1_reachable ex_p1_eval(4) surjective_pairing, of id NotDelivered TerminateReasonBYE]
    pool_destroy_outcomes [OF ex_p1_reachable ex_p1_eval(4) surjective_pairing, of id Delivered TerminateReasonBYE]
  by simp

theorem peer_leg_bridgeable_witness:
  "getMemberForSession ex_p2 ''a'' = Some 1 \<and> getMemberForSession ex_p2 ''b'' = Some 1"
  using peer_leg_bridgeable [OF ex_p1_reachable ex_cenv_fresh ex_p1_eval(4) ex_p2_eval(1)] by (simp add: ex_p2_eval)

theorem drain_lifecycle_witness:
  "pm_drainState (pl_members (fst (StartDrain ''n2'' ex_p1)) ! 1) = StateDraining \<and>
   (pm_drainState (pl_members (fst (StartDrain ''n2'' ex_p1)) ! 1) = pm_drainState (pl_members ex_p1 ! 1) \<or>
    drain_move (pm_drainState (pl_members ex_p1 ! 1)) (pm_drainState (pl_members (fst (StartDrain ''n2'' ex_p1)) ! 1)))"
proof -
  have len: "1 < length (pl_members ex_p1)" using owner_found(1) [OF pool_reachable_inv [OF ex_p1_reachable] ex_p1_eval(4)] .
  have "pm_drainState (pl_members (fst (StartDrain ''n2'' ex_p1)) ! 1) = StateDraining"
    by (simp add: StartDrain_def set_drain_def ex_p1_def Pool_CreateSession_def pool_eval ex_p0_eval
        ex_cenv_def ex_info_def srv_eval int32_def)
  then show ?thesis using drain_lifecycle [OF ex_p1_reachable pool_step.start_drain len, of "''n2''"] by auto
qed

theorem health_hysteresis_witness:
  "pm_healthy (checks ex_pool_cfg [False, False, True, False] (newMember ex_dial (''n1'', ''up''))) \<and>
   \<not> pm_healthy (checks ex_pool_cfg [True, False, False, False] (newMember ex_dial (''n1'', ''up'')))"
proof -
  let ?m = "newMember ex_dial (''n1'', ''up'')" and ?hs = "[False, False, True, False]"
  have m: "pm_failCount ?m = 0" "pm_successCount ?m = 0" "pm_healthy ?m"
    by (simp_all add: newMember_def ex_dial_def NewGRPCTransport_def)
  have "k \<in> {0, 1, 2, 3, 4}" if "k \<le> length ?hs" for k using that by auto
  then have "\<forall>k \<le> length ?hs. int (last_run False (take k ?hs)) < pc_UnhealthyThreshold ex_pool_cfg"
    by (fastforce simp: ex_pool_cfg_def last_run_def)
  then show ?thesis
    using health_hysteresis [OF m(1,2), of ?hs ex_pool_cfg] health_hysteresis [OF m(1,2), of "[True, False, False, False]" ex_pool_cfg] m(3)
    by (simp add: last_run_def ex_pool_cfg_def)
qed

end
