(* ===== verification/Location.thy ===== *)
theory Location
  imports TTL_Store Go_Std "HOL-Library.Word" Complex_Main
begin

text \<open>
  \<open>internal/signaling/location\<close>: the registrar's bindings from addresses of record (AOR) to
  contacts, on top of the expiring store.

  A binding is the Go struct. The store keeps, per AOR, a map from binding id to binding in
  one expiring entry. \<open>Register\<close> and \<open>Unregister\<close> read the clock at their start (\<open>now\<close>, the
  binding's times and the entry lookup) and at their end (\<open>now'\<close>, the remaining lifetimes and
  the new entry's expiry). \<open>crypto/sha256\<close> is a parameter of the binding id. A q-value is a
  \<open>float32\<close>: a rational, an infinity or NaN, with Go's comparison.

  The locale \<open>location_contract\<close> states the \<open>LocationStore\<close> interface in terms of the
  bindings active at an instant; the in-memory store is proved to satisfy it.
\<close>

section \<open>Bindings\<close>

datatype f32 = F32NaN | F32NegInf | F32 rat | F32PosInf

fun f32_less :: "f32 \<Rightarrow> f32 \<Rightarrow> bool" where
  "f32_less F32NaN y = False"
| "f32_less x F32NaN = False"
| "f32_less F32PosInf y = False"
| "f32_less x F32NegInf = False"
| "f32_less F32NegInf y = True"
| "f32_less x F32PosInf = True"
| "f32_less (F32 a) (F32 b) = (a < b)"

datatype BindingSource = BindingSourceUnset | BindingSourceSIP | BindingSourceAPI

record binding =
  b_AOR :: string
  b_BindingID :: string
  b_ContactURI :: string
  b_ReceivedIP :: string
  b_ReceivedPort :: int
  b_Transport :: string
  b_Path :: "string list"
  b_InstanceID :: string
  b_QValue :: f32
  b_Expires :: int
  b_ExpiresAt :: time
  b_RegisteredAt :: time
  b_CallID :: string
  b_CSeq :: "32 word"
  b_UserAgent :: string
  b_Source :: BindingSource
  b_ExternalProxy :: string

type_synonym digest = "8 word list \<Rightarrow> 8 word list"

definition hex_char :: "nat \<Rightarrow> char" where
  "hex_char d = ''0123456789abcdef'' ! (d mod 16)"

definition hex_EncodeToString :: "8 word list \<Rightarrow> string" where
  "hex_EncodeToString bs = concat (map (\<lambda>b. [hex_char (unat b div 16), hex_char (unat b mod 16)]) bs)"

definition GenerateBindingID :: "digest \<Rightarrow> string \<Rightarrow> string \<Rightarrow> string" where
  "GenerateBindingID sha256 contactURI instanceID =
     (let data = (if instanceID \<noteq> '''' then contactURI @ '';'' @ instanceID else contactURI);
          hash = sha256 (map (\<lambda>c. of_nat (of_char c)) data) in
      hex_EncodeToString (take 8 hash))"

definition Binding_IsExpired :: "time \<Rightarrow> binding \<Rightarrow> bool" where
  "Binding_IsExpired now b \<longleftrightarrow> now > b_ExpiresAt b"

definition Binding_TTL :: "time \<Rightarrow> binding \<Rightarrow> duration" where
  "Binding_TTL now b = (let remaining = b_ExpiresAt b - now in if remaining < 0 then 0 else remaining)"

definition extractUserFromURI :: "string \<Rightarrow> string" where
  "extractUserFromURI uri =
     (let s = (if length uri > 4 \<and> take 4 uri = ''sip:'' then drop 4 uri
               else if length uri > 5 \<and> take 5 uri = ''sips:'' then drop 5 uri
               else uri) in
      case index_byte CHR ''@'' s of None \<Rightarrow> '''' | Some atIdx \<Rightarrow> take atIdx s)"

definition EffectiveContact :: "binding \<Rightarrow> string" where
  "EffectiveContact b =
     (if b_ReceivedIP b \<noteq> '''' \<and> b_ReceivedPort b > 0 then
        let user = extractUserFromURI (b_ContactURI b) in
        if user \<noteq> '''' then
          ''sip:'' @ user @ ''@'' @ b_ReceivedIP b @ '':'' @ itoa (b_ReceivedPort b) @ '';transport='' @ b_Transport b
        else
          ''sip:'' @ b_ReceivedIP b @ '':'' @ itoa (b_ReceivedPort b) @ '';transport='' @ b_Transport b
      else b_ContactURI b)"

definition ToDialogInfo :: "binding \<Rightarrow> string \<times> string \<times> string" where
  "ToDialogInfo b = (b_AOR b, EffectiveContact b, b_Transport b)"

definition ValidateCSeq :: "binding \<Rightarrow> string \<Rightarrow> 32 word \<Rightarrow> bool" where
  "ValidateCSeq b callID cseq = (if b_CallID b \<noteq> callID then True else cseq > b_CSeq b)"

section \<open>The store\<close>

record store_config =
  sc_CleanupInterval :: duration
  sc_DefaultExpires :: int
  sc_MaxExpires :: int
  sc_MinExpires :: int

record location_store =
  loc_bindings :: "(string, (string, binding) gomap) ttl_store"
  loc_defaultExpires :: int
  loc_maxExpires :: int
  loc_minExpires :: int

datatype loc_error =
    EmptyAOR
  | EmptyContactURI
  | ErrIntervalTooBrief
  | InvalidCSeq "32 word"
  | NoBindings string
  | BindingNotFound string

abbreviation seconds :: "int \<Rightarrow> duration" where
  "seconds n \<equiv> n * 1000000000"

definition DefaultStoreConfig :: store_config where
  "DefaultStoreConfig = \<lparr>sc_CleanupInterval = seconds 30, sc_DefaultExpires = 60,
     sc_MaxExpires = 120, sc_MinExpires = 30\<rparr>"

definition NewStore :: "store_config \<Rightarrow> location_store" where
  "NewStore cfg = \<lparr>loc_bindings = NewTTLStore (sc_CleanupInterval cfg),
     loc_defaultExpires = sc_DefaultExpires cfg, loc_maxExpires = sc_MaxExpires cfg,
     loc_minExpires = sc_MinExpires cfg\<rparr>"

text \<open>The loop \<open>for _, b := range bindingsMap\<close> that takes a maximum; its result does not depend on the order.\<close>

definition maxTTL_from :: "time \<Rightarrow> duration \<Rightarrow> (string, binding) gomap \<Rightarrow> duration" where
  "maxTTL_from now start m =
     foldl (\<lambda>acc e. let ttl = Binding_TTL now (snd e) in if ttl > acc then ttl else acc) start m"

definition normalizeExpires :: "location_store \<Rightarrow> int \<Rightarrow> int option" where
  "normalizeExpires s requested =
     (let expires = (if requested \<le> 0 then loc_defaultExpires s else requested) in
      if expires < loc_minExpires s then None
      else Some (if expires > loc_maxExpires s then loc_maxExpires s else expires))"

definition storeBinding ::
  "time \<Rightarrow> location_store \<Rightarrow> (string, binding) gomap \<Rightarrow> binding \<Rightarrow> location_store" where
  "storeBinding now s bindingsMap b =
     (let bindingsMap' = gm_set bindingsMap (b_BindingID b) b;
          maxTTL = maxTTL_from now (seconds (b_Expires b)) bindingsMap' in
      s\<lparr>loc_bindings := TTL_Set now (loc_bindings s) (b_AOR b) bindingsMap' maxTTL\<rparr>)"

definition Store_Register ::
  "digest \<Rightarrow> time \<Rightarrow> time \<Rightarrow> location_store \<Rightarrow> binding \<Rightarrow> location_store \<times> (loc_error + binding)" where
  "Store_Register sha256 now now' s binding =
     (if b_AOR binding = '''' then (s, Inl EmptyAOR)
      else if b_ContactURI binding = '''' then (s, Inl EmptyContactURI)
      else
        (case normalizeExpires s (b_Expires binding) of
           None \<Rightarrow> (s, Inl ErrIntervalTooBrief)
         | Some expires \<Rightarrow>
             let bindingID = (if b_BindingID binding = ''''
                              then GenerateBindingID sha256 (b_ContactURI binding) (b_InstanceID binding)
                              else b_BindingID binding);
                 b = binding\<lparr>b_BindingID := bindingID, b_Expires := expires,
                             b_ExpiresAt := now + seconds expires, b_RegisteredAt := now\<rparr>;
                 bindingsMap = (case TTL_Get now (loc_bindings s) (b_AOR binding) of None \<Rightarrow> [] | Some m \<Rightarrow> m) in
             (case map_of bindingsMap bindingID of
                None \<Rightarrow> (storeBinding now' s bindingsMap b, Inr b)
              | Some existing \<Rightarrow>
                  if \<not> ValidateCSeq existing (b_CallID b) (b_CSeq b)
                  then (s, Inl (InvalidCSeq (b_CSeq existing)))
                  else (storeBinding now' s bindingsMap b, Inr b))))"

definition Store_Unregister ::
  "time \<Rightarrow> time \<Rightarrow> location_store \<Rightarrow> string \<Rightarrow> string \<Rightarrow> bool \<Rightarrow> location_store \<times> loc_error option" where
  "Store_Unregister now now' s aor bindingID isWildcard =
     (if isWildcard then (s\<lparr>loc_bindings := fst (TTL_Delete (loc_bindings s) aor)\<rparr>, None)
      else
        (case TTL_Get now (loc_bindings s) aor of
           None \<Rightarrow> (s, Some (NoBindings aor))
         | Some bindingsMap \<Rightarrow>
             if \<not> gm_has bindingsMap bindingID then (s, Some (BindingNotFound bindingID))
             else
               let bindingsMap' = gm_del bindingsMap bindingID in
               if length bindingsMap' = 0
               then (s\<lparr>loc_bindings := fst (TTL_Delete (loc_bindings s) aor)\<rparr>, None)
               else (s\<lparr>loc_bindings := TTL_Set now' (loc_bindings s) aor bindingsMap'
                         (maxTTL_from now' 0 bindingsMap')\<rparr>, None)))"

definition activeOf :: "time \<Rightarrow> (string, binding) gomap \<Rightarrow> binding list" where
  "activeOf now m = map snd (filter (\<lambda>e. \<not> Binding_IsExpired now (snd e)) m)"

definition Store_Lookup ::
  "(string, binding) range_order \<Rightarrow> time \<Rightarrow> location_store \<Rightarrow> string \<Rightarrow> binding list" where
  "Store_Lookup ord now s aor =
     (case TTL_Get now (loc_bindings s) aor of
        None \<Rightarrow> []
      | Some bindingsMap \<Rightarrow> activeOf now (ord bindingsMap))"

definition effective_q :: "f32 \<Rightarrow> f32" where
  "effective_q q = (if q = F32 0 then F32 1 else q)"

fun bestBinding :: "binding list \<Rightarrow> f32 \<Rightarrow> binding option \<Rightarrow> binding option" where
  "bestBinding [] bestQ best = best"
| "bestBinding (b # bs) bestQ best =
     (let q = effective_q (b_QValue b) in
      if f32_less bestQ q then bestBinding bs q (Some b) else bestBinding bs bestQ best)"

definition Store_LookupOne ::
  "(string, binding) range_order \<Rightarrow> time \<Rightarrow> location_store \<Rightarrow> string \<Rightarrow> binding option" where
  "Store_LookupOne ord now s aor =
     (let bindings = Store_Lookup ord now s aor in
      if length bindings = 0 then None else bestBinding bindings (F32 (- 1)) None)"

type_synonym aor_order = "(string, (string, binding) gomap) range_order"

definition Store_List :: "aor_order \<Rightarrow> (string, binding) range_order \<Rightarrow> time \<Rightarrow> location_store \<Rightarrow> binding list" where
  "Store_List ordA ord now s =
     concat (map (\<lambda>e. activeOf now (ord (snd e))) (ordA (TTL_All now (loc_bindings s))))"

definition Store_ListByAOR ::
  "aor_order \<Rightarrow> (string, binding) range_order \<Rightarrow> time \<Rightarrow> location_store \<Rightarrow> (string, binding list) gomap" where
  "Store_ListByAOR ordA ord now s =
     foldl (\<lambda>result e. let bindings = activeOf now (ord (snd e)) in
              if length bindings > 0 then gm_set result (fst e) bindings else result)
       [] (ordA (TTL_All now (loc_bindings s)))"

definition Store_Count :: "time \<Rightarrow> location_store \<Rightarrow> nat" where
  "Store_Count now s =
     foldl (\<lambda>count e. count + length (activeOf now (snd e))) 0 (TTL_All now (loc_bindings s))"

definition Store_CountAORs :: "time \<Rightarrow> location_store \<Rightarrow> nat" where
  "Store_CountAORs now s = TTL_Len now (loc_bindings s)"

definition Store_Has :: "time \<Rightarrow> location_store \<Rightarrow> string \<Rightarrow> bool" where
  "Store_Has now s aor \<longleftrightarrow> length (Store_Lookup id now s aor) > 0"

definition extractUserFromAOR :: "string \<Rightarrow> string" where
  "extractUserFromAOR aor =
     (let s = (if HasPrefix aor ''sip:'' then drop 4 aor
               else if HasPrefix aor ''sips:'' then drop 5 aor
               else aor) in
      case index_byte CHR ''@'' s of None \<Rightarrow> s | Some atIdx \<Rightarrow> take atIdx s)"

definition Store_LookupByUser ::
  "aor_order \<Rightarrow> (string, binding) range_order \<Rightarrow> time \<Rightarrow> location_store \<Rightarrow> string \<Rightarrow> binding list" where
  "Store_LookupByUser ordA ord now s user =
     (if user = '''' then []
      else concat (map (\<lambda>e. if extractUserFromAOR (fst e) = user then activeOf now (ord (snd e)) else [])
             (ordA (TTL_All now (loc_bindings s)))))"

definition Store_Close :: "location_store \<Rightarrow> location_store option" where
  "Store_Close s = map_option (\<lambda>t. s\<lparr>loc_bindings := t\<rparr>) (TTL_Close (loc_bindings s))"

definition Store_MinExpires :: "location_store \<Rightarrow> int" where
  "Store_MinExpires s = loc_minExpires s"

section \<open>Active bindings and the invariant\<close>

definition alive :: "time \<Rightarrow> binding option \<Rightarrow> binding option" where
  "alive t ob = (case ob of None \<Rightarrow> None | Some b \<Rightarrow> if t \<le> b_ExpiresAt b then Some b else None)"

definition active :: "time \<Rightarrow> location_store \<Rightarrow> string \<Rightarrow> string \<Rightarrow> binding option" where
  "active t s aor i =
     (case map_of (tts_items (loc_bindings s)) aor of
        None \<Rightarrow> None
      | Some e \<Rightarrow> alive t (map_of (ent_Value e) i))"

definition binding_ok :: "location_store \<Rightarrow> string \<Rightarrow> string \<Rightarrow> binding \<Rightarrow> bool" where
  "binding_ok s aor i b \<longleftrightarrow> b_AOR b = aor \<and> b_BindingID b = i \<and> b_ContactURI b \<noteq> '''' \<and>
     b_ExpiresAt b = b_RegisteredAt b + seconds (b_Expires b) \<and>
     min (loc_minExpires s) (loc_maxExpires s) \<le> b_Expires b \<and> b_Expires b \<le> loc_maxExpires s"

definition entry_ok :: "location_store \<Rightarrow> string \<Rightarrow> (string, binding) gomap entry \<Rightarrow> bool" where
  "entry_ok s aor e \<longleftrightarrow> gm_wf (ent_Value e) \<and> ent_Value e \<noteq> [] \<and>
     (\<forall>i b. map_of (ent_Value e) i = Some b \<longrightarrow> binding_ok s aor i b \<and> b_ExpiresAt b \<le> ent_ExpiresAt e)"

definition loc_inv :: "location_store \<Rightarrow> bool" where
  "loc_inv s \<longleftrightarrow> tts_inv (loc_bindings s) \<and>
     (\<forall>aor e. map_of (tts_items (loc_bindings s)) aor = Some e \<longrightarrow> entry_ok s aor e)"

lemma entry_ok_frame [simp]:
  "binding_ok (s\<lparr>loc_bindings := x\<rparr>) = binding_ok s" "entry_ok (s\<lparr>loc_bindings := x\<rparr>) = entry_ok s"
  by (simp_all add: fun_eq_iff entry_ok_def binding_ok_def)

lemma loc_inv_entry: "loc_inv s \<Longrightarrow> map_of (tts_items (loc_bindings s)) aor = Some e \<Longrightarrow> entry_ok s aor e"
  by (simp add: loc_inv_def)

lemma entry_okD:
  assumes "entry_ok s aor e"
  shows "gm_wf (ent_Value e)" "ent_Value e \<noteq> []"
    "map_of (ent_Value e) i = Some b \<Longrightarrow> binding_ok s aor i b"
    "map_of (ent_Value e) i = Some b \<Longrightarrow> b_ExpiresAt b \<le> ent_ExpiresAt e"
  using assms by (auto simp: entry_ok_def)

lemma loc_inv_new [simp, inv_intros]: "loc_inv (NewStore cfg)"
  by (simp add: loc_inv_def NewStore_def) (simp add: NewTTLStore_def)

lemma active_new [simp]: "active t (NewStore cfg) aor i = None"
  by (simp add: active_def NewStore_def NewTTLStore_def)

lemma active_binding_ok: "loc_inv s \<Longrightarrow> active t s aor i = Some b \<Longrightarrow> binding_ok s aor i b \<and> t \<le> b_ExpiresAt b"
  by (auto simp: active_def alive_def dest!: loc_inv_entry entry_okD(3) split: option.splits if_splits)

lemma maxTTL_bounds:
  "start \<le> maxTTL_from now start m \<and> (\<forall>e \<in> set m. Binding_TTL now (snd e) \<le> maxTTL_from now start m)"
proof (induction m arbitrary: start)
  case (Cons e m)
  define start' where "start' = (if Binding_TTL now (snd e) > start then Binding_TTL now (snd e) else start)"
  have "maxTTL_from now start (e # m) = maxTTL_from now start' m"
    by (simp add: maxTTL_from_def start'_def Let_def)
  moreover have "start \<le> start'" "Binding_TTL now (snd e) \<le> start'" by (simp_all add: start'_def)
  ultimately show ?case using Cons.IH [of start'] by auto
qed (simp add: maxTTL_from_def)

lemma maxTTL_covers:
  assumes "map_of m i = Some b"
  shows "b_ExpiresAt b \<le> now + maxTTL_from now start m"
proof -
  have "Binding_TTL now b \<le> maxTTL_from now start m"
    using maxTTL_bounds [of start now m] map_of_SomeD [OF assms] by force
  then show ?thesis by (auto simp: Binding_TTL_def Let_def split: if_splits)
qed

text \<open>What \<open>bindings.Get\<close> gives the two writers: all that can still be active.\<close>

lemma current_map:
  assumes "loc_inv s" and "now \<le> t"
    and "m = (case TTL_Get now (loc_bindings s) aor of None \<Rightarrow> [] | Some m \<Rightarrow> m)"
  shows "alive t (map_of m i) = active t s aor i"
proof (cases "map_of (tts_items (loc_bindings s)) aor")
  case None
  with assms(3) show ?thesis by (simp add: TTL_Get_def active_def alive_def)
next
  case (Some e)
  note ok = loc_inv_entry [OF assms(1) Some]
  show ?thesis
  proof (cases "Entry_IsExpired now e")
    case True
    then have "\<not> t \<le> b_ExpiresAt b" if "map_of (ent_Value e) i = Some b" for b
      using entry_okD(4) [OF ok that] assms(2) by (simp add: Entry_IsExpired_def)
    with True Some assms(3) show ?thesis by (auto simp: TTL_Get_def active_def alive_def split: option.split)
  qed (use Some assms(3) in \<open>simp add: TTL_Get_def active_def\<close>)
qed

lemma current_map_ok:
  assumes "loc_inv s" and "m = (case TTL_Get now (loc_bindings s) aor of None \<Rightarrow> [] | Some m \<Rightarrow> m)"
  shows "gm_wf m" and "map_of m i = Some b \<Longrightarrow> binding_ok s aor i b"
  using assms(2) entry_okD [OF loc_inv_entry [OF assms(1), of aor]]
  by (auto simp: TTL_Get_def split: option.splits if_splits)

lemma loc_inv_Set:
  assumes "loc_inv s" and "gm_wf m" and "m \<noteq> []" and "\<And>i b. map_of m i = Some b \<Longrightarrow> binding_ok s aor i b"
  shows "loc_inv (s\<lparr>loc_bindings := TTL_Set now (loc_bindings s) aor m (maxTTL_from now start m)\<rparr>)"
proof -
  have "entry_ok s aor \<lparr>ent_Value = m, ent_ExpiresAt = now + maxTTL_from now start m\<rparr>"
    using assms(2-4) maxTTL_covers by (simp add: entry_ok_def)
  with assms(1) show ?thesis by (simp add: loc_inv_def TTL_Set_def tts_inv_def)
qed

lemma active_Set:
  "active t (s\<lparr>loc_bindings := TTL_Set now (loc_bindings s) aor m d\<rparr>) aor' i =
     (if aor' = aor then alive t (map_of m i) else active t s aor' i)"
  by (simp add: active_def TTL_Set_def)

lemma active_Delete:
  "active t (s\<lparr>loc_bindings := fst (TTL_Delete (loc_bindings s) aor)\<rparr>) aor' i =
     (if aor' = aor then None else active t s aor' i)"
  by (auto simp: active_def TTL_Delete_def gm_has_def)

lemma loc_inv_Delete [inv_intros]:
  assumes "loc_inv s"
  shows "loc_inv (s\<lparr>loc_bindings := fst (TTL_Delete (loc_bindings s) aor)\<rparr>)"
proof -
  have "map_of (tts_items (fst (TTL_Delete (loc_bindings s) aor))) aor' = Some e \<Longrightarrow>
      map_of (tts_items (loc_bindings s)) aor' = Some e" for aor' e
    by (auto simp: TTL_Delete_def split: if_splits)
  with assms show ?thesis by (simp add: loc_inv_def)
qed

section \<open>Register\<close>

lemma Register_Inr:
  assumes "Store_Register sha256 now now' s binding = (s', Inr b)"
  obtains m where "m = (case TTL_Get now (loc_bindings s) (b_AOR b) of None \<Rightarrow> [] | Some m \<Rightarrow> m)"
    and "s' = storeBinding now' s m b"
    and "\<forall>existing. map_of m (b_BindingID b) = Some existing \<longrightarrow> ValidateCSeq existing (b_CallID b) (b_CSeq b)"
    and "b_AOR b = b_AOR binding" "b_AOR b \<noteq> ''''" "b_ContactURI b = b_ContactURI binding" "b_ContactURI b \<noteq> ''''"
    and "normalizeExpires s (b_Expires binding) = Some (b_Expires b)"
    and "b_ExpiresAt b = now + seconds (b_Expires b)" "b_RegisteredAt b = now"
    and "b_CallID b = b_CallID binding" "b_CSeq b = b_CSeq binding"
    and "b_BindingID b = (if b_BindingID binding = '''' then
        GenerateBindingID sha256 (b_ContactURI binding) (b_InstanceID binding) else b_BindingID binding)"
  using assms by (auto simp: Store_Register_def Let_def split: if_splits option.splits)

lemma Register_Inl: "Store_Register sha256 now now' s binding = (s', Inl err) \<Longrightarrow> s' = s"
  by (auto simp: Store_Register_def Let_def split: if_splits option.splits)

lemma normalizeExpires_bounds:
  "normalizeExpires s r = Some x \<Longrightarrow> min (loc_minExpires s) (loc_maxExpires s) \<le> x \<and> x \<le> loc_maxExpires s"
  by (auto simp: normalizeExpires_def Let_def split: if_splits)

lemma Register_stored:
  assumes inv: "loc_inv s" and "now \<le> now'"
    and reg: "Store_Register sha256 now now' s binding = (s', Inr b)"
  shows "loc_inv s'"
    and "now \<le> t \<Longrightarrow> active t s' aor i =
      (if aor = b_AOR b \<and> i = b_BindingID b then alive t (Some b) else active t s aor i)"
proof -
  from reg obtain m where m: "m = (case TTL_Get now (loc_bindings s) (b_AOR b) of None \<Rightarrow> [] | Some m \<Rightarrow> m)"
    and s': "s' = storeBinding now' s m b"
    and b: "b_ContactURI b \<noteq> ''''" "normalizeExpires s (b_Expires binding) = Some (b_Expires b)"
      "b_ExpiresAt b = now + seconds (b_Expires b)" "b_RegisteredAt b = now"
    by (rule Register_Inr)
  let ?m = "gm_set m (b_BindingID b) b"
  have ok: "binding_ok s (b_AOR b) i b'" if "map_of ?m i = Some b'" for i b'
    using that current_map_ok(2) [OF inv m] b normalizeExpires_bounds [OF b(2)]
    by (auto simp: binding_ok_def split: if_splits)
  have "?m \<noteq> []" using map_of_gm_set [of m "b_BindingID b" b] by (metis fun_upd_same map_of.simps(1) option.simps(3))
  then show "loc_inv s'"
    unfolding s' storeBinding_def Let_def by (intro loc_inv_Set inv ok gm_wf_set current_map_ok(1) [OF inv m])
  show "active t s' aor i =
      (if aor = b_AOR b \<and> i = b_BindingID b then alive t (Some b) else active t s aor i)" if "now \<le> t"
    using current_map [OF inv that m] unfolding s' storeBinding_def Let_def by (simp add: active_Set)
qed

section \<open>Unregister\<close>

lemma Unregister_one:
  assumes inv: "loc_inv s" and un: "Store_Unregister now now' s aor i False = (s', err)"
  shows "loc_inv s'"
    and "now \<le> t \<Longrightarrow> active t s' aor' i' = (if aor' = aor \<and> i' = i then None else active t s aor' i')"
    and "err \<noteq> None \<Longrightarrow> s' = s \<and> active now s aor i = None"
proof -
  define m where "m = (case TTL_Get now (loc_bindings s) aor of None \<Rightarrow> [] | Some m \<Rightarrow> m)"
  note cur = current_map [OF inv _ m_def] and ok = current_map_ok [OF inv m_def]
  have absent: "active t s aor i = None" if "now \<le> t" "\<not> gm_has m i" for t
    using cur [OF that(1), of i] that(2) by (simp add: alive_def gm_has_def)
  consider (absent) "s' = s" "err \<noteq> None" "\<not> gm_has m i"
    | (last) "s' = s\<lparr>loc_bindings := fst (TTL_Delete (loc_bindings s) aor)\<rparr>" "err = None" "gm_del m i = []"
    | (rest) "s' = s\<lparr>loc_bindings := TTL_Set now' (loc_bindings s) aor (gm_del m i) (maxTTL_from now' 0 (gm_del m i))\<rparr>"
        "err = None" "gm_del m i \<noteq> []"
    using un unfolding m_def
    by (auto simp: Store_Unregister_def Let_def gm_has_def split: if_splits option.splits)
  then have "loc_inv s' \<and> (now \<le> t \<longrightarrow> active t s' aor' i' = (if aor' = aor \<and> i' = i then None else active t s aor' i')) \<and>
      (err \<noteq> None \<longrightarrow> s' = s \<and> active now s aor i = None)"
  proof cases
    case absent
    then show ?thesis using inv \<open>\<And>t. now \<le> t \<Longrightarrow> \<not> gm_has m i \<Longrightarrow> active t s aor i = None\<close> by auto
  next
    case last
    have "active t s aor i' = None" if "now \<le> t" "i' \<noteq> i"
      using cur [OF that(1), of i'] map_of_gm_del [of m i] last(3) that(2)
      by (metis alive_def fun_upd_other map_of.simps(1) option.simps(4))
    with last show ?thesis by (auto simp: active_Delete loc_inv_Delete [OF inv])
  next
    case rest
    have "binding_ok s aor j b" if "map_of (gm_del m i) j = Some b" for j b
      using that ok(2) by (auto split: if_splits)
    then have "loc_inv s'" unfolding rest(1) using loc_inv_Set [OF inv _ rest(3)] ok(1) by simp
    with rest show ?thesis using cur by (auto simp: active_Set alive_def)
  qed
  then show "loc_inv s'"
    and "now \<le> t \<Longrightarrow> active t s' aor' i' = (if aor' = aor \<and> i' = i then None else active t s aor' i')"
    and "err \<noteq> None \<Longrightarrow> s' = s \<and> active now s aor i = None"
    by auto
qed

section \<open>The \<open>LocationStore\<close> contract\<close>

text \<open>
  The interface of \<open>location/interface.go\<close> in terms of the bindings active at an instant: a
  successful registration is active until it expires and touches nothing else, a
  deregistration ends with the binding inactive, errors leave the store as it was, and the
  store's own housekeeping is invisible.
\<close>

locale location_contract =
  fixes inv :: "'s \<Rightarrow> bool"
    and act :: "time \<Rightarrow> 's \<Rightarrow> 'a \<Rightarrow> 'i \<Rightarrow> 'b option"
    and register :: "time \<Rightarrow> time \<Rightarrow> 's \<Rightarrow> 'b \<Rightarrow> 's \<times> ('e + 'b)"
    and unregister :: "time \<Rightarrow> time \<Rightarrow> 's \<Rightarrow> 'a \<Rightarrow> 'i \<Rightarrow> 's \<times> 'e option"
    and unregister_all :: "'s \<Rightarrow> 'a \<Rightarrow> 's"
    and housekeep :: "time \<Rightarrow> 's \<Rightarrow> 's"
    and aor_of :: "'b \<Rightarrow> 'a" and id_of :: "'b \<Rightarrow> 'i" and expiry :: "'b \<Rightarrow> time"
  assumes register_ok: "inv s \<Longrightarrow> now \<le> now' \<Longrightarrow> now \<le> t \<Longrightarrow> register now now' s b = (s', Inr b') \<Longrightarrow>
      act t s' a i = (if a = aor_of b' \<and> i = id_of b' then (if t \<le> expiry b' then Some b' else None) else act t s a i)"
    and register_inv: "inv s \<Longrightarrow> now \<le> now' \<Longrightarrow> register now now' s b = (s', Inr b') \<Longrightarrow> inv s'"
    and register_err: "register now now' s b = (s', Inl e) \<Longrightarrow> s' = s"
    and unregister_ok: "inv s \<Longrightarrow> now \<le> t \<Longrightarrow> unregister now now' s a i = (s', err) \<Longrightarrow>
      act t s' a' i' = (if a' = a \<and> i' = i then None else act t s a' i')"
    and unregister_err: "inv s \<Longrightarrow> unregister now now' s a i = (s', Some e) \<Longrightarrow> s' = s \<and> act now s a i = None"
    and unregister_inv: "inv s \<Longrightarrow> unregister now now' s a i = (s', err) \<Longrightarrow> inv s'"
    and unregister_all_ok: "inv s \<Longrightarrow> act t (unregister_all s a) a' i' = (if a' = a then None else act t s a' i')"
    and unregister_all_inv: "inv s \<Longrightarrow> inv (unregister_all s a)"
    and housekeep_ok: "inv s \<Longrightarrow> now \<le> t \<Longrightarrow> act t (housekeep now s) a i = act t s a i"
    and housekeep_inv: "inv s \<Longrightarrow> inv (housekeep now s)"
begin

lemma register_then_unregister:
  assumes "inv s" and "now \<le> now'" and "register now now' s b = (s1, Inr b')"
    and "now \<le> later" and "later \<le> expiry b'" and "unregister later later' s1 (aor_of b') (id_of b') = (s2, err)"
  shows "err = None" and "later \<le> t \<Longrightarrow> act t s2 a i = (if a = aor_of b' \<and> i = id_of b' then None else act t s a i)"
proof -
  have inv1: "inv s1" using register_inv [OF assms(1-3)] .
  have "act later s1 (aor_of b') (id_of b') = Some b'" using register_ok [OF assms(1,2,4,3)] assms(5) by simp
  then show "err = None" using unregister_err [OF inv1] assms(6) by (cases err) auto
  show "act t s2 a i = (if a = aor_of b' \<and> i = id_of b' then None else act t s a i)" if "later \<le> t"
    using unregister_ok [OF inv1 that assms(6)] register_ok [OF assms(1,2) _ assms(3), of t] that assms(4) by simp
qed

lemma latest_registration_wins:
  assumes "inv s" and "now \<le> now'" and "register now now' s b = (s1, Inr b1)"
    and "now \<le> later" and "later \<le> later'" and "register later later' s1 c = (s2, Inr c1)"
    and "aor_of c1 = aor_of b1" and "id_of c1 = id_of b1" and "later \<le> t" and "t \<le> expiry c1"
  shows "act t s2 (aor_of b1) (id_of b1) = Some c1"
  using register_ok [OF register_inv [OF assms(1-3)] assms(5,9,6)] assms(7,8,10) by simp

end

definition loc_cleanup ::
  "(string, (string, binding) gomap entry) range_order \<Rightarrow> time \<Rightarrow> location_store \<Rightarrow> location_store" where
  "loc_cleanup ord now s = s\<lparr>loc_bindings := cleaned ord now (loc_bindings s)\<rparr>"

lemma loc_cleanup_ok:
  assumes inv: "loc_inv s" and "is_range ord"
  shows "loc_inv (loc_cleanup ord now s)"
    and "now \<le> t \<Longrightarrow> active t (loc_cleanup ord now s) aor i = active t s aor i"
proof -
  have tts: "tts_inv (loc_bindings s)" using inv by (simp add: loc_inv_def)
  note items = cleanup_items [OF tts assms(2), of now]
  show "loc_inv (loc_cleanup ord now s)"
    using inv tts by (auto simp: loc_inv_def loc_cleanup_def cleaned_def items split: option.splits if_splits)
  show "active t (loc_cleanup ord now s) aor i = active t s aor i" if "now \<le> t"
  proof (cases "map_of (tts_items (loc_bindings s)) aor")
    case (Some e)
    have "\<not> t \<le> b_ExpiresAt b" if "Entry_IsExpired now e" "map_of (ent_Value e) i = Some b" for b
      using entry_okD(4) [OF loc_inv_entry [OF inv Some] that(2)] that(1) \<open>now \<le> t\<close> by (simp add: Entry_IsExpired_def)
    with Some show ?thesis
      by (auto simp: active_def alive_def loc_cleanup_def cleaned_def items split: option.split)
  qed (simp add: active_def loc_cleanup_def cleaned_def items)
qed

lemma location_store_contract:
  assumes "is_range ord"
  shows "location_contract loc_inv active (Store_Register sha256)
    (\<lambda>now now' s a i. Store_Unregister now now' s a i False) (\<lambda>s a. fst (Store_Unregister 0 0 s a [] True))
    (loc_cleanup ord) b_AOR b_BindingID b_ExpiresAt"
proof (unfold_locales, goal_cases)
  case (1 s now now' t b s' b' a i)
  then show ?case using Register_stored(2) by (auto simp: alive_def)
next
  case 2
  then show ?case by (rule Register_stored(1))
next
  case 3
  then show ?case by (rule Register_Inl)
next
  case 4
  then show ?case using Unregister_one(2) by blast
next
  case 5
  then show ?case using Unregister_one(3) by blast
next
  case 6
  then show ?case using Unregister_one(1) by blast
qed (simp_all add: Store_Unregister_def active_Delete loc_inv_Delete loc_cleanup_ok [OF _ assms])

interpretation mem: location_contract loc_inv active "Store_Register sha256"
    "\<lambda>now now' s a i. Store_Unregister now now' s a i False" "\<lambda>s a. fst (Store_Unregister 0 0 s a [] True)"
    "loc_cleanup id" b_AOR b_BindingID b_ExpiresAt
  for sha256
  by (rule location_store_contract) simp

section \<open>Reading the store\<close>

lemma activeOf_set: "set (activeOf t m) = {b. \<exists>i. (i, b) \<in> set m \<and> t \<le> b_ExpiresAt b}"
  by (force simp: activeOf_def Binding_IsExpired_def)

lemma activeOf_alive:
  assumes "gm_wf m" and "is_range ord"
  shows "set (activeOf t (ord m)) = ran (\<lambda>i. alive t (map_of m i))"
proof -
  have "alive t (map_of m i) = Some b \<longleftrightarrow> (i, b) \<in> set m \<and> t \<le> b_ExpiresAt b" for i b
    using gm_wf_entry [OF assms(1), of i b] by (auto simp: alive_def split: option.split)
  then show ?thesis by (simp add: activeOf_set is_range_set [OF assms(2)] ran_def)
qed

lemma Lookup_current:
  assumes "is_range ord"
  shows "Store_Lookup ord t s aor =
    activeOf t (ord (case TTL_Get t (loc_bindings s) aor of None \<Rightarrow> [] | Some m \<Rightarrow> m))"
  using is_range_Nil [OF assms, of "[]"] by (simp add: Store_Lookup_def activeOf_def split: option.split)

lemma Lookup_active:
  assumes "loc_inv s" and "is_range ord"
  shows "set (Store_Lookup ord t s aor) = ran (active t s aor)"
proof -
  define m where "m = (case TTL_Get t (loc_bindings s) aor of None \<Rightarrow> [] | Some m \<Rightarrow> m)"
  have "(\<lambda>i. alive t (map_of m i)) = active t s aor"
    using current_map [OF assms(1) order_refl m_def] by (simp add: fun_eq_iff)
  then show ?thesis
    using activeOf_alive [OF current_map_ok(1) [OF assms(1) m_def] assms(2), of t]
    by (simp add: Lookup_current [OF assms(2)] m_def)
qed

lemma distinct_concat_keyed:
  assumes "distinct (map fst xs)" and "\<And>e. e \<in> set xs \<Longrightarrow> distinct (f e) \<and> (\<forall>b \<in> set (f e). k b = fst e)"
  shows "distinct (concat (map f xs))"
  using assms
proof (induction xs)
  case (Cons e xs)
  have "fst e \<notin> fst ` set xs" "distinct (map fst xs)" using Cons.prems(1) by simp_all
  moreover have "k b = fst e" if "b \<in> set (f e)" for b using Cons.prems(2) [of e] that by simp
  moreover have "k b \<in> fst ` set xs" if "b \<in> set (concat (map f xs))" for b
  proof -
    from that obtain x where "x \<in> set xs" "b \<in> set (f x)" by auto
    then show ?thesis using Cons.prems(2) [of x] by simp
  qed
  ultimately have "set (f e) \<inter> set (concat (map f xs)) = {}" by (metis disjoint_iff)
  then show ?case using Cons.IH [OF \<open>distinct (map fst xs)\<close>] Cons.prems(2) by simp
qed simp

lemma activeOf_distinct:
  assumes "gm_wf m" and "\<And>i b. map_of m i = Some b \<Longrightarrow> b_BindingID b = i"
  shows "distinct (activeOf t m)"
proof -
  have "distinct (map b_BindingID (map snd m))"
  proof -
    have "map (b_BindingID \<circ> snd) m = map fst m"
      using assms gm_wf_entry [OF assms(1)] by (auto intro!: map_cong)
    then show ?thesis using assms(1) by (metis gm_wf_def map_map)
  qed
  then have "distinct (map snd m)" using distinct_map by blast
  then show ?thesis unfolding activeOf_def by (rule distinct_map_filter)
qed

lemma All_entries:
  assumes "loc_inv s"
  shows "gm_wf (TTL_All t (loc_bindings s))"
    and "map_of (TTL_All t (loc_bindings s)) aor = TTL_Get t (loc_bindings s) aor"
  using assms All_wf All_Get by (auto simp: loc_inv_def)

lemma List_active:
  assumes inv: "loc_inv s" and "is_range ordA" and "is_range ord"
  shows "distinct (Store_List ordA ord t s)"
    and "set (Store_List ordA ord t s) = {b. \<exists>aor i. active t s aor i = Some b}"
proof -
  let ?all = "TTL_All t (loc_bindings s)"
  have entry: "TTL_Get t (loc_bindings s) (fst e) = Some (snd e)" if "e \<in> set (ordA ?all)" for e
    using that gm_wf_entry [OF All_entries(1) [OF inv], of "fst e" "snd e" t] All_entries(2) [OF inv]
      is_range_set [OF assms(2)] by simp
  have val: "activeOf t (ord (snd e)) = Store_Lookup ord t s (fst e)" if "e \<in> set (ordA ?all)" for e
    using entry [OF that] by (simp add: Store_Lookup_def)
  have ok: "gm_wf (snd e)" "map_of (snd e) i = Some b \<Longrightarrow> b_BindingID b = i \<and> b_AOR b = fst e"
    if "e \<in> set (ordA ?all)" for e i b
    using current_map_ok [OF inv, of "snd e" t "fst e"] entry [OF that] by (auto simp: binding_ok_def)
  have "distinct (activeOf t (ord (snd e))) \<and> (\<forall>b \<in> set (activeOf t (ord (snd e))). b_AOR b = fst e)"
    if e: "e \<in> set (ordA ?all)" for e
    using activeOf_distinct [OF is_range_wf [OF assms(3)]] ok [OF e] is_range_map_of [OF assms(3)]
      activeOf_alive [OF ok(1) [OF e] assms(3), of t]
    by (auto simp: ran_def alive_def split: option.splits if_splits)
  moreover have "distinct (map fst (ordA ?all))"
    using is_range_wf [OF assms(2)] All_entries(1) [OF inv] by (simp add: gm_wf_def)
  ultimately show "distinct (Store_List ordA ord t s)"
    unfolding Store_List_def by (intro distinct_concat_keyed) auto
  have "set (Store_List ordA ord t s) = (\<Union>e \<in> set (ordA ?all). ran (active t s (fst e)))"
    unfolding Store_List_def using val Lookup_active [OF inv assms(3)] by simp
  also have "\<dots> = {b. \<exists>aor i. active t s aor i = Some b}"
  proof -
    have "\<exists>e \<in> set (ordA ?all). fst e = aor" if "active t s aor i = Some b" for aor i b
    proof -
      have "TTL_Get t (loc_bindings s) aor \<noteq> None"
        using current_map [OF inv order_refl refl, of t aor i] that by (cases "TTL_Get t (loc_bindings s) aor") (auto simp: alive_def)
      then obtain m where "map_of ?all aor = Some m" using All_entries(2) [OF inv] by force
      then show ?thesis using is_range_set [OF assms(2)] map_of_SomeD by force
    qed
    then show ?thesis by (force simp: ran_def)
  qed
  finally show "set (Store_List ordA ord t s) = {b. \<exists>aor i. active t s aor i = Some b}" .
qed

lemma Count_List:
  assumes "is_range ordA" and "is_range ord"
  shows "Store_Count t s = length (Store_List ordA ord t s)"
proof -
  have len: "length (activeOf t (ord m)) = length (activeOf t m)" for m
  proof -
    have "mset (activeOf t (ord m)) = mset (activeOf t m)"
      using assms(2) unfolding activeOf_def is_range_def by (metis mset_filter mset_map)
    then show ?thesis by (metis size_mset)
  qed
  have "foldl (\<lambda>c e. c + length (activeOf t (snd e))) n l = n + sum_list (map (\<lambda>e. length (activeOf t (snd e))) l)"
    for n and l :: "(string \<times> (string, binding) gomap) list"
    by (induction l arbitrary: n) auto
  moreover have "sum_list (map f (ordA l)) = sum_list (map f l)" for f :: "_ \<Rightarrow> nat" and l
    using assms(1) unfolding is_range_def by (metis mset_map sum_mset_sum_list)
  ultimately show ?thesis
    unfolding Store_Count_def Store_List_def by (simp add: length_concat len comp_def)
qed

section \<open>Reachable stores\<close>

inductive loc_reachable :: "digest \<Rightarrow> store_config \<Rightarrow> location_store \<Rightarrow> bool" for sha256 cfg where
  init: "loc_reachable sha256 cfg (NewStore cfg)"
| register: "loc_reachable sha256 cfg s \<Longrightarrow> now \<le> now' \<Longrightarrow>
    loc_reachable sha256 cfg (fst (Store_Register sha256 now now' s b))"
| unregister: "loc_reachable sha256 cfg s \<Longrightarrow>
    loc_reachable sha256 cfg (fst (Store_Unregister now now' s aor i wild))"
| cleanup: "loc_reachable sha256 cfg s \<Longrightarrow> is_range ord \<Longrightarrow> loc_reachable sha256 cfg (loc_cleanup ord now s)"

lemma Register_inv [inv_intros]:
  assumes "loc_inv s" and "now \<le> now'"
  shows "loc_inv (fst (Store_Register sha256 now now' s b))"
proof (cases "Store_Register sha256 now now' s b")
  case (Pair s' r)
  then show ?thesis using assms Register_Inl Register_stored(1) by (cases r) fastforce+
qed

lemma Unregister_inv [inv_intros]: "loc_inv s \<Longrightarrow> loc_inv (fst (Store_Unregister now now' s aor i wild))"
proof (cases wild)
  case True
  then show "loc_inv s \<Longrightarrow> ?thesis" by (simp add: Store_Unregister_def loc_inv_Delete)
next
  case False
  then show "loc_inv s \<Longrightarrow> ?thesis" using Unregister_one(1) surjective_pairing by metis
qed

lemma loc_config_kept:
  "loc_minExpires (fst (Store_Register sha256 now now' s b)) = loc_minExpires s"
  "loc_maxExpires (fst (Store_Register sha256 now now' s b)) = loc_maxExpires s"
  "loc_minExpires (fst (Store_Unregister now now' s aor i wild)) = loc_minExpires s"
  "loc_maxExpires (fst (Store_Unregister now now' s aor i wild)) = loc_maxExpires s"
  "loc_minExpires (loc_cleanup ord now s) = loc_minExpires s"
  "loc_maxExpires (loc_cleanup ord now s) = loc_maxExpires s"
  by (simp_all add: Store_Register_def Store_Unregister_def loc_cleanup_def storeBinding_def Let_def split: option.split)

lemma loc_reachable_inv:
  "loc_reachable sha256 cfg s \<Longrightarrow>
     loc_inv s \<and> loc_minExpires s = sc_MinExpires cfg \<and> loc_maxExpires s = sc_MaxExpires cfg"
  by (induction rule: loc_reachable.induct)
    (auto simp: NewStore_def loc_config_kept Register_inv Unregister_inv loc_cleanup_ok(1) loc_inv_new [unfolded NewStore_def])

section \<open>Properties\<close>

text \<open>
  Property C4. A successful \<open>Register\<close> is visible to \<open>Lookup\<close> exactly until it expires, replaces the
  binding with the same id, and changes nothing else: not the other bindings of the AOR, not
  other AORs.
\<close>

theorem register_lookup:
  assumes "loc_reachable sha256 cfg s" and "is_range ord" and "now \<le> now'" and "now \<le> t"
    and "Store_Register sha256 now now' s binding = (s', Inr b)"
  shows "x \<in> set (Store_Lookup ord t s' aor) \<longleftrightarrow>
    (if aor = b_AOR b then (x = b \<and> t \<le> b_ExpiresAt b) \<or>
         (x \<in> set (Store_Lookup ord t s aor) \<and> b_BindingID x \<noteq> b_BindingID b)
     else x \<in> set (Store_Lookup ord t s aor))"
proof -
  have inv: "loc_inv s" using loc_reachable_inv [OF assms(1)] by simp
  have act: "active t s' aor i =
      (if aor = b_AOR b \<and> i = b_BindingID b then (if t \<le> b_ExpiresAt b then Some b else None) else active t s aor i)" for i
    by (rule mem.register_ok [OF inv assms(3,4,5)])
  have "x \<in> ran (active t s' aor) \<longleftrightarrow> (\<exists>i. active t s' aor i = Some x)" by (simp add: ran_def)
  also have "\<dots> \<longleftrightarrow> (if aor = b_AOR b then (x = b \<and> t \<le> b_ExpiresAt b) \<or>
      (\<exists>i. active t s aor i = Some x \<and> i \<noteq> b_BindingID b) else \<exists>i. active t s aor i = Some x)"
    using act by (auto split: if_splits)
  also have "(\<exists>i. active t s aor i = Some x \<and> i \<noteq> b_BindingID b) \<longleftrightarrow>
      x \<in> ran (active t s aor) \<and> b_BindingID x \<noteq> b_BindingID b"
    using active_binding_ok [OF inv] by (auto simp: ran_def binding_ok_def)
  finally show ?thesis
    by (simp add: Lookup_active [OF inv assms(2)] Lookup_active [OF Register_stored(1) [OF inv assms(3,5)] assms(2)] ran_def)
qed

definition ex_sha :: digest where
  "ex_sha bs = take 32 (bs @ replicate 32 0)"

definition ex_binding :: binding where
  "ex_binding = \<lparr>b_AOR = ''sip:1000@pbx'', b_BindingID = ''dev1'', b_ContactURI = ''sip:1000@10.0.0.9:5060'',
     b_ReceivedIP = ''10.0.0.9'', b_ReceivedPort = 5060, b_Transport = ''UDP'', b_Path = [], b_InstanceID = '''',
     b_QValue = F32 0, b_Expires = 60, b_ExpiresAt = 0, b_RegisteredAt = 0, b_CallID = ''c1'', b_CSeq = 1,
     b_UserAgent = '''', b_Source = BindingSourceSIP, b_ExternalProxy = ''''\<rparr>"

definition ex_stored :: binding where
  "ex_stored = ex_binding\<lparr>b_ExpiresAt := seconds 60\<rparr>"

definition ex_loc :: location_store where
  "ex_loc = fst (Store_Register ex_sha 0 1 (NewStore DefaultStoreConfig) ex_binding)"

lemma ex_loc_register: "Store_Register ex_sha 0 1 (NewStore DefaultStoreConfig) ex_binding = (ex_loc, Inr ex_stored)"
  by (simp add: ex_loc_def Store_Register_def ex_binding_def ex_stored_def NewStore_def DefaultStoreConfig_def
      normalizeExpires_def TTL_Get_def NewTTLStore_def Let_def)

theorem register_lookup_witness:
  "Store_Lookup id (seconds 60) ex_loc ''sip:1000@pbx'' \<noteq> [] \<and>
   Store_Lookup id (seconds 60 + 1) ex_loc ''sip:1000@pbx'' = []"
proof -
  have empty: "Store_Lookup id t (NewStore DefaultStoreConfig) aor = []" for t aor
    by (simp add: Store_Lookup_def NewStore_def)
  note look = register_lookup [OF loc_reachable.init is_range_id _ _ ex_loc_register]
  have aor: "b_AOR ex_stored = ''sip:1000@pbx''" "b_ExpiresAt ex_stored = seconds 60"
    by (simp_all add: ex_stored_def ex_binding_def)
  have "ex_stored \<in> set (Store_Lookup id (seconds 60) ex_loc ''sip:1000@pbx'')"
    by (subst look) (simp_all add: aor)
  moreover have "x \<notin> set (Store_Lookup id (seconds 60 + 1) ex_loc ''sip:1000@pbx'')" for x
    by (subst look) (simp_all add: aor empty)
  ultimately show ?thesis by (metis empty_iff empty_set list.set_intros(1) neq_Nil_conv)
qed

text \<open>
  Registering a contact and deregistering it while it is active succeeds and leaves
  exactly the bindings there were before, from then on, except that an older binding with the
  same id is gone too.
\<close>

theorem register_unregister_roundtrip:
  assumes "loc_reachable sha256 cfg s" and "now \<le> now'"
    and "Store_Register sha256 now now' s binding = (s1, Inr b)"
    and "now \<le> later" and "later \<le> b_ExpiresAt b" and "later \<le> t"
  shows "snd (Store_Unregister later later' s1 (b_AOR b) (b_BindingID b) False) = None \<and>
    active t (fst (Store_Unregister later later' s1 (b_AOR b) (b_BindingID b) False)) aor i =
      (if aor = b_AOR b \<and> i = b_BindingID b then None else active t s aor i)"
proof -
  have inv: "loc_inv s" using loc_reachable_inv [OF assms(1)] by simp
  show ?thesis
    using mem.register_then_unregister [OF inv assms(2-5) prod.collapse [symmetric]] assms(6) by metis
qed

theorem register_unregister_roundtrip_witness:
  "snd (Store_Unregister 5 6 ex_loc ''sip:1000@pbx'' ''dev1'' False) = None \<and>
   active 7 (fst (Store_Unregister 5 6 ex_loc ''sip:1000@pbx'' ''dev1'' False)) ''sip:1000@pbx'' ''dev1'' = None"
  using register_unregister_roundtrip [OF loc_reachable.init _ ex_loc_register, of 5 7 6 "''sip:1000@pbx''" "''dev1''"]
  by (simp add: ex_stored_def ex_binding_def)

text \<open>
  Replayed or reordered registrations are refused: while a binding is active, a
  \<open>Register\<close> for it with the same Call-ID succeeds only with a higher CSeq, and a refused
  \<open>Register\<close> (for this or any other reason) leaves the store unchanged.
\<close>

theorem register_cseq_increases:
  assumes "loc_reachable sha256 cfg s" and "now \<le> now'"
    and "Store_Register sha256 now now' s binding = (s', r)"
  shows "(case r of
      Inr b \<Rightarrow> (case active now s (b_AOR b) (b_BindingID b) of
          None \<Rightarrow> True | Some old \<Rightarrow> b_CallID old = b_CallID binding \<longrightarrow> b_CSeq old < b_CSeq binding)
    | Inl err \<Rightarrow> s' = s)"
proof (cases r)
  case (Inl err)
  with assms(3) show ?thesis using Register_Inl by simp
next
  case (Inr b)
  have inv: "loc_inv s" using loc_reachable_inv [OF assms(1)] by simp
  obtain m where m: "m = (case TTL_Get now (loc_bindings s) (b_AOR b) of None \<Rightarrow> [] | Some m \<Rightarrow> m)"
    and cseq: "\<forall>e. map_of m (b_BindingID b) = Some e \<longrightarrow> ValidateCSeq e (b_CallID b) (b_CSeq b)"
    and b: "b_CallID b = b_CallID binding" "b_CSeq b = b_CSeq binding"
    using assms(3) unfolding Inr by (rule Register_Inr)
  have "map_of m (b_BindingID b) = Some old" if "active now s (b_AOR b) (b_BindingID b) = Some old" for old
    using current_map [OF inv order_refl m, of "b_BindingID b"] that by (auto simp: alive_def split: option.splits if_splits)
  with cseq b Inr show ?thesis by (auto simp: ValidateCSeq_def split: option.split if_splits)
qed

theorem register_cseq_increases_witness:
  "active 2 ex_loc ''sip:1000@pbx'' ''dev1'' = Some ex_stored \<and>
   (\<forall>b. snd (Store_Register ex_sha 2 3 ex_loc ex_binding) \<noteq> Inr b)"
proof -
  have act: "active 2 ex_loc ''sip:1000@pbx'' ''dev1'' = Some ex_stored"
    using mem.register_ok [OF loc_inv_new _ _ ex_loc_register, of 2] by (simp add: ex_stored_def ex_binding_def)
  have "loc_reachable ex_sha DefaultStoreConfig ex_loc"
    using loc_reachable.register [OF loc_reachable.init, of 0 1] by (simp add: ex_loc_def)
  note cseq = register_cseq_increases [OF this, of 2 3 ex_binding, OF _ prod.collapse [symmetric]]
  have "snd (Store_Register ex_sha 2 3 ex_loc ex_binding) \<noteq> Inr b" for b
  proof
    assume r: "snd (Store_Register ex_sha 2 3 ex_loc ex_binding) = Inr b"
    then have "Store_Register ex_sha 2 3 ex_loc ex_binding = (fst (Store_Register ex_sha 2 3 ex_loc ex_binding), Inr b)"
      by (metis prod.collapse)
    then have "b_AOR b = ''sip:1000@pbx''" "b_BindingID b = ''dev1''"
      by (auto elim!: Register_Inr simp: ex_binding_def)
    with cseq r act show False by (simp add: ex_stored_def ex_binding_def)
  qed
  with act show ?thesis by blast
qed

text \<open>
  Every binding a \<open>Lookup\<close> returns, in any reachable store, belongs to that AOR, has a
  contact, has not expired, and was granted a lifetime between the configured minimum and
  maximum, whatever the client asked for.
\<close>

theorem lookup_bounds:
  assumes "loc_reachable sha256 cfg s" and "is_range ord" and "sc_MinExpires cfg \<le> sc_MaxExpires cfg"
    and "b \<in> set (Store_Lookup ord t s aor)"
  shows "b_AOR b = aor \<and> b_ContactURI b \<noteq> '''' \<and> t \<le> b_ExpiresAt b \<and>
    b_ExpiresAt b = b_RegisteredAt b + seconds (b_Expires b) \<and>
    sc_MinExpires cfg \<le> b_Expires b \<and> b_Expires b \<le> sc_MaxExpires cfg"
proof -
  have inv: "loc_inv s" "loc_minExpires s = sc_MinExpires cfg" "loc_maxExpires s = sc_MaxExpires cfg"
    using loc_reachable_inv [OF assms(1)] by auto
  obtain i where "active t s aor i = Some b"
    using assms(4) Lookup_active [OF inv(1) assms(2)] by (auto simp: ran_def)
  from active_binding_ok [OF inv(1) this] show ?thesis
    using inv(2,3) assms(3) by (simp add: binding_ok_def)
qed

lemma ex_loc_reachable: "loc_reachable ex_sha DefaultStoreConfig ex_loc"
  using loc_reachable.register [OF loc_reachable.init, of 0 1] by (simp add: ex_loc_def)

lemma ex_loc_lookup: "ex_stored \<in> set (Store_Lookup id (seconds 60) ex_loc ''sip:1000@pbx'')"
proof -
  have "active (seconds 60) ex_loc ''sip:1000@pbx'' ''dev1'' = Some ex_stored"
    using mem.register_ok [OF loc_inv_new _ _ ex_loc_register, of "seconds 60"] by (simp add: ex_stored_def ex_binding_def)
  moreover have "loc_inv ex_loc" using loc_reachable_inv [OF ex_loc_reachable] by simp
  ultimately show ?thesis by (auto simp: Lookup_active ran_def)
qed

theorem lookup_bounds_witness: "b_Expires ex_stored \<le> 120 \<and> ex_stored \<in> set (Store_Lookup id (seconds 60) ex_loc ''sip:1000@pbx'')"
  using lookup_bounds [OF ex_loc_reachable is_range_id _ ex_loc_lookup] ex_loc_lookup by (simp add: DefaultStoreConfig_def)

text \<open>
  \<open>List\<close> enumerates every active binding of the store exactly once, whatever orders the
  two maps are iterated in, and \<open>Count\<close> is its length.
\<close>

theorem list_enumerates_active:
  assumes "loc_reachable sha256 cfg s" and "is_range ordA" and "is_range ord"
  shows "distinct (Store_List ordA ord t s) \<and>
    set (Store_List ordA ord t s) = {b. \<exists>aor i. active t s aor i = Some b} \<and>
    Store_Count t s = length (Store_List ordA ord t s)"
  using loc_reachable_inv [OF assms(1)] List_active [OF _ assms(2,3)] Count_List [OF assms(2,3)] by blast

theorem list_enumerates_active_witness: "ex_stored \<in> set (Store_List rev id 5 ex_loc) \<and> 0 < Store_Count 5 ex_loc"
proof -
  have "active 5 ex_loc ''sip:1000@pbx'' ''dev1'' = Some ex_stored"
    using mem.register_ok [OF loc_inv_new _ _ ex_loc_register, of 5] by (simp add: ex_stored_def ex_binding_def)
  then have "ex_stored \<in> set (Store_List rev id 5 ex_loc)"
    using list_enumerates_active [OF ex_loc_reachable is_range_rev is_range_id, of 5] by blast
  then show ?thesis
    using list_enumerates_active [OF ex_loc_reachable is_range_rev is_range_id, of 5] by (metis length_pos_if_in_set)
qed

subsection \<open>Choosing the best contact\<close>

definition q_le :: "f32 \<Rightarrow> f32 \<Rightarrow> bool" where
  "q_le x y \<longleftrightarrow> x \<noteq> F32NaN \<and> y \<noteq> F32NaN \<and> \<not> f32_less y x"

lemma q_le_trans: "q_le x y \<Longrightarrow> q_le y z \<Longrightarrow> q_le x z"
  by (cases x; cases y; cases z) (auto simp: q_le_def)

lemma f32_less_le: "f32_less x y \<Longrightarrow> q_le x y"
  by (cases x; cases y) (auto simp: q_le_def)

lemma bestBinding_spec:
  assumes "bestQ \<noteq> F32NaN" and "\<forall>b \<in> set bs. b_QValue b \<noteq> F32NaN"
    and "case best of None \<Rightarrow> True | Some b \<Rightarrow> effective_q (b_QValue b) = bestQ"
  shows "case bestBinding bs bestQ best of
      None \<Rightarrow> best = None \<and> (\<forall>b \<in> set bs. q_le (effective_q (b_QValue b)) bestQ)
    | Some r \<Rightarrow> (r \<in> set bs \<or> best = Some r) \<and> q_le bestQ (effective_q (b_QValue r)) \<and>
        (\<forall>b \<in> set bs. q_le (effective_q (b_QValue b)) (effective_q (b_QValue r)))"
  using assms
proof (induction bs arbitrary: bestQ best)
  case Nil
  then show ?case by (cases bestQ) (auto simp: q_le_def split: option.split)
next
  case (Cons b bs)
  let ?q = "effective_q (b_QValue b)"
  have q: "?q \<noteq> F32NaN" using Cons.prems(2) by (simp add: effective_q_def)
  show ?case
  proof (cases "f32_less bestQ ?q")
    case True
    then show ?thesis
      using Cons.IH [of ?q "Some b"] q Cons.prems(2) f32_less_le [OF True] q_le_trans [of bestQ ?q]
      by (auto simp: Let_def split: option.splits)
  next
    case False
    then have "q_le ?q bestQ" using q Cons.prems(1) by (simp add: q_le_def)
    then show ?thesis
      using False Cons.IH [of bestQ best] Cons.prems q_le_trans [of ?q bestQ]
      by (auto simp: Let_def split: option.splits)
  qed
qed

text \<open>
  \<open>LookupOne\<close> picks an active binding of highest q-value (zero standing for the default
  one) whenever the AOR has an active binding and every q-value is a number between zero and
  one, as the q parameter requires.
\<close>

theorem lookupOne_best:
  assumes "is_range ord" and "Store_Lookup ord t s aor \<noteq> []"
    and "\<forall>b \<in> set (Store_Lookup ord t s aor). \<exists>q. b_QValue b = F32 q \<and> 0 \<le> q \<and> q \<le> 1"
  shows "\<exists>r. Store_LookupOne ord t s aor = Some r \<and> r \<in> set (Store_Lookup ord t s aor) \<and>
    (\<forall>b \<in> set (Store_Lookup ord t s aor). q_le (effective_q (b_QValue b)) (effective_q (b_QValue r)))"
proof -
  let ?l = "Store_Lookup ord t s aor"
  have "\<forall>b \<in> set ?l. b_QValue b \<noteq> F32NaN" using assms(3) by force
  note spec = bestBinding_spec [of "F32 (- 1)" ?l None, OF _ this]
  have above: "\<not> q_le (effective_q (b_QValue b)) (F32 (- 1))" if b: "b \<in> set ?l" for b
  proof -
    obtain q where "b_QValue b = F32 q" "0 \<le> q" using assms(3) b by blast
    then show ?thesis by (simp add: effective_q_def q_le_def)
  qed
  obtain x where "x \<in> set ?l" using assms(2) by (cases ?l) auto
  with spec above obtain r where "bestBinding ?l (F32 (- 1)) None = Some r"
    by (cases "bestBinding ?l (F32 (- 1)) None") auto
  with spec assms(2) show ?thesis by (auto simp: Store_LookupOne_def Let_def)
qed

theorem lookupOne_best_witness:
  "\<exists>r. Store_LookupOne id 5 ex_loc ''sip:1000@pbx'' = Some r"
proof -
  have "Store_Lookup id 5 ex_loc ''sip:1000@pbx'' = [ex_stored]"
    by (simp add: ex_loc_def Store_Register_def ex_binding_def ex_stored_def NewStore_def DefaultStoreConfig_def
      normalizeExpires_def TTL_Get_def NewTTLStore_def Let_def storeBinding_def TTL_Set_def gm_set_def
      maxTTL_from_def Store_Lookup_def activeOf_def Binding_IsExpired_def Entry_IsExpired_def Binding_TTL_def)
  then show ?thesis
    using lookupOne_best [of id 5 ex_loc "''sip:1000@pbx''"] by (auto simp: ex_stored_def ex_binding_def)
qed

text \<open>
  An explicit \<open>q=0\<close>, the lowest priority a client can ask for, is not distinguished from an
  absent q parameter and wins over every other contact.
\<close>

theorem q_zero_wins:
  "bestBinding [b\<lparr>b_QValue := F32 (1 / 2)\<rparr>, b\<lparr>b_QValue := F32 0\<rparr>, b\<lparr>b_QValue := F32 (9 / 10)\<rparr>] (F32 (- 1)) None =
     Some (b\<lparr>b_QValue := F32 0\<rparr>)"
  by (simp add: effective_q_def)

subsection \<open>Users of an AOR\<close>

lemma extractUser_append:
  assumes "CHR ''@'' \<notin> set u"
  shows "extractUserFromAOR (''sip:'' @ u @ CHR ''@'' # d) = u" "extractUserFromAOR (''sips:'' @ u @ CHR ''@'' # d) = u"
  using assms by (simp_all add: extractUserFromAOR_def HasPrefix_def index_byte_append)

text \<open>
  A contact registered under \<open>sip:user@domain\<close> is found by \<open>LookupByUser\<close> with just the
  user part, whatever the domain, as long as it is active.
\<close>

theorem registered_user_found:
  assumes "loc_reachable sha256 cfg s" and "is_range ordA" and "is_range ord" and "now \<le> now'"
    and "Store_Register sha256 now now' s binding = (s', Inr b)" and "now \<le> t" and "t \<le> b_ExpiresAt b"
    and "b_AOR b = ''sip:'' @ u @ CHR ''@'' # d" and "u \<noteq> ''''" and "CHR ''@'' \<notin> set u"
  shows "b \<in> set (Store_LookupByUser ordA ord t s' u)"
proof -
  have inv: "loc_inv s" using loc_reachable_inv [OF assms(1)] by simp
  have inv': "loc_inv s'" using Register_stored(1) [OF inv assms(4,5)] .
  have "active t s' (b_AOR b) (b_BindingID b) = Some b"
    using mem.register_ok [OF inv assms(4,6,5)] assms(7) by simp
  then have look: "b \<in> set (Store_Lookup ord t s' (b_AOR b))"
    by (auto simp: Lookup_active [OF inv' assms(3)] ran_def)
  then obtain m where get: "TTL_Get t (loc_bindings s') (b_AOR b) = Some m" and m: "b \<in> set (activeOf t (ord m))"
    by (cases "TTL_Get t (loc_bindings s') (b_AOR b)") (auto simp: Store_Lookup_def)
  have "(b_AOR b, m) \<in> set (ordA (TTL_All t (loc_bindings s')))"
    using All_entries [OF inv'] gm_wf_entry get is_range_set [OF assms(2)] by metis
  then show ?thesis
    using m extractUser_append(1) [OF assms(10)] assms(8,9) unfolding Store_LookupByUser_def by force
qed

theorem registered_user_found_witness: "ex_stored \<in> set (Store_LookupByUser rev id 5 ex_loc ''1000'')"
  using registered_user_found [OF loc_reachable.init is_range_rev is_range_id _ ex_loc_register, of 5 "''1000''" "''pbx''"]
  by (simp add: ex_stored_def ex_binding_def)

text \<open>
  Behind a NAT, routing goes to the address the REGISTER came from but keeps the user part
  of the registered contact; with no usable source address the contact itself is used.
\<close>

theorem effective_contact_keeps_user:
  assumes "b_ContactURI b = ''sip:'' @ u @ CHR ''@'' # d" and "u \<noteq> ''''" and "CHR ''@'' \<notin> set u"
  shows "extractUserFromURI (EffectiveContact b) = u \<and>
    (if b_ReceivedIP b \<noteq> '''' \<and> b_ReceivedPort b > 0
     then EffectiveContact b = ''sip:'' @ u @ ''@'' @ b_ReceivedIP b @ '':'' @ itoa (b_ReceivedPort b) @ '';transport='' @ b_Transport b
     else EffectiveContact b = b_ContactURI b)"
proof -
  have user: "extractUserFromURI (''sip:'' @ u @ CHR ''@'' # x) = u" for x
    using assms(3) by (simp add: extractUserFromURI_def index_byte_append)
  show ?thesis using user assms(1,2) by (simp add: EffectiveContact_def Let_def)
qed

theorem effective_contact_keeps_user_witness:
  "EffectiveContact ex_binding = ''sip:1000@10.0.0.9:5060;transport=UDP''"
  using effective_contact_keeps_user [of ex_binding "''1000''" "''10.0.0.9:5060''"]
  by (simp add: ex_binding_def itoa_def show_nat.simps digit_char_def)

end
