(* ===== verification/Resolver.thy ===== *)
theory Resolver
  imports Location Go_Strings
begin

text \<open>
  \<open>internal/signaling/b2bua/lookup.go\<close>, \<open>direct_resolver.go\<close>, \<open>user_resolver.go\<close> and
  \<open>chain_resolver.go\<close>: how a dial target (\<open>sip:...\<close>, \<open>user/1001\<close>, \<open>1001\<close>) becomes a list
  of SIP URIs.

  The Go interface \<open>Resolver\<close> is the record \<open>resolver\<close> of its two methods; what a caller of
  \<open>Resolve\<close> relies on is the locale \<open>resolver_contract\<close>. \<open>sort.Slice\<close>, which is not stable,
  is the parameter \<open>sortFn\<close> with the specification \<open>sort_slice\<close>.
\<close>

section \<open>Results and errors\<close>

datatype LookupResultType = LookupResultTypeUser | LookupResultTypeGateway | LookupResultTypeDirect

fun LookupResultType_String :: "LookupResultType \<Rightarrow> string" where
  "LookupResultType_String LookupResultTypeUser = ''User''"
| "LookupResultType_String LookupResultTypeGateway = ''Gateway''"
| "LookupResultType_String LookupResultTypeDirect = ''Direct''"

record resolved_contact =
  rc_URI :: string
  rc_Priority :: f32
  rc_Transport :: string
  rc_Binding :: "binding option"

record lookup_result =
  lr_Type :: LookupResultType
  lr_Original :: string
  lr_Contacts :: "resolved_contact list"

text \<open>The sentinel errors of \<open>errors.go\<close> a lookup wraps.\<close>

datatype b2b_sentinel = ErrTargetNotFound | ErrNoContacts

record lookup_error =
  le_Target :: string
  le_Reason :: string
  le_Cause :: "b2b_sentinel option"

definition zero_contact :: resolved_contact where
  "zero_contact = \<lparr>rc_URI = '''', rc_Priority = F32 0, rc_Transport = '''', rc_Binding = None\<rparr>"

definition PrimaryContact :: "lookup_result \<Rightarrow> resolved_contact" where
  "PrimaryContact r = (if length (lr_Contacts r) = 0 then zero_contact else lr_Contacts r ! 0)"

definition HasContacts :: "lookup_result \<Rightarrow> bool" where
  "HasContacts r \<longleftrightarrow> length (lr_Contacts r) > 0"

record resolver =
  rv_CanResolve :: "string \<Rightarrow> bool"
  rv_Resolve :: "string \<Rightarrow> lookup_error + lookup_result"

section \<open>Direct resolver\<close>

fun transportEnd :: "string \<Rightarrow> string" where
  "transportEnd [] = []"
| "transportEnd (c # cs) =
     (if c \<noteq> CHR '';'' \<and> c \<noteq> CHR ''>'' \<and> c \<noteq> CHR '' '' then c # transportEnd cs else [])"

definition extractTransport :: "string \<Rightarrow> string" where
  "extractTransport uri =
     (case Index (ToLower uri) ''transport='' of
        None \<Rightarrow> ''''
      | Some idx \<Rightarrow>
          let start = idx + length ''transport=''; val = transportEnd (drop start uri) in
          if length val > 0 then ToUpper val else '''')"

definition Direct_CanResolve :: "string \<Rightarrow> bool" where
  "Direct_CanResolve target \<longleftrightarrow> HasPrefix target ''sip:'' \<or> HasPrefix target ''sips:''"

definition Direct_Resolve :: "string \<Rightarrow> lookup_error + lookup_result" where
  "Direct_Resolve target =
     (if \<not> Direct_CanResolve target
      then Inl \<lparr>le_Target = target, le_Reason = ''not a SIP URI'', le_Cause = Some ErrTargetNotFound\<rparr>
      else Inr \<lparr>lr_Type = LookupResultTypeDirect, lr_Original = target,
             lr_Contacts = [\<lparr>rc_URI = target, rc_Priority = F32 1, rc_Transport = extractTransport target,
                             rc_Binding = None\<rparr>]\<rparr>)"

definition NewDirectResolver :: resolver where
  "NewDirectResolver = \<lparr>rv_CanResolve = Direct_CanResolve, rv_Resolve = Direct_Resolve\<rparr>"

section \<open>User resolver\<close>

text \<open>
  \<open>loc_env\<close> is what a lookup in the location store depends on besides the store: the two map
  iteration orders and the time of the call.
\<close>

record loc_env =
  env_ordA :: aor_order
  env_ord :: "(string, binding) range_order"
  env_now :: time

type_synonym contact_sort = "(resolved_contact \<Rightarrow> resolved_contact \<Rightarrow> bool) \<Rightarrow> resolved_contact list \<Rightarrow> resolved_contact list"

definition sort_slice :: "contact_sort \<Rightarrow> bool" where
  "sort_slice sortFn \<longleftrightarrow> (\<forall>less xs. mset (sortFn less xs) = mset xs \<and>
     (asymp_on (set xs) less \<and> transp_on (set xs) less \<and> transp_on (set xs) (\<lambda>x y. \<not> less x y) \<longrightarrow>
        sorted_wrt (\<lambda>x y. \<not> less y x) (sortFn less xs)))"

definition User_CanResolve :: "string \<Rightarrow> bool" where
  "User_CanResolve target =
     (if HasPrefix target ''user/'' then True
      else if HasPrefix target ''sip:'' \<or> HasPrefix target ''sips:'' then False
      else if HasPrefix target ''gateway/'' \<or> HasPrefix target ''trunk/'' then False
      else length target > 0)"

definition buildAOR :: "string \<Rightarrow> string \<Rightarrow> string" where
  "buildAOR domain extension =
     (if Contains extension ''@'' then
        (if HasPrefix extension ''sip:'' then extension else ''sip:'' @ extension)
      else if domain \<noteq> '''' then ''sip:'' @ extension @ ''@'' @ domain
      else ''sip:'' @ extension)"

definition lookupBindings :: "loc_env \<Rightarrow> location_store \<Rightarrow> string \<Rightarrow> string \<Rightarrow> binding list" where
  "lookupBindings env store domain extension =
     (let lookup = Store_Lookup (env_ord env) (env_now env) store;
          bindings = lookup (buildAOR domain extension) in
      if length bindings > 0 then bindings
      else
        let bindings2 = lookup extension in
        if length bindings2 > 0 then bindings2
        else
          let bindings3 = lookup (''sip:'' @ extension) in
          if length bindings3 > 0 then bindings3
          else
            let bindings4 = Store_LookupByUser (env_ordA env) (env_ord env) (env_now env) store extension in
            if length bindings4 > 0 then bindings4 else [])"

definition contactOf :: "binding \<Rightarrow> resolved_contact" where
  "contactOf b = \<lparr>rc_URI = EffectiveContact b, rc_Priority = b_QValue b, rc_Transport = b_Transport b, rc_Binding = Some b\<rparr>"

definition higher_priority :: "resolved_contact \<Rightarrow> resolved_contact \<Rightarrow> bool" where
  "higher_priority x y \<longleftrightarrow> f32_less (rc_Priority y) (rc_Priority x)"

definition User_Resolve ::
  "contact_sort \<Rightarrow> loc_env \<Rightarrow> location_store \<Rightarrow> string \<Rightarrow> string \<Rightarrow> lookup_error + lookup_result" where
  "User_Resolve sortFn env store domain target =
     (let extension = (if HasPrefix target ''user/'' then TrimPrefix target ''user/'' else target) in
      if extension = '''' then Inl \<lparr>le_Target = target, le_Reason = ''empty extension'', le_Cause = None\<rparr>
      else
        let bindings = lookupBindings env store domain extension in
        if length bindings = 0
        then Inl \<lparr>le_Target = target, le_Reason = ''no registrations found'', le_Cause = Some ErrNoContacts\<rparr>
        else Inr \<lparr>lr_Type = LookupResultTypeUser, lr_Original = target,
               lr_Contacts = sortFn higher_priority (map contactOf bindings)\<rparr>)"

definition NewUserResolver :: "contact_sort \<Rightarrow> loc_env \<Rightarrow> location_store \<Rightarrow> string \<Rightarrow> resolver" where
  "NewUserResolver sortFn env store domain =
     \<lparr>rv_CanResolve = User_CanResolve, rv_Resolve = User_Resolve sortFn env store domain\<rparr>"

section \<open>Chain\<close>

fun Chain_CanResolve :: "resolver list \<Rightarrow> string \<Rightarrow> bool" where
  "Chain_CanResolve [] target = False"
| "Chain_CanResolve (r # rs) target = (if rv_CanResolve r target then True else Chain_CanResolve rs target)"

fun chainFrom :: "resolver list \<Rightarrow> string \<Rightarrow> lookup_error option \<Rightarrow> lookup_error + lookup_result" where
  "chainFrom [] target lastErr =
     (case lastErr of
        Some e \<Rightarrow> Inl e
      | None \<Rightarrow> Inl \<lparr>le_Target = target, le_Reason = ''no resolver could handle target'', le_Cause = Some ErrTargetNotFound\<rparr>)"
| "chainFrom (r # rs) target lastErr =
     (if \<not> rv_CanResolve r target then chainFrom rs target lastErr
      else (case rv_Resolve r target of
              Inr result \<Rightarrow> Inr result
            | Inl err \<Rightarrow> if le_Cause err = Some ErrNoContacts then Inl err else chainFrom rs target (Some err)))"

definition Chain_Resolve :: "resolver list \<Rightarrow> string \<Rightarrow> lookup_error + lookup_result" where
  "Chain_Resolve rs target = chainFrom rs target None"

definition NewChainResolver :: "resolver list \<Rightarrow> resolver" where
  "NewChainResolver rs = \<lparr>rv_CanResolve = Chain_CanResolve rs, rv_Resolve = Chain_Resolve rs\<rparr>"

definition DefaultResolver :: "contact_sort \<Rightarrow> loc_env \<Rightarrow> location_store \<Rightarrow> string \<Rightarrow> resolver" where
  "DefaultResolver sortFn env store domain =
     NewChainResolver [NewDirectResolver, NewUserResolver sortFn env store domain]"

section \<open>What a caller of a resolver relies on\<close>

locale resolver_contract =
  fixes resolve :: "string \<Rightarrow> lookup_error + lookup_result"
  assumes found: "resolve t = Inr r \<Longrightarrow> lr_Contacts r \<noteq> [] \<and> lr_Original r = t"
    and refused: "resolve t = Inl e \<Longrightarrow> le_Target e = t"
begin

lemma primary_is_contact: "resolve t = Inr r \<Longrightarrow> HasContacts r \<and> PrimaryContact r \<in> set (lr_Contacts r)"
  using found [of t r] by (auto simp: HasContacts_def PrimaryContact_def)

end

interpretation direct: resolver_contract Direct_Resolve
  by unfold_locales (auto simp: Direct_Resolve_def split: if_splits)

lemma sort_slice_nonempty: "sort_slice sortFn \<Longrightarrow> sortFn lt xs = [] \<longleftrightarrow> xs = []"
  unfolding sort_slice_def by (metis mset_zero_iff)

lemma user_contract: "sort_slice sortFn \<Longrightarrow> resolver_contract (User_Resolve sortFn env store domain)"
  by unfold_locales (auto simp: User_Resolve_def Let_def sort_slice_nonempty split: if_splits)

lemma chainFrom_contract:
  assumes "\<forall>r \<in> set rs. resolver_contract (rv_Resolve r)" and "\<forall>e. lastErr = Some e \<longrightarrow> le_Target e = t"
  shows "case chainFrom rs t lastErr of Inr r \<Rightarrow> lr_Contacts r \<noteq> [] \<and> lr_Original r = t | Inl e \<Rightarrow> le_Target e = t"
  using assms
proof (induction rs arbitrary: lastErr)
  case (Cons r rs)
  note laws = resolver_contract.found [of "rv_Resolve r" t] resolver_contract.refused [of "rv_Resolve r" t]
  show ?case
  proof (cases "rv_Resolve r t")
    case (Inl e)
    then show ?thesis using Cons.IH [of lastErr] Cons.IH [of "Some e"] Cons.prems laws(2) [of e] by simp
  next
    case (Inr res)
    then show ?thesis using Cons.IH [of lastErr] Cons.prems laws(1) [of res] by simp
  qed
qed (auto split: option.split)

lemma chain_contract:
  "\<forall>r \<in> set rs. resolver_contract (rv_Resolve r) \<Longrightarrow> resolver_contract (Chain_Resolve rs)"
proof
  fix t r e assume rs: "\<forall>r \<in> set rs. resolver_contract (rv_Resolve r)"
  note law = chainFrom_contract [OF rs, of None t]
  show "lr_Contacts r \<noteq> [] \<and> lr_Original r = t" if "Chain_Resolve rs t = Inr r" using law that by (simp add: Chain_Resolve_def)
  show "le_Target e = t" if "Chain_Resolve rs t = Inl e" using law that by (simp add: Chain_Resolve_def)
qed

lemma default_contract:
  "sort_slice sortFn \<Longrightarrow> resolver_contract (rv_Resolve (DefaultResolver sortFn env store domain))"
  using chain_contract [of "[NewDirectResolver, NewUserResolver sortFn env store domain]"] user_contract direct.resolver_contract_axioms
  by (simp add: DefaultResolver_def NewChainResolver_def NewDirectResolver_def NewUserResolver_def)

section \<open>Target resolution\<close>

lemma direct_or_user: "Direct_CanResolve t \<Longrightarrow> \<not> User_CanResolve t"
  by (auto simp: Direct_CanResolve_def User_CanResolve_def HasPrefix_iff)

lemma default_resolve:
  "rv_Resolve (DefaultResolver sortFn env store domain) t =
     (if Direct_CanResolve t then Direct_Resolve t
      else if User_CanResolve t then User_Resolve sortFn env store domain t
      else Inl \<lparr>le_Target = t, le_Reason = ''no resolver could handle target'', le_Cause = Some ErrTargetNotFound\<rparr>)"
  using direct_or_user [of t]
  by (auto simp: DefaultResolver_def NewChainResolver_def NewDirectResolver_def NewUserResolver_def Chain_Resolve_def
      Direct_Resolve_def split: sum.split)

lemma f32_less_order:
  "f32_less x y \<Longrightarrow> \<not> f32_less y x" "f32_less x y \<Longrightarrow> f32_less y z \<Longrightarrow> f32_less x z"
  "y \<noteq> F32NaN \<Longrightarrow> \<not> f32_less x y \<Longrightarrow> \<not> f32_less y z \<Longrightarrow> \<not> f32_less x z"
  by (cases x; cases y; auto) (cases x; cases y; cases z; auto)+

lemma contacts_sorted:
  assumes "sort_slice sortFn" and "\<forall>c \<in> set cs. rc_Priority c \<noteq> F32NaN"
  shows "sorted_wrt (\<lambda>x y. \<not> f32_less (rc_Priority x) (rc_Priority y)) (sortFn higher_priority cs)"
proof -
  have "asymp_on (set cs) higher_priority"
    unfolding higher_priority_def by (rule asymp_onI) (rule f32_less_order(1))
  moreover have "transp_on (set cs) higher_priority"
    unfolding higher_priority_def by (rule transp_onI) (rule f32_less_order(2))
  moreover have "transp_on (set cs) (\<lambda>x y. \<not> higher_priority x y)"
    unfolding higher_priority_def using assms(2) f32_less_order(3) by (blast intro: transp_onI)
  ultimately have "sorted_wrt (\<lambda>x y. \<not> higher_priority y x) (sortFn higher_priority cs)"
    using assms(1) unfolding sort_slice_def by blast
  then show ?thesis by (simp add: higher_priority_def)
qed


text \<open>
  A user who has registered can be dialed by extension: after a successful
  REGISTER for \<open>sip:user@domain\<close> and until it expires, resolving \<open>user/<user>\<close> (or just the user
  name, when that is not read as another kind of target) gives the contact of that binding,
  wherever the rest of the store stands.
\<close>

theorem registered_user_dialable:
  assumes "loc_reachable sha256 cfg s" and "sort_slice sortFn" and "is_range (env_ord env)" and "now \<le> now'"
    and "Store_Register sha256 now now' s binding = (s', Inr b)" and "now \<le> env_now env" and "env_now env \<le> b_ExpiresAt b"
    and "b_AOR b = ''sip:'' @ u @ CHR ''@'' # domain" and "domain \<noteq> ''''" and "u \<noteq> ''''" and "CHR ''@'' \<notin> set u"
  shows "\<exists>r. rv_Resolve (DefaultResolver sortFn env s' domain) (''user/'' @ u) = Inr r \<and> contactOf b \<in> set (lr_Contacts r)"
proof -
  have inv: "loc_inv s" using loc_reachable_inv [OF assms(1)] by simp
  have inv': "loc_inv s'" using Register_stored(1) [OF inv assms(4,5)] .
  have "active (env_now env) s' (b_AOR b) (b_BindingID b) = Some b"
    using mem.register_ok [OF inv assms(4,6,5)] assms(7) by simp
  then have look: "b \<in> set (Store_Lookup (env_ord env) (env_now env) s' (b_AOR b))"
    by (auto simp: Lookup_active [OF inv' assms(3)] ran_def)
  have aor: "buildAOR domain u = b_AOR b" using assms(8,9,11) by (simp add: buildAOR_def Contains_byte)
  have binds: "lookupBindings env s' domain u = Store_Lookup (env_ord env) (env_now env) s' (b_AOR b)"
    using look by (auto simp: lookupBindings_def aor Let_def)
  have "\<not> Direct_CanResolve (''user/'' @ u)" by (simp add: Direct_CanResolve_def HasPrefix_def)
  then have "rv_Resolve (DefaultResolver sortFn env s' domain) (''user/'' @ u) =
      Inr \<lparr>lr_Type = LookupResultTypeUser, lr_Original = ''user/'' @ u,
        lr_Contacts = sortFn higher_priority (map contactOf (lookupBindings env s' domain u))\<rparr>"
    using look assms(10)
    by (auto simp: default_resolve User_CanResolve_def User_Resolve_def Let_def binds HasPrefix_def TrimPrefix_def)
  moreover have "contactOf b \<in> set (sortFn higher_priority (map contactOf (lookupBindings env s' domain u)))"
    using assms(2) look unfolding binds sort_slice_def by (metis (no_types, lifting) image_eqI list.set_map mset_eq_setD)
  ultimately show ?thesis by simp
qed

section \<open>Concrete resolutions\<close>

fun insert_by :: "('a \<Rightarrow> 'a \<Rightarrow> bool) \<Rightarrow> 'a \<Rightarrow> 'a list \<Rightarrow> 'a list" where
  "insert_by lt x [] = [x]"
| "insert_by lt x (y # ys) = (if lt y x then y # insert_by lt x ys else x # y # ys)"

fun sort_by :: "('a \<Rightarrow> 'a \<Rightarrow> bool) \<Rightarrow> 'a list \<Rightarrow> 'a list" where
  "sort_by lt [] = []"
| "sort_by lt (x # xs) = insert_by lt x (sort_by lt xs)"

lemma mset_insert_by [simp]: "mset (insert_by lt x ys) = add_mset x (mset ys)"
  by (induction ys) auto

lemma mset_sort_by [simp]: "mset (sort_by lt xs) = mset xs"
  by (induction xs) auto

lemma set_insert_by [simp]: "set (insert_by lt x ys) = insert x (set ys)"
  by (induction ys) auto

lemma set_sort_by [simp]: "set (sort_by lt xs) = set xs"
  by (induction xs) auto

lemma sorted_insert_by:
  assumes "asymp_on (insert x (set ys)) lt" and "transp_on (insert x (set ys)) (\<lambda>x y. \<not> lt x y)"
    and "sorted_wrt (\<lambda>x y. \<not> lt y x) ys"
  shows "sorted_wrt (\<lambda>x y. \<not> lt y x) (insert_by lt x ys)"
  using assms
proof (induction ys)
  case (Cons y ys)
  have sub: "asymp_on (insert x (set ys)) lt" "transp_on (insert x (set ys)) (\<lambda>x y. \<not> lt x y)"
    using Cons.prems(1,2) by (auto intro: asymp_on_subset transp_on_subset)
  have asym: "lt y x \<Longrightarrow> \<not> lt x y" using asymp_onD [OF Cons.prems(1), of y x] by simp
  have tr: "\<not> lt z y \<Longrightarrow> \<not> lt y x \<Longrightarrow> \<not> lt z x" if "z \<in> set ys" for z
    using transp_onD [OF Cons.prems(2), of z y x] that by simp
  show ?case using Cons.IH [OF sub] Cons.prems(3) asym tr by auto
qed simp

lemma sort_by_slice: "sort_slice sort_by"
proof -
  have "sorted_wrt (\<lambda>x y. \<not> lt y x) (sort_by lt xs)"
    if "asymp_on (set xs) lt" "transp_on (set xs) (\<lambda>x y. \<not> lt x y)" for lt and xs :: "resolved_contact list"
    using that
  proof (induction xs)
    case (Cons x xs)
    have "asymp_on (set xs) lt" "transp_on (set xs) (\<lambda>x y. \<not> lt x y)"
      using Cons.prems by (auto intro: asymp_on_subset transp_on_subset)
    then show ?case using Cons sorted_insert_by [of x "sort_by lt xs" lt] by simp
  qed simp
  then show ?thesis by (simp add: sort_slice_def)
qed

definition ex_loc_env :: "time \<Rightarrow> loc_env" where
  "ex_loc_env t = \<lparr>env_ordA = id, env_ord = id, env_now = t\<rparr>"


theorem registered_user_dialable_witness:
  "\<exists>r. rv_Resolve (DefaultResolver sort_by (ex_loc_env 5) ex_loc ''pbx'') ''user/1000'' = Inr r \<and>
     contactOf ex_stored \<in> set (lr_Contacts r)"
  using registered_user_dialable [OF loc_reachable.init sort_by_slice _ _ ex_loc_register, of "ex_loc_env 5" "''1000''" "''pbx''"]
  by (simp add: ex_loc_env_def ex_stored_def ex_binding_def is_range_def)

text \<open>
  A contact registered without a q parameter is stored with q 0 and dialed last: the
  resolver sorts by the stored value, although the default priority is documented (and
  treated by \<open>LookupOne\<close>) as 1.
\<close>

theorem absent_q_dialed_last:
  assumes "sort_slice sortFn" and "b_QValue b = F32 0" and "b_QValue c = F32 (1 / 10)"
  shows "sortFn higher_priority [contactOf b, contactOf c] = [contactOf c, contactOf b]"
proof -
  let ?l = "sortFn higher_priority [contactOf b, contactOf c]"
  have perm: "mset ?l = {#contactOf b, contactOf c#}" using assms(1) by (simp add: sort_slice_def)
  have "length ?l = 2" using arg_cong [OF perm, of size] by simp
  then obtain x y where l: "?l = [x, y]" by (auto simp: numeral_2_eq_2 length_Suc_conv)
  have "sorted_wrt (\<lambda>x y. \<not> f32_less (rc_Priority x) (rc_Priority y)) ?l"
    using assms by (intro contacts_sorted) (auto simp: contactOf_def)
  then have "\<not> f32_less (rc_Priority x) (rc_Priority y)" unfolding l by simp
  moreover have "x = contactOf b \<and> y = contactOf c \<or> x = contactOf c \<and> y = contactOf b"
    using perm unfolding l by (auto simp: add_eq_conv_ex)
  ultimately show ?thesis using assms(2,3) unfolding l by (auto simp: contactOf_def)
qed

end
