(* ===== verification/B2b_Call.thy ===== *)
theory B2b_Call
  imports B2b_Leg Dialog_Manager Media_Pool Resolver
begin

text \<open>
  \<open>internal/signaling/b2bua/bridge.go\<close>, \<open>originator.go\<close> and \<open>leg.go\<close> (\<open>Hangup\<close> and what it
  triggers): the two legs of a call, the bridge between them and the originator that places
  the second leg, together with the dialog manager and the media pool they call.

  Legs and bridges are shared pointers in Go; here they live in the heaps \<open>w_legs\<close> and
  \<open>w_bridges\<close> and a pointer is an index. \<open>w_sent\<close> lists the requests the originator hands to the
  SIP stack with their destinations. \<open>b2b_env\<close> collects the outcomes of the outside world
  during one operation: URI syntax, the clock, whether SIP requests can be sent, what remote
  procedure calls do, and map iteration orders.

  \<open>Hangup\<close> runs callbacks which may hang up the other leg, whose callbacks run in turn. The
  Go code recurses without bound; \<open>Leg_Hangup\<close> has a depth bound and gives \<open>None\<close> when it is
  exceeded, and a bound of one more than the number of legs is proved sufficient.
\<close>

section \<open>State\<close>

record call_bridge =
  cb_id :: string
  cb_legA :: nat
  cb_legB :: nat
  cb_state :: BridgeState
  cb_terminationCause :: TerminationCause
  cb_terminatedBy :: string
  cb_transport :: bool
  cb_mediaBridgeID :: string
  cb_createdAt :: time
  cb_startedAt :: "time option"
  cb_terminatedAt :: "time option"
  cb_done :: bool
  cb_autoHangup :: bool
  cb_waiters :: nat

record originator_config =
  oc_AdvertiseAddr :: string
  oc_Port :: int

record b2b_world =
  w_legs :: "leg list"
  w_bridges :: "call_bridge list"
  w_origLegs :: "(string, nat) gomap"
  w_aToB :: "(string, string) gomap"
  w_cfg :: originator_config
  w_dm :: dialog_manager
  w_pool :: media_pool
  w_sent :: "(string \<times> sip_request) list"

record b2b_env =
  be_uriString :: uri_string
  be_parseUri :: parse_uri
  be_now :: time
  be_txOk :: "string \<Rightarrow> string \<Rightarrow> bool"
  be_dmSession :: bool
  be_dmTx :: bool
  be_rpc :: "string \<Rightarrow> rpc"
  be_unbridge :: "nat \<Rightarrow> rpc"
  be_ordS :: "(string, string) range_order"
  be_cbOrd :: "(64 word, term_callback) range_order"

definition upd_leg :: "nat \<Rightarrow> (leg \<Rightarrow> leg) \<Rightarrow> b2b_world \<Rightarrow> b2b_world" where
  "upd_leg l f w = w\<lparr>w_legs := (w_legs w)[l := f (w_legs w ! l)]\<rparr>"

definition upd_bridge :: "nat \<Rightarrow> (call_bridge \<Rightarrow> call_bridge) \<Rightarrow> b2b_world \<Rightarrow> b2b_world" where
  "upd_bridge b f w = w\<lparr>w_bridges := (w_bridges w)[b := f (w_bridges w ! b)]\<rparr>"

section \<open>BYE for an outbound leg\<close>

datatype orig_error =
    ErrNoContactsResolved
  | MediaFailed mpool_error
  | InvalidTargetURI
  | TransactionError
  | ParentCanceled
  | DeadlineExceeded
  | NoResponseReceived
  | ParseContactFailed

definition default_from :: "originator_config \<Rightarrow> sip_uri" where
  "default_from cfg = \<lparr>uri_Scheme = ''sip'', uri_User = ''switchboard'', uri_Host = oc_AdvertiseAddr cfg,
     uri_Port = oc_Port cfg, uri_UriParams = []\<rparr>"

definition buildLegBYE :: "parse_uri \<Rightarrow> originator_config \<Rightarrow> leg \<Rightarrow> sip_uri \<Rightarrow> string \<times> sip_request" where
  "buildLegBYE parseUri cfg l requestURI =
     (let toURI = (if leg_remoteToURI l \<noteq> ''''
                   then (case parseUri (leg_remoteToURI l) of Some u \<Rightarrow> u | None \<Rightarrow> requestURI)
                   else requestURI);
          fromURI = (if leg_localFromURI l \<noteq> ''''
                     then (case parseUri (leg_localFromURI l) of Some u \<Rightarrow> u | None \<Rightarrow> default_from cfg)
                     else default_from cfg);
          port = (if uri_Port requestURI = 0 then 5060 else uri_Port requestURI) in
      (uri_Host requestURI @ '':'' @ itoa port,
       \<lparr>rq_Method = ''BYE'', rq_Recipient = requestURI,
        rq_Headers = [MaxForwardsHeader 70,
          FromHeader \<lparr>na_DisplayName = '''', na_Address = fromURI, na_Params = [(''tag'', leg_localTag l)]\<rparr>,
          ToHeader \<lparr>na_DisplayName = '''', na_Address = toURI, na_Params = [(''tag'', leg_remoteTag l)]\<rparr>,
          CallIDHeader (leg_callID l), CSeqHeader 2 ''BYE''],
        rq_Body = None, rq_Source = ''''\<rparr>))"

definition Originator_SendBYE :: "b2b_env \<Rightarrow> nat \<Rightarrow> b2b_world \<Rightarrow> b2b_world \<times> orig_error option" where
  "Originator_SendBYE env l w =
     (let bleg = w_legs w ! l in
      if leg_remoteContactURI bleg = '''' then (w, None)
      else
        (case be_parseUri env (leg_remoteContactURI bleg) of
           None \<Rightarrow> (w, Some ParseContactFailed)
         | Some requestURI \<Rightarrow>
             if be_txOk env ''BYE'' (leg_callID bleg)
             then (w\<lparr>w_sent := w_sent w @ [buildLegBYE (be_parseUri env) (w_cfg w) bleg requestURI]\<rparr>, None)
             else (w, Some TransactionError)))"

section \<open>Callbacks\<close>

definition runTeardown :: "b2b_env \<Rightarrow> nat \<Rightarrow> teardown_handler option \<Rightarrow> b2b_world \<Rightarrow> b2b_world" where
  "runTeardown env l h w =
     (case h of
        None \<Rightarrow> w
      | Some OriginatorTeardown \<Rightarrow>
          if leg_terminationCause (w_legs w ! l) = TerminationCauseRemoteBYE then w
          else fst (Originator_SendBYE env l w)
      | Some (SessionTeardown callID dlg) \<Rightarrow>
          if leg_terminationCause (w_legs w ! l) = TerminationCauseRemoteBYE then w
          else if IsTerminated (dlg_at (w_dm w) dlg) then w
          else w\<lparr>w_dm := fst (Manager_Terminate (be_parseUri env) (be_dmSession env) (be_dmTx env) (be_now env) (be_now env)
                               (w_dm w) callID ReasonLocalBYE)\<rparr>)"

fun destroyReason :: "TerminationCause \<Rightarrow> MediaTerminateReason" where
  "destroyReason TerminationCauseNormal = TerminateReasonBYE"
| "destroyReason TerminationCauseBridgePeer = TerminateReasonBYE"
| "destroyReason TerminationCauseCancel = TerminateReasonCancel"
| "destroyReason TerminationCauseTimeout = TerminateReasonTimeout"
| "destroyReason TerminationCauseError = TerminateReasonError"
| "destroyReason TerminationCauseRejected = TerminateReasonError"
| "destroyReason _ = TerminateReasonNormal"

definition originatorCleanup :: "b2b_env \<Rightarrow> nat \<Rightarrow> string \<Rightarrow> string \<Rightarrow> TerminationCause \<Rightarrow> b2b_world \<Rightarrow> b2b_world" where
  "originatorCleanup env l bLegCallID aLegCallID cause w =
     (let sessionID = leg_sessionID (w_legs w ! l);
          w1 = (if sessionID \<noteq> ''''
                then w\<lparr>w_pool := fst (Pool_DestroySession (be_ordS env) (be_rpc env sessionID) sessionID (destroyReason cause) (w_pool w))\<rparr>
                else w);
          reason = (if cause = TerminationCauseRemoteBYE then ReasonRemoteBYE else ReasonLocalBYE);
          w2 = w1\<lparr>w_dm := fst (Manager_Terminate (be_parseUri env) (be_dmSession env) (be_dmTx env) (be_now env) (be_now env)
                                (w_dm w1) bLegCallID reason)\<rparr> in
      w2\<lparr>w_origLegs := gm_del (w_origLegs w2) bLegCallID, w_aToB := gm_del (w_aToB w2) aLegCallID\<rparr>)"

text \<open>
  \<open>hang\<close> stands for \<open>Leg.Hangup\<close>: the bridge calls it through the interface.
\<close>

type_synonym hang = "nat \<Rightarrow> TerminationCause \<Rightarrow> b2b_world \<Rightarrow> b2b_world option"

definition hangupIfAnswered :: "hang \<Rightarrow> nat \<Rightarrow> LegState \<Rightarrow> b2b_world \<Rightarrow> b2b_world option" where
  "hangupIfAnswered hang l st w = (if st = LegStateAnswered then hang l TerminationCauseBridgePeer w else Some w)"

definition Bridge_Stop :: "hang \<Rightarrow> b2b_env \<Rightarrow> nat \<Rightarrow> bool \<Rightarrow> b2b_world \<Rightarrow> b2b_world option" where
  "Bridge_Stop hang env b hangupLegs w =
     (let br = w_bridges w ! b in
      if cb_state br = BridgeStateTerminated then Some w
      else
        let w1 = upd_bridge b (\<lambda>x. x\<lparr>cb_state := BridgeStateTerminating\<rparr>) w;
            w2 = (if cb_transport br \<and> cb_mediaBridgeID br \<noteq> ''''
                  then w1\<lparr>w_pool := fst (Pool_UnbridgeMedia (be_unbridge env) (cb_mediaBridgeID br) (w_pool w1))\<rparr> else w1);
            stA = leg_state (w_legs w2 ! cb_legA br); stB = leg_state (w_legs w2 ! cb_legB br) in
        Option.bind (if hangupLegs
                     then Option.bind (hangupIfAnswered hang (cb_legA br) stA w2) (hangupIfAnswered hang (cb_legB br) stB)
                     else Some w2)
          (\<lambda>w3. Some (upd_bridge b (\<lambda>x. x\<lparr>cb_state := BridgeStateTerminated, cb_terminatedAt := Some (be_now env),
                  cb_terminatedBy := (if cb_terminatedBy x = '''' then ''local'' else cb_terminatedBy x),
                  cb_terminationCause := (if cb_terminationCause x = TerminationCauseNone then TerminationCauseNormal
                                          else cb_terminationCause x),
                  cb_done := True, cb_waiters := cb_waiters x + 1\<rparr>) w3)))"

definition handleLegTerminated :: "hang \<Rightarrow> b2b_env \<Rightarrow> nat \<Rightarrow> string \<Rightarrow> TerminationCause \<Rightarrow> b2b_world \<Rightarrow> b2b_world option" where
  "handleLegTerminated hang env b legName cause w =
     (let br = w_bridges w ! b in
      if cb_state br = BridgeStateTerminated \<or> cb_state br = BridgeStateTerminating then Some w
      else
        Bridge_Stop hang env b (cb_autoHangup br)
          (upd_bridge b (\<lambda>x. x\<lparr>cb_state := BridgeStateTerminating, cb_terminatedBy := legName,
             cb_terminationCause := TerminationCauseBridgePeer\<rparr>) w))"

fun notifyTerminated :: "hang \<Rightarrow> b2b_env \<Rightarrow> nat \<Rightarrow> term_callback list \<Rightarrow> TerminationCause \<Rightarrow> b2b_world \<Rightarrow> b2b_world option" where
  "notifyTerminated hang env l [] cause w = Some w"
| "notifyTerminated hang env l (BridgeCallback b legName # fns) cause w =
     Option.bind (handleLegTerminated hang env b legName cause w) (notifyTerminated hang env l fns cause)"
| "notifyTerminated hang env l (OriginatorCleanup bLegCallID aLegCallID # fns) cause w =
     notifyTerminated hang env l fns cause (originatorCleanup env l bLegCallID aLegCallID cause w)"

primrec Leg_Hangup :: "nat \<Rightarrow> b2b_env \<Rightarrow> nat \<Rightarrow> TerminationCause \<Rightarrow> b2b_world \<Rightarrow> b2b_world option" where
  "Leg_Hangup 0 env l cause w = None"
| "Leg_Hangup (Suc n) env l cause w =
     (let old = w_legs w ! l in
      if LegState_IsTerminal (leg_state old) then Some w
      else
        let w1 = upd_leg l (\<lambda>x. x\<lparr>leg_state := LegStateDestroyed, leg_terminationCause := cause,
                   leg_terminatedAt := Some (be_now env)\<rparr>) w;
            w2 = runTeardown env l (leg_onTeardown old) w1;
            w3 = upd_leg l (\<lambda>x. notifyStateChange (leg_state old) LegStateDestroyed (x\<lparr>leg_done := True\<rparr>)) w2 in
        notifyTerminated (Leg_Hangup n env) env l (map snd (be_cbOrd env (leg_terminatedCallbacks (w_legs w3 ! l)))) cause w3)"

definition Leg_Destroy :: "nat \<Rightarrow> b2b_env \<Rightarrow> nat \<Rightarrow> b2b_world \<Rightarrow> b2b_world option" where
  "Leg_Destroy n env l w = Leg_Hangup n env l TerminationCauseNormal w"

text \<open>
  \<open>monitorDialogContext\<close> wakes up when the dialog's context is cancelled or the leg is done.
\<close>

definition monitorDialogContext :: "nat \<Rightarrow> b2b_env \<Rightarrow> nat \<Rightarrow> b2b_world \<Rightarrow> b2b_world option" where
  "monitorDialogContext n env l w =
     (case leg_dialog (w_legs w ! l) of
        None \<Rightarrow> Some w
      | Some r \<Rightarrow>
          if dlg_cancelled (dlg_at (w_dm w) r) then Leg_Hangup n env l TerminationCauseRemoteBYE w else Some w)"

section \<open>Bridges\<close>

datatype bridge_call_error = BridgeErrInvalidState | ErrBridgeActive | ErrLegNotAnswered | BridgeMediaErr mpool_error

definition NewBridge ::
  "string \<Rightarrow> time \<Rightarrow> nat option \<Rightarrow> nat option \<Rightarrow> bool \<Rightarrow> bool \<Rightarrow> b2b_world \<Rightarrow> b2b_world \<times> (bridge_call_error + nat)" where
  "NewBridge uuid now legA legB transport autoHangup w =
     (case (legA, legB) of
        (Some a, Some b) \<Rightarrow>
          let i = length (w_bridges w);
              br = \<lparr>cb_id = ''bridge-'' @ uuid, cb_legA = a, cb_legB = b, cb_state = BridgeStateCreated,
                    cb_terminationCause = TerminationCauseNone, cb_terminatedBy = '''', cb_transport = transport,
                    cb_mediaBridgeID = '''', cb_createdAt = now, cb_startedAt = None, cb_terminatedAt = None,
                    cb_done = False, cb_autoHangup = autoHangup, cb_waiters = 0\<rparr>;
              w1 = w\<lparr>w_bridges := w_bridges w @ [br]\<rparr>;
              w2 = upd_leg a (Leg_OnTerminated (BridgeCallback i ''leg_a'')) w1 in
          (upd_leg b (Leg_OnTerminated (BridgeCallback i ''leg_b'')) w2, Inr i)
      | _ \<Rightarrow> (w, Inl BridgeErrInvalidState))"

definition Bridge_Start ::
  "udp_listen \<Rightarrow> string \<Rightarrow> rpc \<Rightarrow> time \<Rightarrow> nat \<Rightarrow> b2b_world \<Rightarrow> b2b_world \<times> bridge_call_error option" where
  "Bridge_Start listen uuid rpc now b w =
     (let br = w_bridges w ! b in
      if cb_state br \<noteq> BridgeStateCreated then (w, Some ErrBridgeActive)
      else if leg_state (w_legs w ! cb_legA br) \<noteq> LegStateAnswered then (w, Some ErrLegNotAnswered)
      else if leg_state (w_legs w ! cb_legB br) \<noteq> LegStateAnswered then (w, Some ErrLegNotAnswered)
      else
        let sessionAID = leg_sessionID (w_legs w ! cb_legA br); sessionBID = leg_sessionID (w_legs w ! cb_legB br) in
        if cb_transport br \<and> sessionAID \<noteq> '''' \<and> sessionBID \<noteq> '''' then
          (case Pool_BridgeMedia listen uuid rpc sessionAID sessionBID (w_pool w) of
             (p, Inl err) \<Rightarrow> (w\<lparr>w_pool := p\<rparr>, Some (BridgeMediaErr err))
           | (p, Inr bridgeID) \<Rightarrow>
               (upd_bridge b (\<lambda>x. x\<lparr>cb_mediaBridgeID := bridgeID, cb_state := BridgeStateActive, cb_startedAt := Some now\<rparr>)
                  (w\<lparr>w_pool := p\<rparr>), None))
        else (upd_bridge b (\<lambda>x. x\<lparr>cb_state := BridgeStateActive, cb_startedAt := Some now\<rparr>) w, None))"

text \<open>
  \<open>WaitForTermination\<close> in its two critical sections: first the state is read, later the
  current channel is fetched; \<open>cb_waiters\<close> counts the channels that have been closed and
  replaced, so a waiter holding channel \<open>g\<close> is woken once \<open>cb_waiters\<close> exceeds \<open>g\<close>.
\<close>

definition wait_check :: "call_bridge \<Rightarrow> TerminationCause option" where
  "wait_check br = (if cb_state br = BridgeStateTerminated then Some (cb_terminationCause br) else None)"

definition wait_channel :: "call_bridge \<Rightarrow> nat" where
  "wait_channel br = cb_waiters br"

definition wait_woken :: "nat \<Rightarrow> call_bridge \<Rightarrow> bool" where
  "wait_woken g br \<longleftrightarrow> g < cb_waiters br"

definition Bridge_Duration :: "call_bridge \<Rightarrow> duration" where
  "Bridge_Duration br =
     (case (cb_startedAt br, cb_terminatedAt br) of (Some s, Some t) \<Rightarrow> t - s | _ \<Rightarrow> 0)"

section \<open>Originating the second leg\<close>

record originate_request =
  oq_Target :: "lookup_result option"
  oq_ALegCallID :: string
  oq_ALegSessionID :: string
  oq_CallerID :: string
  oq_CallerName :: string
  oq_Codecs :: "string list"

record originate_result =
  or_Success :: bool
  or_Leg :: "nat option"
  or_SIPCode :: int
  or_SIPReason :: string
  or_Error :: "orig_error option"

definition failed :: "int \<Rightarrow> string \<Rightarrow> orig_error option \<Rightarrow> originate_result" where
  "failed code reason err = \<lparr>or_Success = False, or_Leg = None, or_SIPCode = code, or_SIPReason = reason, or_Error = err\<rparr>"

definition answered :: "int \<Rightarrow> originate_result" where
  "answered code = \<lparr>or_Success = True, or_Leg = None, or_SIPCode = code, or_SIPReason = '''', or_Error = None\<rparr>"

text \<open>The SDP the callee answers with, as the pion/sdp library parses it.\<close>

record sdp_media =
  sm_Port :: int
  sm_Formats :: "string list"
  sm_ConnAddr :: "string option"

record sdp_parsed =
  sp_Media :: "sdp_media list"
  sp_ConnAddr :: "string option"

type_synonym sdp_unmarshal = "string \<Rightarrow> sdp_parsed option"

definition buildINVITE ::
  "parse_uri \<Rightarrow> originator_config \<Rightarrow> leg \<Rightarrow> string \<Rightarrow> string \<Rightarrow> originate_request \<Rightarrow> string \<Rightarrow> sip_request option" where
  "buildINVITE parseUri cfg bleg targetURI localTag req sdpBody =
     (case parseUri targetURI of
        None \<Rightarrow> None
      | Some requestURI \<Rightarrow>
          Some \<lparr>rq_Method = ''INVITE'', rq_Recipient = requestURI,
            rq_Headers = [MaxForwardsHeader 70,
              FromHeader \<lparr>na_DisplayName = oq_CallerName req,
                na_Address = \<lparr>uri_Scheme = ''sip'', uri_User = oq_CallerID req, uri_Host = oc_AdvertiseAddr cfg,
                  uri_Port = oc_Port cfg, uri_UriParams = []\<rparr>, na_Params = [(''tag'', localTag)]\<rparr>,
              ToHeader \<lparr>na_DisplayName = '''', na_Address = requestURI, na_Params = []\<rparr>,
              CallIDHeader (leg_callID bleg), CSeqHeader 1 ''INVITE'',
              ContactHeader \<lparr>na_DisplayName = '''', na_Address = default_from cfg, na_Params = []\<rparr>,
              GenericHeader ''Content-Type'' ''application/sdp''],
            rq_Body = Some sdpBody, rq_Source = ''''\<rparr>)"

definition extractRemoteMedia :: "b2b_env \<Rightarrow> sdp_unmarshal \<Rightarrow> nat \<Rightarrow> sip_response \<Rightarrow> b2b_world \<Rightarrow> b2b_world" where
  "extractRemoteMedia env unmarshal l resp w =
     (case Option.bind (rs_Body resp) unmarshal of
        None \<Rightarrow> w
      | Some sdp \<Rightarrow>
          (case sp_Media sdp of
             [] \<Rightarrow> w
           | media # _ \<Rightarrow>
               let remotePort = sm_Port media;
                   remoteAddr = (case sm_ConnAddr media of
                                   Some a \<Rightarrow> a
                                 | None \<Rightarrow> (case sp_ConnAddr sdp of Some a \<Rightarrow> a | None \<Rightarrow> ''''));
                   w1 = upd_leg l (SetRemoteMediaEndpoint remoteAddr remotePort) w;
                   sessionID = leg_sessionID (w_legs w1 ! l) in
               if sessionID \<noteq> '''' \<and> remoteAddr \<noteq> '''' \<and> remotePort > 0
               then w1\<lparr>w_pool := fst (Pool_UpdateSessionRemote (be_rpc env sessionID) sessionID remoteAddr remotePort (w_pool w1))\<rparr>
               else w1))"

fun is_via :: "sip_header \<Rightarrow> bool" where
  "is_via (ViaHeader v) = True"
| "is_via _ = False"

definition sendCANCEL :: "b2b_env \<Rightarrow> nat \<Rightarrow> sip_request \<Rightarrow> b2b_world \<Rightarrow> b2b_world" where
  "sendCANCEL env l invite w =
     (let w1 = upd_leg l (Leg_TransitionTo (be_now env) LegStateFailed) w;
          hs = rq_Headers invite;
          req = \<lparr>rq_Method = ''CANCEL'', rq_Recipient = rq_Recipient invite,
                 rq_Headers = filter is_via hs @
                   (case hdr_From hs of None \<Rightarrow> [] | Some f \<Rightarrow> [FromHeader f]) @
                   (case hdr_To hs of None \<Rightarrow> [] | Some t \<Rightarrow> [ToHeader t]) @
                   (case hdr_CallID hs of None \<Rightarrow> [] | Some c \<Rightarrow> [CallIDHeader c]) @
                   (case hdr_CSeq hs of None \<Rightarrow> [] | Some (n, _) \<Rightarrow> [CSeqHeader n ''CANCEL'']) @ [MaxForwardsHeader 70],
                 rq_Body = None, rq_Source = ''''\<rparr> in
      if be_txOk env ''CANCEL'' (leg_callID (w_legs w1 ! l)) then w1\<lparr>w_sent := w_sent w1 @ [('''', req)]\<rparr> else w1)"

definition ackDestination :: "sip_response \<Rightarrow> sip_uri \<Rightarrow> string" where
  "ackDestination resp requestURI =
     (let fromVia = (case hdr_Via (rs_Headers resp) of
                       None \<Rightarrow> ''''
                     | Some via \<Rightarrow>
                         (case map_of (via_Params via) ''received'' of
                            Some received \<Rightarrow>
                              let rport = (case map_of (via_Params via) ''rport'' of
                                             None \<Rightarrow> via_Port via
                                           | Some s \<Rightarrow> (case sscan_int s of None \<Rightarrow> via_Port via | Some n \<Rightarrow> n)) in
                              received @ '':'' @ itoa rport
                          | None \<Rightarrow> via_Host via @ '':'' @ itoa (via_Port via)));
          dest = (if rs_Source resp = '''' then fromVia else rs_Source resp) in
      if dest = '''' then uri_Host requestURI @ '':'' @ itoa (if uri_Port requestURI = 0 then 5060 else uri_Port requestURI)
      else dest)"

definition sendACK :: "b2b_env \<Rightarrow> nat \<Rightarrow> sip_response \<Rightarrow> sip_request \<Rightarrow> b2b_world \<Rightarrow> b2b_world \<times> orig_error option" where
  "sendACK env l resp invite w =
     (let requestURI = (case hdr_Contact (rs_Headers resp) of Some c \<Rightarrow> na_Address c | None \<Rightarrow> rq_Recipient invite);
          hs = rq_Headers invite;
          ack = \<lparr>rq_Method = ''ACK'', rq_Recipient = requestURI,
                 rq_Headers = (case hdr_From hs of None \<Rightarrow> [] | Some f \<Rightarrow> [FromHeader f]) @
                   (case hdr_CallID hs of None \<Rightarrow> [] | Some c \<Rightarrow> [CallIDHeader c]) @
                   (case hdr_To (rs_Headers resp) of None \<Rightarrow> [] | Some t \<Rightarrow> [ToHeader t]) @
                   (case hdr_CSeq hs of None \<Rightarrow> [] | Some (n, _) \<Rightarrow> [CSeqHeader n ''ACK'']) @ [MaxForwardsHeader 70],
                 rq_Body = None, rq_Source = ''''\<rparr> in
      if be_txOk env ''ACK'' (leg_callID (w_legs w ! l))
      then (w\<lparr>w_sent := w_sent w @ [(ackDestination resp requestURI, ack)]\<rparr>, None)
      else (w, Some TransactionError))"

text \<open>The dialog of an answered leg: registered, attached to the leg, given session and media.\<close>

definition registerLegDialog :: "b2b_env \<Rightarrow> nat \<Rightarrow> sip_request \<Rightarrow> sip_response \<Rightarrow> b2b_world \<Rightarrow> b2b_world" where
  "registerLegDialog env l invite resp w =
     (case RegisterOutbound (be_uriString env) (be_now env) (w_dm w) invite resp of
        (m, Inl err) \<Rightarrow> w\<lparr>w_dm := m\<rparr>
      | (m, Inr r) \<Rightarrow>
          let w1 = upd_leg l (SetDialog (be_uriString env) (Some (r, dlg_at m r))) (w\<lparr>w_dm := m\<rparr>);
              bleg = w_legs w1 ! l;
              m1 = upd_dlg r (SetSessionID (leg_sessionID bleg)) m;
              m2 = (if leg_remoteRTPAddr bleg \<noteq> ''''
                    then upd_dlg r (SetMediaEndpoint (leg_remoteRTPAddr bleg) (leg_remoteRTPPort bleg) (leg_negotiatedCodec bleg)) m1
                    else m1) in
          w1\<lparr>w_dm := m2\<rparr>)"

definition handle2xx ::
  "b2b_env \<Rightarrow> sdp_unmarshal \<Rightarrow> nat \<Rightarrow> sip_response \<Rightarrow> sip_request \<Rightarrow> b2b_world \<Rightarrow> b2b_world \<times> originate_result" where
  "handle2xx env unmarshal l resp invite w =
     (let w1 = upd_leg l (SetSIPResponse (rs_StatusCode resp) (rs_Reason resp)) w;
          w2 = (if rs_Body resp \<noteq> None then extractRemoteMedia env unmarshal l resp w1 else w1);
          w3 = registerLegDialog env l invite resp w2;
          str = (\<lambda>na. case na of None \<Rightarrow> '''' | Some a \<Rightarrow> be_uriString env (na_Address a));
          w4 = upd_leg l (SetOutboundDialogState (str (hdr_Contact (rs_Headers resp))) (str (hdr_To (rq_Headers invite)))
                 (str (hdr_From (rq_Headers invite))) (param_or_empty ''tag'' (hdr_To (rs_Headers resp)))
                 (param_or_empty ''tag'' (hdr_From (rq_Headers invite)))) w3;
          w5 = fst (sendACK env l resp invite w4) in
      (upd_leg l (Leg_TransitionTo (be_now env) LegStateAnswered) w5, answered (rs_StatusCode resp)))"

definition handleFailure :: "b2b_env \<Rightarrow> nat \<Rightarrow> sip_response \<Rightarrow> b2b_world \<Rightarrow> b2b_world \<times> originate_result" where
  "handleFailure env l resp w =
     (upd_leg l (\<lambda>x. SetTerminationCause TerminationCauseRejected (Leg_TransitionTo (be_now env) LegStateFailed
        (SetSIPResponse (rs_StatusCode resp) (rs_Reason resp) x))) w,
      failed (rs_StatusCode resp) (rs_Reason resp) None)"

definition handleResponse ::
  "b2b_env \<Rightarrow> sdp_unmarshal \<Rightarrow> nat \<Rightarrow> sip_response \<Rightarrow> sip_request \<Rightarrow> b2b_world \<Rightarrow> b2b_world \<times> originate_result option" where
  "handleResponse env unmarshal l resp invite w =
     (let statusCode = rs_StatusCode resp in
      if statusCode = 100 then (w, None)
      else if statusCode = 180 \<or> statusCode = 181 then (upd_leg l (Leg_TransitionTo (be_now env) LegStateRinging) w, None)
      else if statusCode = 183 then
        (let w1 = upd_leg l (Leg_TransitionTo (be_now env) LegStateEarlyMedia) w in
         (if rs_Body resp \<noteq> None then extractRemoteMedia env unmarshal l resp w1 else w1, None))
      else if 200 \<le> statusCode \<and> statusCode < 300 then
        (case handle2xx env unmarshal l resp invite w of (w', res) \<Rightarrow> (w', Some res))
      else if 300 \<le> statusCode \<and> statusCode < 400 then
        (upd_leg l (\<lambda>x. SetTerminationCause TerminationCauseRejected (SetSIPResponse statusCode (rs_Reason resp)
           (Leg_TransitionTo (be_now env) LegStateFailed x))) w,
         Some (failed statusCode (rs_Reason resp) None))
      else if 400 \<le> statusCode then
        (case handleFailure env l resp w of (w', res) \<Rightarrow> (w', Some res))
      else (w, None))"

text \<open>
  What wakes the \<open>select\<close> of \<open>executeINVITE\<close>: the dial context (\<open>True\<close>: because the parent was
  cancelled, \<open>False\<close>: timeout), a response or the closed response channel, the end of the
  transaction. \<open>None\<close> is \<open>still waiting\<close>.
\<close>

datatype invite_event = DialDone bool | ResponseNil | GotResponse sip_response | TxDone

fun inviteLoop ::
  "b2b_env \<Rightarrow> sdp_unmarshal \<Rightarrow> nat \<Rightarrow> sip_request \<Rightarrow> invite_event list \<Rightarrow> b2b_world \<Rightarrow> b2b_world \<times> originate_result option" where
  "inviteLoop env um l invite [] w = (w, None)"
| "inviteLoop env um l invite (DialDone parent # evs) w =
     (let w1 = sendCANCEL env l invite w;
          w2 = upd_leg l (Leg_TransitionTo (be_now env) LegStateFailed) w1 in
      if parent then
        (upd_leg l (SetTerminationCause TerminationCauseCancel) w2,
         Some (failed 487 ''Request Terminated'' (Some ParentCanceled)))
      else
        (upd_leg l (SetTerminationCause TerminationCauseTimeout) w2,
         Some (failed 408 ''Request Timeout'' (Some DeadlineExceeded))))"
| "inviteLoop env um l invite (ResponseNil # evs) w =
     (upd_leg l (Leg_TransitionTo (be_now env) LegStateFailed) w, Some (failed 408 ''No Response'' (Some NoResponseReceived)))"
| "inviteLoop env um l invite (GotResponse resp # evs) w =
     (case handleResponse env um l resp invite w of
        (w', Some res) \<Rightarrow> (w', Some res)
      | (w', None) \<Rightarrow> inviteLoop env um l invite evs w')"
| "inviteLoop env um l invite (TxDone # evs) w =
     (let bleg = w_legs w ! l in
      if leg_state bleg = LegStateAnswered then (w, Some (answered 200))
      else if leg_sipCode bleg \<noteq> 0 then (w, Some (failed (leg_sipCode bleg) (leg_sipReason bleg) None))
      else (w, Some (failed 500 ''Transaction terminated unexpectedly'' None)))"

definition executeINVITE ::
  "b2b_env \<Rightarrow> sdp_unmarshal \<Rightarrow> nat \<Rightarrow> sip_request \<Rightarrow> invite_event list \<Rightarrow> b2b_world \<Rightarrow> b2b_world \<times> originate_result option" where
  "executeINVITE env um l invite evs w =
     (let w1 = upd_leg l (Leg_TransitionTo (be_now env) LegStateCreated) w in
      if \<not> be_txOk env ''INVITE'' (leg_callID (w_legs w1 ! l)) then
        (upd_leg l (\<lambda>x. SetSIPResponse 503 ''Transaction failed'' (Leg_TransitionTo (be_now env) LegStateFailed x)) w1,
         Some (failed 503 ''Transaction failed'' (Some TransactionError)))
      else inviteLoop env um l invite evs (w1\<lparr>w_sent := w_sent w1 @ [('''', invite)]\<rparr>))"

definition destroyMediaSession :: "b2b_env \<Rightarrow> nat \<Rightarrow> b2b_world \<Rightarrow> b2b_world" where
  "destroyMediaSession env l w =
     (let sessionID = leg_sessionID (w_legs w ! l) in
      if sessionID \<noteq> ''''
      then w\<lparr>w_pool := fst (Pool_DestroySession (be_ordS env) (be_rpc env sessionID) sessionID TerminateReasonError (w_pool w))\<rparr>
      else w)"

text \<open>
  \<open>orig_in\<close>: what one \<open>Originate\<close> depends on: the generated identifiers, the outcome of the
  media session creation, the SDP library and the events of the INVITE transaction.
\<close>

record orig_in =
  oi_env :: b2b_env
  oi_unmarshal :: sdp_unmarshal
  oi_uuid :: string
  oi_callID :: string
  oi_tag :: string
  oi_createRpc :: rpc
  oi_createEnv :: create_env
  oi_events :: "invite_event list"

definition Originate ::
  "orig_in \<Rightarrow> originate_request \<Rightarrow> b2b_world \<Rightarrow> b2b_world \<times> originate_result option" where
  "Originate inp req w =
     (let env = oi_env inp in
      case oq_Target req of
        None \<Rightarrow> (w, Some (failed 404 ''Not Found'' (Some ErrNoContactsResolved)))
      | Some target \<Rightarrow>
          if \<not> HasContacts target then (w, Some (failed 404 ''Not Found'' (Some ErrNoContactsResolved)))
          else
            let contact = PrimaryContact target;
                bLegCallID = oi_callID inp;
                l = length (w_legs w);
                bleg = Leg_OnTerminated (OriginatorCleanup bLegCallID (oq_ALegCallID req))
                         (SetTeardownHandler (Some OriginatorTeardown)
                            (NewOutboundLeg (oi_uuid inp) (be_now env) bLegCallID (rc_URI contact) None));
                w1 = w\<lparr>w_legs := w_legs w @ [bleg], w_origLegs := gm_set (w_origLegs w) bLegCallID l,
                       w_aToB := gm_set (w_aToB w) (oq_ALegCallID req) bLegCallID\<rparr>;
                codecs = (if length (oq_Codecs req) = 0 then [''0''] else oq_Codecs req) in
            (case (if oq_ALegSessionID req \<noteq> ''''
                   then Pool_CreateSessionPendingRemoteOnNode (oi_createRpc inp) (oi_createEnv inp) (oq_ALegSessionID req)
                          bLegCallID codecs (w_pool w1)
                   else Pool_CreateSessionPendingRemote (oi_createRpc inp) (oi_createEnv inp) bLegCallID codecs (w_pool w1)) of
               (p, Inl err) \<Rightarrow> (w1\<lparr>w_pool := p\<rparr>, Some (failed 500 ''Media allocation failed'' (Some (MediaFailed err))))
             | (p, Inr session) \<Rightarrow>
                 let w2 = upd_leg l (\<lambda>x. Leg_SetMediaEndpoint (sr_LocalAddr session) (sr_LocalPort session) (sr_SelectedCodec session)
                            (Leg_SetSessionID (sr_SessionID session) x)) (w1\<lparr>w_pool := p\<rparr>) in
                 (case buildINVITE (be_parseUri env) (w_cfg w2) (w_legs w2 ! l) (rc_URI contact) (oi_tag inp) req (sr_SDPBody session) of
                    None \<Rightarrow> (destroyMediaSession env l w2, Some (failed 500 ''Failed to build INVITE'' (Some InvalidTargetURI)))
                  | Some invite \<Rightarrow>
                      (case executeINVITE env (oi_unmarshal inp) l invite (oi_events inp) w2 of
                         (w3, None) \<Rightarrow> (w3, None)
                       | (w3, Some result) \<Rightarrow>
                           (if or_Success result then w3 else destroyMediaSession env l w3, Some (result\<lparr>or_Leg := Some l\<rparr>))))))"

definition GetLegByALeg :: "b2b_world \<Rightarrow> string \<Rightarrow> nat option" where
  "GetLegByALeg w aLegCallID =
     (case map_of (w_aToB w) aLegCallID of None \<Rightarrow> None | Some bLegCallID \<Rightarrow> map_of (w_origLegs w) bLegCallID)"

definition GetLegByCallID :: "b2b_world \<Rightarrow> string \<Rightarrow> nat option" where
  "GetLegByCallID w callID = map_of (w_origLegs w) callID"

definition GetBridgedBLeg :: "b2b_world \<Rightarrow> string \<Rightarrow> string option" where
  "GetBridgedBLeg w aLegCallID = map_of (w_aToB w) aLegCallID"

text \<open>The result says whether the BYE was for one of the originator's legs.\<close>

definition Originator_HandleIncomingBYE ::
  "nat \<Rightarrow> b2b_env \<Rightarrow> sip_request \<Rightarrow> b2b_world \<Rightarrow> (b2b_world \<times> bool) option" where
  "Originator_HandleIncomingBYE n env req w =
     (let callID = callid_or_empty (rq_Headers req) in
      if callID = '''' then Some (w, False)
      else (case GetLegByCallID w callID of
              None \<Rightarrow> Some (w, False)
            | Some l \<Rightarrow> map_option (\<lambda>w'. (w', True)) (Leg_Hangup n env l TerminationCauseRemoteBYE w)))"


end
