(* ===== verification/B2b_Lifecycle.thy ===== *)
theory B2b_Lifecycle
  imports B2b_Call
begin

text \<open>
  The life of a bridged call: how \<open>Hangup\<close> on one leg runs through the termination callbacks,
  the bridge and the other leg (\<open>leg.go\<close>, \<open>bridge.go\<close>, \<open>originator.go\<close>).

  \<open>call_evolves w w'\<close> is what one hang-up may do to the shared legs and bridges. The locale
  \<open>hangup_contract\<close> states what the bridge relies on when it calls \<open>Hangup\<close> through the \<open>Leg\<close>
  interface; the bridge's operations are analysed once inside it, and \<open>Leg_Hangup\<close> is shown
  to keep the contract by induction on its depth bound.
\<close>

section \<open>Frames\<close>

lemma upd_leg_frame [simp]:
  "length (w_legs (upd_leg l f w)) = length (w_legs w)" "w_bridges (upd_leg l f w) = w_bridges w"
  "w_pool (upd_leg l f w) = w_pool w" "w_dm (upd_leg l f w) = w_dm w" "w_origLegs (upd_leg l f w) = w_origLegs w"
  "w_aToB (upd_leg l f w) = w_aToB w" "w_cfg (upd_leg l f w) = w_cfg w" "w_sent (upd_leg l f w) = w_sent w"
  by (simp_all add: upd_leg_def)

lemma upd_leg_nth: "i < length (w_legs w) \<Longrightarrow> w_legs (upd_leg l f w) ! i = (if i = l then f (w_legs w ! i) else w_legs w ! i)"
  by (simp add: upd_leg_def nth_list_update)

lemma upd_bridge_frame [simp]:
  "length (w_bridges (upd_bridge b f w)) = length (w_bridges w)" "w_legs (upd_bridge b f w) = w_legs w"
  "w_pool (upd_bridge b f w) = w_pool w" "w_dm (upd_bridge b f w) = w_dm w" "w_origLegs (upd_bridge b f w) = w_origLegs w"
  "w_aToB (upd_bridge b f w) = w_aToB w" "w_cfg (upd_bridge b f w) = w_cfg w" "w_sent (upd_bridge b f w) = w_sent w"
  by (simp_all add: upd_bridge_def)

lemma upd_bridge_nth:
  "i < length (w_bridges w) \<Longrightarrow> w_bridges (upd_bridge b f w) ! i = (if i = b then f (w_bridges w ! i) else w_bridges w ! i)"
  by (simp add: upd_bridge_def nth_list_update)

lemma SendBYE_frame [simp]:
  "w_legs (fst (Originator_SendBYE env l w)) = w_legs w" "w_bridges (fst (Originator_SendBYE env l w)) = w_bridges w"
  "w_pool (fst (Originator_SendBYE env l w)) = w_pool w"
  by (simp_all add: Originator_SendBYE_def Let_def split: option.split)

lemma runTeardown_frame [simp]:
  "w_legs (runTeardown env l h w) = w_legs w" "w_bridges (runTeardown env l h w) = w_bridges w"
  "w_pool (runTeardown env l h w) = w_pool w"
  by (simp_all add: runTeardown_def split: option.split teardown_handler.split)

lemma originatorCleanup_frame [simp]:
  "w_legs (originatorCleanup env l x y c w) = w_legs w" "w_bridges (originatorCleanup env l x y c w) = w_bridges w"
  by (simp_all add: originatorCleanup_def Let_def)

section \<open>What a hang-up may change\<close>

definition leg_alive :: "leg \<Rightarrow> bool" where
  "leg_alive x \<longleftrightarrow> \<not> LegState_IsTerminal (leg_state x)"

definition live_legs :: "b2b_world \<Rightarrow> nat" where
  "live_legs w = length (filter leg_alive (w_legs w))"

definition callbacks :: "leg \<Rightarrow> term_callback set" where
  "callbacks x = snd ` set (leg_terminatedCallbacks x)"

definition call_wf :: "b2b_world \<Rightarrow> bool" where
  "call_wf w \<longleftrightarrow>
     (\<forall>br \<in> set (w_bridges w). cb_legA br < length (w_legs w) \<and> cb_legB br < length (w_legs w)) \<and>
     (\<forall>x \<in> set (w_legs w). \<forall>b name. BridgeCallback b name \<in> callbacks x \<longrightarrow> b < length (w_bridges w))"

definition leg_evolves :: "leg \<Rightarrow> leg \<Rightarrow> bool" where
  "leg_evolves x y \<longleftrightarrow>
     y = x \<or> (leg_alive x \<and> leg_state y = LegStateDestroyed \<and> leg_done y \<and> leg_terminatedAt y \<noteq> None \<and>
              leg_id y = leg_id x \<and> leg_callID y = leg_callID x \<and> leg_sessionID y = leg_sessionID x \<and>
              leg_terminatedCallbacks y = leg_terminatedCallbacks x \<and> leg_callbackIDCounter y = leg_callbackIDCounter x)"

definition bridge_down :: "b2b_world \<Rightarrow> call_bridge \<Rightarrow> bool" where
  "bridge_down w br \<longleftrightarrow>
     cb_state br = BridgeStateTerminated \<and> cb_done br \<and> cb_terminatedAt br \<noteq> None \<and>
     (cb_autoHangup br \<longrightarrow> leg_state (w_legs w ! cb_legA br) \<noteq> LegStateAnswered \<and>
                          leg_state (w_legs w ! cb_legB br) \<noteq> LegStateAnswered)"

definition same_ends :: "call_bridge \<Rightarrow> call_bridge \<Rightarrow> bool" where
  "same_ends x y \<longleftrightarrow> cb_legA y = cb_legA x \<and> cb_legB y = cb_legB x \<and> cb_autoHangup y = cb_autoHangup x"

definition bridge_evolves :: "b2b_world \<Rightarrow> call_bridge \<Rightarrow> call_bridge \<Rightarrow> bool" where
  "bridge_evolves w x y \<longleftrightarrow>
     y = x \<or> (cb_state x \<noteq> BridgeStateTerminating \<and> cb_state x \<noteq> BridgeStateTerminated \<and> same_ends x y \<and> bridge_down w y \<and>
              cb_terminationCause y = TerminationCauseBridgePeer)"

definition legs_evolve :: "b2b_world \<Rightarrow> b2b_world \<Rightarrow> bool" where
  "legs_evolve w w' \<longleftrightarrow> length (w_legs w') = length (w_legs w) \<and> (\<forall>i < length (w_legs w). leg_evolves (w_legs w ! i) (w_legs w' ! i))"

definition bridges_evolve :: "nat set \<Rightarrow> b2b_world \<Rightarrow> b2b_world \<Rightarrow> bool" where
  "bridges_evolve X w w' \<longleftrightarrow>
     length (w_bridges w') = length (w_bridges w) \<and>
     (\<forall>b < length (w_bridges w). b \<notin> X \<longrightarrow> bridge_evolves w' (w_bridges w ! b) (w_bridges w' ! b))"

text \<open>A leg that another one brings down ends with the cause \<open>BridgePeer\<close>.\<close>

definition peers_only :: "b2b_world \<Rightarrow> b2b_world \<Rightarrow> bool" where
  "peers_only w w' \<longleftrightarrow> (\<forall>i < length (w_legs w). w_legs w' ! i = w_legs w ! i \<or> leg_terminationCause (w_legs w' ! i) = TerminationCauseBridgePeer)"

definition call_evolves :: "b2b_world \<Rightarrow> b2b_world \<Rightarrow> bool" where
  "call_evolves w w' \<longleftrightarrow> legs_evolve w w' \<and> bridges_evolve {} w w'"

text \<open>
  \<open>bridged X w\<close>: outside \<open>X\<close>, an active bridge has both legs answered and is told when one of them
  ends.
\<close>

definition bridge_attached :: "b2b_world \<Rightarrow> nat \<Rightarrow> bool" where
  "bridge_attached w b \<longleftrightarrow>
     (let br = w_bridges w ! b; x = w_legs w ! cb_legA br; y = w_legs w ! cb_legB br in
      leg_state x = LegStateAnswered \<and> leg_state y = LegStateAnswered \<and>
      BridgeCallback b ''leg_a'' \<in> callbacks x \<and> BridgeCallback b ''leg_b'' \<in> callbacks y)"

definition bridged :: "nat set \<Rightarrow> b2b_world \<Rightarrow> bool" where
  "bridged X w \<longleftrightarrow>
     (\<forall>b < length (w_bridges w). b \<notin> X \<longrightarrow> cb_state (w_bridges w ! b) = BridgeStateActive \<longrightarrow> bridge_attached w b)"

lemma leg_evolves_refl [simp]: "leg_evolves x x"
  by (simp add: leg_evolves_def)

lemma leg_evolves_trans: "leg_evolves x y \<Longrightarrow> leg_evolves y z \<Longrightarrow> leg_evolves x z"
  by (auto simp: leg_evolves_def leg_alive_def)

lemma leg_evolves_Answered: "leg_evolves x y \<Longrightarrow> leg_state x \<noteq> LegStateAnswered \<Longrightarrow> leg_state y \<noteq> LegStateAnswered"
  by (auto simp: leg_evolves_def)

lemma leg_evolves_dead: "leg_evolves x y \<Longrightarrow> \<not> leg_alive x \<Longrightarrow> \<not> leg_alive y"
  by (auto simp: leg_evolves_def leg_alive_def)

lemma leg_evolves_callbacks:
  "leg_evolves x y \<Longrightarrow> leg_terminatedCallbacks y = leg_terminatedCallbacks x"
  "leg_evolves x y \<Longrightarrow> leg_callbackIDCounter y = leg_callbackIDCounter x"
  by (auto simp: leg_evolves_def)

lemma legs_evolve_refl: "w_legs w' = w_legs w \<Longrightarrow> legs_evolve w w'"
  by (simp add: legs_evolve_def)

lemma legs_evolve_trans: "legs_evolve w w' \<Longrightarrow> legs_evolve w' w'' \<Longrightarrow> legs_evolve w w''"
  unfolding legs_evolve_def using leg_evolves_trans by fastforce

lemma legs_evolve_state:
  "legs_evolve w w' \<Longrightarrow> i < length (w_legs w) \<Longrightarrow> leg_state (w_legs w ! i) \<noteq> LegStateAnswered \<Longrightarrow> leg_state (w_legs w' ! i) \<noteq> LegStateAnswered"
  by (auto simp: legs_evolve_def dest: leg_evolves_Answered)

lemma bridge_down_mono:
  assumes "bridge_down w br" and "legs_evolve w w'" and "cb_legA br < length (w_legs w)" and "cb_legB br < length (w_legs w)"
  shows "bridge_down w' br"
  using assms legs_evolve_state unfolding bridge_down_def by blast

lemma bridges_evolve_refl: "w_bridges w' = w_bridges w \<Longrightarrow> bridges_evolve X w w'"
  by (simp add: bridges_evolve_def bridge_evolves_def)

lemma call_wf_bridge:
  "call_wf w \<Longrightarrow> b < length (w_bridges w) \<Longrightarrow> cb_legA (w_bridges w ! b) < length (w_legs w) \<and> cb_legB (w_bridges w ! b) < length (w_legs w)"
  by (simp add: call_wf_def)

lemma bridges_evolve_trans:
  assumes ev1: "bridges_evolve X w w'" and ev2: "bridges_evolve X w' w''"
    and legs: "legs_evolve w' w''" and wf: "call_wf w'"
  shows "bridges_evolve X w w''"
  unfolding bridges_evolve_def
proof (intro conjI allI impI)
  show "length (w_bridges w'') = length (w_bridges w)"
    using ev1 ev2 by (simp add: bridges_evolve_def)
next
  fix b assume b: "b < length (w_bridges w)" "b \<notin> X"
  have one: "bridge_evolves w' (w_bridges w ! b) (w_bridges w' ! b)"
    using ev1 b by (simp add: bridges_evolve_def)
  have two: "bridge_evolves w'' (w_bridges w' ! b) (w_bridges w'' ! b)" and len: "b < length (w_bridges w')"
    using ev1 ev2 b by (auto simp: bridges_evolve_def)
  have down: "bridge_down w' (w_bridges w' ! b) \<Longrightarrow> bridge_down w'' (w_bridges w' ! b)"
    using bridge_down_mono [OF _ legs] call_wf_bridge [OF wf len] by blast
  show "bridge_evolves w'' (w_bridges w ! b) (w_bridges w'' ! b)"
  proof (cases "w_bridges w' ! b = w_bridges w ! b")
    case True
    thus ?thesis using two by simp
  next
    case False
    hence moved: "same_ends (w_bridges w ! b) (w_bridges w' ! b)" "bridge_down w' (w_bridges w' ! b)"
      "cb_state (w_bridges w ! b) \<noteq> BridgeStateTerminating" "cb_state (w_bridges w ! b) \<noteq> BridgeStateTerminated"
      "cb_terminationCause (w_bridges w' ! b) = TerminationCauseBridgePeer"
      using one by (auto simp: bridge_evolves_def)
    hence "w_bridges w'' ! b = w_bridges w' ! b"
      using two by (auto simp: bridge_evolves_def bridge_down_def)
    thus ?thesis using moved down by (auto simp: bridge_evolves_def)
  qed
qed

lemma evolves_wf:
  assumes wf: "call_wf w" and legs: "legs_evolve w w'" and len: "length (w_bridges w') = length (w_bridges w)"
    and ends: "\<forall>b < length (w_bridges w). same_ends (w_bridges w ! b) (w_bridges w' ! b)"
  shows "call_wf w'"
proof -
  have "cb_legA br < length (w_legs w') \<and> cb_legB br < length (w_legs w')" if br: "br \<in> set (w_bridges w')" for br
  proof -
    obtain b where b: "b < length (w_bridges w)" "br = w_bridges w' ! b"
      using br len by (auto simp: in_set_conv_nth)
    thus ?thesis
      using call_wf_bridge [OF wf b(1)] ends legs by (simp add: same_ends_def legs_evolve_def)
  qed
  moreover have "b < length (w_bridges w')" if x: "x \<in> set (w_legs w')" and cb: "BridgeCallback b name \<in> callbacks x" for x b name
  proof -
    obtain i where i: "i < length (w_legs w)" "x = w_legs w' ! i"
      using x legs by (auto simp: in_set_conv_nth legs_evolve_def)
    hence "callbacks (w_legs w ! i) = callbacks x"
      using legs leg_evolves_callbacks(1) [of "w_legs w ! i" x] by (simp add: legs_evolve_def callbacks_def)
    thus ?thesis using wf cb i(1) len unfolding call_wf_def by (metis nth_mem)
  qed
  ultimately show ?thesis by (simp add: call_wf_def)
qed

lemma bridge_evolves_ends: "bridge_evolves w x y \<Longrightarrow> same_ends x y"
  by (auto simp: bridge_evolves_def same_ends_def)

lemma call_evolves_wf: "call_wf w \<Longrightarrow> call_evolves w w' \<Longrightarrow> call_wf w'"
  by (rule evolves_wf) (auto simp: call_evolves_def bridges_evolve_def bridge_evolves_ends)

lemma call_evolves_refl: "w_legs w' = w_legs w \<Longrightarrow> w_bridges w' = w_bridges w \<Longrightarrow> call_evolves w w'"
  by (simp add: call_evolves_def legs_evolve_refl bridges_evolve_refl)

lemma call_evolves_trans: "call_wf w \<Longrightarrow> call_evolves w w' \<Longrightarrow> call_evolves w' w'' \<Longrightarrow> call_evolves w w''"
  using call_evolves_wf [of w w'] bridges_evolve_trans [of "{}" w w' w''] legs_evolve_trans [of w w' w'']
  by (auto simp: call_evolves_def)

lemma live_legs_mono:
  assumes "legs_evolve w w'"
  shows "live_legs w' \<le> live_legs w"
proof -
  have "list_all2 leg_evolves (w_legs w) (w_legs w')"
    using assms by (simp add: legs_evolve_def list_all2_conv_all_nth)
  hence "length (filter leg_alive (w_legs w')) \<le> length (filter leg_alive (w_legs w))"
    by (induction rule: list_all2_induct) (auto dest: leg_evolves_dead)
  thus ?thesis by (simp add: live_legs_def)
qed

lemma live_legs_drop:
  assumes "l < length (w_legs w)" and "leg_alive (w_legs w ! l)" and "\<not> leg_alive y"
  shows "length (filter leg_alive ((w_legs w)[l := y])) < live_legs w"
proof -
  have "length (filter leg_alive (xs[l := y])) < length (filter leg_alive xs)" if "l < length xs" "leg_alive (xs ! l)" for xs
    using that assms(3) by (induction xs arbitrary: l) (auto split: nat.split)
  thus ?thesis using assms by (simp add: live_legs_def)
qed

section \<open>The contract of a hang-up\<close>

lemma bridged_sub: "bridged X w \<Longrightarrow> X \<subseteq> Y \<Longrightarrow> bridged Y w"
  by (auto simp: bridged_def)

lemma bridged_cong: "w_legs w' = w_legs w \<Longrightarrow> w_bridges w' = w_bridges w \<Longrightarrow> bridged X w' = bridged X w"
  by (simp add: bridged_def bridge_attached_def)

lemma bridged_drop: "bridged (insert b X) w \<Longrightarrow> cb_state (w_bridges w ! b) \<noteq> BridgeStateActive \<Longrightarrow> bridged X w"
  by (auto simp: bridged_def)

definition hang_ok :: "b2b_world \<Rightarrow> b2b_world \<Rightarrow> bool" where
  "hang_ok w w' \<longleftrightarrow> call_wf w' \<and> call_evolves w w' \<and> peers_only w w' \<and> (\<forall>X. bridged X w \<longrightarrow> bridged X w')"

lemma hang_ok_refl: "call_wf w \<Longrightarrow> hang_ok w w"
  by (simp add: hang_ok_def call_evolves_refl peers_only_def)

lemma peers_only_trans: "peers_only w w' \<Longrightarrow> peers_only w' w'' \<Longrightarrow> length (w_legs w') = length (w_legs w) \<Longrightarrow> peers_only w w''"
  unfolding peers_only_def by metis

lemma call_evolves_length:
  "call_evolves w w' \<Longrightarrow> length (w_legs w') = length (w_legs w)" "call_evolves w w' \<Longrightarrow> length (w_bridges w') = length (w_bridges w)"
  by (simp_all add: call_evolves_def legs_evolve_def bridges_evolve_def)

lemma hang_ok_trans: "call_wf w \<Longrightarrow> hang_ok w w' \<Longrightarrow> hang_ok w' w'' \<Longrightarrow> hang_ok w w''"
  unfolding hang_ok_def using call_evolves_trans peers_only_trans call_evolves_length by blast

definition pending :: "term_callback list \<Rightarrow> nat set" where
  "pending fns = {b. \<exists>name. BridgeCallback b name \<in> set fns}"

lemma bind_Some_neq: "m \<noteq> None \<Longrightarrow> Option.bind m (\<lambda>x. Some (f x)) \<noteq> None"
  by auto

locale hangup_contract =
  fixes hang :: hang and depth :: nat and env :: b2b_env
  assumes hang_spec:
      "is_range (be_cbOrd env) \<Longrightarrow> call_wf w \<Longrightarrow> l < length (w_legs w) \<Longrightarrow> hang l c w = Some w' \<Longrightarrow>
       call_evolves w w' \<and> \<not> leg_alive (w_legs w' ! l)"
    and hang_causes:
      "is_range (be_cbOrd env) \<Longrightarrow> call_wf w \<Longrightarrow> l < length (w_legs w) \<Longrightarrow> hang l c w = Some w' \<Longrightarrow> i < length (w_legs w) \<Longrightarrow>
       w_legs w' ! i = w_legs w ! i \<or> leg_terminationCause (w_legs w' ! i) = (if i = l then c else TerminationCauseBridgePeer)"
    and hang_bridged:
      "is_range (be_cbOrd env) \<Longrightarrow> call_wf w \<Longrightarrow> l < length (w_legs w) \<Longrightarrow> hang l c w = Some w' \<Longrightarrow> bridged X w \<Longrightarrow> bridged X w'"
    and hang_returns:
      "is_range (be_cbOrd env) \<Longrightarrow> call_wf w \<Longrightarrow> l < length (w_legs w) \<Longrightarrow> live_legs w < depth \<Longrightarrow> hang l c w \<noteq> None"
begin

lemma hang_is_ok:
  "is_range (be_cbOrd env) \<Longrightarrow> call_wf w \<Longrightarrow> l < length (w_legs w) \<Longrightarrow> hang l TerminationCauseBridgePeer w = Some w' \<Longrightarrow> hang_ok w w'"
  unfolding hang_ok_def peers_only_def using hang_spec hang_bridged hang_causes call_evolves_wf by (metis (no_types, lifting))

lemma hangupIfAnswered_spec:
  assumes "is_range (be_cbOrd env)" "call_wf w" "l < length (w_legs w)" "hangupIfAnswered hang l st w = Some w'"
  shows "hang_ok w w' \<and> (leg_state (w_legs w ! l) = LegStateAnswered \<longrightarrow> st = LegStateAnswered \<longrightarrow> leg_state (w_legs w' ! l) \<noteq> LegStateAnswered)"
  using assms hang_is_ok [of w l w'] hang_spec [of w l _ w'] hang_ok_refl
  by (auto simp: hangupIfAnswered_def leg_alive_def split: if_splits)

lemma hangupIfAnswered_returns:
  "is_range (be_cbOrd env) \<Longrightarrow> call_wf w \<Longrightarrow> l < length (w_legs w) \<Longrightarrow> live_legs w < depth \<Longrightarrow> hangupIfAnswered hang l st w \<noteq> None"
  using hang_returns by (simp add: hangupIfAnswered_def)

lemma hang_both:
  assumes env: "is_range (be_cbOrd env)" and wf: "call_wf w" and a: "a < length (w_legs w)" and b: "b < length (w_legs w)"
    and run: "Option.bind (hangupIfAnswered hang a (leg_state (w_legs w ! a)) w)
                (hangupIfAnswered hang b (leg_state (w_legs w ! b))) = Some w'"
  shows "hang_ok w w' \<and> leg_state (w_legs w' ! a) \<noteq> LegStateAnswered \<and> leg_state (w_legs w' ! b) \<noteq> LegStateAnswered"
proof -
  obtain v where v: "hangupIfAnswered hang a (leg_state (w_legs w ! a)) w = Some v"
    and w': "hangupIfAnswered hang b (leg_state (w_legs w ! b)) v = Some w'"
    using run by (auto simp: bind_eq_Some_conv)
  have one: "hang_ok w v" "leg_state (w_legs v ! a) \<noteq> LegStateAnswered"
    using hangupIfAnswered_spec [OF env wf a v] v by (auto simp: hangupIfAnswered_def split: if_splits)
  hence ev: "legs_evolve w v" and wfv: "call_wf v"
    by (simp_all add: hang_ok_def call_evolves_def)
  hence bv: "b < length (w_legs v)" and av: "a < length (w_legs v)"
    using a b by (simp_all add: legs_evolve_def)
  have two: "hang_ok v w'" using hangupIfAnswered_spec [OF env wfv bv w'] by simp
  hence ev2: "legs_evolve v w'" by (simp add: hang_ok_def call_evolves_def)
  have "leg_state (w_legs w' ! b) \<noteq> LegStateAnswered"
  proof (cases "leg_state (w_legs v ! b) = LegStateAnswered")
    case True
    hence "leg_state (w_legs w ! b) = LegStateAnswered" using legs_evolve_state [OF ev b] by blast
    thus ?thesis using hangupIfAnswered_spec [OF env wfv bv w'] True by simp
  next
    case False
    thus ?thesis using legs_evolve_state [OF ev2 bv] by blast
  qed
  thus ?thesis using one two hang_ok_trans [OF wf] legs_evolve_state [OF ev2 av] by blast
qed

lemma hang_both_returns:
  assumes env: "is_range (be_cbOrd env)" and wf: "call_wf w" and a: "a < length (w_legs w)" and b: "b < length (w_legs w)"
    and depth: "live_legs w < depth"
  shows "Option.bind (hangupIfAnswered hang a st w) (hangupIfAnswered hang b st') \<noteq> None"
proof -
  obtain v where v: "hangupIfAnswered hang a st w = Some v"
    using hangupIfAnswered_returns [OF env wf a depth] by blast
  hence ok: "hang_ok w v" using hangupIfAnswered_spec [OF env wf a] by blast
  hence "live_legs v < depth"
    using live_legs_mono [of w v] depth by (simp add: hang_ok_def call_evolves_def)
  moreover have "b < length (w_legs v)" "call_wf v"
    using ok b by (auto simp: hang_ok_def call_evolves_def legs_evolve_def)
  ultimately show ?thesis using v hangupIfAnswered_returns [OF env] by simp
qed

end

context hangup_contract
begin

lemma Bridge_Stop_spec:
  assumes env: "is_range (be_cbOrd env)" and wf: "call_wf w" and b: "b < length (w_bridges w)"
    and live: "cb_state (w_bridges w ! b) \<noteq> BridgeStateTerminated" and run: "Bridge_Stop hang env b h w = Some w'"
  shows "legs_evolve w w'" and "bridges_evolve {b} w w'" and "same_ends (w_bridges w ! b) (w_bridges w' ! b)"
    and "cb_done (w_bridges w' ! b)" and "cb_state (w_bridges w' ! b) = BridgeStateTerminated"
    and "cb_terminatedAt (w_bridges w' ! b) = Some (be_now env)"
    and "cb_terminationCause (w_bridges w' ! b) =
           (if cb_terminationCause (w_bridges w ! b) = TerminationCauseNone then TerminationCauseNormal
            else cb_terminationCause (w_bridges w ! b))"
    and "h \<Longrightarrow> leg_state (w_legs w' ! cb_legA (w_bridges w ! b)) \<noteq> LegStateAnswered"
    and "h \<Longrightarrow> leg_state (w_legs w' ! cb_legB (w_bridges w ! b)) \<noteq> LegStateAnswered"
    and "peers_only w w'" and "bridged (insert b X) w \<Longrightarrow> bridged X w'"
    and "cb_waiters (w_bridges w' ! b) = Suc (cb_waiters (w_bridges w ! b))"
proof -
  let ?x = "w_bridges w ! b"
  define w1 where "w1 = upd_bridge b (\<lambda>x. x\<lparr>cb_state := BridgeStateTerminating\<rparr>) w"
  define w2 where "w2 = (if cb_transport ?x \<and> cb_mediaBridgeID ?x \<noteq> ''''
    then w1\<lparr>w_pool := fst (Pool_UnbridgeMedia (be_unbridge env) (cb_mediaBridgeID ?x) (w_pool w1))\<rparr> else w1)"
  have legs2: "w_legs w2 = w_legs w" and br2: "w_bridges w2 = (w_bridges w)[b := ?x\<lparr>cb_state := BridgeStateTerminating\<rparr>]"
    by (simp_all add: w2_def w1_def upd_bridge_def)
  have legs12: "legs_evolve w w2" by (simp add: legs_evolve_refl legs2)
  have wf2: "call_wf w2"
    by (rule evolves_wf [OF wf legs12]) (use b in \<open>auto simp: br2 same_ends_def nth_list_update\<close>)
  have ends: "cb_legA ?x < length (w_legs w2)" "cb_legB ?x < length (w_legs w2)"
    using call_wf_bridge [OF wf b] by (simp_all add: legs2)
  have b2: "b < length (w_bridges w2)" "w_bridges w2 ! b = ?x\<lparr>cb_state := BridgeStateTerminating\<rparr>" using b by (simp_all add: br2)
  obtain w3 where hung: "(if h then Option.bind (hangupIfAnswered hang (cb_legA ?x) (leg_state (w_legs w2 ! cb_legA ?x)) w2)
                       (hangupIfAnswered hang (cb_legB ?x) (leg_state (w_legs w2 ! cb_legB ?x))) else Some w2) = Some w3"
    and w': "w' = upd_bridge b (\<lambda>x. x\<lparr>cb_state := BridgeStateTerminated, cb_terminatedAt := Some (be_now env),
                  cb_terminatedBy := (if cb_terminatedBy x = '''' then ''local'' else cb_terminatedBy x),
                  cb_terminationCause := (if cb_terminationCause x = TerminationCauseNone then TerminationCauseNormal
                                          else cb_terminationCause x),
                  cb_done := True, cb_waiters := cb_waiters x + 1\<rparr>) w3"
    using run live unfolding Bridge_Stop_def Let_def w1_def [symmetric] w2_def [symmetric]
    by (auto simp: bind_eq_Some_conv)
  have ok: "hang_ok w2 w3"
    and down: "h \<Longrightarrow> leg_state (w_legs w3 ! cb_legA ?x) \<noteq> LegStateAnswered \<and> leg_state (w_legs w3 ! cb_legB ?x) \<noteq> LegStateAnswered"
    using hung hang_both [OF env wf2 ends] hang_ok_refl [OF wf2] by (auto split: if_splits)
  hence ev: "legs_evolve w2 w3" "bridges_evolve {} w2 w3" by (simp_all add: hang_ok_def call_evolves_def)
  have len3: "length (w_bridges w3) = length (w_bridges w)" using ev(2) by (simp add: bridges_evolve_def br2)
  have "bridge_evolves w3 (w_bridges w2 ! b) (w_bridges w3 ! b)"
    using ev(2) b2(1) by (simp add: bridges_evolve_def)
  hence b3: "w_bridges w3 ! b = ?x\<lparr>cb_state := BridgeStateTerminating\<rparr>"
    by (simp add: bridge_evolves_def b2)
  have legs': "w_legs w' = w_legs w3" and others: "\<And>c. c < length (w_bridges w) \<Longrightarrow> c \<noteq> b \<Longrightarrow> w_bridges w' ! c = w_bridges w3 ! c"
    using len3 by (simp_all add: w' upd_bridge_nth)
  show "legs_evolve w w'"
    using ev(1) by (simp add: legs_evolve_def legs2 legs')
  show "bridges_evolve {b} w w'"
    using ev(2) others len3 by (auto simp: bridges_evolve_def bridge_evolves_def bridge_down_def br2 legs' w' split: if_splits)
  show "same_ends ?x (w_bridges w' ! b)" "cb_done (w_bridges w' ! b)" "cb_state (w_bridges w' ! b) = BridgeStateTerminated"
    "cb_terminatedAt (w_bridges w' ! b) = Some (be_now env)"
    "cb_terminationCause (w_bridges w' ! b) =
           (if cb_terminationCause ?x = TerminationCauseNone then TerminationCauseNormal else cb_terminationCause ?x)"
    "cb_waiters (w_bridges w' ! b) = Suc (cb_waiters ?x)"
    using b len3 by (simp_all add: w' upd_bridge_nth b3 same_ends_def)
  show "h \<Longrightarrow> leg_state (w_legs w' ! cb_legA ?x) \<noteq> LegStateAnswered" "h \<Longrightarrow> leg_state (w_legs w' ! cb_legB ?x) \<noteq> LegStateAnswered"
    using down by (simp_all add: legs')
  show "peers_only w w'"
    using ok by (simp add: hang_ok_def peers_only_def legs2 legs')
  assume X: "bridged (insert b X) w"
  hence "bridged X w2" using b by (auto simp: bridged_def bridge_attached_def br2 legs2 nth_list_update Let_def)
  hence "bridged X w3" using ok by (simp add: hang_ok_def)
  thus "bridged X w'"
    using others len3 b by (auto simp: bridged_def bridge_attached_def legs' w' upd_bridge_nth Let_def)
qed

end

context hangup_contract
begin

lemma Bridge_Stop_returns:
  assumes env: "is_range (be_cbOrd env)" and wf: "call_wf w" and b: "b < length (w_bridges w)" and depth: "live_legs w < depth"
  shows "Bridge_Stop hang env b h w \<noteq> None"
proof -
  let ?x = "w_bridges w ! b"
  have both: "Option.bind (hangupIfAnswered hang (cb_legA ?x) st w2) (hangupIfAnswered hang (cb_legB ?x) st') \<noteq> None"
    if legs: "w_legs w2 = w_legs w" and brs: "w_bridges w2 = (w_bridges w)[b := ?x\<lparr>cb_state := BridgeStateTerminating\<rparr>]" for w2 st st'
  proof (rule hang_both_returns [OF env])
    show "call_wf w2"
      by (rule evolves_wf [OF wf legs_evolve_refl [OF legs]]) (use b in \<open>auto simp: brs same_ends_def nth_list_update\<close>)
  qed (use call_wf_bridge [OF wf b] depth in \<open>simp_all add: legs live_legs_def\<close>)
  show ?thesis unfolding Bridge_Stop_def Let_def
    by (auto simp: upd_bridge_def simp del: Option.bind_assoc not_None_eq intro!: bind_Some_neq both [unfolded not_None_eq])
qed

lemma handleLegTerminated_spec:
  assumes env: "is_range (be_cbOrd env)" and wf: "call_wf w" and b: "b < length (w_bridges w)"
    and run: "handleLegTerminated hang env b name c w = Some w'"
  shows "call_evolves w w'" and "peers_only w w'" and "bridged (insert b X) w \<Longrightarrow> bridged X w'"
proof -
  let ?x = "w_bridges w ! b"
  let ?y = "?x\<lparr>cb_state := BridgeStateTerminating, cb_terminatedBy := name, cb_terminationCause := TerminationCauseBridgePeer\<rparr>"
  let ?w1 = "w\<lparr>w_bridges := (w_bridges w)[b := ?y]\<rparr>"
  have "call_evolves w w' \<and> peers_only w w' \<and> (bridged (insert b X) w \<longrightarrow> bridged X w')"
  proof (cases "cb_state ?x = BridgeStateTerminated \<or> cb_state ?x = BridgeStateTerminating")
    case True
    hence "w' = w" using run by (simp add: handleLegTerminated_def Let_def split: if_splits)
    thus ?thesis using True by (auto simp: call_evolves_refl peers_only_def intro: bridged_drop)
  next
    case False
    hence stop: "Bridge_Stop hang env b (cb_autoHangup ?x) ?w1 = Some w'"
      using run by (simp add: handleLegTerminated_def Let_def upd_bridge_def)
    have wf1: "call_wf ?w1"
      by (rule evolves_wf [OF wf]) (use b in \<open>auto simp: same_ends_def nth_list_update intro: legs_evolve_refl\<close>)
    have b1: "b < length (w_bridges ?w1)" "cb_state (w_bridges ?w1 ! b) \<noteq> BridgeStateTerminated" using b by simp_all
    note spec = Bridge_Stop_spec [OF env wf1 b1 stop]
    have legs: "legs_evolve w w'" using spec(1) by (simp add: legs_evolve_def)
    have "bridge_evolves w' (w_bridges w ! k) (w_bridges w' ! k)" if k: "k < length (w_bridges w)" for k
    proof (cases "k = b")
      case True
      have "bridge_down w' (w_bridges w' ! b)" "same_ends ?x (w_bridges w' ! b)"
        "cb_terminationCause (w_bridges w' ! b) = TerminationCauseBridgePeer"
        using spec(3-9) b by (auto simp: bridge_down_def same_ends_def)
      thus ?thesis using False True by (simp add: bridge_evolves_def)
    next
      case other: False
      thus ?thesis using spec(2) k by (simp add: bridges_evolve_def)
    qed
    moreover have "length (w_bridges w') = length (w_bridges w)" using spec(2) by (simp add: bridges_evolve_def)
    moreover have "bridged (insert b X) w \<longrightarrow> bridged X w'"
    proof
      assume "bridged (insert b X) w"
      hence "bridged (insert b X) ?w1" using b by (auto simp: bridged_def bridge_attached_def nth_list_update Let_def)
      thus "bridged X w'" by (rule spec(11))
    qed
    moreover have "peers_only w w'" using spec(10) by (simp add: peers_only_def)
    ultimately show ?thesis using legs by (simp add: call_evolves_def bridges_evolve_def)
  qed
  thus "call_evolves w w'" and "peers_only w w'" and "bridged (insert b X) w \<Longrightarrow> bridged X w'" by blast+
qed

lemma handleLegTerminated_returns:
  assumes env: "is_range (be_cbOrd env)" and wf: "call_wf w" and b: "b < length (w_bridges w)" and depth: "live_legs w < depth"
  shows "handleLegTerminated hang env b name c w \<noteq> None"
proof -
  let ?w1 = "upd_bridge b (\<lambda>x. x\<lparr>cb_state := BridgeStateTerminating, cb_terminatedBy := name, cb_terminationCause := TerminationCauseBridgePeer\<rparr>) w"
  have "call_wf ?w1"
    by (rule evolves_wf [OF wf]) (use b in \<open>auto simp: same_ends_def upd_bridge_nth intro: legs_evolve_refl\<close>)
  hence "Bridge_Stop hang env b h ?w1 \<noteq> None" for h
    using Bridge_Stop_returns [OF env, of ?w1 b h] b depth by (simp add: live_legs_def)
  thus ?thesis by (simp add: handleLegTerminated_def Let_def)
qed

lemma notifyTerminated_spec:
  assumes env: "is_range (be_cbOrd env)"
  shows "call_wf w \<Longrightarrow> \<forall>b \<in> pending fns. b < length (w_bridges w) \<Longrightarrow> notifyTerminated hang env l fns c w = Some w' \<Longrightarrow>
         call_evolves w w' \<and> peers_only w w' \<and> (bridged (pending fns \<union> X) w \<longrightarrow> bridged X w')"
proof (induction fns arbitrary: w)
  case Nil
  thus ?case by (simp add: pending_def call_evolves_refl peers_only_def)
next
  case (Cons fn fns)
  show ?case
  proof (cases fn)
    case (BridgeCallback b name)
    have split: "pending (fn # fns) = insert b (pending fns)" by (auto simp: pending_def BridgeCallback)
    obtain v where v: "handleLegTerminated hang env b name c w = Some v" and rest: "notifyTerminated hang env l fns c v = Some w'"
      using Cons.prems(3) by (auto simp: BridgeCallback bind_eq_Some_conv)
    have b: "b < length (w_bridges w)" using Cons.prems(2) split by simp
    note one = handleLegTerminated_spec [OF env Cons.prems(1) b v]
    have "call_wf v" "\<forall>b \<in> pending fns. b < length (w_bridges v)"
      using call_evolves_wf [OF Cons.prems(1) one(1)] one(1) Cons.prems(2) split
      by (simp_all add: call_evolves_def bridges_evolve_def)
    note two = Cons.IH [OF this rest]
    have "call_evolves w w'" using call_evolves_trans [OF Cons.prems(1) one(1)] two by simp
    moreover have "bridged (pending (fn # fns) \<union> X) w \<longrightarrow> bridged X w'"
      using one(3) [of "pending fns \<union> X"] two by (simp add: split)
    moreover have "peers_only w w'" using peers_only_trans [OF one(2)] two call_evolves_length(1) [OF one(1)] by simp
    ultimately show ?thesis by simp
  next
    case (OriginatorCleanup x y)
    let ?v = "originatorCleanup env l x y c w"
    have split: "pending (fn # fns) = pending fns" by (auto simp: pending_def OriginatorCleanup)
    have "call_wf ?v" using call_evolves_wf [OF Cons.prems(1), of ?v] by (simp add: call_evolves_refl)
    hence "call_evolves ?v w' \<and> peers_only ?v w' \<and> (bridged (pending fns \<union> X) ?v \<longrightarrow> bridged X w')"
      using Cons.IH [of ?v] Cons.prems(2,3) split by (simp add: OriginatorCleanup)
    moreover have "call_evolves w ?v" by (simp add: call_evolves_refl)
    ultimately show ?thesis
      using call_evolves_trans [OF Cons.prems(1)] by (auto simp: split peers_only_def bridged_cong [of ?v w])
  qed
qed

lemma notifyTerminated_returns:
  assumes env: "is_range (be_cbOrd env)"
  shows "call_wf w \<Longrightarrow> \<forall>b \<in> pending fns. b < length (w_bridges w) \<Longrightarrow> live_legs w < depth \<Longrightarrow>
         notifyTerminated hang env l fns c w \<noteq> None"
proof (induction fns arbitrary: w)
  case (Cons fn fns)
  show ?case
  proof (cases fn)
    case (BridgeCallback b name)
    have b: "b < length (w_bridges w)" using Cons.prems(2) by (auto simp: pending_def BridgeCallback)
    obtain v where v: "handleLegTerminated hang env b name c w = Some v"
      using handleLegTerminated_returns [OF env Cons.prems(1) b Cons.prems(3)] by blast
    note one = handleLegTerminated_spec(1) [OF env Cons.prems(1) b v]
    have "notifyTerminated hang env l fns c v \<noteq> None"
    proof (rule Cons.IH)
      show "call_wf v" by (rule call_evolves_wf [OF Cons.prems(1) one])
      show "live_legs v < depth" using live_legs_mono [of w v] one Cons.prems(3) by (simp add: call_evolves_def)
      show "\<forall>b \<in> pending fns. b < length (w_bridges v)"
        using Cons.prems(2) one by (auto simp: pending_def call_evolves_def bridges_evolve_def)
    qed
    thus ?thesis by (simp add: BridgeCallback v)
  next
    case (OriginatorCleanup x y)
    let ?v = "originatorCleanup env l x y c w"
    have "call_wf ?v" using call_evolves_wf [OF Cons.prems(1), of ?v] by (simp add: call_evolves_refl)
    thus ?thesis
      using Cons.IH [of ?v] Cons.prems(2,3) by (auto simp: OriginatorCleanup pending_def live_legs_def)
  qed
qed simp

end

section \<open>\<open>Leg.Hangup\<close> keeps the contract\<close>

definition hungLeg :: "b2b_env \<Rightarrow> TerminationCause \<Rightarrow> leg \<Rightarrow> leg" where
  "hungLeg env c x = notifyStateChange (leg_state x) LegStateDestroyed
     (x\<lparr>leg_state := LegStateDestroyed, leg_terminationCause := c, leg_terminatedAt := Some (be_now env), leg_done := True\<rparr>)"

lemma hungLeg_simps [simp]:
  "leg_state (hungLeg env c x) = LegStateDestroyed" "leg_terminationCause (hungLeg env c x) = c" "leg_done (hungLeg env c x)"
  "leg_terminatedCallbacks (hungLeg env c x) = leg_terminatedCallbacks x" "leg_callbackIDCounter (hungLeg env c x) = leg_callbackIDCounter x"
  "leg_sessionID (hungLeg env c x) = leg_sessionID x"
  "leg_terminatedAt (hungLeg env c x) = Some (be_now env)" "leg_id (hungLeg env c x) = leg_id x" "leg_callID (hungLeg env c x) = leg_callID x"
  by (simp_all add: hungLeg_def notifyStateChange_def)

text \<open>The state in which the termination callbacks start.\<close>

definition hungWorld :: "b2b_env \<Rightarrow> nat \<Rightarrow> TerminationCause \<Rightarrow> b2b_world \<Rightarrow> b2b_world" where
  "hungWorld env l c w =
     upd_leg l (\<lambda>x. notifyStateChange (leg_state (w_legs w ! l)) LegStateDestroyed (x\<lparr>leg_done := True\<rparr>))
       (runTeardown env l (leg_onTeardown (w_legs w ! l))
         (upd_leg l (\<lambda>x. x\<lparr>leg_state := LegStateDestroyed, leg_terminationCause := c, leg_terminatedAt := Some (be_now env)\<rparr>) w))"

lemma hungWorld_frame [simp]:
  "w_bridges (hungWorld env l c w) = w_bridges w" "length (w_legs (hungWorld env l c w)) = length (w_legs w)"
  "w_pool (hungWorld env l c w) = w_pool w"
  by (simp_all add: hungWorld_def)

lemma hungWorld_legs: "l < length (w_legs w) \<Longrightarrow> w_legs (hungWorld env l c w) = (w_legs w)[l := hungLeg env c (w_legs w ! l)]"
  by (simp add: hungWorld_def upd_leg_def hungLeg_def notifyStateChange_def)

lemma Leg_Hangup_unfold:
  assumes "l < length (w_legs w)"
  shows "Leg_Hangup (Suc n) env l c w =
    (if leg_alive (w_legs w ! l)
     then notifyTerminated (Leg_Hangup n env) env l (map snd (be_cbOrd env (leg_terminatedCallbacks (w_legs w ! l)))) c (hungWorld env l c w)
     else Some w)"
  using assms by (simp add: Let_def leg_alive_def hungWorld_legs hungWorld_def [symmetric])

lemma hungWorld_evolves:
  assumes "l < length (w_legs w)" and "leg_alive (w_legs w ! l)"
  shows "call_evolves w (hungWorld env l c w)"
  using assms by (auto simp: call_evolves_def legs_evolve_def leg_evolves_def bridges_evolve_refl hungWorld_legs nth_list_update)

lemma hungWorld_bridged:
  assumes l: "l < length (w_legs w)" and wf: "call_wf w" and br: "bridged X w"
    and fns: "set fns = callbacks (w_legs w ! l)"
  shows "bridged (pending fns \<union> X) (hungWorld env l c w)"
  unfolding bridged_def
proof (intro allI impI)
  fix b assume b: "b < length (w_bridges (hungWorld env l c w))" "b \<notin> pending fns \<union> X"
    and act: "cb_state (w_bridges (hungWorld env l c w) ! b) = BridgeStateActive"
  let ?br = "w_bridges w ! b"
  have att: "bridge_attached w b" using br b act by (simp add: bridged_def)
  have "BridgeCallback b name \<notin> callbacks (w_legs w ! l)" for name
    using b(2) fns by (auto simp: pending_def)
  hence "cb_legA ?br \<noteq> l" "cb_legB ?br \<noteq> l"
    using att by (auto simp: bridge_attached_def Let_def)
  thus "bridge_attached (hungWorld env l c w) b"
    using att l by (simp add: bridge_attached_def Let_def hungWorld_legs)
qed

lemma hungWorld_ready:
  assumes env: "is_range (be_cbOrd env)" and wf: "call_wf w" and l: "l < length (w_legs w)" and alive: "leg_alive (w_legs w ! l)"
    and fns: "fns = map snd (be_cbOrd env (leg_terminatedCallbacks (w_legs w ! l)))"
  shows "call_wf (hungWorld env l c w)" and "\<forall>b \<in> pending fns. b < length (w_bridges (hungWorld env l c w))"
    and "live_legs (hungWorld env l c w) < live_legs w" and "set fns = callbacks (w_legs w ! l)"
proof -
  show "call_wf (hungWorld env l c w)"
    by (rule call_evolves_wf [OF wf hungWorld_evolves [OF l alive]])
  show set: "set fns = callbacks (w_legs w ! l)"
    by (simp add: fns callbacks_def is_range_set [OF env])
  show "\<forall>b \<in> pending fns. b < length (w_bridges (hungWorld env l c w))"
    using wf set nth_mem [OF l] unfolding pending_def call_wf_def by fastforce
  show "live_legs (hungWorld env l c w) < live_legs w"
    using live_legs_drop [OF l alive] by (simp add: live_legs_def hungWorld_legs [OF l] leg_alive_def)
qed

lemma Leg_Hangup_contract: "hangup_contract (Leg_Hangup n env) n env"
proof (induction n)
  case 0
  show ?case by unfold_locales simp_all
next
  case (Suc n)
  show ?case
  proof
    fix w l c w' X i
    assume env: "is_range (be_cbOrd env)" and wf: "call_wf w" and l: "l < length (w_legs w)"
    let ?v = "hungWorld env l c w"
    define fns where "fns = map snd (be_cbOrd env (leg_terminatedCallbacks (w_legs w ! l)))"
    note ready = hungWorld_ready [OF env wf l _ fns_def]
    note spec = hangup_contract.notifyTerminated_spec [OF Suc env, of ?v fns l c w']
    {
      assume run: "Leg_Hangup (Suc n) env l c w = Some w'" and alive: "leg_alive (w_legs w ! l)"
      hence "notifyTerminated (Leg_Hangup n env) env l fns c ?v = Some w'"
        using l by (simp add: Leg_Hangup_unfold fns_def del: Leg_Hangup.simps)
      hence "call_evolves ?v w' \<and> peers_only ?v w' \<and> (bridged (pending fns \<union> X) ?v \<longrightarrow> bridged X w')"
        using spec ready(1,2) [OF alive] by blast
    } note run = this
    show "call_evolves w w' \<and> \<not> leg_alive (w_legs w' ! l)" if h: "Leg_Hangup (Suc n) env l c w = Some w'"
    proof (cases "leg_alive (w_legs w ! l)")
      case True
      have ev: "call_evolves ?v w'" using run [OF h True] by simp
      hence "leg_evolves (w_legs ?v ! l) (w_legs w' ! l)" using l by (simp add: call_evolves_def legs_evolve_def)
      hence "\<not> leg_alive (w_legs w' ! l)"
        by (rule leg_evolves_dead) (simp add: hungWorld_legs [OF l] l leg_alive_def)
      thus ?thesis using call_evolves_trans [OF wf hungWorld_evolves [OF l True] ev] by simp
    next
      case False
      thus ?thesis using h l by (simp add: Leg_Hangup_unfold call_evolves_refl del: Leg_Hangup.simps)
    qed
    show "w_legs w' ! i = w_legs w ! i \<or> leg_terminationCause (w_legs w' ! i) = (if i = l then c else TerminationCauseBridgePeer)"
      if h: "Leg_Hangup (Suc n) env l c w = Some w'" and i: "i < length (w_legs w)"
    proof (cases "leg_alive (w_legs w ! l)")
      case True
      have peers: "peers_only ?v w'" and ev: "call_evolves ?v w'" using run [OF h True] by simp_all
      show ?thesis
      proof (cases "i = l")
        case True
        have "leg_evolves (w_legs ?v ! l) (w_legs w' ! l)" using l ev by (simp add: call_evolves_def legs_evolve_def)
        thus ?thesis using l True by (simp add: hungWorld_legs leg_evolves_def leg_alive_def)
      next
        case False
        thus ?thesis using peers i l by (auto simp: peers_only_def hungWorld_legs)
      qed
    next
      case False
      thus ?thesis using h l by (simp add: Leg_Hangup_unfold del: Leg_Hangup.simps)
    qed
    show "bridged X w'" if h: "Leg_Hangup (Suc n) env l c w = Some w'" and X: "bridged X w"
    proof (cases "leg_alive (w_legs w ! l)")
      case True
      thus ?thesis using run [OF h True] hungWorld_bridged [OF l wf X ready(4) [OF True]] by simp
    next
      case False
      thus ?thesis using h l X by (simp add: Leg_Hangup_unfold del: Leg_Hangup.simps)
    qed
    show "Leg_Hangup (Suc n) env l c w \<noteq> None" if depth: "live_legs w < Suc n"
    proof (cases "leg_alive (w_legs w ! l)")
      case True
      have "live_legs ?v < n" using ready(3) [OF True, of c] depth by linarith
      thus ?thesis
        using hangup_contract.notifyTerminated_returns [OF Suc env ready(1,2) [OF True]] True l
        by (simp add: Leg_Hangup_unfold fns_def del: Leg_Hangup.simps)
    qed (use l in \<open>simp add: Leg_Hangup_unfold del: Leg_Hangup.simps\<close>)
  qed
qed

interpretation hangup: hangup_contract "Leg_Hangup n env" n env for n env
  by (rule Leg_Hangup_contract)

section \<open>Depth does not matter once it suffices\<close>

definition hang_le :: "hang \<Rightarrow> hang \<Rightarrow> bool" where
  "hang_le f g \<longleftrightarrow> (\<forall>l c w w'. f l c w = Some w' \<longrightarrow> g l c w = Some w')"

lemma hang_leD: "hang_le f g \<Longrightarrow> f l c w = Some w' \<Longrightarrow> g l c w = Some w'"
  by (simp add: hang_le_def)

lemma hangupIfAnswered_le: "hang_le f g \<Longrightarrow> hangupIfAnswered f l st w = Some w' \<Longrightarrow> hangupIfAnswered g l st w = Some w'"
  by (auto simp: hangupIfAnswered_def hang_le_def)

lemma Bridge_Stop_le:
  assumes "hang_le f g" and "Bridge_Stop f env b h w = Some w'"
  shows "Bridge_Stop g env b h w = Some w'"
  using assms(2) unfolding Bridge_Stop_def Let_def
  by (auto simp: bind_eq_Some_conv dest!: hangupIfAnswered_le [OF assms(1)] split: if_splits)

lemma handleLegTerminated_le:
  "hang_le f g \<Longrightarrow> handleLegTerminated f env b name c w = Some w' \<Longrightarrow> handleLegTerminated g env b name c w = Some w'"
  by (auto simp: handleLegTerminated_def Let_def split: if_splits dest: Bridge_Stop_le)

lemma notifyTerminated_le:
  assumes "hang_le f g"
  shows "notifyTerminated f env l fns c w = Some w' \<Longrightarrow> notifyTerminated g env l fns c w = Some w'"
proof (induction fns arbitrary: w)
  case (Cons fn fns)
  thus ?case by (cases fn) (auto simp: bind_eq_Some_conv dest!: handleLegTerminated_le [OF assms])
qed simp

lemma Leg_Hangup_le_Suc: "hang_le (Leg_Hangup n env) (Leg_Hangup (Suc n) env)"
proof (induction n)
  case (Suc n)
  show ?case unfolding hang_le_def
    by (auto simp: Let_def intro: notifyTerminated_le [OF Suc])
qed (simp add: hang_le_def)

lemma Leg_Hangup_le: "n \<le> m \<Longrightarrow> hang_le (Leg_Hangup n env) (Leg_Hangup m env)"
proof (induction rule: dec_induct)
  case (step k)
  thus ?case using Leg_Hangup_le_Suc [of k env] unfolding hang_le_def by blast
qed (simp add: hang_le_def)

section \<open>Placing a call touches its own leg only\<close>

definition only_leg :: "nat \<Rightarrow> b2b_world \<Rightarrow> b2b_world \<Rightarrow> bool" where
  "only_leg l w w' \<longleftrightarrow>
     length (w_legs w') = length (w_legs w) \<and> w_bridges w' = w_bridges w \<and>
     (\<forall>i < length (w_legs w). i \<noteq> l \<longrightarrow> w_legs w' ! i = w_legs w ! i) \<and>
     (\<forall>i < length (w_legs w). leg_terminatedCallbacks (w_legs w' ! i) = leg_terminatedCallbacks (w_legs w ! i) \<and>
                             leg_callbackIDCounter (w_legs w' ! i) = leg_callbackIDCounter (w_legs w ! i))"

lemma only_leg_refl: "w_legs w' = w_legs w \<Longrightarrow> w_bridges w' = w_bridges w \<Longrightarrow> only_leg l w w'"
  by (simp add: only_leg_def)

lemma only_leg_trans: "only_leg l w w' \<Longrightarrow> only_leg l w' w'' \<Longrightarrow> only_leg l w w''"
  by (simp add: only_leg_def)

lemma only_leg_cong: "w_legs w' = w_legs v \<Longrightarrow> w_bridges w' = w_bridges v \<Longrightarrow> only_leg l w v \<Longrightarrow> only_leg l w w'"
  by (simp add: only_leg_def)

definition keeps_callbacks :: "(leg \<Rightarrow> leg) \<Rightarrow> bool" where
  "keeps_callbacks f \<longleftrightarrow> (\<forall>x. leg_terminatedCallbacks (f x) = leg_terminatedCallbacks x \<and> leg_callbackIDCounter (f x) = leg_callbackIDCounter x)"

lemma only_leg_upd: "keeps_callbacks f \<Longrightarrow> only_leg l w v \<Longrightarrow> only_leg l w (upd_leg l f v)"
  by (simp add: only_leg_def keeps_callbacks_def upd_leg_nth)

lemma keeps_callbacks_ops [simp]:
  "keeps_callbacks (Leg_TransitionTo now st)" "keeps_callbacks (SetSIPResponse code reason)" "keeps_callbacks (SetTerminationCause c)"
  "keeps_callbacks (SetRemoteMediaEndpoint a p)" "keeps_callbacks (SetOutboundDialogState a b d e f)"
  "keeps_callbacks (Leg_SetMediaEndpoint a p k)" "keeps_callbacks (Leg_SetSessionID sid)" "keeps_callbacks (SetDialog us dlgp)"
  "keeps_callbacks (\<lambda>x. fst (Answer now x))"
  by (auto simp: keeps_callbacks_def Leg_TransitionTo_def notifyStateChange_def SetSIPResponse_def SetTerminationCause_def
      SetRemoteMediaEndpoint_def SetOutboundDialogState_def Leg_SetMediaEndpoint_def Leg_SetSessionID_def SetDialog_def
      copyAddresses_def Answer_def Let_def split: option.split)

lemma keeps_callbacks_compositions [simp]:
  "keeps_callbacks (\<lambda>x. Leg_SetMediaEndpoint a p k (Leg_SetSessionID sid x))"
  "keeps_callbacks (\<lambda>x. SetSIPResponse code reason (Leg_TransitionTo now st x))"
  "keeps_callbacks (\<lambda>x. SetTerminationCause c (SetSIPResponse code reason (Leg_TransitionTo now st x)))"
  "keeps_callbacks (\<lambda>x. SetTerminationCause c (Leg_TransitionTo now st (SetSIPResponse code reason x)))"
  by (auto simp: keeps_callbacks_def Leg_TransitionTo_def notifyStateChange_def SetSIPResponse_def SetTerminationCause_def
      Leg_SetMediaEndpoint_def Leg_SetSessionID_def Let_def)

lemma only_leg_pool [simp]: "only_leg l w (v\<lparr>w_pool := p\<rparr>) = only_leg l w v" "only_leg l w (v\<lparr>w_dm := m\<rparr>) = only_leg l w v"
  "only_leg l w (v\<lparr>w_sent := x\<rparr>) = only_leg l w v"
  by (simp_all add: only_leg_def)

lemma only_leg_extractRemoteMedia: "only_leg l w v \<Longrightarrow> only_leg l w (extractRemoteMedia env um l resp v)"
  by (auto simp: extractRemoteMedia_def Let_def intro!: only_leg_upd split: option.split list.split)

lemma only_leg_sendCANCEL: "only_leg l w v \<Longrightarrow> only_leg l w (sendCANCEL env l invite v)"
  by (simp add: sendCANCEL_def Let_def only_leg_upd)

lemma only_leg_sendACK: "only_leg l w v \<Longrightarrow> only_leg l w (fst (sendACK env l resp invite v))"
  by (simp add: sendACK_def Let_def)

lemma only_leg_registerLegDialog: "only_leg l w v \<Longrightarrow> only_leg l w (registerLegDialog env l invite resp v)"
  by (auto simp: registerLegDialog_def Let_def intro!: only_leg_upd split: prod.split sum.split)

lemma only_leg_handle2xx: "only_leg l w v \<Longrightarrow> only_leg l w (fst (handle2xx env um l resp invite v))"
  by (simp add: handle2xx_def Let_def only_leg_upd only_leg_sendACK only_leg_registerLegDialog only_leg_extractRemoteMedia)

lemma only_leg_handleResponse: "only_leg l w v \<Longrightarrow> only_leg l w (fst (handleResponse env um l resp invite v))"
  using only_leg_handle2xx [of l w v env um resp invite]
  by (auto simp: handleResponse_def handleFailure_def Let_def
      intro!: only_leg_upd only_leg_extractRemoteMedia split: prod.split)

lemma only_leg_inviteLoop: "only_leg l w v \<Longrightarrow> only_leg l w (fst (inviteLoop env um l invite evs v))"
proof (induction evs arbitrary: v)
  case (Cons ev evs)
  show ?case
  proof (cases ev)
    case (GotResponse resp)
    thus ?thesis
      using Cons only_leg_handleResponse [OF Cons.prems, of env um resp invite] by (auto split: prod.split option.split)
  qed (use Cons.prems in \<open>auto simp: Let_def intro!: only_leg_upd only_leg_sendCANCEL\<close>)
qed simp

lemma only_leg_executeINVITE: "only_leg l w v \<Longrightarrow> only_leg l w (fst (executeINVITE env um l invite evs v))"
  by (auto simp: executeINVITE_def Let_def intro!: only_leg_upd only_leg_inviteLoop)

lemma only_leg_destroyMediaSession: "only_leg l w v \<Longrightarrow> only_leg l w (destroyMediaSession env l' v)"
  by (simp add: destroyMediaSession_def Let_def)

lemmas only_leg_ops = only_leg_executeINVITE only_leg_destroyMediaSession only_leg_inviteLoop

text \<open>The leg \<open>Originate\<close> creates, and the world once it is stored.\<close>

definition origLeg :: "orig_in \<Rightarrow> originate_request \<Rightarrow> lookup_result \<Rightarrow> leg" where
  "origLeg inp req target =
     Leg_OnTerminated (OriginatorCleanup (oi_callID inp) (oq_ALegCallID req))
       (SetTeardownHandler (Some OriginatorTeardown)
         (NewOutboundLeg (oi_uuid inp) (be_now (oi_env inp)) (oi_callID inp) (rc_URI (PrimaryContact target)) None))"

definition origStored :: "orig_in \<Rightarrow> originate_request \<Rightarrow> lookup_result \<Rightarrow> b2b_world \<Rightarrow> b2b_world" where
  "origStored inp req target w =
     w\<lparr>w_legs := w_legs w @ [origLeg inp req target], w_origLegs := gm_set (w_origLegs w) (oi_callID inp) (length (w_legs w)),
       w_aToB := gm_set (w_aToB w) (oq_ALegCallID req) (oi_callID inp)\<rparr>"

definition origCreate :: "orig_in \<Rightarrow> originate_request \<Rightarrow> media_pool \<Rightarrow> media_pool \<times> (mpool_error + session_result)" where
  "origCreate inp req p =
     (let codecs = (if length (oq_Codecs req) = 0 then [''0''] else oq_Codecs req) in
      if oq_ALegSessionID req \<noteq> ''''
      then Pool_CreateSessionPendingRemoteOnNode (oi_createRpc inp) (oi_createEnv inp) (oq_ALegSessionID req) (oi_callID inp) codecs p
      else Pool_CreateSessionPendingRemote (oi_createRpc inp) (oi_createEnv inp) (oi_callID inp) codecs p)"

definition origMedia :: "nat \<Rightarrow> session_result \<Rightarrow> b2b_world \<Rightarrow> b2b_world" where
  "origMedia l session = upd_leg l (\<lambda>x. Leg_SetMediaEndpoint (sr_LocalAddr session) (sr_LocalPort session) (sr_SelectedCodec session)
                            (Leg_SetSessionID (sr_SessionID session) x))"

definition origFinish :: "b2b_env \<Rightarrow> nat \<Rightarrow> b2b_world \<times> originate_result option \<Rightarrow> b2b_world \<times> originate_result option" where
  "origFinish env l r = (case r of (w, None) \<Rightarrow> (w, None)
     | (w, Some result) \<Rightarrow> (if or_Success result then w else destroyMediaSession env l w, Some (result\<lparr>or_Leg := Some l\<rparr>)))"

text \<open>\<open>Originate\<close> on a target with contacts, in terms of these steps.\<close>

lemma Originate_steps:
  assumes "oq_Target req = Some target" and "HasContacts target"
  shows "Originate inp req w =
    (let env = oi_env inp; l = length (w_legs w); w1 = origStored inp req target w in
     case origCreate inp req (w_pool w) of
       (p, Inl err) \<Rightarrow> (w1\<lparr>w_pool := p\<rparr>, Some (failed 500 ''Media allocation failed'' (Some (MediaFailed err))))
     | (p, Inr session) \<Rightarrow>
         let w2 = origMedia l session (w1\<lparr>w_pool := p\<rparr>) in
         (case buildINVITE (be_parseUri env) (w_cfg w2) (w_legs w2 ! l) (rc_URI (PrimaryContact target)) (oi_tag inp) req (sr_SDPBody session) of
            None \<Rightarrow> (destroyMediaSession env l w2, Some (failed 500 ''Failed to build INVITE'' (Some InvalidTargetURI)))
          | Some invite \<Rightarrow> origFinish env l (executeINVITE env (oi_unmarshal inp) l invite (oi_events inp) w2)))"
  unfolding Originate_def origStored_def origLeg_def origCreate_def origMedia_def origFinish_def Let_def
  using assms by simp

lemma origStored_frame [simp]:
  "w_legs (origStored inp req target w) = w_legs w @ [origLeg inp req target]" "w_bridges (origStored inp req target w) = w_bridges w"
  "w_pool (origStored inp req target w) = w_pool w" "w_dm (origStored inp req target w) = w_dm w"
  by (simp_all add: origStored_def)

lemma only_leg_origMedia: "only_leg l w v \<Longrightarrow> only_leg l w (origMedia l session v)"
  unfolding origMedia_def by (rule only_leg_upd) simp_all

lemma only_leg_origFinish: "only_leg l w (fst r) \<Longrightarrow> only_leg l w (fst (origFinish env l' r))"
  by (auto simp: origFinish_def only_leg_destroyMediaSession split: prod.split option.split)

lemma Originate_frame:
  "fst (Originate inp req w) = w \<or>
   (\<exists>target. oq_Target req = Some target \<and>
      only_leg (length (w_legs w)) (w\<lparr>w_legs := w_legs w @ [origLeg inp req target]\<rparr>) (fst (Originate inp req w)))"
proof (cases "oq_Target req")
  case (Some target)
  show ?thesis
  proof (cases "HasContacts target")
    case True
    let ?l = "length (w_legs w)" and ?w0 = "w\<lparr>w_legs := w_legs w @ [origLeg inp req target]\<rparr>"
    have "only_leg ?l ?w0 (origStored inp req target w)" by (rule only_leg_refl) simp_all
    hence "only_leg ?l ?w0 (fst (Originate inp req w))"
      unfolding Originate_steps [OF Some True] Let_def
      by (auto intro!: only_leg_origFinish only_leg_executeINVITE only_leg_destroyMediaSession only_leg_origMedia
               split: prod.split sum.split option.split)
    thus ?thesis using Some by blast
  next
    case False
    thus ?thesis using Some by (simp add: Originate_def)
  qed
qed (simp add: Originate_def)

section \<open>Reachable calls\<close>

text \<open>
  The operations on legs and bridges, in any order. Between the events of one INVITE other
  operations may run; until \<open>Originate\<close> returns, its leg is in no bridge. Dialogs and media
  sessions may change at any time. Fewer than $2^{64} - 1$ callbacks are registered on a leg.
\<close>

inductive call_step :: "b2b_world \<Rightarrow> b2b_world \<Rightarrow> bool" where
  adopt: "NewInboundLeg us uuid now dlgp sid td = Inr x \<Longrightarrow> call_step w (w\<lparr>w_legs := w_legs w @ [x]\<rparr>)"
| answer: "l < length (w_legs w) \<Longrightarrow> call_step w (upd_leg l (\<lambda>x. fst (Answer now x)) w)"
| originate: "call_step w (fst (Originate inp req w))"
| inviteEvent: "l < length (w_legs w) \<Longrightarrow> \<forall>br \<in> set (w_bridges w). cb_legA br \<noteq> l \<and> cb_legB br \<noteq> l \<Longrightarrow>
    call_step w (fst (inviteLoop env um l invite [ev] w))"
| cleanup: "call_step w (destroyMediaSession env l w)"
| bridge: "a < length (w_legs w) \<Longrightarrow> b < length (w_legs w) \<Longrightarrow>
    \<forall>x \<in> set (w_legs w). unat (leg_callbackIDCounter x) + 2 < 2 ^ 64 \<Longrightarrow>
    call_step w (fst (NewBridge uuid now (Some a) (Some b) tr ah w))"
| start: "b < length (w_bridges w) \<Longrightarrow> call_step w (fst (Bridge_Start listen uuid rpc now b w))"
| hangup: "is_range (be_cbOrd env) \<Longrightarrow> l < length (w_legs w) \<Longrightarrow> Leg_Hangup n env l c w = Some w' \<Longrightarrow> call_step w w'"
| stop: "is_range (be_cbOrd env) \<Longrightarrow> b < length (w_bridges w) \<Longrightarrow> Bridge_Stop (Leg_Hangup n env) env b h w = Some w' \<Longrightarrow> call_step w w'"
| elsewhere: "call_step w (w\<lparr>w_dm := m, w_pool := p\<rparr>)"

inductive call_reachable :: "b2b_world \<Rightarrow> bool" where
  init: "w_legs w = [] \<Longrightarrow> w_bridges w = [] \<Longrightarrow> call_reachable w"
| step: "call_reachable w \<Longrightarrow> call_step w w' \<Longrightarrow> call_reachable w'"

text \<open>Callback identifiers come from the leg's counter.\<close>

definition ids_ok :: "leg \<Rightarrow> bool" where
  "ids_ok x \<longleftrightarrow> (\<forall>e \<in> set (leg_terminatedCallbacks x). fst e \<le> leg_callbackIDCounter x)"

definition registered :: "b2b_world \<Rightarrow> bool" where
  "registered w \<longleftrightarrow> (\<forall>b < length (w_bridges w).
     BridgeCallback b ''leg_a'' \<in> callbacks (w_legs w ! cb_legA (w_bridges w ! b)) \<and>
     BridgeCallback b ''leg_b'' \<in> callbacks (w_legs w ! cb_legB (w_bridges w ! b)))"

definition call_inv :: "b2b_world \<Rightarrow> bool" where
  "call_inv w \<longleftrightarrow> call_wf w \<and> bridged {} w \<and> (\<forall>x \<in> set (w_legs w). ids_ok x) \<and>
     (\<forall>br \<in> set (w_bridges w). cb_state br \<noteq> BridgeStateTerminating) \<and> registered w"

lemma call_invD:
  assumes "call_inv w"
  shows "call_wf w" and "bridged {} w" and "\<forall>x \<in> set (w_legs w). ids_ok x" and "\<forall>br \<in> set (w_bridges w). cb_state br \<noteq> BridgeStateTerminating"
    and "registered w"
  using assms by (simp_all add: call_inv_def)

lemma call_inv_cong: "w_legs w' = w_legs w \<Longrightarrow> w_bridges w' = w_bridges w \<Longrightarrow> call_inv w' = call_inv w"
  using bridged_cong [of w' w "{}"] by (simp add: call_inv_def call_wf_def registered_def)

text \<open>A change to a leg that no active bridge uses.\<close>

lemma call_inv_only_leg:
  assumes inv: "call_inv w" and only: "only_leg l w w'"
    and free: "\<forall>b < length (w_bridges w). cb_state (w_bridges w ! b) = BridgeStateActive \<longrightarrow>
                 cb_legA (w_bridges w ! b) \<noteq> l \<and> cb_legB (w_bridges w ! b) \<noteq> l"
  shows "call_inv w'"
proof -
  have cbs: "callbacks (w_legs w' ! i) = callbacks (w_legs w ! i)" "ids_ok (w_legs w' ! i) = ids_ok (w_legs w ! i)" if "i < length (w_legs w)" for i
    using only that by (simp_all add: only_leg_def callbacks_def ids_ok_def)
  have len: "length (w_legs w') = length (w_legs w)" and br: "w_bridges w' = w_bridges w" using only by (simp_all add: only_leg_def)
  have wf: "call_wf w'"
    using call_invD(1) [OF inv] len cbs(1) by (simp add: call_wf_def br all_set_conv_all_nth)
  moreover have "bridged {} w'"
    unfolding bridged_def
  proof (intro allI impI)
    fix b assume b: "b < length (w_bridges w')" and act: "cb_state (w_bridges w' ! b) = BridgeStateActive"
    have "bridge_attached w b" using call_invD(2) [OF inv] b act br by (simp add: bridged_def)
    moreover have "w_legs w' ! cb_legA (w_bridges w ! b) = w_legs w ! cb_legA (w_bridges w ! b)"
      "w_legs w' ! cb_legB (w_bridges w ! b) = w_legs w ! cb_legB (w_bridges w ! b)"
      using only free b act call_wf_bridge [OF call_invD(1) [OF inv], of b] br by (simp_all add: only_leg_def)
    ultimately show "bridge_attached w' b" by (simp add: bridge_attached_def br Let_def)
  qed
  moreover have "\<forall>x \<in> set (w_legs w'). ids_ok x"
    using call_invD(3) [OF inv] len cbs(2) by (simp add: all_set_conv_all_nth)
  moreover have "registered w'"
    using call_invD(5) [OF inv] cbs(1) call_wf_bridge [OF call_invD(1) [OF inv]] by (simp add: registered_def br)
  ultimately show ?thesis using call_invD(4) [OF inv] by (simp add: call_inv_def br)
qed

text \<open>A new leg.\<close>

lemma call_inv_append:
  assumes inv: "call_inv w" and new: "ids_ok x" "\<forall>b name. BridgeCallback b name \<notin> callbacks x"
  shows "call_inv (w\<lparr>w_legs := w_legs w @ [x]\<rparr>)"
proof -
  have ends: "cb_legA (w_bridges w ! b) < length (w_legs w)" "cb_legB (w_bridges w ! b) < length (w_legs w)" if "b < length (w_bridges w)" for b
    using call_wf_bridge [OF call_invD(1) [OF inv] that] by simp_all
  have "bridged {} (w\<lparr>w_legs := w_legs w @ [x]\<rparr>)"
    using call_invD(2) [OF inv] ends by (auto simp: bridged_def bridge_attached_def nth_append Let_def)
  moreover have "call_wf (w\<lparr>w_legs := w_legs w @ [x]\<rparr>)"
    using call_invD(1) [OF inv] new(2) by (auto simp: call_wf_def less_Suc_eq)
  moreover have "registered (w\<lparr>w_legs := w_legs w @ [x]\<rparr>)"
    using call_invD(5) [OF inv] ends by (auto simp: registered_def nth_append)
  ultimately show ?thesis using call_invD(3,4) [OF inv] new by (auto simp: call_inv_def)
qed

lemma NewInboundLeg_callbacks: "NewInboundLeg us uuid now dlgp sid td = Inr x \<Longrightarrow> leg_terminatedCallbacks x = []"
  by (auto simp: NewInboundLeg_def copyAddresses_def zero_leg_def Let_def split: option.splits prod.splits if_splits)

lemma call_inv_originate:
  assumes inv: "call_inv w"
  shows "call_inv (fst (Originate inp req w))"
proof -
  have new: "ids_ok (origLeg inp req target)" "\<forall>b name. BridgeCallback b name \<notin> callbacks (origLeg inp req target)" for target
    by (simp_all add: ids_ok_def callbacks_def origLeg_def Leg_OnTerminated_def SetTeardownHandler_def NewOutboundLeg_def zero_leg_def
        gm_set_def Let_def)
  consider "fst (Originate inp req w) = w"
    | target where "only_leg (length (w_legs w)) (w\<lparr>w_legs := w_legs w @ [origLeg inp req target]\<rparr>) (fst (Originate inp req w))"
    using Originate_frame by blast
  thus ?thesis
  proof cases
    case 2
    show ?thesis
      by (rule call_inv_only_leg [OF call_inv_append [OF inv new] 2]) (use call_wf_bridge [OF call_invD(1) [OF inv]] in fastforce)
  qed (simp add: inv)
qed

lemma Leg_OnTerminated_callbacks:
  assumes ids: "ids_ok x" and room: "unat (leg_callbackIDCounter x) + 1 < 2 ^ 64"
  shows "callbacks (Leg_OnTerminated fn x) = insert fn (callbacks x)" and "ids_ok (Leg_OnTerminated fn x)"
proof -
  let ?i = "leg_callbackIDCounter x + 1"
  have less: "leg_callbackIDCounter x < ?i" using room by (simp add: word_less_nat_alt unat_word_ariths)
  hence "?i \<notin> gm_keys (leg_terminatedCallbacks x)"
    using ids by (fastforce simp: gm_keys_def ids_ok_def)
  hence set: "leg_terminatedCallbacks (Leg_OnTerminated fn x) = leg_terminatedCallbacks x @ [(?i, fn)]"
    by (simp add: Leg_OnTerminated_def Let_def gm_set_new)
  thus "callbacks (Leg_OnTerminated fn x) = insert fn (callbacks x)" by (simp add: callbacks_def)
  have "leg_callbackIDCounter (Leg_OnTerminated fn x) = ?i" by (simp add: Leg_OnTerminated_def Let_def)
  thus "ids_ok (Leg_OnTerminated fn x)"
    using set ids less by (auto simp: ids_ok_def intro: order.trans)
qed

lemma Leg_OnTerminated_frame [simp]:
  "leg_state (Leg_OnTerminated fn x) = leg_state x" "leg_callbackIDCounter (Leg_OnTerminated fn x) = leg_callbackIDCounter x + 1"
  by (simp_all add: Leg_OnTerminated_def Let_def)

text \<open>Registering a termination callback on a leg.\<close>

definition adds_callbacks :: "b2b_world \<Rightarrow> b2b_world \<Rightarrow> bool" where
  "adds_callbacks w w' \<longleftrightarrow> length (w_legs w') = length (w_legs w) \<and> w_bridges w' = w_bridges w \<and>
     (\<forall>i < length (w_legs w). leg_state (w_legs w' ! i) = leg_state (w_legs w ! i) \<and> ids_ok (w_legs w' ! i) \<and>
        callbacks (w_legs w ! i) \<subseteq> callbacks (w_legs w' ! i) \<and>
        (\<forall>b name. BridgeCallback b name \<in> callbacks (w_legs w' ! i) \<longrightarrow> b < length (w_bridges w)))"

lemma adds_callbacks_OnTerminated:
  assumes wf: "\<forall>x \<in> set (w_legs w). ids_ok x \<and> (\<forall>b name. BridgeCallback b name \<in> callbacks x \<longrightarrow> b < length (w_bridges w))"
    and l: "l < length (w_legs w)" and room: "unat (leg_callbackIDCounter (w_legs w ! l)) + 1 < 2 ^ 64"
    and k: "k < length (w_bridges w)"
  shows "adds_callbacks w (upd_leg l (Leg_OnTerminated (BridgeCallback k name)) w)"
  using wf l k Leg_OnTerminated_callbacks [OF _ room, of "BridgeCallback k name"]
  by (auto simp: adds_callbacks_def upd_leg_nth all_set_conv_all_nth)

lemma adds_callbacks_trans: "adds_callbacks w w' \<Longrightarrow> adds_callbacks w' w'' \<Longrightarrow> adds_callbacks w w''"
  by (simp add: adds_callbacks_def) blast

lemma call_inv_NewBridge:
  assumes inv: "call_inv w" and a: "a < length (w_legs w)" and b: "b < length (w_legs w)"
    and room: "\<forall>x \<in> set (w_legs w). unat (leg_callbackIDCounter x) + 2 < 2 ^ 64"
  shows "call_inv (fst (NewBridge uuid now (Some a) (Some b) tr ah w))"
proof -
  define i where "i = length (w_bridges w)"
  define br where "br = \<lparr>cb_id = ''bridge-'' @ uuid, cb_legA = a, cb_legB = b, cb_state = BridgeStateCreated,
                    cb_terminationCause = TerminationCauseNone, cb_terminatedBy = '''', cb_transport = tr,
                    cb_mediaBridgeID = '''', cb_createdAt = now, cb_startedAt = None, cb_terminatedAt = None,
                    cb_done = False, cb_autoHangup = ah, cb_waiters = 0\<rparr>"
  define w1 where "w1 = w\<lparr>w_bridges := w_bridges w @ [br]\<rparr>"
  define w2 where "w2 = upd_leg a (Leg_OnTerminated (BridgeCallback i ''leg_a'')) w1"
  define w3 where "w3 = upd_leg b (Leg_OnTerminated (BridgeCallback i ''leg_b'')) w2"
  have w3: "fst (NewBridge uuid now (Some a) (Some b) tr ah w) = w3"
    by (simp add: NewBridge_def w3_def w2_def w1_def br_def i_def Let_def)
  have ok: "ids_ok x \<and> (\<forall>k name. BridgeCallback k name \<in> callbacks x \<longrightarrow> k < Suc i)" if "x \<in> set (w_legs w)" for x
    using call_invD(1,3) [OF inv] that by (auto simp: call_wf_def i_def less_Suc_eq)
  have roomA: "unat (leg_callbackIDCounter (w_legs w ! a)) + 2 < 2 ^ 64" "unat (leg_callbackIDCounter (w_legs w ! b)) + 2 < 2 ^ 64"
    using room a b nth_mem by blast+
  have add1: "adds_callbacks w1 w2"
    unfolding w2_def by (rule adds_callbacks_OnTerminated) (use ok a roomA in \<open>auto simp: w1_def i_def\<close>)
  have cnt: "unat (leg_callbackIDCounter (w_legs w2 ! b)) \<le> unat (leg_callbackIDCounter (w_legs w ! b)) + 1"
    using a b by (simp add: w2_def w1_def upd_leg_nth unat_word_ariths)
  have add2: "adds_callbacks w2 w3"
    unfolding w3_def
  proof (rule adds_callbacks_OnTerminated)
    show "\<forall>x \<in> set (w_legs w2). ids_ok x \<and> (\<forall>k name. BridgeCallback k name \<in> callbacks x \<longrightarrow> k < length (w_bridges w2))"
      using add1 by (simp add: adds_callbacks_def all_set_conv_all_nth)
  qed (use b cnt roomA in \<open>simp_all add: w2_def w1_def i_def\<close>)
  have add: "adds_callbacks w1 w3" by (rule adds_callbacks_trans [OF add1 add2])
  have legs: "length (w_legs w3) = length (w_legs w)" "w_bridges w3 = w_bridges w @ [br]"
    using add by (simp_all add: adds_callbacks_def w1_def)
  have newA: "BridgeCallback i ''leg_a'' \<in> callbacks (w_legs w3 ! a)" and newB: "BridgeCallback i ''leg_b'' \<in> callbacks (w_legs w3 ! b)"
  proof -
    have "BridgeCallback i ''leg_a'' \<in> callbacks (w_legs w2 ! a)"
      using Leg_OnTerminated_callbacks(1) [of "w_legs w ! a"] ok [OF nth_mem [OF a]] roomA a
      by (simp add: w2_def w1_def upd_leg_nth)
    thus "BridgeCallback i ''leg_a'' \<in> callbacks (w_legs w3 ! a)"
      using add2 a by (auto simp: adds_callbacks_def w2_def w1_def)
    have "ids_ok (w_legs w2 ! b)" using add1 b by (simp add: adds_callbacks_def w1_def)
    thus "BridgeCallback i ''leg_b'' \<in> callbacks (w_legs w3 ! b)"
      using Leg_OnTerminated_callbacks(1) [of "w_legs w2 ! b"] cnt roomA b by (simp add: w3_def upd_leg_nth w2_def w1_def)
  qed
  have each: "leg_state (w_legs w3 ! k) = leg_state (w_legs w ! k)" "ids_ok (w_legs w3 ! k)" "callbacks (w_legs w ! k) \<subseteq> callbacks (w_legs w3 ! k)"
    "\<forall>j name. BridgeCallback j name \<in> callbacks (w_legs w3 ! k) \<longrightarrow> j < Suc i" if "k < length (w_legs w)" for k
    using add that by (simp_all add: adds_callbacks_def w1_def i_def)
  have ends: "cb_legA (w_bridges w ! k) < length (w_legs w)" "cb_legB (w_bridges w ! k) < length (w_legs w)" if "k < i" for k
    using call_wf_bridge [OF call_invD(1) [OF inv], of k] that by (simp_all add: i_def)
  have reg: "registered w3"
    unfolding registered_def legs(2)
    using call_invD(5) [OF inv] each(3) ends newA newB
    by (auto simp: registered_def nth_append i_def [symmetric] br_def less_Suc_eq)
  have "call_wf w3"
    using call_invD(1) [OF inv] each(4) a b
    by (auto simp: call_wf_def legs all_set_conv_all_nth nth_append less_Suc_eq i_def br_def)
  moreover have "bridged {} w3"
    using call_invD(2) [OF inv] each(1) ends reg
    by (auto simp: bridged_def bridge_attached_def registered_def legs(2) Let_def nth_append i_def less_Suc_eq br_def)
  moreover have "\<forall>x \<in> set (w_legs w3). ids_ok x" using each(2) by (simp add: all_set_conv_all_nth legs(1))
  ultimately show ?thesis
    using call_invD(4) [OF inv] reg by (auto simp: w3 call_inv_def legs(2) br_def)
qed

lemma call_inv_Start:
  assumes inv: "call_inv w" and b: "b < length (w_bridges w)"
  shows "call_inv (fst (Bridge_Start listen uuid rpc now b w))"
proof (cases "cb_state (w_bridges w ! b) = BridgeStateCreated \<and> leg_state (w_legs w ! cb_legA (w_bridges w ! b)) = LegStateAnswered \<and>
    leg_state (w_legs w ! cb_legB (w_bridges w ! b)) = LegStateAnswered")
  case True
  have act: "call_inv v" if legs: "w_legs v = w_legs w"
    and br: "w_bridges v = (w_bridges w)[b := y]" and y: "cb_state y = BridgeStateActive" "same_ends (w_bridges w ! b) y" for v y
  proof -
    have "call_wf v"
      by (rule evolves_wf [OF call_invD(1) [OF inv] legs_evolve_refl [OF legs]]) (use b y in \<open>auto simp: br same_ends_def nth_list_update\<close>)
    moreover have "bridged {} v" "registered v"
      using call_invD(2,5) [OF inv] True b y
      by (auto simp: bridged_def bridge_attached_def registered_def legs br nth_list_update Let_def same_ends_def)
    moreover have "\<forall>x \<in> set (w_bridges v). cb_state x \<noteq> BridgeStateTerminating"
      using call_invD(4) [OF inv] set_update_subset_insert [of "w_bridges w" b] y by (fastforce simp: br)
    ultimately show ?thesis using call_invD(3) [OF inv] by (simp add: call_inv_def legs)
  qed
  have keep: "call_inv (w\<lparr>w_pool := p\<rparr>)" for p using inv call_inv_cong [of "w\<lparr>w_pool := p\<rparr>" w] by simp
  show ?thesis
    using True by (auto simp: Bridge_Start_def Let_def upd_bridge_def keep same_ends_def intro!: act split: prod.split sum.split)
next
  case False
  thus ?thesis using inv by (simp add: Bridge_Start_def Let_def)
qed

text \<open>A completed hang-up or stop.\<close>

lemma call_inv_evolves:
  assumes inv: "call_inv w" and legs: "legs_evolve w w'" and len: "length (w_bridges w') = length (w_bridges w)"
    and ends: "\<forall>b < length (w_bridges w). same_ends (w_bridges w ! b) (w_bridges w' ! b)"
    and states: "\<forall>b < length (w_bridges w). w_bridges w' ! b = w_bridges w ! b \<or> cb_state (w_bridges w' ! b) = BridgeStateTerminated"
    and br: "bridged {} w'"
  shows "call_inv w'"
proof -
  have wf: "call_wf w'" by (rule evolves_wf [OF call_invD(1) [OF inv] legs len ends])
  have cbs: "leg_terminatedCallbacks (w_legs w' ! i) = leg_terminatedCallbacks (w_legs w ! i)"
    "leg_callbackIDCounter (w_legs w' ! i) = leg_callbackIDCounter (w_legs w ! i)" if "i < length (w_legs w)" for i
    using legs that leg_evolves_callbacks by (auto simp: legs_evolve_def)
  have "\<forall>x \<in> set (w_legs w'). ids_ok x"
    using call_invD(3) [OF inv] legs cbs by (simp add: all_set_conv_all_nth legs_evolve_def ids_ok_def)
  moreover have "registered w'"
    using call_invD(5) [OF inv] ends len cbs call_wf_bridge [OF call_invD(1) [OF inv]]
    by (simp add: registered_def same_ends_def callbacks_def)
  moreover have "\<forall>x \<in> set (w_bridges w'). cb_state x \<noteq> BridgeStateTerminating"
    using call_invD(4) [OF inv] states len unfolding all_set_conv_all_nth by (metis BridgeState.distinct(29))
  ultimately show ?thesis using wf br by (simp add: call_inv_def)
qed

lemma call_inv_hangup:
  assumes inv: "call_inv w" and env: "is_range (be_cbOrd env)" and l: "l < length (w_legs w)" and run: "Leg_Hangup n env l c w = Some w'"
  shows "call_inv w'"
proof (rule call_inv_evolves [OF inv])
  note wf = call_invD(1) [OF inv]
  have ev: "call_evolves w w'" using hangup.hang_spec [OF env wf l run] by simp
  show "legs_evolve w w'" "length (w_bridges w') = length (w_bridges w)"
    using ev by (simp_all add: call_evolves_def bridges_evolve_def)
  show "\<forall>b < length (w_bridges w). same_ends (w_bridges w ! b) (w_bridges w' ! b)"
    using ev bridge_evolves_ends by (auto simp: call_evolves_def bridges_evolve_def)
  show "\<forall>b < length (w_bridges w). w_bridges w' ! b = w_bridges w ! b \<or> cb_state (w_bridges w' ! b) = BridgeStateTerminated"
    using ev by (auto simp: call_evolves_def bridges_evolve_def bridge_evolves_def bridge_down_def)
  show "bridged {} w'" by (rule hangup.hang_bridged [OF env wf l run call_invD(2) [OF inv]])
qed

lemma call_inv_stop:
  assumes inv: "call_inv w" and env: "is_range (be_cbOrd env)" and b: "b < length (w_bridges w)"
    and run: "Bridge_Stop (Leg_Hangup n env) env b h w = Some w'"
  shows "call_inv w'"
proof (cases "cb_state (w_bridges w ! b) = BridgeStateTerminated")
  case False
  note wf = call_invD(1) [OF inv]
  note spec = hangup.Bridge_Stop_spec [OF env wf b False run]
  have others: "bridge_evolves w' (w_bridges w ! k) (w_bridges w' ! k)" if "k < length (w_bridges w)" "k \<noteq> b" for k
    using spec(2) that by (simp add: bridges_evolve_def)
  show ?thesis
  proof (rule call_inv_evolves [OF inv spec(1)])
    show "length (w_bridges w') = length (w_bridges w)" using spec(2) by (simp add: bridges_evolve_def)
    show "\<forall>k < length (w_bridges w). same_ends (w_bridges w ! k) (w_bridges w' ! k)"
      using others bridge_evolves_ends spec(3) by metis
    show "\<forall>k < length (w_bridges w). w_bridges w' ! k = w_bridges w ! k \<or> cb_state (w_bridges w' ! k) = BridgeStateTerminated"
      using others spec(5) by (auto simp: bridge_evolves_def bridge_down_def)
    show "bridged {} w'" by (rule spec(11) [OF bridged_sub [OF call_invD(2) [OF inv]]]) simp
  qed
qed (use run inv in \<open>simp add: Bridge_Stop_def\<close>)

lemma call_inv_answer:
  assumes inv: "call_inv w" and l: "l < length (w_legs w)"
  shows "call_inv (upd_leg l (\<lambda>x. fst (Answer now x)) w)"
proof (cases "leg_state (w_legs w ! l) = LegStateAnswered")
  case True
  hence "fst (Answer now (w_legs w ! l)) = w_legs w ! l" by (simp add: Answer_def)
  thus ?thesis using inv by (simp add: upd_leg_def)
next
  case False
  have "\<forall>b < length (w_bridges w). cb_state (w_bridges w ! b) = BridgeStateActive \<longrightarrow>
     cb_legA (w_bridges w ! b) \<noteq> l \<and> cb_legB (w_bridges w ! b) \<noteq> l"
    using call_invD(2) [OF inv] False by (auto simp: bridged_def bridge_attached_def Let_def)
  thus ?thesis by (rule call_inv_only_leg [OF inv only_leg_upd [OF keeps_callbacks_ops(9) only_leg_refl], rotated 2]) simp_all
qed

lemma call_inv_adopt:
  "call_inv w \<Longrightarrow> NewInboundLeg us uuid now dlgp sid td = Inr x \<Longrightarrow> call_inv (w\<lparr>w_legs := w_legs w @ [x]\<rparr>)"
  by (rule call_inv_append) (auto dest!: NewInboundLeg_callbacks simp: ids_ok_def callbacks_def)

lemma call_inv_inviteEvent:
  assumes "call_inv w" and "\<forall>br \<in> set (w_bridges w). cb_legA br \<noteq> l \<and> cb_legB br \<noteq> l"
  shows "call_inv (fst (inviteLoop env um l invite evs w))"
  by (rule call_inv_only_leg [OF assms(1) only_leg_inviteLoop [OF only_leg_refl]]) (use assms(2) in simp_all)

lemma call_step_inv: "call_step w w' \<Longrightarrow> call_inv w \<Longrightarrow> call_inv w'"
proof (induction rule: call_step.induct)
  case (elsewhere w p m)
  thus ?case using call_inv_cong [of "w\<lparr>w_dm := m, w_pool := p\<rparr>" w] by simp
next
  case (cleanup w env l)
  thus ?case using call_inv_cong [of "destroyMediaSession env l w" w] by (simp add: destroyMediaSession_def Let_def)
qed (blast intro: call_inv_adopt call_inv_answer call_inv_originate call_inv_inviteEvent call_inv_NewBridge call_inv_Start
       call_inv_hangup call_inv_stop)+

lemma call_reachable_inv: "call_reachable w \<Longrightarrow> call_inv w"
proof (induction rule: call_reachable.induct)
  case (init w)
  thus ?case by (simp add: call_inv_def call_wf_def bridged_def registered_def)
qed (rule call_step_inv)

lemma NewBridge_bridges: "b < length (w_bridges w) \<Longrightarrow> w_bridges (fst (NewBridge uuid now x y tr ah w)) ! b = w_bridges w ! b"
  by (simp add: NewBridge_def Let_def nth_append split: option.split)

lemma Start_terminated:
  "cb_state (w_bridges w ! k) = BridgeStateTerminated \<Longrightarrow> w_bridges (fst (Bridge_Start listen uuid rpc now b w)) ! k = w_bridges w ! k"
  by (cases "k = b") (auto simp: Bridge_Start_def upd_bridge_def Let_def split: prod.split sum.split)

lemma hangup_terminated:
  assumes "call_inv w" "is_range (be_cbOrd env)" "l < length (w_legs w)" "Leg_Hangup n env l c w = Some w'"
    "k < length (w_bridges w)" "cb_state (w_bridges w ! k) = BridgeStateTerminated"
  shows "w_bridges w' ! k = w_bridges w ! k"
  using hangup.hang_spec [OF assms(2) call_invD(1) [OF assms(1)] assms(3,4)] assms(5,6)
  by (auto simp: call_evolves_def bridges_evolve_def bridge_evolves_def)

lemma stop_terminated:
  assumes inv: "call_inv w" and env: "is_range (be_cbOrd env)" and b: "b < length (w_bridges w)"
    and run: "Bridge_Stop (Leg_Hangup n env) env b h w = Some w'"
    and k: "k < length (w_bridges w)" "cb_state (w_bridges w ! k) = BridgeStateTerminated"
  shows "w_bridges w' ! k = w_bridges w ! k"
proof (cases "cb_state (w_bridges w ! b) = BridgeStateTerminated")
  case False
  hence "bridges_evolve {b} w w'" by (rule hangup.Bridge_Stop_spec(2) [OF env call_invD(1) [OF inv] b _ run])
  moreover have "k \<noteq> b" using False k by blast
  ultimately show ?thesis using k by (auto simp: bridges_evolve_def bridge_evolves_def)
qed (use run in \<open>simp add: Bridge_Stop_def\<close>)

lemma call_step_terminated:
  "call_step w w' \<Longrightarrow> call_inv w \<Longrightarrow> k < length (w_bridges w) \<Longrightarrow> cb_state (w_bridges w ! k) = BridgeStateTerminated \<Longrightarrow>
   w_bridges w' ! k = w_bridges w ! k"
proof (induction rule: call_step.induct)
  case (originate w inp req)
  thus ?case using Originate_frame [of inp req w] by (auto simp: only_leg_def)
next
  case (inviteEvent l w env um invite ev)
  thus ?case using only_leg_inviteLoop [OF only_leg_refl, of w w l env um invite "[ev]"] by (simp add: only_leg_def)
next
  case (hangup env l w n c w')
  thus ?case using hangup_terminated by blast
next
  case (stop env b w n h w')
  thus ?case using stop_terminated by blast
qed (simp_all add: NewBridge_bridges Start_terminated destroyMediaSession_def Let_def)

lemma call_step_bridges: "call_step w w' \<Longrightarrow> call_inv w \<Longrightarrow> length (w_bridges w) \<le> length (w_bridges w')"
proof (induction rule: call_step.induct)
  case (originate w inp req)
  thus ?case using Originate_frame [of inp req w] by (auto simp: only_leg_def)
next
  case (inviteEvent l w env um invite ev)
  thus ?case using only_leg_inviteLoop [OF only_leg_refl, of w w l env um invite "[ev]"] by (simp add: only_leg_def)
next
  case (hangup env l w n c w')
  thus ?case using hangup.hang_spec [OF hangup(1) call_invD(1) hangup(2,3)] call_evolves_length(2) [of w w'] by simp
next
  case (stop env b w n h w')
  show ?case
  proof (cases "cb_state (w_bridges w ! b) = BridgeStateTerminated")
    case False
    thus ?thesis using hangup.Bridge_Stop_spec(2) [OF stop(1) call_invD(1) [OF stop(4)] stop(2) False stop(3)]
      by (simp add: bridges_evolve_def)
  qed (use stop in \<open>simp add: Bridge_Stop_def\<close>)
qed (auto simp: NewBridge_def Bridge_Start_def destroyMediaSession_def Let_def split: prod.split sum.split)

lemma terminated_final:
  "call_step\<^sup>*\<^sup>* w w' \<Longrightarrow> call_inv w \<Longrightarrow> k < length (w_bridges w) \<Longrightarrow> cb_state (w_bridges w ! k) = BridgeStateTerminated \<Longrightarrow>
   call_inv w' \<and> k < length (w_bridges w') \<and> w_bridges w' ! k = w_bridges w ! k"
proof (induction rule: rtranclp_induct)
  case (step y z)
  hence y: "call_inv y" "k < length (w_bridges y)" "w_bridges y ! k = w_bridges w ! k" by simp_all
  show ?case
    using call_step_inv [OF step(2) y(1)] call_step_bridges [OF step(2) y(1)] call_step_terminated [OF step(2) y(1,2)] y step(6)
    by simp
qed simp

section \<open>Properties\<close>

text \<open>
  Property C6. In every reachable state, an active bridge has two answered legs, both of which will tell it
  when they end, and no bridge is left half torn down (state Terminating).
\<close>

theorem active_bridge_has_answered_legs:
  assumes "call_reachable w" and "b < length (w_bridges w)"
  shows "cb_state (w_bridges w ! b) \<noteq> BridgeStateTerminating \<and>
    (cb_state (w_bridges w ! b) = BridgeStateActive \<longrightarrow>
       leg_state (w_legs w ! cb_legA (w_bridges w ! b)) = LegStateAnswered \<and>
       leg_state (w_legs w ! cb_legB (w_bridges w ! b)) = LegStateAnswered \<and>
       BridgeCallback b ''leg_a'' \<in> snd ` set (leg_terminatedCallbacks (w_legs w ! cb_legA (w_bridges w ! b))) \<and>
       BridgeCallback b ''leg_b'' \<in> snd ` set (leg_terminatedCallbacks (w_legs w ! cb_legB (w_bridges w ! b))))"
  using call_invD(2,4) [OF call_reachable_inv [OF assms(1)]] assms(2)
  by (simp add: bridged_def bridge_attached_def callbacks_def Let_def)

text \<open>
  Property C11. \<open>Hangup\<close> returns: the chain of callbacks, bridges and further hang-ups it sets off is never
  deeper than the number of live legs plus one, whatever the callback order; a larger depth gives the same
  result. The leg is then terminal, and a leg that was terminal before is untouched.
\<close>

theorem hangup_terminates:
  assumes reach: "call_reachable w" and env: "is_range (be_cbOrd env)" and l: "l < length (w_legs w)"
  shows "\<exists>w'. (\<forall>n > live_legs w. Leg_Hangup n env l c w = Some w') \<and>
    LegState_IsTerminal (leg_state (w_legs w' ! l)) \<and>
    (\<forall>i < length (w_legs w). LegState_IsTerminal (leg_state (w_legs w ! i)) \<longrightarrow> w_legs w' ! i = w_legs w ! i)"
proof -
  note wf = call_invD(1) [OF call_reachable_inv [OF reach]]
  let ?n = "Suc (live_legs w)"
  obtain w' where run: "Leg_Hangup ?n env l c w = Some w'"
    using hangup.hang_returns [OF env wf l, of ?n c] by blast
  have "Leg_Hangup n env l c w = Some w'" if "n > live_legs w" for n
    using hang_leD [OF Leg_Hangup_le run] that by simp
  moreover have "call_evolves w w' \<and> \<not> leg_alive (w_legs w' ! l)" by (rule hangup.hang_spec [OF env wf l run])
  ultimately show ?thesis
    by (intro exI [of _ w']) (auto simp: leg_alive_def leg_evolves_def call_evolves_def legs_evolve_def)
qed

text \<open>
  Property C5. Hanging up either leg of an active bridge ends the whole call: both legs are destroyed and
  their \<open>done\<close> channels closed, the leg hung up with the given cause and the other one with
  BridgePeer, and the bridge is terminated with cause BridgePeer. (Bridges of calls hang up
  automatically; without that option only the bridge ends.)
\<close>

theorem hangup_ends_call:
  assumes reach: "call_reachable w" and env: "is_range (be_cbOrd env)" and b: "b < length (w_bridges w)"
    and act: "cb_state (w_bridges w ! b) = BridgeStateActive"
    and l: "l = cb_legA (w_bridges w ! b) \<or> l = cb_legB (w_bridges w ! b)" and run: "Leg_Hangup n env l c w = Some w'"
  shows "cb_state (w_bridges w' ! b) = BridgeStateTerminated \<and> cb_done (w_bridges w' ! b) \<and>
    cb_terminationCause (w_bridges w' ! b) = TerminationCauseBridgePeer \<and>
    (cb_autoHangup (w_bridges w ! b) \<longrightarrow>
       (\<forall>i \<in> {cb_legA (w_bridges w ! b), cb_legB (w_bridges w ! b)}.
          leg_state (w_legs w' ! i) = LegStateDestroyed \<and> leg_done (w_legs w' ! i) \<and>
          leg_terminationCause (w_legs w' ! i) = (if i = l then c else TerminationCauseBridgePeer)))"
proof -
  let ?br = "w_bridges w ! b"
  note inv = call_reachable_inv [OF reach]
  note wf = call_invD(1) [OF inv]
  have ends: "cb_legA ?br < length (w_legs w)" "cb_legB ?br < length (w_legs w)" using call_wf_bridge [OF wf b] by simp_all
  hence len: "l < length (w_legs w)" using l by auto
  note spec = hangup.hang_spec [OF env wf len run]
  have ev: "bridge_evolves w' ?br (w_bridges w' ! b)" using spec b by (simp add: call_evolves_def bridges_evolve_def)
  have "cb_state (w_bridges w' ! b) \<noteq> BridgeStateActive"
  proof
    assume still: "cb_state (w_bridges w' ! b) = BridgeStateActive"
    hence same: "w_bridges w' ! b = ?br" using ev by (auto simp: bridge_evolves_def bridge_down_def)
    have "bridge_attached w' b"
      using call_invD(2) [OF call_inv_hangup [OF inv env len run]] still spec b call_evolves_length(2) by (auto simp: bridged_def)
    hence "leg_alive (w_legs w' ! l)" using l same by (auto simp: bridge_attached_def leg_alive_def Let_def)
    thus False using spec by simp
  qed
  hence down: "bridge_down w' (w_bridges w' ! b)" "same_ends ?br (w_bridges w' ! b)"
    "cb_terminationCause (w_bridges w' ! b) = TerminationCauseBridgePeer"
    using ev act by (auto simp: bridge_evolves_def)
  have "leg_state (w_legs w' ! i) = LegStateDestroyed \<and> leg_done (w_legs w' ! i) \<and>
          leg_terminationCause (w_legs w' ! i) = (if i = l then c else TerminationCauseBridgePeer)"
    if auto_h: "cb_autoHangup ?br" and i: "i \<in> {cb_legA ?br, cb_legB ?br}" for i
  proof -
    have i_len: "i < length (w_legs w)" using i ends by auto
    have "leg_state (w_legs w ! i) = LegStateAnswered"
      using call_invD(2) [OF inv] b act i by (auto simp: bridged_def bridge_attached_def Let_def)
    moreover have "leg_state (w_legs w' ! i) \<noteq> LegStateAnswered"
      using down auto_h i by (auto simp: bridge_down_def same_ends_def)
    ultimately have "w_legs w' ! i \<noteq> w_legs w ! i" by auto
    moreover have "leg_evolves (w_legs w ! i) (w_legs w' ! i)" using spec i_len by (simp add: call_evolves_def legs_evolve_def)
    ultimately show ?thesis
      using hangup.hang_causes [OF env wf len run i_len] by (simp add: leg_evolves_def)
  qed
  thus ?thesis using down by (auto simp: bridge_down_def)
qed

text \<open>
  Property C12. \<open>Stop\<close> terminates a bridge for good, whatever happens afterwards, and wakes every waiter that
  fetched its channel before; a waiter that found the bridge running but fetches the channel
  only afterwards waits on the replacement channel, which no later operation closes.
\<close>

theorem stop_wakes_waiters:
  assumes reach: "call_reachable w" and env: "is_range (be_cbOrd env)" and b: "b < length (w_bridges w)"
    and waiting: "wait_check (w_bridges w ! b) = None" and run: "Bridge_Stop (Leg_Hangup n env) env b h w = Some w1"
    and later: "call_step\<^sup>*\<^sup>* w1 w2"
  shows "cb_state (w_bridges w2 ! b) = BridgeStateTerminated \<and> w_bridges w2 ! b = w_bridges w1 ! b \<and>
    wait_check (w_bridges w2 ! b) = Some (cb_terminationCause (w_bridges w1 ! b)) \<and>
    wait_woken (wait_channel (w_bridges w ! b)) (w_bridges w1 ! b) \<and>
    \<not> wait_woken (wait_channel (w_bridges w1 ! b)) (w_bridges w2 ! b)"
proof -
  note inv = call_reachable_inv [OF reach]
  have live: "cb_state (w_bridges w ! b) \<noteq> BridgeStateTerminated" using waiting by (simp add: wait_check_def split: if_splits)
  note spec = hangup.Bridge_Stop_spec [OF env call_invD(1) [OF inv] b live run]
  have "b < length (w_bridges w1)" using spec(2) b by (simp add: bridges_evolve_def)
  hence same: "w_bridges w2 ! b = w_bridges w1 ! b"
    using terminated_final [OF later call_inv_stop [OF inv env b run] _ spec(5)] by simp
  thus ?thesis using spec(5,12) by (simp add: wait_check_def wait_woken_def wait_channel_def)
qed

end
