(* ===== verification/B2b_Originate.thy ===== *)
theory B2b_Originate
  imports B2b_Lifecycle
begin

text \<open>
  The outcomes of \<open>Originator.Originate\<close> (\<open>internal/signaling/b2bua/originator.go\<close>): what a
  successful and a failed attempt leave in the leg, the maps of the originator and the media
  pool.
\<close>

section \<open>Outcomes of placing a call\<close>

text \<open>What the INVITE transaction leaves alone.\<close>

definition invite_frame :: "nat \<Rightarrow> b2b_world \<Rightarrow> b2b_world \<Rightarrow> bool" where
  "invite_frame l w w' \<longleftrightarrow>
     length (w_legs w') = length (w_legs w) \<and> w_origLegs w' = w_origLegs w \<and> w_aToB w' = w_aToB w \<and>
     leg_sessionID (w_legs w' ! l) = leg_sessionID (w_legs w ! l) \<and>
     (pool_reachable (w_pool w) \<longrightarrow> pool_reachable (w_pool w'))"

definition keeps_session :: "(leg \<Rightarrow> leg) \<Rightarrow> bool" where
  "keeps_session f \<longleftrightarrow> (\<forall>x. leg_sessionID (f x) = leg_sessionID x)"

lemma invite_frame_upd: "keeps_session f \<Longrightarrow> l < length (w_legs v) \<Longrightarrow> invite_frame l w v \<Longrightarrow> invite_frame l w (upd_leg l f v)"
  by (simp add: invite_frame_def keeps_session_def upd_leg_nth)

lemma keeps_session_ops [simp]:
  "keeps_session (Leg_TransitionTo now st)" "keeps_session (SetSIPResponse code reason)" "keeps_session (SetTerminationCause c)"
  "keeps_session (SetRemoteMediaEndpoint a p)" "keeps_session (SetOutboundDialogState a b d e f)" "keeps_session (SetDialog us dlgp)"
  "keeps_session (\<lambda>x. SetSIPResponse code reason (Leg_TransitionTo now st x))"
  "keeps_session (\<lambda>x. SetTerminationCause c (SetSIPResponse code reason (Leg_TransitionTo now st x)))"
  "keeps_session (\<lambda>x. SetTerminationCause c (Leg_TransitionTo now st (SetSIPResponse code reason x)))"
  by (auto simp: keeps_session_def Leg_TransitionTo_def notifyStateChange_def SetSIPResponse_def SetTerminationCause_def
      SetRemoteMediaEndpoint_def SetOutboundDialogState_def SetDialog_def copyAddresses_def Let_def split: option.split)

lemma invite_frame_refl: "invite_frame l w w"
  by (simp add: invite_frame_def)

lemma invite_frame_length: "invite_frame l w v \<Longrightarrow> l < length (w_legs w) \<Longrightarrow> l < length (w_legs v)"
  by (simp add: invite_frame_def)

lemma invite_frame_out [simp]: "invite_frame l w (v\<lparr>w_dm := m\<rparr>) = invite_frame l w v" "invite_frame l w (v\<lparr>w_sent := x\<rparr>) = invite_frame l w v"
  by (simp_all add: invite_frame_def)

lemma invite_frame_update:
  "invite_frame l w v \<Longrightarrow> invite_frame l w (v\<lparr>w_pool := fst (Pool_UpdateSessionRemote rpc s ra rp (w_pool v))\<rparr>)"
  using pool_reachable.step pool_step.update by (auto simp: invite_frame_def)

lemma invite_frame_extract:
  "l < length (w_legs v) \<Longrightarrow> invite_frame l w v \<Longrightarrow> invite_frame l w (extractRemoteMedia env um l resp v)"
  by (auto simp: extractRemoteMedia_def Let_def intro!: invite_frame_upd invite_frame_update [where v = "upd_leg l f v" for f, simplified]
      split: option.split list.split)

lemma invite_frame_register: "l < length (w_legs v) \<Longrightarrow> invite_frame l w v \<Longrightarrow> invite_frame l w (registerLegDialog env l invite resp v)"
  by (auto simp: registerLegDialog_def Let_def intro!: invite_frame_upd split: prod.split sum.split)

lemma leg_count_ops [simp]:
  "length (w_legs (extractRemoteMedia env um l resp v)) = length (w_legs v)"
  "length (w_legs (registerLegDialog env l invite resp v)) = length (w_legs v)"
  "w_legs (fst (sendACK env l resp invite v)) = w_legs v"
  by (auto simp: extractRemoteMedia_def registerLegDialog_def sendACK_def Let_def split: option.split list.split prod.split sum.split)

lemma invite_frame_handle2xx:
  assumes "l < length (w_legs v)" "invite_frame l w v"
  shows "invite_frame l w (fst (handle2xx env um l resp invite v))"
  using assms unfolding handle2xx_def Let_def
  by (auto simp: sendACK_def Let_def intro!: invite_frame_upd invite_frame_register invite_frame_extract)

lemma invite_frame_handleResponse:
  assumes "l < length (w_legs v)" "invite_frame l w v"
  shows "invite_frame l w (fst (handleResponse env um l resp invite v))"
  using assms invite_frame_handle2xx [OF assms, of env um resp invite]
  by (auto simp: handleResponse_def handleFailure_def Let_def intro!: invite_frame_upd invite_frame_extract split: prod.split)

lemma invite_frame_CANCEL: "l < length (w_legs v) \<Longrightarrow> invite_frame l w v \<Longrightarrow> invite_frame l w (sendCANCEL env l invite v)"
  "length (w_legs (sendCANCEL env l invite v)) = length (w_legs v)"
  by (simp_all add: sendCANCEL_def Let_def invite_frame_upd)

text \<open>The states of the leg during and after the transaction.\<close>

lemma TransitionTo_state [simp]: "leg_state (Leg_TransitionTo now st x) = st"
  by (simp add: Leg_TransitionTo_def notifyStateChange_def Let_def)

lemma Set_state [simp]:
  "leg_state (SetSIPResponse code reason x) = leg_state x" "leg_state (SetTerminationCause c x) = leg_state x"
  "leg_state (SetRemoteMediaEndpoint a p x) = leg_state x"
  by (simp_all add: SetSIPResponse_def SetTerminationCause_def SetRemoteMediaEndpoint_def)

lemma extract_state: "l < length (w_legs v) \<Longrightarrow> leg_state (w_legs (extractRemoteMedia env um l resp v) ! l) = leg_state (w_legs v ! l)"
  by (auto simp: extractRemoteMedia_def Let_def upd_leg_nth split: option.split list.split)

lemma handleResponse_state:
  assumes "l < length (w_legs v)" and "leg_state (w_legs v ! l) \<noteq> LegStateAnswered" and "handleResponse env um l resp invite v = (v', r)"
  shows "case r of None \<Rightarrow> leg_state (w_legs v' ! l) \<noteq> LegStateAnswered
         | Some res \<Rightarrow> or_Success res \<longleftrightarrow> leg_state (w_legs v' ! l) = LegStateAnswered"
  using assms
  by (auto simp: handleResponse_def handle2xx_def handleFailure_def failed_def answered_def Let_def upd_leg_nth extract_state
      split: if_splits)

lemma inviteLoop_outcome:
  "l < length (w_legs v) \<Longrightarrow> leg_state (w_legs v ! l) \<noteq> LegStateAnswered \<Longrightarrow> invite_frame l w v \<Longrightarrow>
   inviteLoop env um l invite evs v = (v', Some res) \<Longrightarrow>
   invite_frame l w v' \<and> (or_Success res \<longleftrightarrow> leg_state (w_legs v' ! l) = LegStateAnswered)"
proof (induction evs arbitrary: v)
  case (Cons ev evs)
  show ?case
  proof (cases ev)
    case (GotResponse resp)
    obtain u r where u: "handleResponse env um l resp invite v = (u, r)" by fastforce
    have frame: "invite_frame l w u" using invite_frame_handleResponse [OF Cons.prems(1,3), of env um resp invite] u by simp
    note st = handleResponse_state [OF Cons.prems(1,2) u]
    have "l < length (w_legs u)" using frame Cons.prems(1,3) by (simp add: invite_frame_def)
    thus ?thesis using Cons frame st u by (cases r) (auto simp: GotResponse)
  qed (use Cons.prems in \<open>auto simp: Let_def failed_def answered_def upd_leg_nth invite_frame_CANCEL intro!: invite_frame_upd split: if_splits\<close>)
qed simp

lemma executeINVITE_outcome:
  assumes l: "l < length (w_legs v)" and run: "executeINVITE env um l invite evs v = (v', Some res)"
  shows "invite_frame l v v' \<and> (or_Success res \<longleftrightarrow> leg_state (w_legs v' ! l) = LegStateAnswered)"
proof -
  let ?v = "upd_leg l (Leg_TransitionTo (be_now env) LegStateCreated) v"
  have fr: "invite_frame l v ?v" by (rule invite_frame_upd) (simp_all add: l invite_frame_refl)
  have st: "leg_state (w_legs ?v ! l) = LegStateCreated" using l by (simp add: upd_leg_nth)
  show ?thesis
  proof (cases "be_txOk env ''INVITE'' (leg_callID (w_legs ?v ! l))")
    case True
    hence "inviteLoop env um l invite evs (?v\<lparr>w_sent := w_sent ?v @ [('''', invite)]\<rparr>) = (v', Some res)"
      using run by (simp add: executeINVITE_def Let_def)
    from inviteLoop_outcome [OF _ _ _ this] show ?thesis using l st fr by simp
  next
    case False
    thus ?thesis using run l fr by (auto simp: executeINVITE_def Let_def failed_def upd_leg_nth intro!: invite_frame_upd)
  qed
qed

lemma destroyed_session_gone:
  assumes "pool_reachable p"
  shows "getMemberForSession (fst (Pool_DestroySession ord rpc s reason p)) s = None"
proof (cases "getMemberForSession p s")
  case (Some i)
  obtain t where "pm_transport (pl_members p ! i) = Some t" using owner_transport [OF pool_reachable_inv [OF assms] Some] .
  thus ?thesis by (simp add: Pool_DestroySession_owned [OF Some] getMemberForSession_def)
qed (simp add: Pool_DestroySession_def)

lemma destroyMediaSession_gone:
  assumes "pool_reachable (w_pool w)" and "leg_sessionID (w_legs w ! l) \<noteq> ''''"
  shows "getMemberForSession (w_pool (destroyMediaSession env l w)) (leg_sessionID (w_legs w ! l)) = None"
  using destroyed_session_gone [OF assms(1)] assms(2) by (simp add: destroyMediaSession_def Let_def)

lemma destroyMediaSession_frame [simp]:
  "w_legs (destroyMediaSession env l w) = w_legs w" "w_origLegs (destroyMediaSession env l w) = w_origLegs w"
  "w_aToB (destroyMediaSession env l w) = w_aToB w"
  by (simp_all add: destroyMediaSession_def Let_def)

lemma destroyMediaSession_reachable: "pool_reachable (w_pool w) \<Longrightarrow> pool_reachable (w_pool (destroyMediaSession env l w))"
  using pool_reachable.step pool_step.destroy by (auto simp: destroyMediaSession_def Let_def)

lemma origCreate_reachable:
  "pool_reachable p \<Longrightarrow> env_fresh (oi_createEnv inp) (pool_holds p) \<Longrightarrow> pool_reachable (fst (origCreate inp req p))"
  using pool_reachable.step [OF _ pool_step.create_pending] pool_reachable.step [OF _ pool_step.create_peer]
  by (simp add: origCreate_def Let_def)

definition orig_outcome :: "orig_in \<Rightarrow> originate_request \<Rightarrow> b2b_world \<Rightarrow> b2b_world \<Rightarrow> originate_result \<Rightarrow> bool" where
  "orig_outcome inp req w w' res \<longleftrightarrow>
     (let l = length (w_legs w); x = w_legs w' ! l in
       length (w_legs w') = Suc l \<and> pool_reachable (w_pool w') \<and>
       map_of (w_origLegs w') (oi_callID inp) = Some l \<and> map_of (w_aToB w') (oq_ALegCallID req) = Some (oi_callID inp) \<and>
       (or_Success res \<longleftrightarrow> leg_state x = LegStateAnswered) \<and> (or_Success res \<longrightarrow> or_Leg res = Some l) \<and>
       (\<not> or_Success res \<longrightarrow> leg_sessionID x \<noteq> '''' \<longrightarrow> getMemberForSession (w_pool w') (leg_sessionID x) = None))"

lemma origLeg_fields [simp]: "leg_state (origLeg inp req target) = LegStateCreated" "leg_sessionID (origLeg inp req target) = ''''"
  by (simp_all add: origLeg_def Leg_OnTerminated_def SetTeardownHandler_def NewOutboundLeg_def zero_leg_def Let_def)

lemma origMedia_fields [simp]:
  "w_origLegs (origMedia l s w) = w_origLegs w" "w_aToB (origMedia l s w) = w_aToB w" "w_pool (origMedia l s w) = w_pool w"
  "length (w_legs (origMedia l s w)) = length (w_legs w)"
  by (simp_all add: origMedia_def)

lemma origFinish_outcome:
  assumes l: "l = length (w_legs w)" and v: "length (w_legs v) = Suc l" "pool_reachable (w_pool v)"
    "map_of (w_origLegs v) (oi_callID inp) = Some l" "map_of (w_aToB v) (oq_ALegCallID req) = Some (oi_callID inp)"
    and run: "origFinish env l (executeINVITE env um l invite evs v) = (w', Some res)"
  shows "orig_outcome inp req w w' res"
proof -
  obtain u r where u: "executeINVITE env um l invite evs v = (u, Some r)"
    and w': "w' = (if or_Success r then u else destroyMediaSession env l u)" and res: "res = r\<lparr>or_Leg := Some l\<rparr>"
    using run by (auto simp: origFinish_def split: prod.splits option.splits)
  have "invite_frame l v u" and st: "or_Success r \<longleftrightarrow> leg_state (w_legs u ! l) = LegStateAnswered"
    using executeINVITE_outcome [OF _ u] v(1) by simp_all
  hence "length (w_legs u) = Suc l" "pool_reachable (w_pool u)" "map_of (w_origLegs u) (oi_callID inp) = Some l"
    "map_of (w_aToB u) (oq_ALegCallID req) = Some (oi_callID inp)"
    using v by (simp_all add: invite_frame_def)
  thus ?thesis using st destroyMediaSession_gone destroyMediaSession_reachable
    by (simp add: orig_outcome_def Let_def w' res l [symmetric])
qed

lemma originate_with_contacts:
  assumes pool: "pool_reachable (w_pool w)" and fresh: "env_fresh (oi_createEnv inp) (pool_holds (w_pool w))"
    and run: "Originate inp req w = (w', Some res)" and target: "oq_Target req = Some target" "HasContacts target"
  shows "orig_outcome inp req w w' res"
proof -
  let ?env = "oi_env inp" and ?l = "length (w_legs w)" and ?w1 = "origStored inp req target w"
  obtain p r where cr: "origCreate inp req (w_pool w) = (p, r)" by fastforce
  have p: "pool_reachable p" using origCreate_reachable [OF pool fresh, of req] cr by simp
  have maps: "map_of (w_origLegs ?w1) (oi_callID inp) = Some ?l" "map_of (w_aToB ?w1) (oq_ALegCallID req) = Some (oi_callID inp)"
    by (simp_all add: origStored_def)
  note run = run [unfolded Originate_steps [OF target] Let_def cr]
  show ?thesis
  proof (cases r)
    case (Inl err)
    thus ?thesis using run p maps by (auto simp: orig_outcome_def Let_def failed_def)
  next
    case (Inr session)
    let ?w2 = "origMedia ?l session (?w1\<lparr>w_pool := p\<rparr>)"
    have w2: "length (w_legs ?w2) = Suc ?l" "pool_reachable (w_pool ?w2)"
      "map_of (w_origLegs ?w2) (oi_callID inp) = Some ?l" "map_of (w_aToB ?w2) (oq_ALegCallID req) = Some (oi_callID inp)"
      using p maps by simp_all
    show ?thesis
    proof (cases "buildINVITE (be_parseUri ?env) (w_cfg ?w2) (w_legs ?w2 ! ?l) (rc_URI (PrimaryContact target)) (oi_tag inp) req (sr_SDPBody session)")
      case None
      have st: "leg_state (w_legs ?w2 ! ?l) = LegStateCreated"
        by (simp add: origMedia_def upd_leg_nth Leg_SetMediaEndpoint_def Leg_SetSessionID_def nth_append)
      have "w' = destroyMediaSession ?env ?l ?w2" "\<not> or_Success res" using run None Inr by (auto simp: failed_def)
      thus ?thesis using w2 st destroyMediaSession_gone destroyMediaSession_reachable by (simp add: orig_outcome_def Let_def)
    next
      case (Some invite)
      hence "origFinish ?env ?l (executeINVITE ?env (oi_unmarshal inp) ?l invite (oi_events inp) ?w2) = (w', Some res)"
        using run Inr by simp
      from origFinish_outcome [OF refl w2 this] show ?thesis .
    qed
  qed
qed


section \<open>A bridged call\<close>

text \<open>
  The caller of \<open>call1\<close> has the session \<open>a\<close>; the B-leg \<open>c2\<close> is placed on the same manager, rings and
  is answered; the two legs are bridged.
\<close>

definition ex_benv :: b2b_env where
  "ex_benv = \<lparr>be_uriString = uri_User, be_parseUri = (\<lambda>s. Some (ex_uri s)), be_now = 5, be_txOk = (\<lambda>_ _. True), be_dmSession = True,
     be_dmTx = True, be_rpc = (\<lambda>_. Delivered), be_unbridge = (\<lambda>_. Delivered), be_ordS = id, be_cbOrd = id\<rparr>"

definition ex_target :: lookup_result where
  "ex_target = projr (Direct_Resolve ''sip:bob@10.0.0.7:5060'')"

definition ex_oreq :: originate_request where
  "ex_oreq = \<lparr>oq_Target = Some ex_target, oq_ALegCallID = ''call1'', oq_ALegSessionID = ''a'', oq_CallerID = ''100'',
     oq_CallerName = '''', oq_Codecs = [''0'']\<rparr>"

definition ex_resp :: "int \<Rightarrow> sip_response" where
  "ex_resp code = \<lparr>rs_StatusCode = code, rs_Reason = ''OK'', rs_Headers = [ToHeader (ex_addr ''bob'' ''tb''),
     ContactHeader (ex_addr ''bob'' ''tb'')], rs_Body = None, rs_Source = ''10.0.0.7:5060''\<rparr>"

definition ex_oin :: "invite_event list \<Rightarrow> orig_in" where
  "ex_oin evs = \<lparr>oi_env = ex_benv, oi_unmarshal = (\<lambda>_. None), oi_uuid = ''u2'', oi_callID = ''c2'', oi_tag = ''t2'',
     oi_createRpc = Delivered, oi_createEnv = ex_cenv ''b'', oi_events = evs\<rparr>"

definition ex_w0 :: b2b_world where
  "ex_w0 = \<lparr>w_legs = [], w_bridges = [], w_origLegs = [], w_aToB = [], w_cfg = \<lparr>oc_AdvertiseAddr = ''pbx'', oc_Port = 5060\<rparr>,
     w_dm = ex_dm4, w_pool = ex_p1, w_sent = []\<rparr>"

definition ex_legA :: leg where
  "ex_legA = projr (NewInboundLeg uri_User ''u1'' 4 (Some (0, dlg_at ex_dm4 0)) ''a'' (Some (SessionTeardown ''call1'' 0)))"

definition ex_w1 :: b2b_world where
  "ex_w1 = ex_w0\<lparr>w_legs := [ex_legA]\<rparr>"

definition ex_answered :: "invite_event list" where
  "ex_answered = [GotResponse (ex_resp 180), GotResponse (ex_resp 200)]"

definition ex_w2 :: b2b_world where
  "ex_w2 = fst (Originate (ex_oin ex_answered) ex_oreq ex_w1)"

definition ex_w3 :: b2b_world where
  "ex_w3 = fst (NewBridge ''u3'' 6 (Some 0) (Some 1) False True ex_w2)"

definition ex_w4 :: b2b_world where
  "ex_w4 = fst (Bridge_Start (\<lambda>_ _. True) ''u4'' Delivered 7 0 ex_w3)"

lemma ex_legA_eval:
  "NewInboundLeg uri_User ''u1'' 4 (Some (0, dlg_at ex_dm4 0)) ''a'' (Some (SessionTeardown ''call1'' 0)) = Inr ex_legA"
  "leg_state ex_legA = LegStateAnswered" "leg_callbackIDCounter ex_legA = 0" "leg_terminatedCallbacks ex_legA = []"
  by (simp_all add: ex_legA_def NewInboundLeg_def dlg_at_def ex_dm_4 SetInviteResponse_def SetSession_def NewDialog_def GetMediaEndpoint_def
      ex_ok_def ex_invite_def ex_addr_def copyAddresses_def zero_leg_def Let_def)

lemma ex_target_eval: "HasContacts ex_target" "oq_Target ex_oreq = Some ex_target"
  by (simp_all add: ex_target_def Direct_Resolve_def Direct_CanResolve_def HasPrefix_def HasContacts_def ex_oreq_def)

lemma ex_create: "origCreate (ex_oin evs) ex_oreq ex_p1 = (ex_p2, Inr ex_r2)"
  by (simp add: origCreate_def ex_oin_def ex_oreq_def ex_p2_eval Let_def)

lemma ex_originate: "\<exists>res. Originate (ex_oin ex_answered) ex_oreq ex_w1 = (ex_w2, Some res) \<and> or_Success res"
proof -
  have inv: "buildINVITE (be_parseUri ex_benv) cfg x uri tag req sdp = None \<longleftrightarrow> False" for cfg x uri tag sdp req
    by (simp add: buildINVITE_def ex_benv_def)
  have ex: "snd (executeINVITE ex_benv um l invite ex_answered w) = Some (answered 200)" for um l invite w
    by (simp add: executeINVITE_def ex_answered_def handleResponse_def handle2xx_def ex_resp_def ex_benv_def Let_def)
  have fin: "snd (origFinish env l r) = map_option (\<lambda>res. res\<lparr>or_Leg := Some l\<rparr>) (snd r)" for env l r
    by (auto simp: origFinish_def split: prod.split option.split)
  have env: "oi_env (ex_oin ex_answered) = ex_benv" "oi_events (ex_oin ex_answered) = ex_answered" "w_pool ex_w1 = ex_p1"
    by (simp_all add: ex_oin_def ex_w1_def ex_w0_def)
  have "snd (Originate (ex_oin ex_answered) ex_oreq ex_w1) = Some ((answered 200)\<lparr>or_Leg := Some (length (w_legs ex_w1))\<rparr>)"
    unfolding Originate_steps [OF ex_target_eval(2,1)] Let_def env ex_create
    by (auto simp: fin ex inv split: option.split)
  thus ?thesis by (simp add: ex_w2_def prod_eq_iff answered_def)
qed

lemma ex_fresh: "pool_reachable (w_pool ex_w1)" "env_fresh (oi_createEnv (ex_oin evs)) (pool_holds (w_pool ex_w1))"
  by (simp_all add: ex_w1_def ex_w0_def ex_p1_reachable ex_oin_def ex_cenv_fresh)

lemma ex_w2_eval:
  "length (w_legs ex_w2) = 2" "w_legs ex_w2 ! 0 = ex_legA" "leg_state (w_legs ex_w2 ! 1) = LegStateAnswered"
  "leg_callbackIDCounter (w_legs ex_w2 ! 1) = 1" "w_bridges ex_w2 = []"
proof -
  obtain res where run: "Originate (ex_oin ex_answered) ex_oreq ex_w1 = (ex_w2, Some res)" "or_Success res"
    using ex_originate by blast
  have len: "length (w_legs ex_w1) = 1" by (simp add: ex_w1_def)
  have out: "orig_outcome (ex_oin ex_answered) ex_oreq ex_w1 ex_w2 res"
    by (rule originate_with_contacts [OF ex_fresh run(1) ex_target_eval(2,1)])
  thus "length (w_legs ex_w2) = 2" "leg_state (w_legs ex_w2 ! 1) = LegStateAnswered"
    using run(2) by (simp_all add: orig_outcome_def Let_def len)
  have "only_leg 1 (ex_w1\<lparr>w_legs := w_legs ex_w1 @ [origLeg (ex_oin ex_answered) ex_oreq ex_target]\<rparr>) ex_w2"
    using Originate_frame [of "ex_oin ex_answered" ex_oreq ex_w1] out len
    by (auto simp: orig_outcome_def Let_def ex_w2_def [symmetric] ex_target_eval)
  thus "w_legs ex_w2 ! 0 = ex_legA" "leg_callbackIDCounter (w_legs ex_w2 ! 1) = 1" "w_bridges ex_w2 = []"
    by (auto simp: only_leg_def ex_w1_def ex_w0_def origLeg_def Leg_OnTerminated_def SetTeardownHandler_def NewOutboundLeg_def
        zero_leg_def Let_def nth_append)
qed

lemma ex_w3_reachable: "call_reachable ex_w2" "call_reachable ex_w3"
proof -
  have "call_reachable ex_w0" by (rule call_reachable.init) (simp_all add: ex_w0_def)
  hence "call_reachable ex_w1"
    using call_reachable.step [OF _ call_step.adopt [OF ex_legA_eval(1), of ex_w0]] by (simp add: ex_w1_def ex_w0_def)
  thus two: "call_reachable ex_w2"
    unfolding ex_w2_def by (rule call_reachable.step) (rule call_step.originate)
  have "\<forall>x \<in> set (w_legs ex_w2). unat (leg_callbackIDCounter x) + 2 < 2 ^ 64"
    using ex_w2_eval by (auto simp: all_set_conv_all_nth less_2_cases_iff ex_legA_eval)
  thus "call_reachable ex_w3"
    unfolding ex_w3_def by (intro call_reachable.step [OF two] call_step.bridge) (simp_all add: ex_w2_eval)
qed

lemma ex_w4_reachable: "call_reachable ex_w4"
proof -
  have "0 < length (w_bridges ex_w3)" by (simp add: ex_w3_def NewBridge_def Let_def)
  thus ?thesis unfolding ex_w4_def by (intro call_reachable.step [OF ex_w3_reachable(2)] call_step.start)
qed

lemma ex_w4_eval:
  "length (w_bridges ex_w4) = 1" "length (w_legs ex_w4) = 2" "cb_state (w_bridges ex_w4 ! 0) = BridgeStateActive"
  "cb_legA (w_bridges ex_w4 ! 0) = 0" "cb_legB (w_bridges ex_w4 ! 0) = 1" "cb_autoHangup (w_bridges ex_w4 ! 0)"
  using ex_w2_eval
  by (simp_all add: ex_w4_def ex_w3_def NewBridge_def Bridge_Start_def Let_def upd_leg_nth ex_legA_eval upd_bridge_def)

lemma ex_w4_live: "live_legs ex_w4 \<le> 2"
  using length_filter_le [of leg_alive "w_legs ex_w4"] by (simp add: live_legs_def ex_w4_eval)

lemma ex_benv_range: "is_range (be_cbOrd ex_benv)"
  by (simp add: ex_benv_def is_range_def)

lemma ex_hangup: "\<exists>w'. Leg_Hangup 3 ex_benv 0 TerminationCauseRemoteBYE ex_w4 = Some w'"
  using hangup.hang_returns [OF ex_benv_range call_invD(1) [OF call_reachable_inv [OF ex_w4_reachable]], of 0 3] ex_w4_live
  by (simp add: ex_w4_eval)

theorem active_bridge_has_answered_legs_witness:
  "cb_state (w_bridges ex_w4 ! 0) = BridgeStateActive \<and> leg_state (w_legs ex_w4 ! 0) = LegStateAnswered \<and>
   leg_state (w_legs ex_w4 ! 1) = LegStateAnswered"
  using active_bridge_has_answered_legs [OF ex_w4_reachable, of 0] by (simp add: ex_w4_eval)

theorem hangup_terminates_witness:
  "\<exists>w'. Leg_Hangup 3 ex_benv 0 TerminationCauseRemoteBYE ex_w4 = Some w' \<and> LegState_IsTerminal (leg_state (w_legs w' ! 0))"
  using hangup_terminates [OF ex_w4_reachable ex_benv_range, of 0 TerminationCauseRemoteBYE] ex_w4_live
  by (auto simp: ex_w4_eval simp del: Leg_Hangup.simps)

theorem hangup_ends_call_witness:
  "\<exists>w'. Leg_Hangup 3 ex_benv 0 TerminationCauseRemoteBYE ex_w4 = Some w' \<and>
     cb_state (w_bridges w' ! 0) = BridgeStateTerminated \<and> leg_state (w_legs w' ! 1) = LegStateDestroyed \<and>
     leg_terminationCause (w_legs w' ! 0) = TerminationCauseRemoteBYE \<and> leg_terminationCause (w_legs w' ! 1) = TerminationCauseBridgePeer"
proof -
  obtain w' where run: "Leg_Hangup 3 ex_benv 0 TerminationCauseRemoteBYE ex_w4 = Some w'" using ex_hangup by blast
  show ?thesis
    using hangup_ends_call [OF ex_w4_reachable ex_benv_range _ _ _ run, of 0] run by (simp add: ex_w4_eval)
qed


theorem stop_wakes_waiters_witness:
  "\<exists>w'. Bridge_Stop (Leg_Hangup 3 ex_benv) ex_benv 0 True ex_w4 = Some w' \<and> wait_check (w_bridges ex_w4 ! 0) = None \<and>
     wait_woken (wait_channel (w_bridges ex_w4 ! 0)) (w_bridges w' ! 0) \<and>
     \<not> wait_woken (wait_channel (w_bridges w' ! 0)) (w_bridges w' ! 0)"
proof -
  have "Bridge_Stop (Leg_Hangup 3 ex_benv) ex_benv 0 True ex_w4 \<noteq> None"
    by (rule hangup.Bridge_Stop_returns [OF ex_benv_range call_invD(1) [OF call_reachable_inv [OF ex_w4_reachable]]])
      (use ex_w4_live in \<open>simp_all add: ex_w4_eval\<close>)
  then obtain w' where run: "Bridge_Stop (Leg_Hangup 3 ex_benv) ex_benv 0 True ex_w4 = Some w'" by blast
  have check: "wait_check (w_bridges ex_w4 ! 0) = None" by (simp add: wait_check_def ex_w4_eval)
  show ?thesis
    using stop_wakes_waiters [OF ex_w4_reachable ex_benv_range _ check run rtranclp.rtrancl_refl] run check by (simp add: ex_w4_eval)
qed

end
