(* ===== verification/B2b_Service.thy ===== *)
theory B2b_Service
  imports B2b_Originate
begin

text \<open>
  \<open>internal/signaling/b2bua/call_service.go\<close> and \<open>errors.go\<close>: the facade the dialplan uses to
  dial a target and bridge it to the caller.

  \<open>DialAndBridge\<close> blocks for the whole call; it is split at the wait: \<open>DialAndBridge\<close> up to the
  started bridge, \<open>DialAndBridge_resume\<close> from the wake-up on.
\<close>

section \<open>Options and errors\<close>

record leg_options =
  lo_callerID :: string
  lo_callerName :: string
  lo_onTeardown :: "teardown_handler option"
  lo_aLegSessionID :: string
  lo_aLegCallID :: string

type_synonym leg_option = "leg_options \<Rightarrow> leg_options"

definition WithCallerID :: "string \<Rightarrow> leg_option" where
  "WithCallerID callerID opt = opt\<lparr>lo_callerID := callerID\<rparr>"

definition WithCallerName :: "string \<Rightarrow> leg_option" where
  "WithCallerName callerName opt = opt\<lparr>lo_callerName := callerName\<rparr>"

definition WithTeardownHandler :: "teardown_handler option \<Rightarrow> leg_option" where
  "WithTeardownHandler fn opt = opt\<lparr>lo_onTeardown := fn\<rparr>"

definition WithALegSessionID :: "string \<Rightarrow> leg_option" where
  "WithALegSessionID sessionID opt = opt\<lparr>lo_aLegSessionID := sessionID\<rparr>"

definition WithALegCallID :: "string \<Rightarrow> leg_option" where
  "WithALegCallID callID opt = opt\<lparr>lo_aLegCallID := callID\<rparr>"

definition applyOptions :: "leg_option list \<Rightarrow> leg_options" where
  "applyOptions opts =
     fold (\<lambda>f x. f x) opts \<lparr>lo_callerID = '''', lo_callerName = '''', lo_onTeardown = None, lo_aLegSessionID = '''', lo_aLegCallID = ''''\<rparr>"

text \<open>
  The causes a \<open>DialError\<close> can wrap. \<open>ErrDialTimeout\<close> is declared, but nothing ever returns it.
\<close>

datatype dial_cause = CauseNoContacts | CauseErrDialTimeout | CauseOriginate orig_error | CauseLeg leg_error

record dial_error =
  de_Target :: string
  de_ResolvedURI :: string
  de_SIPCode :: int
  de_SIPReason :: string
  de_Cause :: "dial_cause option"

definition IsTimeout :: "dial_error \<Rightarrow> bool" where
  "IsTimeout e \<longleftrightarrow> de_Cause e = Some CauseErrDialTimeout"

definition IsRejected :: "dial_error \<Rightarrow> bool" where
  "IsRejected e \<longleftrightarrow> 400 \<le> de_SIPCode e \<and> de_SIPCode e < 700"

definition IsBusy :: "dial_error \<Rightarrow> bool" where
  "IsBusy e \<longleftrightarrow> de_SIPCode e = 486"

definition IsUnavailable :: "dial_error \<Rightarrow> bool" where
  "IsUnavailable e \<longleftrightarrow> de_SIPCode e = 480"

datatype service_error =
    LookupErr lookup_error
  | DialErr dial_error
  | NoContactsErr
  | LegNotAnsweredErr
  | BridgeErr bridge_call_error
  | ErrNotImplemented

section \<open>The service\<close>

record call_service =
  cs_resolver :: "resolver option"
  cs_transport :: bool
  cs_DefaultDialTimeout :: duration

definition NewCallService :: "resolver option \<Rightarrow> bool \<Rightarrow> duration \<Rightarrow> call_service" where
  "NewCallService rslv transport timeout =
     \<lparr>cs_resolver = rslv, cs_transport = transport, cs_DefaultDialTimeout = (if timeout = 0 then secs 30 else timeout)\<rparr>"

definition Service_Lookup :: "call_service \<Rightarrow> string \<Rightarrow> lookup_error + lookup_result" where
  "Service_Lookup s target =
     (case cs_resolver s of
        None \<Rightarrow> Inl \<lparr>le_Target = target, le_Reason = ''no resolver configured'', le_Cause = Some ErrTargetNotFound\<rparr>
      | Some r \<Rightarrow> rv_Resolve r target)"

definition AdoptInboundLeg ::
  "uri_string \<Rightarrow> string \<Rightarrow> time \<Rightarrow> (nat \<times> dialog) option \<Rightarrow> string \<Rightarrow> leg_option list \<Rightarrow> b2b_world \<Rightarrow> b2b_world \<times> (leg_error + nat)" where
  "AdoptInboundLeg uriString uuid now dlgp sessionID opts w =
     (case NewInboundLeg uriString uuid now dlgp sessionID (lo_onTeardown (applyOptions opts)) of
        Inl err \<Rightarrow> (w, Inl err)
      | Inr l \<Rightarrow> (w\<lparr>w_legs := w_legs w @ [l]\<rparr>, Inr (length (w_legs w))))"

definition dialFailure :: "string \<Rightarrow> string \<Rightarrow> originate_result \<Rightarrow> dial_error" where
  "dialFailure target uri result =
     \<lparr>de_Target = target, de_ResolvedURI = uri, de_SIPCode = or_SIPCode result, de_SIPReason = or_SIPReason result,
      de_Cause = map_option CauseOriginate (or_Error result)\<rparr>"

text \<open>\<open>None\<close>: \<open>Originate\<close> is still waiting for an answer.\<close>

definition CreateOutboundLeg :: "orig_in \<Rightarrow> lookup_result option \<Rightarrow> b2b_world \<Rightarrow> b2b_world \<times> (service_error + nat option) option" where
  "CreateOutboundLeg inp target w =
     (case target of
        None \<Rightarrow> (w, Some (Inl NoContactsErr))
      | Some t \<Rightarrow>
          if \<not> HasContacts t then (w, Some (Inl NoContactsErr))
          else
            (case Originate inp \<lparr>oq_Target = Some t, oq_ALegCallID = '''', oq_ALegSessionID = '''', oq_CallerID = '''',
                     oq_CallerName = '''', oq_Codecs = [''0'']\<rparr> w of
               (w', None) \<Rightarrow> (w', None)
             | (w', Some result) \<Rightarrow>
                 if \<not> or_Success result then (w', Some (Inl (DialErr (dialFailure (lr_Original t) '''' result))))
                 else (w', Some (Inr (or_Leg result)))))"

definition CreateBridge ::
  "call_service \<Rightarrow> string \<Rightarrow> time \<Rightarrow> nat option \<Rightarrow> nat option \<Rightarrow> bool \<Rightarrow> b2b_world \<Rightarrow> b2b_world \<times> (bridge_call_error + nat)" where
  "CreateBridge s uuid now legA legB autoHangup w = NewBridge uuid now legA legB (cs_transport s) autoHangup w"

text \<open>
  \<open>Dial\<close> gives \<open>Originate\<close> a context that expires after the same timeout with which \<open>executeINVITE\<close>
  derives its own from it, a moment later. So when the INVITE's context is done, the parent's
  is too.
\<close>

fun parentExpires :: "invite_event \<Rightarrow> invite_event" where
  "parentExpires (DialDone _) = DialDone True"
| "parentExpires ev = ev"

text \<open>\<open>waits\<close>: what \<open>WaitForState\<close> observes after its first look at the leg.\<close>

definition Dial ::
  "nat \<Rightarrow> call_service \<Rightarrow> orig_in \<Rightarrow> wait_event \<Rightarrow> (LegState \<times> wait_event) list \<Rightarrow> string \<Rightarrow> leg_option list \<Rightarrow> b2b_world \<Rightarrow>
   (b2b_world \<times> (service_error + nat) option) option" where
  "Dial n s inp ev waits target opts w =
     (let legOpts = applyOptions opts in
      case Service_Lookup s target of
        Inl err \<Rightarrow> Some (w, Some (Inl (LookupErr err)))
      | Inr result \<Rightarrow>
          if \<not> HasContacts result then
            Some (w, Some (Inl (DialErr \<lparr>de_Target = target, de_ResolvedURI = '''', de_SIPCode = 0, de_SIPReason = '''',
              de_Cause = Some CauseNoContacts\<rparr>)))
          else
            (case Originate (inp\<lparr>oi_events := map parentExpires (oi_events inp)\<rparr>)
                    \<lparr>oq_Target = Some result, oq_ALegCallID = lo_aLegCallID legOpts, oq_ALegSessionID = lo_aLegSessionID legOpts,
                     oq_CallerID = lo_callerID legOpts, oq_CallerName = lo_callerName legOpts, oq_Codecs = [''0'']\<rparr> w of
               (w1, None) \<Rightarrow> Some (w1, None)
             | (w1, Some orig) \<Rightarrow>
                 if \<not> or_Success orig
                 then Some (w1, Some (Inl (DialErr (dialFailure target (rc_URI (PrimaryContact result)) orig))))
                 else
                   let l = the (or_Leg orig) in
                   (case WaitForState LegStateAnswered ((leg_state (w_legs w1 ! l), ev) # waits) of
                      None \<Rightarrow> Some (w1, None)
                    | Some None \<Rightarrow> Some (w1, Some (Inr l))
                    | Some (Some err) \<Rightarrow>
                        map_option (\<lambda>w2. (w2, Some (Inl (DialErr \<lparr>de_Target = target, de_ResolvedURI = rc_URI (PrimaryContact result),
                            de_SIPCode = 0, de_SIPReason = '''', de_Cause = Some (CauseLeg err)\<rparr>))))
                          (Leg_Hangup n (oi_env inp) l TerminationCauseError w1))))"

record bridge_in =
  bi_uuid :: string
  bi_listen :: udp_listen
  bi_mediaUuid :: string
  bi_rpc :: rpc
  bi_now :: time

definition DialAndBridge ::
  "nat \<Rightarrow> call_service \<Rightarrow> orig_in \<Rightarrow> wait_event \<Rightarrow> (LegState \<times> wait_event) list \<Rightarrow> bridge_in \<Rightarrow> nat \<Rightarrow> string \<Rightarrow> leg_option list \<Rightarrow>
   b2b_world \<Rightarrow> (b2b_world \<times> (service_error + nat) option) option" where
  "DialAndBridge n s inp ev waits bin legA target opts w =
     (let a = w_legs w ! legA in
      if leg_state a \<noteq> LegStateAnswered then Some (w, Some (Inl LegNotAnsweredErr))
      else
        Option.bind (Dial n s inp ev waits target ([WithALegSessionID (leg_sessionID a), WithALegCallID (leg_callID a)] @ opts) w)
          (\<lambda>r. case r of
             (w1, None) \<Rightarrow> Some (w1, None)
           | (w1, Some (Inl err)) \<Rightarrow> Some (w1, Some (Inl err))
           | (w1, Some (Inr legB)) \<Rightarrow>
               (case CreateBridge s (bi_uuid bin) (bi_now bin) (Some legA) (Some legB) True w1 of
                  (w2, Inl err) \<Rightarrow>
                    map_option (\<lambda>w3. (w3, Some (Inl (BridgeErr err)))) (Leg_Hangup n (oi_env inp) legB TerminationCauseError w2)
                | (w2, Inr b) \<Rightarrow>
                    (case Bridge_Start (bi_listen bin) (bi_mediaUuid bin) (bi_rpc bin) (bi_now bin) b w2 of
                       (w3, Some err) \<Rightarrow>
                         map_option (\<lambda>w4. (w4, Some (Inl (BridgeErr err)))) (Leg_Hangup n (oi_env inp) legB TerminationCauseError w3)
                     | (w3, None) \<Rightarrow> Some (w3, Some (Inr b))))))"

text \<open>
  The wake-up of \<open>WaitForTermination\<close>: \<open>ctxDone\<close> if the context of the A-leg ended it.
\<close>

definition DialAndBridge_resume :: "nat \<Rightarrow> b2b_env \<Rightarrow> nat \<Rightarrow> bool \<Rightarrow> b2b_world \<Rightarrow> (b2b_world \<times> call_bridge) option" where
  "DialAndBridge_resume n env b ctxDone w =
     map_option (\<lambda>w'. (w', w_bridges w' ! b)) (if ctxDone then Bridge_Stop (Leg_Hangup n env) env b True w else Some w)"

definition DialParallel :: "lookup_result list \<Rightarrow> service_error + nat" where
  "DialParallel targets = Inl ErrNotImplemented"

definition Service_HandleIncomingBYE :: "nat \<Rightarrow> b2b_env \<Rightarrow> sip_request \<Rightarrow> b2b_world \<Rightarrow> (b2b_world \<times> bool) option" where
  "Service_HandleIncomingBYE n env req w = Originator_HandleIncomingBYE n env req w"

section \<open>Outcomes of a dial\<close>

lemma parent_fresh [simp]: "oi_createEnv (inp\<lparr>oi_events := e\<rparr>) = oi_createEnv inp" "oi_env (inp\<lparr>oi_events := e\<rparr>) = oi_env inp"
  by simp_all

text \<open>What \<open>Originate\<close> does to the list of legs: at most one new leg.\<close>

definition adds_leg :: "b2b_world \<Rightarrow> b2b_world \<Rightarrow> bool" where
  "adds_leg w w' \<longleftrightarrow> w_bridges w' = w_bridges w \<and>
     (w_legs w' = w_legs w \<or> (\<exists>x. w_legs w' = w_legs w @ [x] \<and> unat (leg_callbackIDCounter x) = 1))"

lemma Originate_adds_leg: "adds_leg w (fst (Originate inp req w))"
proof -
  let ?w' = "fst (Originate inp req w)" and ?l = "length (w_legs w)"
  { fix target assume only: "only_leg ?l (w\<lparr>w_legs := w_legs w @ [origLeg inp req target]\<rparr>) ?w'"
    have "w_legs ?w' = w_legs w @ [w_legs ?w' ! ?l]"
      using only by (intro nth_equalityI) (auto simp: only_leg_def nth_append less_Suc_eq)
    moreover have "unat (leg_callbackIDCounter (w_legs ?w' ! ?l)) = 1"
      using only by (auto simp: only_leg_def origLeg_def Leg_OnTerminated_def SetTeardownHandler_def NewOutboundLeg_def zero_leg_def Let_def nth_append)
    ultimately have "adds_leg w ?w'" using only by (auto simp: adds_leg_def only_leg_def) }
  thus ?thesis using Originate_frame [of inp req w] by (auto simp: adds_leg_def)
qed

lemma Originate_success:
  assumes "pool_reachable (w_pool w)" "env_fresh (oi_createEnv inp) (pool_holds (w_pool w))"
    and "Originate inp req w = (w', Some res)" and "oq_Target req = Some target" "HasContacts target"
  shows "length (w_legs w') = Suc (length (w_legs w))"
    and "or_Success res \<longleftrightarrow> leg_state (w_legs w' ! length (w_legs w)) = LegStateAnswered"
    and "or_Success res \<Longrightarrow> or_Leg res = Some (length (w_legs w))"
  using originate_with_contacts [OF assms] by (simp_all add: orig_outcome_def Let_def)

definition no_answered_leg_added :: "b2b_world \<Rightarrow> b2b_world \<Rightarrow> bool" where
  "no_answered_leg_added w w' \<longleftrightarrow>
     (\<forall>l < length (w_legs w'). length (w_legs w) \<le> l \<longrightarrow> leg_state (w_legs w' ! l) \<noteq> LegStateAnswered)"

lemma Dial_outcome:
  assumes pool: "pool_reachable (w_pool w)" and fresh: "env_fresh (oi_createEnv inp) (pool_holds (w_pool w))"
  shows "\<exists>w1 r. Dial n s inp ev waits target opts w = Some (w1, r) \<and> call_step\<^sup>*\<^sup>* w w1 \<and> adds_leg w w1 \<and>
    (case r of None \<Rightarrow> True
     | Some (Inl err) \<Rightarrow> no_answered_leg_added w w1 \<and> (\<forall>e. err \<noteq> BridgeErr e)
     | Some (Inr l) \<Rightarrow> l = length (w_legs w) \<and> length (w_legs w1) = Suc l \<and> leg_state (w_legs w1 ! l) = LegStateAnswered)"
proof (cases "Service_Lookup s target")
  case (Inl err)
  thus ?thesis by (simp add: Dial_def Let_def adds_leg_def no_answered_leg_added_def)
next
  case (Inr result)
  show ?thesis
  proof (cases "HasContacts result")
    case False
    thus ?thesis using Inr by (simp add: Dial_def Let_def adds_leg_def no_answered_leg_added_def)
  next
    case True
    let ?inp = "inp\<lparr>oi_events := map parentExpires (oi_events inp)\<rparr>" and ?o = "applyOptions opts"
    let ?req = "\<lparr>oq_Target = Some result, oq_ALegCallID = lo_aLegCallID ?o, oq_ALegSessionID = lo_aLegSessionID ?o,
                 oq_CallerID = lo_callerID ?o, oq_CallerName = lo_callerName ?o, oq_Codecs = [''0'']\<rparr>"
    obtain w1 r where run: "Originate ?inp ?req w = (w1, r)" by fastforce
    have step: "call_step\<^sup>*\<^sup>* w w1" using call_step.originate [of w ?inp ?req] run by auto
    have adds: "adds_leg w w1" using Originate_adds_leg [of w ?inp ?req] run by simp
    show ?thesis
    proof (cases r)
      case None
      thus ?thesis using run step adds Inr True by (simp add: Dial_def Let_def)
    next
      case (Some orig)
      note out = Originate_success [OF pool _ run [unfolded Some], of result, simplified, OF fresh True]
      show ?thesis
      proof (cases "or_Success orig")
        case False
        hence "no_answered_leg_added w w1" using out by (auto simp: no_answered_leg_added_def less_Suc_eq)
        thus ?thesis using run step adds Inr True Some False by (simp add: Dial_def Let_def)
      next
        case ok: True
        thus ?thesis using run step adds Inr True Some out
          by (simp add: Dial_def Let_def less_eq_LegState_def)
      qed
    qed
  qed
qed

lemma adds_leg_live: "adds_leg w w' \<Longrightarrow> live_legs w' \<le> Suc (live_legs w)"
  by (auto simp: adds_leg_def live_legs_def)

lemma live_legs_states: "live_legs w = length (filter (\<lambda>st. \<not> LegState_IsTerminal st) (map leg_state (w_legs w)))"
  by (simp add: live_legs_def filter_map comp_def leg_alive_def [abs_def])

lemma NewBridge_states: "map leg_state (w_legs (fst (NewBridge uuid now (Some a) (Some b) tr ah w))) = map leg_state (w_legs w)"
  by (rule nth_equalityI) (simp_all add: NewBridge_def Let_def upd_leg_nth)

lemma Start_legs: "w_legs (fst (Bridge_Start listen mu rpc now b w)) = w_legs w"
  by (simp add: Bridge_Start_def Let_def split: prod.split sum.split)

text \<open>A new bridge between two legs, and the attempt to start it.\<close>

lemma bridge_attempt:
  fixes a b :: nat
  assumes reach: "call_reachable w" and a: "a < length (w_legs w)" and b: "b < length (w_legs w)"
    and ids: "\<forall>x \<in> set (w_legs w). unat (leg_callbackIDCounter x) + 2 < 2 ^ 64"
    and start: "Bridge_Start listen mu rpc now (length (w_bridges w)) (fst (NewBridge uuid now (Some a) (Some b) tr True w)) = (w', e)"
  shows "call_reachable w'" and "map leg_state (w_legs w') = map leg_state (w_legs w)"
    and "length (w_bridges w') = Suc (length (w_bridges w))"
    and "cb_legA (w_bridges w' ! length (w_bridges w)) = a" "cb_legB (w_bridges w' ! length (w_bridges w)) = b"
      "cb_autoHangup (w_bridges w' ! length (w_bridges w))"
    and "e = None \<Longrightarrow> cb_state (w_bridges w' ! length (w_bridges w)) = BridgeStateActive"
proof -
  let ?v = "fst (NewBridge uuid now (Some a) (Some b) tr True w)" and ?b = "length (w_bridges w)"
  have v: "length (w_bridges ?v) = Suc ?b" "cb_legA (w_bridges ?v ! ?b) = a" "cb_legB (w_bridges ?v ! ?b) = b" "cb_autoHangup (w_bridges ?v ! ?b)"
    by (simp_all add: NewBridge_def Let_def)
  have w': "w' = fst (Bridge_Start listen mu rpc now ?b ?v)" using start by simp
  have "call_reachable ?v" by (rule call_reachable.step [OF reach call_step.bridge [OF a b ids]])
  thus "call_reachable w'" unfolding w' by (rule call_reachable.step) (rule call_step.start, simp add: v(1))
  show "map leg_state (w_legs w') = map leg_state (w_legs w)" by (simp add: w' Start_legs NewBridge_states)
  show "length (w_bridges w') = Suc ?b" "cb_legA (w_bridges w' ! ?b) = a" "cb_legB (w_bridges w' ! ?b) = b" "cb_autoHangup (w_bridges w' ! ?b)"
    "e = None \<Longrightarrow> cb_state (w_bridges w' ! ?b) = BridgeStateActive"
    using start v by (auto simp: Bridge_Start_def Let_def upd_bridge_nth split: prod.splits sum.splits if_splits)
qed

lemma bridge_not_active:
  assumes "call_inv w" "b < length (w_bridges w)" "leg_state (w_legs w ! cb_legB (w_bridges w ! b)) \<noteq> LegStateAnswered"
  shows "cb_state (w_bridges w ! b) \<noteq> BridgeStateActive"
  using call_invD(2) [OF assms(1)] assms(2,3) by (auto simp: bridged_def bridge_attached_def Let_def)

text \<open>The end of a failed attempt: the B-leg is hung up.\<close>

lemma failed_attempt:
  assumes inv: "call_inv w" and env: "is_range (be_cbOrd env)" and b: "b < length (w_bridges w)" and l: "l < length (w_legs w)"
    and ends: "cb_legB (w_bridges w ! b) = l" and depth: "live_legs w < n"
  shows "\<exists>w'. Leg_Hangup n env l c w = Some w' \<and> call_step w w' \<and> length (w_legs w') = length (w_legs w) \<and>
    length (w_bridges w') = length (w_bridges w) \<and> leg_state (w_legs w' ! l) \<noteq> LegStateAnswered \<and> cb_state (w_bridges w' ! b) \<noteq> BridgeStateActive"
proof -
  note wf = call_invD(1) [OF inv]
  obtain w' where run: "Leg_Hangup n env l c w = Some w'" using hangup.hang_returns [OF env wf l depth, of c] by blast
  note spec = hangup.hang_spec [OF env wf l run]
  have st: "leg_state (w_legs w' ! l) \<noteq> LegStateAnswered" using spec by (auto simp: leg_alive_def)
  have "same_ends (w_bridges w ! b) (w_bridges w' ! b)"
    using spec b bridge_evolves_ends by (auto simp: call_evolves_def bridges_evolve_def)
  hence "cb_state (w_bridges w' ! b) \<noteq> BridgeStateActive"
    using bridge_not_active [OF call_inv_hangup [OF inv env l run], of b] st ends b call_evolves_length(2) [of w w'] spec
    by (simp add: same_ends_def)
  thus ?thesis using run st call_step.hangup [OF env l run] call_evolves_length [of w w'] spec by simp
qed

text \<open>The second half of \<open>DialAndBridge\<close>: the bridge for the two answered legs.\<close>

lemma bridge_answered:
  assumes adds: "adds_leg w w1" and reach1: "call_reachable w1" and env: "is_range (be_cbOrd (oi_env inp))"
    and legA: "legA < length (w_legs w)" and True: "leg_state (w_legs w ! legA) = LegStateAnswered"
    and ids: "\<forall>x \<in> set (w_legs w). unat (leg_callbackIDCounter x) + 2 < 2 ^ 64" and depth: "Suc (live_legs w) < n"
    and dial: "Dial n s inp ev waits target (WithALegSessionID (leg_sessionID (w_legs w ! legA)) #
                 WithALegCallID (leg_callID (w_legs w ! legA)) # opts) w = Some (w1, Some (Inr (length (w_legs w))))"
    and out: "length (w_legs w1) = Suc (length (w_legs w))" "leg_state (w_legs w1 ! length (w_legs w)) = LegStateAnswered"
  shows "\<exists>w' r. DialAndBridge n s inp ev waits bin legA target opts w = Some (w', Some r) \<and> call_reachable w' \<and>
    (case r of Inl err \<Rightarrow> no_answered_leg_added w w' \<and>
         (\<forall>b < length (w_bridges w'). length (w_bridges w) \<le> b \<longrightarrow> cb_state (w_bridges w' ! b) \<noteq> BridgeStateActive)
     | Inr b \<Rightarrow>
         (let br = w_bridges w' ! b in
          b = length (w_bridges w) \<and> cb_state br = BridgeStateActive \<and> cb_autoHangup br \<and> cb_legA br = legA \<and>
          cb_legB br = length (w_legs w) \<and> leg_state (w_legs w' ! legA) = LegStateAnswered \<and>
          leg_state (w_legs w' ! length (w_legs w)) = LegStateAnswered))"
proof -
  note start = DialAndBridge_def Let_def True dial
  let ?l = "length (w_legs w)" and ?b = "length (w_bridges w)"
  have w1: "length (w_legs w1) = Suc ?l" "leg_state (w_legs w1 ! ?l) = LegStateAnswered" "w_bridges w1 = w_bridges w"
    "leg_state (w_legs w1 ! legA) = LegStateAnswered"
    using out adds True legA by (auto simp: adds_leg_def nth_append)
  have ids1: "\<forall>x \<in> set (w_legs w1). unat (leg_callbackIDCounter x) + 2 < 2 ^ 64"
    using ids adds by (auto simp: adds_leg_def)
  let ?nb = "NewBridge (bi_uuid bin) (bi_now bin) (Some legA) (Some ?l) (cs_transport s) True w1"
  obtain w2 where nb: "?nb = (w2, Inr ?b)" by (simp add: NewBridge_def Let_def w1(3))
  obtain w3 e where st: "Bridge_Start (bi_listen bin) (bi_mediaUuid bin) (bi_rpc bin) (bi_now bin) ?b w2 = (w3, e)" by fastforce
  have bounds: "legA < length (w_legs w1)" "?l < length (w_legs w1)" using w1(1) legA by simp_all
  have st': "Bridge_Start (bi_listen bin) (bi_mediaUuid bin) (bi_rpc bin) (bi_now bin) (length (w_bridges w1)) (fst ?nb) = (w3, e)"
    using st nb w1(3) by simp
  note att = bridge_attempt [OF reach1 bounds ids1 st', unfolded w1(3)]
  have len3: "length (w_legs w3) = Suc ?l" using arg_cong [OF att(2), of length] w1(1) by simp
  have states: "leg_state (w_legs w3 ! i) = leg_state (w_legs w1 ! i)" if "i < length (w_legs w1)" for i
    using arg_cong [OF att(2), of "\<lambda>xs. xs ! i"] that len3 w1(1) by simp
  show ?thesis
  proof (cases e)
    case None
    thus ?thesis using st nb att w1 bounds states by (simp add: start CreateBridge_def)
  next
    case (Some err)
    have "live_legs w3 < n" using att(2) adds_leg_live [OF adds] depth by (simp add: live_legs_states)
    moreover have "?b < length (w_bridges w3)" "?l < length (w_legs w3)" using att(3) len3 w1(3) by simp_all
    ultimately obtain w4 where w4: "Leg_Hangup n (oi_env inp) ?l TerminationCauseError w3 = Some w4" "call_step w3 w4"
      "length (w_legs w4) = length (w_legs w3)" "length (w_bridges w4) = length (w_bridges w3)" 
      "leg_state (w_legs w4 ! ?l) \<noteq> LegStateAnswered" "cb_state (w_bridges w4 ! ?b) \<noteq> BridgeStateActive"
      using failed_attempt [OF call_reachable_inv [OF att(1)] env, of ?b ?l n TerminationCauseError] att(5) w1(3) by auto
    have "DialAndBridge n s inp ev waits bin legA target opts w = Some (w4, Some (Inl (BridgeErr err)))"
      using st nb Some w4(1) w1(3) by (simp add: start CreateBridge_def)
    thus ?thesis using w4 att(3) len3 w1(3) call_reachable.step [OF att(1) w4(2)]
      by (auto simp: no_answered_leg_added_def less_Suc_eq)
  qed
qed

text \<open>
  Property C8. \<open>DialAndBridge\<close> with a depth of the hang-ups beyond the live legs and the new one: no error
  leaves an answered B-leg or an active bridge behind; success means that the caller
  and the new, answered leg are the two ends of a new active bridge that hangs up both.
\<close>

theorem dial_and_bridge_outcomes:
  assumes reach: "call_reachable w" and pool: "pool_reachable (w_pool w)" and fresh: "env_fresh (oi_createEnv inp) (pool_holds (w_pool w))"
    and env: "is_range (be_cbOrd (oi_env inp))" and legA: "legA < length (w_legs w)"
    and ids: "\<forall>x \<in> set (w_legs w). unat (leg_callbackIDCounter x) + 2 < 2 ^ 64" and depth: "Suc (live_legs w) < n"
  shows "\<exists>w' r. DialAndBridge n s inp ev waits bin legA target opts w = Some (w', r) \<and> call_reachable w' \<and>
    (case r of None \<Rightarrow> w_bridges w' = w_bridges w
     | Some (Inl err) \<Rightarrow> no_answered_leg_added w w' \<and>
         (\<forall>b < length (w_bridges w'). length (w_bridges w) \<le> b \<longrightarrow> cb_state (w_bridges w' ! b) \<noteq> BridgeStateActive)
     | Some (Inr b) \<Rightarrow>
         (let br = w_bridges w' ! b in
          b = length (w_bridges w) \<and> cb_state br = BridgeStateActive \<and> cb_autoHangup br \<and> cb_legA br = legA \<and>
          cb_legB br = length (w_legs w) \<and> leg_state (w_legs w' ! legA) = LegStateAnswered \<and>
          leg_state (w_legs w' ! length (w_legs w)) = LegStateAnswered))"
proof (cases "leg_state (w_legs w ! legA) = LegStateAnswered")
  case False
  thus ?thesis using reach by (simp add: DialAndBridge_def no_answered_leg_added_def)
next
  case True
  let ?opts = "WithALegSessionID (leg_sessionID (w_legs w ! legA)) # WithALegCallID (leg_callID (w_legs w ! legA)) # opts"
  obtain w1 r where dial: "Dial n s inp ev waits target ?opts w = Some (w1, r)" and step: "call_step\<^sup>*\<^sup>* w w1"
    and adds: "adds_leg w w1" and out: "case r of None \<Rightarrow> True
     | Some (Inl err) \<Rightarrow> no_answered_leg_added w w1 \<and> (\<forall>e. err \<noteq> BridgeErr e)
     | Some (Inr l) \<Rightarrow> l = length (w_legs w) \<and> length (w_legs w1) = Suc l \<and> leg_state (w_legs w1 ! l) = LegStateAnswered"
    using Dial_outcome [OF pool fresh] by blast
  have reach1: "call_reachable w1"
    using step reach by induction (auto intro: call_reachable.step)
  note start = DialAndBridge_def Let_def True dial
  consider "r = None" | err where "r = Some (Inl err)" | "r = Some (Inr (length (w_legs w)))"
    using out by (auto split: option.splits sum.splits)
  thus ?thesis
  proof cases
    case 1
    thus ?thesis using reach1 adds by (simp add: start adds_leg_def)
  next
    case 2
    thus ?thesis using reach1 adds out by (simp add: start adds_leg_def)
  next
    case 3
    hence dialed: "Dial n s inp ev waits target ?opts w = Some (w1, Some (Inr (length (w_legs w))))"
      and w1: "length (w_legs w1) = Suc (length (w_legs w))" "leg_state (w_legs w1 ! length (w_legs w)) = LegStateAnswered"
      using dial out by simp_all
    show ?thesis
      using bridge_answered [OF adds reach1 env legA True ids depth dialed w1, of bin] by - (elim exE conjE, intro exI conjI, assumption, assumption, simp)
  qed
qed

section \<open>Time-outs\<close>

lemma handleResponse_error: "handleResponse env um l resp invite w = (w', Some res) \<Longrightarrow> or_Error res = None"
  by (auto simp: handleResponse_def handle2xx_def handleFailure_def failed_def answered_def Let_def split: if_splits prod.splits)

lemma inviteLoop_no_deadline:
  "DialDone False \<notin> set evs \<Longrightarrow> inviteLoop env um l invite evs w = (w', Some res) \<Longrightarrow> or_Error res \<noteq> Some DeadlineExceeded"
proof (induction env um l invite evs w rule: inviteLoop.induct)
  case (4 env um l invite resp evs w)
  thus ?case using handleResponse_error by (fastforce split: prod.splits option.splits)
qed (auto simp: Let_def failed_def answered_def split: if_splits)

lemma Originate_no_deadline:
  assumes "DialDone False \<notin> set (oi_events inp)" and "Originate inp req w = (w', Some res)"
    and "oq_Target req = Some target" "HasContacts target"
  shows "or_Error res \<noteq> Some DeadlineExceeded"
proof -
  have exe: "or_Error r \<noteq> Some DeadlineExceeded" if "executeINVITE env um l invite (oi_events inp) v = (v', Some r)" for env um l invite v v' r
    using that inviteLoop_no_deadline [OF assms(1)] by (auto simp: executeINVITE_def failed_def Let_def split: if_splits)
  have fin: "or_Error r \<noteq> Some DeadlineExceeded"
    if "origFinish env l (executeINVITE env um l invite (oi_events inp) v) = (v', Some r)" for env um l invite v v' r
    using that exe by (fastforce simp: origFinish_def split: prod.splits option.splits)
  show ?thesis
    using assms(2) fin unfolding Originate_steps [OF assms(3,4)] Let_def
    by (auto simp: failed_def split: prod.splits sum.splits option.splits)
qed

text \<open>
  A dial that rings until its time-out is not reported as one: no error of \<open>Dial\<close> satisfies
  \<open>IsTimeout\<close>, and none carries the deadline error that \<open>Originate\<close> reports with status 408 for its own
  time-out, because the context of \<open>Dial\<close> expires with it and the attempt counts as cancelled.
\<close>

theorem dial_never_reports_timeout:
  assumes "Dial n s inp ev waits target opts w = Some (w', Some (Inl (DialErr e)))"
  shows "\<not> IsTimeout e \<and> de_Cause e \<noteq> Some (CauseOriginate DeadlineExceeded)"
proof -
  have evs: "DialDone False \<notin> set (oi_events (inp\<lparr>oi_events := map parentExpires (oi_events inp)\<rparr>))"
    by (auto elim!: parentExpires.elims [OF sym])
  show ?thesis
    using assms Originate_no_deadline [OF evs]
    by (auto simp: Dial_def Let_def IsTimeout_def dialFailure_def split: sum.splits if_splits prod.splits option.splits)
qed

section \<open>A dial\<close>

definition ex_service :: call_service where
  "ex_service = NewCallService (Some \<lparr>rv_CanResolve = Direct_CanResolve, rv_Resolve = Direct_Resolve\<rparr>) False 0"

definition ex_bin :: bridge_in where
  "ex_bin = \<lparr>bi_uuid = ''u3'', bi_listen = (\<lambda>_ _. True), bi_mediaUuid = ''u4'', bi_rpc = Delivered, bi_now = 6\<rparr>"

lemma ex_ids: "\<forall>x \<in> set (w_legs ex_w1). unat (leg_callbackIDCounter x) + 2 < 2 ^ 64" "live_legs ex_w1 \<le> 1"
  by (simp_all add: ex_w1_def ex_legA_eval live_legs_def)

lemma ex_service_transport: "\<not> cs_transport ex_service"
  by (simp add: ex_service_def NewCallService_def)

lemma ex_lookup: "Service_Lookup ex_service ''sip:bob@10.0.0.7:5060'' = Inr ex_target"
  by (simp add: Service_Lookup_def ex_service_def NewCallService_def ex_target_def Direct_Resolve_def Direct_CanResolve_def HasPrefix_def Let_def)

lemma ex_legA_ids: "leg_sessionID (w_legs ex_w1 ! 0) = ''a''" "leg_callID (w_legs ex_w1 ! 0) = ''call1''"
  by (simp_all add: ex_w1_def ex_legA_def NewInboundLeg_def dlg_at_def ex_dm_4 SetInviteResponse_def SetSession_def NewDialog_def GetMediaEndpoint_def
      ex_ok_def ex_invite_def ex_addr_def copyAddresses_def zero_leg_def callid_or_empty_def Let_def)

lemma ex_dial:
  "Dial n ex_service (ex_oin ex_answered) WaitStateChanged [] ''sip:bob@10.0.0.7:5060''
     [WithALegSessionID ''a'', WithALegCallID ''call1'', WithCallerID ''100''] ex_w1 = Some (ex_w2, Some (Inr 1))"
proof -
  obtain res where run: "Originate (ex_oin ex_answered) ex_oreq ex_w1 = (ex_w2, Some res)" "or_Success res" using ex_originate by blast
  have evs: "ex_oin ex_answered\<lparr>oi_events := map parentExpires (oi_events (ex_oin ex_answered))\<rparr> = ex_oin ex_answered"
    by (simp add: ex_oin_def ex_answered_def)
  have leg: "or_Leg res = Some 1" 
    using Originate_success(3) [OF ex_fresh run(1) ex_target_eval(2,1) run(2)] by (simp add: ex_w1_def)
  show ?thesis
    using run leg ex_w2_eval(3) by (simp add: Dial_def ex_lookup ex_target_eval evs applyOptions_def WithALegSessionID_def WithALegCallID_def
        WithCallerID_def Let_def ex_oreq_def ex_w2_eval less_eq_LegState_def)
qed

theorem dial_and_bridge_outcomes_witness:
  "\<exists>w'. DialAndBridge 4 ex_service (ex_oin ex_answered) WaitStateChanged [] ex_bin 0 ''sip:bob@10.0.0.7:5060'' [WithCallerID ''100''] ex_w1
       = Some (w', Some (Inr 0)) \<and> cb_state (w_bridges w' ! 0) = BridgeStateActive \<and>
     leg_state (w_legs w' ! 0) = LegStateAnswered \<and> leg_state (w_legs w' ! 1) = LegStateAnswered"
proof -
  have reach: "call_reachable ex_w1"
    using call_reachable.step [OF call_reachable.init call_step.adopt [OF ex_legA_eval(1), of ex_w0]] by (simp add: ex_w1_def ex_w0_def)
  have leg0: "leg_state (w_legs ex_w1 ! 0) = LegStateAnswered" by (simp add: ex_w1_def ex_legA_eval)
  obtain w' where run: "DialAndBridge 4 ex_service (ex_oin ex_answered) WaitStateChanged [] ex_bin 0 ''sip:bob@10.0.0.7:5060''
      [WithCallerID ''100''] ex_w1 = Some (w', Some (Inr 0))"
    using ex_w2_eval leg0
    by (simp add: DialAndBridge_def ex_legA_ids ex_dial Let_def CreateBridge_def NewBridge_def Bridge_Start_def upd_leg_nth ex_legA_eval
        ex_service_transport)
  have range: "is_range (be_cbOrd (oi_env (ex_oin ex_answered)))" by (simp add: ex_oin_def ex_benv_range)
  have small: "0 < length (w_legs ex_w1)" "Suc (live_legs ex_w1) < 4" using ex_ids(2) by (simp_all add: ex_w1_def)
  show ?thesis
    using dial_and_bridge_outcomes [OF reach ex_fresh range small(1) ex_ids(1) small(2), of ex_service WaitStateChanged "[]" ex_bin
        "''sip:bob@10.0.0.7:5060''" "[WithCallerID ''100'']"] run
    by (simp add: Let_def ex_w1_def)
qed

definition ex_timeout :: "(b2b_world \<times> (service_error + nat) option) option" where
  "ex_timeout = Dial 3 ex_service (ex_oin [GotResponse (ex_resp 180), DialDone False]) WaitStateChanged [] ''sip:bob@10.0.0.7:5060''
     [WithALegSessionID ''a'', WithALegCallID ''call1'', WithCallerID ''100''] ex_w1"

theorem dial_never_reports_timeout_witness:
  "\<exists>w' e. ex_timeout = Some (w', Some (Inl (DialErr e))) \<and> de_SIPCode e = 487 \<and> \<not> IsTimeout e"
proof -
  let ?inp = "ex_oin [GotResponse (ex_resp 180), DialDone True]"
  have env: "oi_env ?inp = ex_benv" "oi_events ?inp = [GotResponse (ex_resp 180), DialDone True]" "w_pool ex_w1 = ex_p1"
    by (simp_all add: ex_oin_def ex_w1_def ex_w0_def)
  have inv: "buildINVITE (be_parseUri ex_benv) cfg x uri tag req sdp = None \<longleftrightarrow> False" for cfg x uri tag sdp req
    by (simp add: buildINVITE_def ex_benv_def)
  have fin: "snd (origFinish env l r) = map_option (\<lambda>res. res\<lparr>or_Leg := Some l\<rparr>) (snd r)" for env l r
    by (auto simp: origFinish_def split: prod.split option.split)
  have ex: "snd (executeINVITE ex_benv um l invite (oi_events ?inp) w) = Some (failed 487 ''Request Terminated'' (Some ParentCanceled))" for um l invite w
    unfolding env(2)
    by (simp add: executeINVITE_def handleResponse_def ex_resp_def ex_benv_def Let_def)
  have "snd (Originate ?inp ex_oreq ex_w1) = Some ((failed 487 ''Request Terminated'' (Some ParentCanceled))\<lparr>or_Leg := Some (length (w_legs ex_w1))\<rparr>)"
    unfolding Originate_steps [OF ex_target_eval(2,1)] Let_def env(1,3) ex_create
    by (auto simp: fin ex inv split: option.split)
  then obtain w' where run: "Originate ?inp ex_oreq ex_w1 = (w', Some ((failed 487 ''Request Terminated'' (Some ParentCanceled))\<lparr>or_Leg := Some (length (w_legs ex_w1))\<rparr>))"
    by (metis prod.collapse)
  have evs: "ex_oin [GotResponse (ex_resp 180), DialDone False]\<lparr>oi_events := map parentExpires [GotResponse (ex_resp 180), DialDone False]\<rparr> = ?inp"
    "oi_events (ex_oin [GotResponse (ex_resp 180), DialDone False]) = [GotResponse (ex_resp 180), DialDone False]"
    by (simp_all add: ex_oin_def)
  have "\<exists>e. ex_timeout = Some (w', Some (Inl (DialErr e))) \<and> de_SIPCode e = 487"
    using run evs by (simp add: ex_timeout_def Dial_def ex_lookup ex_target_eval applyOptions_def WithALegSessionID_def WithALegCallID_def
        WithCallerID_def Let_def ex_oreq_def failed_def dialFailure_def)
  thus ?thesis unfolding ex_timeout_def using dial_never_reports_timeout by blast
qed

end
