(* ===== verification/Executor.thy ===== *)
theory Executor
  imports Dialplan B2b_Service
begin

text \<open>
  Running a route: \<open>internal/signaling/dialplan/session.go\<close> (the call as the actions see it) and
  \<open>executor.go\<close>.

  The world is that of the calls (\<open>b2b_world\<close>). What happens in it between two actions and while a call
  is bridged is an argument (\<open>ai_before\<close>, \<open>ai_during\<close>), as is everything the network answers. A
  context is cancelled exactly if the dialog is (\<open>dlg_cancelled\<close>) or the session has been hung up.
\<close>

section \<open>The session\<close>

record call_session =
  cl_callID :: string
  cl_destination :: string
  cl_callerID :: string
  cl_callerName :: string
  cl_dialog :: nat
  cl_callService :: "call_service option"
  cl_locStore :: "location_store option"
  cl_sessionID :: string
  cl_cancelled :: bool
  cl_terminated :: bool

record loc_reads =
  lr_ordA :: aor_order
  lr_ord :: "(string, binding) range_order"
  lr_now :: time

definition NewSession ::
  "dialog_manager \<Rightarrow> nat \<Rightarrow> call_service option \<Rightarrow> location_store option \<Rightarrow> string \<Rightarrow> string \<Rightarrow> string \<Rightarrow> call_session" where
  "NewSession m r callService locStore destination callerID callerName =
     \<lparr>cl_callID = dlg_CallID (dlg_at m r), cl_destination = destination, cl_callerID = callerID, cl_callerName = callerName,
      cl_dialog = r, cl_callService = callService, cl_locStore = locStore, cl_sessionID = dlg_SessionID (dlg_at m r),
      cl_cancelled = False, cl_terminated = False\<rparr>"

definition Session_IsTerminated :: "call_session \<Rightarrow> b2b_world \<Rightarrow> bool" where
  "Session_IsTerminated s w \<longleftrightarrow> cl_terminated s \<or> IsTerminated (dlg_at (w_dm w) (cl_dialog s))"

datatype play_error = NoRTPSession | StartPlayback mpool_error | PlaybackError

text \<open>The loop over the statuses of the playback: \<open>Some\<close> of an error, or success.\<close>

fun awaitPlayback :: "PlayState list \<Rightarrow> play_error option" where
  "awaitPlayback [] = None"
| "awaitPlayback (PlayStateCompleted # sts) = None"
| "awaitPlayback (PlayStateError # sts) = Some PlaybackError"
| "awaitPlayback (PlayStateStopped # sts) = None"
| "awaitPlayback (st # sts) = awaitPlayback sts"

definition Session_PlayAudio ::
  "(string, codec_config) range_order \<Rightarrow> rpc \<Rightarrow> stream_msg list \<Rightarrow> call_session \<Rightarrow> string \<Rightarrow> b2b_world \<Rightarrow> b2b_world \<times> play_error option" where
  "Session_PlayAudio ord rpc msgs s file w =
     (if cl_sessionID s = '''' then (w, Some NoRTPSession)
      else
        (case Pool_PlayAudio ord rpc (cl_sessionID s) file (w_pool w) of
           (p, Some err) \<Rightarrow> (w\<lparr>w_pool := p\<rparr>, Some (StartPlayback err))
         | (p, None) \<Rightarrow> (w\<lparr>w_pool := p\<rparr>, awaitPlayback (fst (playStatuses msgs)))))"

definition Session_StopAudio :: "rpc \<Rightarrow> call_session \<Rightarrow> b2b_world \<Rightarrow> b2b_world \<times> mpool_error option" where
  "Session_StopAudio rpc s w =
     (if cl_sessionID s = '''' then (w, None)
      else (case Pool_StopAudio rpc (cl_sessionID s) (w_pool w) of (p, err) \<Rightarrow> (w\<lparr>w_pool := p\<rparr>, err)))"

section \<open>Dialing\<close>

datatype resolve_error = NoLocationService | ErrUserNotFound

text \<open>The first binding, in the order of \<open>List\<close>, whose AOR mentions the extension.\<close>

definition lookupUser :: "loc_reads \<Rightarrow> call_session \<Rightarrow> string \<Rightarrow> resolve_error + string" where
  "lookupUser lr s extension =
     (case cl_locStore s of
        None \<Rightarrow> Inl NoLocationService
      | Some store \<Rightarrow>
          let aor = ''sip:'' @ extension @ ''@'' in
          (case find (\<lambda>b. HasPrefix (b_AOR b) aor \<or> Contains (b_AOR b) extension) (Store_List (lr_ordA lr) (lr_ord lr) (lr_now lr) store) of
             Some b \<Rightarrow> Inr (EffectiveContact b)
           | None \<Rightarrow>
               (case Store_LookupOne (lr_ord lr) (lr_now lr) store extension of
                  Some b \<Rightarrow> Inr (EffectiveContact b)
                | None \<Rightarrow> Inl ErrUserNotFound)))"

definition resolveTarget :: "loc_reads \<Rightarrow> call_session \<Rightarrow> string \<Rightarrow> resolve_error + string" where
  "resolveTarget lr s target =
     (if HasPrefix target ''user/'' then lookupUser lr s (TrimPrefix target ''user/'')
      else if HasPrefix target ''sip:'' then Inr target
      else lookupUser lr s target)"

datatype session_dial_cause =
    Unresolved resolve_error
  | ServiceNotConfigured
  | AdoptFailed leg_error
  | DialCause "dial_cause option"
  | ServiceCause service_error

record session_dial_error =
  sd_Target :: string
  sd_SIPCode :: int
  sd_SIPReason :: string
  sd_Cause :: session_dial_cause

text \<open>What an action meets: the world before it, the network, and the call while it is bridged.\<close>

record act_in =
  ai_before :: "b2b_world \<Rightarrow> b2b_world"
  ai_codecOrd :: "(string, codec_config) range_order"
  ai_varOrd :: "(string, string) range_order"
  ai_rpc :: rpc
  ai_msgs :: "stream_msg list"
  ai_reads :: loc_reads
  ai_depth :: nat
  ai_uuid :: string
  ai_orig :: orig_in
  ai_wait :: wait_event
  ai_waits :: "(LegState \<times> wait_event) list"
  ai_bridge :: bridge_in
  ai_during :: "b2b_world \<Rightarrow> b2b_world"
  ai_ctxDone :: bool

abbreviation ai_env :: "act_in \<Rightarrow> b2b_env" where
  "ai_env a \<equiv> oi_env (ai_orig a)"

datatype 'e act_result = ActOk | ActErr 'e | ActWaiting

definition wrapDialError :: "string \<Rightarrow> service_error \<Rightarrow> session_dial_error" where
  "wrapDialError target err =
     (case err of
        DialErr e \<Rightarrow> \<lparr>sd_Target = target, sd_SIPCode = de_SIPCode e, sd_SIPReason = de_SIPReason e, sd_Cause = DialCause (de_Cause e)\<rparr>
      | _ \<Rightarrow> \<lparr>sd_Target = target, sd_SIPCode = 0, sd_SIPReason = '''', sd_Cause = ServiceCause err\<rparr>)"

text \<open>\<open>None\<close>: the depth given to the hang-ups was too small.\<close>

definition Session_Dial :: "act_in \<Rightarrow> call_session \<Rightarrow> string \<Rightarrow> b2b_world \<Rightarrow> (b2b_world \<times> session_dial_error act_result) option" where
  "Session_Dial a s target w =
     (case cl_callService s of
        None \<Rightarrow>
          (case resolveTarget (ai_reads a) s target of
             Inl err \<Rightarrow> Some (w, ActErr \<lparr>sd_Target = target, sd_SIPCode = 0, sd_SIPReason = '''', sd_Cause = Unresolved err\<rparr>)
           | Inr contactURI \<Rightarrow>
               Some (w, ActErr \<lparr>sd_Target = target, sd_SIPCode = 501, sd_SIPReason = '''', sd_Cause = ServiceNotConfigured\<rparr>))
      | Some svc \<Rightarrow>
          let r = cl_dialog s; callerName = (if cl_callerName s = '''' then cl_callerID s else cl_callerName s) in
          (case AdoptInboundLeg (be_uriString (ai_env a)) (ai_uuid a) (be_now (ai_env a)) (Some (r, dlg_at (w_dm w) r)) (cl_sessionID s)
                  [WithTeardownHandler (Some (SessionTeardown (cl_callID s) r))] w of
             (w1, Inl err) \<Rightarrow>
               Some (w1, ActErr \<lparr>sd_Target = target, sd_SIPCode = 0, sd_SIPReason = '''', sd_Cause = AdoptFailed err\<rparr>)
           | (w1, Inr aLeg) \<Rightarrow>
               Option.bind (DialAndBridge (ai_depth a) svc (ai_orig a) (ai_wait a) (ai_waits a) (ai_bridge a) aLeg target
                              [WithCallerID (cl_callerID s), WithCallerName callerName] w1)
                 (\<lambda>d. case d of
                    (w2, None) \<Rightarrow> Some (w2, ActWaiting)
                  | (w2, Some (Inl err)) \<Rightarrow> Some (w2, ActErr (wrapDialError target err))
                  | (w2, Some (Inr b)) \<Rightarrow>
                      map_option (\<lambda>x. (fst x, ActOk)) (DialAndBridge_resume (ai_depth a) (ai_env a) b (ai_ctxDone a) (ai_during a w2)))))"

definition Session_Hangup :: "b2b_env \<Rightarrow> call_session \<Rightarrow> b2b_world \<Rightarrow> call_session \<times> b2b_world \<times> dm_error option" where
  "Session_Hangup env s w =
     (if cl_terminated s then (s, w, None)
      else
        let s' = s\<lparr>cl_terminated := True, cl_cancelled := True\<rparr> in
        if \<not> IsTerminated (dlg_at (w_dm w) (cl_dialog s)) then
          (case Manager_Terminate (be_parseUri env) (be_dmSession env) (be_dmTx env) (be_now env) (be_now env) (w_dm w) (cl_callID s) ReasonLocalBYE of
             (m, err) \<Rightarrow> (s', w\<lparr>w_dm := m\<rparr>, err))
        else (s', w, None))"

section \<open>The executor\<close>

datatype exec_cause =
    ContextDone
  | ErrSessionCanceled
  | CreateAction action_error
  | PlayFailed play_error
  | DialFailed session_dial_error
  | HangupFailed dm_error

record execution_error =
  ee_RouteID :: string
  ee_CompletedSteps :: nat
  ee_TotalSteps :: nat
  ee_FailedAction :: string
  ee_Cause :: exec_cause

fun Action_Execute ::
  "act_in \<Rightarrow> action \<Rightarrow> call_session \<Rightarrow> b2b_world \<Rightarrow> (call_session \<times> b2b_world \<times> exec_cause act_result) option" where
  "Action_Execute a (PlayAudioAction file) s w =
     (case Session_PlayAudio (ai_codecOrd a) (ai_rpc a) (ai_msgs a) s file w of
        (w', None) \<Rightarrow> Some (s, w', ActOk)
      | (w', Some err) \<Rightarrow> Some (s, w', ActErr (PlayFailed err)))"
| "Action_Execute a (DialAction target timeout) s w =
     map_option (\<lambda>(w', res). (s, w', map_act_result DialFailed res)) (Session_Dial a s target w)"
| "Action_Execute a (HangupAction reason) s w =
     (case Session_Hangup (ai_env a) s w of
        (s', w', None) \<Rightarrow> Some (s', w', ActOk)
      | (s', w', Some err) \<Rightarrow> Some (s', w', ActErr (HangupFailed err)))"

datatype exec_outcome = RouteCompleted | NoRoute | RouteFailed execution_error | StillRunning

text \<open>
  One pass of the loop over the actions. \<open>ins\<close> holds what each action meets; a shorter list is a run that has
  not got further.
\<close>

fun executeActions ::
  "action_registry \<Rightarrow> string \<Rightarrow> nat \<Rightarrow> nat \<Rightarrow> action_config list \<Rightarrow> act_in list \<Rightarrow> call_session \<Rightarrow> b2b_world \<Rightarrow>
   (call_session \<times> b2b_world \<times> exec_outcome) option" where
  "executeActions reg rid n i [] ins s w = Some (s, w, RouteCompleted)"
| "executeActions reg rid n i (cfg # cfgs) [] s w = Some (s, w, StillRunning)"
| "executeActions reg rid n i (cfg # cfgs) (a # ins) s w0 =
     (let w = ai_before a w0;
          fail = (\<lambda>act cause. RouteFailed \<lparr>ee_RouteID = rid, ee_CompletedSteps = i, ee_TotalSteps = n, ee_FailedAction = act, ee_Cause = cause\<rparr>) in
      if dlg_cancelled (dlg_at (w_dm w) (cl_dialog s)) then Some (s, w, fail ''context_check'' ContextDone)
      else if Session_IsTerminated s w then Some (s, w, fail ''session_check'' ErrSessionCanceled)
      else
        (case Registry_Create reg (ac_Type cfg) (substituteVars (ai_varOrd a) (cl_destination s) (cl_callerID s) (cl_callID s) (ac_Params cfg)) of
           Inl err \<Rightarrow> Some (s, w, fail (ac_Type cfg) (CreateAction err))
         | Inr act \<Rightarrow>
             Option.bind (Action_Execute a act s w) (\<lambda>r.
               case r of
                 (s', w', ActWaiting) \<Rightarrow> Some (s', w', StillRunning)
               | (s', w', ActErr cause) \<Rightarrow> Some (s', w', fail (Action_Type act) cause)
               | (s', w', ActOk) \<Rightarrow> executeActions reg rid n (Suc i) cfgs ins s' w')))"

definition ExecuteRoute ::
  "action_registry \<Rightarrow> route \<Rightarrow> act_in list \<Rightarrow> call_session \<Rightarrow> b2b_world \<Rightarrow> (call_session \<times> b2b_world \<times> exec_outcome) option" where
  "ExecuteRoute reg route ins s w = executeActions reg (rt_ID route) (length (rt_Actions route)) 0 (rt_Actions route) ins s w"

record executor =
  ex_dialplan :: dialplan
  ex_registry :: action_registry

text \<open>\<open>None\<close>: \<open>DefaultRegistry\<close> panicked (it does not, \<open>default_registry\<close>).\<close>

definition NewExecutor :: "dialplan \<Rightarrow> action_registry option \<Rightarrow> executor option" where
  "NewExecutor d registry =
     map_option (\<lambda>r. \<lparr>ex_dialplan = d, ex_registry = r\<rparr>) (case registry of None \<Rightarrow> DefaultRegistry | Some r \<Rightarrow> Some r)"

definition Executor_Execute ::
  "executor \<Rightarrow> act_in list \<Rightarrow> call_session \<Rightarrow> b2b_world \<Rightarrow> (call_session \<times> b2b_world \<times> exec_outcome) option" where
  "Executor_Execute e ins s w =
     (case Dialplan_Match (ex_dialplan e) (cl_destination s) of
        None \<Rightarrow> Some (s, w, NoRoute)
      | Some route \<Rightarrow> ExecuteRoute (ex_registry e) route ins s w)"

end
