(* ===== verification/Register.thy ===== *)
theory Register
  imports Go_Text Sip_Message Location
begin

text \<open>
  \<open>internal/signaling/routing/register.go\<close>: the registrar. A handler maps the location store and a
  request to the new store and the response it hands to the transaction.

  \<open>sip.NewResponseFromRequest\<close>, \<open>Uri.String\<close>, \<open>sip.ParseUri\<close> and SHA-256 are parameters, and so is
  \<open>strconv.ParseFloat\<close>, whose result is only stored. A request is handled at one instant \<open>re_now\<close>; each
  change of the store reads the clock a second time, at \<open>re_now'\<close>.
\<close>

section \<open>The handler\<close>

record register_env =
  re_uriString :: uri_string
  re_parseUri :: parse_uri
  re_sha256 :: digest
  re_parseFloat :: "string \<Rightarrow> f32 option"
  re_newResponse :: "sip_request \<Rightarrow> int \<Rightarrow> string \<Rightarrow> sip_response"
  re_now :: time
  re_now' :: time
  re_date :: string
  re_ord :: "(string, binding) range_order"

definition StatusIntervalTooBrief :: int where
  "StatusIntervalTooBrief = 423"

definition parseSourceAddr :: "string \<Rightarrow> string \<times> int" where
  "parseSourceAddr source =
     (if source = '''' then ('''', 0)
      else if HasPrefix source ''['' then
        (case LastIndex source '']:'' of
           None \<Rightarrow> (source, 0)
         | Some idx \<Rightarrow>
             if idx > 0 then
               (case Atoi (drop (idx + 2) source) of
                  Some port \<Rightarrow> (drop 1 (take idx source), port)
                | None \<Rightarrow> (source, 0))
             else (source, 0))
      else
        (case Split_byte CHR '':'' source of
           [host, portStr] \<Rightarrow> (case Atoi portStr of Some port \<Rightarrow> (host, port) | None \<Rightarrow> (source, 0))
         | _ \<Rightarrow> (source, 0)))"

text \<open>The \<open>Via\<close> header of a message is its first.\<close>

fun upd_Via :: "(via_header \<Rightarrow> via_header) \<Rightarrow> sip_header list \<Rightarrow> sip_header list" where
  "upd_Via f [] = []"
| "upd_Via f (ViaHeader v # hs) = ViaHeader (f v) # hs"
| "upd_Via f (h # hs) = h # upd_Via f hs"

definition addViaParams :: "sip_request \<Rightarrow> sip_response \<Rightarrow> sip_response" where
  "addViaParams req res =
     (case parseSourceAddr (rq_Source req) of
        (receivedIP, receivedPort) \<Rightarrow>
          if receivedIP = '''' then res
          else res\<lparr>rs_Headers := upd_Via (\<lambda>via.
                 let ps = gm_set (via_Params via) ''received'' receivedIP in
                 via\<lparr>via_Params := if receivedPort > 0 then gm_set ps ''rport'' (itoa receivedPort) else ps\<rparr>) (rs_Headers res)\<rparr>)"

definition AppendHeader :: "sip_header \<Rightarrow> sip_response \<Rightarrow> sip_response" where
  "AppendHeader h res = res\<lparr>rs_Headers := rs_Headers res @ [h]\<rparr>"

definition addDateHeader :: "register_env \<Rightarrow> sip_response \<Rightarrow> sip_response" where
  "addDateHeader env = AppendHeader (GenericHeader ''Date'' (re_date env))"

definition contactHeader :: "register_env \<Rightarrow> binding \<Rightarrow> sip_header option" where
  "contactHeader env b =
     map_option (\<lambda>uri. ContactHeader \<lparr>na_DisplayName = '''', na_Address = uri, na_Params = [(''expires'', itoa (b_Expires b))]\<rparr>)
       (re_parseUri env (b_ContactURI b))"

definition addContactHeader :: "register_env \<Rightarrow> binding \<Rightarrow> sip_response \<Rightarrow> sip_response" where
  "addContactHeader env b res = (case contactHeader env b of None \<Rightarrow> res | Some h \<Rightarrow> AppendHeader h res)"

definition registerResponse :: "register_env \<Rightarrow> sip_request \<Rightarrow> int \<Rightarrow> string \<Rightarrow> sip_response" where
  "registerResponse env req statusCode reason = addViaParams req (re_newResponse env req statusCode reason)"

definition intervalTooBrief :: "register_env \<Rightarrow> location_store \<Rightarrow> sip_request \<Rightarrow> sip_response" where
  "intervalTooBrief env s req =
     AppendHeader (GenericHeader ''Min-Expires'' (itoa (Store_MinExpires s)))
       (registerResponse env req StatusIntervalTooBrief ''Interval Too Brief'')"

definition queryResponse :: "register_env \<Rightarrow> location_store \<Rightarrow> sip_request \<Rightarrow> string \<Rightarrow> sip_response" where
  "queryResponse env s req aor =
     fold (addContactHeader env) (Store_Lookup (re_ord env) (re_now env) s aor)
       (addDateHeader env (registerResponse env req 200 ''OK''))"

definition okWithBindings :: "register_env \<Rightarrow> location_store \<Rightarrow> sip_request \<Rightarrow> string \<Rightarrow> sip_response" where
  "okWithBindings env s req aor =
     fold (addContactHeader env) (Store_Lookup (re_ord env) (re_now env) s aor)
       (addDateHeader env (registerResponse env req 200 ''OK''))"

definition getExpires :: "sip_request \<Rightarrow> name_addr option \<Rightarrow> int" where
  "getExpires req contact =
     (case Option.bind contact (\<lambda>c. Option.bind (map_of (na_Params c) ''expires'') Atoi) of
        Some expires \<Rightarrow> expires
      | None \<Rightarrow>
          (case Option.bind (hdr_value ''Expires'' (rq_Headers req)) Atoi of
             Some expires \<Rightarrow> expires
           | None \<Rightarrow> 3600))"

definition extractInstanceID :: "name_addr \<Rightarrow> string" where
  "extractInstanceID contact =
     (case map_of (na_Params contact) ''+sip.instance'' of Some inst \<Rightarrow> Trim inst [CHR ''<'', CHR ''>'', CHR 0x22] | None \<Rightarrow> '''')"

definition extractQValue :: "register_env \<Rightarrow> name_addr \<Rightarrow> f32" where
  "extractQValue env contact =
     (case Option.bind (map_of (na_Params contact) ''q'') (re_parseFloat env) of Some q \<Rightarrow> q | None \<Rightarrow> F32 0)"

text \<open>\<open>GetHeaders("Contact")\<close>: the parsed headers and those the parser left as text.\<close>

fun is_contact :: "sip_header \<Rightarrow> bool" where
  "is_contact (ContactHeader c) = True"
| "is_contact (GenericHeader n v) = (n = ''Contact'')"
| "is_contact _ = False"

fun is_wildcard :: "register_env \<Rightarrow> sip_header \<Rightarrow> bool" where
  "is_wildcard env (ContactHeader c) = (re_uriString env (na_Address c) = ''*'')"
| "is_wildcard env _ = False"

definition viaTransport :: "sip_request \<Rightarrow> string" where
  "viaTransport req =
     (case hdr_Via (rq_Headers req) of
        None \<Rightarrow> ''UDP''
      | Some via \<Rightarrow> if via_Transport via \<noteq> '''' then ToUpper (via_Transport via) else ''UDP'')"

definition contactBinding :: "register_env \<Rightarrow> sip_request \<Rightarrow> string \<Rightarrow> name_addr \<Rightarrow> binding" where
  "contactBinding env req aor contact =
     (case parseSourceAddr (rq_Source req) of
        (receivedIP, receivedPort) \<Rightarrow>
          \<lparr>b_AOR = aor, b_BindingID = '''', b_ContactURI = re_uriString env (na_Address contact), b_ReceivedIP = receivedIP,
           b_ReceivedPort = receivedPort, b_Transport = viaTransport req,
           b_Path = map generic_value (hdrs_named ''Path'' (rq_Headers req)), b_InstanceID = extractInstanceID contact,
           b_QValue = extractQValue env contact, b_Expires = getExpires req (Some contact), b_ExpiresAt = 0, b_RegisteredAt = 0,
           b_CallID = callid_or_empty (rq_Headers req),
           b_CSeq = (case hdr_CSeq (rq_Headers req) of None \<Rightarrow> 0 | Some (n, m) \<Rightarrow> n),
           b_UserAgent = (case hdr_value ''User-Agent'' (rq_Headers req) of None \<Rightarrow> '''' | Some ua \<Rightarrow> ua),
           b_Source = BindingSourceUnset, b_ExternalProxy = ''''\<rparr>)"

definition contactID :: "register_env \<Rightarrow> name_addr \<Rightarrow> string" where
  "contactID env contact = GenerateBindingID (re_sha256 env) (re_uriString env (na_Address contact)) (extractInstanceID contact)"

fun registerContacts ::
  "register_env \<Rightarrow> sip_request \<Rightarrow> string \<Rightarrow> sip_header list \<Rightarrow> location_store \<Rightarrow> location_store \<times> loc_error option" where
  "registerContacts env req aor [] s = (s, None)"
| "registerContacts env req aor (ContactHeader contact # hs) s =
     (if getExpires req (Some contact) = 0 then
        registerContacts env req aor hs (fst (Store_Unregister (re_now env) (re_now' env) s aor (contactID env contact) False))
      else
        (case Store_Register (re_sha256 env) (re_now env) (re_now' env) s (contactBinding env req aor contact) of
           (s', Inl err) \<Rightarrow> (s', Some err)
         | (s', Inr registered) \<Rightarrow> registerContacts env req aor hs s'))"
| "registerContacts env req aor (h # hs) s = registerContacts env req aor hs s"

text \<open>The text of an error of the location store.\<close>

fun loc_error_text :: "loc_error \<Rightarrow> string" where
  "loc_error_text EmptyAOR = ''AOR cannot be empty''"
| "loc_error_text EmptyContactURI = ''ContactURI cannot be empty''"
| "loc_error_text ErrIntervalTooBrief = ''interval too brief''"
| "loc_error_text (InvalidCSeq n) = ''invalid CSeq: must be higher than '' @ itoa (uint n) @ '' for same Call-ID''"
| "loc_error_text (NoBindings aor) = ''no bindings found for AOR: '' @ aor"
| "loc_error_text (BindingNotFound i) = ''binding not found: '' @ i"

definition HandleRegister :: "register_env \<Rightarrow> location_store \<Rightarrow> sip_request \<Rightarrow> location_store \<times> sip_response" where
  "HandleRegister env s req =
     (case hdr_To (rq_Headers req) of
        None \<Rightarrow> (s, registerResponse env req 400 ''Missing To header'')
      | Some to \<Rightarrow>
          let aor = re_uriString env (na_Address to);
              contacts = filter is_contact (rq_Headers req) in
          if list_ex (is_wildcard env) contacts then
            (if length contacts > 1 then
               (s, registerResponse env req 400 ''Contact: * must not be combined with other Contact headers'')
             else if getExpires req None \<noteq> 0 then (s, registerResponse env req 400 ''Expires must be 0 for Contact: *'')
             else (fst (Store_Unregister (re_now env) (re_now' env) s aor '''' True), registerResponse env req 200 ''OK''))
          else if length contacts = 0 then (s, queryResponse env s req aor)
          else
            (case registerContacts env req aor contacts s of
               (s', None) \<Rightarrow> (s', okWithBindings env s' req aor)
             | (s', Some err) \<Rightarrow>
                 if err = ErrIntervalTooBrief then (s', intervalTooBrief env s' req)
                 else (s', registerResponse env req 400 (loc_error_text err))))"

text \<open>
  \<open>SwitchBoard.handleRegister\<close>: the responses handed to the transaction, the first of which may fail.
\<close>

definition handleRegister ::
  "register_env \<Rightarrow> bool \<Rightarrow> location_store \<Rightarrow> sip_request \<Rightarrow> location_store \<times> sip_response list" where
  "handleRegister env respondOk s req =
     (case HandleRegister env s req of
        (s', res) \<Rightarrow> (s', if respondOk then [res] else [res, re_newResponse env req 500 ''Server Error'']))"

definition GetContact :: "(string, binding) range_order \<Rightarrow> time \<Rightarrow> location_store \<Rightarrow> string \<Rightarrow> string option" where
  "GetContact ord now s aor = map_option EffectiveContact (Store_LookupOne ord now s aor)"

definition GetBinding :: "(string, binding) range_order \<Rightarrow> time \<Rightarrow> location_store \<Rightarrow> string \<Rightarrow> binding option" where
  "GetBinding ord now s aor = Store_LookupOne ord now s aor"

definition GetAllBindings :: "(string, binding) range_order \<Rightarrow> time \<Rightarrow> location_store \<Rightarrow> string \<Rightarrow> binding list" where
  "GetAllBindings ord now s aor = Store_Lookup ord now s aor"

definition GetAllRegistrations ::
  "aor_order \<Rightarrow> (string, binding) range_order \<Rightarrow> time \<Rightarrow> location_store \<Rightarrow> (string, binding list) gomap" where
  "GetAllRegistrations ordA ord now s = Store_ListByAOR ordA ord now s"

definition ListAll :: "aor_order \<Rightarrow> (string, binding) range_order \<Rightarrow> time \<Rightarrow> location_store \<Rightarrow> binding list" where
  "ListAll ordA ord now s = Store_List ordA ord now s"

section \<open>What a registration does\<close>

text \<open>
  The abstract registrar: a map from binding ids to bindings, as it is seen at time \<open>t\<close>; each
  contact puts its binding or removes it.
\<close>

definition granted :: "register_env \<Rightarrow> location_store \<Rightarrow> sip_request \<Rightarrow> string \<Rightarrow> name_addr \<Rightarrow> binding" where
  "granted env s req aor c =
     (let b = contactBinding env req aor c; expires = the (normalizeExpires s (b_Expires b)) in
      b\<lparr>b_BindingID := contactID env c, b_Expires := expires, b_ExpiresAt := re_now env + seconds expires,
        b_RegisteredAt := re_now env\<rparr>)"

definition contact_effect ::
  "register_env \<Rightarrow> location_store \<Rightarrow> sip_request \<Rightarrow> string \<Rightarrow> time \<Rightarrow> name_addr \<Rightarrow> binding option" where
  "contact_effect env s req aor t c =
     (if getExpires req (Some c) = 0 then None else alive t (Some (granted env s req aor c)))"

fun reg_spec ::
  "register_env \<Rightarrow> location_store \<Rightarrow> sip_request \<Rightarrow> string \<Rightarrow> time \<Rightarrow> sip_header list \<Rightarrow> (string \<Rightarrow> binding option) \<Rightarrow> string \<Rightarrow> binding option" where
  "reg_spec env s req aor t [] m = m"
| "reg_spec env s req aor t (ContactHeader c # hs) m =
     reg_spec env s req aor t hs (m(contactID env c := contact_effect env s req aor t c))"
| "reg_spec env s req aor t (h # hs) m = reg_spec env s req aor t hs m"

lemma Register_granted:
  assumes "Store_Register (re_sha256 env) (re_now env) now' s (contactBinding env req aor c) = (s', Inr b)"
  shows "b = granted env s req aor c"
  using assms
  by (auto simp: Store_Register_def granted_def contactID_def contactBinding_def Let_def split: if_splits option.splits prod.splits)

lemma granted_fields [simp]: "b_AOR (granted env s req aor c) = aor" "b_BindingID (granted env s req aor c) = contactID env c"
  by (simp_all add: granted_def Let_def contactBinding_def split: prod.split)

definition same_limits :: "location_store \<Rightarrow> location_store \<Rightarrow> bool" where
  "same_limits s s' \<longleftrightarrow> loc_minExpires s' = loc_minExpires s \<and> loc_maxExpires s' = loc_maxExpires s \<and> loc_defaultExpires s' = loc_defaultExpires s"

lemma same_limits_effect: "same_limits s s' \<Longrightarrow> contact_effect env s' = contact_effect env s"
  by (simp add: contact_effect_def granted_def normalizeExpires_def same_limits_def fun_eq_iff cong: if_cong)

lemma same_limits_spec: "same_limits s s' \<Longrightarrow> reg_spec env s' req aor t hs m = reg_spec env s req aor t hs m"
  by (induction env s' req aor t hs m rule: reg_spec.induct) (simp_all add: same_limits_effect)

lemma same_limits_ops:
  "same_limits s (fst (Store_Register sha now now' s b))" "same_limits s (fst (Store_Unregister now now' s aor i wild))"
  by (simp_all add: same_limits_def Store_Register_def Store_Unregister_def storeBinding_def Let_def split: option.split)

text \<open>\<open>carried_out\<close>: a prefix of the contacts is carried out, all of them if there is no error.\<close>

definition carried_out ::
  "register_env \<Rightarrow> sip_request \<Rightarrow> string \<Rightarrow> sip_header list \<Rightarrow> location_store \<Rightarrow> location_store \<Rightarrow> bool \<Rightarrow> bool" where
  "carried_out env req aor hs s s' ok \<longleftrightarrow> (\<exists>some rest. hs = some @ rest \<and> (ok \<longleftrightarrow> rest = []) \<and>
    (\<forall>t \<ge> re_now env. \<forall>a. active t s' a = (if a = aor then reg_spec env s req aor t some (active t s aor) else active t s a)))"

lemma carried_out_step:
  assumes rest: "carried_out env req aor hs s1 s' ok" and lim: "same_limits s s1"
    and one: "\<And>t a. re_now env \<le> t \<Longrightarrow>
      active t s1 a = (if a = aor then (active t s aor)(contactID env c := contact_effect env s req aor t c) else active t s a)"
  shows "carried_out env req aor (ContactHeader c # hs) s s' ok"
proof -
  obtain xs ys where hs: "hs = xs @ ys" "ok \<longleftrightarrow> ys = []"
    and act: "\<forall>t \<ge> re_now env. \<forall>a. active t s' a = (if a = aor then reg_spec env s1 req aor t xs (active t s1 aor) else active t s1 a)"
    using rest unfolding carried_out_def by blast
  show ?thesis
    unfolding carried_out_def
  proof (intro exI conjI)
    show "ContactHeader c # hs = (ContactHeader c # xs) @ ys" "ok \<longleftrightarrow> ys = []" using hs by simp_all
    show "\<forall>t \<ge> re_now env. \<forall>a. active t s' a = (if a = aor then reg_spec env s req aor t (ContactHeader c # xs) (active t s aor) else active t s a)"
      using act one same_limits_spec [OF lim] by simp
  qed
qed

lemma carried_out_skip: "is_contact h \<Longrightarrow> \<forall>c. h \<noteq> ContactHeader c \<Longrightarrow> carried_out env req aor hs s s' ok \<Longrightarrow> carried_out env req aor (h # hs) s s' ok"
proof -
  assume h: "is_contact h" "\<forall>c. h \<noteq> ContactHeader c" and hs: "carried_out env req aor hs s s' ok"
  obtain xs ys where "hs = xs @ ys" "ok \<longleftrightarrow> ys = []"
    "\<forall>t \<ge> re_now env. \<forall>a. active t s' a = (if a = aor then reg_spec env s req aor t xs (active t s aor) else active t s a)"
    using hs unfolding carried_out_def by blast
  moreover have "reg_spec env s req aor t (h # xs) m = reg_spec env s req aor t xs m" for t m using h by (cases h) simp_all
  ultimately show ?thesis unfolding carried_out_def by (intro exI [of _ "h # xs"] exI [of _ ys]) simp
qed

lemma same_limits_trans: "same_limits s s' \<Longrightarrow> same_limits s' s'' \<Longrightarrow> same_limits s s''"
  by (simp add: same_limits_def)

lemma registerContacts_spec:
  assumes "loc_inv s" and "re_now env \<le> re_now' env" and "list_all is_contact hs" and "registerContacts env req aor hs s = (s', err)"
  shows "loc_inv s' \<and> same_limits s s' \<and> carried_out env req aor hs s s' (err = None)"
  using assms
proof (induction env req aor hs s arbitrary: s' rule: registerContacts.induct)
  case (1 env req aor s)
  thus ?case by (simp add: same_limits_def carried_out_def)
next
  case (2 env req aor c hs s)
  note limits = same_limits_ops
  have all: "list_all is_contact hs" using "2.prems"(3) by simp
  show ?case
  proof (cases "getExpires req (Some c) = 0")
    case True
    let ?u = "Store_Unregister (re_now env) (re_now' env) s aor (contactID env c) False"
    have "registerContacts env req aor hs (fst ?u) = (s', err)" using "2.prems"(4) True by simp
    note ih = "2.IH"(1) [OF True Unregister_inv [OF "2.prems"(1)] "2.prems"(2) all this]
    have eff: "active t (fst ?u) a = (if a = aor then (active t s aor)(contactID env c := contact_effect env s req aor t c) else active t s a)"
      if "re_now env \<le> t" for t a
      using mem.unregister_ok [OF "2.prems"(1) that prod.collapse [symmetric], of "re_now' env" aor "contactID env c" a]
      by (auto simp: fun_eq_iff contact_effect_def True)
    show ?thesis using ih carried_out_step [OF _ limits(2) eff] same_limits_trans [OF limits(2)] by blast
  next
    case False
    obtain s1 r where reg: "Store_Register (re_sha256 env) (re_now env) (re_now' env) s (contactBinding env req aor c) = (s1, r)" by fastforce
    show ?thesis
    proof (cases r)
      case (Inl e)
      hence "s' = s" "err = Some e" using Register_Inl [OF reg [unfolded Inl]] "2.prems"(4) False reg by simp_all
      moreover have "carried_out env req aor (ContactHeader c # hs) s s False"
        unfolding carried_out_def by (intro exI [of _ "[]"] exI [of _ "ContactHeader c # hs"]) simp
      ultimately show ?thesis using "2.prems"(1) by (simp add: same_limits_def)
    next
      case (Inr b)
      have b: "b = granted env s req aor c" by (rule Register_granted [OF reg [unfolded Inr]])
      have "registerContacts env req aor hs s1 = (s', err)" using "2.prems"(4) False reg Inr by simp
      note ih = "2.IH"(2) [OF False reg [symmetric] Inr Register_stored(1) [OF "2.prems"(1,2) reg [unfolded Inr]] "2.prems"(2) all this]
      have eff: "active t s1 a = (if a = aor then (active t s aor)(contactID env c := contact_effect env s req aor t c) else active t s a)"
        if "re_now env \<le> t" for t a
        using Register_stored(2) [OF "2.prems"(1,2) reg [unfolded Inr] that, of a] by (auto simp: fun_eq_iff contact_effect_def False b)
      have lim: "same_limits s s1"
        using limits(1) [of s "re_sha256 env" "re_now env" "re_now' env" "contactBinding env req aor c"] by (simp add: reg)
      show ?thesis using ih carried_out_step [OF _ lim eff] same_limits_trans [OF lim] by blast
    qed
  qed
qed (simp_all add: carried_out_skip)

section \<open>Responses\<close>

text \<open>
  \<open>NewResponseFromRequest\<close> sets the status and copies Via, From, To, Call-ID, CSeq and Record-Route
  from the request, never a Contact.
\<close>

definition response_ok :: "register_env \<Rightarrow> bool" where
  "response_ok env \<longleftrightarrow> (\<forall>req code reason. rs_StatusCode (re_newResponse env req code reason) = code \<and>
     filter is_contact (rs_Headers (re_newResponse env req code reason)) = [])"

lemma upd_Via_contacts: "filter is_contact (upd_Via f hs) = filter is_contact hs"
  by (induction f hs rule: upd_Via.induct) simp_all

lemma registerResponse_simps:
  assumes "response_ok env"
  shows "rs_StatusCode (registerResponse env req code reason) = code" "filter is_contact (rs_Headers (registerResponse env req code reason)) = []"
  using assms by (simp_all add: registerResponse_def addViaParams_def response_ok_def upd_Via_contacts split: prod.split)

lemma addContactHeader_simps:
  "rs_StatusCode (addContactHeader env b res) = rs_StatusCode res"
  "filter is_contact (rs_Headers (addContactHeader env b res)) =
     filter is_contact (rs_Headers res) @ (case contactHeader env b of None \<Rightarrow> [] | Some h \<Rightarrow> [h])"
  by (auto simp: addContactHeader_def AppendHeader_def contactHeader_def split: option.split)

lemma addContactHeaders:
  "rs_StatusCode (fold (addContactHeader env) bs res) = rs_StatusCode res"
  "filter is_contact (rs_Headers (fold (addContactHeader env) bs res)) =
     filter is_contact (rs_Headers res) @ List.map_filter (contactHeader env) bs"
  by (induction bs arbitrary: res) (simp_all add: addContactHeader_simps map_filter_simps split: option.split)

lemma binding_responses:
  assumes "response_ok env"
  shows "rs_StatusCode (okWithBindings env s req aor) = 200" "rs_StatusCode (queryResponse env s req aor) = 200"
    "rs_StatusCode (intervalTooBrief env s req) = 423"
    "filter is_contact (rs_Headers (okWithBindings env s req aor)) = List.map_filter (contactHeader env) (Store_Lookup (re_ord env) (re_now env) s aor)"
    "filter is_contact (rs_Headers (queryResponse env s req aor)) = List.map_filter (contactHeader env) (Store_Lookup (re_ord env) (re_now env) s aor)"
  using registerResponse_simps [OF assms]
  by (simp_all add: okWithBindings_def queryResponse_def addContactHeaders addDateHeader_def AppendHeader_def intervalTooBrief_def StatusIntervalTooBrief_def)

section \<open>Properties\<close>

text \<open>
  Property C38. The registrar refines the abstract one. \<open>Contact: *\<close> alone with \<open>Expires: 0\<close> removes the bindings of
  the AOR, and is refused otherwise; a request without contacts changes nothing; the contacts of
  any other request are carried out in order, all of them exactly if the answer is 200. Only the
  AOR of the To header is affected. A 200 that is not the answer to \<open>Contact: *\<close> lists
  the bindings that are then active.
\<close>

theorem register_outcomes:
  assumes reach: "loc_reachable (re_sha256 env) cfg s" and clock: "re_now env \<le> re_now' env" and resp: "response_ok env"
    and to: "hdr_To (rq_Headers req) = Some to" and run: "HandleRegister env s req = (s', res)"
  shows "let aor = re_uriString env (na_Address to); contacts = filter is_contact (rq_Headers req);
             listed = filter is_contact (rs_Headers res) = List.map_filter (contactHeader env) (Store_Lookup (re_ord env) (re_now env) s' aor) in
    if list_ex (is_wildcard env) contacts then
      (if length contacts = 1 \<and> getExpires req None = 0
       then rs_StatusCode res = 200 \<and> (\<forall>t a i. active t s' a i = (if a = aor then None else active t s a i))
       else rs_StatusCode res = 400 \<and> s' = s)
    else if contacts = [] then s' = s \<and> rs_StatusCode res = 200 \<and> listed
    else rs_StatusCode res \<in> {200, 400, 423} \<and> (rs_StatusCode res = 200 \<longrightarrow> listed) \<and>
      (\<exists>some rest. contacts = some @ rest \<and> (rs_StatusCode res = 200 \<longleftrightarrow> rest = []) \<and>
         (\<forall>t \<ge> re_now env. \<forall>a. active t s' a = (if a = aor then reg_spec env s req aor t some (active t s aor) else active t s a)))"
proof -
  let ?aor = "re_uriString env (na_Address to)" and ?cs = "filter is_contact (rq_Headers req)"
  have inv: "loc_inv s" using loc_reachable_inv [OF reach] by simp
  note codes = registerResponse_simps [OF resp] binding_responses [OF resp]
  consider "list_ex (is_wildcard env) ?cs" | "\<not> list_ex (is_wildcard env) ?cs" "?cs = []" | "\<not> list_ex (is_wildcard env) ?cs" "?cs \<noteq> []" by blast
  thus ?thesis
  proof cases
    case 1
    hence "?cs \<noteq> []" by auto
    hence len: "length ?cs > 1 \<longleftrightarrow> length ?cs \<noteq> 1" by (cases ?cs) auto
    have "active t (fst (Store_Unregister (re_now env) (re_now' env) s ?aor [] True)) a i = (if a = ?aor then None else active t s a i)" for t a i
      using mem.unregister_all_ok [OF inv, of t ?aor a i] by (simp add: Store_Unregister_def)
    thus ?thesis using 1 run to len by (auto simp: HandleRegister_def codes Let_def split: if_splits)
  next
    case 2
    thus ?thesis using run to by (auto simp: HandleRegister_def codes Let_def)
  next
    case 3
    obtain s1 err where rc: "registerContacts env req ?aor ?cs s = (s1, err)" by fastforce
    have "carried_out env req ?aor ?cs s s1 (err = None)"
      using registerContacts_spec [OF inv clock _ rc] by (simp add: list_all_iff)
    moreover have "s' = s1" "rs_StatusCode res = 200 \<longleftrightarrow> err = None" "rs_StatusCode res \<in> {200, 400, 423}"
      "rs_StatusCode res = 200 \<longrightarrow> filter is_contact (rs_Headers res) = List.map_filter (contactHeader env) (Store_Lookup (re_ord env) (re_now env) s' ?aor)"
      using run to 3 rc by (auto simp: HandleRegister_def codes Let_def split: option.splits if_splits)
    ultimately show ?thesis using 3 unfolding carried_out_def Let_def by auto
  qed
qed

text \<open>
  \<open>parseSourceAddr\<close> reads back the source address that the transport layer prints, for IPv4 and for
  bracketed IPv6 addresses.
\<close>

theorem parseSourceAddr_roundtrip:
  assumes "0 \<le> port" and "port < 2 ^ 63"
  shows "(CHR '':'' \<notin> set host \<and> \<not> HasPrefix host ''['' \<longrightarrow> parseSourceAddr (host @ '':'' @ itoa port) = (host, port)) \<and>
    parseSourceAddr (''['' @ ip @ '']:'' @ itoa port) = (ip, port)"
proof -
  have digits: "c \<in> set ''0123456789''" if "c \<in> set (itoa port)" for c
    using itoa_chars [OF assms(1) that] digit_char_range by blast
  hence colon: "CHR '':'' \<notin> set (itoa port)" by fastforce
  have atoi: "Atoi (itoa port) = Some port" using assms by (intro Atoi_itoa) simp_all
  have "LastIndex ((''['' @ ip) @ '']:'' @ itoa port) '']:'' = Some (length (''['' @ ip))"
    by (rule LastIndex_append) (simp_all add: colon)
  hence six: "parseSourceAddr (''['' @ ip @ '']:'' @ itoa port) = (ip, port)"
    by (simp add: parseSourceAddr_def HasPrefix_def atoi)
  moreover have "parseSourceAddr (host @ '':'' @ itoa port) = (host, port)" if "CHR '':'' \<notin> set host" "\<not> HasPrefix host ''[''"
  proof -
    have "\<not> HasPrefix (host @ '':'' @ itoa port) ''[''" using that(2) by (cases host) (simp_all add: HasPrefix_def)
    thus ?thesis using that(1)
      by (simp add: parseSourceAddr_def Split_byte_append [of "CHR '':''" host "itoa port", simplified] Split_byte_absent [OF colon] atoi)
  qed
  ultimately show ?thesis by blast
qed

theorem parseSourceAddr_roundtrip_witness:
  "parseSourceAddr ''10.0.0.9:5060'' = (''10.0.0.9'', 5060) \<and> parseSourceAddr ''[fe80::1]:5060'' = (''fe80::1'', 5060)"
proof -
  have n: "itoa 5060 = ''5060''" by (simp add: itoa_def show_nat.simps digit_char_def)
  show ?thesis using parseSourceAddr_roundtrip [of 5060 "''10.0.0.9''" "''fe80::1''"] by (simp add: n HasPrefix_def)
qed

section \<open>An example\<close>

definition ex_user_uri :: "string \<Rightarrow> sip_uri" where
  "ex_user_uri u = \<lparr>uri_Scheme = ''sip'', uri_User = u, uri_Host = ''pbx'', uri_Port = 0, uri_UriParams = []\<rparr>"

definition ex_renv :: register_env where
  "ex_renv = \<lparr>re_uriString = uri_User, re_parseUri = (\<lambda>s. Some (ex_user_uri s)), re_sha256 = ex_sha, re_parseFloat = (\<lambda>_. None),
     re_newResponse = (\<lambda>req code reason. \<lparr>rs_StatusCode = code, rs_Reason = reason, rs_Headers = [], rs_Body = None, rs_Source = ''''\<rparr>),
     re_now = 10, re_now' = 11, re_date = '''', re_ord = id\<rparr>"

definition ex_contact :: "string \<Rightarrow> string \<Rightarrow> sip_header" where
  "ex_contact u expires = ContactHeader \<lparr>na_DisplayName = '''', na_Address = ex_user_uri u, na_Params = [(''expires'', expires)]\<rparr>"

definition ex_register :: "sip_header list \<Rightarrow> sip_request" where
  "ex_register contacts = \<lparr>rq_Method = ''REGISTER'', rq_Recipient = ex_user_uri '''',
     rq_Headers = ToHeader \<lparr>na_DisplayName = '''', na_Address = ex_user_uri ''1000'', na_Params = []\<rparr> # CallIDHeader ''r1'' # CSeqHeader 1 ''REGISTER'' # contacts,
     rq_Body = None, rq_Source = ''[fe80::1]:5060''\<rparr>"

lemma ex_renv_ok: "response_ok ex_renv" "re_now ex_renv \<le> re_now' ex_renv"
  by (simp_all add: ex_renv_def response_ok_def)

lemma ex_atoi: "Atoi ''60'' = Some 60" "Atoi ''5'' = Some 5" "Atoi ''5060'' = Some 5060"
  by (simp_all add: Atoi_def HasPrefix_def digit_val_def)

abbreviation ex_na :: "string \<Rightarrow> string \<Rightarrow> name_addr" where
  "ex_na u e \<equiv> \<lparr>na_DisplayName = '''', na_Address = ex_user_uri u, na_Params = [(''expires'', e)]\<rparr>"

lemma ex_stored_contact:
  "\<exists>s1 b. Store_Register (re_sha256 ex_renv) (re_now ex_renv) (re_now' ex_renv) (NewStore DefaultStoreConfig)
     (contactBinding ex_renv (ex_register cs) ''1000'' (ex_na ''a'' ''60'')) = (s1, Inr b)"
  by (simp add: Store_Register_def contactBinding_def ex_renv_def ex_user_uri_def getExpires_def ex_atoi NewStore_def DefaultStoreConfig_def
      normalizeExpires_def TTL_Get_def NewTTLStore_def Let_def split: prod.split)

lemma ex_expires: "getExpires (ex_register cs) (Some (ex_na u ''60'')) = 60" "getExpires (ex_register cs) (Some (ex_na u ''5'')) = 5"
  by (simp_all add: getExpires_def ex_atoi)

lemma ex_uri_string [simp]: "re_uriString ex_renv (ex_user_uri u) = u"
  by (simp add: ex_renv_def ex_user_uri_def)

lemma ex_register_to [simp]: "hdr_To (rq_Headers (ex_register cs)) = Some \<lparr>na_DisplayName = '''', na_Address = ex_user_uri ''1000'', na_Params = []\<rparr>"
  by (simp add: ex_register_def)

lemma ex_register_contacts [simp]: "filter is_contact (rq_Headers (ex_register (map (\<lambda>(u, e). ex_contact u e) cs))) = map (\<lambda>(u, e). ex_contact u e) cs"
  by (auto simp: ex_register_def ex_contact_def intro!: filter_True)

lemma ex_register_ok:
  "rs_StatusCode (snd (HandleRegister ex_renv (NewStore DefaultStoreConfig) (ex_register [ex_contact ''a'' ''60'']))) = 200"
  using ex_stored_contact [of "[ex_contact ''a'' ''60'']"] ex_register_contacts [of "[(''a'', ''60'')]"]
  by (auto simp: HandleRegister_def ex_expires ex_contact_def binding_responses [OF ex_renv_ok(1)] Let_def)

lemma ex_contacts: "filter is_contact (rq_Headers (ex_register [ex_contact u e])) = [ex_contact u e]"
  "\<not> is_wildcard ex_renv (ex_contact ''a'' e)"
  using ex_register_contacts [of "[(u, e)]"] by (simp_all add: ex_contact_def)

lemma ex_granted: "b_ExpiresAt (granted ex_renv (NewStore DefaultStoreConfig) (ex_register cs) aor
     \<lparr>na_DisplayName = '''', na_Address = ex_user_uri ''a'', na_Params = [(''expires'', ''60'')]\<rparr>) = 10 + seconds 60"
  by (simp add: granted_def contactBinding_def getExpires_def ex_atoi NewStore_def DefaultStoreConfig_def normalizeExpires_def ex_renv_def
      Let_def split: prod.split)

lemma ex_new: "active t (NewStore cfg) a = (\<lambda>_. None)" "re_now ex_renv = 10" "re_now' ex_renv = 11"
  by (simp_all add: fun_eq_iff ex_renv_def)

theorem register_outcomes_witness:
  "case HandleRegister ex_renv (NewStore DefaultStoreConfig) (ex_register [ex_contact ''a'' ''60'']) of
     (s', res) \<Rightarrow> rs_StatusCode res = 200 \<and> (\<exists>i. active (10 + seconds 60) s' ''1000'' i \<noteq> None)"
proof -
  let ?s = "NewStore DefaultStoreConfig" and ?req = "ex_register [ex_contact ''a'' ''60'']"
  obtain s' res where run: "HandleRegister ex_renv ?s ?req = (s', res)" by fastforce
  have to: "hdr_To (rq_Headers ?req) = Some \<lparr>na_DisplayName = '''', na_Address = ex_user_uri ''1000'', na_Params = []\<rparr>"
    by (simp add: ex_register_def)
  have aor: "re_uriString ex_renv (ex_user_uri ''1000'') = ''1000''"
    by (simp add: ex_renv_def ex_user_uri_def)
  have ok: "rs_StatusCode res = 200" using ex_register_ok run by simp
  obtain xs ys where xs: "[ex_contact ''a'' ''60''] = xs @ ys" "ys = []"
    and act: "\<forall>t \<ge> re_now ex_renv. \<forall>a. active t s' a = (if a = ''1000'' then reg_spec ex_renv ?s ?req ''1000'' t xs (active t ?s ''1000'') else active t ?s a)"
    using register_outcomes [OF loc_reachable.init ex_renv_ok(2,1) to run] ok
    by (auto simp: ex_contacts aor Let_def simp del: reg_spec.simps)
  have "active (10 + seconds 60) s' ''1000'' = reg_spec ex_renv ?s ?req ''1000'' (10 + seconds 60) [ex_contact ''a'' ''60''] (\<lambda>_. None)"
    using act [rule_format, of "10 + seconds 60" "''1000''"] xs ex_new by simp
  moreover have "reg_spec ex_renv ?s ?req ''1000'' (10 + seconds 60) [ex_contact ''a'' ''60''] (\<lambda>_. None)
      (contactID ex_renv \<lparr>na_DisplayName = '''', na_Address = ex_user_uri ''a'', na_Params = [(''expires'', ''60'')]\<rparr>) \<noteq> None"
    by (simp add: ex_contact_def contact_effect_def getExpires_def ex_atoi alive_def ex_granted)
  ultimately show ?thesis using ok run by auto
qed

text \<open>
  A REGISTER is not atomic: with two contacts of which the second asks for too short an
  interval, the answer is 423, and the first contact is registered.
\<close>

lemma registration_not_atomic:
  "case HandleRegister ex_renv (NewStore DefaultStoreConfig) (ex_register [ex_contact ''a'' ''60'', ex_contact ''b'' ''5'']) of
     (s', res) \<Rightarrow> rs_StatusCode res = 423 \<and> Store_Lookup id 10 s' ''1000'' \<noteq> []"
proof -
  let ?s = "NewStore DefaultStoreConfig" and ?req = "ex_register [ex_contact ''a'' ''60'', ex_contact ''b'' ''5'']"
  let ?c = "\<lambda>u e. \<lparr>na_DisplayName = '''', na_Address = ex_user_uri u, na_Params = [(''expires'', e)]\<rparr>"
  let ?reg = "\<lambda>s u e. Store_Register (re_sha256 ex_renv) (re_now ex_renv) (re_now' ex_renv) s (contactBinding ex_renv ?req ''1000'' (?c u e))"
  obtain s1 where reg: "?reg ?s ''a'' ''60'' = (s1, Inr (granted ex_renv ?s ?req ''1000'' (?c ''a'' ''60'')))"
    using ex_stored_contact [of "[ex_contact ''a'' ''60'', ex_contact ''b'' ''5'']"] Register_granted by blast
  note stored = Register_stored [OF loc_inv_new _ reg]
  have "same_limits ?s s1"
    using same_limits_ops(1) [of ?s "re_sha256 ex_renv" "re_now ex_renv" "re_now' ex_renv" "contactBinding ex_renv ?req ''1000'' (?c ''a'' ''60'')"]
    unfolding reg by simp
  hence lim: "loc_minExpires s1 = 30" by (simp add: same_limits_def NewStore_def DefaultStoreConfig_def)
  have two: "?reg s1 ''b'' ''5'' = (s1, Inl ErrIntervalTooBrief)"
    by (simp add: Store_Register_def contactBinding_def ex_renv_def ex_user_uri_def getExpires_def ex_atoi normalizeExpires_def lim split: prod.split)
  have "active 10 s1 ''1000'' (contactID ex_renv (?c ''a'' ''60'')) \<noteq> None"
    using stored(2) [of 10 "''1000''" "contactID ex_renv (?c ''a'' ''60'')"] by (simp add: ex_new alive_def ex_granted)
  hence "Store_Lookup id 10 s1 ''1000'' \<noteq> []"
    using Lookup_active [OF stored(1) is_range_id, of 10 "''1000''"] ex_renv_ok(2) by (auto simp: ran_def)
  moreover have "HandleRegister ex_renv ?s ?req = (s1, intervalTooBrief ex_renv s1 ?req)"
  proof -
    have cs: "filter is_contact (rq_Headers ?req) = [ContactHeader (?c ''a'' ''60''), ContactHeader (?c ''b'' ''5'')]"
      using ex_register_contacts [of "[(''a'', ''60''), (''b'', ''5'')]"] by (simp add: ex_contact_def)
    have "registerContacts ex_renv ?req ''1000'' [ContactHeader (?c ''a'' ''60''), ContactHeader (?c ''b'' ''5'')] ?s = (s1, Some ErrIntervalTooBrief)"
      by (simp add: ex_expires reg two)
    thus ?thesis by (simp add: HandleRegister_def cs Let_def)
  qed
  ultimately show ?thesis by (simp add: binding_responses [OF ex_renv_ok(1)])
qed

text \<open>
  The address of a caller behind IPv6 is stored without its brackets, and the contact that is dialed
  is not a valid URI.
\<close>

lemma ipv6_contact_without_brackets:
  "EffectiveContact (contactBinding ex_renv ((ex_register [])\<lparr>rq_Headers := []\<rparr>) ''1000'' \<lparr>na_DisplayName = '''', na_Address = ex_user_uri ''sip:a@h'', na_Params = []\<rparr>)
   = ''sip:a@fe80::1:5060;transport=UDP''"
proof -
  have src: "parseSourceAddr ''[fe80::1]:5060'' = (''fe80::1'', 5060)" by (rule conjunct2 [OF parseSourceAddr_roundtrip_witness])
  show ?thesis
    by (simp add: contactBinding_def ex_register_def src ex_renv_def ex_user_uri_def EffectiveContact_def extractUserFromURI_def viaTransport_def
        itoa_def show_nat.simps digit_char_def)
qed

end
