(* ===== verification/Routing.thy ===== *)
theory Routing
  imports Executor Register
begin

text \<open>
  The SIP side of the application: \<open>internal/signaling/routing\<close> (\<open>invite.go\<close>, \<open>bye.go\<close>, \<open>ack.go\<close>,
  \<open>cancel.go\<close>) and the parts of \<open>internal/signaling/app/app.go\<close> that connect the components: the handlers and
  the callback that runs when a dialog ends.

  The state is the calls (\<open>b2b_world\<close>: dialogs, legs, bridges, media pool), the location store and
  the session records of the HTTP API. The termination callback runs at the end of the dialog operation
  that reported the dialog.
\<close>

section \<open>The state\<close>

record session_record =
  sn_CallID :: string
  sn_ClientAddr :: string
  sn_ClientPort :: int
  sn_ServerAddr :: string
  sn_ServerPort :: int
  sn_StartTime :: time

record switchboard =
  sb_calls :: b2b_world
  sb_loc :: location_store
  sb_sessions :: "(string, session_record) gomap"

definition RecordSession :: "time \<Rightarrow> string \<Rightarrow> string \<Rightarrow> int \<Rightarrow> string \<Rightarrow> int \<Rightarrow> switchboard \<Rightarrow> switchboard" where
  "RecordSession now callID clientAddr clientPort serverAddr serverPort sb =
     sb\<lparr>sb_sessions := gm_set (sb_sessions sb) callID
          \<lparr>sn_CallID = callID, sn_ClientAddr = clientAddr, sn_ClientPort = clientPort, sn_ServerAddr = serverAddr,
           sn_ServerPort = serverPort, sn_StartTime = now\<rparr>\<rparr>"

definition RemoveSession :: "string \<Rightarrow> switchboard \<Rightarrow> switchboard" where
  "RemoveSession callID sb = sb\<lparr>sb_sessions := gm_del (sb_sessions sb) callID\<rparr>"

abbreviation sb_dm :: "switchboard \<Rightarrow> dialog_manager" where
  "sb_dm sb \<equiv> w_dm (sb_calls sb)"

abbreviation sb_pool :: "switchboard \<Rightarrow> media_pool" where
  "sb_pool sb \<equiv> w_pool (sb_calls sb)"

definition set_dm :: "dialog_manager \<Rightarrow> switchboard \<Rightarrow> switchboard" where
  "set_dm m sb = sb\<lparr>sb_calls := (sb_calls sb)\<lparr>w_dm := m\<rparr>\<rparr>"

definition set_pool :: "media_pool \<Rightarrow> switchboard \<Rightarrow> switchboard" where
  "set_pool p sb = sb\<lparr>sb_calls := (sb_calls sb)\<lparr>w_pool := p\<rparr>\<rparr>"

text \<open>What the network and the transactions answer while a request is handled.\<close>

record route_env =
  ro_now :: time
  ro_b2b :: b2b_env
  ro_depth :: nat
  ro_respondOk :: bool
  ro_inviteOk :: bool

section \<open>The end of a dialog\<close>

fun callbackReason :: "TerminateReason \<Rightarrow> MediaTerminateReason" where
  "callbackReason ReasonRemoteBYE = TerminateReasonBYE"
| "callbackReason ReasonCancel = TerminateReasonCancel"
| "callbackReason ReasonTimeout = TerminateReasonTimeout"
| "callbackReason ReasonError = TerminateReasonError"
| "callbackReason _ = TerminateReasonNormal"

definition App_onTerminated :: "b2b_env \<Rightarrow> nat \<times> TerminateReason \<Rightarrow> switchboard \<Rightarrow> switchboard" where
  "App_onTerminated env report sb =
     (let d = dlg_at (sb_dm sb) (fst report); sb1 = RemoveSession (dlg_CallID d) sb; sessionID = dlg_SessionID d in
      if sessionID \<noteq> '''' then
        set_pool (fst (Pool_DestroySession (be_ordS env) (be_rpc env sessionID) sessionID (callbackReason (snd report)) (sb_pool sb1))) sb1
      else sb1)"

text \<open>Run the callback for the dialogs reported since there were \<open>n\<close> reports.\<close>

definition runCallbacks :: "b2b_env \<Rightarrow> nat \<Rightarrow> switchboard \<Rightarrow> switchboard" where
  "runCallbacks env n sb = fold (App_onTerminated env) (drop n (dm_reported (sb_dm sb))) sb"

definition onDialogs :: "b2b_env \<Rightarrow> (dialog_manager \<Rightarrow> dialog_manager \<times> 'r) \<Rightarrow> switchboard \<Rightarrow> switchboard \<times> 'r" where
  "onDialogs env f sb =
     (case f (sb_dm sb) of (m, r) \<Rightarrow> (runCallbacks env (length (dm_reported (sb_dm sb))) (set_dm m sb), r))"

definition onCalls :: "b2b_env \<Rightarrow> (b2b_world \<Rightarrow> b2b_world) \<Rightarrow> switchboard \<Rightarrow> switchboard" where
  "onCalls env f sb = runCallbacks env (length (dm_reported (sb_dm sb))) (sb\<lparr>sb_calls := f (sb_calls sb)\<rparr>)"

definition App_Terminate :: "b2b_env \<Rightarrow> string \<Rightarrow> TerminateReason \<Rightarrow> switchboard \<Rightarrow> switchboard" where
  "App_Terminate env callID reason sb =
     fst (onDialogs env (\<lambda>m. Manager_Terminate (be_parseUri env) (be_dmSession env) (be_dmTx env) (be_now env) (be_now env) m callID reason) sb)"

section \<open>INVITE\<close>

record invite_in =
  in_env :: b2b_env
  in_now :: time
  in_unmarshal :: sdp_unmarshal
  in_tryingOk :: bool
  in_respondOk :: bool
  in_progressOk :: bool
  in_readInvite :: bool
  in_response :: "sip_response option"
  in_rpc :: rpc
  in_create :: create_env
  in_sleep :: "switchboard \<Rightarrow> switchboard"

datatype sdp_error = NoBody | ParseSDP | NoMedia | NoClientAddress

definition extractSDPInfo :: "sdp_unmarshal \<Rightarrow> sip_request \<Rightarrow> sdp_error + (string \<times> int \<times> string list)" where
  "extractSDPInfo unmarshal req =
     (case rq_Body req of
        None \<Rightarrow> Inl NoBody
      | Some body \<Rightarrow>
          (case unmarshal body of
             None \<Rightarrow> Inl ParseSDP
           | Some sdp \<Rightarrow>
               (case sp_Media sdp of
                  [] \<Rightarrow> Inl NoMedia
                | media # _ \<Rightarrow>
                    let clientAddr = (case sm_ConnAddr media of
                                        Some a \<Rightarrow> a
                                      | None \<Rightarrow> (case sp_ConnAddr sdp of Some a \<Rightarrow> a | None \<Rightarrow> '''')) in
                    if clientAddr = '''' then Inl NoClientAddress
                    else Inr (clientAddr, sm_Port media, sm_Formats media))))"

definition extractDestination :: "sip_request \<Rightarrow> string" where
  "extractDestination req =
     (case hdr_To (rq_Headers req) of
        None \<Rightarrow> ''''
      | Some to \<Rightarrow> if uri_User (na_Address to) = '''' then uri_Host (na_Address to) else uri_User (na_Address to))"

definition extractCallerID :: "sip_request \<Rightarrow> string" where
  "extractCallerID req = (case hdr_From (rq_Headers req) of None \<Rightarrow> '''' | Some from \<Rightarrow> uri_User (na_Address from))"

definition extractCallerName :: "sip_request \<Rightarrow> string" where
  "extractCallerName req =
     (case hdr_From (rq_Headers req) of
        None \<Rightarrow> ''''
      | Some from \<Rightarrow> if na_DisplayName from \<noteq> '''' then Trim (na_DisplayName from) [CHR 0x22] else '''')"

definition rejectInvite :: "invite_in \<Rightarrow> string \<Rightarrow> switchboard \<Rightarrow> switchboard" where
  "rejectInvite i callID sb =
     App_Terminate (in_env i) callID ReasonError
       (set_dm (if in_respondOk i then send_out (OnRequestTx ''INVITE'' 406) (sb_dm sb) else sb_dm sb) sb)"

text \<open>
  From the media session on: 183, the pause, 200. The result is the dialog for which the dialplan starts.
\<close>

definition answerInvite :: "invite_in \<Rightarrow> nat \<Rightarrow> string \<times> int \<Rightarrow> session_result \<Rightarrow> switchboard \<Rightarrow> switchboard \<times> nat option" where
  "answerInvite i r client session sb =
     (let callID = dlg_CallID (dlg_at (sb_dm sb) r);
          sb1 = set_dm (upd_dlg r (\<lambda>d. SetMediaEndpoint (fst client) (snd client) (sr_SelectedCodec session) (SetSessionID (sr_SessionID session) d)) (sb_dm sb)) sb;
          sb2 = RecordSession (in_now i) callID (fst client) (snd client) (sr_LocalAddr session) (sr_LocalPort session) sb1;
          sb3 = in_sleep i (set_dm (fst (SendProgress (in_progressOk i) (sb_dm sb2) r (sr_SDPBody session))) sb2) in
      case onDialogs (in_env i) (\<lambda>m. SendOK (in_readInvite i) (in_response i) (be_now (in_env i)) m r (sr_SDPBody session)) sb3 of
        (sb4, None) \<Rightarrow> (sb4, Some r)
      | (sb4, Some err) \<Rightarrow>
          (App_Terminate (in_env i) callID ReasonError
             (set_pool (fst (Pool_DestroySession (be_ordS (in_env i)) (be_rpc (in_env i) (sr_SessionID session)) (sr_SessionID session)
                TerminateReasonError (sb_pool sb4))) sb4), None))"

definition HandleINVITE :: "invite_in \<Rightarrow> sip_request \<Rightarrow> switchboard \<Rightarrow> switchboard \<times> nat option" where
  "HandleINVITE i req sb =
     (case CreateFromInvite (in_now i) (sb_dm sb) req of
        (m, Inl err) \<Rightarrow> (set_dm m sb, None)
      | (m, Inr r) \<Rightarrow>
          let callID = dlg_CallID (dlg_at m r);
              m1 = (case parseSourceAddr (rq_Source req) of
                      (ip, port) \<Rightarrow> if ip \<noteq> '''' then upd_dlg r (SetRemoteEndpoint ip port) m else m) in
          (case SendTrying (in_tryingOk i) (in_now i) m1 r of
             (m2, Some err) \<Rightarrow> (set_dm m2 sb, None)
           | (m2, None) \<Rightarrow>
               (case extractSDPInfo (in_unmarshal i) req of
                  Inl err \<Rightarrow> (rejectInvite i callID (set_dm m2 sb), None)
                | Inr (clientAddr, clientPort, codecs) \<Rightarrow>
                    (case Pool_CreateSession (in_rpc i) (in_create i)
                            \<lparr>si_CallID = callID, si_RemoteAddr = clientAddr, si_RemotePort = clientPort, si_OfferedCodecs = codecs\<rparr> (sb_pool sb) of
                       (p, Inl err) \<Rightarrow> (rejectInvite i callID (set_pool p (set_dm m2 sb)), None)
                     | (p, Inr session) \<Rightarrow> answerInvite i r (clientAddr, clientPort) session (set_pool p (set_dm m2 sb))))))"

section \<open>The dialplan of a call\<close>

definition dialplanSession :: "call_service option \<Rightarrow> nat \<Rightarrow> string \<Rightarrow> switchboard \<Rightarrow> call_session" where
  "dialplanSession callService r destination sb =
     (let d = dlg_at (sb_dm sb) r;
          callerID = (case dlg_InviteRequest d of None \<Rightarrow> '''' | Some invite \<Rightarrow> extractCallerID invite);
          callerName = (case dlg_InviteRequest d of None \<Rightarrow> '''' | Some invite \<Rightarrow> extractCallerName invite) in
      NewSession (sb_dm sb) r callService (Some (sb_loc sb)) destination callerID callerName)"

definition executeDialplan ::
  "executor \<Rightarrow> call_service option \<Rightarrow> b2b_env \<Rightarrow> act_in list \<Rightarrow> nat \<Rightarrow> string \<Rightarrow> switchboard \<Rightarrow> (switchboard \<times> exec_outcome) option" where
  "executeDialplan e callService env ins r destination sb =
     map_option (\<lambda>(s, w, outcome).
         let sb1 = runCallbacks env (length (dm_reported (sb_dm sb))) (sb\<lparr>sb_calls := w\<rparr>) in
         (if outcome \<noteq> StillRunning \<and> \<not> IsTerminated (dlg_at (sb_dm sb1) r)
          then App_Terminate env (dlg_CallID (dlg_at (sb_dm sb1) r)) ReasonLocalBYE sb1 else sb1, outcome))
       (Executor_Execute e ins (dialplanSession callService r destination sb) (sb_calls sb))"

section \<open>BYE, ACK, CANCEL\<close>

definition HandleBYE :: "route_env \<Rightarrow> sip_request \<Rightarrow> switchboard \<Rightarrow> switchboard option" where
  "HandleBYE env req sb =
     map_option (\<lambda>(w, handled).
         let sb1 = onCalls (ro_b2b env) (\<lambda>_. w) sb in
         if handled then sb1
         else fst (onDialogs (ro_b2b env) (\<lambda>m. HandleIncomingBYE (ro_respondOk env) (ro_now env) m req) sb1))
       (Service_HandleIncomingBYE (ro_depth env) (ro_b2b env) req (sb_calls sb))"

definition HandleACK :: "route_env \<Rightarrow> sip_request \<Rightarrow> switchboard \<Rightarrow> switchboard" where
  "HandleACK env req sb = fst (onDialogs (ro_b2b env) (\<lambda>m. ConfirmWithACK (ro_now env) m req) sb)"

definition HandleCANCEL :: "route_env \<Rightarrow> sip_request \<Rightarrow> switchboard \<Rightarrow> switchboard" where
  "HandleCANCEL env req sb =
     fst (onDialogs (ro_b2b env) (\<lambda>m. HandleIncomingCANCEL (ro_respondOk env) (ro_inviteOk env) (ro_now env) m req) sb)"

section \<open>Closing the application\<close>

text \<open>Every dialog that has not ended is terminated, in the order of \<open>List\<close>.\<close>

definition closeDialogs :: "b2b_env \<Rightarrow> nat list \<Rightarrow> switchboard \<Rightarrow> switchboard" where
  "closeDialogs env rs sb =
     fold (\<lambda>r sb. if IsTerminated (dlg_at (sb_dm sb) r) then sb else App_Terminate env (dlg_CallID (dlg_at (sb_dm sb) r)) ReasonLocalBYE sb) rs sb"

text \<open>\<open>None\<close>: one of the stores had been closed before, and closing its channel again panics.\<close>

definition App_Close :: "b2b_env \<Rightarrow> (string, nat) range_order \<Rightarrow> switchboard \<Rightarrow> switchboard option" where
  "App_Close env ord sb =
     (let sb1 = closeDialogs env (Manager_List ord (be_now env) (sb_dm sb)) sb in
      Option.bind (Manager_Close (sb_dm sb1)) (\<lambda>m.
        Option.bind (Pool_Close (sb_pool sb1)) (\<lambda>p.
          map_option (\<lambda>loc. (set_pool p (set_dm m sb1))\<lparr>sb_loc := loc\<rparr>) (Store_Close (sb_loc sb1)))))"

end
