(* ===== verification/Drain.thy ===== *)
theory Drain
  imports B2b_Call
begin

text \<open>
  \<open>internal/signaling/drain\<close> (\<open>state.go\<close>, \<open>migrator.go\<close>, \<open>coordinator.go\<close>): moving the calls of an
  RTP manager to another one so that it can be taken out of service.

  The migrator works on the media pool and the dialog manager, both shared with the rest of
  the program; \<open>drain_world\<close> holds them with the coordinator's own state. Operations of the
  coordinator share \<open>drainOperation\<close> objects with the goroutine that runs the drain, so these
  live in a heap (\<open>dw_ops\<close>) and \<open>activeDrains\<close> maps nodes to indices. \<open>mig_env\<close> is what the
  outside does to one migration: the calls to the RTP managers, the answers to the re-INVITEs,
  map iteration orders. \<open>runDrain\<close> starts one goroutine per session; each of them is one
  \<open>migrateOne\<close>, and they run in an order that is an argument.
\<close>

section \<open>Data\<close>

type_synonym DrainMode = string

definition DrainModeGraceful :: DrainMode where
  "DrainModeGraceful = ''graceful''"

definition DrainModeAggressive :: DrainMode where
  "DrainModeAggressive = ''aggressive''"

record drain_request =
  dr_NodeID :: string
  dr_Mode :: DrainMode
  dr_Timeout :: duration

definition DefaultDrainTimeout :: "DrainMode \<Rightarrow> duration" where
  "DefaultDrainTimeout mode = (if mode = DrainModeAggressive then secs 30 else secs 120)"

datatype mig_error =
    DialogNotFound string
  | ErrSkipBLeg
  | NotConfirmed CallState
  | NoMediaEndpoint
  | CreateFailed mpool_error
  | ReINVITEFailed reinvite_outcome
  | ReINVITERejected int string
  | ReestablishFailed mpool_error
  | NoTargetNode

record session_error =
  se_SessionID :: string
  se_Error :: mig_error
  se_Timestamp :: time

record drain_status =
  ds_NodeID :: string
  ds_State :: DrainState
  ds_Mode :: DrainMode
  ds_StartedAt :: time
  ds_TotalSessions :: nat
  ds_WaitingPlayback :: nat
  ds_MigratedCount :: nat
  ds_FailedCount :: nat
  ds_Errors :: "session_error list"

record drain_op =
  do_status :: drain_status
  do_cancelled :: bool
  do_completed :: bool
  do_timeout :: duration

text \<open>\<open>mg_bridgeMapper\<close> is the \<open>BridgeMapper\<close> interface, implemented by \<open>Originator.GetBridgedBLeg\<close>.\<close>

record migrator =
  mg_bridgeMapper :: "(string \<Rightarrow> string option) option"
  mg_localContact :: sip_uri
  mg_mode :: DrainMode

record drain_world =
  dw_pool :: media_pool
  dw_dm :: dialog_manager
  dw_ops :: "drain_op list"
  dw_active :: "(string, nat) gomap"

record mig_env =
  me_dlgOrd :: "(string, nat entry) range_order"
  me_paramOrd :: "(string, string) range_order"
  me_parseUri :: parse_uri
  me_now :: time
  me_createA :: "rpc \<times> create_env"
  me_createB :: "rpc \<times> create_env"
  me_txA :: "bool \<times> tx_event list"
  me_txB :: "bool \<times> tx_event list"
  me_ordS :: "(string, string) range_order"
  me_destroy :: "string \<Rightarrow> rpc"
  me_bye :: "bool \<times> bool"
  me_bridge :: "udp_listen \<times> string \<times> rpc"

section \<open>Migrating one session\<close>

text \<open>The result of a migration; \<open>MigWaiting\<close>: a re-INVITE is still unanswered.\<close>

datatype mig_result = MigWaiting | MigDone | MigFailed mig_error

definition mig_destroy :: "mig_env \<Rightarrow> string \<Rightarrow> MediaTerminateReason \<Rightarrow> drain_world \<Rightarrow> drain_world" where
  "mig_destroy env sid reason w = w\<lparr>dw_pool := fst (Pool_DestroySession (me_ordS env) (me_destroy env sid) sid reason (dw_pool w))\<rparr>"

definition mig_terminate :: "mig_env \<Rightarrow> string \<Rightarrow> drain_world \<Rightarrow> drain_world" where
  "mig_terminate env callID w =
     w\<lparr>dw_dm := fst (Manager_Terminate (me_parseUri env) (fst (me_bye env)) (snd (me_bye env)) (me_now env) (me_now env)
                      (dw_dm w) callID ReasonLocalBYE)\<rparr>"

definition mig_setSession :: "nat \<Rightarrow> string \<Rightarrow> drain_world \<Rightarrow> drain_world" where
  "mig_setSession r sid w = w\<lparr>dw_dm := upd_dlg r (SetSessionID sid) (dw_dm w)\<rparr>"

definition mig_reinvite ::
  "mig_env \<Rightarrow> bool \<times> tx_event list \<Rightarrow> migrator \<Rightarrow> nat \<Rightarrow> string \<Rightarrow> drain_world \<Rightarrow> drain_world \<times> reinvite_outcome option" where
  "mig_reinvite env tx mg r sdp w =
     (case SendReINVITE (me_paramOrd env) (me_parseUri env) (fst tx) (snd tx) (dw_dm w) r (mg_localContact mg) \<lparr>ro_SDP = sdp, ro_Headers = [], ro_HoldType = HoldTypeNone\<rparr> of
        (m, out) \<Rightarrow> (w\<lparr>dw_dm := m\<rparr>, out))"

fun reinvite_ok :: "reinvite_outcome \<Rightarrow> bool" where
  "reinvite_ok (ReinviteDone res) = rr_Success res"
| "reinvite_ok _ = False"

definition legInfo :: "dialog \<Rightarrow> session_info" where
  "legInfo d = (case GetMediaEndpoint d of (addr, port, codec) \<Rightarrow>
     \<lparr>si_CallID = dlg_CallID d, si_RemoteAddr = addr, si_RemotePort = port, si_OfferedCodecs = [codec]\<rparr>)"

definition migrateIVRCall :: "mig_env \<Rightarrow> migrator \<Rightarrow> nat \<Rightarrow> string \<Rightarrow> drain_world \<Rightarrow> drain_world \<times> mig_result" where
  "migrateIVRCall env mg r targetNodeID w =
     (let dlg = dlg_at (dw_dm w) r in
      if fst (GetMediaEndpoint dlg) = '''' then (w, MigFailed NoMediaEndpoint)
      else
        (case Pool_CreateSessionOnNode (fst (me_createA env)) (snd (me_createA env)) targetNodeID (legInfo dlg) (dw_pool w) of
           (p, Inl err) \<Rightarrow> (w\<lparr>dw_pool := p\<rparr>, MigFailed (CreateFailed err))
         | (p, Inr newSession) \<Rightarrow>
             (case mig_reinvite env (me_txA env) mg r (sr_SDPBody newSession) (w\<lparr>dw_pool := p\<rparr>) of
                (w1, None) \<Rightarrow> (w1, MigWaiting)
              | (w1, Some (ReinviteDone res)) \<Rightarrow>
                  if rr_Success res then
                    let oldSessionID = dlg_SessionID (dlg_at (dw_dm w1) r) in
                    (mig_setSession r (sr_SessionID newSession) (mig_destroy env oldSessionID TerminateReasonNormal w1), MigDone)
                  else
                    let w2 = mig_destroy env (sr_SessionID newSession) TerminateReasonError w1 in
                    (if mg_mode mg = DrainModeAggressive then mig_terminate env (dlg_CallID dlg) w2 else w2,
                     MigFailed (ReINVITERejected (rr_StatusCode res) (rr_Reason res)))
              | (w1, Some out) \<Rightarrow>
                  (mig_destroy env (sr_SessionID newSession) TerminateReasonError w1, MigFailed (ReINVITEFailed out)))))"

text \<open>The error \<open>migrateBridgedCall\<close> reports for two re-INVITE outcomes that are not both successful.\<close>

fun bridgedError :: "reinvite_outcome \<Rightarrow> reinvite_outcome \<Rightarrow> mig_error" where
  "bridgedError (ReinviteDone a) (ReinviteDone b) =
     (if \<not> rr_Success a then ReINVITERejected (rr_StatusCode a) (rr_Reason a) else ReINVITERejected (rr_StatusCode b) (rr_Reason b))"
| "bridgedError (ReinviteDone a) out = ReINVITEFailed out"
| "bridgedError out b = ReINVITEFailed out"

definition terminateBoth :: "mig_env \<Rightarrow> migrator \<Rightarrow> string \<Rightarrow> string \<Rightarrow> drain_world \<Rightarrow> drain_world" where
  "terminateBoth env mg callA callB w =
     (if mg_mode mg = DrainModeAggressive then mig_terminate env callB (mig_terminate env callA w) else w)"

definition migrateBridgedCall :: "mig_env \<Rightarrow> migrator \<Rightarrow> nat \<Rightarrow> nat \<Rightarrow> string \<Rightarrow> drain_world \<Rightarrow> drain_world \<times> mig_result" where
  "migrateBridgedCall env mg a b targetNodeID w =
     (let dlgA = dlg_at (dw_dm w) a; dlgB = dlg_at (dw_dm w) b;
          aLegSessionID = dlg_SessionID dlgA; bLegSessionID = dlg_SessionID dlgB in
      if fst (GetMediaEndpoint dlgA) = '''' then (w, MigFailed NoMediaEndpoint)
      else if fst (GetMediaEndpoint dlgB) = '''' then (w, MigFailed NoMediaEndpoint)
      else
        (case Pool_CreateSessionOnNode (fst (me_createA env)) (snd (me_createA env)) targetNodeID (legInfo dlgA) (dw_pool w) of
           (p, Inl err) \<Rightarrow> (w\<lparr>dw_pool := p\<rparr>, MigFailed (CreateFailed err))
         | (p, Inr newA) \<Rightarrow>
             (case Pool_CreateSessionOnNode (fst (me_createB env)) (snd (me_createB env)) targetNodeID (legInfo dlgB) p of
                (p', Inl err) \<Rightarrow>
                  (mig_destroy env (sr_SessionID newA) TerminateReasonError (w\<lparr>dw_pool := p'\<rparr>), MigFailed (CreateFailed err))
              | (p', Inr newB) \<Rightarrow>
                  (case mig_reinvite env (me_txA env) mg a (sr_SDPBody newA) (w\<lparr>dw_pool := p'\<rparr>) of
                     (w1, None) \<Rightarrow> (w1, MigWaiting)
                   | (w1, Some outA) \<Rightarrow>
                       (case mig_reinvite env (me_txB env) mg b (sr_SDPBody newB) w1 of
                          (w2, None) \<Rightarrow> (w2, MigWaiting)
                        | (w2, Some outB) \<Rightarrow>
                            if \<not> reinvite_ok outA \<or> \<not> reinvite_ok outB then
                              let w3 = mig_destroy env (sr_SessionID newB) TerminateReasonError
                                         (mig_destroy env (sr_SessionID newA) TerminateReasonError w2) in
                              (terminateBoth env mg (dlg_CallID dlgA) (dlg_CallID dlgB) w3, MigFailed (bridgedError outA outB))
                            else
                              let w3 = mig_destroy env bLegSessionID TerminateReasonNormal
                                         (mig_destroy env aLegSessionID TerminateReasonNormal w2);
                                  w4 = mig_setSession b (sr_SessionID newB) (mig_setSession a (sr_SessionID newA) w3) in
                              (case me_bridge env of
                                 (listen, uuid, rpc) \<Rightarrow>
                                   (case Pool_BridgeMedia listen uuid rpc (sr_SessionID newA) (sr_SessionID newB) (dw_pool w4) of
                                      (p'', Inl err) \<Rightarrow>
                                        (terminateBoth env mg (dlg_CallID dlgA) (dlg_CallID dlgB) (w4\<lparr>dw_pool := p''\<rparr>),
                                         MigFailed (ReestablishFailed err))
                                    | (p'', Inr bridgeID) \<Rightarrow> (w4\<lparr>dw_pool := p''\<rparr>, MigDone))))))))"

definition MigrateSession :: "mig_env \<Rightarrow> migrator \<Rightarrow> string \<Rightarrow> string \<Rightarrow> drain_world \<Rightarrow> drain_world \<times> mig_result" where
  "MigrateSession env mg sessionID targetNodeID w =
     (case FindBySessionID (me_dlgOrd env) (me_now env) (dw_dm w) sessionID of
        None \<Rightarrow> (w, MigFailed (DialogNotFound sessionID))
      | Some r \<Rightarrow>
          let dlg = dlg_at (dw_dm w) r in
          if dlg_Direction dlg = DirectionOutbound then (w, MigFailed ErrSkipBLeg)
          else if dlg_State dlg \<noteq> StateConfirmed then (w, MigFailed (NotConfirmed (dlg_State dlg)))
          else
            (case Option.bind (mg_bridgeMapper mg) (\<lambda>f. f (dlg_CallID dlg)) of
               None \<Rightarrow> migrateIVRCall env mg r targetNodeID w
             | Some bLegCallID \<Rightarrow>
                 (case Manager_Get (me_now env) (dw_dm w) bLegCallID of
                    Some b \<Rightarrow> migrateBridgedCall env mg r b targetNodeID w
                  | None \<Rightarrow> migrateIVRCall env mg r targetNodeID w)))"

section \<open>The coordinator\<close>

datatype drain_error = DrainInProgress string | StartDrainFailed mpool_error | NodeUnknown string | NoDrainInProgress string
  | CancelDrainFailed mpool_error

definition upd_op :: "nat \<Rightarrow> (drain_op \<Rightarrow> drain_op) \<Rightarrow> drain_world \<Rightarrow> drain_world" where
  "upd_op k f w = w\<lparr>dw_ops := (dw_ops w)[k := f (dw_ops w ! k)]\<rparr>"

definition upd_status :: "nat \<Rightarrow> (drain_status \<Rightarrow> drain_status) \<Rightarrow> drain_world \<Rightarrow> drain_world" where
  "upd_status k f = upd_op k (\<lambda>x. x\<lparr>do_status := f (do_status x)\<rparr>)"

text \<open>
  \<open>StartDrain\<close> returns the operation and the sessions with which its goroutine starts.
\<close>

definition Coordinator_StartDrain ::
  "(string, unit) range_order \<Rightarrow> time \<Rightarrow> drain_request \<Rightarrow> drain_world \<Rightarrow> drain_world \<times> (drain_error + nat \<times> string list)" where
  "Coordinator_StartDrain ord now req w =
     (if map_of (dw_active w) (dr_NodeID req) \<noteq> None then (w, Inl (DrainInProgress (dr_NodeID req)))
      else
        (case StartDrain (dr_NodeID req) (dw_pool w) of
           (p, Some err) \<Rightarrow> (w\<lparr>dw_pool := p\<rparr>, Inl (StartDrainFailed err))
         | (p, None) \<Rightarrow>
             let timeout = (if dr_Timeout req = 0 then DefaultDrainTimeout (dr_Mode req) else dr_Timeout req);
                 sessions = SessionsOnNode ord p (dr_NodeID req);
                 k = length (dw_ops w);
                 op = \<lparr>do_status = \<lparr>ds_NodeID = dr_NodeID req, ds_State = StateDraining, ds_Mode = dr_Mode req, ds_StartedAt = now,
                         ds_TotalSessions = length sessions, ds_WaitingPlayback = 0, ds_MigratedCount = 0, ds_FailedCount = 0,
                         ds_Errors = []\<rparr>,
                       do_cancelled = False, do_completed = False, do_timeout = timeout\<rparr> in
             (w\<lparr>dw_pool := p, dw_ops := dw_ops w @ [op], dw_active := gm_set (dw_active w) (dr_NodeID req) k\<rparr>, Inr (k, sessions))))"

definition findTargetNode :: "media_pool \<Rightarrow> string \<Rightarrow> string option" where
  "findTargetNode p excludeNodeID =
     map_option ms_NodeID
       (find (\<lambda>m. ms_NodeID m \<noteq> excludeNodeID \<and> ms_Healthy m \<and> ms_DrainState m = StateActive) (ps_Members (Pool_Stats p)))"

definition completeDrain :: "string \<Rightarrow> nat \<Rightarrow> drain_world \<Rightarrow> drain_world" where
  "completeDrain nodeID k w =
     (case CompleteDrain nodeID (dw_pool w) of
        (p, Some err) \<Rightarrow> w\<lparr>dw_pool := p\<rparr>
      | (p, None) \<Rightarrow> upd_status k (\<lambda>s. s\<lparr>ds_State := StateDisabled\<rparr>) (w\<lparr>dw_pool := p\<rparr>))"

definition failDrain :: "time \<Rightarrow> string \<Rightarrow> nat \<Rightarrow> mig_error \<Rightarrow> drain_world \<Rightarrow> drain_world" where
  "failDrain now nodeID k err w =
     upd_status k (\<lambda>s. s\<lparr>ds_State := StateActive, ds_Errors := ds_Errors s @ [\<lparr>se_SessionID = '''', se_Error = err, se_Timestamp = now\<rparr>]\<rparr>)
       (w\<lparr>dw_pool := fst (CancelDrain nodeID (dw_pool w))\<rparr>)"

text \<open>
  One goroutine of \<open>runDrain\<close>. \<open>None\<close> for the environment: the semaphore was not acquired because
  the drain was cancelled or timed out.
\<close>

definition migrateOne :: "migrator \<Rightarrow> nat \<Rightarrow> string \<Rightarrow> string \<times> mig_env option \<Rightarrow> drain_world \<Rightarrow> drain_world" where
  "migrateOne mg k targetNodeID job w =
     (case job of
        (sessionID, None) \<Rightarrow> w
      | (sessionID, Some env) \<Rightarrow>
          (case MigrateSession env mg sessionID targetNodeID w of
             (w', MigWaiting) \<Rightarrow> w'
           | (w', MigDone) \<Rightarrow> upd_status k (\<lambda>s. s\<lparr>ds_MigratedCount := ds_MigratedCount s + 1\<rparr>) w'
           | (w', MigFailed ErrSkipBLeg) \<Rightarrow> w'
           | (w', MigFailed err) \<Rightarrow>
               upd_status k (\<lambda>s. s\<lparr>ds_FailedCount := ds_FailedCount s + 1,
                 ds_Errors := ds_Errors s @ [\<lparr>se_SessionID = sessionID, se_Error = err, se_Timestamp = me_now env\<rparr>]\<rparr>) w'))"

definition drainFinish :: "(string, unit) range_order \<Rightarrow> string \<Rightarrow> nat \<Rightarrow> drain_world \<Rightarrow> drain_world" where
  "drainFinish ord nodeID k w =
     (if length (SessionsOnNode ord (dw_pool w) nodeID) = 0 then completeDrain nodeID k w else w)"

text \<open>The deferred \<open>op.cancel()\<close> and \<open>close(op.completed)\<close>.\<close>

definition drainExit :: "nat \<Rightarrow> drain_world \<Rightarrow> drain_world" where
  "drainExit k = upd_op k (\<lambda>x. x\<lparr>do_cancelled := True, do_completed := True\<rparr>)"

definition runDrain ::
  "(string, unit) range_order \<Rightarrow> time \<Rightarrow> migrator \<Rightarrow> nat \<Rightarrow> string \<Rightarrow> string list \<Rightarrow> (string \<times> mig_env option) list \<Rightarrow> drain_world \<Rightarrow> drain_world" where
  "runDrain ord now mg k nodeID sessions jobs w =
     drainExit k
       (if length sessions = 0 then completeDrain nodeID k w
        else
          (case findTargetNode (dw_pool w) nodeID of
             None \<Rightarrow> failDrain now nodeID k NoTargetNode w
           | Some targetNodeID \<Rightarrow> drainFinish ord nodeID k (fold (migrateOne mg k targetNodeID) jobs w)))"

definition GetDrainStatus :: "string \<Rightarrow> drain_world \<Rightarrow> drain_error + drain_status" where
  "GetDrainStatus nodeID w =
     (case map_of (dw_active w) nodeID of
        Some k \<Rightarrow> Inr (do_status (dw_ops w ! k))
      | None \<Rightarrow>
          (case GetMemberByID (dw_pool w) nodeID of
             None \<Rightarrow> Inl (NodeUnknown nodeID)
           | Some i \<Rightarrow>
               (case find (\<lambda>m. ms_NodeID m = nodeID) (ps_Members (Pool_Stats (dw_pool w))) of
                  None \<Rightarrow> Inl (NodeUnknown nodeID)
                | Some m \<Rightarrow> Inr \<lparr>ds_NodeID = nodeID, ds_State = ms_DrainState m, ds_Mode = '''', ds_StartedAt = 0,
                    ds_TotalSessions = ms_SessionCount m, ds_WaitingPlayback = 0, ds_MigratedCount = 0, ds_FailedCount = 0,
                    ds_Errors = []\<rparr>)))"

definition Coordinator_CancelDrain :: "string \<Rightarrow> drain_world \<Rightarrow> drain_world \<times> drain_error option" where
  "Coordinator_CancelDrain nodeID w =
     (case map_of (dw_active w) nodeID of
        None \<Rightarrow> (w, Some (NoDrainInProgress nodeID))
      | Some k \<Rightarrow>
          let w1 = upd_op k (\<lambda>x. x\<lparr>do_cancelled := True\<rparr>) w in
          (case CancelDrain nodeID (dw_pool w1) of
             (p, Some err) \<Rightarrow> (w1\<lparr>dw_pool := p\<rparr>, Some (CancelDrainFailed err))
           | (p, None) \<Rightarrow> (w1\<lparr>dw_pool := p, dw_active := gm_del (dw_active w1) nodeID\<rparr>, None)))"

definition Coordinator_Cleanup :: "drain_world \<Rightarrow> drain_world" where
  "Coordinator_Cleanup w = w\<lparr>dw_active := filter (\<lambda>e. \<not> do_completed (dw_ops w ! snd e)) (dw_active w)\<rparr>"

end
