(* ===== verification/Http_Api.thy ===== *)
theory Http_Api
  imports Routing Drain Go_Float
begin

text \<open>
  \<open>internal/signaling/api/server.go\<close>: the HTTP interface. A handler maps a request to a response and,
  for the drain operations, to a new state of the drain coordinator and the pool.

  A response carries the JSON value that is encoded (\<open>Json_Print\<close> has the text). A Go map is encoded
  with its keys in order, a struct with its fields in the order of their declaration. \<open>http_request\<close>
  holds what \<open>net/http\<close> has parsed: the method, the decoded path and the query.
\<close>

section \<open>Requests and responses\<close>

record http_request =
  hq_Method :: string
  hq_Path :: string
  hq_Query :: "(string \<times> string) list"

text \<open>\<open>EmptyBody\<close>: the value could not be encoded.\<close>

datatype http_body = TextBody string | JsonBody json | EmptyBody

record http_response =
  hr_Status :: int
  hr_ContentType :: string
  hr_Body :: http_body

definition text_plain :: string where
  "text_plain = ''text/plain; charset=utf-8''"

definition httpError :: "string \<Rightarrow> int \<Rightarrow> http_response" where
  "httpError msg code = \<lparr>hr_Status = code, hr_ContentType = text_plain, hr_Body = TextBody (msg @ [CHR 0x0A])\<rparr>"

definition writeJSON :: "json option \<Rightarrow> http_response" where
  "writeJSON v =
     \<lparr>hr_Status = 200, hr_ContentType = ''application/json'',
      hr_Body = (case v of None \<Rightarrow> EmptyBody | Some j \<Rightarrow> JsonBody j)\<rparr>"

abbreviation methodNotAllowed :: http_response where
  "methodNotAllowed \<equiv> httpError ''Method not allowed'' 405"

definition jint :: "int \<Rightarrow> json" where
  "jint n = JNum (itoa n)"

definition omitempty :: "bool \<Rightarrow> string \<Rightarrow> json \<Rightarrow> (string \<times> json) list" where
  "omitempty skip k v = (if skip then [] else [(k, v)])"

definition secondsSince :: "time \<Rightarrow> time \<Rightarrow> int" where
  "secondsSince now t = f64_to_int (Duration_Seconds (now - t))"

fun jfloat :: "(rat \<Rightarrow> string) \<Rightarrow> f32 \<Rightarrow> json option" where
  "jfloat show (F32 q) = Some (JNum (show q))"
| "jfloat show _ = None"

section \<open>The server\<close>

record api =
  ap_board :: switchboard
  ap_ops :: "drain_op list"
  ap_active :: "(string, nat) gomap"
  ap_startTime :: time
  ap_dialogMgr :: bool
  ap_rtpManagers :: bool
  ap_drainProvider :: bool

text \<open>
  What the handlers depend on besides the state: the time, the layouts of times and numbers, the iteration
  orders of maps, and the text of an error.
\<close>

record api_env =
  ae_now :: time
  ae_format :: "time \<Rightarrow> string"
  ae_timeJson :: "time \<Rightarrow> string"
  ae_floatJson :: "rat \<Rightarrow> string"
  ae_uriString :: uri_string
  ae_ordA :: aor_order
  ae_ord :: "(string, binding) range_order"
  ae_regOrd :: "(string, binding list) range_order"
  ae_dlgOrd :: "(string, nat) range_order"
  ae_sessOrd :: "(string, session_record) range_order"
  ae_setOrd :: "(string, unit) range_order"
  ae_drainText :: "drain_error \<Rightarrow> string"
  ae_migText :: "mig_error \<Rightarrow> string"

definition drains :: "api \<Rightarrow> drain_world" where
  "drains a = \<lparr>dw_pool = sb_pool (ap_board a), dw_dm = sb_dm (ap_board a), dw_ops = ap_ops a, dw_active = ap_active a\<rparr>"

definition set_drains :: "drain_world \<Rightarrow> api \<Rightarrow> api" where
  "set_drains w a =
     a\<lparr>ap_board := set_pool (dw_pool w) (set_dm (dw_dm w) (ap_board a)), ap_ops := dw_ops w, ap_active := dw_active w\<rparr>"

section \<open>Health and statistics\<close>

definition handleHealth :: "api_env \<Rightarrow> api \<Rightarrow> http_response" where
  "handleHealth env a =
     writeJSON (Some (JObj [(''status'', JStr ''ok''), (''uptime'', jint (secondsSince (ae_now env) (ap_startTime a)))]))"

definition allRegistrations :: "api_env \<Rightarrow> api \<Rightarrow> (string, binding list) gomap" where
  "allRegistrations env a = GetAllRegistrations (ae_ordA env) (ae_ord env) (ae_now env) (sb_loc (ap_board a))"

definition handleStats :: "api_env \<Rightarrow> api \<Rightarrow> http_response" where
  "handleStats env a =
     (let activeSessions = int (length (sb_sessions (ap_board a)));
          registrations = allRegistrations env a;
          totalBindings = fold (\<lambda>e n. n + int (length (snd e))) (ae_regOrd env registrations) 0;
          dialogCount = (if ap_dialogMgr a then int (Manager_Count (ae_now env) (sb_dm (ap_board a))) else 0) in
      writeJSON (Some (JObj [(''active_dialogs'', jint dialogCount), (''active_sessions'', jint activeSessions),
        (''total_bindings'', jint totalBindings), (''total_registrations'', jint (int (length registrations))),
        (''total_sessions'', jint activeSessions)])))"

section \<open>Registrations\<close>

definition qField :: "api_env \<Rightarrow> binding \<Rightarrow> (string \<times> json) list option" where
  "qField env b = (if b_QValue b = F32 0 then Some [] else map_option (\<lambda>v. [(''q'', v)]) (jfloat (ae_floatJson env) (b_QValue b)))"

definition bindingResponse :: "api_env \<Rightarrow> binding \<Rightarrow> json option" where
  "bindingResponse env b =
     map_option (\<lambda>q. JObj ([(''aor'', JStr (b_AOR b)), (''contact_uri'', JStr (b_ContactURI b)), (''binding_id'', JStr (b_BindingID b))] @
         omitempty (b_ReceivedIP b = '''') ''received_ip'' (JStr (b_ReceivedIP b)) @
         omitempty (b_ReceivedPort b = 0) ''received_port'' (jint (b_ReceivedPort b)) @
         [(''transport'', JStr (b_Transport b)), (''expires'', jint (b_Expires b)), (''expires_at'', JStr (ae_format env (b_ExpiresAt b))),
          (''registered_at'', JStr (ae_format env (b_RegisteredAt b)))] @ q @
         omitempty (b_UserAgent b = '''') ''user_agent'' (JStr (b_UserAgent b)) @
         omitempty (b_InstanceID b = '''') ''instance_id'' (JStr (b_InstanceID b)) @
         omitempty (b_Path b = []) ''path'' (JArr (map JStr (b_Path b)))))
       (qField env b)"

text \<open>\<open>Encode\<close> of a list: an element that cannot be encoded fails the whole.\<close>

definition jarray :: "('a \<Rightarrow> json option) \<Rightarrow> 'a list \<Rightarrow> json option" where
  "jarray f xs = map_option JArr (those (map f xs))"

definition listedBindings :: "api_env \<Rightarrow> api \<Rightarrow> binding list" where
  "listedBindings env a = concat (map snd (ae_regOrd env (allRegistrations env a)))"

definition handleRegistrations :: "api_env \<Rightarrow> http_request \<Rightarrow> api \<Rightarrow> http_response" where
  "handleRegistrations env req a =
     (if hq_Method req \<noteq> ''GET'' then methodNotAllowed
      else writeJSON (jarray (bindingResponse env) (listedBindings env a)))"

fun BindingSource_json :: "BindingSource \<Rightarrow> string" where
  "BindingSource_json BindingSourceSIP = ''sip''"
| "BindingSource_json BindingSourceAPI = ''api''"
| "BindingSource_json BindingSourceUnset = ''''"

definition Binding_json :: "api_env \<Rightarrow> binding \<Rightarrow> json option" where
  "Binding_json env b =
     map_option (\<lambda>q. JObj ([(''aor'', JStr (b_AOR b)), (''binding_id'', JStr (b_BindingID b)), (''contact_uri'', JStr (b_ContactURI b)),
         (''received_ip'', JStr (b_ReceivedIP b)), (''received_port'', jint (b_ReceivedPort b)), (''transport'', JStr (b_Transport b))] @
         omitempty (b_Path b = []) ''path'' (JArr (map JStr (b_Path b))) @
         omitempty (b_InstanceID b = '''') ''instance_id'' (JStr (b_InstanceID b)) @ q @
         [(''expires'', jint (b_Expires b)), (''expires_at'', JStr (ae_timeJson env (b_ExpiresAt b))),
          (''registered_at'', JStr (ae_timeJson env (b_RegisteredAt b))), (''call_id'', JStr (b_CallID b)),
          (''cseq'', jint (uint (b_CSeq b)))] @
         omitempty (b_UserAgent b = '''') ''user_agent'' (JStr (b_UserAgent b)) @
         omitempty (BindingSource_json (b_Source b) = '''') ''source'' (JStr (BindingSource_json (b_Source b))) @
         omitempty (b_ExternalProxy b = '''') ''external_proxy'' (JStr (b_ExternalProxy b))))
       (qField env b)"

text \<open>\<open>url.PathUnescape\<close>\<close>

fun PathUnescape :: "string \<Rightarrow> string option" where
  "PathUnescape [] = Some []"
| "PathUnescape (c # cs) =
     (if c = CHR ''%'' then
        (case cs of
           a # b # rest \<Rightarrow>
             (case (hex_digit a, hex_digit b) of
                (Some x, Some y) \<Rightarrow> map_option (\<lambda>t. char_of (16 * x + y) # t) (PathUnescape rest)
              | _ \<Rightarrow> None)
         | _ \<Rightarrow> None)
      else map_option (\<lambda>t. c # t) (PathUnescape cs))"

definition handleRegistrationByAOR :: "api_env \<Rightarrow> http_request \<Rightarrow> api \<Rightarrow> http_response" where
  "handleRegistrationByAOR env req a =
     (if hq_Method req \<noteq> ''GET'' then methodNotAllowed
      else
        let path = TrimPrefix (hq_Path req) ''/api/v1/registrations/'' in
        if path = '''' then httpError ''AOR required'' 400
        else
          (case PathUnescape path of
             None \<Rightarrow> httpError ''Invalid AOR encoding'' 400
           | Some aor \<Rightarrow>
               let bindings = GetAllBindings (ae_ord env) (ae_now env) (sb_loc (ap_board a)) aor in
               if length bindings = 0 then httpError ''Not found'' 404
               else writeJSON (jarray (Binding_json env) bindings)))"

section \<open>Dialogs\<close>

definition Info_json :: "dialog_info \<Rightarrow> json" where
  "Info_json i =
     JObj ([(''call_id'', JStr (di_CallID i)), (''local_tag'', JStr (di_LocalTag i)), (''remote_tag'', JStr (di_RemoteTag i)),
       (''dialog_id'', JStr (di_DialogID i)), (''direction'', JStr (di_Direction i)), (''local_uri'', JStr (di_LocalURI i)),
       (''remote_uri'', JStr (di_RemoteURI i))] @
       omitempty (di_LocalContact i = '''') ''local_contact'' (JStr (di_LocalContact i)) @
       omitempty (di_RemoteContact i = '''') ''remote_contact'' (JStr (di_RemoteContact i)) @
       [(''state'', JStr (di_State i)), (''state_changed_at'', JStr (di_StateChangedAt i)),
        (''local_cseq'', jint (uint (di_LocalCSeq i))), (''remote_cseq'', jint (uint (di_RemoteCSeq i)))] @
       omitempty (di_RouteSet i = []) ''route_set'' (JArr (map JStr (di_RouteSet i))) @
       omitempty (di_SessionID i = '''') ''session_id'' (JStr (di_SessionID i)) @
       omitempty (di_RemoteAddr i = '''') ''remote_addr'' (JStr (di_RemoteAddr i)) @
       omitempty (di_RemotePort i = 0) ''remote_port'' (jint (di_RemotePort i)) @
       omitempty (di_Codec i = '''') ''codec'' (JStr (di_Codec i)) @
       [(''created_at'', JStr (di_CreatedAt i)), (''duration_seconds'', jint (di_Duration i))] @
       omitempty (di_TerminateReason i = '''') ''terminate_reason'' (JStr (di_TerminateReason i)))"

definition dialogInfo :: "api_env \<Rightarrow> api \<Rightarrow> nat \<Rightarrow> dialog_info" where
  "dialogInfo env a r = ToInfo (ae_format env) (ae_uriString env) (ae_now env) (dlg_at (sb_dm (ap_board a)) r)"

definition ListInfos :: "api_env \<Rightarrow> api \<Rightarrow> nat list \<Rightarrow> dialog_info list" where
  "ListInfos env a dialogs = map (dialogInfo env a) dialogs"

definition handleDialogs :: "api_env \<Rightarrow> http_request \<Rightarrow> api \<Rightarrow> http_response" where
  "handleDialogs env req a =
     (if hq_Method req \<noteq> ''GET'' then methodNotAllowed
      else if \<not> ap_dialogMgr a then writeJSON (Some (JArr []))
      else writeJSON (Some (JArr (map Info_json
             (ListInfos env a (Manager_List (ae_dlgOrd env) (ae_now env) (sb_dm (ap_board a))))))))"

definition handleDialogByID :: "api_env \<Rightarrow> http_request \<Rightarrow> api \<Rightarrow> http_response" where
  "handleDialogByID env req a =
     (if hq_Method req \<noteq> ''GET'' then methodNotAllowed
      else if \<not> ap_dialogMgr a then httpError ''Not found'' 404
      else
        let path = TrimPrefix (hq_Path req) ''/api/v1/dialogs/'' in
        if path = '''' then httpError ''Dialog ID required'' 400
        else
          (case PathUnescape path of
             None \<Rightarrow> httpError ''Invalid dialog ID encoding'' 400
           | Some dialogID \<Rightarrow>
               let callID = (case Index dialogID '';'' of Some idx \<Rightarrow> if idx > 0 then take idx dialogID else dialogID | None \<Rightarrow> dialogID) in
               (case Manager_Get (ae_now env) (sb_dm (ap_board a)) callID of
                  None \<Rightarrow> httpError ''Not found'' 404
                | Some r \<Rightarrow> writeJSON (Some (Info_json (dialogInfo env a r))))))"

section \<open>Media sessions and RTP managers\<close>

definition sessionJson :: "api_env \<Rightarrow> session_record \<Rightarrow> json" where
  "sessionJson env s =
     JObj [(''call_id'', JStr (sn_CallID s)), (''client_addr'', JStr (sn_ClientAddr s)), (''client_port'', jint (sn_ClientPort s)),
       (''duration'', jint (secondsSince (ae_now env) (sn_StartTime s))), (''server_addr'', JStr (sn_ServerAddr s)),
       (''server_port'', jint (sn_ServerPort s)), (''status'', JStr ''active'')]"

definition handleSessions :: "api_env \<Rightarrow> http_request \<Rightarrow> api \<Rightarrow> http_response" where
  "handleSessions env req a =
     (if hq_Method req \<noteq> ''GET'' then methodNotAllowed
      else writeJSON (Some (JArr (map (sessionJson env \<circ> snd) (ae_sessOrd env (sb_sessions (ap_board a)))))))"

definition memberJson :: "member_stats \<Rightarrow> json" where
  "memberJson m =
     JObj [(''address'', JStr (ms_Address m)), (''drain_state'', JStr (DrainState_String (ms_DrainState m))), (''healthy'', JBool (ms_Healthy m)),
       (''node_id'', JStr (ms_NodeID m)), (''session_count'', jint (int (ms_SessionCount m)))]"

definition rtpManagersJson :: "pool_stats \<Rightarrow> json" where
  "rtpManagersJson st =
     JObj [(''active_sessions'', jint (int (ps_ActiveSessions st))), (''healthy_members'', jint (int (ps_HealthyMembers st))),
       (''members'', JArr (map memberJson (ps_Members st))), (''total_members'', jint (int (ps_TotalMembers st)))]"

definition handleRtpManagers :: "api_env \<Rightarrow> http_request \<Rightarrow> api \<Rightarrow> http_response" where
  "handleRtpManagers env req a =
     (if hq_Method req \<noteq> ''GET'' then methodNotAllowed
      else if \<not> ap_rtpManagers a then
        writeJSON (Some (rtpManagersJson \<lparr>ps_TotalMembers = 0, ps_HealthyMembers = 0, ps_ActiveSessions = 0, ps_Members = []\<rparr>))
      else writeJSON (Some (rtpManagersJson (Pool_Stats (sb_pool (ap_board a))))))"

section \<open>Drains\<close>

text \<open>A started drain: the operation and the sessions \<open>runDrain\<close> will work on.\<close>

type_synonym drain_job = "nat \<times> string \<times> string list"

definition drainMode :: "http_request \<Rightarrow> DrainMode option" where
  "drainMode req =
     (case map_of (hq_Query req) ''mode'' of
        None \<Rightarrow> Some DrainModeGraceful
      | Some modeParam \<Rightarrow>
          if modeParam = '''' then Some DrainModeGraceful
          else if modeParam = ''graceful'' then Some DrainModeGraceful
          else if modeParam = ''aggressive'' then Some DrainModeAggressive else None)"

definition invalidMode :: string where
  "invalidMode = ''Invalid mode. Use '' @ [CHR 0x27] @ ''graceful'' @ [CHR 0x27] @ '' or '' @ [CHR 0x27] @ ''aggressive'' @ [CHR 0x27]"

text \<open>
  The status line is written before \<open>writeJSON\<close> sets the content type, which is then guessed from the
  body.
\<close>

definition acceptedJSON :: "json \<Rightarrow> http_response" where
  "acceptedJSON v = \<lparr>hr_Status = 202, hr_ContentType = text_plain, hr_Body = JsonBody v\<rparr>"

definition handleStartDrain :: "api_env \<Rightarrow> http_request \<Rightarrow> string \<Rightarrow> api \<Rightarrow> api \<times> http_response \<times> drain_job option" where
  "handleStartDrain env req nodeID a =
     (case drainMode req of
        None \<Rightarrow> (a, httpError invalidMode 400, None)
      | Some mode \<Rightarrow>
          (case Coordinator_StartDrain (ae_setOrd env) (ae_now env) \<lparr>dr_NodeID = nodeID, dr_Mode = mode, dr_Timeout = 0\<rparr> (drains a) of
             (w, Inl err) \<Rightarrow> (set_drains w a, httpError (ae_drainText env err) 400, None)
           | (w, Inr (k, sessions)) \<Rightarrow>
               let status = do_status (dw_ops w ! k) in
               (set_drains w a,
                acceptedJSON (JObj [(''message'', JStr ''Drain started''), (''mode'', JStr (ds_Mode status)), (''node_id'', JStr (ds_NodeID status)),
                  (''total_sessions'', jint (int (ds_TotalSessions status)))]),
                Some (k, nodeID, sessions))))"

definition drainErrorJson :: "api_env \<Rightarrow> session_error \<Rightarrow> json" where
  "drainErrorJson env e =
     JObj [(''error'', JStr (ae_migText env (se_Error e))), (''session_id'', JStr (se_SessionID e)),
       (''timestamp'', JStr (ae_format env (se_Timestamp e)))]"

definition drainStatusJson :: "api_env \<Rightarrow> drain_status \<Rightarrow> json" where
  "drainStatusJson env st =
     JObj (omitempty (ds_StartedAt st = 0) ''elapsed_seconds'' (jint (secondsSince (ae_now env) (ds_StartedAt st))) @
       omitempty (ds_Errors st = []) ''errors'' (JArr (map (drainErrorJson env) (ds_Errors st))) @
       [(''failed_count'', jint (int (ds_FailedCount st))), (''migrated_count'', jint (int (ds_MigratedCount st))),
        (''mode'', JStr (ds_Mode st)), (''node_id'', JStr (ds_NodeID st))] @
       omitempty (ds_StartedAt st = 0) ''started_at'' (JStr (ae_format env (ds_StartedAt st))) @
       [(''state'', JStr (DrainState_String (ds_State st))), (''total_sessions'', jint (int (ds_TotalSessions st))),
        (''waiting_playback'', jint (int (ds_WaitingPlayback st)))])"

definition handleGetDrainStatus :: "api_env \<Rightarrow> string \<Rightarrow> api \<Rightarrow> http_response" where
  "handleGetDrainStatus env nodeID a =
     (case GetDrainStatus nodeID (drains a) of
        Inl err \<Rightarrow> httpError (ae_drainText env err) 404
      | Inr status \<Rightarrow> writeJSON (Some (drainStatusJson env status)))"

definition handleCancelDrain :: "api_env \<Rightarrow> string \<Rightarrow> api \<Rightarrow> api \<times> http_response" where
  "handleCancelDrain env nodeID a =
     (case Coordinator_CancelDrain nodeID (drains a) of
        (w, Some err) \<Rightarrow> (set_drains w a, httpError (ae_drainText env err) 400)
      | (w, None) \<Rightarrow> (set_drains w a, writeJSON (Some (JObj [(''message'', JStr ''Drain canceled''), (''node_id'', JStr nodeID)]))))"

definition handleRtpManagerDrain :: "api_env \<Rightarrow> http_request \<Rightarrow> api \<Rightarrow> api \<times> http_response \<times> drain_job option" where
  "handleRtpManagerDrain env req a =
     (let parts = Split_byte CHR ''/'' (TrimPrefix (hq_Path req) ''/api/v1/rtpmanagers/'') in
      if length parts \<noteq> 2 \<or> parts ! 1 \<noteq> ''drain''
      then (a, httpError ''Invalid path. Expected /api/v1/rtpmanagers/{nodeId}/drain'' 404, None)
      else
        let nodeID = parts ! 0 in
        if nodeID = '''' then (a, httpError ''Node ID required'' 400, None)
        else if \<not> ap_drainProvider a then (a, httpError ''Drain not configured'' 503, None)
        else if hq_Method req = ''POST'' then handleStartDrain env req nodeID a
        else if hq_Method req = ''GET'' then (a, handleGetDrainStatus env nodeID a, None)
        else if hq_Method req = ''DELETE'' then (case handleCancelDrain env nodeID a of (a', resp) \<Rightarrow> (a', resp, None))
        else (a, methodNotAllowed, None))"

section \<open>Dispatch\<close>

definition handleShutdown :: http_response where
  "handleShutdown = writeJSON (Some (JObj [(''message'', JStr ''Shutdown initiated'')]))"

datatype endpoint =
    EpHealth | EpStats | EpRegistrations | EpRegistrationByAOR | EpDialogs | EpDialogByID | EpSessions | EpRtpManagers | EpDrain | EpShutdown

definition mux :: "(string \<times> endpoint) list" where
  "mux = [(''/api/v1/health'', EpHealth), (''/api/v1/stats'', EpStats), (''/api/v1/registrations'', EpRegistrations),
     (''/api/v1/registrations/'', EpRegistrationByAOR), (''/api/v1/dialogs'', EpDialogs), (''/api/v1/dialogs/'', EpDialogByID),
     (''/api/v1/sessions'', EpSessions), (''/api/v1/rtpmanagers'', EpRtpManagers), (''/api/v1/rtpmanagers/'', EpDrain),
     (''/api/v1/shutdown'', EpShutdown)]"

text \<open>
  \<open>ServeMux\<close> on a canonical path: a pattern that ends in a slash names a subtree, every other one a path.
  No two of the subtrees overlap.
\<close>

definition muxHandler :: "string \<Rightarrow> endpoint option" where
  "muxHandler path =
     (case map_of mux path of
        Some e \<Rightarrow> Some e
      | None \<Rightarrow> map_option snd (find (\<lambda>pe. HasSuffix (fst pe) ''/'' \<and> HasPrefix path (fst pe)) mux))"

definition serve :: "api_env \<Rightarrow> http_request \<Rightarrow> api \<Rightarrow> api \<times> http_response \<times> drain_job option" where
  "serve env req a =
     (case muxHandler (hq_Path req) of
        None \<Rightarrow> (a, httpError ''404 page not found'' 404, None)
      | Some EpHealth \<Rightarrow> (a, handleHealth env a, None)
      | Some EpStats \<Rightarrow> (a, handleStats env a, None)
      | Some EpRegistrations \<Rightarrow> (a, handleRegistrations env req a, None)
      | Some EpRegistrationByAOR \<Rightarrow> (a, handleRegistrationByAOR env req a, None)
      | Some EpDialogs \<Rightarrow> (a, handleDialogs env req a, None)
      | Some EpDialogByID \<Rightarrow> (a, handleDialogByID env req a, None)
      | Some EpSessions \<Rightarrow> (a, handleSessions env req a, None)
      | Some EpRtpManagers \<Rightarrow> (a, handleRtpManagers env req a, None)
      | Some EpDrain \<Rightarrow> handleRtpManagerDrain env req a
      | Some EpShutdown \<Rightarrow> (a, handleShutdown, None))"

end
