(* ===== verification/Ui_Client.thy ===== *)
theory Ui_Client
  imports Http_Api Go_Text
begin

text \<open>
  \<open>api/types/v1/types.go\<close> and \<open>internal/ui/client/client.go\<close>: the types the web interface decodes and its
  client of the HTTP interface. The network is a function \<open>net\<close> from the method and the address of a request to
  the response, or \<open>None\<close> when the request fails. A JSON body is the value that was encoded; every other body fails
  to decode.
\<close>

section \<open>Types\<close>

record HealthResponse =
  hl_Status :: string
  hl_Uptime :: int

record StatsResponse =
  sr_TotalSessions :: int
  sr_ActiveSessions :: int
  sr_TotalRegistrations :: int
  sr_TotalBindings :: int
  sr_ActiveDialogs :: int

record Registration =
  rg_AOR :: string
  rg_ContactURI :: string
  rg_BindingID :: string
  rg_ReceivedIP :: string
  rg_ReceivedPort :: int
  rg_Transport :: string
  rg_Expires :: int
  rg_ExpiresAt :: string
  rg_RegisteredAt :: string
  rg_QValue :: f32
  rg_UserAgent :: string
  rg_InstanceID :: string
  rg_Path :: "string list"

record Dialog_v1 =
  dl_CallID :: string
  dl_Direction :: string
  dl_State :: string
  dl_LocalURI :: string
  dl_RemoteURI :: string
  dl_RemoteAddr :: string
  dl_RemotePort :: int
  dl_Duration :: int
  dl_CreatedAt :: string
  dl_TerminateReason :: string

record Session_v1 =
  sv_CallID :: string
  sv_ClientAddr :: string
  sv_ClientPort :: int
  sv_ServerAddr :: string
  sv_ServerPort :: int
  sv_Duration :: int
  sv_Status :: string

record RtpManager =
  rm_NodeID :: string
  rm_Address :: string
  rm_Healthy :: bool
  rm_DrainState :: string
  rm_SessionCount :: int

record RtpManagersResponse =
  rr_TotalMembers :: int
  rr_HealthyMembers :: int
  rr_ActiveSessions :: int
  rr_Members :: "RtpManager list"

record DrainStatus_v1 =
  dt_NodeID :: string
  dt_State :: string
  dt_Mode :: string
  dt_InitialSessions :: int
  dt_RemainingSessions :: int
  dt_StartedAt :: string

section \<open>Decoding\<close>

text \<open>
  As \<open>string_field\<close> and \<open>int_field\<close>, for the other kinds of field. A list or a number of an object with a repeated
  key is that of the last one: no encoder writes such an object.
\<close>

fun set_bool :: "json list \<Rightarrow> bool \<Rightarrow> bool option" where
  "set_bool [] x = Some x"
| "set_bool (JBool b # vs) x = set_bool vs b"
| "set_bool (JNull # vs) x = set_bool vs x"
| "set_bool (v # vs) x = None"

definition bool_field :: "string \<Rightarrow> (string \<times> json) list \<Rightarrow> bool option" where
  "bool_field name kvs = set_bool (field_values name kvs) False"

fun set_float :: "(string \<Rightarrow> f32 option) \<Rightarrow> json list \<Rightarrow> f32 \<Rightarrow> f32 option" where
  "set_float parse [] x = Some x"
| "set_float parse (JNum s # vs) x = (case parse s of None \<Rightarrow> None | Some y \<Rightarrow> set_float parse vs y)"
| "set_float parse (JNull # vs) x = set_float parse vs x"
| "set_float parse (v # vs) x = None"

definition decode_struct :: "json \<Rightarrow> (string \<times> json) list option" where
  "decode_struct j = (case j of JObj kvs \<Rightarrow> Some kvs | JNull \<Rightarrow> Some [] | _ \<Rightarrow> None)"

definition decode_slice :: "(json \<Rightarrow> 'a option) \<Rightarrow> json \<Rightarrow> 'a list option" where
  "decode_slice f j = (case j of JArr js \<Rightarrow> those (map f js) | JNull \<Rightarrow> Some [] | _ \<Rightarrow> None)"

fun set_slice :: "(json \<Rightarrow> 'a option) \<Rightarrow> json list \<Rightarrow> 'a list \<Rightarrow> 'a list option" where
  "set_slice f [] x = Some x"
| "set_slice f (v # vs) x = (case decode_slice f v of None \<Rightarrow> None | Some y \<Rightarrow> set_slice f vs y)"

definition decode_string :: "json \<Rightarrow> string option" where
  "decode_string j = (case j of JStr s \<Rightarrow> Some s | JNull \<Rightarrow> Some '''' | _ \<Rightarrow> None)"

definition decode_Health :: "json \<Rightarrow> HealthResponse option" where
  "decode_Health j =
     Option.bind (decode_struct j) (\<lambda>kvs.
     Option.bind (string_field ''status'' kvs) (\<lambda>status.
     Option.bind (int_field ''uptime'' kvs) (\<lambda>uptime.
     Some \<lparr>hl_Status = status, hl_Uptime = uptime\<rparr>)))"

definition decode_Stats :: "json \<Rightarrow> StatsResponse option" where
  "decode_Stats j =
     Option.bind (decode_struct j) (\<lambda>kvs.
     Option.bind (int_field ''total_sessions'' kvs) (\<lambda>ts.
     Option.bind (int_field ''active_sessions'' kvs) (\<lambda>as.
     Option.bind (int_field ''total_registrations'' kvs) (\<lambda>tr.
     Option.bind (int_field ''total_bindings'' kvs) (\<lambda>tb.
     Option.bind (int_field ''active_dialogs'' kvs) (\<lambda>ad.
     Some \<lparr>sr_TotalSessions = ts, sr_ActiveSessions = as, sr_TotalRegistrations = tr, sr_TotalBindings = tb, sr_ActiveDialogs = ad\<rparr>))))))"

definition decode_Registration :: "(string \<Rightarrow> f32 option) \<Rightarrow> json \<Rightarrow> Registration option" where
  "decode_Registration parseFloat j =
     Option.bind (decode_struct j) (\<lambda>kvs.
     Option.bind (string_field ''aor'' kvs) (\<lambda>aor.
     Option.bind (string_field ''contact_uri'' kvs) (\<lambda>contact.
     Option.bind (string_field ''binding_id'' kvs) (\<lambda>binding.
     Option.bind (string_field ''received_ip'' kvs) (\<lambda>ip.
     Option.bind (int_field ''received_port'' kvs) (\<lambda>port.
     Option.bind (string_field ''transport'' kvs) (\<lambda>transport.
     Option.bind (int_field ''expires'' kvs) (\<lambda>expires.
     Option.bind (string_field ''expires_at'' kvs) (\<lambda>expiresAt.
     Option.bind (string_field ''registered_at'' kvs) (\<lambda>registeredAt.
     Option.bind (set_float parseFloat (field_values ''q'' kvs) (F32 0)) (\<lambda>q.
     Option.bind (string_field ''user_agent'' kvs) (\<lambda>ua.
     Option.bind (string_field ''instance_id'' kvs) (\<lambda>inst.
     Option.bind (set_slice decode_string (field_values ''path'' kvs) []) (\<lambda>path.
     Some \<lparr>rg_AOR = aor, rg_ContactURI = contact, rg_BindingID = binding, rg_ReceivedIP = ip, rg_ReceivedPort = port,
       rg_Transport = transport, rg_Expires = expires, rg_ExpiresAt = expiresAt, rg_RegisteredAt = registeredAt, rg_QValue = q,
       rg_UserAgent = ua, rg_InstanceID = inst, rg_Path = path\<rparr>))))))))))))))"

definition decode_Dialog :: "json \<Rightarrow> Dialog_v1 option" where
  "decode_Dialog j =
     Option.bind (decode_struct j) (\<lambda>kvs.
     Option.bind (string_field ''call_id'' kvs) (\<lambda>callID.
     Option.bind (string_field ''direction'' kvs) (\<lambda>direction.
     Option.bind (string_field ''state'' kvs) (\<lambda>state.
     Option.bind (string_field ''local_uri'' kvs) (\<lambda>localURI.
     Option.bind (string_field ''remote_uri'' kvs) (\<lambda>remoteURI.
     Option.bind (string_field ''remote_addr'' kvs) (\<lambda>remoteAddr.
     Option.bind (int_field ''remote_port'' kvs) (\<lambda>remotePort.
     Option.bind (int_field ''duration'' kvs) (\<lambda>duration.
     Option.bind (string_field ''created_at'' kvs) (\<lambda>createdAt.
     Option.bind (string_field ''terminate_reason'' kvs) (\<lambda>reason.
     Some \<lparr>dl_CallID = callID, dl_Direction = direction, dl_State = state, dl_LocalURI = localURI, dl_RemoteURI = remoteURI,
       dl_RemoteAddr = remoteAddr, dl_RemotePort = remotePort, dl_Duration = duration, dl_CreatedAt = createdAt,
       dl_TerminateReason = reason\<rparr>)))))))))))"

definition decode_Session :: "json \<Rightarrow> Session_v1 option" where
  "decode_Session j =
     Option.bind (decode_struct j) (\<lambda>kvs.
     Option.bind (string_field ''call_id'' kvs) (\<lambda>callID.
     Option.bind (string_field ''client_addr'' kvs) (\<lambda>clientAddr.
     Option.bind (int_field ''client_port'' kvs) (\<lambda>clientPort.
     Option.bind (string_field ''server_addr'' kvs) (\<lambda>serverAddr.
     Option.bind (int_field ''server_port'' kvs) (\<lambda>serverPort.
     Option.bind (int_field ''duration'' kvs) (\<lambda>duration.
     Option.bind (string_field ''status'' kvs) (\<lambda>status.
     Some \<lparr>sv_CallID = callID, sv_ClientAddr = clientAddr, sv_ClientPort = clientPort, sv_ServerAddr = serverAddr,
       sv_ServerPort = serverPort, sv_Duration = duration, sv_Status = status\<rparr>))))))))"

definition decode_RtpManager :: "json \<Rightarrow> RtpManager option" where
  "decode_RtpManager j =
     Option.bind (decode_struct j) (\<lambda>kvs.
     Option.bind (string_field ''node_id'' kvs) (\<lambda>nodeID.
     Option.bind (string_field ''address'' kvs) (\<lambda>address.
     Option.bind (bool_field ''healthy'' kvs) (\<lambda>healthy.
     Option.bind (string_field ''drain_state'' kvs) (\<lambda>drainState.
     Option.bind (int_field ''session_count'' kvs) (\<lambda>count.
     Some \<lparr>rm_NodeID = nodeID, rm_Address = address, rm_Healthy = healthy, rm_DrainState = drainState, rm_SessionCount = count\<rparr>))))))"

definition decode_RtpManagers :: "json \<Rightarrow> RtpManagersResponse option" where
  "decode_RtpManagers j =
     Option.bind (decode_struct j) (\<lambda>kvs.
     Option.bind (int_field ''total_members'' kvs) (\<lambda>tm.
     Option.bind (int_field ''healthy_members'' kvs) (\<lambda>hm.
     Option.bind (int_field ''active_sessions'' kvs) (\<lambda>as.
     Option.bind (set_slice decode_RtpManager (field_values ''members'' kvs) []) (\<lambda>ms.
     Some \<lparr>rr_TotalMembers = tm, rr_HealthyMembers = hm, rr_ActiveSessions = as, rr_Members = ms\<rparr>)))))"

definition decode_DrainStatus :: "json \<Rightarrow> DrainStatus_v1 option" where
  "decode_DrainStatus j =
     Option.bind (decode_struct j) (\<lambda>kvs.
     Option.bind (string_field ''node_id'' kvs) (\<lambda>nodeID.
     Option.bind (string_field ''state'' kvs) (\<lambda>state.
     Option.bind (string_field ''mode'' kvs) (\<lambda>mode.
     Option.bind (int_field ''initial_sessions'' kvs) (\<lambda>initial.
     Option.bind (int_field ''remaining_sessions'' kvs) (\<lambda>remaining.
     Option.bind (string_field ''started_at'' kvs) (\<lambda>startedAt.
     Some \<lparr>dt_NodeID = nodeID, dt_State = state, dt_Mode = mode, dt_InitialSessions = initial, dt_RemainingSessions = remaining,
       dt_StartedAt = startedAt\<rparr>)))))))"

section \<open>The client\<close>

type_synonym net = "string \<Rightarrow> string \<Rightarrow> http_response option"

record ui_client =
  cl_name :: string
  cl_baseURL :: string

definition NewClient :: "string \<Rightarrow> string \<Rightarrow> ui_client" where
  "NewClient name baseURL = \<lparr>cl_name = name, cl_baseURL = baseURL\<rparr>"

datatype client_error = RequestFailed | UnexpectedStatus int | DecodeFailed

definition client_request :: "int list \<Rightarrow> net \<Rightarrow> string \<Rightarrow> string \<Rightarrow> client_error + http_response" where
  "client_request ok net method url =
     (case net method url of
        None \<Rightarrow> Inl RequestFailed
      | Some resp \<Rightarrow> if hr_Status resp \<in> set ok then Inr resp else Inl (UnexpectedStatus (hr_Status resp)))"

definition client_get :: "net \<Rightarrow> ui_client \<Rightarrow> string \<Rightarrow> client_error + http_response" where
  "client_get net c path = client_request [200] net ''GET'' (cl_baseURL c @ path)"

definition client_post :: "net \<Rightarrow> ui_client \<Rightarrow> string \<Rightarrow> client_error + http_response" where
  "client_post net c path = client_request [200, 202] net ''POST'' (cl_baseURL c @ path)"

definition client_delete :: "net \<Rightarrow> ui_client \<Rightarrow> string \<Rightarrow> client_error + http_response" where
  "client_delete net c path = client_request [200, 204] net ''DELETE'' (cl_baseURL c @ path)"

definition decode_body :: "(json \<Rightarrow> 'a option) \<Rightarrow> client_error + http_response \<Rightarrow> client_error + 'a" where
  "decode_body dec r =
     (case r of
        Inl err \<Rightarrow> Inl err
      | Inr resp \<Rightarrow>
          (case hr_Body resp of
             JsonBody j \<Rightarrow> (case dec j of None \<Rightarrow> Inl DecodeFailed | Some v \<Rightarrow> Inr v)
           | _ \<Rightarrow> Inl DecodeFailed))"

definition Client_Health :: "net \<Rightarrow> ui_client \<Rightarrow> client_error + HealthResponse" where
  "Client_Health net c = decode_body decode_Health (client_get net c ''/api/v1/health'')"

definition Client_Stats :: "net \<Rightarrow> ui_client \<Rightarrow> client_error + StatsResponse" where
  "Client_Stats net c = decode_body decode_Stats (client_get net c ''/api/v1/stats'')"

definition Client_Registrations :: "(string \<Rightarrow> f32 option) \<Rightarrow> net \<Rightarrow> ui_client \<Rightarrow> client_error + Registration list" where
  "Client_Registrations parseFloat net c =
     decode_body (decode_slice (decode_Registration parseFloat)) (client_get net c ''/api/v1/registrations'')"

definition Client_Dialogs :: "net \<Rightarrow> ui_client \<Rightarrow> client_error + Dialog_v1 list" where
  "Client_Dialogs net c = decode_body (decode_slice decode_Dialog) (client_get net c ''/api/v1/dialogs'')"

definition Client_Sessions :: "net \<Rightarrow> ui_client \<Rightarrow> client_error + Session_v1 list" where
  "Client_Sessions net c = decode_body (decode_slice decode_Session) (client_get net c ''/api/v1/sessions'')"

definition Client_RtpManagers :: "net \<Rightarrow> ui_client \<Rightarrow> client_error + RtpManagersResponse" where
  "Client_RtpManagers net c = decode_body decode_RtpManagers (client_get net c ''/api/v1/rtpmanagers'')"

definition drainPath :: "string \<Rightarrow> string" where
  "drainPath nodeID = ''/api/v1/rtpmanagers/'' @ nodeID @ ''/drain''"

definition Client_StartDrain :: "net \<Rightarrow> ui_client \<Rightarrow> string \<Rightarrow> string \<Rightarrow> client_error + DrainStatus_v1" where
  "Client_StartDrain net c nodeID mode =
     decode_body decode_DrainStatus (client_post net c (drainPath nodeID @ ''?mode='' @ mode))"

definition Client_GetDrainStatus :: "net \<Rightarrow> ui_client \<Rightarrow> string \<Rightarrow> client_error + DrainStatus_v1" where
  "Client_GetDrainStatus net c nodeID = decode_body decode_DrainStatus (client_get net c (drainPath nodeID))"

definition Client_CancelDrain :: "net \<Rightarrow> ui_client \<Rightarrow> string \<Rightarrow> client_error option" where
  "Client_CancelDrain net c nodeID = (case client_delete net c (drainPath nodeID) of Inl err \<Rightarrow> Some err | Inr _ \<Rightarrow> None)"

end
