(* ===== verification/Config.thy ===== *)
theory Config
  imports Go_Json Media_Pool
begin

text \<open>
  The configuration of the three programs: \<open>internal/signaling/config\<close>, \<open>internal/rtpmanager/config\<close> and
  \<open>internal/ui/config\<close>. The values of the flags are arguments (with the defaults of the program when a flag is not
  given); the environment is a function from names to values, empty when a variable is not set.
\<close>

section \<open>Lists of addresses\<close>

text \<open>\<open>strings.TrimSpace\<close> on ASCII text.\<close>

definition ascii_space :: "char \<Rightarrow> bool" where
  "ascii_space c \<longleftrightarrow> c \<in> {CHR '' '', CHR 0x09, CHR 0x0A, CHR 0x0B, CHR 0x0C, CHR 0x0D}"

definition TrimSpace :: "string \<Rightarrow> string" where
  "TrimSpace s = rev (dropWhile ascii_space (rev (dropWhile ascii_space s)))"

text \<open>\<open>strings.SplitN\<close> at a byte into at most two parts.\<close>

definition SplitN2 :: "string \<Rightarrow> char \<Rightarrow> string list" where
  "SplitN2 s c = (case index_byte c s of None \<Rightarrow> [s] | Some i \<Rightarrow> [take i s, drop (i + 1) s])"

definition parseAddressList :: "string \<Rightarrow> string list" where
  "parseAddressList s =
     (if s = '''' then [] else filter (\<lambda>p. p \<noteq> '''') (map TrimSpace (Split_byte CHR '','' s)))"

text \<open>The loop over the parts; \<open>None\<close> is \<open>nil\<close>.\<close>

fun nodeParts :: "string list \<Rightarrow> (string, string) gomap \<Rightarrow> (string, string) gomap option" where
  "nodeParts [] result = Some result"
| "nodeParts (p # parts) result =
     (let p = TrimSpace p in
      if p = '''' then nodeParts parts result
      else
        let kv = SplitN2 p CHR ''='' in
        if length kv \<noteq> 2 then None
        else
          let nodeID = TrimSpace (kv ! 0); addr = TrimSpace (kv ! 1) in
          if nodeID \<noteq> '''' \<and> addr \<noteq> '''' then nodeParts parts (gm_set result nodeID addr) else nodeParts parts result)"

definition parseNodeAddresses :: "string \<Rightarrow> (string, string) gomap option" where
  "parseNodeAddresses s =
     (if s = '''' \<or> \<not> Contains s ''='' then None else nodeParts (Split_byte CHR '','' s) [])"

section \<open>Network interfaces\<close>

text \<open>
  An interface: loopback, up, its addresses (\<open>None\<close> when they cannot be read), an address being the text of an
  IPv4 address or \<open>None\<close>.
\<close>

record net_iface =
  if_Loopback :: bool
  if_Up :: bool
  if_Addrs :: "string option list option"

fun firstIPv4 :: "string option list \<Rightarrow> string option" where
  "firstIPv4 [] = None"
| "firstIPv4 (Some ip # addrs) = Some ip"
| "firstIPv4 (None # addrs) = firstIPv4 addrs"

fun scanInterfaces :: "net_iface list \<Rightarrow> string" where
  "scanInterfaces [] = ''127.0.0.1''"
| "scanInterfaces (i # is) =
     (if if_Loopback i \<or> \<not> if_Up i then scanInterfaces is
      else
        (case if_Addrs i of
           None \<Rightarrow> scanInterfaces is
         | Some addrs \<Rightarrow> (case firstIPv4 addrs of Some ip \<Rightarrow> ip | None \<Rightarrow> scanInterfaces is)))"

definition getPrimaryInterfaceIP :: "net_iface list option \<Rightarrow> string" where
  "getPrimaryInterfaceIP ifaces = (case ifaces of None \<Rightarrow> ''127.0.0.1'' | Some is \<Rightarrow> scanInterfaces is)"

section \<open>The signaling server\<close>

record sig_config =
  sg_Port :: int
  sg_BindAddr :: string
  sg_AdvertiseAddr :: string
  sg_LogLevel :: string
  sg_DialplanPath :: string
  sg_RTPManagerNodes :: "(string, string) gomap"
  sg_RTPManagerAddrs :: "string list"
  sg_GRPCConnectTimeout :: duration
  sg_GRPCKeepaliveInterval :: duration
  sg_GRPCKeepaliveTimeout :: duration

text \<open>The flags of the command line.\<close>

record sig_flags =
  fl_port :: int
  fl_bind :: string
  fl_advertise :: string
  fl_loglevel :: string
  fl_dialplan :: string
  fl_rtpmanager :: string

definition sig_defaults :: sig_flags where
  "sig_defaults = \<lparr>fl_port = 5060, fl_bind = ''0.0.0.0'', fl_advertise = '''', fl_loglevel = ''debug'',
     fl_dialplan = ''resources/config/dialplan.json'', fl_rtpmanager = ''localhost:9090''\<rparr>"

text \<open>\<open>lookup\<close> is \<open>net.LookupIP\<close>: the number of addresses found, or \<open>None\<close>.\<close>

definition isValidAddress :: "(string \<Rightarrow> nat option) \<Rightarrow> string \<Rightarrow> bool" where
  "isValidAddress lookup addr \<longleftrightarrow> ParseIP addr \<or> (case lookup addr of None \<Rightarrow> False | Some n \<Rightarrow> n > 0)"

definition override :: "string \<Rightarrow> string \<Rightarrow> string" where
  "override v x = (if v \<noteq> '''' then v else x)"

definition sig_Load :: "(string \<Rightarrow> string) \<Rightarrow> (string \<Rightarrow> nat option) \<Rightarrow> net_iface list option \<Rightarrow> sig_flags \<Rightarrow> sig_config" where
  "sig_Load getenv lookup ifaces fl =
     (let port = (if getenv ''PORT'' \<noteq> '''' then (case Atoi (getenv ''PORT'') of Some p \<Rightarrow> p | None \<Rightarrow> fl_port fl) else fl_port fl);
          advertise = override (getenv ''ADVERTISE'') (fl_advertise fl);
          advertise = (if advertise = '''' \<or> \<not> isValidAddress lookup advertise then getPrimaryInterfaceIP ifaces else advertise);
          rtpmanager = getenv ''RTPMANAGER_ADDRS'';
          nodeMap = (if rtpmanager \<noteq> '''' then (case parseNodeAddresses rtpmanager of None \<Rightarrow> [] | Some m \<Rightarrow> m) else []);
          addrs = (if rtpmanager \<noteq> '''' \<and> length nodeMap = 0 then parseAddressList rtpmanager else parseAddressList (fl_rtpmanager fl)) in
      \<lparr>sg_Port = port, sg_BindAddr = override (getenv ''BIND'') (fl_bind fl), sg_AdvertiseAddr = advertise,
       sg_LogLevel = override (getenv ''LOGLEVEL'') (fl_loglevel fl),
       sg_DialplanPath = override (getenv ''DIALPLAN_PATH'') (fl_dialplan fl),
       sg_RTPManagerNodes = nodeMap, sg_RTPManagerAddrs = addrs, sg_GRPCConnectTimeout = 10000000000,
       sg_GRPCKeepaliveInterval = 30000000000, sg_GRPCKeepaliveTimeout = 10000000000\<rparr>)"

text \<open>The configuration of the pool that \<open>app.NewServer\<close> makes of it.\<close>

definition poolConfigOf :: "sig_config \<Rightarrow> pool_config" where
  "poolConfigOf cfg =
     (if length (sg_RTPManagerNodes cfg) > 0
      then \<lparr>pc_NodeAddresses = sg_RTPManagerNodes cfg, pc_Addresses = [], pc_UnhealthyThreshold = 3, pc_HealthyThreshold = 2\<rparr>
      else \<lparr>pc_NodeAddresses = [], pc_Addresses = sg_RTPManagerAddrs cfg, pc_UnhealthyThreshold = 3, pc_HealthyThreshold = 2\<rparr>)"

section \<open>The RTP manager\<close>

record rtpmgr_config =
  rc_GRPCPort :: int
  rc_GRPCBindAddr :: string
  rc_AdvertiseAddr :: string
  rc_RTPPortMin :: int
  rc_RTPPortMax :: int
  rc_AudioBasePath :: string
  rc_LogLevel :: string

text \<open>The defaults of the flags; \<open>rtp_Load\<close> takes the values after \<open>flag.Parse\<close>.\<close>

definition rtp_defaults :: rtpmgr_config where
  "rtp_defaults = \<lparr>rc_GRPCPort = 9090, rc_GRPCBindAddr = ''0.0.0.0'', rc_AdvertiseAddr = '''', rc_RTPPortMin = 10000,
     rc_RTPPortMax = 20000, rc_AudioBasePath = ''./audio'', rc_LogLevel = ''debug''\<rparr>"

text \<open>The value that \<open>Atoi\<close> returns beside an error is stored: zero, or the nearest number in range.\<close>

definition AtoiValue :: "string \<Rightarrow> int" where
  "AtoiValue t =
     (case Atoi t of
        Some n \<Rightarrow> n
      | None \<Rightarrow>
          let neg = HasPrefix t ''-''; u = (if neg \<or> HasPrefix t ''+'' then tl t else t) in
          if u \<noteq> [] \<and> list_all (\<lambda>c. digit_val c \<noteq> None) u then (if neg then - (2 ^ 63) else 2 ^ 63 - 1) else 0)"

definition rtp_Load :: "(string \<Rightarrow> string) \<Rightarrow> net_iface list option \<Rightarrow> rtpmgr_config \<Rightarrow> rtpmgr_config" where
  "rtp_Load getenv ifaces fl =
     \<lparr>rc_GRPCPort = (if getenv ''GRPC_PORT'' \<noteq> '''' then AtoiValue (getenv ''GRPC_PORT'') else rc_GRPCPort fl),
      rc_GRPCBindAddr = override (getenv ''BIND'') (rc_GRPCBindAddr fl),
      rc_AdvertiseAddr =
        (if getenv ''ADVERTISE'' \<noteq> '''' then getenv ''ADVERTISE''
         else if rc_AdvertiseAddr fl = '''' then getPrimaryInterfaceIP ifaces else rc_AdvertiseAddr fl),
      rc_RTPPortMin = (if getenv ''RTP_PORT_MIN'' \<noteq> '''' then AtoiValue (getenv ''RTP_PORT_MIN'') else rc_RTPPortMin fl),
      rc_RTPPortMax = (if getenv ''RTP_PORT_MAX'' \<noteq> '''' then AtoiValue (getenv ''RTP_PORT_MAX'') else rc_RTPPortMax fl),
      rc_AudioBasePath = override (getenv ''AUDIO_PATH'') (rc_AudioBasePath fl),
      rc_LogLevel = override (getenv ''LOGLEVEL'') (rc_LogLevel fl)\<rparr>"

section \<open>The web interface\<close>

record Backend =
  be_Name :: string
  be_Address :: string

record ui_config =
  uc_Port :: int
  uc_BindAddr :: string
  uc_Backends :: "Backend list"
  uc_LogLevel :: string

text \<open>One part, the \<open>i\<close>-th of \<open>n\<close>, trimmed and not empty. The sum \<open>'A' + i\<close> is a code point.\<close>

definition parseBackend :: "nat \<Rightarrow> nat \<Rightarrow> string \<Rightarrow> Backend" where
  "parseBackend n i p =
     (let backend =
        (case Index p ''='' of
           Some idx \<Rightarrow>
             if idx > 0 then \<lparr>be_Name = TrimSpace (take idx p), be_Address = TrimSpace (drop (idx + 1) p)\<rparr>
             else \<lparr>be_Name = '''', be_Address = p\<rparr>
         | None \<Rightarrow> \<lparr>be_Name = '''', be_Address = p\<rparr>);
        named = (case Index p ''='' of Some idx \<Rightarrow> idx > 0 | None \<Rightarrow> False);
        backend =
          (if named then backend
           else if n = 1 then backend\<lparr>be_Name := ''default''\<rparr>
           else
             let name = ReplaceAll (ReplaceAll p ''http://'' '''') ''https://'' '''' in
             backend\<lparr>be_Name := (if name = '''' then utf8 (65 + i) else name)\<rparr>) in
      if \<not> HasPrefix (be_Address backend) ''http://'' \<and> \<not> HasPrefix (be_Address backend) ''https://''
      then backend\<lparr>be_Address := ''http://'' @ be_Address backend\<rparr> else backend)"

definition parseBackends :: "string \<Rightarrow> Backend list" where
  "parseBackends s =
     (if s = '''' then []
      else
        let parts = Split_byte CHR '','' s in
        concat (map (\<lambda>(i, p). let p = TrimSpace p in if p = '''' then [] else [parseBackend (length parts) i p])
          (zip [0..<length parts] parts)))"

text \<open>Overflow wraps around.\<close>

fun stringToInt_loop :: "string \<Rightarrow> 64 word \<Rightarrow> 64 word" where
  "stringToInt_loop [] n = n"
| "stringToInt_loop (c # cs) n =
     (case digit_val c of None \<Rightarrow> 0 | Some d \<Rightarrow> stringToInt_loop cs (n * 10 + of_nat d))"

definition stringToInt :: "string \<Rightarrow> int" where
  "stringToInt s = sint (stringToInt_loop s 0)"

record ui_flags =
  uf_port :: int
  uf_bind :: string
  uf_loglevel :: string
  uf_backends :: string

definition ui_defaults :: ui_flags where
  "ui_defaults = \<lparr>uf_port = 3000, uf_bind = ''0.0.0.0'', uf_loglevel = ''info'', uf_backends = ''http://localhost:8080''\<rparr>"

definition ui_Load :: "(string \<Rightarrow> string) \<Rightarrow> ui_flags \<Rightarrow> ui_config" where
  "ui_Load getenv fl =
     \<lparr>uc_Port = (if getenv ''UI_PORT'' \<noteq> '''' \<and> stringToInt (getenv ''UI_PORT'') > 0 then stringToInt (getenv ''UI_PORT'') else uf_port fl),
      uc_BindAddr = override (getenv ''UI_BIND'') (uf_bind fl),
      uc_Backends = (if getenv ''UI_BACKENDS'' \<noteq> '''' then parseBackends (getenv ''UI_BACKENDS'') else parseBackends (uf_backends fl)),
      uc_LogLevel = override (getenv ''UI_LOGLEVEL'') (uf_loglevel fl)\<rparr>"

section \<open>From the environment to the pool\<close>

text \<open>A name without the characters the format uses, and without white space around it.\<close>

definition clean_name :: "string \<Rightarrow> bool" where
  "clean_name s \<longleftrightarrow> s \<noteq> '''' \<and> CHR '','' \<notin> set s \<and> \<not> ascii_space (hd s) \<and> \<not> ascii_space (last s)"

definition nodeText :: "string \<times> string \<Rightarrow> string" where
  "nodeText na = fst na @ ''='' @ snd na"

fun nodesText :: "(string \<times> string) list \<Rightarrow> string" where
  "nodesText [] = ''''"
| "nodesText [na] = nodeText na"
| "nodesText (na # nas) = nodeText na @ '','' @ nodesText nas"

definition node_ok :: "string \<times> string \<Rightarrow> bool" where
  "node_ok na \<longleftrightarrow> clean_name (fst na) \<and> clean_name (snd na) \<and> CHR ''='' \<notin> set (fst na)"

lemma TrimSpace_clean: "clean_name s \<Longrightarrow> TrimSpace s = s"
proof -
  assume clean: "clean_name s"
  have keep: "dropWhile ascii_space xs = xs" if "xs \<noteq> []" "\<not> ascii_space (hd xs)" for xs
    using that by (cases xs) auto
  show ?thesis
    using clean keep [of s] keep [of "rev s"] by (simp add: clean_name_def TrimSpace_def hd_rev)
qed

lemma nodeText_clean: "node_ok na \<Longrightarrow> clean_name (nodeText na)"
  by (auto simp: node_ok_def clean_name_def nodeText_def)

lemma Split_nodes: "nas \<noteq> [] \<Longrightarrow> list_all node_ok nas \<Longrightarrow> Split_byte CHR '','' (nodesText nas) = map nodeText nas"
  by (induction nas rule: nodesText.induct)
    (auto simp: Split_byte_append Split_byte_absent clean_name_def dest!: nodeText_clean)

lemma SplitN2_node: "node_ok na \<Longrightarrow> SplitN2 (nodeText na) CHR ''='' = [fst na, snd na]"
  by (simp add: SplitN2_def nodeText_def node_ok_def index_byte_append)

lemma nodeParts_nodes:
  "list_all node_ok nas \<Longrightarrow> distinct (map fst m @ map fst nas) \<Longrightarrow> nodeParts (map nodeText nas) m = Some (m @ nas)"
proof (induction nas arbitrary: m)
  case (Cons na nas)
  have ok: "node_ok na" using Cons.prems(1) by simp
  hence "TrimSpace (nodeText na) = nodeText na" "nodeText na \<noteq> ''''"
    using TrimSpace_clean nodeText_clean by (auto simp: clean_name_def)
  moreover have "TrimSpace (fst na) = fst na" "TrimSpace (snd na) = snd na" "fst na \<noteq> ''''" "snd na \<noteq> ''''"
    using ok TrimSpace_clean by (auto simp: node_ok_def clean_name_def)
  moreover have "gm_set m (fst na) (snd na) = m @ [na]"
  proof -
    have "fst na \<notin> fst ` set m" using Cons.prems(2) by auto
    thus ?thesis unfolding gm_set_def by (induction m) auto
  qed
  ultimately show ?case using Cons SplitN2_node [OF ok] by (simp add: Let_def)
qed simp

lemma parseNodeAddresses_nodes:
  assumes "nas \<noteq> []" and "list_all node_ok nas" and "distinct (map fst nas)"
  shows "nodesText nas \<noteq> ''''" and "parseNodeAddresses (nodesText nas) = Some nas"
proof -
  have eq: "CHR ''='' \<in> set (nodesText nas)"
    using assms(1) by (cases nas rule: nodesText.cases) (simp_all add: nodeText_def)
  show ne: "nodesText nas \<noteq> ''''" using eq by auto
  show "parseNodeAddresses (nodesText nas) = Some nas"
    using eq ne Split_nodes [OF assms(1,2)] nodeParts_nodes [of nas "[]"] assms(2,3)
    by (simp add: parseNodeAddresses_def Contains_byte)
qed

lemma configured_nodes:
  assumes "nas \<noteq> []" and "list_all node_ok nas" and "distinct (map fst nas)" and "getenv ''RTPMANAGER_ADDRS'' = nodesText nas"
  shows "nodeAddressesOf (poolConfigOf (sig_Load getenv lookup ifaces fl)) = Some nas"
    and "pc_NodeAddresses (poolConfigOf (sig_Load getenv lookup ifaces fl)) = nas"
  using parseNodeAddresses_nodes [OF assms(1-3)] assms(1,4)
  by (simp_all add: poolConfigOf_def sig_Load_def Let_def nodeAddressesOf_def)

lemma addMembers_members: "pl_members (addMembers dial nas p) = pl_members p @ map (newMember dial) nas"
  by (induction nas arbitrary: p) simp_all

text \<open>
  Property C28. The variable \<open>RTPMANAGER_ADDRS\<close> decides which RTP managers the signaling server uses: when it lists nodes as
  \<open>id=address\<close>, the pool that \<open>NewServer\<close> creates has exactly these members, in some order and whatever the flags are, and
  starts in a state from which the pool's invariants hold; it is refused only when no node can be reached.
\<close>

theorem configured_nodes_pooled:
  assumes "nas \<noteq> []" and "list_all node_ok nas" and "distinct (map fst nas)"
    and "getenv ''RTPMANAGER_ADDRS'' = nodesText nas" and "is_range ord" and "dial_ok dial"
  shows "case NewPool ord dial (poolConfigOf (sig_Load getenv lookup ifaces fl)) of
      Inl err \<Rightarrow> err = NoHealthyMembers \<and> list_all (\<lambda>na. dial (snd na) = None) nas
    | Inr p \<Rightarrow> mset (map (\<lambda>m. (pm_id m, pm_address m)) (pl_members p)) = mset nas \<and>
        list_ex (\<lambda>na. dial (snd na) \<noteq> None) nas \<and> pool_reachable p"
proof -
  let ?cfg = "poolConfigOf (sig_Load getenv lookup ifaces fl)"
  note nodes = configured_nodes [of nas getenv lookup ifaces fl, OF assms(1-4)]
  have m: "mset (ord nas) = mset nas" using assms(5) by (simp add: is_range_def)
  have none: "filter pm_healthy (map (newMember dial) (ord nas)) = [] \<longleftrightarrow> list_all (\<lambda>na. dial (snd na) = None) nas"
    using mset_eq_setD [OF m] by (auto simp: filter_empty_conv newMember_def list_all_iff)
  have "map (\<lambda>m. (pm_id m, pm_address m)) (map (newMember dial) xs) = xs" for xs
    by (induction xs) (simp_all add: newMember_def)
  moreover have "gm_wf nas" using assms(3) by (simp add: gm_wf_def)
  ultimately show ?thesis
    using nodes none m pool_reachable.init [OF _ assms(5,6), of ?cfg]
    by (auto simp: NewPool_def addMembers_members Let_def list_all_iff list_ex_iff simp del: map_map split: sum.split if_splits)
qed

definition ex_getenv :: "string \<Rightarrow> string" where
  "ex_getenv v = (if v = ''RTPMANAGER_ADDRS'' then ''n1=10.0.0.1:9090,n2=down:9090'' else '''')"

definition ex_nodes :: "(string \<times> string) list" where
  "ex_nodes = [(''n1'', ''10.0.0.1:9090''), (''n2'', ''down:9090'')]"

lemma ex_nodes_ok: "ex_nodes \<noteq> []" "list_all node_ok ex_nodes" "distinct (map fst ex_nodes)" "ex_getenv ''RTPMANAGER_ADDRS'' = nodesText ex_nodes"
  by code_simp+

theorem configured_nodes_pooled_witness:
  "\<exists>p. NewPool rev ex_dial (poolConfigOf (sig_Load ex_getenv (\<lambda>_. None) None sig_defaults)) = Inr p \<and>
     mset (map (\<lambda>m. (pm_id m, pm_address m)) (pl_members p)) = {#(''n1'', ''10.0.0.1:9090''), (''n2'', ''down:9090'')#}"
proof -
  have "is_range rev" by (simp add: is_range_def)
  moreover have "ex_dial ''10.0.0.1:9090'' \<noteq> None" by (simp add: ex_dial_def NewGRPCTransport_def)
  ultimately show ?thesis
    using configured_nodes_pooled [of ex_nodes ex_getenv rev ex_dial "\<lambda>_. None" None sig_defaults, OF ex_nodes_ok _ ex_dial_ok]
    by (auto simp: ex_nodes_def split: sum.splits)
qed

end
