(* ===== verification/Ui_Server.thy ===== *)
theory Ui_Server
  imports Ui_Client Config
begin

text \<open>
  \<open>internal/ui/server/server.go\<close> and the data of \<open>templates.go\<close>: the pages of the web interface. One goroutine per
  backend fetches its data and adds it to the page in critical sections; a section is a value, and a
  schedule, the list of the goroutines that take the lock next, merges the sections of all goroutines. The HTML
  templates are a parameter: the text that rendering writes and whether it succeeds.
\<close>

section \<open>Page data\<close>

record StatsData =
  st_ActiveSessions :: int
  st_TotalRegistrations :: int
  st_TotalBindings :: int
  st_ActiveDialogs :: int

record BackendData =
  bd_Name :: string
  bd_Address :: string
  bd_Status :: string
  bd_Uptime :: string

record RegistrationData =
  rd_Server :: string
  rd_AOR :: string
  rd_ContactURI :: string
  rd_Transport :: string
  rd_ReceivedIP :: string
  rd_ReceivedPort :: int
  rd_Expires :: int
  rd_TTL :: string
  rd_UserAgent :: string
  rd_RegisteredAt :: string

record DialogData =
  dd_Server :: string
  dd_CallID :: string
  dd_Direction :: string
  dd_State :: string
  dd_LocalURI :: string
  dd_RemoteURI :: string
  dd_RemoteAddr :: string
  dd_RemotePort :: int
  dd_Duration :: string
  dd_CreatedAt :: string
  dd_TerminateReason :: string

record SessionData =
  sd_Server :: string
  sd_CallID :: string
  sd_ClientAddr :: string
  sd_ClientPort :: int
  sd_ServerAddr :: string
  sd_ServerPort :: int
  sd_Duration :: string
  sd_Status :: string

record RtpManagerData =
  md_Server :: string
  md_NodeID :: string
  md_Address :: string
  md_Healthy :: bool
  md_Status :: string
  md_DrainState :: string
  md_SessionCount :: int
  md_InitialSessions :: int
  md_RemainingSessions :: int

record TemplateData =
  td_Title :: string
  td_HealthStatus :: string
  td_HealthUptime :: string
  td_Stats :: StatsData
  td_Backends :: "BackendData list"
  td_RtpManagers :: "RtpManagerData list"
  td_Registrations :: "RegistrationData list"
  td_Dialogs :: "DialogData list"
  td_Sessions :: "SessionData list"
  td_MultiBackend :: bool

record DrainModalData =
  mo_Server :: string
  mo_NodeID :: string
  mo_Address :: string
  mo_SessionCount :: int

section \<open>Durations\<close>

definition formatUptime :: "duration \<Rightarrow> string" where
  "formatUptime d =
     (let days = f64_to_int (Duration_Hours d) sdiv 24;
          hours = f64_to_int (Duration_Hours d) smod 24;
          mins = f64_to_int (Duration_Minutes d) smod 60;
          secs = f64_to_int (Duration_Seconds d) smod 60 in
      if days > 0 then itoa days @ ''d '' @ itoa hours @ ''h '' @ itoa mins @ ''m''
      else if hours > 0 then itoa hours @ ''h '' @ itoa mins @ ''m '' @ itoa secs @ ''s''
      else if mins > 0 then itoa mins @ ''m '' @ itoa secs @ ''s''
      else itoa secs @ ''s'')"

definition formatDuration :: "int \<Rightarrow> string" where
  "formatDuration n =
     (if n < 60 then itoa n @ ''s''
      else if n < 3600 then itoa (n sdiv 60) @ ''m '' @ itoa (n smod 60) @ ''s''
      else
        let hours = n sdiv 3600; mins = (n smod 3600) sdiv 60; secs = n smod 60 in
        itoa hours @ ''h '' @ itoa mins @ ''m '' @ itoa secs @ ''s'')"

section \<open>Fetching\<close>

text \<open>
  \<open>ue_parseTime\<close> is \<open>time.Parse\<close> with the zero time for a failure, \<open>ue_clock\<close> the time of day.
\<close>

record ui_env =
  ue_now :: time
  ue_parseTime :: "string \<Rightarrow> time"
  ue_clock :: "time \<Rightarrow> string"
  ue_parseFloat :: "string \<Rightarrow> f32 option"
  ue_errText :: "client_error \<Rightarrow> string"

datatype page_section =
    AddBackend BackendData | AddStats StatsData | AddRegistrations "RegistrationData list" | AddDialogs "DialogData list"
  | AddSessions "SessionData list" | AddRtpManagers "RtpManagerData list"

fun runSection :: "page_section \<Rightarrow> TemplateData \<Rightarrow> TemplateData" where
  "runSection (AddBackend b) d = d\<lparr>td_Backends := td_Backends d @ [b]\<rparr>"
| "runSection (AddStats s) d =
     d\<lparr>td_Stats := \<lparr>st_ActiveSessions = st_ActiveSessions (td_Stats d) + st_ActiveSessions s,
        st_TotalRegistrations = st_TotalRegistrations (td_Stats d) + st_TotalRegistrations s,
        st_TotalBindings = st_TotalBindings (td_Stats d) + st_TotalBindings s,
        st_ActiveDialogs = st_ActiveDialogs (td_Stats d) + st_ActiveDialogs s\<rparr>\<rparr>"
| "runSection (AddRegistrations rs) d = d\<lparr>td_Registrations := td_Registrations d @ rs\<rparr>"
| "runSection (AddDialogs ds) d = d\<lparr>td_Dialogs := td_Dialogs d @ ds\<rparr>"
| "runSection (AddSessions ss) d = d\<lparr>td_Sessions := td_Sessions d @ ss\<rparr>"
| "runSection (AddRtpManagers ms) d = d\<lparr>td_RtpManagers := td_RtpManagers d @ ms\<rparr>"

definition registrationRow :: "ui_env \<Rightarrow> string \<Rightarrow> Registration \<Rightarrow> RegistrationData" where
  "registrationRow env backendName r =
     (let ttl = ue_parseTime env (rg_ExpiresAt r) - ue_now env;
          ttlStr = (if ttl > 0 then formatDuration (f64_to_int (Duration_Seconds ttl)) else ''expired'') in
      \<lparr>rd_Server = backendName, rd_AOR = rg_AOR r, rd_ContactURI = rg_ContactURI r, rd_Transport = rg_Transport r,
       rd_ReceivedIP = rg_ReceivedIP r, rd_ReceivedPort = rg_ReceivedPort r, rd_Expires = rg_Expires r, rd_TTL = ttlStr,
       rd_UserAgent = rg_UserAgent r, rd_RegisteredAt = ue_clock env (ue_parseTime env (rg_RegisteredAt r))\<rparr>)"

definition dialogRow :: "string \<Rightarrow> Dialog_v1 \<Rightarrow> DialogData" where
  "dialogRow backendName d =
     \<lparr>dd_Server = backendName, dd_CallID = dl_CallID d, dd_Direction = dl_Direction d, dd_State = dl_State d,
      dd_LocalURI = dl_LocalURI d, dd_RemoteURI = dl_RemoteURI d, dd_RemoteAddr = dl_RemoteAddr d, dd_RemotePort = dl_RemotePort d,
      dd_Duration = formatDuration (dl_Duration d), dd_CreatedAt = dl_CreatedAt d, dd_TerminateReason = dl_TerminateReason d\<rparr>"

definition sessionRow :: "string \<Rightarrow> Session_v1 \<Rightarrow> SessionData" where
  "sessionRow backendName s =
     \<lparr>sd_Server = backendName, sd_CallID = sv_CallID s, sd_ClientAddr = sv_ClientAddr s, sd_ClientPort = sv_ClientPort s,
      sd_ServerAddr = sv_ServerAddr s, sd_ServerPort = sv_ServerPort s, sd_Duration = formatDuration (sv_Duration s),
      sd_Status = sv_Status s\<rparr>"

definition managerRow :: "string \<Rightarrow> RtpManager \<Rightarrow> RtpManagerData" where
  "managerRow backendName m =
     \<lparr>md_Server = backendName, md_NodeID = rm_NodeID m, md_Address = rm_Address m, md_Healthy = rm_Healthy m,
      md_Status = (if rm_Healthy m then ''Healthy'' else ''Unhealthy''), md_DrainState = rm_DrainState m,
      md_SessionCount = rm_SessionCount m, md_InitialSessions = 0, md_RemainingSessions = 0\<rparr>"

text \<open>A fetch that fails adds nothing.\<close>

definition fetched :: "('a \<Rightarrow> page_section) \<Rightarrow> client_error + 'a \<Rightarrow> page_section list" where
  "fetched f r = (case r of Inl _ \<Rightarrow> [] | Inr x \<Rightarrow> [f x])"

definition statsSection :: "StatsResponse \<Rightarrow> page_section" where
  "statsSection s = AddStats \<lparr>st_ActiveSessions = sr_ActiveSessions s, st_TotalRegistrations = sr_TotalRegistrations s,
     st_TotalBindings = sr_TotalBindings s, st_ActiveDialogs = sr_ActiveDialogs s\<rparr>"

text \<open>A product of an \<open>int64\<close> wraps around.\<close>

definition wrap64 :: "int \<Rightarrow> int" where
  "wrap64 n = sint (of_int n :: 64 word)"

definition fetchBackendData :: "ui_env \<Rightarrow> net \<Rightarrow> ui_client \<Rightarrow> page_section list" where
  "fetchBackendData env net c =
     (case Client_Health net c of
        Inl _ \<Rightarrow> [AddBackend \<lparr>bd_Name = cl_name c, bd_Address = cl_baseURL c, bd_Status = ''offline'', bd_Uptime = ''''\<rparr>]
      | Inr health \<Rightarrow>
          fetched statsSection (Client_Stats net c) @
          fetched (\<lambda>rs. AddRegistrations (map (registrationRow env (cl_name c)) rs)) (Client_Registrations (ue_parseFloat env) net c) @
          fetched (\<lambda>ds. AddDialogs (map (dialogRow (cl_name c)) ds)) (Client_Dialogs net c) @
          fetched (\<lambda>ss. AddSessions (map (sessionRow (cl_name c)) ss)) (Client_Sessions net c) @
          fetched (\<lambda>ms. AddRtpManagers (map (managerRow (cl_name c)) (rr_Members ms))) (Client_RtpManagers net c) @
          [AddBackend \<lparr>bd_Name = cl_name c, bd_Address = cl_baseURL c, bd_Status = hl_Status health,
             bd_Uptime = formatUptime (wrap64 (hl_Uptime health * 1000000000))\<rparr>])"

text \<open>
  The goroutine \<open>i\<close> of a schedule runs its next section, if it has one; what is left when the schedule
  ends runs goroutine by goroutine.
\<close>

fun interleave :: "'a list list \<Rightarrow> nat list \<Rightarrow> 'a list" where
  "interleave xss [] = concat xss"
| "interleave xss (i # is) =
     (if i < length xss then
        (case xss ! i of [] \<Rightarrow> interleave xss is | x # xs \<Rightarrow> x # interleave (xss[i := xs]) is)
      else interleave xss is)"

section \<open>The server\<close>

record ui_server =
  us_clients :: "ui_client list"
  us_startTime :: time

definition NewUiServer :: "time \<Rightarrow> ui_config \<Rightarrow> ui_server" where
  "NewUiServer now cfg = \<lparr>us_clients = map (\<lambda>b. NewClient (be_Name b) (be_Address b)) (uc_Backends cfg), us_startTime = now\<rparr>"

definition emptyPage :: "ui_env \<Rightarrow> ui_server \<Rightarrow> TemplateData" where
  "emptyPage env s =
     \<lparr>td_Title = ''Switchboard Admin'', td_HealthStatus = ''ok'', td_HealthUptime = formatUptime (ue_now env - us_startTime s),
      td_Stats = \<lparr>st_ActiveSessions = 0, st_TotalRegistrations = 0, st_TotalBindings = 0, st_ActiveDialogs = 0\<rparr>,
      td_Backends = [], td_RtpManagers = [], td_Registrations = [], td_Dialogs = [], td_Sessions = [],
      td_MultiBackend = (length (us_clients s) > 1)\<rparr>"

definition buildTemplateData :: "ui_env \<Rightarrow> nat list \<Rightarrow> net \<Rightarrow> ui_server \<Rightarrow> TemplateData" where
  "buildTemplateData env schedule net s =
     fold runSection (interleave (map (fetchBackendData env net) (us_clients s)) schedule) (emptyPage env s)"

datatype partial = PDashboard | PStats | PBackends | PRegistrations | PDialogs | PSessions | PRtpManagers

type_synonym renderer = "partial \<Rightarrow> TemplateData \<Rightarrow> string \<times> bool"

definition text_html :: string where
  "text_html = ''text/html; charset=utf-8''"

text \<open>When rendering fails after it has written something, the status line is already out.\<close>

definition rendered :: "string \<times> bool \<Rightarrow> http_response" where
  "rendered out =
     (if snd out then \<lparr>hr_Status = 200, hr_ContentType = text_html, hr_Body = TextBody (fst out)\<rparr>
      else if fst out = '''' then httpError ''Failed to render template'' 500
      else \<lparr>hr_Status = 200, hr_ContentType = text_html, hr_Body = TextBody (fst out @ ''Failed to render template'' @ [CHR 0x0A])\<rparr>)"

definition handlePartial :: "renderer \<Rightarrow> partial \<Rightarrow> ui_env \<Rightarrow> nat list \<Rightarrow> net \<Rightarrow> ui_server \<Rightarrow> http_response" where
  "handlePartial render p env schedule net s = rendered (render p (buildTemplateData env schedule net s))"

definition handleDashboard :: "renderer \<Rightarrow> ui_env \<Rightarrow> nat list \<Rightarrow> net \<Rightarrow> http_request \<Rightarrow> ui_server \<Rightarrow> http_response" where
  "handleDashboard render env schedule net req s =
     (if hq_Path req \<noteq> ''/'' then httpError ''404 page not found'' 404
      else handlePartial render PDashboard env schedule net s)"

definition queryGet :: "http_request \<Rightarrow> string \<Rightarrow> string" where
  "queryGet req k = (case map_of (hq_Query req) k of None \<Rightarrow> '''' | Some v \<Rightarrow> v)"

definition handleDrainModal :: "(DrainModalData \<Rightarrow> string \<times> bool) \<Rightarrow> http_request \<Rightarrow> http_response" where
  "handleDrainModal renderModal req =
     (if hq_Method req \<noteq> ''GET'' then methodNotAllowed
      else rendered (renderModal \<lparr>mo_Server = queryGet req ''server'', mo_NodeID = queryGet req ''nodeId'',
             mo_Address = queryGet req ''address'', mo_SessionCount = AtoiValue (queryGet req ''sessions'')\<rparr>))"

text \<open>
  The answer of a drain handler: the response and the \<open>HX-Trigger\<close> header. \<open>net\<close> answers the drain request, \<open>net'\<close>
  the requests for the new page.
\<close>

definition drainFailed :: "ui_env \<Rightarrow> string \<Rightarrow> client_error \<Rightarrow> http_response" where
  "drainFailed env what err =
     \<lparr>hr_Status = 500, hr_ContentType = text_html,
      hr_Body = TextBody (''<div class='' @ [CHR 0x22] @ ''text-red-400 text-sm'' @ [CHR 0x22] @ ''>'' @ what @ ue_errText env err @ ''</div>'')\<rparr>"

definition findClient :: "string \<Rightarrow> ui_server \<Rightarrow> ui_client option" where
  "findClient server s = find (\<lambda>c. cl_name c = server) (us_clients s)"

definition drainTarget :: "http_request \<Rightarrow> ui_server \<Rightarrow> http_response + ui_client" where
  "drainTarget req s =
     (if hq_Method req \<noteq> ''POST'' then Inl methodNotAllowed
      else if queryGet req ''server'' = '''' \<or> queryGet req ''nodeId'' = '''' then Inl (httpError ''Missing server or nodeId'' 400)
      else (case findClient (queryGet req ''server'') s of None \<Rightarrow> Inl (httpError ''Server not found'' 404) | Some c \<Rightarrow> Inr c))"

definition handleDrain ::
  "renderer \<Rightarrow> ui_env \<Rightarrow> nat list \<Rightarrow> net \<Rightarrow> net \<Rightarrow> http_request \<Rightarrow> ui_server \<Rightarrow> http_response \<times> string option" where
  "handleDrain render env schedule net net' req s =
     (case drainTarget req s of
        Inl resp \<Rightarrow> (resp, None)
      | Inr c \<Rightarrow>
          (case Client_StartDrain net c (queryGet req ''nodeId'') (queryGet req ''mode'') of
             Inl err \<Rightarrow> (drainFailed env ''Failed to start drain: '' err, None)
           | Inr _ \<Rightarrow> (handlePartial render PRtpManagers env schedule net' s, Some ''drainStarted'')))"

definition ui_handleCancelDrain ::
  "renderer \<Rightarrow> ui_env \<Rightarrow> nat list \<Rightarrow> net \<Rightarrow> net \<Rightarrow> http_request \<Rightarrow> ui_server \<Rightarrow> http_response \<times> string option" where
  "ui_handleCancelDrain render env schedule net net' req s =
     (case drainTarget req s of
        Inl resp \<Rightarrow> (resp, None)
      | Inr c \<Rightarrow>
          (case Client_CancelDrain net c (queryGet req ''nodeId'') of
             Some err \<Rightarrow> (drainFailed env ''Failed to cancel drain: '' err, None)
           | None \<Rightarrow> (handlePartial render PRtpManagers env schedule net' s, Some ''drainCancelled'')))"

definition ui_handleHealth :: "ui_env \<Rightarrow> ui_server \<Rightarrow> http_response" where
  "ui_handleHealth env s =
     writeJSON (Some (JObj [(''status'', JStr ''ok''), (''uptime'', jint (f64_to_int (Duration_Seconds (ue_now env - us_startTime s))))]))"

text \<open>
  The routes. \<open>ServeMux\<close> sends every path that is not listed to the dashboard; \<open>net'\<close> answers the requests for the
  page that a drain handler renders.
\<close>

datatype ui_endpoint = EpPartial partial | EpDrainModal | EpStartDrain | EpCancelDrain | EpUiHealth

definition ui_mux :: "(string \<times> ui_endpoint) list" where
  "ui_mux =
     [(''/admin/partials/stats'', EpPartial PStats), (''/admin/partials/backends'', EpPartial PBackends),
      (''/admin/partials/registrations'', EpPartial PRegistrations), (''/admin/partials/dialogs'', EpPartial PDialogs),
      (''/admin/partials/sessions'', EpPartial PSessions), (''/admin/partials/rtpmanagers'', EpPartial PRtpManagers),
      (''/admin/rtpmanagers/drain-modal'', EpDrainModal), (''/admin/rtpmanagers/drain'', EpStartDrain),
      (''/admin/rtpmanagers/cancel-drain'', EpCancelDrain), (''/health'', EpUiHealth)]"

definition ui_serve ::
  "renderer \<Rightarrow> (DrainModalData \<Rightarrow> string \<times> bool) \<Rightarrow> ui_env \<Rightarrow> nat list \<Rightarrow> net \<Rightarrow> net \<Rightarrow> http_request \<Rightarrow> ui_server \<Rightarrow>
     http_response \<times> string option" where
  "ui_serve render renderModal env schedule net net' req s =
     (case map_of ui_mux (hq_Path req) of
        None \<Rightarrow> (handleDashboard render env schedule net' req s, None)
      | Some (EpPartial p) \<Rightarrow> (handlePartial render p env schedule net' s, None)
      | Some EpDrainModal \<Rightarrow> (handleDrainModal renderModal req, None)
      | Some EpStartDrain \<Rightarrow> handleDrain render env schedule net net' req s
      | Some EpCancelDrain \<Rightarrow> ui_handleCancelDrain render env schedule net net' req s
      | Some EpUiHealth \<Rightarrow> (ui_handleHealth env s, None))"

end
