(* ===== verification/Drain_Props.thy ===== *)
theory Drain_Props
  imports Drain
begin

text \<open>
  Properties of draining: what a migration does to the pool's session tracking and to the
  dialogs (\<open>migrator.go\<close>), and how a drain ends (\<open>coordinator.go\<close>).
\<close>

section \<open>The pool during a migration\<close>

lemma createOn_holds:
  assumes inv: "pl_inv p" and i: "i < length (pl_members p)" and call: "creating env call" and fresh: "env_fresh env (pool_holds p)"
  shows "pool_holds (fst (createOn call i p)) \<subseteq> insert (ce_uuid env) (pool_holds p)"
proof (cases "pm_transport (pl_members p ! i)")
  case (Some t)
  obtain t' r where c: "call t = (t', r)" by fastforce
  note t = member_transport [OF inv i Some]
  have t': "gt_holds t' \<subseteq> insert (ce_uuid env) (gt_holds t)"
    using call t(1) fresh_member [OF inv i Some fresh] c unfolding creating_def by blast
  have "pool_holds (upd_member i f p) \<subseteq> insert (ce_uuid env) (pool_holds p)" if "\<And>m. pm_transport (f m) = Some t'" for f
  proof -
    have "m_holds (f (pl_members p ! i)) \<subseteq> insert (ce_uuid env) (pool_holds p)" using that t' t(3) by (auto simp: m_holds_def)
    moreover have "m_holds (pl_members p ! j) \<subseteq> pool_holds p" if "j < length (pl_members p)" for j
      using nth_mem [OF that] by (auto simp: pool_holds_def)
    ultimately show ?thesis by (auto simp: pool_holds_upd [OF i] simp del: upd_member_fields)
  qed
  moreover have "pool_holds (trackSession s n q) = pool_holds q" for s n q by (simp add: pool_holds_def)
  ultimately show ?thesis using c Some by (cases r) (simp_all add: createOn_def set_transport_def)
qed (auto simp: createOn_def)

lemma create_on_node:
  assumes pool: "pool_reachable p" and fresh: "env_fresh env (pool_holds p)"
    and run: "Pool_CreateSessionOnNode rpc env n info p = (p', r)"
  shows "pool_reachable p'" and "same_nodes p p'" and "pool_holds p' \<subseteq> insert (ce_uuid env) (pool_holds p)"
    and "\<And>e. r = Inl e \<Longrightarrow> map_of (pl_sessionToNode p') = map_of (pl_sessionToNode p)"
    and "\<And>res. r = Inr res \<Longrightarrow> map_of (pl_sessionToNode p') = (map_of (pl_sessionToNode p))(sr_SessionID res \<mapsto> n)"
    and "\<And>res m. r = Inr res \<Longrightarrow> map_of (pl_sessionToNode p) (sr_SessionID res) = Some m \<Longrightarrow> m = n"
proof -
  note inv = pool_reachable_inv [OF pool]
  show reach: "pool_reachable p'"
    using pool_reachable.step [OF pool pool_step.create_node [OF fresh, of rpc n info]] run by simp
  note inv' = pool_reachable_inv [OF reach]
  have cases: "(p' = p \<and> (\<exists>e. r = Inl e)) \<or>
      (\<exists>i. i < length (pl_members p) \<and> pm_id (pl_members p ! i) = n \<and> createOn (GRPC_CreateSession rpc env info) i p = (p', r))"
    using run member_index [OF inv, of n]
    by (auto simp: Pool_CreateSessionOnNode_def Let_def split: option.splits if_splits)
  have "same_nodes p p' \<and> pool_holds p' \<subseteq> insert (ce_uuid env) (pool_holds p)"
    using cases
  proof
    assume "\<exists>i. i < length (pl_members p) \<and> pm_id (pl_members p ! i) = n \<and> createOn (GRPC_CreateSession rpc env info) i p = (p', r)"
    then obtain i where i: "i < length (pl_members p)" "p' = fst (createOn (GRPC_CreateSession rpc env info) i p)" by (metis fst_conv)
    thus ?thesis using createOn_same_nodes [OF i(1)] createOn_holds [OF inv i(1) creating_calls(1) fresh] by simp
  qed auto
  thus "same_nodes p p'" "pool_holds p' \<subseteq> insert (ce_uuid env) (pool_holds p)" by blast+
  show "map_of (pl_sessionToNode p') = map_of (pl_sessionToNode p)" if "r = Inl e" for e
    using cases createOn_frame(7) [of _ _ p p' r] that by auto
  show "map_of (pl_sessionToNode p') = (map_of (pl_sessionToNode p))(sr_SessionID res \<mapsto> n)" if "r = Inr res" for res
    using cases createOn_frame(7) [of _ _ p p' r] that by auto
  show "m = n" if r: "r = Inr res" and m: "map_of (pl_sessionToNode p) (sr_SessionID res) = Some m" for res m
  proof (rule ccontr)
    assume ne: "m \<noteq> n"
    obtain i where i: "i < length (pl_members p)" "pm_id (pl_members p ! i) = n"
      and c: "createOn (GRPC_CreateSession rpc env info) i p = (p', Inr res)" using cases r by auto
    obtain j where j: "getMemberForSession p (sr_SessionID res) = Some j" using owner_exists [OF inv m] by blast
    note own = owner_found [OF inv j]
    have ji: "j \<noteq> i" using own(2) m ne i(2) by auto
    note frame = createOn_frame [OF c i(1)]
    have "sr_SessionID res \<in> m_holds (pl_members p' ! j)" using own(3) frame(3) [OF ji] by simp
    moreover have "sr_SessionID res \<in> m_holds (pl_members p' ! i)" by (rule createOn_owner(2) [OF inv i(1) creating_calls(1) fresh c])
    moreover have "m_holds (pl_members p' ! j) \<inter> m_holds (pl_members p' ! i) = {}"
      using inv' own(1) i(1) ji frame(1) by (simp add: pl_inv_def servers_ok_def)
    ultimately show False by blast
  qed
qed

lemma destroy_session:
  assumes pool: "pool_reachable p"
  shows "pool_reachable (fst (Pool_DestroySession ord rpc s reason p))" and "same_nodes p (fst (Pool_DestroySession ord rpc s reason p))"
    and "map_of (pl_sessionToNode (fst (Pool_DestroySession ord rpc s reason p))) = (map_of (pl_sessionToNode p))(s := None)"
proof -
  note inv = pool_reachable_inv [OF pool]
  show "pool_reachable (fst (Pool_DestroySession ord rpc s reason p))"
    using pool_reachable.step [OF pool pool_step.destroy] .
  show "same_nodes p (fst (Pool_DestroySession ord rpc s reason p))"
    "map_of (pl_sessionToNode (fst (Pool_DestroySession ord rpc s reason p))) = (map_of (pl_sessionToNode p))(s := None)"
  proof -
    have "same_nodes p (fst (Pool_DestroySession ord rpc s reason p)) \<and>
      map_of (pl_sessionToNode (fst (Pool_DestroySession ord rpc s reason p))) = (map_of (pl_sessionToNode p))(s := None)"
    proof (cases "getMemberForSession p s")
      case None
      hence "map_of (pl_sessionToNode p) s = None" using owner_exists [OF inv] by (metis not_None_eq)
      thus ?thesis using None by (simp add: Pool_DestroySession_def fun_upd_idem)
    next
      case (Some i)
      obtain t where "pm_transport (pl_members p ! i) = Some t" using owner_transport [OF inv Some] .
      thus ?thesis using same_nodes_upd [of p i] by (simp add: Pool_DestroySession_owned [OF Some] same_nodes_def)
    qed
    thus "same_nodes p (fst (Pool_DestroySession ord rpc s reason p))"
      "map_of (pl_sessionToNode (fst (Pool_DestroySession ord rpc s reason p))) = (map_of (pl_sessionToNode p))(s := None)" by blast+
  qed
qed

lemma bridge_media:
  assumes pool: "pool_reachable p"
  shows "pool_reachable (fst (Pool_BridgeMedia listen uuid rpc a b p))" and "same_nodes p (fst (Pool_BridgeMedia listen uuid rpc a b p))"
    and "pl_sessionToNode (fst (Pool_BridgeMedia listen uuid rpc a b p)) = pl_sessionToNode p"
  using pool_reachable.step [OF pool pool_step.bridge]
  by (auto simp: Pool_BridgeMedia_def Let_def split: option.split prod.split sum.split)

section \<open>The dialogs during a migration\<close>

definition same_sessions :: "dialog_manager \<Rightarrow> dialog_manager \<Rightarrow> bool" where
  "same_sessions m m' \<longleftrightarrow> length (dm_heap m') = length (dm_heap m) \<and> (\<forall>r. dlg_SessionID (dlg_at m' r) = dlg_SessionID (dlg_at m r))"

lemma same_sessions_refl [simp]: "same_sessions m m"
  by (simp add: same_sessions_def)

lemma same_sessions_trans: "same_sessions m m' \<Longrightarrow> same_sessions m' m'' \<Longrightarrow> same_sessions m m''"
  by (simp add: same_sessions_def)

lemma same_sessions_upd: "dlg_SessionID (f (dlg_at m r)) = dlg_SessionID (dlg_at m r) \<Longrightarrow> same_sessions m (upd_dlg r f m)"
  by (cases "r < length (dm_heap m)") (auto simp: same_sessions_def dlg_at_def nth_list_update list_update_beyond)

lemma same_sessions_send [simp]: "same_sessions m (send_out x m')  = same_sessions m m'"
  by (simp add: same_sessions_def dlg_at_def send_out_def)

lemma same_sessions_Complete: "same_sessions m m' \<Longrightarrow> same_sessions m (upd_dlg r CompleteReINVITE m')"
  by (rule same_sessions_trans [OF _ same_sessions_upd]) (simp_all add: CompleteReINVITE_def)

lemma same_sessions_loop: "same_sessions m m' \<Longrightarrow> same_sessions m (fst (reinviteLoop r evs m'))"
  by (induction r evs m' rule: reinviteLoop.induct) (auto simp: Let_def same_sessions_Complete)

lemma same_sessions_reinvite: "same_sessions m (fst (SendReINVITE ord pu ok evs m r contact opts))"
proof -
  obtain d x where b: "BuildReINVITE ord pu contact opts (dlg_at m r) = (d, x)" by fastforce
  have "same_sessions m (upd_dlg r (\<lambda>_. d) m)"
    using BuildReINVITE_frame [OF b] by (intro same_sessions_upd) auto
  thus ?thesis using b by (cases x) (simp_all add: SendReINVITE_def Let_def same_sessions_Complete same_sessions_loop)
qed

lemma killed_session [simp]: "dlg_SessionID (killed now reason d) = dlg_SessionID d"
  by (simp add: killed_def tryTransition_def TransitionTo_def)

lemma same_sessions_sendBYE: "same_sessions m (fst (sendBYE pu sok txok m r))"
  by (auto simp: sendBYE_def Let_def dest!: BuildBYE_Inr(1) intro!: same_sessions_upd split: prod.split sum.split)

lemma same_sessions_shutdown: "same_sessions m (shutdown now m r reason)"
proof (cases "r < length (dm_heap m)")
  case True
  thus ?thesis by (simp add: same_sessions_def dlg_at_def shutdown_fields(1) nth_list_update)
next
  case False
  thus ?thesis by (simp add: same_sessions_def dlg_at_def Manager_terminate_def Let_def list_update_beyond)
qed

lemma same_sessions_terminate: "same_sessions m (fst (Manager_Terminate pu sok txok start now m callID reason))"
  using same_sessions_trans [OF same_sessions_sendBYE same_sessions_shutdown] same_sessions_shutdown
  by (auto simp: Manager_Terminate_def Let_def split: option.split)

text \<open>A dialog found by its session.\<close>

lemma forEach_found:
  assumes "forEach_from now (\<lambda>_ r found. if P r then (False, Some r) else (True, found)) es None = Some r"
  shows "P r \<and> r \<in> (ent_Value \<circ> snd) ` set es"
  using assms by (induction es) (auto split: if_splits)

lemma FindBySessionID_Some:
  assumes inv: "dm_inv m" and ord: "is_range ord" and found: "FindBySessionID ord now m sid = Some r"
  shows "dlg_SessionID (dlg_at m r) = sid" and "r < length (dm_heap m)"
proof -
  obtain k e where "dlg_SessionID (dlg_at m r) = sid" and e: "(k, e) \<in> set (ord (tts_items (dm_dialogs m)))" "ent_Value e = r"
    using forEach_found [of now "\<lambda>r. dlg_SessionID (dlg_at m r) = sid"] found by (force simp: FindBySessionID_def TTL_ForEach_def)
  thus "dlg_SessionID (dlg_at m r) = sid" by simp
  have "map_of (tts_items (dm_dialogs m)) k = Some e"
    using e(1) is_range_set [OF ord] dm_invD(2) [OF inv] by (auto simp: tts_inv_def gm_wf_def intro: map_of_is_SomeI)
  thus "r < length (dm_heap m)" using dm_invD(3) [OF inv] e(2) by (auto simp: store_ok_def)
qed

section \<open>Migrations\<close>

text \<open>
  The identifiers of the new sessions are fresh.
\<close>

definition mig_fresh :: "mig_env \<Rightarrow> media_pool \<Rightarrow> bool" where
  "mig_fresh env p \<longleftrightarrow> env_fresh (snd (me_createA env)) (pool_holds p) \<and>
     env_fresh (snd (me_createB env)) (insert (ce_uuid (snd (me_createA env))) (pool_holds p)) \<and> is_range (me_dlgOrd env)"

text \<open>
  \<open>kept T X w w'\<close>: the pool is sound, has the same nodes in the same drain states, and on nodes
  other than \<open>T\<close> it tracks the same sessions apart from those in \<open>X\<close>.
\<close>

definition kept :: "string \<Rightarrow> string set \<Rightarrow> drain_world \<Rightarrow> drain_world \<Rightarrow> bool" where
  "kept T X w w' \<longleftrightarrow> pool_reachable (dw_pool w') \<and> same_nodes (dw_pool w) (dw_pool w') \<and>
     dw_ops w' = dw_ops w \<and> dw_active w' = dw_active w \<and>
     (\<forall>s n. s \<notin> X \<longrightarrow> n \<noteq> T \<longrightarrow> map_of (pl_sessionToNode (dw_pool w')) s = Some n \<longleftrightarrow> map_of (pl_sessionToNode (dw_pool w)) s = Some n)"

lemma kept_refl: "pool_reachable (dw_pool w) \<Longrightarrow> kept T X w w"
  by (simp add: kept_def)

lemma kept_trans: "kept T X w w' \<Longrightarrow> kept T X w' w'' \<Longrightarrow> kept T X w w''"
  unfolding kept_def using same_nodes_trans by auto

lemma kept_mono: "kept T X w w' \<Longrightarrow> X \<subseteq> Y \<Longrightarrow> kept T Y w w'"
  unfolding kept_def by blast

lemma kept_dm [simp]: "kept T X w (w'\<lparr>dw_dm := m\<rparr>) = kept T X w w'"
  by (simp add: kept_def)

lemma kept_terminate [simp]: "kept T X w (mig_terminate env c w') = kept T X w w'"
  by (simp add: mig_terminate_def)

lemma kept_setSession [simp]: "kept T X w (mig_setSession r sid w') = kept T X w w'"
  by (simp add: mig_setSession_def)

lemma kept_reinvite: "mig_reinvite env tx mg r sdp w' = (w'', out) \<Longrightarrow> kept T X w w'' = kept T X w w'"
  by (auto simp: mig_reinvite_def split: prod.splits)

text \<open>Destroying a session in \<open>X\<close>, or one that is not tracked on another node than \<open>T\<close>.\<close>

lemma kept_destroy:
  assumes "kept T X w w'" and "sid \<in> X \<or> (\<forall>n. map_of (pl_sessionToNode (dw_pool w')) sid = Some n \<longrightarrow> n = T)"
  shows "kept T X w (mig_destroy env sid reason w')"
proof -
  have pool: "pool_reachable (dw_pool w')" using assms(1) by (simp add: kept_def)
  have "map_of (pl_sessionToNode (dw_pool w)) sid \<noteq> Some n" if "sid \<notin> X" "n \<noteq> T" for n
    using assms that unfolding kept_def by metis
  thus ?thesis
    using assms(1) destroy_session [OF pool] same_nodes_trans by (auto simp: kept_def mig_destroy_def)
qed

lemma kept_create:
  assumes "pool_reachable (dw_pool w)" and "env_fresh cenv (pool_holds (dw_pool w))"
    and "Pool_CreateSessionOnNode rpc cenv T info (dw_pool w) = (p, r)"
  shows "kept T X w (w\<lparr>dw_pool := p\<rparr>)"
  using create_on_node [OF assms] by (cases r) (auto simp: kept_def)

lemma tracked_destroy [simp]:
  "pool_reachable (dw_pool w) \<Longrightarrow>
   map_of (pl_sessionToNode (dw_pool (mig_destroy env sid reason w))) = (map_of (pl_sessionToNode (dw_pool w)))(sid := None)"
  using destroy_session(3) by (simp add: mig_destroy_def)

lemma reinvite_pool: "mig_reinvite env tx mg r sdp w = (w', out) \<Longrightarrow> dw_pool w' = dw_pool w \<and> same_sessions (dw_dm w) (dw_dm w')"
  using same_sessions_reinvite by (auto simp: mig_reinvite_def split: prod.splits) (metis fst_conv)

lemma mig_frames [simp]:
  "dw_dm (mig_destroy env sid reason w) = dw_dm w" "dw_pool (mig_terminate env c w) = dw_pool w"
  "dw_pool (mig_setSession r sid w) = dw_pool w" "dw_dm (mig_setSession r sid w) = upd_dlg r (SetSessionID sid) (dw_dm w)"
  by (simp_all add: mig_destroy_def mig_terminate_def mig_setSession_def)

lemma same_sessions_mig_terminate: "same_sessions m (dw_dm w) \<Longrightarrow> same_sessions m (dw_dm (mig_terminate env c w))"
  using same_sessions_trans same_sessions_terminate by (auto simp: mig_terminate_def)

lemma SetSession_at: "r < length (dm_heap m) \<Longrightarrow> dlg_SessionID (dlg_at (upd_dlg r (SetSessionID sid) m) k) = (if k = r then sid else dlg_SessionID (dlg_at m k))"
  by (simp add: dlg_at_def nth_list_update SetSessionID_def)

text \<open>
  The outcome of a migration of the dialogs \<open>B\<close> to node \<open>T\<close>. On success every one of them has a
  new session on \<open>T\<close> and its old one is gone; otherwise (unless re-establishing the bridge
  failed) all dialogs keep their sessions, and the sessions on other nodes stay where they are.
\<close>

definition mig_outcome :: "string \<Rightarrow> nat set \<Rightarrow> drain_world \<Rightarrow> drain_world \<Rightarrow> mig_result \<Rightarrow> bool" where
  "mig_outcome T B w w' res \<longleftrightarrow>
     (let old = (\<lambda>k. dlg_SessionID (dlg_at (dw_dm w) k)) ` B in
      if res = MigDone \<or> (\<exists>e. res = MigFailed (ReestablishFailed e))
      then kept T old w w' \<and>
        (\<forall>k \<in> B. map_of (pl_sessionToNode (dw_pool w')) (dlg_SessionID (dlg_at (dw_dm w') k)) = Some T) \<and>
        (\<forall>s \<in> old. map_of (pl_sessionToNode (dw_pool w')) s = None) \<and>
        (\<forall>k. k \<notin> B \<longrightarrow> dlg_SessionID (dlg_at (dw_dm w') k) = dlg_SessionID (dlg_at (dw_dm w) k))
      else kept T {} w w' \<and> same_sessions (dw_dm w) (dw_dm w'))"

text \<open>The dialogs' sessions are on other nodes.\<close>

definition away :: "string \<Rightarrow> nat set \<Rightarrow> drain_world \<Rightarrow> bool" where
  "away T B w \<longleftrightarrow> (\<forall>k \<in> B. k < length (dm_heap (dw_dm w)) \<and>
     (\<exists>n. n \<noteq> T \<and> map_of (pl_sessionToNode (dw_pool w)) (dlg_SessionID (dlg_at (dw_dm w) k)) = Some n))"

lemma migrateIVRCall_outcome:
  assumes pool: "pool_reachable (dw_pool w)" and fresh: "mig_fresh env (dw_pool w)" and away: "away T {r} w"
    and run: "migrateIVRCall env mg r T w = (w', res)"
  shows "mig_outcome T {r} w w' res"
proof (cases "fst (GetMediaEndpoint (dlg_at (dw_dm w) r)) = ''''")
  case True
  thus ?thesis using run pool by (auto simp: migrateIVRCall_def mig_outcome_def kept_refl)
next
  case False
  let ?sid = "dlg_SessionID (dlg_at (dw_dm w) r)"
  have r: "r < length (dm_heap (dw_dm w))" and sid: "\<exists>n. n \<noteq> T \<and> map_of (pl_sessionToNode (dw_pool w)) ?sid = Some n"
    using away by (simp_all add: away_def)
  obtain p x where cr: "Pool_CreateSessionOnNode (fst (me_createA env)) (snd (me_createA env)) T (legInfo (dlg_at (dw_dm w) r)) (dw_pool w) = (p, x)"
    by fastforce
  have fr: "env_fresh (snd (me_createA env)) (pool_holds (dw_pool w))" using fresh by (simp add: mig_fresh_def)
  note new = create_on_node [OF pool fr cr]
  have kept: "kept T X w (w\<lparr>dw_pool := p\<rparr>)" for X by (rule kept_create [OF pool fr cr])
  show ?thesis
  proof (cases x)
    case (Inl e)
    thus ?thesis using run False cr kept by (auto simp: migrateIVRCall_def mig_outcome_def)
  next
    case (Inr s)
    have track: "map_of (pl_sessionToNode p) = (map_of (pl_sessionToNode (dw_pool w)))(sr_SessionID s \<mapsto> T)" by (rule new(5) [OF Inr])
    have ne: "sr_SessionID s \<noteq> ?sid" using new(6) [OF Inr] sid by auto
    obtain w1 out where ri: "mig_reinvite env (me_txA env) mg r (sr_SDPBody s) (w\<lparr>dw_pool := p\<rparr>) = (w1, out)" by fastforce
    have w1: "dw_pool w1 = p" "same_sessions (dw_dm w) (dw_dm w1)" using reinvite_pool [OF ri] by simp_all
    have kept1: "kept T X w w1" for X using kept kept_reinvite [OF ri] by simp
    have undo: "kept T {} w (mig_destroy env (sr_SessionID s) reason w1)" for reason
      using track w1(1) by (intro kept_destroy [OF kept1]) simp
    show ?thesis
    proof (cases "out = None \<or> (\<exists>y. out = Some y \<and> \<not> reinvite_ok y)")
      case True
      hence "kept T {} w w' \<and> same_sessions (dw_dm w) (dw_dm w') \<and> res \<noteq> MigDone \<and> (\<forall>e. res \<noteq> MigFailed (ReestablishFailed e))"
        using run cr ri False Inr undo kept1 w1(2)
        by (auto simp: migrateIVRCall_def Let_def same_sessions_mig_terminate split: reinvite_outcome.splits if_splits)
      thus ?thesis by (auto simp: mig_outcome_def)
    next
      case ok: False
      then obtain y where "out = Some (ReinviteDone y)" "rr_Success y" by (cases "the out") auto
      hence w': "w' = mig_setSession r (sr_SessionID s) (mig_destroy env (dlg_SessionID (dlg_at (dw_dm w1) r)) TerminateReasonNormal w1)" "res = MigDone"
        using run cr ri False Inr by (auto simp: migrateIVRCall_def Let_def)
      have old: "dlg_SessionID (dlg_at (dw_dm w1) r) = ?sid" and len: "r < length (dm_heap (dw_dm w1))"
        using w1(2) r by (simp_all add: same_sessions_def)
      have "kept T {?sid} w w'" unfolding w' old by (simp add: kept_destroy [OF kept1])
      moreover have "map_of (pl_sessionToNode (dw_pool w')) = (map_of (pl_sessionToNode p))(?sid := None)"
        unfolding w' old using new(1) w1(1) by simp
      moreover have "dlg_SessionID (dlg_at (dw_dm w') k) = (if k = r then sr_SessionID s else dlg_SessionID (dlg_at (dw_dm w) k))" for k
        unfolding w' using SetSession_at [OF len] w1(2) by (simp add: same_sessions_def)
      ultimately show ?thesis using ne track by (simp add: mig_outcome_def w'(2))
    qed
  qed
qed

lemma same_sessions_both: "same_sessions m (dw_dm w) \<Longrightarrow> same_sessions m (dw_dm (terminateBoth env mg x y w))"
  by (simp add: terminateBoth_def same_sessions_mig_terminate)

lemma kept_both [simp]: "kept T X w (terminateBoth env mg x y w') = kept T X w w'"
  by (simp add: terminateBoth_def)

lemma both_pool [simp]: "dw_pool (terminateBoth env mg x y w) = dw_pool w"
  by (simp add: terminateBoth_def)

lemma bridgedError_cases: "bridgedError x y \<noteq> ReestablishFailed e"
  by (cases x; cases y) auto

lemma bridged_success:
  assumes pool: "pool_reachable (dw_pool w2)" and kept2: "\<And>X. kept T X w w2" and same: "same_sessions (dw_dm w) (dw_dm w2)"
    and len: "a < length (dm_heap (dw_dm w))" "b < length (dm_heap (dw_dm w))"
    and sids: "sA = dlg_SessionID (dlg_at (dw_dm w) a)" "sB = dlg_SessionID (dlg_at (dw_dm w) b)"
    and tr: "map_of (pl_sessionToNode (dw_pool w2)) nA = Some T" "map_of (pl_sessionToNode (dw_pool w2)) nB = Some T"
    and ne: "nA \<noteq> sA" "nA \<noteq> sB" "nB \<noteq> sA" "nB \<noteq> sB"
    and w4: "w4 = mig_setSession b nB (mig_setSession a nA (mig_destroy env sB reason (mig_destroy env sA reason w2)))"
    and w': "pool_reachable (dw_pool w')" "same_nodes (dw_pool w4) (dw_pool w')" "pl_sessionToNode (dw_pool w') = pl_sessionToNode (dw_pool w4)"
      "dw_ops w' = dw_ops w4" "dw_active w' = dw_active w4" "same_sessions (dw_dm w4) (dw_dm w')"
    and res: "res = MigDone \<or> (\<exists>e. res = MigFailed (ReestablishFailed e))"
  shows "mig_outcome T {a, b} w w' res"
proof -
  let ?w3 = "mig_destroy env sA reason w2"
  have p3: "pool_reachable (dw_pool ?w3)" using destroy_session(1) [OF pool] by (simp add: mig_destroy_def)
  have k4: "kept T {sA, sB} w w4" unfolding w4 by (simp add: kept_destroy kept2)
  have "kept T {sA, sB} w4 w'" using w' by (simp add: kept_def)
  hence k': "kept T {sA, sB} w w'" by (rule kept_trans [OF k4])
  have m4: "map_of (pl_sessionToNode (dw_pool w')) = (map_of (pl_sessionToNode (dw_pool w2)))(sA := None, sB := None)"
    unfolding w'(3) w4 using pool p3 by simp
  have len2: "a < length (dm_heap (dw_dm w2))" "b < length (dm_heap (upd_dlg a (SetSessionID nA) (dw_dm w2)))"
    using len same by (simp_all add: same_sessions_def)
  have s4: "dlg_SessionID (dlg_at (dw_dm w') k) = (if k = b then nB else if k = a then nA else dlg_SessionID (dlg_at (dw_dm w) k))" for k
    using w'(6) same SetSession_at [OF len2(1)] SetSession_at [OF len2(2)] by (simp add: w4 same_sessions_def)
  show ?thesis using res k' m4 s4 tr ne by (auto simp: mig_outcome_def sids)
qed

lemma migrateBridgedCall_outcome:
  assumes pool: "pool_reachable (dw_pool w)" and fresh: "mig_fresh env (dw_pool w)" and away: "away T {a, b} w"
    and run: "migrateBridgedCall env mg a b T w = (w', res)"
  shows "mig_outcome T {a, b} w w' res"
proof (cases "fst (GetMediaEndpoint (dlg_at (dw_dm w) a)) = '''' \<or> fst (GetMediaEndpoint (dlg_at (dw_dm w) b)) = ''''")
  case True
  thus ?thesis using run pool by (auto simp: migrateBridgedCall_def Let_def mig_outcome_def kept_refl split: if_splits)
next
  case False
  let ?sA = "dlg_SessionID (dlg_at (dw_dm w) a)" and ?sB = "dlg_SessionID (dlg_at (dw_dm w) b)"
  have len: "a < length (dm_heap (dw_dm w))" "b < length (dm_heap (dw_dm w))"
    and sid: "\<exists>n. n \<noteq> T \<and> map_of (pl_sessionToNode (dw_pool w)) ?sA = Some n" "\<exists>n. n \<noteq> T \<and> map_of (pl_sessionToNode (dw_pool w)) ?sB = Some n"
    using away by (simp_all add: away_def)
  obtain p x where cr: "Pool_CreateSessionOnNode (fst (me_createA env)) (snd (me_createA env)) T (legInfo (dlg_at (dw_dm w) a)) (dw_pool w) = (p, x)"
    by fastforce
  have fr: "env_fresh (snd (me_createA env)) (pool_holds (dw_pool w))" using fresh by (simp add: mig_fresh_def)
  note new = create_on_node [OF pool fr cr]
  have kept: "kept T X w (w\<lparr>dw_pool := p\<rparr>)" for X by (rule kept_create [OF pool fr cr])
  show ?thesis
  proof (cases x)
    case (Inl e)
    thus ?thesis using run False cr kept by (auto simp: migrateBridgedCall_def Let_def mig_outcome_def)
  next
    case (Inr s)
    note xA = Inr
    have trackA: "map_of (pl_sessionToNode p) = (map_of (pl_sessionToNode (dw_pool w)))(sr_SessionID s \<mapsto> T)" by (rule new(5) [OF Inr])
    have neA: "sr_SessionID s \<noteq> ?sA" "sr_SessionID s \<noteq> ?sB" using new(6) [OF Inr] sid by auto
    obtain p' y where cr2: "Pool_CreateSessionOnNode (fst (me_createB env)) (snd (me_createB env)) T (legInfo (dlg_at (dw_dm w) b)) p = (p', y)"
      by fastforce
    have fr2: "env_fresh (snd (me_createB env)) (pool_holds p)" using fresh new(3) by (auto simp: mig_fresh_def env_fresh_def)
    note new2 = create_on_node [OF new(1) fr2 cr2]
    have kept2: "kept T X w (w\<lparr>dw_pool := p'\<rparr>)" for X
      using kept_trans [OF kept kept_create [of "w\<lparr>dw_pool := p\<rparr>"]] new(1) fr2 cr2 by simp
    show ?thesis
    proof (cases y)
      case (Inl e)
      have "kept T {} w (mig_destroy env (sr_SessionID s) TerminateReasonError (w\<lparr>dw_pool := p'\<rparr>))"
        using new2(4) [OF Inl] trackA by (intro kept_destroy [OF kept2]) simp
      thus ?thesis using run False cr cr2 xA Inl by (auto simp: migrateBridgedCall_def Let_def mig_outcome_def)
    next
      case (Inr u)
      have track: "map_of (pl_sessionToNode p') = (map_of (pl_sessionToNode (dw_pool w)))(sr_SessionID s \<mapsto> T, sr_SessionID u \<mapsto> T)"
        using new2(5) [OF Inr] trackA by simp
      have neB: "sr_SessionID u \<noteq> ?sA" "sr_SessionID u \<noteq> ?sB" using new2(6) [OF Inr] sid trackA neA by auto
      obtain w1 outA where ri: "mig_reinvite env (me_txA env) mg a (sr_SDPBody s) (w\<lparr>dw_pool := p'\<rparr>) = (w1, outA)" by fastforce
      have w1: "dw_pool w1 = p'" "same_sessions (dw_dm w) (dw_dm w1)" using reinvite_pool [OF ri] by simp_all
      have kept1: "kept T X w w1" for X using kept2 kept_reinvite [OF ri] by simp
      obtain w2 outB where ri2: "mig_reinvite env (me_txB env) mg b (sr_SDPBody u) w1 = (w2, outB)" by fastforce
      have w2: "dw_pool w2 = p'" "same_sessions (dw_dm w) (dw_dm w2)"
        using reinvite_pool [OF ri2] w1 same_sessions_trans by auto
      have keptw2: "kept T X w w2" for X using kept1 kept_reinvite [OF ri2] by simp
      have pool2: "pool_reachable (dw_pool w2)" using new2(1) w2(1) by simp
      have undo: "kept T {} w (mig_destroy env (sr_SessionID u) reason (mig_destroy env (sr_SessionID s) reason' w2))" for reason reason'
        using track w2(1) pool2 by (intro kept_destroy keptw2) auto
      note def = migrateBridgedCall_def Let_def
      show ?thesis
      proof (cases "outA = None \<or> outB = None \<or> \<not> reinvite_ok (the outA) \<or> \<not> reinvite_ok (the outB)")
        case True
        then consider "outA = None" | oA where "outA = Some oA" "outB = None"
          | oA oB where "outA = Some oA" "outB = Some oB" "\<not> (reinvite_ok oA \<and> reinvite_ok oB)"
          by (cases outA; cases outB) auto
        hence "kept T {} w w' \<and> same_sessions (dw_dm w) (dw_dm w') \<and> res \<noteq> MigDone \<and> (\<forall>e. res \<noteq> MigFailed (ReestablishFailed e))"
        proof cases
          case 1
          thus ?thesis using run cr cr2 ri False xA Inr kept1 w1(2) by (auto simp: def)
        next
          case 2
          thus ?thesis using run cr cr2 ri ri2 False xA Inr keptw2 w2(2) by (auto simp: def)
        next
          case 3
          hence "w' = terminateBoth env mg (dlg_CallID (dlg_at (dw_dm w) a)) (dlg_CallID (dlg_at (dw_dm w) b))
              (mig_destroy env (sr_SessionID u) TerminateReasonError (mig_destroy env (sr_SessionID s) TerminateReasonError w2))"
            "res = MigFailed (bridgedError oA oB)"
            using run cr cr2 ri ri2 False xA Inr by (auto simp: def)
          thus ?thesis using undo w2(2) by (simp add: same_sessions_both bridgedError_cases)
        qed
        thus ?thesis by (auto simp: mig_outcome_def)
      next
        case ok: False
        then obtain oA oB where outs: "outA = Some oA" "outB = Some oB" "reinvite_ok oA" "reinvite_ok oB" by auto
        define w4 where "w4 = mig_setSession b (sr_SessionID u) (mig_setSession a (sr_SessionID s)
          (mig_destroy env ?sB TerminateReasonNormal (mig_destroy env ?sA TerminateReasonNormal w2)))"
        obtain listen uuid rpc where me: "me_bridge env = (listen, uuid, rpc)" by (cases "me_bridge env") auto
        obtain q z where bm: "Pool_BridgeMedia listen uuid rpc (sr_SessionID s) (sr_SessionID u) (dw_pool w4) = (q, z)" by fastforce
        have "pool_reachable (dw_pool w4)" using destroy_session(1) [OF destroy_session(1) [OF pool2]] by (simp add: w4_def mig_destroy_def)
        hence q: "pool_reachable q" "same_nodes (dw_pool w4) q" "pl_sessionToNode q = pl_sessionToNode (dw_pool w4)"
          using bridge_media [of "dw_pool w4" listen uuid rpc "sr_SessionID s" "sr_SessionID u"] bm by simp_all
        have "(w' = w4\<lparr>dw_pool := q\<rparr> \<and> res = MigDone) \<or>
          (w' = terminateBoth env mg (dlg_CallID (dlg_at (dw_dm w) a)) (dlg_CallID (dlg_at (dw_dm w) b)) (w4\<lparr>dw_pool := q\<rparr>) \<and>
           (\<exists>e. res = MigFailed (ReestablishFailed e)))"
          using run cr cr2 ri ri2 False xA Inr outs bm me by (cases z) (auto simp: def w4_def)
        hence w': "dw_pool w' = q" "dw_ops w' = dw_ops w4" "dw_active w' = dw_active w4" "same_sessions (dw_dm w4) (dw_dm w')"
          and res: "res = MigDone \<or> (\<exists>e. res = MigFailed (ReestablishFailed e))"
          using same_sessions_both [of "dw_dm w4" "w4\<lparr>dw_pool := q\<rparr>"] by (auto simp: terminateBoth_def mig_terminate_def)
        show ?thesis
          by (rule bridged_success [OF pool2 keptw2 w2(2) len refl refl _ _ neA neB w4_def _ _ _ w'(2-4) res])
            (use track w2(1) w'(1) q in simp_all)
      qed
    qed
  qed
qed

text \<open>The dialogs \<open>MigrateSession\<close> moves together with the one that has the session.\<close>

definition mig_dialogs :: "mig_env \<Rightarrow> migrator \<Rightarrow> drain_world \<Rightarrow> nat \<Rightarrow> nat set" where
  "mig_dialogs env mg w r =
     (case Option.bind (mg_bridgeMapper mg) (\<lambda>f. f (dlg_CallID (dlg_at (dw_dm w) r))) of
        None \<Rightarrow> {r}
      | Some callID \<Rightarrow> (case Manager_Get (me_now env) (dw_dm w) callID of None \<Rightarrow> {r} | Some b \<Rightarrow> {r, b}))"

lemma MigrateSession_outcome:
  assumes pool: "pool_reachable (dw_pool w)" and fresh: "mig_fresh env (dw_pool w)"
    and found: "FindBySessionID (me_dlgOrd env) (me_now env) (dw_dm w) sid = Some r" and away: "away T (mig_dialogs env mg w r) w"
    and run: "MigrateSession env mg sid T w = (w', res)"
  shows "mig_outcome T (mig_dialogs env mg w r) w w' res"
proof (cases "dlg_Direction (dlg_at (dw_dm w) r) = DirectionOutbound \<or> dlg_State (dlg_at (dw_dm w) r) \<noteq> StateConfirmed")
  case True
  hence "w' = w" "res \<noteq> MigDone" "\<And>e. res \<noteq> MigFailed (ReestablishFailed e)"
    using run found by (auto simp: MigrateSession_def Let_def split: if_splits)
  thus ?thesis using pool by (simp add: mig_outcome_def kept_refl)
next
  case False
  note ivr = migrateIVRCall_outcome [OF pool fresh, of T r mg w' res]
  note bridged = migrateBridgedCall_outcome [OF pool fresh, of T r _ mg w' res]
  show ?thesis
    using run found False ivr bridged away
    by (auto simp: MigrateSession_def mig_dialogs_def Let_def split: option.splits)
qed

text \<open>A migration that failed leaves no new session behind.\<close>

definition no_new_session :: "drain_world \<Rightarrow> drain_world \<Rightarrow> bool" where
  "no_new_session w w' \<longleftrightarrow>
     (\<forall>s n. map_of (pl_sessionToNode (dw_pool w')) s = Some n \<longrightarrow> map_of (pl_sessionToNode (dw_pool w)) s = Some n)"

lemma migrateIVRCall_rollback:
  assumes pool: "pool_reachable (dw_pool w)" and fresh: "mig_fresh env (dw_pool w)" and run: "migrateIVRCall env mg r T w = (w', MigFailed e)"
  shows "no_new_session w w'"
proof -
  obtain p x where cr: "Pool_CreateSessionOnNode (fst (me_createA env)) (snd (me_createA env)) T (legInfo (dlg_at (dw_dm w) r)) (dw_pool w) = (p, x)"
    by fastforce
  have "env_fresh (snd (me_createA env)) (pool_holds (dw_pool w))" using fresh by (simp add: mig_fresh_def)
  note new = create_on_node [OF pool this cr]
  have w1: "dw_pool w1 = p" if "mig_reinvite env (me_txA env) mg r sdp (w\<lparr>dw_pool := p\<rparr>) = (w1, out)" for sdp w1 out
    using reinvite_pool [OF that] by simp
  show ?thesis
    using run cr new
    by (auto simp: migrateIVRCall_def Let_def no_new_session_def dest!: w1
        split: if_splits sum.splits prod.splits option.splits reinvite_outcome.splits)
qed

lemma migrateBridgedCall_rollback:
  assumes pool: "pool_reachable (dw_pool w)" and fresh: "mig_fresh env (dw_pool w)"
    and run: "migrateBridgedCall env mg a b T w = (w', MigFailed e)" and e: "\<And>err. e \<noteq> ReestablishFailed err"
  shows "no_new_session w w'"
proof -
  obtain p x where cr: "Pool_CreateSessionOnNode (fst (me_createA env)) (snd (me_createA env)) T (legInfo (dlg_at (dw_dm w) a)) (dw_pool w) = (p, x)"
    by fastforce
  have "env_fresh (snd (me_createA env)) (pool_holds (dw_pool w))" using fresh by (simp add: mig_fresh_def)
  note new = create_on_node [OF pool this cr]
  obtain p' y where cr2: "Pool_CreateSessionOnNode (fst (me_createB env)) (snd (me_createB env)) T (legInfo (dlg_at (dw_dm w) b)) p = (p', y)"
    by fastforce
  have "env_fresh (snd (me_createB env)) (pool_holds p)" using fresh new(3) by (auto simp: mig_fresh_def env_fresh_def)
  note new2 = create_on_node [OF new(1) this cr2]
  note def = migrateBridgedCall_def Let_def
  show ?thesis
  proof (cases "fst (GetMediaEndpoint (dlg_at (dw_dm w) a)) = '''' \<or> fst (GetMediaEndpoint (dlg_at (dw_dm w) b)) = ''''")
    case True
    hence "w' = w" using run by (auto simp: def split: if_splits)
    thus ?thesis by (simp add: no_new_session_def)
  next
    case media: False
    show ?thesis
    proof (cases x)
      case (Inl err)
      thus ?thesis using run cr media new(4) by (auto simp: def no_new_session_def)
    next
      case xA: (Inr sA)
      show ?thesis
      proof (cases y)
        case (Inl err)
        thus ?thesis using run cr cr2 media xA new(5) new2(1,4) by (auto simp: def no_new_session_def split: if_splits)
      next
        case yB: (Inr sB)
        obtain w1 outA where ri: "mig_reinvite env (me_txA env) mg a (sr_SDPBody sA) (w\<lparr>dw_pool := p'\<rparr>) = (w1, outA)" by fastforce
        obtain w2 outB where ri2: "mig_reinvite env (me_txB env) mg b (sr_SDPBody sB) w1 = (w2, outB)" by fastforce
        have w2: "dw_pool w2 = p'" using reinvite_pool [OF ri] reinvite_pool [OF ri2] by simp
        obtain oA oB where outs: "outA = Some oA" "outB = Some oB" "\<not> reinvite_ok oA \<or> \<not> reinvite_ok oB"
          using run cr cr2 media xA yB ri ri2 e
          by (cases outA; cases outB; cases "reinvite_ok (the outA)"; cases "reinvite_ok (the outB)")
            (auto simp: def split: prod.splits sum.splits)
        have w': "w' = terminateBoth env mg (dlg_CallID (dlg_at (dw_dm w) a)) (dlg_CallID (dlg_at (dw_dm w) b))
            (mig_destroy env (sr_SessionID sB) TerminateReasonError (mig_destroy env (sr_SessionID sA) TerminateReasonError w2))"
          using run cr cr2 media xA yB ri ri2 outs by (auto simp: def)
        have "pool_reachable (dw_pool w2)" "pool_reachable (dw_pool (mig_destroy env (sr_SessionID sA) TerminateReasonError w2))"
          using new2(1) w2 destroy_session(1) by (simp_all add: mig_destroy_def)
        thus ?thesis
          using w2 new(5) [OF xA] new2(5) [OF yB] by (auto simp: w' terminateBoth_def no_new_session_def split: if_splits)
      qed
    qed
  qed
qed

lemma MigrateSession_rollback:
  assumes "pool_reachable (dw_pool w)" and "mig_fresh env (dw_pool w)"
    and "MigrateSession env mg sid T w = (w', MigFailed e)" and "\<And>err. e \<noteq> ReestablishFailed err"
  shows "no_new_session w w'"
  using migrateIVRCall_rollback [OF assms(1,2)] migrateBridgedCall_rollback [OF assms(1,2)] assms(3,4)
  by (auto simp: MigrateSession_def Let_def split: option.splits if_splits) (auto simp: no_new_session_def)


section \<open>How a drain ends\<close>

lemma kept_UNIV_destroy: "kept T UNIV w w' \<Longrightarrow> kept T UNIV w (mig_destroy env sid reason w')"
  by (simp add: kept_destroy)

lemma kept_reach: "kept T X w w' \<Longrightarrow> pool_reachable (dw_pool w')"
  by (simp add: kept_def)

lemma migrateIVRCall_kept:
  assumes pool: "pool_reachable (dw_pool w)" and fresh: "mig_fresh env (dw_pool w)" and run: "migrateIVRCall env mg r T w = (w', res)"
  shows "kept T UNIV w w'"
proof -
  obtain p x where cr: "Pool_CreateSessionOnNode (fst (me_createA env)) (snd (me_createA env)) T (legInfo (dlg_at (dw_dm w) r)) (dw_pool w) = (p, x)"
    by fastforce
  have kept: "kept T UNIV w (w\<lparr>dw_pool := p\<rparr>)" using fresh by (intro kept_create [OF pool _ cr]) (simp add: mig_fresh_def)
  have ri: "kept T UNIV w w1" if "mig_reinvite env (me_txA env) mg r (sr_SDPBody s) (w\<lparr>dw_pool := p\<rparr>) = (w1, out)" for s w1 out
    using kept kept_reinvite [OF that] by simp
  show ?thesis
    using run cr kept kept_refl [OF pool]
    by (auto simp: migrateIVRCall_def Let_def intro!: kept_UNIV_destroy dest!: ri
        split: if_splits sum.splits prod.splits option.splits reinvite_outcome.splits)
qed

lemma migrateBridgedCall_kept:
  assumes pool: "pool_reachable (dw_pool w)" and fresh: "mig_fresh env (dw_pool w)" and run: "migrateBridgedCall env mg a b T w = (w', res)"
  shows "kept T UNIV w w'"
proof -
  obtain p x where cr: "Pool_CreateSessionOnNode (fst (me_createA env)) (snd (me_createA env)) T (legInfo (dlg_at (dw_dm w) a)) (dw_pool w) = (p, x)"
    by fastforce
  have fr: "env_fresh (snd (me_createA env)) (pool_holds (dw_pool w))" using fresh by (simp add: mig_fresh_def)
  note new = create_on_node [OF pool fr cr]
  have kept: "kept T UNIV w (w\<lparr>dw_pool := p\<rparr>)" by (rule kept_create [OF pool fr cr])
  obtain p' y where cr2: "Pool_CreateSessionOnNode (fst (me_createB env)) (snd (me_createB env)) T (legInfo (dlg_at (dw_dm w) b)) p = (p', y)"
    by fastforce
  have "env_fresh (snd (me_createB env)) (pool_holds p)" using fresh new(3) by (auto simp: mig_fresh_def env_fresh_def)
  hence kept2: "kept T UNIV w (w\<lparr>dw_pool := p'\<rparr>)"
    using kept_trans [OF kept kept_create [of "w\<lparr>dw_pool := p\<rparr>"]] new(1) cr2 by simp
  have ri: "kept T UNIV w w1" if "mig_reinvite env tx mg r sdp v = (w1, out)" "kept T UNIV w v" for tx r sdp v w1 out
    using that kept_reinvite by simp
  have bm: "kept T UNIV w (v\<lparr>dw_pool := q\<rparr>)" if "Pool_BridgeMedia li u rpc s t (dw_pool v) = (q, z)" "kept T UNIV w v" for li u rpc s t q z v
    using bridge_media [OF kept_reach [OF that(2)], of li u rpc s t] that same_nodes_trans by (auto simp: kept_def)
  show ?thesis
    using run cr cr2 kept kept2 kept_refl [OF pool]
    by (auto simp: migrateBridgedCall_def Let_def split: if_splits sum.splits prod.splits option.splits
        intro!: kept_UNIV_destroy bm dest!: ri)
qed

lemma MigrateSession_kept:
  assumes pool: "pool_reachable (dw_pool w)" and fresh: "mig_fresh env (dw_pool w)" and run: "MigrateSession env mg sid T w = (w', res)"
  shows "kept T UNIV w w'"
  using run migrateIVRCall_kept [OF pool fresh] migrateBridgedCall_kept [OF pool fresh] kept_refl [OF pool]
  by (auto simp: MigrateSession_def Let_def split: option.splits if_splits)

fun jobs_fresh :: "migrator \<Rightarrow> nat \<Rightarrow> string \<Rightarrow> (string \<times> mig_env option) list \<Rightarrow> drain_world \<Rightarrow> bool" where
  "jobs_fresh mg k T [] w \<longleftrightarrow> True"
| "jobs_fresh mg k T ((sid, e) # jobs) w \<longleftrightarrow>
     (case e of None \<Rightarrow> True | Some env \<Rightarrow> mig_fresh env (dw_pool w)) \<and> jobs_fresh mg k T jobs (migrateOne mg k T (sid, e) w)"

lemma upd_status_frame [simp]:
  "dw_pool (upd_status k f w) = dw_pool w" "dw_active (upd_status k f w) = dw_active w" "length (dw_ops (upd_status k f w)) = length (dw_ops w)"
  "dw_pool (drainExit k w) = dw_pool w" "dw_active (drainExit k w) = dw_active w" "length (dw_ops (drainExit k w)) = length (dw_ops w)"
  by (simp_all add: upd_status_def upd_op_def drainExit_def)

lemma upd_status_nth:
  "k < length (dw_ops w) \<Longrightarrow> do_status (dw_ops (upd_status k f w) ! k) = f (do_status (dw_ops w ! k))"
  "k < length (dw_ops w) \<Longrightarrow> do_status (dw_ops (drainExit k w) ! k) = do_status (dw_ops w ! k)"
  "k < length (dw_ops w) \<Longrightarrow> do_completed (dw_ops (drainExit k w) ! k)"
  by (simp_all add: upd_status_def upd_op_def drainExit_def)

text \<open>What the migrations of a drain leave alone.\<close>

definition drain_kept :: "nat \<Rightarrow> drain_world \<Rightarrow> drain_world \<Rightarrow> bool" where
  "drain_kept k w w' \<longleftrightarrow> pool_reachable (dw_pool w') \<and> same_nodes (dw_pool w) (dw_pool w') \<and> dw_active w' = dw_active w \<and>
     length (dw_ops w') = length (dw_ops w) \<and> ds_State (do_status (dw_ops w' ! k)) = ds_State (do_status (dw_ops w ! k))"

lemma migrateOne_kept:
  assumes pool: "pool_reachable (dw_pool w)" and k: "k < length (dw_ops w)"
    and fresh: "case e of None \<Rightarrow> True | Some env \<Rightarrow> mig_fresh env (dw_pool w)"
  shows "drain_kept k w (migrateOne mg k T (sid, e) w)"
proof (cases e)
  case (Some env)
  obtain w' res where run: "MigrateSession env mg sid T w = (w', res)" by fastforce
  have "kept T UNIV w w'" using MigrateSession_kept [OF pool _ run] fresh Some by simp
  thus ?thesis using run k Some
    by (cases res) (auto simp: migrateOne_def drain_kept_def kept_def upd_status_nth split: mig_error.split)
qed (simp add: migrateOne_def drain_kept_def pool)

lemma migrations_kept:
  "pool_reachable (dw_pool w) \<Longrightarrow> k < length (dw_ops w) \<Longrightarrow> jobs_fresh mg k T jobs w \<Longrightarrow>
   drain_kept k w (fold (migrateOne mg k T) jobs w)"
proof (induction jobs arbitrary: w)
  case (Cons job jobs)
  obtain sid e where job: "job = (sid, e)" by fastforce
  let ?v = "migrateOne mg k T job w"
  have one: "drain_kept k w ?v" using migrateOne_kept [of w k e] Cons.prems by (simp add: job)
  hence "drain_kept k ?v (fold (migrateOne mg k T) jobs ?v)"
    using Cons.IH [of ?v] Cons.prems by (simp add: drain_kept_def job)
  thus ?case using one same_nodes_trans by (auto simp: drain_kept_def)
qed (simp add: drain_kept_def)

lemma sessions_on_node:
  assumes "pool_reachable p" and "is_range ord"
  shows "SessionsOnNode ord p n = [] \<longleftrightarrow> (\<forall>s. map_of (pl_sessionToNode p) s \<noteq> Some n)"
proof -
  have idx: "index_ok p" using pool_reachable_inv [OF assms(1)] by (simp add: pl_inv_def)
  have "set (SessionsOnNode ord p n) = node_sessions p n"
    using is_range_set [OF assms(2)] by (simp add: SessionsOnNode_def node_sessions_def gm_keys_def split: option.split)
  hence "SessionsOnNode ord p n = [] \<longleftrightarrow> node_sessions p n = {}" by (metis set_empty)
  thus ?thesis using idx by (auto simp: index_ok_def)
qed

lemma member_of_same_nodes:
  assumes "pool_reachable p" "pool_reachable p'" "same_nodes p p'" "GetMemberByID p n = Some i"
  shows "GetMemberByID p' n = Some i" and "i < length (pl_members p)" and "pm_drainState (pl_members p' ! i) = pm_drainState (pl_members p ! i)"
  using assms member_index [OF pool_reachable_inv [OF assms(1)], of n i] member_index [OF pool_reachable_inv [OF assms(2)], of n i]
  by (auto simp: same_nodes_def)

lemma completeDrain_spec:
  assumes "GetMemberByID (dw_pool w) n = Some i" "i < length (pl_members (dw_pool w))"
    "pm_drainState (pl_members (dw_pool w) ! i) = StateDraining" "k < length (dw_ops w)"
  shows "pm_drainState (pl_members (dw_pool (completeDrain n k w)) ! i) = StateDisabled"
    and "ds_State (do_status (dw_ops (completeDrain n k w) ! k)) = StateDisabled"
    and "pl_sessionToNode (dw_pool (completeDrain n k w)) = pl_sessionToNode (dw_pool w)"
    and "length (dw_ops (completeDrain n k w)) = length (dw_ops w)" and "dw_active (completeDrain n k w) = dw_active w"
  using assms by (simp_all add: completeDrain_def CompleteDrain_def upd_status_nth set_drain_def)

lemma failDrain_spec:
  assumes "GetMemberByID (dw_pool w) n = Some i" "i < length (pl_members (dw_pool w))"
    "pm_drainState (pl_members (dw_pool w) ! i) = StateDraining" "k < length (dw_ops w)"
  shows "pm_drainState (pl_members (dw_pool (failDrain now n k e w)) ! i) = StateActive"
    and "ds_State (do_status (dw_ops (failDrain now n k e w) ! k)) = StateActive"
    and "pl_sessionToNode (dw_pool (failDrain now n k e w)) = pl_sessionToNode (dw_pool w)"
    and "length (dw_ops (failDrain now n k e w)) = length (dw_ops w)" and "dw_active (failDrain now n k e w) = dw_active w"
    and "GetMemberByID (dw_pool (failDrain now n k e w)) n = Some i"
  using assms by (simp_all add: failDrain_def CancelDrain_def upd_status_nth set_drain_def GetMemberByID_def)

text \<open>
  Property C10. How a drain ends. Whatever the migrations do, the operation is marked completed, its status
  agrees with the node, and: with nothing to move the node is disabled; without another healthy
  active node it is active again, with all its sessions; otherwise it is disabled if and only if
  the pool no longer tracks a session on it, and else stays draining.
\<close>

theorem drain_outcomes:
  assumes pool: "pool_reachable (dw_pool w)" and ord: "is_range ord" and k: "k < length (dw_ops w)"
    and node: "GetMemberByID (dw_pool w) n = Some i" and st: "pm_drainState (pl_members (dw_pool w) ! i) = StateDraining"
    and status: "ds_State (do_status (dw_ops w ! k)) = StateDraining"
    and fresh: "\<forall>T. findTargetNode (dw_pool w) n = Some T \<longrightarrow> jobs_fresh mg k T jobs w" and w': "w' = runDrain ord now mg k n sessions jobs w"
  shows "do_completed (dw_ops w' ! k) \<and> dw_active w' = dw_active w \<and>
    ds_State (do_status (dw_ops w' ! k)) = pm_drainState (pl_members (dw_pool w') ! i) \<and>
    (if sessions = [] then pm_drainState (pl_members (dw_pool w') ! i) = StateDisabled
     else if findTargetNode (dw_pool w) n = None
     then pm_drainState (pl_members (dw_pool w') ! i) = StateActive \<and> pl_sessionToNode (dw_pool w') = pl_sessionToNode (dw_pool w)
     else pm_drainState (pl_members (dw_pool w') ! i) =
            (if \<forall>s. map_of (pl_sessionToNode (dw_pool w')) s \<noteq> Some n then StateDisabled else StateDraining))"
proof -
  have i: "i < length (pl_members (dw_pool w))" using member_of_same_nodes(2) [OF pool pool _ node] by simp
  show ?thesis
  proof (cases "sessions = [] \<or> findTargetNode (dw_pool w) n = None")
    case True
    note complete = completeDrain_spec [OF node i st k]
    note failed = failDrain_spec [OF node i st k, of now NoTargetNode]
    show ?thesis using True by (auto simp: w' runDrain_def upd_status_nth complete failed k)
  next
    case False
    then obtain T where T: "findTargetNode (dw_pool w) n = Some T" "sessions \<noteq> []" by auto
    define v where "v = fold (migrateOne mg k T) jobs w"
    have kept: "drain_kept k w v" using migrations_kept [OF pool k] fresh T(1) by (simp add: v_def)
    hence v: "pool_reachable (dw_pool v)" "same_nodes (dw_pool w) (dw_pool v)" "k < length (dw_ops v)" "dw_active v = dw_active w"
      "ds_State (do_status (dw_ops v ! k)) = StateDraining" using k status by (simp_all add: drain_kept_def)
    note mem = member_of_same_nodes [OF pool v(1,2) node]
    have "i < length (pl_members (dw_pool v))" "pm_drainState (pl_members (dw_pool v) ! i) = StateDraining"
      using mem v(2) st by (simp_all add: same_nodes_def)
    note complete = completeDrain_spec [OF mem(1) this v(3)]
    have w'': "w' = drainExit k (if SessionsOnNode ord (dw_pool v) n = [] then completeDrain n k v else v)"
      using T by (simp add: w' runDrain_def drainFinish_def v_def)
    note empty = sessions_on_node [OF v(1) ord, of n]
    show ?thesis
    proof (cases "SessionsOnNode ord (dw_pool v) n = []")
      case True
      thus ?thesis using T empty complete v(3,4) by (simp add: w'' upd_status_nth)
    next
      case False
      hence "w' = drainExit k v" by (simp add: w'')
      thus ?thesis using False T empty v(3-5) mem(3) st by (auto simp: upd_status_nth)
    qed
  qed
qed

text \<open>
  A drain that failed for lack of a target stays in the coordinator's table although its node
  is active again: a new drain of that node is refused, cancelling the old one fails (the node
  is not draining) and leaves the entry, and only \<open>Cleanup\<close>, which nothing in the program calls,
  would remove it.
\<close>

theorem failed_drain_sticks:
  assumes pool: "pool_reachable (dw_pool w)" and ord: "is_range ord" and k: "k < length (dw_ops w)"
    and node: "GetMemberByID (dw_pool w) n = Some i" and st: "pm_drainState (pl_members (dw_pool w) ! i) = StateDraining"
    and act: "map_of (dw_active w) n = Some k" and none: "sessions \<noteq> []" "findTargetNode (dw_pool w) n = None"
    and w': "w' = runDrain ord now mg k n sessions jobs w"
  shows "pm_drainState (pl_members (dw_pool w') ! i) = StateActive \<and>
    Coordinator_StartDrain ord now' \<lparr>dr_NodeID = n, dr_Mode = mode, dr_Timeout = tmo\<rparr> w' = (w', Inl (DrainInProgress n)) \<and>
    (\<exists>w''. Coordinator_CancelDrain n w' = (w'', Some (CancelDrainFailed (NotInState n StateActive))) \<and> map_of (dw_active w'') n = Some k) \<and>
    (distinct (map fst (dw_active w)) \<longrightarrow> map_of (dw_active (Coordinator_Cleanup w')) n = None)"
proof -
  have i: "i < length (pl_members (dw_pool w))" using member_of_same_nodes(2) [OF pool pool _ node] by simp
  note failed = failDrain_spec [OF node i st k, of now NoTargetNode]
  have w'': "w' = drainExit k (failDrain now n k NoTargetNode w)" using none by (simp add: w' runDrain_def)
  have fin: "do_completed (dw_ops w' ! k)" using failed(4) k by (simp add: w'' upd_status_nth)
  have act': "dw_active w' = dw_active w" using failed(5) by (simp add: w'')
  have "map_of (dw_active (Coordinator_Cleanup w')) n = None" if "distinct (map fst (dw_active w))"
  proof -
    have "(n, v) \<notin> set (dw_active (Coordinator_Cleanup w'))" for v
      using that act fin eq_key_imp_eq_value [of "dw_active w" n v k]
      by (auto simp: Coordinator_Cleanup_def act' dest: map_of_SomeD)
    thus ?thesis by (metis map_of_SomeD not_None_eq)
  qed
  moreover have "pm_drainState (pl_members (dw_pool w') ! i) = StateActive" "GetMemberByID (dw_pool w') n = Some i"
    using failed by (simp_all add: w'')
  ultimately show ?thesis
    using act act' by (auto simp: Coordinator_StartDrain_def Coordinator_CancelDrain_def CancelDrain_def upd_op_def Let_def)
qed

section \<open>A drain of one node\<close>

text \<open>
  Node \<open>n2\<close> has the session \<open>a\<close> of the confirmed dialog \<open>call1\<close>; it is drained and the session moves to \<open>n1\<close>.
\<close>

definition ex_mdm :: dialog_manager where
  "ex_mdm = upd_dlg 0 (SetMediaEndpoint ''10.0.0.9'' 4000 ''0'') (upd_dlg 0 (SetSessionID ''a'') ex_dm4)"

definition ex_dw0 :: drain_world where
  "ex_dw0 = \<lparr>dw_pool = ex_p1, dw_dm = ex_mdm, dw_ops = [], dw_active = []\<rparr>"

definition ex_dreq :: drain_request where
  "ex_dreq = \<lparr>dr_NodeID = ''n2'', dr_Mode = DrainModeGraceful, dr_Timeout = 0\<rparr>"

definition ex_dw1 :: drain_world where
  "ex_dw1 = fst (Coordinator_StartDrain id 4 ex_dreq ex_dw0)"

definition ex_mg :: migrator where
  "ex_mg = \<lparr>mg_bridgeMapper = Some (\<lambda>_. None), mg_localContact = ex_uri ''sb'', mg_mode = DrainModeGraceful\<rparr>"

definition ex_menv :: "sip_response \<Rightarrow> mig_env" where
  "ex_menv resp = \<lparr>me_dlgOrd = id, me_paramOrd = id, me_parseUri = (\<lambda>_. None), me_now = 4, me_createA = (Delivered, ex_cenv ''c''),
     me_createB = (Delivered, ex_cenv ''d''), me_txA = (True, [Response resp]), me_txB = (True, [Response resp]), me_ordS = id,
     me_destroy = (\<lambda>_. Delivered), me_bye = (True, True), me_bridge = (\<lambda>_ _. True, ''e'', Delivered)\<rparr>"

lemma ex_start: "StartDrain ''n2'' ex_p1 = (upd_member 1 (set_drain StateDraining) ex_p1, None)"
  "GetMemberByID ex_p1 ''n2'' = Some 1" "pm_drainState (pl_members ex_p1 ! 1) = StateActive" "length (pl_members ex_p1) = 2"
  by (simp_all add: StartDrain_def ex_p1_def Pool_CreateSession_def pool_eval ex_p0_eval ex_cenv_def ex_info_def srv_eval int32_def)

lemma ex_dw1_eval:
  "dw_pool ex_dw1 = upd_member 1 (set_drain StateDraining) ex_p1" "dw_dm ex_dw1 = ex_mdm" "dw_active ex_dw1 = [(''n2'', 0)]"
  "length (dw_ops ex_dw1) = 1" "ds_State (do_status (dw_ops ex_dw1 ! 0)) = StateDraining"
  by (simp_all add: ex_dw1_def Coordinator_StartDrain_def ex_dw0_def ex_dreq_def ex_start Let_def gm_set_def)

lemma ex_dw1_pool: "pool_reachable (dw_pool ex_dw1)" "pool_holds (dw_pool ex_dw1) = {''a''}"
proof -
  show "pool_reachable (dw_pool ex_dw1)"
    using pool_reachable.step [OF ex_p1_reachable pool_step.start_drain, of "''n2''"] by (simp add: ex_start ex_dw1_eval)
  have "m_holds (set_drain StateDraining m) = m_holds m" for m by (simp add: m_holds_def set_drain_def)
  hence "map m_holds (pl_members (dw_pool ex_dw1)) = map m_holds (pl_members ex_p1)"
    by (simp add: ex_dw1_eval map_update) (metis list_update_id map_update)
  thus "pool_holds (dw_pool ex_dw1) = {''a''}" using ex_p1_eval(5) by (metis pool_holds_def set_map)
qed

lemma ex_menv_fresh: "mig_fresh (ex_menv resp) (dw_pool ex_dw1)"
  by (simp add: mig_fresh_def ex_menv_def ex_cenv_def env_fresh_def ex_dw1_pool)

lemma ex_mdm_eval:
  "dlg_at ex_mdm 0 = SetMediaEndpoint ''10.0.0.9'' 4000 ''0'' (SetSessionID ''a'' ((SetInviteResponse ex_ok (SetSession (NewDialog 0 ex_invite)))
     \<lparr>dlg_State := StateConfirmed, dlg_StateChangedAt := 3\<rparr>))" "length (dm_heap ex_mdm) = 1" "dm_dialogs ex_mdm = dm_dialogs ex_dm1"
  by (simp_all add: ex_mdm_def dlg_at_def ex_dm_4)

lemmas ex_dlg_eval = SetSession_def SetInviteResponse_def NewDialog_def ex_ok_def ex_invite_def ex_addr_def SetMediaEndpoint_def SetSessionID_def

lemma ex_find: "FindBySessionID id 4 ex_mdm ''a'' = Some 0"
proof -
  have "tts_items (dm_dialogs ex_dm1) = [(''call1'', \<lparr>ent_Value = 0, ent_ExpiresAt = secs 14400\<rparr>)]"
    by (simp add: ex_dm1_def dm_eval)
  thus ?thesis
    by (simp add: FindBySessionID_def TTL_ForEach_def ex_mdm_eval ex_dlg_eval Entry_IsExpired_def)
qed

lemma ex_created: "\<exists>p s. Pool_CreateSessionOnNode Delivered (ex_cenv ''c'') ''n1'' info (dw_pool ex_dw1) = (p, Inr s)"
  if "si_OfferedCodecs info = [''0'']"
  using that
  by (simp add: Pool_CreateSessionOnNode_def ex_dw1_eval set_drain_def ex_p1_def Pool_CreateSession_def pool_eval ex_p0_eval
      ex_cenv_def ex_info_def srv_eval int32_def)

lemma ex_reinvite: "snd (mig_reinvite (ex_menv resp) (True, [Response resp]) ex_mg 0 sdp (ex_dw1\<lparr>dw_pool := p\<rparr>)) =
    Some (ReinviteDone \<lparr>rr_Success = (200 \<le> rs_StatusCode resp \<and> rs_StatusCode resp < 300), rr_StatusCode = rs_StatusCode resp,
      rr_Reason = rs_Reason resp, rr_SDP = (if 200 \<le> rs_StatusCode resp \<and> rs_StatusCode resp < 300 then rs_Body resp else None)\<rparr>)"
  if "200 \<le> rs_StatusCode resp"
  using that
  by (simp add: mig_reinvite_def SendReINVITE_def ex_dw1_eval ex_mdm_eval BuildReINVITE_def requestTarget_def ex_dlg_eval Let_def split: prod.split)

lemma ex_migrate:
  "\<exists>w'. MigrateSession (ex_menv ex_ok) ex_mg ''a'' ''n1'' ex_dw1 = (w', MigDone)"
  "\<exists>w'. MigrateSession (ex_menv (ex_ok\<lparr>rs_StatusCode := 488\<rparr>)) ex_mg ''a'' ''n1'' ex_dw1 = (w', MigFailed (ReINVITERejected 488 ''OK''))"
proof -
  let ?d = "dlg_at ex_mdm 0"
  have d: "dlg_Direction ?d = DirectionInbound" "dlg_State ?d = StateConfirmed" "fst (GetMediaEndpoint ?d) \<noteq> ''''"
    "si_OfferedCodecs (legInfo ?d) = [''0'']"
    by (simp_all add: ex_mdm_eval ex_dlg_eval GetMediaEndpoint_def legInfo_def)
  have mig: "MigrateSession (ex_menv resp) ex_mg ''a'' ''n1'' ex_dw1 = migrateIVRCall (ex_menv resp) ex_mg 0 ''n1'' ex_dw1" for resp
    using d by (simp add: MigrateSession_def ex_dw1_eval ex_menv_def ex_find ex_mg_def Let_def)
  obtain p s where cr: "Pool_CreateSessionOnNode Delivered (ex_cenv ''c'') ''n1'' (legInfo ?d) (dw_pool ex_dw1) = (p, Inr s)"
    using ex_created [OF d(4)] by blast
  have env: "me_createA (ex_menv resp) = (Delivered, ex_cenv ''c'')" "me_txA (ex_menv resp) = (True, [Response resp])" "mg_mode ex_mg = DrainModeGraceful"
    for resp by (simp_all add: ex_menv_def ex_mg_def)
  have ri: "\<exists>v. mig_reinvite (ex_menv resp) (True, [Response resp]) ex_mg 0 sdp (ex_dw1\<lparr>dw_pool := p\<rparr>) = (v, Some (ReinviteDone
      \<lparr>rr_Success = (200 \<le> rs_StatusCode resp \<and> rs_StatusCode resp < 300), rr_StatusCode = rs_StatusCode resp,
       rr_Reason = rs_Reason resp, rr_SDP = (if 200 \<le> rs_StatusCode resp \<and> rs_StatusCode resp < 300 then rs_Body resp else None)\<rparr>))"
    if "200 \<le> rs_StatusCode resp" for resp sdp
    using ex_reinvite [OF that, of sdp p] by (metis prod.collapse)
  obtain v where "mig_reinvite (ex_menv ex_ok) (True, [Response ex_ok]) ex_mg 0 (sr_SDPBody s) (ex_dw1\<lparr>dw_pool := p\<rparr>) = (v, Some (ReinviteDone
      \<lparr>rr_Success = True, rr_StatusCode = 200, rr_Reason = ''OK'', rr_SDP = None\<rparr>))"
    using ri [of ex_ok] by (auto simp: ex_ok_def)
  thus "\<exists>w'. MigrateSession (ex_menv ex_ok) ex_mg ''a'' ''n1'' ex_dw1 = (w', MigDone)"
    using cr d(3) by (simp add: mig migrateIVRCall_def ex_dw1_eval(2) env Let_def)
  let ?bad = "ex_ok\<lparr>rs_StatusCode := 488\<rparr>"
  obtain v where "mig_reinvite (ex_menv ?bad) (True, [Response ?bad]) ex_mg 0 (sr_SDPBody s) (ex_dw1\<lparr>dw_pool := p\<rparr>) = (v, Some (ReinviteDone
      \<lparr>rr_Success = False, rr_StatusCode = 488, rr_Reason = ''OK'', rr_SDP = None\<rparr>))"
    using ri [of ?bad] by (auto simp: ex_ok_def)
  thus "\<exists>w'. MigrateSession (ex_menv ?bad) ex_mg ''a'' ''n1'' ex_dw1 = (w', MigFailed (ReINVITERejected 488 ''OK''))"
    using cr d(3) by (simp add: mig migrateIVRCall_def ex_dw1_eval(2) env Let_def)
qed

lemma ex_mig_dialogs: "mig_dialogs (ex_menv resp) ex_mg ex_dw1 0 = {0}" "away ''n1'' {0} ex_dw1"
proof -
  show "mig_dialogs (ex_menv resp) ex_mg ex_dw1 0 = {0}" by (simp add: mig_dialogs_def ex_mg_def)
  have "dlg_SessionID (dlg_at ex_mdm 0) = ''a''" by (simp add: ex_mdm_eval ex_dlg_eval)
  thus "away ''n1'' {0} ex_dw1" using ex_p1_eval(3) by (simp add: away_def ex_dw1_eval ex_mdm_eval(2))
qed


theorem drain_outcomes_witness:
  "pm_drainState (pl_members (dw_pool (runDrain id 5 ex_mg 0 ''n2'' [''a''] [(''a'', None)] ex_dw1)) ! 1) = StateDraining"
proof -
  have a: "map_of (pl_sessionToNode (dw_pool ex_dw1)) ''a'' = Some ''n2''" using ex_p1_eval(3) by (simp add: ex_dw1_eval)
  have node: "GetMemberByID (dw_pool ex_dw1) ''n2'' = Some 1" "pm_drainState (pl_members (dw_pool ex_dw1) ! 1) = StateDraining"
    using ex_start by (simp_all add: ex_dw1_eval GetMemberByID_def set_drain_def)
  have target: "findTargetNode (dw_pool ex_dw1) ''n2'' = Some ''n1''"
    by (simp add: findTargetNode_def Pool_Stats_def memberStats_def ex_dw1_eval set_drain_def ex_p1_def Pool_CreateSession_def pool_eval
        ex_p0_eval ex_cenv_def ex_info_def srv_eval int32_def)
  have pool: "dw_pool (runDrain id 5 ex_mg 0 ''n2'' [''a''] [(''a'', None)] ex_dw1) = dw_pool ex_dw1"
  proof -
    have "SessionsOnNode id (dw_pool ex_dw1) ''n2'' \<noteq> []"
      using sessions_on_node [OF ex_dw1_pool(1) is_range_id] a by blast
    thus ?thesis by (simp add: runDrain_def target drainFinish_def migrateOne_def)
  qed
  have "0 < length (dw_ops ex_dw1)" "\<forall>T. findTargetNode (dw_pool ex_dw1) ''n2'' = Some T \<longrightarrow> jobs_fresh ex_mg 0 T [(''a'', None)] ex_dw1"
    by (simp_all add: ex_dw1_eval)
  from drain_outcomes [OF ex_dw1_pool(1) is_range_id this(1) node ex_dw1_eval(5) this(2) refl, of 5 "[''a'']"]
  show ?thesis using a target pool by auto
qed

definition ex_dw2 :: drain_world where
  "ex_dw2 = ex_dw1\<lparr>dw_pool := fst (StartDrain ''n1'' (dw_pool ex_dw1))\<rparr>"

theorem failed_drain_sticks_witness:
  "Coordinator_StartDrain id 9 ex_dreq (runDrain id 5 ex_mg 0 ''n2'' [''a''] [] ex_dw2) =
     (runDrain id 5 ex_mg 0 ''n2'' [''a''] [] ex_dw2, Inl (DrainInProgress ''n2''))"
proof -
  have pool: "pool_reachable (dw_pool ex_dw2)"
    using pool_reachable.step [OF ex_dw1_pool(1) pool_step.start_drain] by (simp add: ex_dw2_def)
  have node: "GetMemberByID (dw_pool ex_dw2) ''n2'' = Some 1" "pm_drainState (pl_members (dw_pool ex_dw2) ! 1) = StateDraining"
    and none: "findTargetNode (dw_pool ex_dw2) ''n2'' = None"
    by (simp_all add: ex_dw2_def StartDrain_def findTargetNode_def Pool_Stats_def memberStats_def ex_dw1_eval set_drain_def ex_p1_def
        Pool_CreateSession_def pool_eval ex_p0_eval ex_cenv_def ex_info_def srv_eval int32_def)
  have "0 < length (dw_ops ex_dw2)" "map_of (dw_active ex_dw2) ''n2'' = Some 0" by (simp_all add: ex_dw2_def ex_dw1_eval)
  from failed_drain_sticks [OF pool is_range_id this(1) node this(2) _ none refl, of "[''a'']" 5 ex_mg "[]" 9 DrainModeGraceful 0]
  show ?thesis by (simp add: ex_dreq_def)
qed

end
