(* ===== verification/Executor_Props.thy ===== *)
theory Executor_Props
  imports Executor
begin

text \<open>
  What running a route means: its actions are created and executed one after the other, from
  the state the one before left, and the first obstacle ends the run with its position.
\<close>

section \<open>Runs\<close>

definition may_act :: "call_session \<Rightarrow> b2b_world \<Rightarrow> bool" where
  "may_act s w \<longleftrightarrow> \<not> dlg_cancelled (dlg_at (w_dm w) (cl_dialog s)) \<and> \<not> Session_IsTerminated s w"

definition created :: "action_registry \<Rightarrow> act_in \<Rightarrow> action_config \<Rightarrow> call_session \<Rightarrow> action_error + action" where
  "created reg a cfg s =
     Registry_Create reg (ac_Type cfg) (substituteVars (ai_varOrd a) (cl_destination s) (cl_callerID s) (cl_callID s) (ac_Params cfg))"

inductive runs_actions ::
  "action_registry \<Rightarrow> action_config list \<Rightarrow> act_in list \<Rightarrow> call_session \<Rightarrow> b2b_world \<Rightarrow> call_session \<Rightarrow> b2b_world \<Rightarrow> bool"
  for reg where
  none: "runs_actions reg [] [] s w s w"
| more: "may_act s (ai_before a w) \<Longrightarrow> created reg a cfg s = Inr act \<Longrightarrow>
    Action_Execute a act s (ai_before a w) = Some (s1, w1, ActOk) \<Longrightarrow> runs_actions reg cfgs ins s1 w1 s2 w2 \<Longrightarrow>
    runs_actions reg (cfg # cfgs) (a # ins) s w s2 w2"

inductive_cases runs_ConsE: "runs_actions reg (cfg # cfgs) (a # ins) s w s' w'"

definition route_error :: "string \<Rightarrow> nat \<Rightarrow> nat \<Rightarrow> string \<Rightarrow> exec_cause \<Rightarrow> execution_error" where
  "route_error rid n i act cause =
     \<lparr>ee_RouteID = rid, ee_CompletedSteps = i, ee_TotalSteps = n, ee_FailedAction = act, ee_Cause = cause\<rparr>"

text \<open>Why the run stopped at an action in state \<open>(s, w)\<close>, with \<open>(s', w')\<close> left behind.\<close>

fun obstacle ::
  "action_registry \<Rightarrow> act_in \<Rightarrow> action_config \<Rightarrow> call_session \<Rightarrow> b2b_world \<Rightarrow> call_session \<Rightarrow> b2b_world \<Rightarrow> exec_cause \<Rightarrow> bool" where
  "obstacle reg a cfg s w s' w' ContextDone \<longleftrightarrow> (s', w') = (s, w) \<and> dlg_cancelled (dlg_at (w_dm w) (cl_dialog s))"
| "obstacle reg a cfg s w s' w' ErrSessionCanceled \<longleftrightarrow> (s', w') = (s, w) \<and> Session_IsTerminated s w"
| "obstacle reg a cfg s w s' w' (CreateAction err) \<longleftrightarrow> (s', w') = (s, w) \<and> may_act s w \<and> created reg a cfg s = Inl err"
| "obstacle reg a cfg s w s' w' cause \<longleftrightarrow>
     may_act s w \<and> (\<exists>act. created reg a cfg s = Inr act \<and> Action_Execute a act s w = Some (s', w', ActErr cause))"

lemma action_obstacle:
  assumes "may_act s w" and "created reg a cfg s = Inr act" and "Action_Execute a act s w = Some (s', w', ActErr cause)"
  shows "obstacle reg a cfg s w s' w' cause"
proof -
  have "cause \<notin> {ContextDone, ErrSessionCanceled} \<union> range CreateAction"
  proof (cases act)
    case (DialAction target timeout)
    have no: "map_act_result DialFailed y \<noteq> ActErr c" if "c \<in> {ContextDone, ErrSessionCanceled} \<union> range CreateAction" for y c
      using that by (cases y) auto
    thus ?thesis using assms(3) DialAction by auto
  qed (use assms(3) in \<open>auto split: prod.splits option.splits\<close>)
  thus ?thesis using assms by (cases cause) auto
qed

text \<open>One pass of the loop.\<close>

lemma executeActions_cases:
  assumes "executeActions reg rid n i (cfg # cfgs) (a # ins) s w = Some (s', w', out)"
  obtains (stopped) act cause where "out = RouteFailed (route_error rid n i act cause)"
      "obstacle reg a cfg s (ai_before a w) s' w' cause"
  | (waiting) act where "out = StillRunning" "may_act s (ai_before a w)" "created reg a cfg s = Inr act"
      "Action_Execute a act s (ai_before a w) = Some (s', w', ActWaiting)"
  | (passed) act s1 w1 where "may_act s (ai_before a w)" "created reg a cfg s = Inr act"
      "Action_Execute a act s (ai_before a w) = Some (s1, w1, ActOk)"
      "executeActions reg rid n (Suc i) cfgs ins s1 w1 = Some (s', w', out)"
proof (cases "may_act s (ai_before a w)")
  case False
  thus ?thesis using assms stopped by (auto simp: may_act_def Let_def route_error_def split: if_splits)
next
  case True
  note run = assms [simplified, folded created_def, unfolded Let_def]
  note may = True [unfolded may_act_def]
  show ?thesis
  proof (cases "created reg a cfg s")
    case (Inl err)
    thus ?thesis using run may stopped [of "ac_Type cfg" "CreateAction err"] True by (simp add: route_error_def)
  next
    case (Inr act)
    then obtain s1 w1 x where act: "Action_Execute a act s (ai_before a w) = Some (s1, w1, x)"
      using run may by (auto simp: bind_eq_Some_conv)
    show ?thesis
    proof (cases x)
      case (ActErr cause)
      thus ?thesis
        using run may Inr act stopped [of "Action_Type act" cause] action_obstacle [OF True Inr act [unfolded ActErr]] by (simp add: route_error_def)
    qed (use run may Inr act True waiting passed in simp_all)
  qed
qed

lemma executeActions_runs:
  assumes "executeActions reg rid n i cfgs ins s w = Some (s', w', out)"
  shows "\<exists>k s1 w1. k \<le> length cfgs \<and> k \<le> length ins \<and> runs_actions reg (take k cfgs) (take k ins) s w s1 w1 \<and>
    (case out of
       RouteCompleted \<Rightarrow> k = length cfgs \<and> (s', w') = (s1, w1)
     | RouteFailed e \<Rightarrow> k < length cfgs \<and> k < length ins \<and> (\<exists>act. e = route_error rid n (i + k) act (ee_Cause e)) \<and>
         obstacle reg (ins ! k) (cfgs ! k) s1 (ai_before (ins ! k) w1) s' w' (ee_Cause e)
     | StillRunning \<Rightarrow> k < length cfgs
     | NoRoute \<Rightarrow> False)"
  using assms
proof (induction cfgs arbitrary: i ins s w)
  case Nil
  thus ?case using runs_actions.none by fastforce
next
  case (Cons cfg cfgs)
  show ?case
  proof (cases ins)
    case Nil
    thus ?thesis using Cons.prems by (auto intro!: exI [of _ "0::nat"] runs_actions.none)
  next
    case (Cons a ins')
    from Cons.prems [unfolded Cons] show ?thesis
    proof (cases rule: executeActions_cases)
      case (stopped act cause)
      thus ?thesis unfolding Cons
        by (intro exI [of _ "0::nat"] exI [of _ s] exI [of _ w]) (auto simp: route_error_def intro: runs_actions.none)
    next
      case (waiting act)
      thus ?thesis unfolding Cons
        by (intro exI [of _ "0::nat"] exI [of _ s] exI [of _ w]) (auto intro: runs_actions.none)
    next
      case (passed act s1 w1)
      from Cons.IH [OF passed(4)] obtain k s2 w2 where k: "k \<le> length cfgs" "k \<le> length ins'"
        "runs_actions reg (take k cfgs) (take k ins') s1 w1 s2 w2" and out: "(case out of
           RouteCompleted \<Rightarrow> k = length cfgs \<and> (s', w') = (s2, w2)
         | RouteFailed e \<Rightarrow> k < length cfgs \<and> k < length ins' \<and> (\<exists>act. e = route_error rid n (Suc i + k) act (ee_Cause e)) \<and>
             obstacle reg (ins' ! k) (cfgs ! k) s2 (ai_before (ins' ! k) w2) s' w' (ee_Cause e)
         | StillRunning \<Rightarrow> k < length cfgs | NoRoute \<Rightarrow> False)" by blast
      have "runs_actions reg (take (Suc k) (cfg # cfgs)) (take (Suc k) (a # ins')) s w s2 w2"
        using runs_actions.more [OF passed(1-3) k(3)] by simp
      thus ?thesis unfolding Cons
        by (intro exI [of _ "Suc k"] exI [of _ s2] exI [of _ w2]) (use k out in \<open>auto split: exec_outcome.splits\<close>)
    qed
  qed
qed

text \<open>
  Property C17. A route is run in order. The outcome is success only if every action was created from its
  substituted parameters and executed without error, each in the state its predecessor left.
  A failure carries the number of actions that had succeeded and the reason why the next one
  did not: the caller had gone, its parameters were refused, or its execution failed. No
  action is executed after the dialog has ended.
\<close>

theorem route_outcomes:
  assumes "ExecuteRoute reg route ins s w = Some (s', w', out)"
  shows "\<exists>k s1 w1. k \<le> length ins \<and> runs_actions reg (take k (rt_Actions route)) (take k ins) s w s1 w1 \<and>
    (case out of
       RouteCompleted \<Rightarrow> k = length (rt_Actions route) \<and> (s', w') = (s1, w1)
     | RouteFailed e \<Rightarrow> k < length (rt_Actions route) \<and> ee_RouteID e = rt_ID route \<and> ee_CompletedSteps e = k \<and>
         ee_TotalSteps e = length (rt_Actions route) \<and>
         obstacle reg (ins ! k) (rt_Actions route ! k) s1 (ai_before (ins ! k) w1) s' w' (ee_Cause e)
     | StillRunning \<Rightarrow> k < length (rt_Actions route)
     | NoRoute \<Rightarrow> False)"
proof -
  let ?as = "rt_Actions route"
  obtain k s1 w1 where k: "k \<le> length ins" "runs_actions reg (take k ?as) (take k ins) s w s1 w1" and
    out: "case out of
       RouteCompleted \<Rightarrow> k = length ?as \<and> (s', w') = (s1, w1)
     | RouteFailed e \<Rightarrow> k < length ?as \<and> k < length ins \<and> (\<exists>act. e = route_error (rt_ID route) (length ?as) (0 + k) act (ee_Cause e)) \<and>
         obstacle reg (ins ! k) (?as ! k) s1 (ai_before (ins ! k) w1) s' w' (ee_Cause e)
     | StillRunning \<Rightarrow> k < length ?as
     | NoRoute \<Rightarrow> False"
    using executeActions_runs [OF assms [unfolded ExecuteRoute_def]] by blast
  have err: "ee_RouteID e = rid \<and> ee_CompletedSteps e = i \<and> ee_TotalSteps e = n" if "e = route_error rid n i act c" for rid n i act c e
    using that by (simp add: route_error_def)
  show ?thesis
  proof (intro exI [of _ k] exI [of _ s1] exI [of _ w1] conjI k, cases out)
    case (RouteFailed e)
    have e: "k < length ?as" "obstacle reg (ins ! k) (?as ! k) s1 (ai_before (ins ! k) w1) s' w' (ee_Cause e)"
      "\<exists>act. e = route_error (rt_ID route) (length ?as) k act (ee_Cause e)"
      using out unfolding RouteFailed exec_outcome.case add_0 by blast+
    show "case out of RouteCompleted \<Rightarrow> k = length ?as \<and> (s', w') = (s1, w1)
     | RouteFailed e \<Rightarrow> k < length ?as \<and> ee_RouteID e = rt_ID route \<and> ee_CompletedSteps e = k \<and> ee_TotalSteps e = length ?as \<and>
         obstacle reg (ins ! k) (?as ! k) s1 (ai_before (ins ! k) w1) s' w' (ee_Cause e)
     | StillRunning \<Rightarrow> k < length ?as | NoRoute \<Rightarrow> False"
      unfolding RouteFailed exec_outcome.case using e(1,2) err e(3) by blast
  qed (use out in simp_all)
qed

section \<open>An example\<close>

definition ex_act :: act_in where
  "ex_act = \<lparr>ai_before = id, ai_codecOrd = id, ai_varOrd = id, ai_rpc = Delivered, ai_msgs = [],
     ai_reads = \<lparr>lr_ordA = id, lr_ord = id, lr_now = 6\<rparr>, ai_depth = 3, ai_uuid = ''u5'', ai_orig = ex_oin [],
     ai_wait = WaitStateChanged, ai_waits = [], ai_bridge = ex_bin, ai_during = id, ai_ctxDone = False\<rparr>"

definition ex_registry :: action_registry where
  "ex_registry = the DefaultRegistry"

definition ex_hangups :: route where
  "ex_hangups = (ex_route ''r1'' ''*'' 1)\<lparr>rt_Actions := [\<lparr>ac_Type = ''hangup'', ac_Params = ''''\<rparr>, \<lparr>ac_Type = ''hangup'', ac_Params = ''''\<rparr>]\<rparr>"

definition ex_session :: call_session where
  "ex_session = NewSession ex_dm4 0 (Some ex_service) None ''100'' ''200'' ''''"

lemma ex_hangup_created: "created ex_registry ex_act \<lparr>ac_Type = ''hangup'', ac_Params = ''''\<rparr> s = Inr (HangupAction ''dialplan_hangup'')"
  by (simp add: created_def ex_registry_def DefaultRegistry_def Registry_Register_def NewActionRegistry_def Registry_Create_def gm_has_def
      gm_set_def substituteVars_def NewHangupAction_def)

lemma ex_session_hangup:
  "\<exists>s w. Session_Hangup ex_benv ex_session ex_w1 = (s, w, None) \<and> dlg_cancelled (dlg_at (w_dm w) 0) \<and> cl_dialog s = 0"
proof -
  have get: "Manager_Get (be_now ex_benv) ex_dm4 ''call1'' = Some 0"
    using ex_dm_1(2) [of "be_now ex_benv"] by (simp add: Manager_Get_def ex_dm_4 ex_benv_def)
  have d: "\<not> IsTerminated (dlg_at ex_dm4 0)" "dlg_State (dlg_at ex_dm4 0) \<noteq> StateTerminated" "dlg_CallID (dlg_at ex_dm4 0) = ''call1''"
    by (simp_all add: dlg_at_def ex_dm_4 IsTerminated_def NewDialog_def SetInviteResponse_def SetSession_def ex_ok_def ex_addr_def
        ex_invite_def callid_or_empty_def)
  define m1 where "m1 = (if dlg_State (dlg_at ex_dm4 0) = StateConfirmed \<and> ReasonLocalBYE = ReasonLocalBYE
      then fst (sendBYE (be_parseUri ex_benv) (be_dmSession ex_benv) (be_dmTx ex_benv) ex_dm4 0) else ex_dm4)"
  have "length (dm_heap m1) = 1" by (simp add: m1_def sendBYE_length ex_dm_4)
  hence len: "0 < length (dm_heap m1)" by linarith
  have "dlg_cancelled (dlg_at (shutdown (be_now ex_benv) m1 0 ReasonLocalBYE) 0)"
    using len by (simp add: dlg_at_def shutdown_fields [OF len])
  thus ?thesis
    using get d by (simp add: Session_Hangup_def ex_session_def NewSession_def ex_w1_def ex_w0_def Manager_Terminate_def Let_def m1_def split: if_splits)
qed

text \<open>The second action of this route is not executed: the first one has hung up.\<close>

theorem route_outcomes_witness:
  "\<exists>s' w' e s1 w1. ExecuteRoute ex_registry ex_hangups [ex_act, ex_act] ex_session ex_w1 = Some (s', w', RouteFailed e) \<and>
     ee_CompletedSteps e = 1 \<and> ee_TotalSteps e = 2 \<and> ee_Cause e = ContextDone \<and>
     runs_actions ex_registry [\<lparr>ac_Type = ''hangup'', ac_Params = ''''\<rparr>] [ex_act] ex_session ex_w1 s1 w1"
proof -
  obtain s w where h: "Session_Hangup ex_benv ex_session ex_w1 = (s, w, None)" "dlg_cancelled (dlg_at (w_dm w) 0)" "cl_dialog s = 0"
    using ex_session_hangup by blast
  have env: "ai_env ex_act = ex_benv" "ai_before ex_act = id" by (simp_all add: ex_act_def ex_oin_def)
  have may: "may_act ex_session ex_w1"
    by (simp add: may_act_def Session_IsTerminated_def ex_session_def NewSession_def ex_w1_def ex_w0_def dlg_at_def ex_dm_4 IsTerminated_def
        NewDialog_def SetInviteResponse_def SetSession_def ex_ok_def ex_addr_def)
  note crt = ex_hangup_created [unfolded created_def, simplified]
  have run: "ExecuteRoute ex_registry ex_hangups [ex_act, ex_act] ex_session ex_w1 =
      Some (s, w, RouteFailed (route_error ''r1'' 2 1 ''context_check'' ContextDone))"
    using may h unfolding may_act_def
    by (simp add: ExecuteRoute_def ex_hangups_def ex_route_def env crt Let_def route_error_def)
  show ?thesis
    using route_outcomes [OF run] run by (force simp: ex_hangups_def route_error_def)
qed

end
