(* ===== verification/Routing_Props.thy ===== *)
theory Routing_Props
  imports Routing Drain_Props Executor_Props
begin

text \<open>
  What the SIP handlers guarantee together: the media session and the API record of a call go
  when its dialog ends, whoever ends it; an INVITE that fails leaves no media session behind;
  a dialplan that has run to its end ends the call.
\<close>

section \<open>Dialogs over time\<close>

text \<open>The termination callback is only ever started for more dialogs.\<close>

definition dm_later :: "dialog_manager \<Rightarrow> dialog_manager \<Rightarrow> bool" where
  "dm_later m m' \<longleftrightarrow> good m m' \<and> (\<exists>xs. dm_reported m' = dm_reported m @ xs)"

lemma dm_later_refl [simp]: "dm_later m m"
  by (simp add: dm_later_def)

lemma dm_later_trans [trans]: "dm_later m m' \<Longrightarrow> dm_later m' m'' \<Longrightarrow> dm_later m m''"
  unfolding dm_later_def using good_trans by fastforce

lemma reported_terminate: "\<exists>xs. dm_reported (Manager_terminate now m r reason) = dm_reported m @ xs"
  by (simp add: Manager_terminate_def Let_def)

lemma reported_sendBYE [simp]: "dm_reported (fst (sendBYE pu sok txok m r)) = dm_reported m"
  by (simp add: sendBYE_def Let_def split: prod.split sum.split)

lemma reported_reinviteLoop [simp]: "dm_reported (fst (reinviteLoop r evs m)) = dm_reported m"
  by (induction r evs m rule: reinviteLoop.induct) (simp_all add: Let_def)

lemma reported_frames [simp]:
  "dm_reported (fst (CreateFromInvite now m req)) = dm_reported m"
  "dm_reported (fst (RegisterOutbound us now m req resp)) = dm_reported m"
  "dm_reported (fst (SendTrying ok now m r)) = dm_reported m" "dm_reported (fst (SendProgress ok m r sdp)) = dm_reported m"
  "dm_reported (fst (SendOK ri rsp now m r sdp)) = dm_reported m" "dm_reported (fst (ConfirmWithACK now m req)) = dm_reported m"
  "dm_reported (fst (SendReINVITE ord pu txok evs m r contact opts)) = dm_reported m"
  by (auto simp: CreateFromInvite_def RegisterOutbound_def addDialog_def SendTrying_def SendProgress_def SendOK_def ConfirmWithACK_def
      SendReINVITE_def Let_def split: option.split prod.split sum.split)

lemma reported_appends:
  "\<exists>xs. dm_reported (fst (HandleIncomingBYE ok now m req)) = dm_reported m @ xs"
  "\<exists>xs. dm_reported (fst (HandleIncomingCANCEL ok ok' now m req)) = dm_reported m @ xs"
  "\<exists>xs. dm_reported (fst (Manager_Terminate pu sok txok start now m callID reason)) = dm_reported m @ xs"
  "\<exists>xs. dm_reported (watchACKTimeout now m w) = dm_reported m @ xs"
  by (auto simp: HandleIncomingBYE_def HandleIncomingCANCEL_def Manager_Terminate_def watchACKTimeout_def Manager_terminate_def Let_def
      split: option.split)

lemma dm_step_later: "dm_step now m m' \<Longrightarrow> dm_later m m'"
  unfolding dm_later_def by (rule conjI [OF dm_step_good], assumption) (induction rule: dm_step.induct, simp_all add: reported_appends)

lemma dm_later_ops:
  "dm_later m (fst (Manager_Terminate pu sok txok t t m callID reason))" "dm_later m (fst (RegisterOutbound us t m req resp))"
  "dm_later m (fst (HandleIncomingBYE ok t m req))" "dm_later m (fst (ConfirmWithACK t m req))"
  "dm_later m (fst (HandleIncomingCANCEL ok ok' t m req))"
  by (rule dm_step_later, rule dm_step.intros, simp?)+

lemma dm_later_edit:
  assumes "r < length (dm_heap m)"
  shows "dm_later m (upd_dlg r (SetSessionID sid) m)" "dm_later m (upd_dlg r (SetMediaEndpoint a p c) m)"
    "dm_later m (upd_dlg r (SetRemoteEndpoint a p) m)"
  by (rule dm_step_later, rule dm_step.intros, rule assms)+

text \<open>A dialog that ends during an operation is one of those reported by it.\<close>

lemma ended_reported:
  assumes "dm_later m m'" and "dm_inv m" and "r < length (dm_heap m)"
    and "\<not> IsTerminated (dlg_at m r)" and "IsTerminated (dlg_at m' r)"
  shows "r \<in> fst ` set (drop (length (dm_reported m)) (dm_reported m'))"
proof -
  obtain xs where xs: "dm_reported m' = dm_reported m @ xs" using assms(1) by (auto simp: dm_later_def)
  have inv': "dm_inv m'" and len: "length (dm_heap m) \<le> length (dm_heap m')"
    using assms(1,2) by (simp_all add: dm_later_def good_def evolves_def)
  have "r \<in> fst ` set (dm_reported m')" and "r \<notin> fst ` set (dm_reported m)"
    using dm_invD(4) [OF inv'] dm_invD(4) [OF assms(2)] assms(3-5) len by (simp_all add: reported_ok_def IsTerminated_def dlg_at_def)
  thus ?thesis by (auto simp: xs)
qed

section \<open>The termination callback\<close>

lemma set_dm_frame [simp]:
  "sb_dm (set_dm m sb) = m" "sb_pool (set_dm m sb) = sb_pool sb" "sb_sessions (set_dm m sb) = sb_sessions sb" "sb_loc (set_dm m sb) = sb_loc sb"
  by (simp_all add: set_dm_def)

lemma set_pool_frame [simp]:
  "sb_dm (set_pool p sb) = sb_dm sb" "sb_pool (set_pool p sb) = p" "sb_sessions (set_pool p sb) = sb_sessions sb" "sb_loc (set_pool p sb) = sb_loc sb"
  by (simp_all add: set_pool_def)

lemma RecordSession_frame [simp]: "sb_calls (RecordSession now c ca cp sa sp sb) = sb_calls sb"
  by (simp add: RecordSession_def)

abbreviation routed :: "switchboard \<Rightarrow> string \<Rightarrow> string option" where
  "routed sb \<equiv> map_of (pl_sessionToNode (sb_pool sb))"

abbreviation recorded :: "switchboard \<Rightarrow> string \<Rightarrow> session_record option" where
  "recorded sb \<equiv> map_of (sb_sessions sb)"

lemma onTerminated_spec:
  assumes "pool_reachable (sb_pool sb)"
  shows "sb_dm (App_onTerminated env rep sb) = sb_dm sb" "sb_loc (App_onTerminated env rep sb) = sb_loc sb"
    and "pool_reachable (sb_pool (App_onTerminated env rep sb))"
    and "recorded (App_onTerminated env rep sb) = (recorded sb)(dlg_CallID (dlg_at (sb_dm sb) (fst rep)) := None)"
    and "routed (App_onTerminated env rep sb) = (routed sb)(dlg_SessionID (dlg_at (sb_dm sb) (fst rep)) := None)
      \<or> dlg_SessionID (dlg_at (sb_dm sb) (fst rep)) = '''' \<and> routed (App_onTerminated env rep sb) = routed sb"
  using destroy_session [OF assms] assms
  by (simp_all add: App_onTerminated_def RemoveSession_def Let_def)

text \<open>The dialogs for which the callback runs.\<close>

definition reports :: "nat \<Rightarrow> dialog_manager \<Rightarrow> dialog set" where
  "reports n m = dlg_at m ` fst ` set (drop n (dm_reported m))"

lemma callbacks_fold:
  assumes "pool_reachable (sb_pool sb)"
  shows "let sb' = fold (App_onTerminated env) xs sb; ds = dlg_at (sb_dm sb) ` fst ` set xs in
    sb_dm sb' = sb_dm sb \<and> sb_loc sb' = sb_loc sb \<and> pool_reachable (sb_pool sb') \<and>
    recorded sb' = recorded sb |` (- dlg_CallID ` ds) \<and>
    routed sb' = routed sb |` (- (dlg_SessionID ` ds - {''''}))"
  using assms
proof (induction xs arbitrary: sb)
  case (Cons x xs)
  note one = onTerminated_spec [OF Cons.prems, of env x]
  have "routed (App_onTerminated env x sb) = routed sb |` (- ({dlg_SessionID (dlg_at (sb_dm sb) (fst x))} - {''''}))"
    using destroy_session(3) [OF Cons.prems]
    by (auto simp: App_onTerminated_def RemoveSession_def Let_def restrict_map_def fun_eq_iff)
  moreover have "recorded (App_onTerminated env x sb) = recorded sb |` (- {dlg_CallID (dlg_at (sb_dm sb) (fst x))})"
    by (simp add: one(4) restrict_complement_singleton_eq)
  ultimately show ?case
    using Cons.IH [OF one(3)] one(1,2)
    unfolding Let_def list.set image_insert fold_Cons comp_apply
    by (intro conjI) (simp_all add: restrict_map_def fun_eq_iff)
qed (simp add: Let_def restrict_map_def)

lemma callbacks_spec:
  assumes "pool_reachable (sb_pool sb)"
  shows "sb_dm (runCallbacks env n sb) = sb_dm sb" "sb_loc (runCallbacks env n sb) = sb_loc sb"
    and "pool_reachable (sb_pool (runCallbacks env n sb))"
    and "recorded (runCallbacks env n sb) = recorded sb |` (- dlg_CallID ` reports n (sb_dm sb))"
    and "routed (runCallbacks env n sb) = routed sb |` (- (dlg_SessionID ` reports n (sb_dm sb) - {''''}))"
  using callbacks_fold [OF assms, of env "drop n (dm_reported (sb_dm sb))"]
  by (simp_all add: runCallbacks_def reports_def Let_def image_image)

section \<open>Hanging up\<close>

definition w_later :: "b2b_world \<Rightarrow> b2b_world \<Rightarrow> bool" where
  "w_later w w' \<longleftrightarrow> dm_later (w_dm w) (w_dm w') \<and> (pool_reachable (w_pool w) \<longrightarrow> pool_reachable (w_pool w'))"

lemma w_later_refl [simp]: "w_later w w"
  by (simp add: w_later_def)

lemma w_later_trans [trans]: "w_later w w' \<Longrightarrow> w_later w' w'' \<Longrightarrow> w_later w w''"
  unfolding w_later_def using dm_later_trans by blast

lemma w_later_cong [simp]:
  "w_later w (upd_leg l f v) = w_later w v" "w_later w (upd_bridge b g v) = w_later w v"
  "w_later (upd_leg l f w) v = w_later w v" "w_later (upd_bridge b g w) v = w_later w v"
  "w_later w (v\<lparr>w_sent := x\<rparr>) = w_later w v" "w_later w (v\<lparr>w_origLegs := y, w_aToB := z\<rparr>) = w_later w v"
  by (simp_all add: w_later_def)

lemma w_later_pool:
  "w_later w (w\<lparr>w_pool := fst (Pool_DestroySession ord rpc sid reason (w_pool w))\<rparr>)"
  "w_later w (w\<lparr>w_pool := fst (Pool_UnbridgeMedia rpcs bid (w_pool w))\<rparr>)"
  using destroy_session(1) by (auto simp: w_later_def intro: pool_reachable.step pool_step.intros)

lemma w_later_terminate: "w_later w (w\<lparr>w_dm := fst (Manager_Terminate pu sok txok t t (w_dm w) callID reason)\<rparr>)"
  by (simp add: w_later_def dm_later_ops)

lemma w_later_teardown: "w_later w (runTeardown env l h w)"
  by (simp add: runTeardown_def Originator_SendBYE_def Let_def w_later_terminate split: option.split teardown_handler.split)

lemma w_later_cleanup: "w_later w (originatorCleanup env l b a cause w)"
proof -
  define w1 where "w1 = (if leg_sessionID (w_legs w ! l) \<noteq> ''''
    then w\<lparr>w_pool := fst (Pool_DestroySession (be_ordS env) (be_rpc env (leg_sessionID (w_legs w ! l))) (leg_sessionID (w_legs w ! l)) (destroyReason cause) (w_pool w))\<rparr>
    else w)"
  have "w_later w w1" by (simp add: w1_def w_later_pool)
  also have "w_later w1 (originatorCleanup env l b a cause w)"
    unfolding originatorCleanup_def Let_def w1_def [symmetric] by (simp add: w_later_terminate)
  finally show ?thesis .
qed

definition hang_later :: "hang \<Rightarrow> bool" where
  "hang_later hang \<longleftrightarrow> (\<forall>l c w w'. hang l c w = Some w' \<longrightarrow> w_later w w')"

lemma hang_laterD: "hang_later hang \<Longrightarrow> hang l c w = Some w' \<Longrightarrow> w_later w w'"
  by (simp add: hang_later_def)

lemma later_hangupIfAnswered: "hang_later hang \<Longrightarrow> hangupIfAnswered hang l st w = Some w' \<Longrightarrow> w_later w w'"
  by (auto simp: hangupIfAnswered_def dest: hang_laterD split: if_splits)

lemma later_Stop:
  assumes "hang_later hang" and "Bridge_Stop hang env b h w = Some w'"
  shows "w_later w w'"
proof -
  let ?br = "w_bridges w ! b"
  let ?w1 = "upd_bridge b (\<lambda>x. x\<lparr>cb_state := BridgeStateTerminating\<rparr>) w"
  define w2 where "w2 = (if cb_transport ?br \<and> cb_mediaBridgeID ?br \<noteq> ''''
    then ?w1\<lparr>w_pool := fst (Pool_UnbridgeMedia (be_unbridge env) (cb_mediaBridgeID ?br) (w_pool ?w1))\<rparr> else ?w1)"
  have w2: "w_later w w2" using w_later_pool(2) [of ?w1] by (simp add: w2_def del: upd_bridge_frame)
  have "w_later w2 w'" if "cb_state ?br \<noteq> BridgeStateTerminated"
    using assms(2) that unfolding Bridge_Stop_def Let_def w2_def [symmetric]
    by (auto simp: bind_eq_Some_conv dest!: later_hangupIfAnswered [OF assms(1)] intro: w_later_trans split: if_splits)
  thus ?thesis using assms(2) w_later_trans [OF w2] by (cases "cb_state ?br = BridgeStateTerminated") (auto simp: Bridge_Stop_def)
qed

lemma later_handleLegTerminated: "hang_later hang \<Longrightarrow> handleLegTerminated hang env b name c w = Some w' \<Longrightarrow> w_later w w'"
  by (auto simp: handleLegTerminated_def Let_def split: if_splits dest!: later_Stop)

lemma later_notifyTerminated:
  assumes "hang_later hang"
  shows "notifyTerminated hang env l fns c w = Some w' \<Longrightarrow> w_later w w'"
proof (induction fns arbitrary: w)
  case (Cons fn fns)
  show ?case
  proof (cases fn)
    case (BridgeCallback b name)
    thus ?thesis using Cons by (auto simp: bind_eq_Some_conv dest!: later_handleLegTerminated [OF assms] intro: w_later_trans)
  next
    case (OriginatorCleanup b a)
    hence "notifyTerminated hang env l fns c (originatorCleanup env l b a c w) = Some w'" using Cons.prems by simp
    thus ?thesis by (rule w_later_trans [OF w_later_cleanup Cons.IH])
  qed
qed simp

lemma later_Hangup: "hang_later (Leg_Hangup n env)"
proof (induction n)
  case (Suc n)
  show ?case unfolding hang_later_def
  proof (intro allI impI)
    fix l c w w'
    assume run: "Leg_Hangup (Suc n) env l c w = Some w'"
    show "w_later w w'"
    proof (cases "LegState_IsTerminal (leg_state (w_legs w ! l))")
      case False
      let ?w1 = "upd_leg l (\<lambda>x. x\<lparr>leg_state := LegStateDestroyed, leg_terminationCause := c, leg_terminatedAt := Some (be_now env)\<rparr>) w"
      have "w_later w (runTeardown env l (leg_onTeardown (w_legs w ! l)) ?w1)" using w_later_teardown [of ?w1] by simp
      thus ?thesis using run False later_notifyTerminated [OF Suc] by (fastforce simp: Let_def intro: w_later_trans)
    qed (use run in simp)
  qed
qed (simp add: hang_later_def)

lemmas later_hangup = hang_laterD [OF later_Hangup]

section \<open>Placing a call\<close>

definition d_later :: "b2b_world \<Rightarrow> b2b_world \<Rightarrow> bool" where
  "d_later w w' \<longleftrightarrow> dm_later (w_dm w) (w_dm w')"

lemma d_later_refl [simp]: "d_later w w"
  by (simp add: d_later_def)

lemma d_later_trans [trans]: "d_later w w' \<Longrightarrow> d_later w' w'' \<Longrightarrow> d_later w w''"
  unfolding d_later_def by (rule dm_later_trans)

lemma w_later_d [dest]: "w_later w w' \<Longrightarrow> d_later w w'"
  by (simp add: w_later_def d_later_def)

lemma d_later_same: "w_dm w' = w_dm w \<Longrightarrow> d_later w w'"
  by (simp add: d_later_def)

lemma dm_frames [simp]:
  "w_dm (extractRemoteMedia env um l resp w) = w_dm w" "w_dm (sendCANCEL env l invite w) = w_dm w"
  "w_dm (fst (sendACK env l resp invite w)) = w_dm w" "w_dm (destroyMediaSession env l w) = w_dm w"
  "w_dm (fst (NewBridge uuid now la lb tr ah w)) = w_dm w" "w_dm (fst (Bridge_Start listen uuid rpc now b w)) = w_dm w"
  by (simp_all add: extractRemoteMedia_def sendCANCEL_def sendACK_def destroyMediaSession_def NewBridge_def Bridge_Start_def Let_def
      split: option.split list.split prod.split sum.split)

lemma outbound_ref:
  assumes "RegisterOutbound us t m req resp = (m', Inr r)" and "dm_inv m"
  shows "r < length (dm_heap m')"
  using assms Get_ref(1) [OF assms(2), of t]
  by (fastforce simp: RegisterOutbound_def addDialog_def Let_def split: if_splits option.splits)

lemma dm_later_under_inv: "(dm_inv m \<Longrightarrow> dm_later m m') \<Longrightarrow> \<exists>xs. dm_reported m' = dm_reported m @ xs \<Longrightarrow> dm_later m m'"
  by (auto simp: dm_later_def good_def)

lemma d_later_registerLegDialog: "d_later w (registerLegDialog env l invite resp w)"
proof -
  obtain m x where reg: "RegisterOutbound (be_uriString env) (be_now env) (w_dm w) invite resp = (m, x)" by fastforce
  have m: "dm_later (w_dm w) m"
    using dm_later_ops(2) [of "w_dm w" "be_uriString env" "be_now env" invite resp] by (simp add: reg)
  have edited: "dm_later (w_dm w) (upd_dlg r (SetSessionID sid) m)"
    "dm_later (w_dm w) (upd_dlg r (SetMediaEndpoint a p c) (upd_dlg r (SetSessionID sid) m))" if "x = Inr r" for r sid a p c
  proof -
    have r: "r < length (dm_heap m)" if "dm_inv (w_dm w)" using outbound_ref reg \<open>x = Inr r\<close> that by blast
    show sid: "dm_later (w_dm w) (upd_dlg r (SetSessionID sid) m)"
      by (rule dm_later_under_inv) (use m dm_later_trans [OF m dm_later_edit(1) [OF r]] in \<open>auto simp: dm_later_def\<close>)
    show "dm_later (w_dm w) (upd_dlg r (SetMediaEndpoint a p c) (upd_dlg r (SetSessionID sid) m))"
      by (rule dm_later_under_inv) (use m dm_later_trans [OF sid dm_later_edit(2)] r in \<open>auto simp: dm_later_def\<close>)
  qed
  show ?thesis using m edited by (auto simp: registerLegDialog_def reg d_later_def Let_def split: sum.split)
qed

lemma d_later_handle2xx: "d_later w (fst (handle2xx env um l resp invite w))"
proof -
  let ?w1 = "upd_leg l (SetSIPResponse (rs_StatusCode resp) (rs_Reason resp)) w"
  let ?w2 = "if rs_Body resp \<noteq> None then extractRemoteMedia env um l resp ?w1 else ?w1"
  have "d_later ?w2 (fst (handle2xx env um l resp invite w))"
    using d_later_registerLegDialog [of ?w2 env l invite resp] by (simp add: handle2xx_def Let_def d_later_def)
  moreover have "w_dm ?w2 = w_dm w" by simp
  ultimately show ?thesis unfolding d_later_def by (rule back_subst [of "\<lambda>m. dm_later m _"])
qed

lemma d_later_handleResponse: "d_later w (fst (handleResponse env um l resp invite w))"
  using d_later_handle2xx [of w env um l resp invite]
  by (auto simp: handleResponse_def handleFailure_def Let_def d_later_def split: prod.split)

lemma d_later_inviteLoop: "d_later w (fst (inviteLoop env um l invite evs w))"
proof (induction evs arbitrary: w)
  case (Cons ev evs)
  show ?case
  proof (cases ev)
    case (GotResponse resp)
    obtain w' x where h: "handleResponse env um l resp invite w = (w', x)" by fastforce
    have w': "d_later w w'" using d_later_handleResponse [of w env um l resp invite] by (simp add: h)
    show ?thesis using w' d_later_trans [OF w' Cons.IH] by (cases x) (simp_all add: GotResponse h)
  qed (simp_all add: Let_def d_later_def)
qed simp

lemma d_later_executeINVITE: "d_later w (fst (executeINVITE env um l invite evs w))"
proof -
  let ?w1 = "upd_leg l (Leg_TransitionTo (be_now env) LegStateCreated) w"
  have "d_later (?w1\<lparr>w_sent := w_sent ?w1 @ [('''', invite)]\<rparr>) (fst (inviteLoop env um l invite evs (?w1\<lparr>w_sent := w_sent ?w1 @ [('''', invite)]\<rparr>)))"
    by (rule d_later_inviteLoop)
  thus ?thesis by (simp add: executeINVITE_def Let_def d_later_def)
qed

lemma d_later_origFinish: "d_later w (fst r) \<Longrightarrow> d_later w (fst (origFinish env l r))"
  by (auto simp: origFinish_def d_later_def split: prod.split option.split)

lemma d_later_Originate: "d_later w (fst (Originate inp req w))"
proof (cases "oq_Target req")
  case (Some target)
  show ?thesis
  proof (cases "HasContacts target")
    case True
    have exec: "d_later w (fst (executeINVITE env um l invite evs v))" if "w_dm v = w_dm w" for env um l invite evs v
      using d_later_executeINVITE [of v] that by (simp add: d_later_def)
    show ?thesis
      by (auto simp: Originate_steps [OF Some True] Let_def origMedia_def d_later_same intro!: d_later_origFinish exec
          split: prod.split sum.split option.split)
  qed (simp add: Originate_def Some)
qed (simp add: Originate_def)

lemma d_later_Dial: "Dial n s inp ev waits target opts w = Some (w', r) \<Longrightarrow> d_later w w'"
proof -
  assume run: "Dial n s inp ev waits target opts w = Some (w', r)"
  note orig = d_later_Originate [of w "inp\<lparr>oi_events := map parentExpires (oi_events inp)\<rparr>"]
  show ?thesis
    using run orig
    by (fastforce simp: Dial_def Let_def split: sum.splits if_splits prod.splits option.splits intro: d_later_trans
        dest!: later_hangup dest: arg_cong [of _ _ fst])
qed

lemma d_later_bridging:
  assumes "CreateBridge s uuid now la lb ah w = (w2, x)"
  shows "d_later w w2" "Bridge_Start listen mu rpc t b w2 = (w3, e) \<Longrightarrow> d_later w w3"
proof -
  have w2: "w_dm w2 = w_dm w" using assms dm_frames(5) [of uuid now la lb "cs_transport s" ah w] by (simp add: CreateBridge_def)
  show "d_later w w2" using w2 by (rule d_later_same)
  show "d_later w w3" if "Bridge_Start listen mu rpc t b w2 = (w3, e)"
    using that dm_frames(6) [of listen mu rpc t b w2] w2 by (simp add: d_later_same)
qed

lemma d_later_DialAndBridge:
  assumes "DialAndBridge n s inp ev waits bin legA target opts w = Some (w', r)"
  shows "d_later w w'"
proof -
  have hang: "d_later v v'" if "d_later v u" "Leg_Hangup n env l c u = Some v'" for v u v' env l c
    using d_later_trans [OF that(1)] later_hangup [OF that(2)] by blast
  have bridge: "d_later w1 w'"
    if "(case CreateBridge s (bi_uuid bin) (bi_now bin) (Some legA) (Some legB) True w1 of
          (w2, Inl err) \<Rightarrow> map_option (\<lambda>w3. (w3, Some (Inl (BridgeErr err)))) (Leg_Hangup n (oi_env inp) legB TerminationCauseError w2)
        | (w2, Inr b) \<Rightarrow>
            (case Bridge_Start (bi_listen bin) (bi_mediaUuid bin) (bi_rpc bin) (bi_now bin) b w2 of
               (w3, Some err) \<Rightarrow> map_option (\<lambda>w4. (w4, Some (Inl (BridgeErr err)))) (Leg_Hangup n (oi_env inp) legB TerminationCauseError w3)
             | (w3, None) \<Rightarrow> Some (w3, Some (Inr b)))) = Some (w', r)" for w1 legB
    using that by (auto split: prod.splits sum.splits option.splits intro: hang d_later_bridging)
  show ?thesis
  proof (cases "leg_state (w_legs w ! legA) = LegStateAnswered")
    case True
    then obtain w1 x where dial: "Dial n s inp ev waits target
        ([WithALegSessionID (leg_sessionID (w_legs w ! legA)), WithALegCallID (leg_callID (w_legs w ! legA))] @ opts) w = Some (w1, x)"
      using assms by (auto simp: DialAndBridge_def Let_def bind_eq_Some_conv)
    note run = assms [unfolded DialAndBridge_def Let_def dial]
    consider "x = None" | err where "x = Some (Inl err)" | l where "x = Some (Inr l)" by (metis obj_sumE option.exhaust)
    hence "d_later w1 w'" using run True bridge by cases simp_all
    thus ?thesis by (rule d_later_trans [OF d_later_Dial [OF dial]])
  qed (use assms in \<open>simp add: DialAndBridge_def\<close>)
qed

lemma d_later_resume: "DialAndBridge_resume n env b ctxDone w = Some (w', br) \<Longrightarrow> d_later w w'"
  by (auto simp: DialAndBridge_resume_def split: if_splits dest: later_Stop [OF later_Hangup])

section \<open>Running a route\<close>

text \<open>The world between and during the actions belongs to other goroutines; they keep the dialogs in order.\<close>

definition acts_later :: "act_in list \<Rightarrow> bool" where
  "acts_later ins \<longleftrightarrow> (\<forall>a \<in> set ins. \<forall>w. d_later w (ai_before a w) \<and> d_later w (ai_during a w))"

lemma d_later_Session_Dial:
  assumes during: "\<And>w. d_later w (ai_during a w)" and run: "Session_Dial a s target w = Some (w', r)"
  shows "d_later w w'"
proof (cases "cl_callService s")
  case None
  thus ?thesis using run by (auto simp: Session_Dial_def split: sum.splits)
next
  case (Some svc)
  obtain w1 x where adopt: "AdoptInboundLeg (be_uriString (ai_env a)) (ai_uuid a) (be_now (ai_env a)) (Some (cl_dialog s, dlg_at (w_dm w) (cl_dialog s)))
      (cl_sessionID s) [WithTeardownHandler (Some (SessionTeardown (cl_callID s) (cl_dialog s)))] w = (w1, x)" by fastforce
  have w1: "d_later w w1" using adopt by (auto simp: AdoptInboundLeg_def d_later_def split: sum.splits)
  note run' = run [unfolded Session_Dial_def Some option.case Let_def adopt prod.case]
  have "d_later w1 w'"
  proof (cases x)
    case (Inr l)
    then obtain w2 y where dial: "d_later w1 w2" and rest: "(case (w2, y) of (w2, None) \<Rightarrow> Some (w2, ActWaiting)
        | (w2, Some (Inl err)) \<Rightarrow> Some (w2, ActErr (wrapDialError target err))
        | (w2, Some (Inr b)) \<Rightarrow>
            map_option (\<lambda>x. (fst x, ActOk)) (DialAndBridge_resume (ai_depth a) (ai_env a) b (ai_ctxDone a) (ai_during a w2))) = Some (w', r)"
      using run' by (auto simp: bind_eq_Some_conv dest!: d_later_DialAndBridge)
    consider "y = None" | err where "y = Some (Inl err)" | b where "y = Some (Inr b)" by (metis obj_sumE option.exhaust)
    hence "d_later w2 w'" using rest by cases (auto dest!: d_later_resume intro: d_later_trans during)
    thus ?thesis by (rule d_later_trans [OF dial])
  qed (use run' in simp)
  thus ?thesis by (rule d_later_trans [OF w1])
qed

lemma d_later_Action:
  assumes "\<And>w. d_later w (ai_during a w)" and "Action_Execute a act s w = Some (s', w', r)"
  shows "d_later w w'" "cl_dialog s' = cl_dialog s"
proof -
  have "d_later w w' \<and> cl_dialog s' = cl_dialog s"
  proof (cases act)
    case (PlayAudioAction f)
    thus ?thesis using assms(2) by (auto simp: Session_PlayAudio_def d_later_def split: prod.splits option.splits if_splits)
  next
    case (DialAction target timeout)
    thus ?thesis using assms(2) d_later_Session_Dial [OF assms(1)] by auto
  next
    case (HangupAction reason)
    have "d_later w (w\<lparr>w_dm := m\<rparr>)"
      if "Manager_Terminate pu so tx t t (w_dm w) c rs = (m, e)" for pu so tx t c rs m e
      using dm_later_ops(1) [of "w_dm w" pu so tx t c rs] that by (simp add: d_later_def)
    thus ?thesis using HangupAction assms(2) by (auto simp: Session_Hangup_def Let_def split: prod.splits option.splits if_splits)
  qed
  thus "d_later w w'" "cl_dialog s' = cl_dialog s" by simp_all
qed

lemma d_later_obstacle:
  assumes "\<And>w. d_later w (ai_during a w)" and "obstacle reg a cfg s w s' w' cause"
  shows "d_later w w'"
  using assms(2) by (cases cause) (auto dest: d_later_Action(1) [OF assms(1)])

lemma d_later_executeActions:
  "executeActions reg rid n i cfgs ins s w = Some (s', w', out) \<Longrightarrow> acts_later ins \<Longrightarrow> d_later w w'"
proof (induction cfgs arbitrary: i ins s w)
  case (Cons cfg cfgs)
  show ?case
  proof (cases ins)
    case Nil
    thus ?thesis using Cons.prems by simp
  next
    case (Cons a ins')
    have before: "d_later w (ai_before a w)" and during: "\<And>w. d_later w (ai_during a w)" and rest: "acts_later ins'"
      using Cons.prems(2) Cons by (auto simp: acts_later_def)
    from Cons.prems(1) [unfolded Cons] have "d_later (ai_before a w) w'"
    proof (cases rule: executeActions_cases)
      case (passed act s1 w1)
      show ?thesis by (rule d_later_trans [OF d_later_Action(1) [OF during passed(3)] Cons.IH [OF passed(4) rest]])
    qed (auto intro: d_later_obstacle during d_later_Action)
    thus ?thesis by (rule d_later_trans [OF before])
  qed
qed simp

lemma d_later_Execute: "Executor_Execute e ins s w = Some (s', w', out) \<Longrightarrow> acts_later ins \<Longrightarrow> d_later w w'"
  by (auto simp: Executor_Execute_def ExecuteRoute_def split: option.splits intro: d_later_executeActions)

section \<open>The end of a call\<close>

definition released :: "switchboard \<Rightarrow> nat \<Rightarrow> bool" where
  "released sb r \<longleftrightarrow> (let d = dlg_at (sb_dm sb) r in
     recorded sb (dlg_CallID d) = None \<and> (dlg_SessionID d \<noteq> '''' \<longrightarrow> routed sb (dlg_SessionID d) = None))"

text \<open>Every dialog that ends between \<open>sb\<close> and \<open>sb'\<close> is released in \<open>sb'\<close>.\<close>

definition ends_released :: "switchboard \<Rightarrow> switchboard \<Rightarrow> bool" where
  "ends_released sb sb' \<longleftrightarrow>
     (\<forall>r < length (dm_heap (sb_dm sb)). \<not> IsTerminated (dlg_at (sb_dm sb) r) \<and> IsTerminated (dlg_at (sb_dm sb') r) \<longrightarrow> released sb' r)"

lemma callbacks_release:
  assumes "pool_reachable (sb_pool sb')" and "dm_inv (sb_dm sb)" and "dm_later (sb_dm sb) (sb_dm sb')"
  shows "ends_released sb (runCallbacks env (length (dm_reported (sb_dm sb))) sb')"
  unfolding ends_released_def
proof (intro allI impI)
  fix r let ?c = "runCallbacks env (length (dm_reported (sb_dm sb))) sb'" and ?d = "dlg_at (sb_dm sb') r"
  assume r: "r < length (dm_heap (sb_dm sb))" and ended: "\<not> IsTerminated (dlg_at (sb_dm sb) r) \<and> IsTerminated (dlg_at (sb_dm ?c) r)"
  note spec = callbacks_spec [OF assms(1), of env "length (dm_reported (sb_dm sb))"]
  have "?d \<in> reports (length (dm_reported (sb_dm sb))) (sb_dm sb')"
    using ended_reported [OF assms(3,2) r] ended by (simp add: reports_def spec(1))
  thus "released ?c r" by (simp add: released_def Let_def spec)
qed

lemma onDialogs_release:
  assumes "pool_reachable (sb_pool sb)" and "dm_inv (sb_dm sb)" and "dm_later (sb_dm sb) (fst (f (sb_dm sb)))"
  shows "ends_released sb (fst (onDialogs env f sb))" "pool_reachable (sb_pool (fst (onDialogs env f sb)))"
    "sb_dm (fst (onDialogs env f sb)) = fst (f (sb_dm sb))"
  using callbacks_release [of "set_dm (fst (f (sb_dm sb))) sb" sb env] callbacks_spec [of "set_dm (fst (f (sb_dm sb))) sb"] assms
  by (simp_all add: onDialogs_def split_beta)

lemma onCalls_release:
  assumes "pool_reachable (sb_pool sb)" and "dm_inv (sb_dm sb)" and "w_later (sb_calls sb) w"
  shows "ends_released sb (onCalls env (\<lambda>_. w) sb)" "pool_reachable (sb_pool (onCalls env (\<lambda>_. w) sb))"
    "sb_dm (onCalls env (\<lambda>_. w) sb) = w_dm w" "w_legs (sb_calls (onCalls env (\<lambda>_. w) sb)) = w_legs w"
proof -
  have p: "pool_reachable (sb_pool (sb\<lparr>sb_calls := w\<rparr>))" using assms(1,3) by (simp add: w_later_def)
  show "ends_released sb (onCalls env (\<lambda>_. w) sb)" "pool_reachable (sb_pool (onCalls env (\<lambda>_. w) sb))"
    "sb_dm (onCalls env (\<lambda>_. w) sb) = w_dm w"
    using callbacks_release [OF p assms(2)] callbacks_spec [OF p] assms(3) by (simp_all add: onCalls_def w_later_def)
  have "w_legs (sb_calls (fold (App_onTerminated env) xs v)) = w_legs (sb_calls v)" for xs v
    by (induction xs arbitrary: v) (simp_all add: App_onTerminated_def RemoveSession_def set_pool_def Let_def)
  thus "w_legs (sb_calls (onCalls env (\<lambda>_. w) sb)) = w_legs w" by (simp add: onCalls_def runCallbacks_def)
qed

lemma onCalls_id: "onCalls env (\<lambda>_. sb_calls sb) sb = sb"
  by (simp add: onCalls_def runCallbacks_def)

lemma bye_stages:
  "HandleBYE env req sb =
     (case (let c = callid_or_empty (rq_Headers req) in if c = '''' then None else GetLegByCallID (sb_calls sb) c) of
        None \<Rightarrow> Some (fst (onDialogs (ro_b2b env) (\<lambda>m. HandleIncomingBYE (ro_respondOk env) (ro_now env) m req) sb))
      | Some l \<Rightarrow> map_option (\<lambda>w. onCalls (ro_b2b env) (\<lambda>_. w) sb)
                   (Leg_Hangup (ro_depth env) (ro_b2b env) l TerminationCauseRemoteBYE (sb_calls sb)))"
  by (simp add: HandleBYE_def Service_HandleIncomingBYE_def Originator_HandleIncomingBYE_def Let_def onCalls_id option.map_comp comp_def
      split: option.split)

text \<open>The events that can end a call: the handlers, the ACK watcher and \<open>Terminate\<close>.\<close>

inductive app_step :: "switchboard \<Rightarrow> switchboard \<Rightarrow> bool" where
  bye: "HandleBYE env req sb = Some sb' \<Longrightarrow> app_step sb sb'"
| ack: "app_step sb (HandleACK env req sb)"
| cancel: "app_step sb (HandleCANCEL env req sb)"
| terminate: "app_step sb (App_Terminate benv callID reason sb)"
| ack_timeout: "x \<in> set (dm_watchers (sb_dm sb)) \<Longrightarrow>
    app_step sb (fst (onDialogs benv (\<lambda>m. (watchACKTimeout now m x, ())) sb))"

text \<open>
  Property C14. The media of a call goes with its dialog: whenever one of the events ends a dialog, the callback
  has run by the end of it, so the call has no session record left and its media session is no longer
  routed to an RTP manager; the pool stays consistent.
\<close>

theorem ended_calls_release_media:
  assumes "app_step sb sb'" and "dm_reachable t (sb_dm sb)" and "pool_reachable (sb_pool sb)"
  shows "ends_released sb sb' \<and> pool_reachable (sb_pool sb')"
  using assms
proof (induction rule: app_step.induct)
  case (bye env req sb sb')
  note inv = dm_reachable_inv [OF bye(2)]
  show ?case
    using bye(1) onDialogs_release [OF bye(3) inv, where f = "\<lambda>m. HandleIncomingBYE (ro_respondOk env) (ro_now env) m req"]
      onCalls_release [OF bye(3) inv later_hangup] dm_later_ops(3)
    unfolding bye_stages by (auto split: option.splits)
next
  case (ack_timeout x sb benv now)
  have "dm_later (sb_dm sb) (watchACKTimeout now (sb_dm sb) x)" using dm_step_later [OF dm_step.ack_timeout [OF ack_timeout(1)]] .
  thus ?case
    using onDialogs_release [OF ack_timeout(3) dm_reachable_inv [OF ack_timeout(2)], where f = "\<lambda>m. (watchACKTimeout now m x, ())"] by simp
qed (simp_all add: HandleACK_def HandleCANCEL_def App_Terminate_def onDialogs_release dm_reachable_inv dm_later_ops)

text \<open>
  Property C16. A BYE is always handled. If it names a leg the switch has placed, that leg is gone afterwards;
  otherwise, if it names a known dialog, that dialog has ended with the reason that the other side hung up and holds no
  media; otherwise it is answered 481 and nothing else changes.
\<close>

theorem bye_ends_call:
  assumes calls: "call_reachable (sb_calls sb)" and legs: "\<And>c l. GetLegByCallID (sb_calls sb) c = Some l \<Longrightarrow> l < length (w_legs (sb_calls sb))"
    and dialogs: "dm_reachable t (sb_dm sb)" and pool: "pool_reachable (sb_pool sb)"
    and env: "is_range (be_cbOrd (ro_b2b env))" "live_legs (sb_calls sb) < ro_depth env" "ro_respondOk env"
    and callID: "callid_or_empty (rq_Headers req) = callID" "callID \<noteq> ''''"
  shows "\<exists>sb'. HandleBYE env req sb = Some sb' \<and> ends_released sb sb' \<and>
    (case GetLegByCallID (sb_calls sb) callID of
       Some l \<Rightarrow> LegState_IsTerminal (leg_state (w_legs (sb_calls sb') ! l))
     | None \<Rightarrow>
         (case Manager_Get (ro_now env) (sb_dm sb) callID of
            Some r \<Rightarrow> IsTerminated (dlg_at (sb_dm sb') r) \<and> dlg_TerminateReason (dlg_at (sb_dm sb') r) = ReasonRemoteBYE \<and> released sb' r
          | None \<Rightarrow> sb' = set_dm (send_out (OnRequestTx ''BYE'' 481) (sb_dm sb)) sb))"
proof (cases "GetLegByCallID (sb_calls sb) callID")
  case (Some l)
  note wf = call_invD(1) [OF call_reachable_inv [OF calls]]
  obtain w where w: "Leg_Hangup (ro_depth env) (ro_b2b env) l TerminationCauseRemoteBYE (sb_calls sb) = Some w"
    using hangup.hang_returns [OF env(1) wf legs [OF Some] env(2)] by blast
  have "\<not> leg_alive (w_legs w ! l)" using hangup.hang_spec [OF env(1) wf legs [OF Some] w] by blast
  thus ?thesis
    using Some w callID onCalls_release [OF pool dm_reachable_inv [OF dialogs] later_hangup [OF w]]
    by (simp add: bye_stages leg_alive_def)
next
  case None
  note inv = dm_reachable_inv [OF dialogs]
  let ?f = "\<lambda>m. HandleIncomingBYE True (ro_now env) m req"
  let ?sb = "fst (onDialogs (ro_b2b env) ?f sb)"
  have run: "HandleBYE env req sb = Some ?sb" using None callID env(3) by (simp add: bye_stages)
  note rel = onDialogs_release [OF pool inv, of ?f, OF dm_later_ops(3)]
  show ?thesis
  proof (cases "Manager_Get (ro_now env) (sb_dm sb) callID")
    case get: None
    hence "?sb = set_dm (send_out (OnRequestTx ''BYE'' 481) (sb_dm sb)) sb"
      using callID by (simp add: onDialogs_def HandleIncomingBYE_def Let_def runCallbacks_def)
    thus ?thesis using None get run rel(1) [of "ro_b2b env"] by simp
  next
    case (Some r)
    define m1 where "m1 = (if dlg_Session (dlg_at (sb_dm sb) r) then send_out (ReadByeBySession r) (sb_dm sb)
      else send_out (OnRequestTx ''BYE'' 200) (sb_dm sb))"
    have m1: "dm_inv m1" "r < length (dm_heap m1)" "dm_reported m1 = dm_reported (sb_dm sb)"
      using inv Get_ref(1) [OF inv Some] good_send by (auto simp: m1_def good_def)
    have f: "fst (?f (sb_dm sb)) = shutdown (ro_now env) m1 r ReasonRemoteBYE"
      using Some callID by (auto simp: HandleIncomingBYE_def Let_def m1_def)
    note dead = shutdown_spec [OF m1(1,2), where now = "ro_now env" and reason = ReasonRemoteBYE]
    have rep: "dlg_at (fst (?f (sb_dm sb))) r \<in> reports (length (dm_reported (sb_dm sb))) (fst (?f (sb_dm sb)))"
      unfolding f by (simp add: reports_def dead(2) m1(3))
    have "released ?sb r"
      using rep callbacks_spec [of "set_dm (fst (?f (sb_dm sb))) sb" "ro_b2b env" "length (dm_reported (sb_dm sb))"] pool
      by (simp add: released_def Let_def onDialogs_def split_beta)
    thus ?thesis using None Some run rel dead(1) by (simp add: f IsTerminated_def)
  qed
qed

section \<open>The dialplan and the call\<close>

lemma terminate_ends:
  assumes inv: "dm_inv m" and get: "Manager_Get t m callID = Some r"
  shows "IsTerminated (dlg_at (fst (Manager_Terminate pu so tx t t m callID reason)) r)"
proof (cases "dlg_State (dlg_at m r) = StateTerminated")
  case True
  thus ?thesis using get by (simp add: Manager_Terminate_def IsTerminated_def)
next
  case False
  note r = Get_ref(1) [OF inv get]
  define m1 where "m1 = (if dlg_State (dlg_at m r) = StateConfirmed \<and> reason = ReasonLocalBYE then fst (sendBYE pu so tx m r) else m)"
  have m1: "dm_inv m1" "r < length (dm_heap m1)"
    using good_sendBYE [OF r] inv r by (auto simp: m1_def good_def sendBYE_length)
  have "fst (Manager_Terminate pu so tx t t m callID reason) = shutdown t m1 r reason"
    using get False by (simp add: Manager_Terminate_def Let_def m1_def)
  thus ?thesis by (simp add: shutdown_spec(1) [OF m1] IsTerminated_def)
qed

text \<open>
  Property C15. When the dialplan of a call has run to its end, whatever its outcome, the call is over: its
  dialog has ended, its media session is no longer routed and it has no session record. The
  actions may have ended it themselves, the caller may have hung up meanwhile, or the
  handler terminates it; the last needs the dialog to be in the store still.
\<close>

theorem dialplan_ends_call:
  assumes dialogs: "dm_reachable t (sb_dm sb)" and r: "r < length (dm_heap (sb_dm sb))" "\<not> IsTerminated (dlg_at (sb_dm sb) r)"
    and others: "acts_later ins"
    and exec: "Executor_Execute e ins (dialplanSession callService r destination sb) (sb_calls sb) = Some (s, w, outcome)"
    and ended: "outcome \<noteq> StillRunning" and pool: "pool_reachable (w_pool w)"
    and found: "IsTerminated (dlg_at (w_dm w) r) \<or> Manager_Get (be_now env) (w_dm w) (dlg_CallID (dlg_at (sb_dm sb) r)) = Some r"
  shows "\<exists>sb'. executeDialplan e callService env ins r destination sb = Some (sb', outcome) \<and>
    IsTerminated (dlg_at (sb_dm sb') r) \<and> released sb' r"
proof -
  note inv = dm_reachable_inv [OF dialogs]
  have later: "dm_later (sb_dm sb) (w_dm w)" using d_later_Execute [OF exec others] by (simp add: d_later_def)
  hence inv': "dm_inv (w_dm w)" and call: "dlg_CallID (dlg_at (w_dm w) r) = dlg_CallID (dlg_at (sb_dm sb) r)"
    and r': "r < length (dm_heap (w_dm w))"
    using inv r(1) by (auto simp: dm_later_def good_def evolves_def)
  define sb1 where "sb1 = runCallbacks env (length (dm_reported (sb_dm sb))) (sb\<lparr>sb_calls := w\<rparr>)"
  have sb1: "sb_dm sb1 = w_dm w" "pool_reachable (sb_pool sb1)"
    using callbacks_spec [of "sb\<lparr>sb_calls := w\<rparr>"] pool by (simp_all add: sb1_def)
  have run: "executeDialplan e callService env ins r destination sb =
      Some (if IsTerminated (dlg_at (w_dm w) r) then sb1 else App_Terminate env (dlg_CallID (dlg_at (w_dm w) r)) ReasonLocalBYE sb1, outcome)"
    using ended by (simp add: executeDialplan_def exec Let_def sb1_def [symmetric] sb1(1))
  show ?thesis
  proof (cases "IsTerminated (dlg_at (w_dm w) r)")
    case True
    have "ends_released sb sb1" unfolding sb1_def using callbacks_release [of "sb\<lparr>sb_calls := w\<rparr>"] pool inv later by simp
    thus ?thesis using run True r by (simp add: ends_released_def sb1(1))
  next
    case False
    let ?f = "\<lambda>m. Manager_Terminate (be_parseUri env) (be_dmSession env) (be_dmTx env) (be_now env) (be_now env) m
      (dlg_CallID (dlg_at (w_dm w) r)) ReasonLocalBYE"
    have "IsTerminated (dlg_at (fst (?f (w_dm w))) r)" using terminate_ends [OF inv'] found False call by simp
    moreover have "ends_released sb1 (fst (onDialogs env ?f sb1))" "sb_dm (fst (onDialogs env ?f sb1)) = fst (?f (w_dm w))"
      using onDialogs_release [of sb1 ?f] sb1 inv' dm_later_ops(1) by simp_all
    ultimately show ?thesis using run False r' by (simp add: ends_released_def sb1(1) App_Terminate_def)
  qed
qed

section \<open>An INVITE and its media session\<close>

lemma create_balanced:
  assumes pool: "pool_reachable p" and fresh: "env_fresh ce (pool_holds p)" and run: "Pool_CreateSession rpc ce info p = (p', x)"
  shows "pool_reachable p'" and "x = Inl e \<Longrightarrow> map_of (pl_sessionToNode p') = map_of (pl_sessionToNode p)"
    and "x = Inr res \<Longrightarrow> \<exists>n. map_of (pl_sessionToNode p') = (map_of (pl_sessionToNode p))(sr_SessionID res \<mapsto> n)"
proof -
  show "pool_reachable p'" using pool_reachable.step [OF pool pool_step.create [OF fresh, of rpc info]] run by simp
  obtain q y where sel: "selectMember p = (q, y)" by fastforce
  show "map_of (pl_sessionToNode p') = map_of (pl_sessionToNode p)" if "x = Inl e"
    using run that sel selectMember_Inl [of p q] selectMember_Inr [of p q] createOn_frame(7) [of _ _ q p' x]
    by (cases y) (fastforce simp: Pool_CreateSession_def)+
  show "\<exists>n. map_of (pl_sessionToNode p') = (map_of (pl_sessionToNode p))(sr_SessionID res \<mapsto> n)" if "x = Inr res"
    using run that sel selectMember_Inr [of p q] createOn_frame(7) [of _ _ q p' x]
    by (cases y) (fastforce simp: Pool_CreateSession_def)+
qed

lemma new_dialog:
  assumes inv: "dm_inv m" and callID: "callid_or_empty (rq_Headers req) = callID" "callID \<noteq> ''''" and new: "Manager_Get now m callID = None"
  obtains m1 where "CreateFromInvite now m req = (m1, Inr (length (dm_heap m)))" "dm_heap m1 = dm_heap m @ [NewDialog now req]"
    "dm_inv m1" "dm_later m m1" "\<And>t. t \<le> now + ActiveDialogTTL \<Longrightarrow> Manager_Get t m1 callID = Some (length (dm_heap m))"
proof
  let ?m1 = "fst (addDialog now m callID (NewDialog now req))"
  show run: "CreateFromInvite now m req = (?m1, Inr (length (dm_heap m)))"
    using callID new by (simp add: CreateFromInvite_def addDialog_def)
  show "dm_heap ?m1 = dm_heap m @ [NewDialog now req]" by (simp add: addDialog_def)
  show later: "dm_later m ?m1" using dm_step_later [OF dm_step.invite [of now m req]] run by simp
  thus "dm_inv ?m1" using inv by (simp add: dm_later_def good_def)
  show "Manager_Get t ?m1 callID = Some (length (dm_heap m))" if "t \<le> now + ActiveDialogTTL" for t
    using ttl.get_put [OF dm_invD(2) [OF inv]] that by (simp add: addDialog_def Manager_Get_def)
qed

lemma Get_cong: "dm_dialogs m' = dm_dialogs m \<Longrightarrow> Manager_Get t m' callID = Manager_Get t m callID"
  by (simp add: Manager_Get_def)

text \<open>Terminating a dialog that is in the store: it has ended, nothing new is routed or recorded.\<close>

lemma app_terminate_spec:
  assumes pool: "pool_reachable (sb_pool sb)" and inv: "dm_inv (sb_dm sb)" and get: "Manager_Get (be_now env) (sb_dm sb) callID = Some r"
    and alive: "\<not> IsTerminated (dlg_at (sb_dm sb) r)"
  shows "IsTerminated (dlg_at (sb_dm (App_Terminate env callID reason sb)) r)" "released (App_Terminate env callID reason sb) r"
    "routed (App_Terminate env callID reason sb) \<subseteq>\<^sub>m routed sb"
proof -
  let ?f = "\<lambda>m. Manager_Terminate (be_parseUri env) (be_dmSession env) (be_dmTx env) (be_now env) (be_now env) m callID reason"
  note rel = onDialogs_release [OF pool inv, where f = ?f and env = env, OF dm_later_ops(1)]
  show ended: "IsTerminated (dlg_at (sb_dm (App_Terminate env callID reason sb)) r)"
    using terminate_ends [OF inv get] rel(3) by (simp add: App_Terminate_def)
  show "released (App_Terminate env callID reason sb) r"
    using rel(1) ended alive Get_ref(1) [OF inv get] by (simp add: ends_released_def App_Terminate_def)
  show "routed (App_Terminate env callID reason sb) \<subseteq>\<^sub>m routed sb"
    using callbacks_spec(5) [of "set_dm (fst (?f (sb_dm sb))) sb" env] pool
    by (auto simp: App_Terminate_def onDialogs_def split_beta map_le_def restrict_map_def)
qed

text \<open>The state when the 183 has been sent.\<close>

definition withMedia :: "string \<times> int \<Rightarrow> session_result \<Rightarrow> dialog \<Rightarrow> dialog" where
  "withMedia client session d =
     SetMediaEndpoint (fst client) (snd client) (sr_SelectedCodec session) (SetSessionID (sr_SessionID session) d)"

definition prepared :: "invite_in \<Rightarrow> nat \<Rightarrow> string \<times> int \<Rightarrow> session_result \<Rightarrow> switchboard \<Rightarrow> switchboard" where
  "prepared i r client session sb =
     (let m1 = upd_dlg r (withMedia client session) (sb_dm sb) in
      set_dm (fst (SendProgress (in_progressOk i) m1 r (sr_SDPBody session)))
        (RecordSession (in_now i) (dlg_CallID (dlg_at (sb_dm sb) r)) (fst client) (snd client) (sr_LocalAddr session) (sr_LocalPort session) (set_dm m1 sb)))"

lemma prepared_spec:
  assumes pool: "pool_reachable (sb_pool sb)" and inv: "dm_inv (sb_dm sb)" and r: "r < length (dm_heap (sb_dm sb))"
  shows "dm_inv (sb_dm (prepared i r client session sb))" "dlg_at (sb_dm (prepared i r client session sb)) r = withMedia client session (dlg_at (sb_dm sb) r)"
    "dm_dialogs (sb_dm (prepared i r client session sb)) = dm_dialogs (sb_dm sb)"
    "length (dm_heap (sb_dm (prepared i r client session sb))) = length (dm_heap (sb_dm sb))"
    "routed (prepared i r client session sb) = routed sb" "pool_reachable (sb_pool (prepared i r client session sb))"
    "recorded (prepared i r client session sb) (dlg_CallID (dlg_at (sb_dm sb) r)) \<noteq> None"
proof -
  let ?m1 = "upd_dlg r (withMedia client session) (sb_dm sb)"
  have "?m1 = upd_dlg r (SetMediaEndpoint (fst client) (snd client) (sr_SelectedCodec session)) (upd_dlg r (SetSessionID (sr_SessionID session)) (sb_dm sb))"
    using r by (simp add: upd_dlg_def withMedia_def)
  hence m1: "dm_later (sb_dm sb) ?m1" "r < length (dm_heap ?m1)"
    using dm_later_trans [OF dm_later_edit(1) [OF r] dm_later_edit(2)] r by simp_all
  have "dm_later (sb_dm sb) (sb_dm (prepared i r client session sb))"
    using dm_later_trans [OF m1(1) dm_step_later [OF dm_step.progress [OF m1(2)]]] by (simp add: prepared_def Let_def)
  thus "dm_inv (sb_dm (prepared i r client session sb))" using inv by (simp add: dm_later_def good_def)
qed (use assms in \<open>simp_all add: prepared_def Let_def SendProgress_def RecordSession_def set_dm_def dlg_at_def\<close>)

abbreviation sendOK :: "invite_in \<Rightarrow> nat \<Rightarrow> session_result \<Rightarrow> dialog_manager \<Rightarrow> dialog_manager \<times> dm_error option" where
  "sendOK i r session m \<equiv> SendOK (in_readInvite i) (in_response i) (be_now (in_env i)) m r (sr_SDPBody session)"

lemma answer_stages:
  assumes "in_sleep i = id"
  shows "answerInvite i r client session sb =
    (let sb4 = set_dm (fst (sendOK i r session (sb_dm (prepared i r client session sb)))) (prepared i r client session sb) in
     case snd (sendOK i r session (sb_dm (prepared i r client session sb))) of
       None \<Rightarrow> (sb4, Some r)
     | Some err \<Rightarrow> (App_Terminate (in_env i) (dlg_CallID (dlg_at (sb_dm sb) r)) ReasonError (set_pool (fst (Pool_DestroySession (be_ordS (in_env i))
          (be_rpc (in_env i) (sr_SessionID session)) (sr_SessionID session) TerminateReasonError (sb_pool sb4))) sb4), None))"
proof -
  have "onDialogs env (sendOK i r session) v = (set_dm (fst (sendOK i r session (sb_dm v))) v, snd (sendOK i r session (sb_dm v)))" for env v
    by (simp add: onDialogs_def runCallbacks_def split_beta)
  thus ?thesis
    using assms by (auto simp: answerInvite_def prepared_def withMedia_def [abs_def] Let_def split: option.split)
qed

lemma sendOK_spec:
  assumes inv: "dm_inv m" and r: "r < length (dm_heap m)" and d: "dlg_Direction (dlg_at m r) = DirectionInbound" "dlg_State (dlg_at m r) = StateEarly"
  shows "dm_inv (fst (sendOK i r session m))" "dm_dialogs (fst (sendOK i r session m)) = dm_dialogs m"
    "dlg_SessionID (dlg_at (fst (sendOK i r session m)) r) = dlg_SessionID (dlg_at m r)"
    "dlg_State (dlg_at (fst (sendOK i r session m)) r) = (if snd (sendOK i r session m) = None then StateWaitingACK else StateEarly)"
proof -
  have sid: "dlg_SessionID (SetInviteResponse resp x) = dlg_SessionID x" for resp x
    by (simp add: SetInviteResponse_def Let_def split: option.split)
  show "dm_inv (fst (sendOK i r session m))"
    using dm_step_good [OF dm_step.send_ok [OF r d(1)]] inv by (simp add: good_def)
  show "dm_dialogs (fst (sendOK i r session m)) = dm_dialogs m" by (simp add: SendOK_def Let_def split: option.split)
  show "dlg_SessionID (dlg_at (fst (sendOK i r session m)) r) = dlg_SessionID (dlg_at m r)"
    "dlg_State (dlg_at (fst (sendOK i r session m)) r) = (if snd (sendOK i r session m) = None then StateWaitingACK else StateEarly)"
    using r d(2) by (auto simp: SendOK_def Let_def dlg_at_def sid tryTransition_def TransitionTo_def CanTransitionTo_cases SetInviteResponse_fields
        SetSession_def split: option.splits)
qed

lemma answer_spec:
  assumes pool: "pool_reachable (sb_pool sb)" and inv: "dm_inv (sb_dm sb)" and r: "r < length (dm_heap (sb_dm sb))"
    and d: "dlg_Direction (dlg_at (sb_dm sb) r) = DirectionInbound" "dlg_State (dlg_at (sb_dm sb) r) = StateEarly"
    and get: "Manager_Get (be_now (in_env i)) (sb_dm sb) (dlg_CallID (dlg_at (sb_dm sb) r)) = Some r"
    and sleep: "in_sleep i = id" and routed: "routed sb = R(sr_SessionID session \<mapsto> n)"
    and run: "answerInvite i r client session sb = (sb', res)"
  shows "case res of
      Some r' \<Rightarrow> r' = r \<and> dlg_State (dlg_at (sb_dm sb') r) = StateWaitingACK \<and> dlg_SessionID (dlg_at (sb_dm sb') r) = sr_SessionID session \<and>
        routed sb' = R(sr_SessionID session \<mapsto> n) \<and> recorded sb' (dlg_CallID (dlg_at (sb_dm sb) r)) \<noteq> None
    | None \<Rightarrow> IsTerminated (dlg_at (sb_dm sb') r) \<and> released sb' r \<and> routed sb' \<subseteq>\<^sub>m R"
proof -
  let ?c = "dlg_CallID (dlg_at (sb_dm sb) r)" and ?sb3 = "prepared i r client session sb"
  note prep = prepared_spec [OF pool inv r, of i client session]
  have d3: "dlg_Direction (dlg_at (sb_dm ?sb3) r) = DirectionInbound" "dlg_State (dlg_at (sb_dm ?sb3) r) = StateEarly"
    "dlg_SessionID (dlg_at (sb_dm ?sb3) r) = sr_SessionID session"
    using d by (simp_all add: prep(2) withMedia_def SetMediaEndpoint_def SetSessionID_def)
  define m4 where "m4 = fst (sendOK i r session (sb_dm ?sb3))"
  note ok = sendOK_spec [OF prep(1) _ d3(1,2), of i session, folded m4_def]
  have r3: "r < length (dm_heap (sb_dm ?sb3))" using r prep(4) by simp
  note run' = run [unfolded answer_stages [OF sleep] Let_def m4_def [symmetric]]
  show ?thesis
  proof (cases "snd (sendOK i r session (sb_dm ?sb3))")
    case None
    thus ?thesis using run' ok(3,4) [OF r3] d3 prep routed by auto
  next
    case (Some err)
    let ?v = "set_pool (fst (Pool_DestroySession (be_ordS (in_env i)) (be_rpc (in_env i) (sr_SessionID session)) (sr_SessionID session) TerminateReasonError
       (sb_pool (set_dm m4 ?sb3)))) (set_dm m4 ?sb3)"
    have res: "sb' = App_Terminate (in_env i) ?c ReasonError ?v" "res = None" using run' Some by simp_all
    have v: "pool_reachable (sb_pool ?v)" "routed ?v = (routed sb)(sr_SessionID session := None)" "sb_dm ?v = m4"
      using destroy_session [OF prep(6)] prep(5) by simp_all
    have inv4: "dm_inv (sb_dm ?v)" using ok(1) [OF r3] by simp
    have get4: "Manager_Get (be_now (in_env i)) (sb_dm ?v) ?c = Some r" using get prep(3) ok(2) [OF r3] v(3) Get_cong by metis
    have alive: "\<not> IsTerminated (dlg_at (sb_dm ?v) r)" using ok(4) [OF r3] Some by (simp add: IsTerminated_def)
    note fin = app_terminate_spec [OF v(1) inv4 get4 alive, of ReasonError, folded res(1)]
    have "routed ?v \<subseteq>\<^sub>m R" using v(2) routed by (auto simp: map_le_def)
    thus ?thesis using fin res(2) map_le_trans by auto
  qed
qed

lemma reject_spec:
  assumes "pool_reachable (sb_pool sb)" and "dm_inv (sb_dm sb)" and "Manager_Get (be_now (in_env i)) (sb_dm sb) callID = Some r"
    and "\<not> IsTerminated (dlg_at (sb_dm sb) r)"
  shows "IsTerminated (dlg_at (sb_dm (rejectInvite i callID sb)) r)" "released (rejectInvite i callID sb) r" "routed (rejectInvite i callID sb) \<subseteq>\<^sub>m routed sb"
proof -
  let ?m = "if in_respondOk i then send_out (OnRequestTx ''INVITE'' 406) (sb_dm sb) else sb_dm sb"
  have "dm_inv ?m" using assms(2) good_send [of "sb_dm sb" "OnRequestTx ''INVITE'' 406"] by (simp add: good_def)
  moreover have "Manager_Get (be_now (in_env i)) ?m callID = Some r" "\<not> IsTerminated (dlg_at ?m r)"
    using assms(3,4) Get_cong [of ?m "sb_dm sb"] by simp_all
  ultimately show "IsTerminated (dlg_at (sb_dm (rejectInvite i callID sb)) r)" "released (rejectInvite i callID sb) r"
    "routed (rejectInvite i callID sb) \<subseteq>\<^sub>m routed sb"
    using app_terminate_spec [of "set_dm ?m sb" "in_env i" callID r ReasonError] assms(1) unfolding rejectInvite_def by simp_all
qed

definition offerMedia :: "invite_in \<Rightarrow> sip_request \<Rightarrow> nat \<Rightarrow> string \<Rightarrow> switchboard \<Rightarrow> switchboard \<times> nat option" where
  "offerMedia i req r callID sb =
     (case extractSDPInfo (in_unmarshal i) req of
        Inl err \<Rightarrow> (rejectInvite i callID sb, None)
      | Inr (clientAddr, clientPort, codecs) \<Rightarrow>
          (case Pool_CreateSession (in_rpc i) (in_create i)
                  \<lparr>si_CallID = callID, si_RemoteAddr = clientAddr, si_RemotePort = clientPort, si_OfferedCodecs = codecs\<rparr> (sb_pool sb) of
             (p, Inl err) \<Rightarrow> (rejectInvite i callID (set_pool p sb), None)
           | (p, Inr session) \<Rightarrow> answerInvite i r (clientAddr, clientPort) session (set_pool p sb)))"

lemma invite_stages:
  assumes "CreateFromInvite (in_now i) (sb_dm sb) req = (m0, Inr r)"
  shows "HandleINVITE i req sb =
    (let m1 = (case parseSourceAddr (rq_Source req) of (ip, port) \<Rightarrow> if ip \<noteq> '''' then upd_dlg r (SetRemoteEndpoint ip port) m0 else m0);
         t = SendTrying (in_tryingOk i) (in_now i) m1 r in
     if snd t = None then offerMedia i req r (dlg_CallID (dlg_at m0 r)) (set_dm (fst t) sb) else (set_dm (fst t) sb, None))"
proof -
  obtain m1 where m1: "(case parseSourceAddr (rq_Source req) of (ip, port) \<Rightarrow> if ip \<noteq> '''' then upd_dlg r (SetRemoteEndpoint ip port) m0 else m0) = m1"
    by blast
  obtain m2 e where t: "SendTrying (in_tryingOk i) (in_now i) m1 r = (m2, e)" by fastforce
  show ?thesis
    unfolding HandleINVITE_def assms prod.case sum.case Let_def m1 t fst_conv snd_conv offerMedia_def set_dm_frame by (cases e) simp_all
qed

lemma offer_spec:
  assumes pool: "pool_reachable (sb_pool sb)" and fresh: "env_fresh (in_create i) (pool_holds (sb_pool sb))"
    and inv: "dm_inv (sb_dm sb)" and r: "r < length (dm_heap (sb_dm sb))" and sleep: "in_sleep i = id"
    and d: "dlg_Direction (dlg_at (sb_dm sb) r) = DirectionInbound" "dlg_State (dlg_at (sb_dm sb) r) = StateEarly"
      "dlg_CallID (dlg_at (sb_dm sb) r) = callID"
    and get: "Manager_Get (be_now (in_env i)) (sb_dm sb) callID = Some r" and run: "offerMedia i req r callID sb = (sb', res)"
  shows "case res of
      Some r' \<Rightarrow> r' = r \<and> dlg_State (dlg_at (sb_dm sb') r) = StateWaitingACK \<and>
        (\<exists>n. routed sb' = (routed sb)(dlg_SessionID (dlg_at (sb_dm sb') r) \<mapsto> n)) \<and> recorded sb' callID \<noteq> None
    | None \<Rightarrow> routed sb' \<subseteq>\<^sub>m routed sb \<and> IsTerminated (dlg_at (sb_dm sb') r) \<and> released sb' r"
proof -
  have alive: "\<not> IsTerminated (dlg_at (sb_dm sb) r)" using d(2) by (simp add: IsTerminated_def)
  consider "sb' = rejectInvite i callID sb" "res = None"
    | p e info where "Pool_CreateSession (in_rpc i) (in_create i) info (sb_pool sb) = (p, Inl e)" "sb' = rejectInvite i callID (set_pool p sb)" "res = None"
    | p session info client where "Pool_CreateSession (in_rpc i) (in_create i) info (sb_pool sb) = (p, Inr session)"
        "answerInvite i r client session (set_pool p sb) = (sb', res)"
    using run by (auto simp: offerMedia_def split: sum.splits prod.splits)
  thus ?thesis
  proof cases
    case 1
    thus ?thesis using reject_spec [OF pool inv get alive] by simp
  next
    case 2
    note c = create_balanced [OF pool fresh 2(1)]
    show ?thesis using reject_spec [of "set_pool p sb" i callID r] c(1,2) inv get alive 2 by auto
  next
    case 3
    note c = create_balanced [OF pool fresh 3(1)]
    obtain n where n: "routed (set_pool p sb) = (routed sb)(sr_SessionID session \<mapsto> n)" using c(3) by auto
    show ?thesis using answer_spec [OF _ _ _ _ _ _ sleep n 3(2)] c(1) inv r d get by (auto split: option.splits)
  qed
qed

text \<open>
  Property C13. An INVITE with a new Call-ID, handled with nothing else happening during the half second before the
  200: either the call is answered, one media session has been added to those routed, and it is the
  session of the new dialog, which waits for the ACK; or the call is refused, and then no media
  session is left over, and the dialog has ended. The exception is a 100 response that cannot
  be sent: the handler gives up and leaves the dialog in its first state.
\<close>

theorem invite_media:
  assumes dialogs: "dm_reachable t (sb_dm sb)" and pool: "pool_reachable (sb_pool sb)" and fresh: "env_fresh (in_create i) (pool_holds (sb_pool sb))"
    and callID: "callid_or_empty (rq_Headers req) = callID" "callID \<noteq> ''''" and new: "Manager_Get (in_now i) (sb_dm sb) callID = None"
    and clock: "be_now (in_env i) \<le> in_now i + ActiveDialogTTL" and sleep: "in_sleep i = id"
    and run: "HandleINVITE i req sb = (sb', res)" and r: "r = length (dm_heap (sb_dm sb))"
  shows "case res of
      Some r' \<Rightarrow> r' = r \<and> dlg_State (dlg_at (sb_dm sb') r) = StateWaitingACK \<and>
        (\<exists>n. routed sb' = (routed sb)(dlg_SessionID (dlg_at (sb_dm sb') r) \<mapsto> n)) \<and> recorded sb' callID \<noteq> None
    | None \<Rightarrow> routed sb' \<subseteq>\<^sub>m routed sb \<and>
        (if in_tryingOk i then IsTerminated (dlg_at (sb_dm sb') r) \<and> released sb' r
         else dlg_State (dlg_at (sb_dm sb') r) = StateInitial)"
proof -
  note inv = dm_reachable_inv [OF dialogs]
  obtain m0 where m0: "CreateFromInvite (in_now i) (sb_dm sb) req = (m0, Inr r)" "dm_heap m0 = dm_heap (sb_dm sb) @ [NewDialog (in_now i) req]"
    "dm_inv m0" "\<And>t. t \<le> in_now i + ActiveDialogTTL \<Longrightarrow> Manager_Get t m0 callID = Some r"
    using new_dialog [OF inv callID new] r by metis
  define m1 where "m1 = (case parseSourceAddr (rq_Source req) of (ip, port) \<Rightarrow> if ip \<noteq> '''' then upd_dlg r (SetRemoteEndpoint ip port) m0 else m0)"
  have r0: "r < length (dm_heap m0)" "dlg_at m0 r = NewDialog (in_now i) req" using m0(2) r by (simp_all add: dlg_at_def nth_append)
  have m1: "dm_inv m1" "r < length (dm_heap m1)" "dm_dialogs m1 = dm_dialogs m0" "dlg_CallID (dlg_at m1 r) = callID"
    "dlg_Direction (dlg_at m1 r) = DirectionInbound" "dlg_State (dlg_at m1 r) = StateInitial" "dlg_Transaction (dlg_at m1 r)"
    using dm_later_edit(3) [OF r0(1)] m0(3) r0 callID(1)
    by (auto simp: m1_def dm_later_def good_def dlg_at_def SetRemoteEndpoint_def NewDialog_def split: prod.split)
  define m2 where "m2 = upd_dlg r (tryTransition (in_now i) StateEarly) (send_out (OnInviteTx r 100) m1)"
  have 100: "SendTrying (in_tryingOk i) (in_now i) m1 r = (if in_tryingOk i then (m2, None) else (m1, Some RespondFailed))"
    using m1(7) by (simp add: SendTrying_def m2_def)
  have call: "dlg_CallID (dlg_at m0 r) = callID" using r0(2) callID(1) by (simp add: NewDialog_def)
  have run': "(sb', res) = (if in_tryingOk i then offerMedia i req r callID (set_dm m2 sb) else (set_dm m1 sb, None))"
    using run 100 by (simp add: invite_stages [OF m0(1)] Let_def m1_def [symmetric] call split: if_splits)
  show ?thesis
  proof (cases "in_tryingOk i")
    case False
    thus ?thesis using run' m1(6) by simp
  next
    case True
    have "dm_inv m2" using dm_step_good [OF dm_step.trying [OF m1(2), of "in_now i" True]] m1(1) 100 True by (simp add: good_def)
    moreover have "dlg_at m2 r = tryTransition (in_now i) StateEarly (dlg_at m1 r)" using m1(2) by (simp add: m2_def dlg_at_def)
    hence "dlg_State (dlg_at m2 r) = StateEarly" "dlg_Direction (dlg_at m2 r) = DirectionInbound" "dlg_CallID (dlg_at m2 r) = callID"
      using m1(4-6) by (simp_all add: tryTransition_def TransitionTo_def CanTransitionTo_cases)
    moreover have "Manager_Get (be_now (in_env i)) m2 callID = Some r"
      using m0(4) [OF clock] Get_cong [of m2 m0] m1(3) by (simp add: m2_def)
    moreover have "r < length (dm_heap m2)" using m1(2) by (simp add: m2_def)
    ultimately show ?thesis
      using offer_spec [of "set_dm m2 sb" i r callID req sb' res] run' True pool fresh sleep by (auto split: option.splits)
  qed
qed

section \<open>Examples\<close>

definition ex_call :: switchboard where
  "ex_call = \<lparr>sb_calls = ex_w0\<lparr>w_dm := upd_dlg 0 (SetSessionID ''a'') ex_dm4\<rparr>, sb_loc = NewStore DefaultStoreConfig,
     sb_sessions = [(''call1'', \<lparr>sn_CallID = ''call1'', sn_ClientAddr = ''10.0.0.9'', sn_ClientPort = 4000, sn_ServerAddr = ''rtp'',
       sn_ServerPort = 10000, sn_StartTime = 2\<rparr>)]\<rparr>"

definition ex_renv :: route_env where
  "ex_renv = \<lparr>ro_now = 4, ro_b2b = ex_benv, ro_depth = 1, ro_respondOk = True, ro_inviteOk = True\<rparr>"

lemma ex_call_reachable: "dm_reachable 3 (sb_dm ex_call)" "pool_reachable (sb_pool ex_call)" "call_reachable (sb_calls ex_call)"
proof -
  have "0 < length (dm_heap ex_dm4)" by (simp add: ex_dm_4)
  thus "dm_reachable 3 (sb_dm ex_call)"
    using dm_reachable.step [OF ex_dm_reachable(2), of 3] dm_step.session_id by (simp add: ex_call_def)
qed (simp_all add: ex_call_def ex_w0_def ex_p1_reachable call_reachable.init)

lemma ex_call_eval:
  "dlg_SessionID (dlg_at (sb_dm ex_call) 0) = ''a''" "dlg_CallID (dlg_at (sb_dm ex_call) 0) = ''call1''"
  "\<not> IsTerminated (dlg_at (sb_dm ex_call) 0)" "length (dm_heap (sb_dm ex_call)) = 1" "routed ex_call ''a'' = Some ''n2''"
  "t \<le> secs 14400 \<Longrightarrow> Manager_Get t (sb_dm ex_call) ''call1'' = Some 0"
proof -
  have "dlg_at ex_dm4 0 = (SetInviteResponse ex_ok (SetSession (NewDialog 0 ex_invite)))\<lparr>dlg_State := StateConfirmed, dlg_StateChangedAt := 3\<rparr>"
    by (simp add: dlg_at_def ex_dm_4)
  hence d: "dlg_CallID (dlg_at ex_dm4 0) = ''call1''" "dlg_State (dlg_at ex_dm4 0) = StateConfirmed"
    by (simp_all add: NewDialog_def SetInviteResponse_def SetSession_def ex_ok_def ex_addr_def ex_invite_def callid_or_empty_def)
  have at0: "dlg_at (sb_dm ex_call) 0 = SetSessionID ''a'' (dlg_at ex_dm4 0)" by (simp add: ex_call_def dlg_at_def ex_dm_4)
  show "dlg_SessionID (dlg_at (sb_dm ex_call) 0) = ''a''" "dlg_CallID (dlg_at (sb_dm ex_call) 0) = ''call1''" "\<not> IsTerminated (dlg_at (sb_dm ex_call) 0)"
    using d by (simp_all add: at0 SetSessionID_def IsTerminated_def)
  show "length (dm_heap (sb_dm ex_call)) = 1" "routed ex_call ''a'' = Some ''n2''" by (simp_all add: ex_call_def ex_dm_4 ex_w0_def ex_p1_eval)
  show "Manager_Get t (sb_dm ex_call) ''call1'' = Some 0" if "t \<le> secs 14400"
    using ex_dm_1(2) [of t] that Get_cong [of "sb_dm ex_call" ex_dm1 t] by (simp add: ex_call_def ex_dm_4)
qed

theorem ended_calls_release_media_witness:
  "routed ex_call ''a'' \<noteq> None \<and> ends_released ex_call (App_Terminate ex_benv ''call1'' ReasonLocalBYE ex_call)"
  using ended_calls_release_media [OF app_step.terminate ex_call_reachable(1,2), of ex_benv "''call1''" ReasonLocalBYE]
  by (simp add: ex_call_eval)

theorem bye_ends_call_witness:
  "\<exists>sb'. HandleBYE ex_renv ex_invite ex_call = Some sb' \<and> IsTerminated (dlg_at (sb_dm sb') 0) \<and> released sb' 0"
proof -
  have legs: "GetLegByCallID (sb_calls ex_call) c = None" for c by (simp add: GetLegByCallID_def ex_call_def ex_w0_def)
  have env: "is_range (be_cbOrd (ro_b2b ex_renv))" "live_legs (sb_calls ex_call) < ro_depth ex_renv" "ro_respondOk ex_renv"
    by (simp_all add: ex_renv_def ex_benv_def is_range_def live_legs_def ex_call_def ex_w0_def)
  show ?thesis
    using bye_ends_call [OF ex_call_reachable(3) _ ex_call_reachable(1,2) env ex_invite_callid, unfolded legs option.case]
      ex_call_eval(6) [of "ro_now ex_renv"] by (auto simp: ex_renv_def)
qed

text \<open>A call to a number for which there is no route.\<close>

theorem dialplan_ends_call_witness:
  "\<exists>sb'. executeDialplan \<lparr>ex_dialplan = \<lparr>dp_routes = Some [], dp_path = ''''\<rparr>, ex_registry = []\<rparr> None ex_benv [] 0 ''999'' ex_call = Some (sb', NoRoute) \<and>
     IsTerminated (dlg_at (sb_dm sb') 0) \<and> released sb' 0"
proof (rule dialplan_ends_call [OF ex_call_reachable(1)])
  show "Executor_Execute \<lparr>ex_dialplan = \<lparr>dp_routes = Some [], dp_path = ''''\<rparr>, ex_registry = []\<rparr> [] (dialplanSession None 0 ''999'' ex_call) (sb_calls ex_call) =
      Some (dialplanSession None 0 ''999'' ex_call, sb_calls ex_call, NoRoute)"
    by (simp add: Executor_Execute_def Dialplan_Match_def)
qed (use ex_call_eval ex_call_reachable in \<open>simp_all add: acts_later_def ex_benv_def\<close>)

definition ex_request :: sip_request where
  "ex_request = ex_invite\<lparr>rq_Headers := [FromHeader (ex_addr ''100'' ''ta''), ToHeader (bare_addr (ex_uri ''200'')), CallIDHeader ''c1'', CSeqHeader 7 ''INVITE''],
     rq_Body := Some ''v=0''\<rparr>"

definition ex_in :: invite_in where
  "ex_in = \<lparr>in_env = ex_benv, in_now = 5,
     in_unmarshal = (\<lambda>_. Some \<lparr>sp_Media = [\<lparr>sm_Port = 4000, sm_Formats = [''0''], sm_ConnAddr = None\<rparr>], sp_ConnAddr = Some ''10.0.0.9''\<rparr>),
     in_tryingOk = True, in_respondOk = True, in_progressOk = True, in_readInvite = True, in_response = Some ex_ok, in_rpc = Delivered,
     in_create = ex_cenv ''a'', in_sleep = id\<rparr>"

definition ex_idle :: switchboard where
  "ex_idle = ex_call\<lparr>sb_calls := ex_w0\<lparr>w_dm := Manager_SetOnTerminated NewManager, w_pool := ex_p0\<rparr>, sb_sessions := []\<rparr>"

theorem invite_media_witness:
  "\<exists>sb'. HandleINVITE ex_in ex_request ex_idle = (sb', Some 0) \<and> dlg_State (dlg_at (sb_dm sb') 0) = StateWaitingACK \<and>
     (\<exists>n. routed sb' = (routed ex_idle)(dlg_SessionID (dlg_at (sb_dm sb') 0) \<mapsto> n)) \<and> recorded sb' ''c1'' \<noteq> None"
proof -
  have idle: "sb_dm ex_idle = Manager_SetOnTerminated NewManager" "sb_pool ex_idle = ex_p0" by (simp_all add: ex_idle_def)
  have dm: "dm_reachable 0 (sb_dm ex_idle)" "length (dm_heap (sb_dm ex_idle)) = 0" "Manager_Get t (sb_dm ex_idle) c = None" for t c
    using dm_reachable.init by (simp_all add: idle Manager_SetOnTerminated_def NewManager_def Manager_Get_def TTL_Get_def TTL_SetOnEvict_def NewTTLStore_def)
  have pool: "pool_reachable (sb_pool ex_idle)" "env_fresh (in_create ex_in) (pool_holds (sb_pool ex_idle))"
    by (simp_all add: idle ex_p0_reachable ex_in_def env_fresh_def ex_cenv_def ex_p0_holds is_range_def)
  have req: "callid_or_empty (rq_Headers ex_request) = ''c1''" by (simp add: ex_request_def callid_or_empty_def)
  obtain sb' res where run: "HandleINVITE ex_in ex_request ex_idle = (sb', res)" by fastforce
  have trying: "in_tryingOk ex_in" by (simp add: ex_in_def)
  have ok: "snd (answerInvite ex_in r client session sb) = Some r" for r client session sb
    by (subst answer_stages) (simp_all add: SendOK_def ex_in_def Let_def)
  have offer: "snd (offerMedia ex_in ex_request r ''c1'' (set_dm m ex_idle)) = Some r" for r m
    using ok ex_p1_eval(1) by (simp add: offerMedia_def extractSDPInfo_def ex_request_def idle) (simp add: ex_in_def ex_info_def idle)
  obtain m0 where m0: "CreateFromInvite (in_now ex_in) (sb_dm ex_idle) ex_request = (m0, Inr 0)" "dm_heap m0 = [NewDialog (in_now ex_in) ex_request]"
    using new_dialog [OF dm_reachable_inv [OF dm(1)] req _ dm(3), of "in_now ex_in"] dm(2) by auto
  have "dlg_CallID (dlg_at m0 0) = ''c1''" "dlg_Transaction (dlg_at (upd_dlg 0 (SetRemoteEndpoint ip port) m0) 0)" "dlg_Transaction (dlg_at m0 0)" for ip port
    using m0(2) req by (simp_all add: dlg_at_def NewDialog_def SetRemoteEndpoint_def)
  hence "snd (HandleINVITE ex_in ex_request ex_idle) = Some 0"
    using offer by (simp add: invite_stages [OF m0(1)] Let_def SendTrying_def trying split: prod.split)
  thus ?thesis
    using invite_media [OF dm(1) pool req _ dm(3) _ _ run refl] run by (simp add: dm(2) ex_in_def ex_benv_def ActiveDialogTTL_def)
qed

end
