(* ===== verification/Http_Props.thy ===== *)
theory Http_Props
  imports Http_Api Routing_Props
begin

text \<open>
  What the HTTP interface answers: the shape of every reply and which requests change the state, the
  registrations it lists, and a drain that is started, watched and cancelled through it.
\<close>

section \<open>Replies\<close>

definition reply_ok :: "http_response \<Rightarrow> bool" where
  "reply_ok r \<longleftrightarrow>
     (case hr_Body r of
        TextBody t \<Rightarrow> hr_Status r \<in> {400, 404, 405, 503} \<and> hr_ContentType r = text_plain
      | JsonBody j \<Rightarrow> hr_Status r \<in> {200, 202}
      | EmptyBody \<Rightarrow> hr_Status r = 200)"

named_theorems handlers \<open>the handlers of the interface\<close>

declare handleHealth_def [handlers] handleStats_def [handlers] handleRegistrations_def [handlers]
  handleRegistrationByAOR_def [handlers] handleDialogs_def [handlers] handleDialogByID_def [handlers]
  handleSessions_def [handlers] handleRtpManagers_def [handlers] handleShutdown_def [handlers]
  handleGetDrainStatus_def [handlers] handleStartDrain_def [handlers] handleCancelDrain_def [handlers]

lemma reply_ok_basic [simp]:
  "reply_ok (writeJSON v)" "reply_ok (acceptedJSON j)" "reply_ok (httpError t s) \<longleftrightarrow> s \<in> {400, 404, 405, 503}"
  by (auto simp: reply_ok_def writeJSON_def acceptedJSON_def httpError_def split: option.splits)

lemma status_basic [simp]:
  "hr_Status (writeJSON v) = 200" "hr_Status (acceptedJSON j) = 202" "hr_Status (httpError t s) = s"
  by (simp_all add: writeJSON_def acceptedJSON_def httpError_def)

lemma handler_replies:
  "reply_ok (handleHealth env a)" "reply_ok (handleStats env a)" "reply_ok (handleRegistrations env req a)"
  "reply_ok (handleRegistrationByAOR env req a)" "reply_ok (handleDialogs env req a)" "reply_ok (handleDialogByID env req a)"
  "reply_ok (handleSessions env req a)" "reply_ok (handleRtpManagers env req a)" "reply_ok handleShutdown"
  "reply_ok (handleGetDrainStatus env n a)" "reply_ok (fst (snd (handleStartDrain env req n a)))"
  "reply_ok (snd (handleCancelDrain env n a))"
  by (simp_all add: handlers Let_def split: option.split sum.split prod.split)

lemma handler_status:
  "hr_Status (handleHealth env a) \<noteq> 202" "hr_Status (handleStats env a) \<noteq> 202" "hr_Status (handleRegistrations env req a) \<noteq> 202"
  "hr_Status (handleRegistrationByAOR env req a) \<noteq> 202" "hr_Status (handleDialogs env req a) \<noteq> 202"
  "hr_Status (handleDialogByID env req a) \<noteq> 202" "hr_Status (handleSessions env req a) \<noteq> 202"
  "hr_Status (handleRtpManagers env req a) \<noteq> 202" "hr_Status handleShutdown \<noteq> 202"
  "hr_Status (handleGetDrainStatus env n a) \<noteq> 202" "hr_Status (snd (handleCancelDrain env n a)) \<noteq> 202"
  "(snd (snd (handleStartDrain env req n a)) = None) = (hr_Status (fst (snd (handleStartDrain env req n a))) \<noteq> 202)"
  by (simp_all add: handlers Let_def split: option.split sum.split prod.split)

lemma drain_replies:
  "reply_ok (fst (snd (handleRtpManagerDrain env req a)))"
  "(snd (snd (handleRtpManagerDrain env req a)) = None) = (hr_Status (fst (snd (handleRtpManagerDrain env req a))) \<noteq> 202)"
  "fst (handleRtpManagerDrain env req a) = a \<or> hq_Method req = ''POST'' \<or> hq_Method req = ''DELETE''"
  by (simp_all add: handleRtpManagerDrain_def Let_def case_prod_unfold handler_replies handler_status)


section \<open>Registrations\<close>

lemma ListByAOR_foldl:
  fixes acc :: "(string, 'b list) gomap"
  assumes "distinct (map fst es)" and "fst ` set es \<inter> gm_keys acc = {}"
  shows "foldl (\<lambda>result e. let bs = f (snd e) in if length bs > 0 then gm_set result (fst e) bs else result) acc es =
    acc @ filter (\<lambda>e. snd e \<noteq> []) (map (\<lambda>e. (fst e, f (snd e))) es)"
  using assms
proof (induction es arbitrary: acc)
  case (Cons e es)
  have new: "gm_set acc (fst e) v = acc @ [(fst e, v)]" for v
    using Cons.prems(2) by (induction acc) (auto simp: gm_set_def gm_keys_def)
  show ?case using Cons.prems Cons.IH by (auto simp: new Let_def gm_keys_def)
qed simp

lemma concat_snd_filter: "concat (map snd (filter (\<lambda>e. snd e \<noteq> []) es)) = concat (map snd es)"
  by (induction es) auto

lemma mset_concat_perm: "mset xs = mset ys \<Longrightarrow> mset (concat xs) = mset (concat ys)"
  by (simp add: mset_concat mset_map [symmetric] sum_mset_sum_list [symmetric] del: mset_map sum_mset_sum_list) (metis mset_map)

lemma listed_mset:
  assumes "loc_inv (sb_loc (ap_board a))" and "is_range (ae_ordA env)" and "is_range (ae_regOrd env)"
  shows "mset (listedBindings env a) = mset (Store_List (ae_ordA env) (ae_ord env) (ae_now env) (sb_loc (ap_board a)))"
proof -
  let ?es = "ae_ordA env (TTL_All (ae_now env) (loc_bindings (sb_loc (ap_board a))))"
  let ?f = "\<lambda>m. activeOf (ae_now env) (ae_ord env m)"
  have "distinct (map fst ?es)"
    using is_range_wf [OF assms(2)] All_entries(1) [OF assms(1)] by (simp add: gm_wf_def)
  hence regs: "allRegistrations env a = filter (\<lambda>e. snd e \<noteq> []) (map (\<lambda>e. (fst e, ?f (snd e))) ?es)"
    using ListByAOR_foldl [of ?es "[]" ?f]
    by (simp add: allRegistrations_def GetAllRegistrations_def Store_ListByAOR_def gm_keys_def)
  have "mset (listedBindings env a) = mset (concat (map snd (allRegistrations env a)))"
    unfolding listedBindings_def using assms(3) by (intro mset_concat_perm) (metis is_range_def mset_map)
  thus ?thesis by (simp add: regs concat_snd_filter Store_List_def comp_def)
qed

lemma total_fold: "fold (\<lambda>e n. n + int (length (snd e))) es k = k + int (length (concat (map snd es)))"
  by (induction es arbitrary: k) auto

lemma those_None: "those xs = None \<longleftrightarrow> None \<in> set xs"
  by (induction xs) (auto split: option.splits)

lemma jarray_None: "jarray f xs = None \<longleftrightarrow> (\<exists>x \<in> set xs. f x = None)"
  by (force simp: jarray_def those_None)

lemma writeJSON_empty: "hr_Body (writeJSON v) = EmptyBody \<longleftrightarrow> v = None"
  by (cases v) (simp_all add: writeJSON_def)

definition finite_q :: "binding \<Rightarrow> bool" where
  "finite_q b \<longleftrightarrow> (\<exists>q. b_QValue b = F32 q)"

lemma bindingResponse_None: "bindingResponse env b = None \<longleftrightarrow> \<not> finite_q b"
  by (cases "b_QValue b") (auto simp: bindingResponse_def qField_def finite_q_def)

abbreviation GET :: "string \<Rightarrow> http_request" where
  "GET path \<equiv> \<lparr>hq_Method = ''GET'', hq_Path = path, hq_Query = []\<rparr>"

text \<open>
  \<open>GET /api/v1/registrations\<close> encodes each active binding of the location service exactly once, and
  \<open>total_bindings\<close> of \<open>GET /api/v1/stats\<close> is their number; but when one binding has a q value that is not
  finite, the whole list has no body.
\<close>

theorem registrations_listed:
  assumes "loc_reachable sha256 cfg (sb_loc (ap_board a))"
    and "is_range (ae_ordA env)" and "is_range (ae_ord env)" and "is_range (ae_regOrd env)"
  shows "\<exists>bs. distinct bs \<and> set bs = {b. \<exists>aor i. active (ae_now env) (sb_loc (ap_board a)) aor i = Some b} \<and>
    fst (snd (serve env (GET ''/api/v1/registrations'') a)) = writeJSON (jarray (bindingResponse env) bs) \<and>
    (hr_Body (fst (snd (serve env (GET ''/api/v1/registrations'') a))) = EmptyBody \<longleftrightarrow> (\<exists>b \<in> set bs. \<not> finite_q b)) \<and>
    (\<exists>fields. hr_Body (fst (snd (serve env (GET ''/api/v1/stats'') a))) = JsonBody (JObj fields) \<and>
       map_of fields ''total_bindings'' = Some (jint (int (length bs))))"
proof -
  let ?bs = "listedBindings env a"
  note inv = conjunct1 [OF loc_reachable_inv [OF assms(1)]]
  note m = listed_mset [OF inv assms(2,4)]
  have "distinct ?bs"
    using List_active(1) [OF inv assms(2,3)] mset_eq_imp_distinct_iff [OF m] by blast
  moreover have "set ?bs = {b. \<exists>aor i. active (ae_now env) (sb_loc (ap_board a)) aor i = Some b}"
    using List_active(2) [OF inv assms(2,3)] mset_eq_setD [OF m] by blast
  moreover have reg: "fst (snd (serve env (GET ''/api/v1/registrations'') a)) = writeJSON (jarray (bindingResponse env) ?bs)"
    by (simp add: serve_def muxHandler_def mux_def handleRegistrations_def)
  moreover have "hr_Body (writeJSON (jarray (bindingResponse env) ?bs)) = EmptyBody \<longleftrightarrow> (\<exists>b \<in> set ?bs. \<not> finite_q b)"
    by (simp add: writeJSON_empty jarray_None bindingResponse_None)
  moreover have "\<exists>fields. hr_Body (fst (snd (serve env (GET ''/api/v1/stats'') a))) = JsonBody (JObj fields) \<and>
       map_of fields ''total_bindings'' = Some (jint (int (length ?bs)))"
    by (simp add: serve_def muxHandler_def mux_def handleStats_def Let_def total_fold writeJSON_def listedBindings_def)
  ultimately show ?thesis by (intro exI [of _ ?bs] conjI) (simp_all only: reg)
qed

definition ex_aenv :: api_env where
  "ex_aenv = \<lparr>ae_now = 5, ae_format = (\<lambda>_. ''t''), ae_timeJson = (\<lambda>_. ''t''), ae_floatJson = (\<lambda>_. ''0.5''), ae_uriString = (\<lambda>_. ''u''),
     ae_ordA = id, ae_ord = id, ae_regOrd = rev, ae_dlgOrd = id, ae_sessOrd = id, ae_setOrd = id,
     ae_drainText = (\<lambda>_. ''e''), ae_migText = (\<lambda>_. ''e'')\<rparr>"

definition ex_api :: api where
  "ex_api = \<lparr>ap_board = \<lparr>sb_calls = ex_w0, sb_loc = ex_loc, sb_sessions = []\<rparr>, ap_ops = [], ap_active = [], ap_startTime = 0,
     ap_dialogMgr = True, ap_rtpManagers = True, ap_drainProvider = True\<rparr>"

theorem registrations_listed_witness:
  "\<exists>bs. ex_stored \<in> set bs \<and>
     fst (snd (serve ex_aenv (GET ''/api/v1/registrations'') ex_api)) = writeJSON (jarray (bindingResponse ex_aenv) bs)"
proof -
  have "active 5 ex_loc ''sip:1000@pbx'' ''dev1'' = Some ex_stored"
    using mem.register_ok [OF loc_inv_new _ _ ex_loc_register, of 5] by (simp add: ex_stored_def ex_binding_def)
  moreover have "loc_reachable ex_sha DefaultStoreConfig (sb_loc (ap_board ex_api))"
    using ex_loc_reachable by (simp add: ex_api_def)
  ultimately show ?thesis
    using registrations_listed [of ex_sha DefaultStoreConfig ex_api ex_aenv] by (auto simp: ex_aenv_def ex_api_def)
qed

text \<open>
  The server has decoded the path before the handler decodes it again: the address of record that is looked
  up for an escaped percent sign is another one, or none.
\<close>

lemma aor_decoded_twice:
  "PathUnescape ''sip:50%25@pbx'' = Some ''sip:50%@pbx''" "PathUnescape ''sip:50%@pbx'' = None"
  by code_simp+

lemma aor_plain: "CHR ''%'' \<notin> set aor \<Longrightarrow> PathUnescape aor = Some aor"
  by (induction aor) auto

section \<open>Drains over HTTP\<close>

abbreviation drainReq :: "string \<Rightarrow> string \<Rightarrow> (string \<times> string) list \<Rightarrow> http_request" where
  "drainReq method nodeID query \<equiv>
     \<lparr>hq_Method = method, hq_Path = ''/api/v1/rtpmanagers/'' @ nodeID @ ''/drain'', hq_Query = query\<rparr>"

lemma serve_drain:
  assumes "CHR ''/'' \<notin> set n" and "n \<noteq> ''''" and "ap_drainProvider a"
  shows "serve env (drainReq ''POST'' n q) a = handleStartDrain env (drainReq ''POST'' n q) n a"
    and "serve env (drainReq ''GET'' n q) a = (a, handleGetDrainStatus env n a, None)"
    and "serve env (drainReq ''DELETE'' n q) a = (fst (handleCancelDrain env n a), snd (handleCancelDrain env n a), None)"
proof -
  have "muxHandler (''/api/v1/rtpmanagers/'' @ n @ ''/drain'') = Some EpDrain"
    by (simp add: muxHandler_def mux_def HasPrefix_def HasSuffix_def)
  moreover have "TrimPrefix (''/api/v1/rtpmanagers/'' @ n @ ''/drain'') ''/api/v1/rtpmanagers/'' = n @ ''/drain''"
    by (simp only: TrimPrefix_append)
  moreover have "Split_byte CHR ''/'' (n @ ''/drain'') = [n, ''drain'']"
    using Split_byte_append [OF assms(1), of "''drain''"] by simp
  ultimately show "serve env (drainReq ''POST'' n q) a = handleStartDrain env (drainReq ''POST'' n q) n a"
    and "serve env (drainReq ''GET'' n q) a = (a, handleGetDrainStatus env n a, None)"
    and "serve env (drainReq ''DELETE'' n q) a = (fst (handleCancelDrain env n a), snd (handleCancelDrain env n a), None)"
    using assms(2,3) by (simp_all add: serve_def handleRtpManagerDrain_def case_prod_unfold del: append_Cons)
qed

lemma upd_member_restore:
  assumes "i < length (pl_members p)" and "pm_drainState (pl_members p ! i) = StateActive"
  shows "upd_member i (set_drain StateActive) (upd_member i (set_drain StateDraining) p) = p"
proof -
  have "set_drain StateActive (set_drain StateDraining (pl_members p ! i)) = pl_members p ! i"
    using assms(2) by (simp add: set_drain_def)
  thus ?thesis using assms(1) by (simp add: upd_member_def)
qed

lemma start_over_http:
  assumes "handleStartDrain env req n a = (a1, resp, Some (k, n', sessions))" and "pl_inv (sb_pool (ap_board a))"
  obtains mode i where "drainMode req = Some mode" "n' = n" "map_of (ap_active a) n = None"
    "GetMemberByID (sb_pool (ap_board a)) n = Some i" "i < length (pl_members (sb_pool (ap_board a)))"
    "pm_drainState (pl_members (sb_pool (ap_board a)) ! i) = StateActive"
    "k = length (ap_ops a)" "ap_active a1 = gm_set (ap_active a) n k" "length (ap_ops a1) = Suc k"
    "sessions = SessionsOnNode (ae_setOrd env) (sb_pool (ap_board a)) n"
    "do_status (ap_ops a1 ! k) = \<lparr>ds_NodeID = n, ds_State = StateDraining, ds_Mode = mode, ds_StartedAt = ae_now env,
       ds_TotalSessions = length sessions, ds_WaitingPlayback = 0, ds_MigratedCount = 0, ds_FailedCount = 0, ds_Errors = []\<rparr>"
    "sb_pool (ap_board a1) = upd_member i (set_drain StateDraining) (sb_pool (ap_board a))"
    "hr_Status resp = 202" "ap_drainProvider a1 = ap_drainProvider a"
proof -
  obtain mode where mode: "drainMode req = Some mode"
    using assms(1) by (cases "drainMode req") (simp_all add: handleStartDrain_def)
  let ?req = "\<lparr>dr_NodeID = n, dr_Mode = mode, dr_Timeout = 0\<rparr>"
  obtain w where w: "Coordinator_StartDrain (ae_setOrd env) (ae_now env) ?req (drains a) = (w, Inr (k, sessions))"
    "a1 = set_drains w a" "n' = n" "hr_Status resp = 202"
    using assms(1) mode by (auto simp: handleStartDrain_def Let_def split: prod.splits sum.splits)
  have active: "map_of (ap_active a) n = None"
    using w(1) by (auto simp: Coordinator_StartDrain_def drains_def split: if_splits)
  obtain i where i: "GetMemberByID (sb_pool (ap_board a)) n = Some i" "pm_drainState (pl_members (sb_pool (ap_board a)) ! i) = StateActive"
    using w(1) active
    by (cases "GetMemberByID (sb_pool (ap_board a)) n") (auto simp: Coordinator_StartDrain_def drains_def StartDrain_def split: if_splits)
  have "i < length (pl_members (sb_pool (ap_board a)))" using i(1) member_index [OF assms(2)] by blast
  moreover have "SessionsOnNode ord (upd_member i f p) n = SessionsOnNode ord p n" for ord f p
    by (simp add: SessionsOnNode_def upd_member_def)
  ultimately show thesis
    using w active i mode
    by (intro that [of mode i])
      (auto simp: Coordinator_StartDrain_def drains_def set_drains_def StartDrain_def Let_def nth_append)
qed



end
