(* ===== verification/Ui_Props.thy ===== *)
theory Ui_Props
  imports Ui_Server Http_Props
begin

text \<open>
  The page of the web interface: it does not depend, up to the order of its rows, on how its goroutines are
  scheduled, and its rows are what the HTTP interface encodes, with the two fields that get lost.
\<close>

section \<open>Schedules\<close>

lemma mset_concat_update:
  assumes "i < length xss" and "xss ! i = x # xs"
  shows "mset (concat xss) = add_mset x (mset (concat (xss[i := xs])))"
proof -
  have "concat xss = concat (take i xss) @ (x # xs) @ concat (drop (Suc i) xss)"
    using id_take_nth_drop [OF assms(1)] assms(2) by (metis concat.simps(2) concat_append)
  moreover have "concat (xss[i := xs]) = concat (take i xss) @ xs @ concat (drop (Suc i) xss)"
    using assms(1) by (simp add: upd_conv_take_nth_drop)
  ultimately show ?thesis by simp
qed

lemma mset_interleave: "mset (interleave xss schedule) = mset (concat xss)"
  by (induction xss schedule rule: interleave.induct)
    (auto simp: mset_concat_update simp del: mset_concat split: list.split)

fun backends_of :: "page_section \<Rightarrow> BackendData list" where
  "backends_of (AddBackend b) = [b]" | "backends_of _ = []"

fun registrations_of :: "page_section \<Rightarrow> RegistrationData list" where
  "registrations_of (AddRegistrations rs) = rs" | "registrations_of _ = []"

fun dialogs_of :: "page_section \<Rightarrow> DialogData list" where
  "dialogs_of (AddDialogs ds) = ds" | "dialogs_of _ = []"

fun sessions_of :: "page_section \<Rightarrow> SessionData list" where
  "sessions_of (AddSessions ss) = ss" | "sessions_of _ = []"

fun managers_of :: "page_section \<Rightarrow> RtpManagerData list" where
  "managers_of (AddRtpManagers ms) = ms" | "managers_of _ = []"

fun stats_of :: "page_section \<Rightarrow> StatsData list" where
  "stats_of (AddStats s) = [s]" | "stats_of _ = []"

text \<open>Running sections appends their rows and adds their counts.\<close>

lemma runSection_effect:
  "td_Backends (runSection x d) = td_Backends d @ backends_of x"
  "td_Registrations (runSection x d) = td_Registrations d @ registrations_of x"
  "td_Dialogs (runSection x d) = td_Dialogs d @ dialogs_of x"
  "td_Sessions (runSection x d) = td_Sessions d @ sessions_of x"
  "td_RtpManagers (runSection x d) = td_RtpManagers d @ managers_of x"
  "st_ActiveSessions (td_Stats (runSection x d)) = st_ActiveSessions (td_Stats d) + sum_list (map st_ActiveSessions (stats_of x))"
  "st_TotalRegistrations (td_Stats (runSection x d)) =
     st_TotalRegistrations (td_Stats d) + sum_list (map st_TotalRegistrations (stats_of x))"
  "st_TotalBindings (td_Stats (runSection x d)) = st_TotalBindings (td_Stats d) + sum_list (map st_TotalBindings (stats_of x))"
  "st_ActiveDialogs (td_Stats (runSection x d)) = st_ActiveDialogs (td_Stats d) + sum_list (map st_ActiveDialogs (stats_of x))"
  "td_Title (runSection x d) = td_Title d" "td_HealthStatus (runSection x d) = td_HealthStatus d"
  "td_HealthUptime (runSection x d) = td_HealthUptime d" "td_MultiBackend (runSection x d) = td_MultiBackend d"
  by (cases x; simp)+

lemma sections_effect:
  "td_Backends (fold runSection xs d) = td_Backends d @ concat (map backends_of xs)"
  "td_Registrations (fold runSection xs d) = td_Registrations d @ concat (map registrations_of xs)"
  "td_Dialogs (fold runSection xs d) = td_Dialogs d @ concat (map dialogs_of xs)"
  "td_Sessions (fold runSection xs d) = td_Sessions d @ concat (map sessions_of xs)"
  "td_RtpManagers (fold runSection xs d) = td_RtpManagers d @ concat (map managers_of xs)"
  "st_ActiveSessions (td_Stats (fold runSection xs d)) =
     st_ActiveSessions (td_Stats d) + sum_list (map st_ActiveSessions (concat (map stats_of xs)))"
  "st_TotalRegistrations (td_Stats (fold runSection xs d)) =
     st_TotalRegistrations (td_Stats d) + sum_list (map st_TotalRegistrations (concat (map stats_of xs)))"
  "st_TotalBindings (td_Stats (fold runSection xs d)) =
     st_TotalBindings (td_Stats d) + sum_list (map st_TotalBindings (concat (map stats_of xs)))"
  "st_ActiveDialogs (td_Stats (fold runSection xs d)) =
     st_ActiveDialogs (td_Stats d) + sum_list (map st_ActiveDialogs (concat (map stats_of xs)))"
  "td_Title (fold runSection xs d) = td_Title d" "td_HealthStatus (fold runSection xs d) = td_HealthStatus d"
  "td_HealthUptime (fold runSection xs d) = td_HealthUptime d" "td_MultiBackend (fold runSection xs d) = td_MultiBackend d"
  by (induction xs arbitrary: d) (simp_all add: runSection_effect)

text \<open>Two pages with the same rows in some order.\<close>

definition same_page :: "TemplateData \<Rightarrow> TemplateData \<Rightarrow> bool" where
  "same_page p q \<longleftrightarrow> td_Title p = td_Title q \<and> td_HealthStatus p = td_HealthStatus q \<and> td_HealthUptime p = td_HealthUptime q \<and>
     td_MultiBackend p = td_MultiBackend q \<and> td_Stats p = td_Stats q \<and> mset (td_Backends p) = mset (td_Backends q) \<and>
     mset (td_RtpManagers p) = mset (td_RtpManagers q) \<and> mset (td_Registrations p) = mset (td_Registrations q) \<and>
     mset (td_Dialogs p) = mset (td_Dialogs q) \<and> mset (td_Sessions p) = mset (td_Sessions q)"

lemma same_page_sections:
  assumes "mset xs = mset ys"
  shows "same_page (fold runSection xs d) (fold runSection ys d)"
proof -
  have rows: "mset (concat (map f xs)) = mset (concat (map f ys))" for f :: "page_section \<Rightarrow> 'a list"
    using assms by (intro mset_concat_perm) (metis mset_map)
  have sums: "sum_list (map g (concat (map stats_of xs))) = sum_list (map g (concat (map stats_of ys)))" for g :: "StatsData \<Rightarrow> int"
    using rows [of stats_of] by (metis mset_map sum_mset_sum_list)
  have "td_Stats (fold runSection xs d) = td_Stats (fold runSection ys d)"
    by (rule StatsData.equality) (simp_all only: sections_effect sums, simp)
  thus ?thesis
    unfolding same_page_def sections_effect mset_append by (simp only: rows simp_thms)
qed

lemma backends_fetched: "map bd_Name (concat (map backends_of (fetchBackendData env net c))) = [cl_name c]"
  by (auto simp: fetchBackendData_def fetched_def statsSection_def split: sum.split)

text \<open>
  Property C27. The page does not depend on how the goroutines of the backends are scheduled, up to the order of its rows: it
  has the rows and the totals of fetching the backends one after the other, and one status row for every
  backend, reachable or not.
\<close>

theorem page_schedule_independent:
  "same_page (buildTemplateData env schedule net s) (buildTemplateData env [] net s) \<and>
   mset (map bd_Name (td_Backends (buildTemplateData env schedule net s))) = mset (map cl_name (us_clients s))"
proof -
  let ?xss = "map (fetchBackendData env net) (us_clients s)"
  have same: "same_page (buildTemplateData env schedule net s) (buildTemplateData env [] net s)"
    unfolding buildTemplateData_def by (rule same_page_sections) (simp add: mset_interleave del: mset_concat)
  have "map bd_Name (td_Backends (buildTemplateData env [] net s)) = map cl_name (us_clients s)"
  proof -
    have "map bd_Name (concat (map backends_of (concat (map (fetchBackendData env net) cs)))) = map cl_name cs" for cs
      using backends_fetched by (induction cs) auto
    thus ?thesis by (simp add: buildTemplateData_def sections_effect emptyPage_def)
  qed
  thus ?thesis using same unfolding same_page_def by (metis mset_map)
qed

section \<open>Decoding what the server encodes\<close>

text \<open>The names of the fields are lower case already.\<close>

lemma lower_names:
  "ToLower ''aor'' = ''aor''" "ToLower ''contact_uri'' = ''contact_uri''" "ToLower ''binding_id'' = ''binding_id''"
  "ToLower ''received_ip'' = ''received_ip''" "ToLower ''received_port'' = ''received_port''" "ToLower ''transport'' = ''transport''"
  "ToLower ''expires'' = ''expires''" "ToLower ''expires_at'' = ''expires_at''" "ToLower ''registered_at'' = ''registered_at''"
  "ToLower ''q'' = ''q''" "ToLower ''user_agent'' = ''user_agent''" "ToLower ''instance_id'' = ''instance_id''" "ToLower ''path'' = ''path''"
  "ToLower ''call_id'' = ''call_id''" "ToLower ''local_tag'' = ''local_tag''" "ToLower ''remote_tag'' = ''remote_tag''"
  "ToLower ''dialog_id'' = ''dialog_id''" "ToLower ''direction'' = ''direction''" "ToLower ''local_uri'' = ''local_uri''"
  "ToLower ''remote_uri'' = ''remote_uri''" "ToLower ''local_contact'' = ''local_contact''" "ToLower ''remote_contact'' = ''remote_contact''"
  "ToLower ''state'' = ''state''" "ToLower ''state_changed_at'' = ''state_changed_at''" "ToLower ''local_cseq'' = ''local_cseq''"
  "ToLower ''remote_cseq'' = ''remote_cseq''" "ToLower ''route_set'' = ''route_set''" "ToLower ''session_id'' = ''session_id''"
  "ToLower ''remote_addr'' = ''remote_addr''" "ToLower ''remote_port'' = ''remote_port''" "ToLower ''codec'' = ''codec''"
  "ToLower ''created_at'' = ''created_at''" "ToLower ''duration_seconds'' = ''duration_seconds''"
  "ToLower ''terminate_reason'' = ''terminate_reason''" "ToLower ''duration'' = ''duration''" "ToLower ''status'' = ''status''"
  "ToLower ''uptime'' = ''uptime''"
  by code_simp+

lemma field_values_simps:
  "field_values name [] = []"
  "field_values name ((k, v) # kvs) = (if ToLower k = ToLower name then v # field_values name kvs else field_values name kvs)"
  "field_values name (kvs @ kvs') = field_values name kvs @ field_values name kvs'"
  "field_values name (omitempty skip k v) = (if \<not> skip \<and> ToLower k = ToLower name then [v] else [])"
  by (simp_all add: field_values_def omitempty_def)

definition in64 :: "int \<Rightarrow> bool" where
  "in64 n \<longleftrightarrow> - (2 ^ 63) \<le> n \<and> n < 2 ^ 63"

lemma set_int_jint [simp]: "in64 n \<Longrightarrow> set_int (jint n # vs) x = set_int vs n"
  by (simp add: jint_def in64_def Atoi_itoa)

lemma those_strings: "those (map (decode_string \<circ> JStr) xs) = Some xs"
  by (induction xs) (simp_all add: decode_string_def)

text \<open>A field that was omitted because it was empty is decoded as empty.\<close>

lemma omitted_fields:
  "set_string (if s \<noteq> '''' then [JStr s] else []) '''' = Some s"
  "in64 n \<Longrightarrow> set_int (if n \<noteq> 0 then [jint n] else []) 0 = Some n"
  "set_slice decode_string (if xs \<noteq> [] then [JArr (map JStr xs)] else []) [] = Some xs"
  by (simp_all add: decode_slice_def those_strings)

definition registration_of :: "api_env \<Rightarrow> binding \<Rightarrow> Registration" where
  "registration_of env b =
     \<lparr>rg_AOR = b_AOR b, rg_ContactURI = b_ContactURI b, rg_BindingID = b_BindingID b, rg_ReceivedIP = b_ReceivedIP b,
      rg_ReceivedPort = b_ReceivedPort b, rg_Transport = b_Transport b, rg_Expires = b_Expires b, rg_ExpiresAt = ae_format env (b_ExpiresAt b),
      rg_RegisteredAt = ae_format env (b_RegisteredAt b), rg_QValue = b_QValue b, rg_UserAgent = b_UserAgent b,
      rg_InstanceID = b_InstanceID b, rg_Path = b_Path b\<rparr>"

text \<open>A binding whose q value is finite and survives printing and parsing, and whose numbers fit an \<open>int\<close>.\<close>

definition shown_binding :: "(string \<Rightarrow> f32 option) \<Rightarrow> api_env \<Rightarrow> binding \<Rightarrow> bool" where
  "shown_binding parseFloat env b \<longleftrightarrow>
     (case b_QValue b of F32 q \<Rightarrow> q = 0 \<or> parseFloat (ae_floatJson env q) = Some (F32 q) | _ \<Rightarrow> False) \<and>
     in64 (b_ReceivedPort b) \<and> in64 (b_Expires b)"

lemma decode_bindingResponse:
  assumes "shown_binding parseFloat env b"
  shows "\<exists>j. bindingResponse env b = Some j \<and> decode_Registration parseFloat j = Some (registration_of env b)"
proof -
  obtain q where q: "b_QValue b = F32 q" "q = 0 \<or> parseFloat (ae_floatJson env q) = Some (F32 q)"
    and "in64 (b_ReceivedPort b)" "in64 (b_Expires b)"
    using assms by (auto simp: shown_binding_def split: f32.splits)
  thus ?thesis
    by (cases "q = 0")
      (simp_all add: bindingResponse_def qField_def decode_Registration_def decode_struct_def string_field_def int_field_def
        field_values_simps lower_names registration_of_def omitted_fields split del: if_split)
qed

definition dialog_of :: "dialog_info \<Rightarrow> Dialog_v1" where
  "dialog_of i =
     \<lparr>dl_CallID = di_CallID i, dl_Direction = di_Direction i, dl_State = di_State i, dl_LocalURI = di_LocalURI i,
      dl_RemoteURI = di_RemoteURI i, dl_RemoteAddr = di_RemoteAddr i, dl_RemotePort = di_RemotePort i, dl_Duration = 0,
      dl_CreatedAt = di_CreatedAt i, dl_TerminateReason = di_TerminateReason i\<rparr>"

text \<open>
  The web interface decodes every field of a dialog but its duration: the server sends it as \<open>duration_seconds\<close>, the
  client reads \<open>duration\<close>, so every call is shown with a duration of zero seconds.
\<close>

theorem dialog_duration_lost:
  assumes "in64 (di_RemotePort i)"
  shows "decode_Dialog (Info_json i) = Some (dialog_of i) \<and> dd_Duration (dialogRow server (dialog_of i)) = ''0s''"
  using assms
  by (simp add: Info_json_def decode_Dialog_def decode_struct_def string_field_def int_field_def field_values_simps lower_names
      omitted_fields dialog_of_def dialogRow_def formatDuration_def itoa_def show_nat.simps digit_char_def split del: if_split)

text \<open>
  The number of sessions of a drain is lost in the same way: the server sends \<open>total_sessions\<close>, the client reads
  \<open>initial_sessions\<close> and \<open>remaining_sessions\<close>.
\<close>

lemma lower_drain_names:
  "ToLower ''elapsed_seconds'' = ''elapsed_seconds''" "ToLower ''errors'' = ''errors''" "ToLower ''failed_count'' = ''failed_count''"
  "ToLower ''migrated_count'' = ''migrated_count''" "ToLower ''mode'' = ''mode''" "ToLower ''node_id'' = ''node_id''"
  "ToLower ''started_at'' = ''started_at''" "ToLower ''total_sessions'' = ''total_sessions''"
  "ToLower ''waiting_playback'' = ''waiting_playback''" "ToLower ''initial_sessions'' = ''initial_sessions''"
  "ToLower ''remaining_sessions'' = ''remaining_sessions''"
  by code_simp+

theorem drain_counts_lost:
  "decode_DrainStatus (drainStatusJson env st) =
     Some \<lparr>dt_NodeID = ds_NodeID st, dt_State = DrainState_String (ds_State st), dt_Mode = ds_Mode st, dt_InitialSessions = 0,
       dt_RemainingSessions = 0, dt_StartedAt = (if ds_StartedAt st = 0 then '''' else ae_format env (ds_StartedAt st))\<rparr>"
  by (simp add: drainStatusJson_def decode_DrainStatus_def decode_struct_def string_field_def int_field_def field_values_simps
      lower_names lower_drain_names)

section \<open>One signaling server behind the page\<close>

text \<open>The network answers a GET of the web interface with the reply of the HTTP interface in state \<open>a\<close>.\<close>

definition serves :: "api_env \<Rightarrow> api \<Rightarrow> net \<Rightarrow> ui_client \<Rightarrow> bool" where
  "serves aenv a net c \<longleftrightarrow> (\<forall>path. net ''GET'' (cl_baseURL c @ path) = Some (fst (snd (serve aenv (GET path) a))))"

lemma client_get_serves:
  assumes "serves aenv a net c" and "fst (snd (serve aenv (GET path) a)) = writeJSON v"
  shows "client_get net c path = Inr (writeJSON v)"
  using assms by (simp add: client_get_def client_request_def serves_def)

lemma decode_body_writeJSON:
  "decode_body dec (Inr (writeJSON v)) =
     (case Option.bind v dec of None \<Rightarrow> Inl DecodeFailed | Some x \<Rightarrow> Inr x)"
  by (cases v) (simp_all add: decode_body_def writeJSON_def)

lemma those_map_Some: "\<forall>x \<in> set xs. f x = Some (g x) \<Longrightarrow> those (map f xs) = Some (map g xs)"
  by (induction xs) simp_all

lemma Client_Registrations_serves:
  assumes "serves aenv a net c" and "list_all (shown_binding parseFloat aenv) (listedBindings aenv a)"
  shows "Client_Registrations parseFloat net c = Inr (map (registration_of aenv) (listedBindings aenv a))"
proof -
  let ?bs = "listedBindings aenv a"
  have "\<forall>b \<in> set ?bs. \<exists>j. bindingResponse aenv b = Some j \<and> decode_Registration parseFloat j = Some (registration_of aenv b)"
    using assms(2) decode_bindingResponse by (simp add: list_all_iff)
  then obtain h where h: "\<forall>b \<in> set ?bs. bindingResponse aenv b = Some (h b) \<and> decode_Registration parseFloat (h b) = Some (registration_of aenv b)"
    by metis
  hence "jarray (bindingResponse aenv) ?bs = Some (JArr (map h ?bs))"
    using those_map_Some [of ?bs "bindingResponse aenv" h] by (simp add: jarray_def)
  moreover have "those (map (decode_Registration parseFloat \<circ> h) ?bs) = Some (map (registration_of aenv) ?bs)"
    using h by (intro those_map_Some) simp
  moreover have "client_get net c ''/api/v1/registrations'' = Inr (writeJSON (jarray (bindingResponse aenv) ?bs))"
    by (rule client_get_serves [OF assms(1)]) (simp add: serve_def muxHandler_def mux_def handleRegistrations_def)
  ultimately show ?thesis
    by (simp add: Client_Registrations_def decode_body_writeJSON decode_slice_def)
qed

lemma Client_Health_serves:
  assumes "serves aenv a net c" and "in64 (secondsSince (ae_now aenv) (ap_startTime a))"
  shows "\<exists>up. Client_Health net c = Inr \<lparr>hl_Status = ''ok'', hl_Uptime = up\<rparr>"
proof -
  have "client_get net c ''/api/v1/health'' = Inr (handleHealth aenv a)"
    unfolding handleHealth_def
    by (rule client_get_serves [OF assms(1)]) (simp add: serve_def muxHandler_def mux_def handleHealth_def)
  thus ?thesis
    using assms(2)
    by (simp add: Client_Health_def handleHealth_def decode_body_writeJSON decode_Health_def decode_struct_def string_field_def
        int_field_def field_values_simps lower_names)
qed

lemma registrations_fetched:
  assumes "Client_Health net c = Inr h" and "Client_Registrations (ue_parseFloat env) net c = Inr rs"
  shows "concat (map registrations_of (fetchBackendData env net c)) = map (registrationRow env (cl_name c)) rs"
    and "concat (map backends_of (fetchBackendData env net c)) =
      [\<lparr>bd_Name = cl_name c, bd_Address = cl_baseURL c, bd_Status = hl_Status h, bd_Uptime = formatUptime (wrap64 (hl_Uptime h * 1000000000))\<rparr>]"
  using assms by (auto simp: fetchBackendData_def fetched_def statsSection_def split: sum.split)

text \<open>
  Property C26. With one signaling server behind it, the page shows that server as up and has one row, decoded from the server's JSON,
  for every active binding of its location service, provided that every q value is finite and survives its encoding.
\<close>

theorem page_shows_registrations:
  assumes "loc_reachable sha256 cfg (sb_loc (ap_board a))"
    and "is_range (ae_ordA aenv)" and "is_range (ae_ord aenv)" and "is_range (ae_regOrd aenv)"
    and "serves aenv a net c" and "us_clients s = [c]" and "in64 (secondsSince (ae_now aenv) (ap_startTime a))"
    and shown: "\<And>b aor i. active (ae_now aenv) (sb_loc (ap_board a)) aor i = Some b \<Longrightarrow> shown_binding (ue_parseFloat env) aenv b"
  shows "\<exists>bs. distinct bs \<and> set bs = {b. \<exists>aor i. active (ae_now aenv) (sb_loc (ap_board a)) aor i = Some b} \<and>
    td_Registrations (buildTemplateData env schedule net s) = map (registrationRow env (cl_name c) \<circ> registration_of aenv) bs \<and>
    map bd_Status (td_Backends (buildTemplateData env schedule net s)) = [''ok'']"
proof -
  let ?bs = "listedBindings aenv a"
  note inv = conjunct1 [OF loc_reachable_inv [OF assms(1)]]
  note m = listed_mset [OF inv assms(2,4)]
  have bs: "distinct ?bs" "set ?bs = {b. \<exists>aor i. active (ae_now aenv) (sb_loc (ap_board a)) aor i = Some b}"
    using List_active [OF inv assms(2,3)] mset_eq_imp_distinct_iff [OF m] mset_eq_setD [OF m] by blast+
  hence "list_all (shown_binding (ue_parseFloat env) aenv) ?bs" using shown by (auto simp: list_all_iff)
  note regs = Client_Registrations_serves [OF assms(5) this]
  obtain up where health: "Client_Health net c = Inr \<lparr>hl_Status = ''ok'', hl_Uptime = up\<rparr>"
    using Client_Health_serves [OF assms(5,7)] by blast
  have one: "interleave [xs] schedule = xs" for xs :: "page_section list"
    by (induction "[xs]" schedule arbitrary: xs rule: interleave.induct) (auto split: list.split)
  show ?thesis
    using bs registrations_fetched [OF health regs]
    by (intro exI [of _ ?bs]) (simp add: buildTemplateData_def assms(6) one sections_effect emptyPage_def)
qed

definition ex_client :: ui_client where
  "ex_client = NewClient ''default'' ''http://sb:8080''"

definition ex_net :: net where
  "ex_net method url = Some (fst (snd (serve ex_aenv (GET (drop 14 url)) ex_api)))"

definition ex_uenv :: ui_env where
  "ex_uenv = \<lparr>ue_now = 5, ue_parseTime = (\<lambda>_. 0), ue_clock = (\<lambda>_. ''c''), ue_parseFloat = (\<lambda>_. Some (F32 (1 / 2))), ue_errText = (\<lambda>_. ''e'')\<rparr>"

lemma ex_list: "Store_List id id 5 ex_loc = [ex_stored]"
  by code_simp

lemma ex_active: "{b. \<exists>aor i. active 5 ex_loc aor i = Some b} = {ex_stored}"
  using List_active(2) [of ex_loc id id 5] loc_reachable_inv [OF ex_loc_reachable] ex_list by (simp add: is_range_def)

lemma ex_shown: "shown_binding f ex_aenv ex_stored"
  by (simp add: shown_binding_def ex_stored_def ex_binding_def in64_def)

lemma distinct_singleton: "distinct xs \<Longrightarrow> set xs = {x} \<Longrightarrow> xs = [x]"
  by (cases xs) (auto simp: subset_singleton_iff dest: subset_singletonD)

lemma ex_env:
  "sb_loc (ap_board ex_api) = ex_loc" "ae_now ex_aenv = 5" "ap_startTime ex_api = 0"
  "is_range (ae_ordA ex_aenv)" "is_range (ae_ord ex_aenv)" "is_range (ae_regOrd ex_aenv)"
  by (simp_all add: ex_api_def ex_aenv_def is_range_def)

lemma ex_serves: "serves ex_aenv ex_api ex_net ex_client"
  by (simp add: serves_def ex_net_def ex_client_def NewClient_def)

lemma rnd53_fraction:
  assumes "0 \<le> x" and "x \<le> 1 / 4"
  shows "0 \<le> rnd53 x" and "rnd53 x \<le> 2 * x"
proof -
  have "\<bar>x\<bar> / 2 ^ 53 \<le> x" using assms(1) by (simp add: field_simps)
  thus "0 \<le> rnd53 x" "rnd53 x \<le> 2 * x" using rnd53_error [of x] by linarith+
qed

lemma ex_uptime: "in64 (secondsSince 5 0)"
proof -
  let ?x = "rnd53 (5 / 1000000000)"
  have x: "0 \<le> ?x" "?x \<le> 1 / 4" using rnd53_fraction [of "5 / 1000000000"] by simp_all
  hence "0 \<le> rnd53 ?x" "rnd53 ?x \<le> 1 / 2" using rnd53_fraction [OF x] by simp_all
  moreover have "Duration_Seconds 5 = rnd53 ?x"
    using rnd53_int [of 5] rnd53_int [of 1000000000] rnd53_int [of 0]
    by (simp add: Duration_Seconds_def Duration_in_def f64_add_def f64_of_int_def f64_div_def)
  ultimately have "secondsSince 5 0 = 0"
    by (simp add: secondsSince_def f64_to_int_def floor_eq_iff)
  thus ?thesis by (simp add: in64_def)
qed

lemma ex_active_shown:
  assumes "active (ae_now ex_aenv) (sb_loc (ap_board ex_api)) aor i = Some b"
  shows "shown_binding f ex_aenv b"
proof -
  have "b \<in> {b. \<exists>aor i. active 5 ex_loc aor i = Some b}" using assms unfolding ex_env by blast
  thus ?thesis unfolding ex_active using ex_shown by simp
qed

lemma ex_ui_reachable: "loc_reachable ex_sha DefaultStoreConfig (sb_loc (ap_board ex_api))"
  unfolding ex_env by (rule ex_loc_reachable)

lemma ex_ui_start: "in64 (secondsSince (ae_now ex_aenv) (ap_startTime ex_api))"
  unfolding ex_env by (rule ex_uptime)

definition ex_ui :: ui_server where
  "ex_ui = \<lparr>us_clients = [ex_client], us_startTime = 0\<rparr>"

lemma ex_ui_clients: "us_clients ex_ui = [ex_client]"
  by (simp add: ex_ui_def)

lemma ex_client_name: "cl_name ex_client = ''default''"
  by (simp add: ex_client_def NewClient_def)

theorem page_shows_registrations_witness:
  "td_Registrations (buildTemplateData ex_uenv [0, 0] ex_net ex_ui) =
     [registrationRow ex_uenv ''default'' (registration_of ex_aenv ex_stored)]"
proof -
  obtain bs where bs: "distinct bs" "set bs = {ex_stored}"
    "td_Registrations (buildTemplateData ex_uenv [0, 0] ex_net ex_ui) =
      map (registrationRow ex_uenv ''default'' \<circ> registration_of ex_aenv) bs"
    using page_shows_registrations [OF ex_ui_reachable ex_env(4-6) ex_serves ex_ui_clients ex_ui_start, where env = ex_uenv and schedule = "[0, 0]"]
      ex_active_shown
    unfolding ex_env ex_active ex_client_name by blast
  show ?thesis
    unfolding bs(3) distinct_singleton [OF bs(1,2)] list.map comp_apply by (rule refl)
qed

end
