(* ===== verification/App.thy ===== *)
theory App
  imports Config Http_Props
begin

text \<open>
  \<open>NewServer\<close> of \<open>internal/signaling/app/app.go\<close>: the signaling server built from its configuration. It is the place
  where the stores, the pool, the dialog manager, the HTTP interface, the drain coordinator, the dialplan and
  the call service meet; the state it returns is the one from which the other theories start.

  The SIP library is a parameter (\<open>sip_stack\<close>: whether the user agent, the server and the client can be created),
  as are the dialing of RTP managers and the contents of the dialplan file.
\<close>

record sip_stack =
  ss_NewUA :: bool
  ss_NewServer :: bool
  ss_NewClient :: bool

datatype start_error = UAFailed | ServerFailed | ClientFailed | PoolFailed mpool_error | DialplanFailed reload_error

text \<open>What a constructor that fails leaves behind: whether the user agent is open, and the parts it has created.\<close>

record remains =
  rm_ua :: bool
  rm_locStore :: "location_store option"
  rm_pool :: "media_pool option"
  rm_dialogMgr :: "dialog_manager option"

definition uaClosed :: remains where
  "uaClosed = \<lparr>rm_ua = False, rm_locStore = None, rm_pool = None, rm_dialogMgr = None\<rparr>"

text \<open>
  The server. The migrator asks the originator for B-legs, the call service looks targets up in the location
  store: both are functions of the state at the time of the call.
\<close>

record signaling =
  sv_api :: api
  sv_realm :: string
  sv_contact :: sip_uri
  sv_migrator :: "b2b_world \<Rightarrow> migrator"
  sv_executor :: executor
  sv_callService :: "loc_env \<Rightarrow> location_store \<Rightarrow> call_service"

definition switchboardUri :: "sig_config \<Rightarrow> sip_uri" where
  "switchboardUri cfg =
     \<lparr>uri_Scheme = ''sip'', uri_User = ''switchboard'', uri_Host = sg_AdvertiseAddr cfg, uri_Port = sg_Port cfg, uri_UriParams = []\<rparr>"

definition NewApiServer :: "time \<Rightarrow> switchboard \<Rightarrow> api" where
  "NewApiServer now board =
     \<lparr>ap_board = board, ap_ops = [], ap_active = [], ap_startTime = now, ap_dialogMgr = True, ap_rtpManagers = True,
      ap_drainProvider = False\<rparr>"

definition SetDrainProvider :: "api \<Rightarrow> api" where
  "SetDrainProvider a = a\<lparr>ap_drainProvider := True\<rparr>"

definition NewMigrator :: "sip_uri \<Rightarrow> DrainMode \<Rightarrow> migrator" where
  "NewMigrator localContact mode = \<lparr>mg_bridgeMapper = None, mg_localContact = localContact, mg_mode = mode\<rparr>"

definition SetBridgeMapper :: "(string \<Rightarrow> string option) \<Rightarrow> migrator \<Rightarrow> migrator" where
  "SetBridgeMapper mapper m = m\<lparr>mg_bridgeMapper := Some mapper\<rparr>"

definition emptyBoard :: "sig_config \<Rightarrow> location_store \<Rightarrow> dialog_manager \<Rightarrow> media_pool \<Rightarrow> switchboard" where
  "emptyBoard cfg loc dm pool =
     \<lparr>sb_calls = \<lparr>w_legs = [], w_bridges = [], w_origLegs = [], w_aToB = [],
        w_cfg = \<lparr>oc_AdvertiseAddr = sg_AdvertiseAddr cfg, oc_Port = sg_Port cfg\<rparr>, w_dm = dm, w_pool = pool, w_sent = []\<rparr>,
      sb_loc = loc, sb_sessions = []\<rparr>"

text \<open>\<open>None\<close>: a panic.\<close>

definition App_NewServer ::
  "sip_stack \<Rightarrow> (string, string) range_order \<Rightarrow> dial \<Rightarrow> route_sort \<Rightarrow> (string \<Rightarrow> config_file) \<Rightarrow> contact_sort \<Rightarrow> time \<Rightarrow> sig_config \<Rightarrow>
     (start_error \<times> remains + signaling) option" where
  "App_NewServer sip ord dial sortRoutes files sortContacts now cfg =
     (if \<not> ss_NewUA sip then Some (Inl (UAFailed, uaClosed))
      else if \<not> ss_NewServer sip then Some (Inl (ServerFailed, uaClosed))
      else if \<not> ss_NewClient sip then Some (Inl (ClientFailed, uaClosed))
      else
        let locStore = NewStore DefaultStoreConfig;
            realm = (if sg_AdvertiseAddr cfg = '''' then ''switchboard.local'' else sg_AdvertiseAddr cfg) in
        (case NewPool ord dial (poolConfigOf cfg) of
           Inl err \<Rightarrow>
             Option.bind (Store_Close locStore) (\<lambda>closed. Some (Inl (PoolFailed err, uaClosed\<lparr>rm_locStore := Some closed\<rparr>)))
         | Inr pool \<Rightarrow>
             let dialogMgr = NewManager;
                 migrator = NewMigrator (switchboardUri cfg) DrainModeGraceful;
                 dialplanPath = (if sg_DialplanPath cfg = '''' then ''dialplan.json'' else sg_DialplanPath cfg) in
             (case NewDialplan sortRoutes dialplanPath (files dialplanPath) of
                Inl err \<Rightarrow>
                  Option.bind (Store_Close locStore) (\<lambda>closed.
                  Option.bind (Pool_Close pool) (\<lambda>pool'.
                  Some (Inl (DialplanFailed err,
                    uaClosed\<lparr>rm_locStore := Some closed, rm_pool := Some pool', rm_dialogMgr := Some dialogMgr\<rparr>))))
              | Inr dp \<Rightarrow>
                  Option.bind DefaultRegistry (\<lambda>registry.
                  Option.bind (NewExecutor dp (Some registry)) (\<lambda>executor.
                  let dialogMgr = Manager_SetOnTerminated dialogMgr in
                  Some (Inr \<lparr>
                    sv_api = SetDrainProvider (NewApiServer now (emptyBoard cfg locStore dialogMgr pool)),
                    sv_realm = realm,
                    sv_contact = switchboardUri cfg,
                    sv_migrator = (\<lambda>w. SetBridgeMapper (GetBridgedBLeg w) migrator),
                    sv_executor = executor,
                    sv_callService = (\<lambda>env store.
                      NewCallService (Some (DefaultResolver sortContacts env store (sg_AdvertiseAddr cfg))) True 0)\<rparr>))))))"

text \<open>The nodes of every configuration are distinct.\<close>

lemma nodeParts_wf: "nodeParts ps m = Some m' \<Longrightarrow> gm_wf m \<Longrightarrow> gm_wf m'"
  by (induction ps m rule: nodeParts.induct) (auto simp: Let_def split: if_splits)

lemma configured_wf: "gm_wf (pc_NodeAddresses (poolConfigOf (sig_Load getenv lookup ifaces fl)))"
proof -
  have "gm_wf (case parseNodeAddresses s of None \<Rightarrow> [] | Some m \<Rightarrow> m)" for s
    using nodeParts_wf by (fastforce simp: parseNodeAddresses_def split: option.split)
  thus ?thesis by (simp add: poolConfigOf_def sig_Load_def Let_def)
qed

lemma NewPool_open: "NewPool ord dial cfg = Inr p \<Longrightarrow> \<not> pl_stopped p"
proof -
  have "pl_stopped (addMembers dial nas p) = pl_stopped p" for nas p
    by (induction nas arbitrary: p) simp_all
  thus "NewPool ord dial cfg = Inr p \<Longrightarrow> \<not> pl_stopped p"
    by (auto simp: NewPool_def Let_def split: option.splits if_splits)
qed

lemma NewStore_closes: "\<exists>loc. Store_Close (NewStore c) = Some loc \<and> tts_stopped (loc_bindings loc)"
  by (simp add: Store_Close_def NewStore_def TTL_Close_def TTL_Clear_def NewTTLStore_def NewTTLStoreWithEvict_def TTL_SetOnEvict_def)

text \<open>Every part that was created has been closed again, but for the dialog manager.\<close>

definition released_parts :: "remains \<Rightarrow> bool" where
  "released_parts rm \<longleftrightarrow> \<not> rm_ua rm \<and> (case rm_locStore rm of None \<Rightarrow> True | Some loc \<Rightarrow> tts_stopped (loc_bindings loc)) \<and>
     (case rm_pool rm of None \<Rightarrow> True | Some pool \<Rightarrow> pl_stopped pool)"

text \<open>
  Property C18. The server starts without a panic, whatever its flags and environment are. If it starts, it is in an initial state of all the
  components: the hypotheses of the invariants of the location service, the dialog manager, the pool and the calls hold,
  drains can be requested, and the dialplan is the one of the configured file. If it does not start, the user agent, the location store and
  the pool are closed again; but the dialog manager is not, so that its cleanup goroutine runs on, exactly when the dialplan
  could not be loaded.
\<close>

theorem server_start_outcomes:
  assumes "is_range ord" and "dial_ok dial" and cfg: "cfg = sig_Load getenv lookup ifaces fl"
  shows "\<exists>r. App_NewServer sip ord dial sortRoutes files sortContacts now cfg = Some r \<and>
    (case r of
       Inl (err, rm) \<Rightarrow> released_parts rm \<and>
         ((\<exists>m. rm_dialogMgr rm = Some m \<and> \<not> tts_stopped (dm_dialogs m)) \<longleftrightarrow> (\<exists>e. err = DialplanFailed e))
     | Inr sv \<Rightarrow>
         (let board = ap_board (sv_api sv) in
          loc_reachable sha256 DefaultStoreConfig (sb_loc board) \<and> dm_reachable now (sb_dm board) \<and> pool_reachable (sb_pool board) \<and>
          call_reachable (sb_calls board) \<and> ap_drainProvider (sv_api sv) \<and>
          (let path = if sg_DialplanPath cfg = '''' then ''dialplan.json'' else sg_DialplanPath cfg in
           NewDialplan sortRoutes path (files path) = Inr (ex_dialplan (sv_executor sv)))))"
proof -
  obtain closed where closed: "Store_Close (NewStore DefaultStoreConfig) = Some closed" "tts_stopped (loc_bindings closed)"
    using NewStore_closes by blast
  obtain reg where reg: "DefaultRegistry = Some reg" using default_registry by blast
  have dm: "\<not> tts_stopped (dm_dialogs NewManager)" by (simp add: NewManager_def NewTTLStore_def TTL_SetOnEvict_def)
  note def = App_NewServer_def Let_def closed(1) reg NewExecutor_def released_parts_def uaClosed_def
  show ?thesis
  proof (cases "ss_NewUA sip \<and> ss_NewServer sip \<and> ss_NewClient sip")
    case False
    thus ?thesis by (auto simp: def)
  next
    case sip: True
    let ?path = "if sg_DialplanPath cfg = '''' then ''dialplan.json'' else sg_DialplanPath cfg"
    show ?thesis
    proof (cases "NewPool ord dial (poolConfigOf cfg)")
      case (Inl err)
      thus ?thesis using sip closed(2) by (simp add: def)
    next
      case pool: (Inr pool)
      obtain pool' where pool': "Pool_Close pool = Some pool'" "pl_stopped pool'"
        using NewPool_open [OF pool] by (simp add: Pool_Close_def)
      have reach: "pool_reachable pool"
        using pool_reachable.init [OF pool assms(1,2)] configured_wf cfg by simp
      show ?thesis
      proof (cases "NewDialplan sortRoutes ?path (files ?path)")
        case (Inl err)
        thus ?thesis using sip pool pool' closed(2) dm by (simp add: def)
      next
        case (Inr dp)
        have "call_reachable (sb_calls (emptyBoard cfg loc m p))" for loc m p
          by (rule call_reachable.init) (simp_all add: emptyBoard_def)
        thus ?thesis
          using sip pool Inr reach loc_reachable.init dm_reachable.init
          by (auto simp: def SetDrainProvider_def NewApiServer_def emptyBoard_def)
      qed
    qed
  qed
qed

theorem server_start_outcomes_witness:
  "\<exists>rm. App_NewServer \<lparr>ss_NewUA = True, ss_NewServer = True, ss_NewClient = True\<rparr> id ex_dial id (\<lambda>_. ParseFailed) (\<lambda>_ xs. xs) 0
      (sig_Load ex_getenv (\<lambda>_. None) None sig_defaults) = Some (Inl (DialplanFailed ErrParse, rm)) \<and>
     released_parts rm \<and> (\<exists>m. rm_dialogMgr rm = Some m \<and> \<not> tts_stopped (dm_dialogs m))"
proof -
  let ?cfg = "sig_Load ex_getenv (\<lambda>_. None) None sig_defaults"
  let ?run = "App_NewServer \<lparr>ss_NewUA = True, ss_NewServer = True, ss_NewClient = True\<rparr> id ex_dial id (\<lambda>_. ParseFailed) (\<lambda>_ xs. xs) 0 ?cfg"
  obtain pool where pool: "NewPool id ex_dial (poolConfigOf ?cfg) = Inr pool"
    using configured_nodes(1) [of ex_nodes ex_getenv "\<lambda>_. None" None sig_defaults, OF ex_nodes_ok]
    by (simp add: NewPool_def addMembers_members ex_nodes_def newMember_def ex_dial_def NewGRPCTransport_def Let_def)
  have "NewDialplan id path ParseFailed = Inl ErrParse" for path by (simp add: NewDialplan_def Dialplan_Reload_def)
  hence run: "\<exists>rm. ?run = Some (Inl (DialplanFailed ErrParse, rm))"
    using pool NewPool_open [OF pool] NewStore_closes [of DefaultStoreConfig] by (auto simp: App_NewServer_def Let_def Pool_Close_def)
  have "is_range id" by (simp add: is_range_def)
  obtain rm where rm: "?run = Some (Inl (DialplanFailed ErrParse, rm))" using run by blast
  have "released_parts rm \<and> (\<exists>m. rm_dialogMgr rm = Some m \<and> \<not> tts_stopped (dm_dialogs m))"
    using server_start_outcomes [OF \<open>is_range id\<close> ex_dial_ok, of ?cfg ex_getenv "\<lambda>_. None" None sig_defaults
      "\<lparr>ss_NewUA = True, ss_NewServer = True, ss_NewClient = True\<rparr>" id "\<lambda>_. ParseFailed" "\<lambda>_ xs. xs" 0]
    unfolding rm by simp
  thus ?thesis using rm by blast
qed

end
