(* ===== verification/Logging.thy ===== *)
theory Logging
  imports Config
begin

text \<open>
  \<open>internal/logger/logger.go\<close>: levels, the two handlers and the writer that reformats JSON lines. An output is a
  number; a handler returns the lines it writes to which output. The layout of times and the printing of
  decoded JSON values are parameters.
\<close>

section \<open>Levels\<close>

record logger =
  lg_level :: int
  lg_tui :: bool

abbreviation LevelDebug :: int where "LevelDebug \<equiv> -4"
abbreviation LevelInfo :: int where "LevelInfo \<equiv> 0"
abbreviation LevelWarn :: int where "LevelWarn \<equiv> 4"
abbreviation LevelError :: int where "LevelError \<equiv> 8"

definition initialLogger :: logger where
  "initialLogger = \<lparr>lg_level = LevelDebug, lg_tui = False\<rparr>"

definition ParseLevel :: "string \<Rightarrow> int" where
  "ParseLevel s =
     (let t = ToLower (TrimSpace s) in
      if t = ''debug'' then LevelDebug
      else if t = ''info'' then LevelInfo
      else if t = ''warn'' \<or> t = ''warning'' then LevelWarn
      else if t = ''error'' then LevelError
      else LevelDebug)"

definition SetLevel :: "string \<Rightarrow> logger \<Rightarrow> logger" where
  "SetLevel levelStr g = g\<lparr>lg_level := ParseLevel levelStr\<rparr>"

definition GetLevel :: "logger \<Rightarrow> string" where
  "GetLevel g =
     (if lg_level g = LevelDebug then ''debug''
      else if lg_level g = LevelInfo then ''info''
      else if lg_level g = LevelWarn then ''warn''
      else if lg_level g = LevelError then ''error''
      else ''debug'')"

definition AddTUIHandler :: "logger \<Rightarrow> logger" where
  "AddTUIHandler g = g\<lparr>lg_tui := True\<rparr>"

text \<open>\<open>slog.Level.String\<close>.\<close>

definition LevelString :: "int \<Rightarrow> string" where
  "LevelString l =
     (let str = (\<lambda>base val. if val = 0 then base else base @ (if val > 0 then ''+'' else '''') @ itoa val) in
      if l < LevelInfo then str ''DEBUG'' (l - LevelDebug)
      else if l < LevelWarn then str ''INFO'' (l - LevelInfo)
      else if l < LevelError then str ''WARN'' (l - LevelWarn)
      else str ''ERROR'' (l - LevelError))"

section \<open>Lines\<close>

record log_record =
  lr_Time :: time
  lr_Level :: int
  lr_Message :: string
  lr_Attrs :: "(string \<times> string) list"

record log_env =
  lv_clock :: "time \<Rightarrow> string"
  lv_now :: time
  lv_parseTime :: "string \<Rightarrow> time option"
  lv_sprint :: "json \<Rightarrow> string"
  lv_ord :: "(string, json) range_order"

fun JoinSpace :: "string list \<Rightarrow> string" where
  "JoinSpace [] = ''''"
| "JoinSpace [s] = s"
| "JoinSpace (s # ss) = s @ '' '' @ JoinSpace ss"

definition recordMessage :: "log_record \<Rightarrow> string" where
  "recordMessage r =
     (let attrs = map (\<lambda>a. fst a @ ''='' @ snd a) (filter (\<lambda>a. fst a \<notin> {''time'', ''level'', ''msg''}) (lr_Attrs r)) in
      if length attrs > 0 then lr_Message r @ '' '' @ JoinSpace attrs else lr_Message r)"

definition formattedLog :: "log_env \<Rightarrow> log_record \<Rightarrow> string" where
  "formattedLog env r =
     ''['' @ lv_clock env (lr_Time r) @ ''] ['' @ ToUpper (LevelString (lr_Level r)) @ ''] '' @ recordMessage r @ [CHR 0x0A]"

text \<open>A line of the SIP library: a JSON object is written in the format of the other lines, anything else as it is.\<close>

definition JSONParsingWriter_Write :: "log_env \<Rightarrow> string \<Rightarrow> string" where
  "JSONParsingWriter_Write env p =
     (if HasPrefix (TrimSpace p) ''{'' then
        (case parse_json p of
           Some (JObj kvs) \<Rightarrow>
             let logEntry = fold (\<lambda>kv m. gm_set m (fst kv) (snd kv)) kvs [];
                 level = (case map_of logEntry ''level'' of Some lv \<Rightarrow> lv_sprint env lv | None \<Rightarrow> ''info'');
                 message = (case map_of logEntry ''message'' of Some msg \<Rightarrow> lv_sprint env msg | None \<Rightarrow> ''unknown'');
                 timestamp = (case Option.bind (map_of logEntry ''time'') (\<lambda>t. lv_parseTime env (lv_sprint env t)) of
                   Some ts \<Rightarrow> lv_clock env ts | None \<Rightarrow> lv_clock env (lv_now env));
                 attrs = map (\<lambda>kv. fst kv @ ''='' @ lv_sprint env (snd kv))
                   (filter (\<lambda>kv. fst kv \<notin> {''level'', ''message'', ''time'', ''caller''}) (lv_ord env logEntry)) in
             ''['' @ timestamp @ ''] ['' @ ToUpper level @ ''] '' @ message @
             (if length attrs > 0 then '' '' @ JoinSpace attrs else '''') @ [CHR 0x0A]
         | _ \<Rightarrow> p)
      else p)"

section \<open>Handlers\<close>

datatype writer = Raw nat | JSONParsing nat

fun writer_Write :: "log_env \<Rightarrow> writer \<Rightarrow> string \<Rightarrow> nat \<times> string" where
  "writer_Write env (Raw n) p = (n, p)"
| "writer_Write env (JSONParsing n) p = (n, JSONParsingWriter_Write env p)"

text \<open>A \<open>nil\<close> output is \<open>None\<close>. The second result is what the handler passes to the text interface.\<close>

definition customHandler_Handle ::
  "log_env \<Rightarrow> logger \<Rightarrow> writer option list \<Rightarrow> log_record \<Rightarrow> (nat \<times> string) list \<times> (int \<times> string) option" where
  "customHandler_Handle env g outs r =
     (if lr_Level r < lg_level g then ([], None)
      else (List.map_filter (map_option (\<lambda>out. writer_Write env out (formattedLog env r))) outs,
            if lg_tui g then Some (lr_Level r, recordMessage r) else None))"

definition customHandler_Enabled :: "logger \<Rightarrow> int \<Rightarrow> bool" where
  "customHandler_Enabled g level \<longleftrightarrow> level \<ge> lg_level g"

definition InitLogger :: "nat list \<Rightarrow> writer option list" where
  "InitLogger outputs = map (\<lambda>out. Some (JSONParsing out)) outputs"

definition MultiLevelHandler_Handle ::
  "(writer option, int) range_order \<Rightarrow> log_env \<Rightarrow> logger \<Rightarrow> (writer option, int) gomap \<Rightarrow> log_record \<Rightarrow> (nat \<times> string) list" where
  "MultiLevelHandler_Handle ord env g outputs r =
     (if lr_Level r < lg_level g then []
      else
        List.map_filter
          (\<lambda>e. if lr_Level r \<ge> snd e then map_option (\<lambda>out. writer_Write env out (formattedLog env r)) (fst e) else None)
          (ord outputs))"

definition MultiLevelHandler_Enabled :: "logger \<Rightarrow> (writer option, int) gomap \<Rightarrow> int \<Rightarrow> bool" where
  "MultiLevelHandler_Enabled g outputs level \<longleftrightarrow> list_ex (\<lambda>e. level \<ge> snd e \<and> level \<ge> lg_level g) outputs"

section \<open>What is logged\<close>

text \<open>The lines of the handlers are not taken for JSON.\<close>

lemma TrimSpace_bracket: "\<exists>t. TrimSpace (CHR ''['' # s) = CHR ''['' # t"
  by (auto simp: TrimSpace_def ascii_space_def dropWhile_append intro: exI [of _ "rev (dropWhile ascii_space (rev s))"])

lemma formattedLog_kept: "JSONParsingWriter_Write env (formattedLog env r) = formattedLog env r"
proof -
  have "\<not> HasPrefix (TrimSpace (CHR ''['' # s)) ''{''" for s
    using TrimSpace_bracket [of s] by (auto simp: HasPrefix_def)
  thus ?thesis by (simp add: JSONParsingWriter_Write_def formattedLog_def)
qed

lemma level_names:
  "ParseLevel ''debug'' = LevelDebug" "ParseLevel ''info'' = LevelInfo" "ParseLevel ''warn'' = LevelWarn" "ParseLevel ''error'' = LevelError"
  by code_simp+

lemma level_values: "ParseLevel s \<in> {LevelDebug, LevelInfo, LevelWarn, LevelError}"
  by (simp add: ParseLevel_def Let_def)

text \<open>
  Setting the level to the name it is reported under changes nothing more. The standard handler writes one line, as it formatted
  it, to every output, exactly if the level of the record reaches the global one, which is when it says it is enabled; the handler with
  several levels writes nothing when it says it is not enabled.
\<close>

theorem logger_filters:
  "SetLevel (GetLevel (SetLevel s g)) g = SetLevel s g \<and>
   fst (customHandler_Handle env g (InitLogger outs) r) =
     (if customHandler_Enabled g (lr_Level r) then map (\<lambda>out. (out, formattedLog env r)) outs else []) \<and>
   (is_range ord \<and> \<not> MultiLevelHandler_Enabled g outputs (lr_Level r) \<longrightarrow> MultiLevelHandler_Handle ord env g outputs r = [])"
proof (intro conjI impI)
  show "SetLevel (GetLevel (SetLevel s g)) g = SetLevel s g"
    using level_values [of s] by (auto simp: SetLevel_def GetLevel_def level_names)
  show "fst (customHandler_Handle env g (InitLogger outs) r) =
      (if customHandler_Enabled g (lr_Level r) then map (\<lambda>out. (out, formattedLog env r)) outs else [])"
    by (induction outs)
      (auto simp: customHandler_Handle_def customHandler_Enabled_def InitLogger_def formattedLog_kept List.map_filter_simps split: if_splits)
next
  assume "is_range ord \<and> \<not> MultiLevelHandler_Enabled g outputs (lr_Level r)"
  thus "MultiLevelHandler_Handle ord env g outputs r = []"
    using is_range_set [of ord outputs]
    by (auto simp: MultiLevelHandler_Handle_def MultiLevelHandler_Enabled_def list_ex_iff List.map_filter_def filter_empty_conv)
qed

end
