(* ===== verification/Spec2Isabelle.thy ===== *)
theory Spec2Isabelle
  imports Rtp_Server Audio_Props Events_Props Ui_Props App Logging
begin

text \<open>
  Verification of Switchboard, a voice-over-IP platform in Go (\<open>src/\<close>).

  \<^bold>\<open>The program.\<close> Three programs work together.
  \<^item> The \<^emph>\<open>signaling server\<close> (\<open>cmd/signaling\<close>, \<open>internal/signaling\<close>) speaks SIP: it registers telephones, answers
    INVITEs, runs the dialplan route that matches the called number, dials a second leg and bridges it to
    the first (a back-to-back user agent), and moves calls away from a media node that is drained.
  \<^item> The \<^emph>\<open>RTP managers\<close> (\<open>cmd/rtpmanager\<close>, \<open>internal/rtpmanager\<close>) hold the media: they allocate RTP ports, answer SDP
    offers, play audio files and relay packets between the two sessions of a bridge. The signaling server
    reaches them over gRPC through a pool of clients (\<open>internal/signaling/mediaclient\<close>).
  \<^item> The \<^emph>\<open>web interface\<close> (\<open>cmd/ui\<close>, \<open>internal/ui\<close>) shows the state of one or more signaling servers, which it reads over
    their HTTP interface (\<open>internal/signaling/api\<close>), and starts and cancels drains.

  \<^bold>\<open>How the code is modelled.\<close> A struct is a record, an enumeration a datatype, a Go map an association list with distinct
  keys (\<open>gomap\<close>), whose iteration order is a parameter (\<open>range_order\<close>) of every operation that ranges over it. An
  object that is shared by reference (a dialog, a call leg, a call bridge) is an index into a list that stands for
  the heap. An operation takes the state and returns it changed, with an error value where the code returns
  an error and \<open>None\<close> or an error constructor where it panics. A \<open>uint16\<close>, \<open>uint32\<close> or \<open>uint64\<close> whose wrap-around matters
  is a word; other integers are \<open>int\<close>. Time is a number of nanoseconds and an argument of what reads the clock. What the
  network, a transaction or another goroutine does while an operation waits is an argument of that operation.
  Operations that hold a lock are atomic steps; a step relation (\<open>pool_step\<close>, \<open>dm_step\<close>, \<open>call_step\<close>, \<open>srv_step\<close>,
  \<open>app_step\<close>, \<open>chan_run\<close>) closes them into reachable states, and the invariants are proved by rule induction.

  \<^bold>\<open>The theories.\<close>
  \<^item> \<open>Prelude\<close>: Go maps, iteration orders, the locales \<open>resource_pool\<close> (a pool that hands out distinct resources and takes
    them back) and \<open>lifecycle\<close> (a state machine that only advances to a terminal state). \<open>Go_Std\<close>, \<open>Go_Strings\<close>, \<open>Go_Text\<close>,
    \<open>Go_Json\<close>, \<open>Go_Float\<close>: what the source uses of \<open>strconv\<close>, \<open>strings\<close>, \<open>net.ParseIP\<close>, \<open>encoding/json\<close> and \<open>float64\<close>
    (rationals rounded to 53 bits). \<open>Sip_Message\<close>: requests, responses and headers as the program sees them.
  \<^item> RTP manager: \<open>Port_Pool\<close> (\<open>portpool/pool.go\<close>), \<open>Sdp_Builder\<close> (\<open>sdp/builder.go\<close>), \<open>Media_Service\<close> (\<open>media/service.go\<close>,
    \<open>codec.go\<close>), \<open>Audio\<close> and \<open>Audio_Props\<close> (\<open>media/audio.go\<close>, \<open>rtp.go\<close>), \<open>Media_Session\<close> (\<open>session/manager.go\<close>), \<open>Media_Bridge\<close>
    (\<open>bridge/bridge.go\<close>), \<open>Rtp_Server\<close> (\<open>server/server.go\<close>: the RPC handlers over all of these).
  \<^item> Media client: \<open>Grpc_Transport\<close> (\<open>mediaclient/grpc.go\<close>, composed with the server it reaches; its contract is the locale
    \<open>media_transport\<close>) and \<open>Media_Pool\<close> (\<open>mediaclient/pool.go\<close>).
  \<^item> Stores: \<open>TTL_Store\<close> (\<open>store/ttlstore.go\<close>, contract \<open>expiring_map\<close>) and \<open>Location\<close> (\<open>location/\<close>, contract
    \<open>location_contract\<close>).
  \<^item> Dialogs: \<open>Dialog\<close> (\<open>dialog/state.go\<close>, \<open>dialog.go\<close>, \<open>info.go\<close>) and \<open>Dialog_Manager\<close> (\<open>dialog/manager.go\<close>).
  \<^item> Two-legged calls: \<open>Resolver\<close> (\<open>b2bua/*_resolver.go\<close>, contract \<open>resolver_contract\<close>), \<open>B2b_Leg\<close> (\<open>leg.go\<close>, \<open>state.go\<close>), \<open>B2b_Call\<close>
    (\<open>bridge.go\<close>, \<open>originator.go\<close>, the world in which legs, bridges, dialogs and the pool live), \<open>B2b_Lifecycle\<close> (hanging up
    and its callbacks, contract \<open>hangup_contract\<close>), \<open>B2b_Originate\<close> and \<open>B2b_Service\<close> (\<open>call_service.go\<close>).
  \<^item> Drains: \<open>Drain\<close> (\<open>drain/coordinator.go\<close>, \<open>migrator.go\<close>) and \<open>Drain_Props\<close>.
  \<^item> Requests: \<open>Register\<close> (\<open>routing/register.go\<close>), \<open>Dialplan\<close> (\<open>dialplan/dialplan.go\<close>, \<open>route.go\<close> and the actions), \<open>Executor\<close> and
    \<open>Executor_Props\<close> (\<open>dialplan/executor.go\<close>, \<open>session.go\<close>), \<open>Routing\<close> and \<open>Routing_Props\<close> (\<open>routing/invite.go\<close>, \<open>bye.go\<close>, \<open>ack.go\<close>,
    \<open>cancel.go\<close> and the termination callback of \<open>app/app.go\<close>).
  \<^item> \<open>Http_Api\<close> and \<open>Http_Props\<close> (\<open>api/server.go\<close>), \<open>Events\<close> and \<open>Events_Props\<close> (\<open>events/\<close>), \<open>Config\<close> (the \<open>config\<close> packages),
    \<open>App\<close> (\<open>app.NewServer\<close>, which builds the signaling server from all of these), \<open>Ui_Client\<close>, \<open>Ui_Server\<close> and \<open>Ui_Props\<close>
    (\<open>api/types/v1\<close>, \<open>ui/client\<close>, \<open>ui/server\<close>), \<open>Logging\<close> (\<open>logger/logger.go\<close>).

  \<^bold>\<open>What is proved.\<close>
  \<^item> \<^emph>\<open>Ports and media sessions\<close>: in every reachable state of an RTP manager the ports of the sessions are distinct and none
    leaks; a session is in at most one bridge; the relay changes nothing but the addresses; the packets of a
    playback are numbered and timed consecutively modulo their width.
  \<^item> \<^emph>\<open>The pool\<close>: a session that the pool tracks lives on the node the pool names, the two indexes agree, a new session is
    placed on an available node.
  \<^item> \<^emph>\<open>Stores\<close>: a TTL store refines a map whose entries expire; what is registered is looked up, with its bounds; a
    REGISTER does what its answer says.
  \<^item> \<^emph>\<open>Dialogs and calls\<close>: dialogs only advance and their store stays consistent with their states; an active bridge has two
    answered legs; hanging up one leg ends the bridge and the other leg, terminates whatever callbacks are
    registered, and wakes who waits; a dial attempt leaves no media behind when it fails.
  \<^item> \<^emph>\<open>The whole server\<close>: an INVITE either holds one media session or none; when a dialog ends its media session is
    destroyed; a dialplan that returns has ended its call; a drain moves every session it counts as migrated.
  \<^item> \<^emph>\<open>Interfaces\<close>: the replies of the HTTP interface, what it lists, a drain driven through it; the page of the web
    interface whatever the order in which its goroutines run, and what it shows of what the server sent; the pool
    that a configuration gives; the server starts in a state in which the hypotheses of the other theorems hold.
  \<^item> \<^emph>\<open>Audio\<close>: WAV files are read back, the resampler equals decimation for multiples of 8000 Hz and is total for mono.

  \<^bold>\<open>Parameters and their hypotheses.\<close> UUIDs are fresh (\<open>fresh\<close> hypotheses of the creating operations). Each node address of
  a pool reaches one RTP manager and no two nodes the same one. A leg has fewer than \<open>2^64 - 1\<close> callbacks. \<open>sort.Slice\<close> returns
  a permutation that is sorted. SHA-256, the SDP and RTP marshalling, the u-law encoder, \<open>time.Format\<close>, \<open>ParseFloat\<close> and
  the texts of errors are arbitrary functions. JSON text is valid UTF-8.

  \<^bold>\<open>Bounds and fuel.\<close> \<open>Leg_Hangup\<close> and the callbacks it runs call each other; the model has a fuel argument, and
  \<open>B2b_Lifecycle.hangup_terminates\<close> shows that one more than the number of live legs is always enough. The JSON parser has the
  depth limit of \<open>encoding/json\<close>. All other loops are structural or have a termination proof.

  \<^bold>\<open>Simplifications.\<close> The migrations of one drain, up to five at a time in the code, run one after the other in some order.
  The termination callback runs at the end of the dialog operation that reports the dialog. A builder of events is a
  value: setting a field after \<open>Build\<close> is not seen by the event already taken.

  \<^bold>\<open>Not modelled.\<close> Process start-up, listening sockets and signal handling (\<open>cmd/\<close>, \<open>Start\<close>, \<open>Stop\<close>), the banner
  (\<open>banner/\<close>: output only), the HTML templates, the text of JSON
  documents that are sent, the connection monitor of the gRPC client (it only logs), the termination callbacks of
  a call bridge (nothing registers one), interface declarations without an implementation (\<open>store/repository.go\<close>, gateways),
  generated protobuf code.
\<close>

end
